(* ===== verification/Go_Prelude.thy ===== *)
theory Go_Prelude
  imports Main "HOL-Library.Word" "HOL-Library.Sublist"
begin

text \<open>
  The parts of Go and its standard library that the modelled sources share: 64-bit signed
  integers with their wrap-around, decimal printing, \<^verbatim>\<open>strings.TrimSpace\<close> and
  \<^verbatim>\<open>strconv.Atoi\<close>, UUIDs, and the application errors of
  \<^verbatim>\<open>internal/pkg/apperror/error.go\<close>.
  Strings are lists of bytes, as in Go; text outside ASCII is written as its UTF-8 bytes.
\<close>

named_theorems go_eval \<open>evaluation rules for the modelled Go primitives on literals\<close>
named_theorems i64_simps \<open>range reasoning about 64-bit signed arithmetic\<close>

section \<open>64-bit signed integers\<close>

text \<open>
  A Go \<^verbatim>\<open>int\<close> or \<^verbatim>\<open>int64\<close> is an \<^typ>\<open>int\<close> in the range below; \<open>wrap64\<close> is the
  two's complement reduction that every Go addition, subtraction and multiplication performs.
\<close>

definition int64_min :: int where "int64_min = -9223372036854775808"
definition int64_max :: int where "int64_max = 9223372036854775807"

definition in_int64 :: "int \<Rightarrow> bool" where
  "in_int64 n \<longleftrightarrow> int64_min \<le> n \<and> n \<le> int64_max"

definition wrap64 :: "int \<Rightarrow> int" where
  "wrap64 n = (n + 9223372036854775808) mod 18446744073709551616 - 9223372036854775808"

lemma wrap64_id [i64_simps]: "in_int64 n \<Longrightarrow> wrap64 n = n"
  by (simp add: in_int64_def wrap64_def int64_min_def int64_max_def)

lemma wrap64_range: "in_int64 (wrap64 n)"
proof -
  let ?m = "(n + 9223372036854775808) mod 18446744073709551616"
  have "0 \<le> ?m" and "?m < 18446744073709551616" by simp_all
  then show ?thesis
    by (simp add: in_int64_def wrap64_def int64_min_def int64_max_def)
qed

lemma wrap64_wrap64 [simp]: "wrap64 (wrap64 n) = wrap64 n"
  by (rule wrap64_id) (rule wrap64_range)

lemma wrap64_eq_sint: "wrap64 n = sint (word_of_int n :: 64 word)"
  by (simp add: wrap64_def sint_sbintrunc' signed_take_bit_eq_take_bit_shift take_bit_eq_mod)

lemma in_int64I [intro]: "\<lbrakk>-9223372036854775808 \<le> n; n \<le> 9223372036854775807\<rbrakk> \<Longrightarrow> in_int64 n"
  by (simp add: in_int64_def int64_min_def int64_max_def)

lemma wrap64_numeral [go_eval]:
  assumes "numeral k \<le> (9223372036854775807::int)"
  shows "wrap64 (numeral k) = numeral k" and "wrap64 (- numeral k) = - numeral k"
proof -
  have "(0::int) < numeral k" by simp
  with assms have "in_int64 (numeral k)" and "in_int64 (- numeral k)"
    unfolding in_int64_def int64_min_def int64_max_def by linarith+
  then show "wrap64 (numeral k) = numeral k" and "wrap64 (- numeral k) = - numeral k"
    by (simp_all add: wrap64_id)
qed

lemma wrap64_small [go_eval]: "wrap64 0 = 0" "wrap64 1 = 1" "wrap64 (- 1) = - 1"
  by (simp_all add: wrap64_def)

lemma wrap64_below:
  assumes "n < -9223372036854775808" "-27670116110564327424 \<le> n"
  shows "wrap64 n = n + 18446744073709551616"
proof -
  let ?a = "n + 9223372036854775808" and ?m = "18446744073709551616 :: int"
  have "?a mod ?m = (?a + ?m) mod ?m" by (rule mod_add_self2 [symmetric])
  also have "\<dots> = ?a + ?m" using assms by (intro mod_pos_pos_trivial) simp_all
  finally show ?thesis by (simp add: wrap64_def)
qed

lemma in_int64_const [simp]: "in_int64 0"
  by (intro in_int64I) simp_all

text \<open>Integer division of Go truncates toward zero.\<close>

definition go_quot :: "int \<Rightarrow> int \<Rightarrow> int" where
  "go_quot a b = sgn a * sgn b * (\<bar>a\<bar> div \<bar>b\<bar>)"

lemma go_quot_nonneg [simp]: "\<lbrakk>0 \<le> a; 0 < b\<rbrakk> \<Longrightarrow> go_quot a b = a div b"
  by (cases "a = 0") (auto simp: go_quot_def sgn_if)

section \<open>Strings\<close>

definition bytes :: "nat list \<Rightarrow> string" where
  "bytes ns = map char_of ns"

text \<open>The punctuation outside ASCII that the messages use, in UTF-8.\<close>

definition sym_ge :: string where "sym_ge = bytes [226, 137, 165]"
definition sym_emdash :: string where "sym_emdash = bytes [226, 128, 148]"
definition sym_minus :: string where "sym_minus = bytes [226, 136, 146]"
definition sym_rub :: string where "sym_rub = bytes [226, 130, 189]"
definition sym_arrow :: string where "sym_arrow = bytes [226, 134, 146]"

fun fmt_nat :: "nat \<Rightarrow> string" where
  "fmt_nat n = (if n < 10 then [char_of (48 + n)] else fmt_nat (n div 10) @ [char_of (48 + n mod 10)])"

declare fmt_nat.simps [simp del]

definition fmt_d :: "int \<Rightarrow> string" where
  "fmt_d n = (if n < 0 then CHR ''-'' # fmt_nat (nat (- n)) else fmt_nat (nat n))"

lemma fmt_nat_nonempty [simp]: "fmt_nat n \<noteq> []"
  by (subst fmt_nat.simps) simp

lemma fmt_d_nonempty [simp]: "fmt_d n \<noteq> []"
  by (simp add: fmt_d_def)

text \<open>
  \<^verbatim>\<open>strings.TrimSpace\<close> strips the characters of \<^verbatim>\<open>unicode.IsSpace\<close> from both
  ends; the list holds their UTF-8 encodings.
\<close>

definition go_spaces :: "string list" where
  "go_spaces = map bytes
     [[9], [10], [11], [12], [13], [32], [194, 133], [194, 160], [225, 154, 128],
      [226, 128, 128], [226, 128, 129], [226, 128, 130], [226, 128, 131], [226, 128, 132],
      [226, 128, 133], [226, 128, 134], [226, 128, 135], [226, 128, 136], [226, 128, 137],
      [226, 128, 138], [226, 128, 168], [226, 128, 169], [226, 128, 175], [226, 129, 159],
      [227, 128, 128]]"

lemma go_spaces_nonempty: "s \<in> set go_spaces \<Longrightarrow> s \<noteq> []"
  by (auto simp: go_spaces_def bytes_def)

function trim_with :: "string list \<Rightarrow> string \<Rightarrow> string" where
  "trim_with seps xs =
     (case find (\<lambda>s. s \<noteq> [] \<and> prefix s xs) seps of
        None \<Rightarrow> xs
      | Some s \<Rightarrow> trim_with seps (drop (length s) xs))"
  by pat_completeness auto
termination
proof (relation "measure (\<lambda>(seps, xs). length xs)")
  fix seps xs s
  assume "find (\<lambda>s. s \<noteq> [] \<and> prefix s xs) seps = Some s"
  then have "s \<noteq> []" and "prefix s xs"
    by (auto simp: find_Some_iff)
  then show "((seps, drop (length s) xs), (seps, xs)) \<in> measure (\<lambda>(seps, xs). length xs)"
    by (cases s; cases xs) auto
qed simp

declare trim_with.simps [simp del]

definition TrimSpace :: "string \<Rightarrow> string" where
  "TrimSpace s = rev (trim_with (map rev go_spaces) (rev (trim_with go_spaces s)))"

text \<open>\<^verbatim>\<open>strconv.Atoi\<close>: an optional sign and at least one digit, in the range of \<^verbatim>\<open>int\<close>.\<close>

definition is_digit_char :: "char \<Rightarrow> bool" where
  "is_digit_char c \<longleftrightarrow> 48 \<le> (of_char c :: nat) \<and> (of_char c :: nat) \<le> 57"

fun digits_val :: "int \<Rightarrow> string \<Rightarrow> int" where
  "digits_val acc [] = acc"
| "digits_val acc (c # cs) = digits_val (10 * acc + (of_char c - 48)) cs"

definition parse_digits :: "string \<Rightarrow> int option" where
  "parse_digits s = (if s \<noteq> [] \<and> list_all is_digit_char s then Some (digits_val 0 s) else None)"

definition Atoi :: "string \<Rightarrow> int option" where
  "Atoi s =
     (let n = (case s of
                 [] \<Rightarrow> None
               | c # cs \<Rightarrow> (if c = CHR ''-'' then map_option uminus (parse_digits cs)
                            else if c = CHR ''+'' then parse_digits cs
                            else parse_digits s))
      in case n of None \<Rightarrow> None | Some v \<Rightarrow> (if in_int64 v then Some v else None))"

text \<open>Printing and parsing an integer round-trips.\<close>

lemma of_char_digit: "n < 10 \<Longrightarrow> (of_char (char_of (48 + n)) :: nat) = 48 + n"
  by (simp add: of_char_of)

lemma of_char_digit_int: "n < 10 \<Longrightarrow> (of_char (char_of (48 + n :: nat)) :: int) = 48 + int n"
proof -
  assume "n < 10"
  have "(of_char (char_of (48 + n)) :: int) = int (of_char (char_of (48 + n)))"
    by (rule of_nat_of_char [symmetric])
  also have "\<dots> = int (48 + n)"
    using \<open>n < 10\<close> by (simp only: of_char_digit)
  finally show ?thesis by simp
qed

lemma fmt_nat_digits: "list_all is_digit_char (fmt_nat n)"
proof (induction n rule: fmt_nat.induct)
  case (1 n)
  show ?case
  proof (cases "n < 10")
    case True
    then show ?thesis by (subst fmt_nat.simps) (simp add: is_digit_char_def of_char_digit)
  next
    case False
    have "is_digit_char (char_of (48 + n mod 10))"
      by (simp add: is_digit_char_def of_char_digit del: of_char_of)
    with False "1.IH" show ?thesis by (subst fmt_nat.simps) simp
  qed
qed

lemma digits_val_append: "digits_val a (xs @ ys) = digits_val (digits_val a xs) ys"
  by (induction xs arbitrary: a) simp_all

lemma digits_val_fmt_nat: "digits_val 0 (fmt_nat n) = int n"
proof (induction n rule: fmt_nat.induct)
  case (1 n)
  show ?case
  proof (cases "n < 10")
    case True
    then show ?thesis by (subst fmt_nat.simps) (simp add: of_char_digit_int)
  next
    case False
    with "1.IH" have "digits_val 0 (fmt_nat (n div 10)) = int (n div 10)" by simp
    moreover have "10 * int (n div 10) + int (n mod 10) = int n" by presburger
    ultimately show ?thesis
      using False
      by (subst fmt_nat.simps) (simp add: digits_val_append of_char_digit_int del: of_char_of)
  qed
qed

lemma parse_digits_fmt_nat: "parse_digits (fmt_nat n) = Some (int n)"
  by (simp add: parse_digits_def fmt_nat_digits digits_val_fmt_nat)

lemma fmt_nat_head: "fmt_nat n = c # cs \<Longrightarrow> c \<noteq> CHR ''-'' \<and> c \<noteq> CHR ''+''"
  using fmt_nat_digits [of n] by (auto simp: is_digit_char_def)

lemma Atoi_fmt_d: "in_int64 n \<Longrightarrow> Atoi (fmt_d n) = Some n"
proof (cases "n < 0")
  case True
  assume "in_int64 n"
  with True show ?thesis
    by (simp add: Atoi_def fmt_d_def parse_digits_fmt_nat)
next
  case False
  assume r: "in_int64 n"
  obtain c cs where c: "fmt_nat (nat n) = c # cs"
    by (cases "fmt_nat (nat n)") simp_all
  with fmt_nat_head [OF c] False r parse_digits_fmt_nat [of "nat n"] show ?thesis
    by (simp add: Atoi_def fmt_d_def)
qed

section \<open>Identifiers and application errors\<close>

text \<open>
  An id stands for the number that its bytes spell, most significant first: ids are only compared and
  ordered. Ids are drawn at random; that no id is drawn twice is a hypothesis where it matters, and the
  type has no upper bound so that it can hold for a run of any length.
\<close>

type_synonym uuid = int

abbreviation uuid_Nil :: uuid where "uuid_Nil \<equiv> 0"

text \<open>
  \<^verbatim>\<open>internal/pkg/apperror/error.go\<close>: a typed error carries a code, a message and an HTTP
  status; \<open>apperror_New\<close> replaces the message of a predefined one.
\<close>

record app_error =
  Code :: string
  Message :: string
  Status :: int

definition ErrNotFound :: app_error where
  "ErrNotFound = \<lparr>Code = ''NOT_FOUND'', Message = ''resource not found'', Status = 404\<rparr>"
definition ErrValidation :: app_error where
  "ErrValidation = \<lparr>Code = ''VALIDATION_ERROR'', Message = ''invalid input'', Status = 400\<rparr>"
definition ErrConflict :: app_error where
  "ErrConflict = \<lparr>Code = ''CONFLICT'', Message = ''resource already exists'', Status = 409\<rparr>"
definition ErrInternal :: app_error where
  "ErrInternal = \<lparr>Code = ''INTERNAL_ERROR'', Message = ''internal server error'', Status = 500\<rparr>"

definition apperror_New :: "app_error \<Rightarrow> string \<Rightarrow> app_error" where
  "apperror_New base msg = \<lparr>Code = Code base, Message = msg, Status = Status base\<rparr>"

abbreviation validation_error :: "string \<Rightarrow> app_error" where
  "validation_error msg \<equiv> apperror_New ErrValidation msg"

text \<open>A Go function that only returns an \<^verbatim>\<open>error\<close> returns an \<open>app_error option\<close>: \<open>None\<close> is \<^verbatim>\<open>nil\<close>.\<close>

type_synonym go_error = "app_error option"

text \<open>A nil check on a Go pointer that is followed by a comparison of its target.\<close>

definition some_and :: "('a \<Rightarrow> bool) \<Rightarrow> 'a option \<Rightarrow> bool" where
  "some_and P x = (case x of None \<Rightarrow> False | Some v \<Rightarrow> P v)"

lemma some_and_simps [simp]: "some_and P None = False" "some_and P (Some v) = P v"
  by (simp_all add: some_and_def)

section \<open>Invariants of state machines\<close>

text \<open>
  The contract between a state machine and an invariant: it holds initially and every step keeps it,
  so it holds in every state that the steps reach.
\<close>

locale state_invariant =
  fixes initial :: "'s \<Rightarrow> bool" and step :: "'s \<Rightarrow> 's \<Rightarrow> bool" and inv :: "'s \<Rightarrow> bool"
  assumes inv_initial: "initial s \<Longrightarrow> inv s"
    and inv_step: "\<lbrakk>inv s; step s t\<rbrakk> \<Longrightarrow> inv t"
begin

lemma inv_steps: "\<lbrakk>step\<^sup>*\<^sup>* s t; inv s\<rbrakk> \<Longrightarrow> inv t"
  by (induction rule: rtranclp_induct) (auto dest: inv_step)

lemma inv_reachable: "\<lbrakk>initial s; step\<^sup>*\<^sup>* s t\<rbrakk> \<Longrightarrow> inv t"
  by (blast intro: inv_steps inv_initial)

end

end
