(* ===== verification/Go_Float.thy ===== *)
theory Go_Float
  imports Complex_Main Go_Prelude
begin

text \<open>
  Go's \<^verbatim>\<open>float64\<close>: IEEE 754 binary64 values with round-to-nearest-even arithmetic, the
  conversions between \<^verbatim>\<open>float64\<close> and \<^verbatim>\<open>int\<close>, the functions of package
  \<^verbatim>\<open>math\<close> that the sources call, and \<^verbatim>\<open>fmt.Sprintf\<close> with a fixed precision.

  A finite value is the rational it denotes, so the two zeros coincide: the model differs from
  binary64 only in the sign of the infinity that a division by a negative zero gives, which needs a
  negative quantity (a negative revenue, price or parameter) that underflows or is multiplied by
  zero before it is divided by. \<open>rnd\<close> is the rounding function with gradual underflow, executable
  on rationals. The target is amd64: no fused multiply-add, and a conversion to an integer out of
  range gives the least \<^verbatim>\<open>int64\<close>. The interface \<open>fp_rounding\<close> states the three laws
  of a rounding function that every later bound uses (monotone, odd, exact on the dyadic numbers
  with a 53-bit significand) and is interpreted on \<open>rnd\<close>.
\<close>

named_theorems f64_eval \<open>evaluation of binary64 operations on finite literals\<close>

section \<open>Rounding a rational to binary64\<close>

definition pow2 :: "int \<Rightarrow> rat" where
  "pow2 k = (if 0 \<le> k then 2 ^ nat k else 1 / 2 ^ nat (- k))"

fun ilog2 :: "nat \<Rightarrow> nat" where
  "ilog2 n = (if n < 2 then 0 else Suc (ilog2 (n div 2)))"

declare ilog2.simps [simp del]

text \<open>\<open>expo x\<close> is the binary exponent of a positive rational: \<open>pow2 (expo x) \<le> x < pow2 (expo x + 1)\<close>.\<close>

definition expo :: "rat \<Rightarrow> int" where
  "expo x = (if 1 \<le> x then int (ilog2 (nat \<lfloor>x\<rfloor>))
             else (let n = nat \<lceil>1 / x\<rceil> in - (if n \<le> 1 then 0 else int (ilog2 (n - 1)) + 1)))"

text \<open>Rounding to the nearest integer, ties to even.\<close>

definition rhe :: "rat \<Rightarrow> int" where
  "rhe y = (let n = \<lfloor>y\<rfloor>; d = y - of_int n
            in if d < 1/2 then n else if 1/2 < d then n + 1 else if even n then n else n + 1)"

definition quantum :: "rat \<Rightarrow> int" where
  "quantum x = max (expo \<bar>x\<bar> - 52) (-1074)"

definition rnd :: "rat \<Rightarrow> rat" where
  "rnd x = (if x = 0 then 0 else of_int (rhe (x / pow2 (quantum x))) * pow2 (quantum x))"

subsection \<open>Powers of two and the exponent\<close>

lemma pow2_pos [simp]: "0 < pow2 k"
  by (simp add: pow2_def)

lemma pow2_nz [simp]: "pow2 k \<noteq> 0"
  using pow2_pos [of k] by linarith

lemma pow2_powi: "pow2 k = 2 powi k"
  by (simp add: pow2_def power_int_def power_one_over)

lemma pow2_abs [simp]: "\<bar>pow2 k\<bar> = pow2 k"
  by (simp add: abs_of_pos)

lemma pow2_add: "pow2 (a + b) = pow2 a * pow2 b"
  by (simp add: pow2_powi power_int_add)

lemma pow2_nat [simp]: "pow2 (int n) = 2 ^ n"
  by (simp add: pow2_def)

lemma pow2_mono: "a \<le> b \<Longrightarrow> pow2 a \<le> pow2 b"
  by (simp add: pow2_powi power_int_increasing)

lemma pow2_diff: "pow2 (a - b) = pow2 a / pow2 b"
  by (simp add: pow2_powi power_int_diff)

lemma ilog2_bounds: "0 < n \<Longrightarrow> 2 ^ ilog2 n \<le> n \<and> n < 2 ^ Suc (ilog2 n)"
proof (induction n rule: ilog2.induct)
  case (1 n)
  show ?case
  proof (cases "n < 2")
    case True
    with "1.prems" show ?thesis by (simp add: ilog2.simps)
  next
    case False
    with "1.IH" have "2 ^ ilog2 (n div 2) \<le> n div 2" and "n div 2 < 2 * 2 ^ ilog2 (n div 2)"
      by auto
    then have "2 * 2 ^ ilog2 (n div 2) \<le> n" and "n < 4 * 2 ^ ilog2 (n div 2)"
      by linarith+
    with False show ?thesis by (simp add: ilog2.simps [of n])
  qed
qed

lemma expo_bounds:
  assumes "0 < x"
  shows "pow2 (expo x) \<le> x" and "x < pow2 (expo x + 1)"
proof -
  have "pow2 (expo x) \<le> x \<and> x < pow2 (expo x + 1)"
  proof (cases "1 \<le> x")
    case True
    define n where "n = nat \<lfloor>x\<rfloor>"
    have n: "0 < n" "of_nat n \<le> x" "x < of_nat n + 1"
      using True by (simp_all add: n_def) linarith+
    have "2 ^ ilog2 n \<le> n" and "n + 1 \<le> 2 ^ Suc (ilog2 n)"
      using ilog2_bounds [OF n(1)] by simp_all
    then have "(2 ^ ilog2 n :: rat) \<le> of_nat n" and "(of_nat (n + 1) :: rat) \<le> 2 ^ Suc (ilog2 n)"
      by (metis of_nat_le_iff of_nat_numeral of_nat_power)+
    then have "2 ^ ilog2 n \<le> x" and "x < 2 ^ Suc (ilog2 n)"
      using n(2,3) of_nat_add [of n 1, where 'a = rat] unfolding of_nat_1 by linarith+
    moreover have "expo x = int (ilog2 n)" using True by (simp add: expo_def n_def)
    moreover have "int (ilog2 n) + 1 = int (Suc (ilog2 n))" by simp
    ultimately show ?thesis by (simp only: pow2_nat)
  next
    case False
    define n where "n = nat \<lceil>1 / x\<rceil>"
    define j where "j = ilog2 (n - 1)"
    have inv: "1 < 1 / x" using False assms by simp
    then have n: "1 / x \<le> of_nat n" "of_nat n < 1 / x + 1" "1 < n"
      by (simp_all add: n_def) linarith+
    have e: "expo x = - (int j + 1)"
      unfolding expo_def Let_def n_def [symmetric] j_def using False n(3) by simp
    have b: "2 ^ j \<le> n - 1" "n - 1 < 2 ^ Suc j"
      using ilog2_bounds [of "n - 1"] n(3) by (simp_all add: j_def)
    then have "2 ^ j + 1 \<le> n" and "n \<le> 2 ^ Suc j" using n(3) by simp_all
    then have "(of_nat (2 ^ j + 1) :: rat) \<le> of_nat n" and "(of_nat n :: rat) \<le> of_nat (2 ^ Suc j)"
      by (simp_all only: of_nat_le_iff)
    then have "(2 ^ j + 1 :: rat) \<le> of_nat n" and "(of_nat n :: rat) \<le> 2 ^ Suc j"
      by (simp_all only: of_nat_add of_nat_1 of_nat_power of_nat_numeral)
    with n have "2 ^ j < 1 / x" and "1 / x \<le> 2 ^ Suc j" by linarith+
    then have "x < 1 / 2 ^ j" and "1 / 2 ^ Suc j \<le> x"
      using assms by (simp_all add: field_simps)
    moreover have "pow2 (- (int j + 1)) = 1 / 2 ^ Suc j"
      by (simp add: pow2_def nat_add_distrib)
    moreover have "pow2 (- int j) = 1 / 2 ^ j"
      by (simp add: pow2_def)
    ultimately show ?thesis by (simp add: e)
  qed
  then show "pow2 (expo x) \<le> x" and "x < pow2 (expo x + 1)" by simp_all
qed

lemma pow2_less_imp: "pow2 a < pow2 b \<Longrightarrow> a < b"
  using pow2_mono [of b a] by linarith

lemma expo_mono: "\<lbrakk>0 < x; x \<le> y\<rbrakk> \<Longrightarrow> expo x \<le> expo y"
proof -
  assume "0 < x" and "x \<le> y"
  then have "pow2 (expo x) < pow2 (expo y + 1)"
    using expo_bounds(1) [of x] expo_bounds(2) [of y] by linarith
  then show ?thesis using pow2_less_imp by fastforce
qed

subsection \<open>Rounding to an integer\<close>

lemma rhe_int [simp]: "rhe (of_int n) = n"
  by (simp add: rhe_def)

lemma rhe_mono: "x \<le> y \<Longrightarrow> rhe x \<le> rhe y"
proof (cases "\<lfloor>x\<rfloor> = \<lfloor>y\<rfloor>")
  case True
  assume "x \<le> y"
  with True show ?thesis by (auto simp: rhe_def Let_def)
next
  case False
  assume "x \<le> y"
  with False have "\<lfloor>x\<rfloor> + 1 \<le> \<lfloor>y\<rfloor>" using floor_mono [of x y] by linarith
  moreover have "rhe x \<le> \<lfloor>x\<rfloor> + 1" and "\<lfloor>y\<rfloor> \<le> rhe y" by (simp_all add: rhe_def Let_def)
  ultimately show ?thesis by linarith
qed

lemma rhe_minus: "rhe (- x) = - rhe x"
proof (cases "x = of_int \<lfloor>x\<rfloor>")
  case True
  then have "rhe (- x) = rhe (of_int (- \<lfloor>x\<rfloor>))" by simp
  also have "\<dots> = - rhe (of_int \<lfloor>x\<rfloor>)" by (simp only: rhe_int)
  finally show ?thesis using True by simp
next
  case False
  then have "\<lfloor>- x\<rfloor> = - \<lfloor>x\<rfloor> - 1"
    by linarith
  then show ?thesis by (auto simp: rhe_def Let_def)
qed

lemma rhe_dist: "\<bar>of_int (rhe x) - x\<bar> \<le> 1/2"
proof -
  have "of_int \<lfloor>x\<rfloor> \<le> x" and "x < of_int \<lfloor>x\<rfloor> + 1" by linarith+
  then show ?thesis by (auto simp: rhe_def Let_def abs_le_iff)
qed

subsection \<open>The laws of the rounding function\<close>

lemma quantum_minus [simp]: "quantum (- x) = quantum x"
  by (simp add: quantum_def)

lemma rnd_0 [simp]: "rnd 0 = 0"
  by (simp add: rnd_def)

lemma rnd_minus: "rnd (- x) = - rnd x"
  by (simp add: rnd_def rhe_minus)

lemma rnd_grid:
  assumes "quantum x \<le> e" "x = of_int m * pow2 e"
  shows "rnd x = x"
proof (cases "x = 0")
  case False
  have "pow2 (e - quantum x) = of_int (2 ^ nat (e - quantum x))"
    using assms(1) by (simp add: pow2_def)
  moreover have "x / pow2 (quantum x) = of_int m * pow2 (e - quantum x)"
    using assms(2) by (simp add: pow2_diff)
  ultimately have "x / pow2 (quantum x) = of_int (m * 2 ^ nat (e - quantum x))"
    by simp
  then have "rhe (x / pow2 (quantum x)) = m * 2 ^ nat (e - quantum x)"
    by (simp only: rhe_int)
  with False \<open>x / pow2 (quantum x) = of_int (m * 2 ^ nat (e - quantum x))\<close> show ?thesis
    by (simp add: rnd_def) (metis nonzero_divide_eq_eq pow2_nz of_int_mult of_int_numeral of_int_power)
qed simp

lemma rnd_fixed_mono:
  assumes "x \<le> y" "0 < x" "quantum x = quantum y"
  shows "rnd x \<le> rnd y"
proof -
  have "rhe (x / pow2 (quantum y)) \<le> rhe (y / pow2 (quantum y))"
    using assms(1) by (intro rhe_mono divide_right_mono) (simp_all add: less_imp_le)
  then show ?thesis
    using assms by (simp add: rnd_def)
qed

lemma rnd_pow2_between:
  assumes "0 < x" "x \<le> pow2 k" "quantum x \<le> k"
  shows "rnd x \<le> pow2 k"
proof -
  define q where "q = quantum x"
  have "pow2 (k - q) = of_int (2 ^ nat (k - q))"
    using assms(3) by (simp add: pow2_def q_def)
  moreover have "x / pow2 q \<le> pow2 (k - q)"
    using assms(2) by (simp add: pow2_diff divide_right_mono less_imp_le)
  ultimately have "rhe (x / pow2 q) \<le> 2 ^ nat (k - q)"
    using rhe_mono [of "x / pow2 q" "of_int (2 ^ nat (k - q))"] by (simp only: rhe_int)
  then have "of_int (rhe (x / pow2 q)) \<le> (of_int (2 ^ nat (k - q)) :: rat)"
    by (simp only: of_int_le_iff)
  also have "\<dots> = pow2 k / pow2 q"
    using \<open>pow2 (k - q) = of_int (2 ^ nat (k - q))\<close> by (simp add: pow2_diff)
  finally have "of_int (rhe (x / pow2 q)) * pow2 q \<le> pow2 k"
    by (simp add: pos_le_divide_eq)
  with assms(1) show ?thesis by (simp add: rnd_def q_def)
qed

lemma rnd_pow2_below:
  assumes "pow2 k \<le> x" "quantum x \<le> k"
  shows "pow2 k \<le> rnd x"
proof -
  define q where "q = quantum x"
  have x: "0 < x" using assms(1) pow2_pos [of k] by linarith
  have "pow2 (k - q) = of_int (2 ^ nat (k - q))"
    using assms(2) by (simp add: pow2_def q_def)
  moreover have "pow2 (k - q) \<le> x / pow2 q"
    using assms(1) by (simp add: pow2_diff divide_right_mono less_imp_le)
  ultimately have "2 ^ nat (k - q) \<le> rhe (x / pow2 q)"
    using rhe_mono [of "of_int (2 ^ nat (k - q))" "x / pow2 q"] by (simp only: rhe_int)
  then have "(of_int (2 ^ nat (k - q)) :: rat) \<le> of_int (rhe (x / pow2 q))"
    by (simp only: of_int_le_iff)
  then have "pow2 k / pow2 q \<le> of_int (rhe (x / pow2 q))"
    using \<open>pow2 (k - q) = of_int (2 ^ nat (k - q))\<close> by (simp add: pow2_diff)
  then have "pow2 k \<le> of_int (rhe (x / pow2 q)) * pow2 q"
    by (simp add: pos_divide_le_eq)
  with x show ?thesis by (simp add: rnd_def q_def)
qed

lemma rnd_pos_mono:
  assumes "0 < x" "x \<le> y"
  shows "rnd x \<le> rnd y"
proof (cases "quantum x = quantum y")
  case True
  with assms show ?thesis by (intro rnd_fixed_mono)
next
  case False
  have y: "0 < y" using assms by linarith
  have "expo x \<le> expo y" using assms by (rule expo_mono)
  with False assms y have q: "quantum y = expo y - 52" "quantum x < quantum y" "expo x < expo y"
    by (auto simp: quantum_def)
  have "x \<le> pow2 (expo y)"
    using expo_bounds(2) [OF assms(1)] pow2_mono [of "expo x + 1" "expo y"] q(3) by linarith
  then have "rnd x \<le> pow2 (expo y)"
    using assms(1) q by (intro rnd_pow2_between) simp_all
  also have "pow2 (expo y) \<le> rnd y"
    using expo_bounds(1) [OF y] q by (intro rnd_pow2_below) simp_all
  finally show ?thesis .
qed

lemma rnd_nonneg: "0 \<le> x \<Longrightarrow> 0 \<le> rnd x"
proof (cases "x = 0")
  case False
  assume "0 \<le> x"
  then have "of_int 0 \<le> x / pow2 (quantum x)" by (simp add: less_imp_le)
  then have "0 \<le> rhe (x / pow2 (quantum x))"
    using rhe_mono [of "of_int 0" "x / pow2 (quantum x)"] by (simp only: rhe_int)
  with False show ?thesis by (simp add: rnd_def less_imp_le)
qed simp

lemma rnd_mono: "x \<le> y \<Longrightarrow> rnd x \<le> rnd y"
proof (cases "0 < x")
  case True
  assume "x \<le> y"
  with True show ?thesis by (rule rnd_pos_mono)
next
  case False
  assume xy: "x \<le> y"
  show ?thesis
  proof (cases "y < 0")
    case True
    with xy have "rnd (- y) \<le> rnd (- x)" by (intro rnd_pos_mono) simp_all
    then show ?thesis by (simp add: rnd_minus)
  next
    case y: False
    from False have "0 \<le> rnd (- x)" by (intro rnd_nonneg) simp
    moreover from y have "0 \<le> rnd y" by (intro rnd_nonneg) simp
    ultimately show ?thesis by (simp add: rnd_minus)
  qed
qed

lemma rnd_pow2:
  assumes "-1074 \<le> k"
  shows "rnd (pow2 k) = pow2 k"
proof -
  have "\<not> k + 1 \<le> expo (pow2 k)"
  proof
    assume "k + 1 \<le> expo (pow2 k)"
    then have "pow2 (k + 1) \<le> pow2 k"
      using pow2_mono [of "k + 1" "expo (pow2 k)"] expo_bounds(1) [of "pow2 k"] by simp
    then show False using pow2_pos [of k] by (simp add: pow2_add) (simp add: pow2_def)
  qed
  then have "quantum (pow2 k) \<le> k"
    using assms by (simp add: quantum_def)
  then show ?thesis by (rule rnd_grid [where m = 1]) simp
qed

lemma rnd_exact:
  assumes "\<bar>m\<bar> \<le> 2 ^ 53" "k \<le> 1074"
  shows "rnd (of_int m / 2 ^ k) = of_int m / 2 ^ k"
proof (cases "\<bar>m\<bar> < 2 ^ 53")
  case True
  let ?x = "of_int m / 2 ^ k :: rat"
  have v: "?x = of_int m * pow2 (- int k)"
    by (simp add: pow2_def)
  show ?thesis
  proof (cases "m = 0")
    case False
    then have "0 < \<bar>?x\<bar>" by simp
    then have "pow2 (expo \<bar>?x\<bar>) \<le> \<bar>?x\<bar>" by (rule expo_bounds(1))
    also have "\<bar>?x\<bar> = of_int \<bar>m\<bar> * pow2 (- int k)" by (simp add: v abs_mult)
    also have "\<dots> < pow2 (53 - int k)"
    proof -
      have "(of_int \<bar>m\<bar> :: rat) < 2 ^ 53"
        using True by (metis of_int_less_iff of_int_numeral of_int_power)
      then have "of_int \<bar>m\<bar> * pow2 (- int k) < 2 ^ 53 * pow2 (- int k)"
        by (rule mult_strict_right_mono) simp
      also have "(2 ^ 53 :: rat) * pow2 (- int k) = pow2 (53 + - int k)"
        by (simp only: pow2_add) (simp add: pow2_def)
      finally show ?thesis by simp
    qed
    finally have "expo \<bar>?x\<bar> < 53 - int k" by (rule pow2_less_imp)
    then have "quantum ?x \<le> - int k"
      using assms(2) by (simp add: quantum_def)
    then show ?thesis using v by (rule rnd_grid)
  qed simp
next
  case False
  with assms(1) consider "m = 2 ^ 53" | "m = - (2 ^ 53)" by linarith
  moreover have "2 ^ 53 / 2 ^ k = pow2 (53 - int k)"
    by (simp add: pow2_diff) (simp add: pow2_def)
  moreover have "rnd (pow2 (53 - int k)) = pow2 (53 - int k)"
    using assms(2) by (intro rnd_pow2) simp
  ultimately show ?thesis
    by cases (simp_all only: of_int_power of_int_numeral of_int_minus minus_divide_left [symmetric] rnd_minus)
qed

subsection \<open>The interface of a rounding function\<close>

text \<open>
  Everything later components know of rounding. \<open>dyadic\<close> numbers are those with at most 53
  significant bits and no bit below \<open>2 ^ -1074\<close>; the client lemmas bound a rounded value by such
  numbers, and by integers up to \<open>2 ^ 53\<close> in particular.
\<close>

locale fp_rounding =
  fixes R :: "rat \<Rightarrow> rat"
  assumes R_mono: "x \<le> y \<Longrightarrow> R x \<le> R y"
    and R_minus: "R (- x) = - R x"
    and R_exact: "\<lbrakk>\<bar>m\<bar> \<le> 2 ^ 53; k \<le> 1074\<rbrakk> \<Longrightarrow> R (of_int m / 2 ^ k) = of_int m / 2 ^ k"
begin

lemma R_int: "\<bar>m\<bar> \<le> 2 ^ 53 \<Longrightarrow> R (of_int m) = of_int m"
  using R_exact [of m 0] by simp

lemma R_zero: "R 0 = 0"
  using R_int [of 0] by simp

lemma R_le_int: "\<lbrakk>x \<le> of_int m; \<bar>m\<bar> \<le> 2 ^ 53\<rbrakk> \<Longrightarrow> R x \<le> of_int m"
  using R_mono [of x "of_int m"] R_int [of m] by simp

lemma R_ge_int: "\<lbrakk>of_int m \<le> x; \<bar>m\<bar> \<le> 2 ^ 53\<rbrakk> \<Longrightarrow> of_int m \<le> R x"
  using R_mono [of "of_int m" x] R_int [of m] by simp

lemma R_le_dyadic:
  "\<lbrakk>x \<le> of_int m / 2 ^ k; \<bar>m\<bar> \<le> 2 ^ 53; k \<le> 1074\<rbrakk> \<Longrightarrow> R x \<le> of_int m / 2 ^ k"
  using R_mono [of x "of_int m / 2 ^ k"] R_exact [of m k] by simp

lemma R_ge_dyadic:
  "\<lbrakk>of_int m / 2 ^ k \<le> x; \<bar>m\<bar> \<le> 2 ^ 53; k \<le> 1074\<rbrakk> \<Longrightarrow> of_int m / 2 ^ k \<le> R x"
  using R_mono [of "of_int m / 2 ^ k" x] R_exact [of m k] by simp

lemma R_nonneg: "0 \<le> x \<Longrightarrow> 0 \<le> R x"
  using R_mono [of 0 x] R_zero by simp

lemma R_nonpos: "x \<le> 0 \<Longrightarrow> R x \<le> 0"
  using R_mono [of x 0] R_zero by simp

lemma R_abs: "\<bar>R x\<bar> = R \<bar>x\<bar>"
proof (cases "0 \<le> x")
  case True
  then show ?thesis using R_nonneg [of x] by simp
next
  case False
  then show ?thesis using R_nonpos [of x] R_minus [of x] by simp
qed

lemma R_abs_le_int: "\<lbrakk>\<bar>x\<bar> \<le> of_int m; \<bar>m\<bar> \<le> 2 ^ 53\<rbrakk> \<Longrightarrow> \<bar>R x\<bar> \<le> of_int m"
  using R_le_int [of "\<bar>x\<bar>" m] R_abs [of x] by simp

end

interpretation b64: fp_rounding rnd
proof unfold_locales
  fix x y :: rat
  show "x \<le> y \<Longrightarrow> rnd x \<le> rnd y" by (rule rnd_mono)
  show "rnd (- x) = - rnd x" by (rule rnd_minus)
next
  fix m :: int and k :: nat
  show "\<lbrakk>\<bar>m\<bar> \<le> 2 ^ 53; k \<le> 1074\<rbrakk> \<Longrightarrow> rnd (of_int m / 2 ^ k) = of_int m / 2 ^ k"
    by (rule rnd_exact)
qed

section \<open>Binary64 values and operations\<close>

datatype f64 = Fin rat | PInf | NInf | NaN

definition overflow_bound :: rat where
  "overflow_bound = 2 ^ 1024"

definition round64 :: "rat \<Rightarrow> f64" where
  "round64 x = (let r = rnd x
                in if overflow_bound \<le> r then PInf else if r \<le> - overflow_bound then NInf else Fin r)"

definition signed_inf :: "bool \<Rightarrow> f64" where
  "signed_inf neg = (if neg then NInf else PInf)"

fun f64_neg :: "f64 \<Rightarrow> bool" where
  "f64_neg (Fin x) = (x < 0)"
| "f64_neg PInf = False"
| "f64_neg NInf = True"
| "f64_neg NaN = False"

text \<open>
  The arithmetic, comparison and absolute-value symbols are overloaded at \<^typ>\<open>f64\<close>, so that a
  definition reads like its source. Comparisons are false on a NaN; \<open>feq\<close> is Go's \<^verbatim>\<open>==\<close>.
\<close>

instantiation f64 :: "{zero, one, plus, minus, uminus, times, inverse, ord, abs}"
begin

definition zero_f64 :: f64 where "zero_f64 = Fin 0"
definition one_f64 :: f64 where "one_f64 = Fin 1"

fun uminus_f64 :: "f64 \<Rightarrow> f64" where
  "uminus_f64 (Fin x) = Fin (- x)"
| "uminus_f64 PInf = NInf"
| "uminus_f64 NInf = PInf"
| "uminus_f64 NaN = NaN"

fun plus_f64 :: "f64 \<Rightarrow> f64 \<Rightarrow> f64" where
  "plus_f64 (Fin x) (Fin y) = round64 (x + y)"
| "plus_f64 NaN _ = NaN"
| "plus_f64 _ NaN = NaN"
| "plus_f64 PInf NInf = NaN"
| "plus_f64 NInf PInf = NaN"
| "plus_f64 PInf _ = PInf"
| "plus_f64 _ PInf = PInf"
| "plus_f64 NInf _ = NInf"
| "plus_f64 _ NInf = NInf"

definition minus_f64 :: "f64 \<Rightarrow> f64 \<Rightarrow> f64" where
  "minus_f64 x y = x + (- y)"

fun times_f64 :: "f64 \<Rightarrow> f64 \<Rightarrow> f64" where
  "times_f64 (Fin x) (Fin y) = round64 (x * y)"
| "times_f64 NaN _ = NaN"
| "times_f64 _ NaN = NaN"
| "times_f64 x y = (if x = Fin 0 \<or> y = Fin 0 then NaN else signed_inf (f64_neg x \<noteq> f64_neg y))"

fun divide_f64 :: "f64 \<Rightarrow> f64 \<Rightarrow> f64" where
  "divide_f64 (Fin x) (Fin y) =
     (if y = 0 then (if x = 0 then NaN else signed_inf (x < 0)) else round64 (x / y))"
| "divide_f64 NaN _ = NaN"
| "divide_f64 _ NaN = NaN"
| "divide_f64 (Fin _) _ = Fin 0"
| "divide_f64 x (Fin y) = signed_inf (f64_neg x \<noteq> (y < 0))"
| "divide_f64 _ _ = NaN"

definition inverse_f64 :: "f64 \<Rightarrow> f64" where
  "inverse_f64 x = divide (Fin 1) x"

fun less_f64 :: "f64 \<Rightarrow> f64 \<Rightarrow> bool" where
  "less_f64 (Fin x) (Fin y) = (x < y)"
| "less_f64 NaN _ = False"
| "less_f64 _ NaN = False"
| "less_f64 PInf _ = False"
| "less_f64 _ PInf = True"
| "less_f64 _ NInf = False"
| "less_f64 NInf _ = True"

fun less_eq_f64 :: "f64 \<Rightarrow> f64 \<Rightarrow> bool" where
  "less_eq_f64 (Fin x) (Fin y) = (x \<le> y)"
| "less_eq_f64 NaN _ = False"
| "less_eq_f64 _ NaN = False"
| "less_eq_f64 _ PInf = True"
| "less_eq_f64 PInf _ = False"
| "less_eq_f64 NInf _ = True"
| "less_eq_f64 _ NInf = False"

fun abs_f64 :: "f64 \<Rightarrow> f64" where
  "abs_f64 (Fin x) = Fin \<bar>x\<bar>"
| "abs_f64 NInf = PInf"
| "abs_f64 PInf = PInf"
| "abs_f64 NaN = NaN"

instance ..

end

definition feq :: "f64 \<Rightarrow> f64 \<Rightarrow> bool" where
  "feq x y \<longleftrightarrow> x = y \<and> x \<noteq> NaN"

definition IsNaN :: "f64 \<Rightarrow> bool" where "IsNaN x \<longleftrightarrow> x = NaN"
definition IsInf :: "f64 \<Rightarrow> bool" where "IsInf x \<longleftrightarrow> x = PInf \<or> x = NInf"

section \<open>Conversions and package math\<close>

text \<open>A decimal constant of the source is the nearest binary64 value.\<close>

definition lit :: "rat \<Rightarrow> f64" where "lit x = round64 x"

definition float_of_int :: "int \<Rightarrow> f64" where "float_of_int n = round64 (of_int n)"

text \<open>
  \<^verbatim>\<open>int(x)\<close> truncates toward zero. Out of range and on NaN the language leaves the result
  to the implementation; the model has the value of the amd64 instruction.
\<close>

definition trunc_rat :: "rat \<Rightarrow> int" where
  "trunc_rat x = (if 0 \<le> x then \<lfloor>x\<rfloor> else \<lceil>x\<rceil>)"

fun int_of_float :: "f64 \<Rightarrow> int" where
  "int_of_float (Fin x) = (if in_int64 (trunc_rat x) then trunc_rat x else int64_min)"
| "int_of_float _ = int64_min"

text \<open>\<^verbatim>\<open>math.Round\<close> rounds half away from zero.\<close>

definition round_away :: "rat \<Rightarrow> int" where
  "round_away x = (if 0 \<le> x then \<lfloor>x + 1/2\<rfloor> else \<lceil>x - 1/2\<rceil>)"

fun math_Round :: "f64 \<Rightarrow> f64" where
  "math_Round (Fin x) = Fin (of_int (round_away x))"
| "math_Round x = x"

fun math_Ceil :: "f64 \<Rightarrow> f64" where
  "math_Ceil (Fin x) = Fin (of_int \<lceil>x\<rceil>)"
| "math_Ceil x = x"

fun math_Floor :: "f64 \<Rightarrow> f64" where
  "math_Floor (Fin x) = Fin (of_int \<lfloor>x\<rfloor>)"
| "math_Floor x = x"

fun math_Max :: "f64 \<Rightarrow> f64 \<Rightarrow> f64" where
  "math_Max (Fin x) (Fin y) = Fin (max x y)"
| "math_Max PInf _ = PInf"
| "math_Max _ PInf = PInf"
| "math_Max NaN _ = NaN"
| "math_Max _ NaN = NaN"
| "math_Max NInf y = y"
| "math_Max x NInf = x"

text \<open>\<^verbatim>\<open>%.<p>f\<close> prints the exact value rounded to \<open>p\<close> decimals, ties to even.\<close>

definition pad_left :: "nat \<Rightarrow> string \<Rightarrow> string" where
  "pad_left n s = replicate (n - length s) (CHR ''0'') @ s"

definition fmt_fixed :: "nat \<Rightarrow> rat \<Rightarrow> string" where
  "fmt_fixed p x =
     (let n = nat (rhe (\<bar>x\<bar> * 10 ^ p)); w = n div 10 ^ p; f = n mod 10 ^ p
      in (if x < 0 then ''-'' else []) @ fmt_nat w @ (if p = 0 then [] else ''.'' @ pad_left p (fmt_nat f)))"

fun fmt_f :: "nat \<Rightarrow> f64 \<Rightarrow> string" where
  "fmt_f p (Fin x) = fmt_fixed p x"
| "fmt_f p PInf = ''+Inf''"
| "fmt_f p NInf = ''-Inf''"
| "fmt_f p NaN = ''NaN''"

section \<open>Reasoning with finite values\<close>

lemma f64_zero_one [simp]: "(0::f64) = Fin 0" "(1::f64) = Fin 1"
  by (simp_all add: zero_f64_def one_f64_def)

lemma minus_f64_Fin [simp]: "Fin x - Fin y = round64 (x - y)"
  by (simp add: minus_f64_def)

lemma feq_Fin [simp]: "feq (Fin x) (Fin y) \<longleftrightarrow> x = y"
  by (simp add: feq_def)

lemma round64_Fin:
  assumes "\<bar>x\<bar> \<le> 2 ^ 53"
  shows "round64 x = Fin (rnd x)"
proof -
  have "\<bar>rnd x\<bar> \<le> of_int (2 ^ 53)"
    using b64.R_abs_le_int [of x "2 ^ 53"] assms by simp
  then have "\<bar>rnd x\<bar> \<le> 2 ^ 53" by simp
  also have "(2 ^ 53 :: rat) < overflow_bound"
    unfolding overflow_bound_def by (rule power_strict_increasing) simp_all
  finally show ?thesis by (auto simp: round64_def Let_def)
qed

lemma round64_int: "\<bar>m\<bar> \<le> 2 ^ 53 \<Longrightarrow> round64 (of_int m) = Fin (of_int m)"
  using round64_Fin [of "of_int m"] b64.R_int [of m]
  by (metis (no_types, opaque_lifting) of_int_abs of_int_le_iff of_int_numeral of_int_power)

lemma float_of_int_exact [simp]: "\<bar>n\<bar> \<le> 2 ^ 53 \<Longrightarrow> float_of_int n = Fin (of_int n)"
  by (simp add: float_of_int_def round64_int)

lemma round64_mono_Fin:
  "\<lbrakk>round64 x = Fin a; round64 y = Fin b; x \<le> y\<rbrakk> \<Longrightarrow> a \<le> b"
  using rnd_mono [of x y] by (auto simp: round64_def Let_def split: if_splits)

lemma round64_Fin_rnd: "round64 x = Fin a \<Longrightarrow> a = rnd x"
  by (auto simp: round64_def Let_def split: if_splits)

text \<open>A rounded product or quotient is finite, or its sign tells which infinity it is.\<close>

lemma round64_cases_nonneg:
  assumes "0 \<le> x"
  obtains "round64 x = PInf" | r where "round64 x = Fin r" "0 \<le> r" "r = rnd x"
proof (cases "overflow_bound \<le> rnd x")
  case True
  then have "round64 x = PInf" by (simp add: round64_def)
  then show ?thesis by (rule that)
next
  case False
  have "0 < overflow_bound" by (simp add: overflow_bound_def)
  with False rnd_nonneg [OF assms] have "round64 x = Fin (rnd x)" by (simp add: round64_def)
  then show ?thesis using rnd_nonneg [OF assms] by (rule that(2)) simp
qed

text \<open>A result between two integers of the exact range stays between them.\<close>

lemma round64_between:
  assumes "of_int a \<le> x" "x \<le> of_int b" "- (2 ^ 53) \<le> a" "b \<le> 2 ^ 53"
  shows "\<exists>r. round64 x = Fin r \<and> of_int a \<le> r \<and> r \<le> of_int b \<and> r = rnd x"
proof -
  have "a \<le> b" using assms(1,2) by (metis of_int_le_iff order_trans)
  then have ab: "\<bar>a\<bar> \<le> 2 ^ 53" "\<bar>b\<bar> \<le> 2 ^ 53" using assms(3,4) by linarith+
  have "(of_int (- (2 ^ 53)) :: rat) \<le> of_int a" "(of_int b :: rat) \<le> of_int (2 ^ 53)"
    using assms(3,4) by (simp_all only: of_int_le_iff)
  then have "\<bar>x\<bar> \<le> 2 ^ 53" using assms(1,2) by simp
  then have "round64 x = Fin (rnd x)" by (rule round64_Fin)
  then show ?thesis
    using b64.R_ge_int [OF assms(1) ab(1)] b64.R_le_int [OF assms(2) ab(2)] by simp
qed

lemma trunc_rat_int [simp]: "trunc_rat (of_int n) = n"
  by (simp add: trunc_rat_def)

lemma int_of_float_int [simp]: "in_int64 n \<Longrightarrow> int_of_float (Fin (of_int n)) = n"
  by simp

lemma int_of_float_range: "in_int64 (int_of_float x)"
  by (cases x) (auto simp: in_int64_def int64_min_def int64_max_def)

lemma round_away_int [simp]: "round_away (of_int n) = n"
proof -
  have "\<lfloor>of_int n + (1/2::rat)\<rfloor> = n" and "\<lceil>of_int n - (1/2::rat)\<rceil> = n" by linarith+
  then show ?thesis by (simp add: round_away_def)
qed

lemma round_away_mono: "x \<le> y \<Longrightarrow> round_away x \<le> round_away y"
  unfolding round_away_def by (auto intro: floor_mono ceiling_mono) linarith

lemma round_away_le_int: "x \<le> of_int n \<Longrightarrow> round_away x \<le> n"
  using round_away_mono [of x "of_int n"] by simp

lemma round_away_ge_int: "of_int n \<le> x \<Longrightarrow> n \<le> round_away x"
  using round_away_mono [of "of_int n" x] by simp

lemma round_away_dist: "\<bar>of_int (round_away x) - x\<bar> \<le> 1/2"
proof (cases "0 \<le> x")
  case True
  have "of_int \<lfloor>x + 1/2\<rfloor> \<le> x + 1/2" and "x + 1/2 < of_int \<lfloor>x + 1/2\<rfloor> + 1" by linarith+
  moreover have "round_away x = \<lfloor>x + 1/2\<rfloor>" using True by (simp add: round_away_def)
  ultimately show ?thesis unfolding abs_le_iff by linarith
next
  case False
  have "x - 1/2 \<le> of_int \<lceil>x - 1/2\<rceil>" and "of_int \<lceil>x - 1/2\<rceil> < x - 1/2 + 1" by linarith+
  moreover have "round_away x = \<lceil>x - 1/2\<rceil>" using False by (simp add: round_away_def)
  ultimately show ?thesis unfolding abs_le_iff by linarith
qed

subsection \<open>Evaluation on literals\<close>

lemma rnd_numeral [f64_eval]:
  assumes "numeral w \<le> (9007199254740992 :: int)"
  shows "rnd (numeral w) = numeral w" and "rnd (- numeral w) = - numeral w"
proof -
  have "\<bar>numeral w\<bar> \<le> (2 ^ 53 :: int)" using assms by (simp only: abs_numeral) simp
  then have "rnd (of_int (numeral w)) = of_int (numeral w)" by (rule b64.R_int)
  then show "rnd (numeral w) = numeral w" by simp
  then show "rnd (- numeral w) = - numeral w" by (simp add: rnd_minus)
qed

lemma rnd_one [f64_eval]: "rnd 1 = 1" "rnd (- 1) = - 1"
  using b64.R_int [of 1] by (simp_all add: rnd_minus)

lemma floor_rat_eval [f64_eval]:
  "\<lfloor>numeral a / numeral b :: rat\<rfloor> = numeral a div numeral b"
  "\<lfloor>1 / numeral b :: rat\<rfloor> = 1 div numeral b"
  "\<lfloor>- (numeral a / numeral b) :: rat\<rfloor> = - numeral a div numeral b"
  "\<lfloor>- (1 / numeral b) :: rat\<rfloor> = - 1 div numeral b"
  using floor_divide_of_int_eq [of "numeral a" "numeral b", where 'a = rat]
    floor_divide_of_int_eq [of "- numeral a" "numeral b", where 'a = rat]
    floor_divide_of_int_eq [of 1 "numeral b", where 'a = rat]
    floor_divide_of_int_eq [of "- 1" "numeral b", where 'a = rat]
  by simp_all

lemma ceiling_rat_eval [f64_eval]:
  "\<lceil>numeral a / numeral b :: rat\<rceil> = - (- numeral a div numeral b)"
  "\<lceil>1 / numeral b :: rat\<rceil> = - (- 1 div numeral b)"
  "\<lceil>- (numeral a / numeral b) :: rat\<rceil> = - (numeral a div numeral b)"
  "\<lceil>- (1 / numeral b) :: rat\<rceil> = - (1 div numeral b)"
  unfolding ceiling_def minus_minus by (simp_all only: floor_rat_eval)

lemma ilog2_eval [f64_eval]:
  "ilog2 0 = 0" "ilog2 1 = 0" "ilog2 (Suc 0) = 0"
  "ilog2 (numeral (Num.Bit0 k)) = Suc (ilog2 (numeral k))"
  "ilog2 (numeral (Num.Bit1 k)) = Suc (ilog2 (numeral k))"
  by (simp_all add: ilog2.simps)

lemma rnd_eval:
  "x \<noteq> 0 \<Longrightarrow> rnd x = of_int (rhe (x / pow2 (quantum x))) * pow2 (quantum x)"
  by (simp add: rnd_def)

lemma round64_eval [f64_eval]:
  "\<bar>x\<bar> \<le> 9007199254740992 \<Longrightarrow> round64 x = Fin (rnd x)"
  by (rule round64_Fin) simp

lemma fmt_nat_eval [f64_eval]:
  "fmt_nat 0 = [char_of (48::nat)]" "fmt_nat 1 = [char_of (49::nat)]" "fmt_nat (Suc 0) = [char_of (49::nat)]"
  "fmt_nat (numeral k) = (if numeral k < (10::nat) then [char_of (48 + numeral k :: nat)]
     else fmt_nat (numeral k div 10) @ [char_of (48 + numeral k mod 10 :: nat)])"
  by (simp_all add: fmt_nat.simps [of 0] fmt_nat.simps [of "Suc 0"] fmt_nat.simps [of "numeral k"])

lemmas f64_defs = expo_def rhe_def quantum_def Let_def pow2_def lit_def float_of_int_def
  round_away_def trunc_rat_def in_int64_def int64_min_def int64_max_def

end
