(* ===== verification/Strategy_Params.thy ===== *)
theory Strategy_Params
  imports Go_Float
begin

text \<open>
  The strategy data model of \<^verbatim>\<open>internal/domain/strategy.go\<close>: strategy types and their
  classification, the parameter struct with the two default-filling functions
  \<^verbatim>\<open>Merged\<close> and \<^verbatim>\<open>MergedPriceParams\<close>, strategies and bindings.
  A Go map is the list of its entries in the order a \<^verbatim>\<open>range\<close> visits them, so that a
  statement about every list is a statement about every iteration order.
\<close>

section \<open>Strategy types\<close>

definition StrategyTypeACoS :: string where "StrategyTypeACoS = ''acos''"
definition StrategyTypeROAS :: string where "StrategyTypeROAS = ''roas''"
definition StrategyTypeAntiSliv :: string where "StrategyTypeAntiSliv = ''anti_sliv''"
definition StrategyTypeDayparting :: string where "StrategyTypeDayparting = ''dayparting''"
definition StrategyTypeRecommendation :: string where "StrategyTypeRecommendation = ''recommendation''"
definition StrategyTypeSearchPlaybook :: string where "StrategyTypeSearchPlaybook = ''search_playbook''"
definition StrategyTypePriceMarginFloor :: string where
  "StrategyTypePriceMarginFloor = ''price_margin_floor''"
definition StrategyTypePriceInventoryDemand :: string where
  "StrategyTypePriceInventoryDemand = ''price_inventory_demand''"
definition StrategyTypePriceAdLinked :: string where
  "StrategyTypePriceAdLinked = ''price_ad_linked''"
definition StrategyTypePricePeakHours :: string where
  "StrategyTypePricePeakHours = ''price_peak_hours''"
definition StrategyTypePriceCompetitorFollow :: string where
  "StrategyTypePriceCompetitorFollow = ''price_competitor_follow''"
definition StrategyTypeOzonCPCTargetDRR :: string where
  "StrategyTypeOzonCPCTargetDRR = ''ozon_cpc_target_drr''"
definition StrategyTypeOzonAIAutopilot :: string where
  "StrategyTypeOzonAIAutopilot = ''ozon_ai_autopilot''"
definition StrategyTypeOzonPriceMarginFloor :: string where
  "StrategyTypeOzonPriceMarginFloor = ''ozon_price_margin_floor''"
definition StrategyTypeOzonPriceCompetitorFollow :: string where
  "StrategyTypeOzonPriceCompetitorFollow = ''ozon_price_competitor_follow''"
definition StrategyTypeOzonPriceInventoryDemand :: string where
  "StrategyTypeOzonPriceInventoryDemand = ''ozon_price_inventory_demand''"
definition StrategyTypeOzonPriceAdLinked :: string where
  "StrategyTypeOzonPriceAdLinked = ''ozon_price_ad_linked''"
definition StrategyTypeOzonPricePeakHours :: string where
  "StrategyTypeOzonPricePeakHours = ''ozon_price_peak_hours''"

lemmas strategy_type_defs =
  StrategyTypeACoS_def StrategyTypeROAS_def StrategyTypeAntiSliv_def StrategyTypeDayparting_def
  StrategyTypeRecommendation_def StrategyTypeSearchPlaybook_def StrategyTypePriceMarginFloor_def
  StrategyTypePriceInventoryDemand_def StrategyTypePriceAdLinked_def StrategyTypePricePeakHours_def
  StrategyTypePriceCompetitorFollow_def StrategyTypeOzonCPCTargetDRR_def
  StrategyTypeOzonAIAutopilot_def StrategyTypeOzonPriceMarginFloor_def
  StrategyTypeOzonPriceCompetitorFollow_def StrategyTypeOzonPriceInventoryDemand_def
  StrategyTypeOzonPriceAdLinked_def StrategyTypeOzonPricePeakHours_def

definition KnownStrategyTypes :: "string list" where
  "KnownStrategyTypes =
     [StrategyTypeACoS, StrategyTypeROAS, StrategyTypeAntiSliv, StrategyTypeDayparting,
      StrategyTypeRecommendation, StrategyTypeSearchPlaybook, StrategyTypePriceMarginFloor,
      StrategyTypePriceInventoryDemand, StrategyTypePriceAdLinked, StrategyTypePricePeakHours,
      StrategyTypePriceCompetitorFollow, StrategyTypeOzonCPCTargetDRR, StrategyTypeOzonAIAutopilot,
      StrategyTypeOzonPriceMarginFloor, StrategyTypeOzonPriceCompetitorFollow,
      StrategyTypeOzonPriceInventoryDemand, StrategyTypeOzonPriceAdLinked,
      StrategyTypeOzonPricePeakHours]"

fun known_loop :: "string list \<Rightarrow> string \<Rightarrow> bool" where
  "known_loop [] t = False"
| "known_loop (known # ks) t = (if known = t then True else known_loop ks t)"

definition IsKnownStrategyType :: "string \<Rightarrow> bool" where
  "IsKnownStrategyType t = known_loop KnownStrategyTypes t"

definition IsOzonPriceStrategy :: "string \<Rightarrow> bool" where
  "IsOzonPriceStrategy t \<longleftrightarrow>
     t = StrategyTypeOzonPriceMarginFloor \<or> t = StrategyTypeOzonPriceCompetitorFollow \<or>
     t = StrategyTypeOzonPriceInventoryDemand \<or> t = StrategyTypeOzonPriceAdLinked \<or>
     t = StrategyTypeOzonPricePeakHours"

definition IsOzonStrategy :: "string \<Rightarrow> bool" where
  "IsOzonStrategy t \<longleftrightarrow>
     t = StrategyTypeOzonCPCTargetDRR \<or> t = StrategyTypeOzonAIAutopilot \<or> IsOzonPriceStrategy t"

definition IsPriceStrategy :: "string \<Rightarrow> bool" where
  "IsPriceStrategy t \<longleftrightarrow>
     t = StrategyTypePriceMarginFloor \<or> t = StrategyTypePriceInventoryDemand \<or>
     t = StrategyTypePriceAdLinked \<or> t = StrategyTypePricePeakHours \<or>
     t = StrategyTypePriceCompetitorFollow"

definition PriceApplyModeDryRun :: string where "PriceApplyModeDryRun = ''dry_run''"
definition PriceApplyModeAuto :: string where "PriceApplyModeAuto = ''auto''"

lemmas strategy_class_defs =
  IsPriceStrategy_def IsOzonStrategy_def IsOzonPriceStrategy_def

lemma known_loop_set: "known_loop ks t \<longleftrightarrow> t \<in> set ks"
  by (induction ks) auto

lemma IsKnownStrategyType_set: "IsKnownStrategyType t \<longleftrightarrow> t \<in> set KnownStrategyTypes"
  by (simp add: IsKnownStrategyType_def known_loop_set)

section \<open>Parameters\<close>

record StrategyParams =
  TargetACoS :: f64
  TargetROAS :: f64
  MaxACoS :: f64
  BaseMultiplier :: f64
  HourlyMultipliers :: "(string \<times> f64) list"
  WeekdayMultipliers :: "(string \<times> f64) list"
  Timezone :: string
  FrequencyTier :: string
  TargetPosition :: f64
  SacrificialSpendPricePct :: f64
  FlatImpressionsPct :: f64
  RollbackStepPercent :: f64
  MaxTotalDRRPercent :: "f64 option"
  TargetTotalDRRPercent :: f64
  ExpectedBuyoutPercent :: f64
  MinBid :: int
  MaxBid :: int
  MaxCPC :: f64
  MaxCPO :: f64
  AutomationLevel :: int
  MaxChangePercent :: f64
  MinClicks :: int
  LookbackDays :: int
  MinStockForIncrease :: int
  CooldownMinutes :: int
  MaxChangesPerDay :: int
  MaxActionsPerDay :: int
  MaxDataAgeHours :: int
  AllowIncreaseWithoutStock :: bool
  MinPriceRub :: "int option"
  MaxPriceRub :: "int option"
  StepPercent :: f64
  OverstockDays :: int
  LowStockDays :: int
  SlowVelocityPerDay :: f64
  PriceCooldownHours :: int
  MaxPriceChangesPerDay :: int
  PriceApplyMode :: string
  AdLookbackDays :: int
  MaxAllowedDRRPercent :: "f64 option"
  PeakUpliftPercent :: f64
  DeadDiscountPercent :: f64
  UndercutPercent :: f64
  MaxDiscountPercent :: f64
  TargetMarginPercent :: f64

text \<open>The zero value of the struct.\<close>

definition zero_StrategyParams :: StrategyParams where
  "zero_StrategyParams =
     \<lparr>TargetACoS = 0, TargetROAS = 0, MaxACoS = 0, BaseMultiplier = 0, HourlyMultipliers = [],
      WeekdayMultipliers = [], Timezone = [], FrequencyTier = [], TargetPosition = 0,
      SacrificialSpendPricePct = 0, FlatImpressionsPct = 0, RollbackStepPercent = 0,
      MaxTotalDRRPercent = None, TargetTotalDRRPercent = 0, ExpectedBuyoutPercent = 0, MinBid = 0,
      MaxBid = 0, MaxCPC = 0, MaxCPO = 0, AutomationLevel = 0, MaxChangePercent = 0, MinClicks = 0,
      LookbackDays = 0, MinStockForIncrease = 0, CooldownMinutes = 0, MaxChangesPerDay = 0,
      MaxActionsPerDay = 0, MaxDataAgeHours = 0, AllowIncreaseWithoutStock = False,
      MinPriceRub = None, MaxPriceRub = None, StepPercent = 0, OverstockDays = 0, LowStockDays = 0,
      SlowVelocityPerDay = 0, PriceCooldownHours = 0, MaxPriceChangesPerDay = 0, PriceApplyMode = [],
      AdLookbackDays = 0, MaxAllowedDRRPercent = None, PeakUpliftPercent = 0,
      DeadDiscountPercent = 0, UndercutPercent = 0, MaxDiscountPercent = 0, TargetMarginPercent = 0\<rparr>"

definition DefaultPriceParams :: StrategyParams where
  "DefaultPriceParams = zero_StrategyParams
     \<lparr>StepPercent := Fin 3, OverstockDays := 60, LowStockDays := 14, PriceCooldownHours := 24,
      MaxPriceChangesPerDay := 2, PriceApplyMode := PriceApplyModeDryRun, AdLookbackDays := 7,
      PeakUpliftPercent := Fin 8, DeadDiscountPercent := Fin 12, MaxDiscountPercent := Fin 30,
      UndercutPercent := Fin 2\<rparr>"

definition DefaultStrategyParams :: StrategyParams where
  "DefaultStrategyParams = zero_StrategyParams
     \<lparr>MinBid := 50, MaxBid := 5000, AutomationLevel := 1, MaxChangePercent := Fin 15,
      MinClicks := 10, LookbackDays := 7, BaseMultiplier := Fin 1, Timezone := ''Europe/Moscow'',
      MinStockForIncrease := 1, CooldownMinutes := 120, MaxChangesPerDay := 3,
      MaxActionsPerDay := 10, MaxDataAgeHours := 36\<rparr>"

text \<open>
  Default filling: a zero field takes its default. Each of the source's conditionals writes one
  field and reads no field another one wrote, except the step cap, which reads the filled step.
\<close>

definition dflt_f :: "f64 \<Rightarrow> f64 \<Rightarrow> f64" where "dflt_f v d = (if feq v 0 then d else v)"
definition dflt_i :: "int \<Rightarrow> int \<Rightarrow> int" where "dflt_i v d = (if v = 0 then d else v)"
definition dflt_s :: "string \<Rightarrow> string \<Rightarrow> string" where "dflt_s v d = (if v = [] then d else v)"

definition MergedPriceParams :: "StrategyParams \<Rightarrow> StrategyParams" where
  "MergedPriceParams p =
     (let d = DefaultPriceParams; step = dflt_f (StepPercent p) (StepPercent d) in
      p\<lparr>StepPercent := (if step > Fin 10 then Fin 10 else step),
        OverstockDays := dflt_i (OverstockDays p) (OverstockDays d),
        LowStockDays := dflt_i (LowStockDays p) (LowStockDays d),
        PriceCooldownHours := dflt_i (PriceCooldownHours p) (PriceCooldownHours d),
        MaxPriceChangesPerDay := dflt_i (MaxPriceChangesPerDay p) (MaxPriceChangesPerDay d),
        PriceApplyMode := dflt_s (PriceApplyMode p) (PriceApplyMode d),
        AdLookbackDays := dflt_i (AdLookbackDays p) (AdLookbackDays d),
        PeakUpliftPercent := dflt_f (PeakUpliftPercent p) (PeakUpliftPercent d),
        DeadDiscountPercent := dflt_f (DeadDiscountPercent p) (DeadDiscountPercent d),
        MaxDiscountPercent := dflt_f (MaxDiscountPercent p) (MaxDiscountPercent d),
        UndercutPercent := dflt_f (UndercutPercent p) (UndercutPercent d)\<rparr>)"

definition Merged :: "StrategyParams \<Rightarrow> StrategyParams" where
  "Merged p =
     (let d = DefaultStrategyParams in
      p\<lparr>MinBid := dflt_i (MinBid p) (MinBid d),
        MaxBid := dflt_i (MaxBid p) (MaxBid d),
        MaxChangePercent := dflt_f (MaxChangePercent p) (MaxChangePercent d),
        AutomationLevel := dflt_i (AutomationLevel p) (AutomationLevel d),
        MinClicks := dflt_i (MinClicks p) (MinClicks d),
        LookbackDays := dflt_i (LookbackDays p) (LookbackDays d),
        BaseMultiplier := dflt_f (BaseMultiplier p) (BaseMultiplier d),
        Timezone := dflt_s (Timezone p) (Timezone d),
        MinStockForIncrease := dflt_i (MinStockForIncrease p) (MinStockForIncrease d),
        CooldownMinutes := dflt_i (CooldownMinutes p) (CooldownMinutes d),
        MaxChangesPerDay := dflt_i (MaxChangesPerDay p) (MaxChangesPerDay d),
        MaxActionsPerDay := dflt_i (MaxActionsPerDay p) (MaxActionsPerDay d),
        MaxDataAgeHours := dflt_i (MaxDataAgeHours p) (MaxDataAgeHours d),
        SacrificialSpendPricePct := dflt_f (SacrificialSpendPricePct p) (Fin 100),
        FlatImpressionsPct := dflt_f (FlatImpressionsPct p) (Fin 20),
        RollbackStepPercent := dflt_f (RollbackStepPercent p) (Fin 9)\<rparr>)"

section \<open>Strategies and bindings\<close>

record StrategyBinding =
  sb_ID :: uuid
  sb_StrategyID :: uuid
  sb_CampaignID :: "uuid option"
  sb_ProductID :: "uuid option"
  sb_OzonCampaignID :: "uuid option"

record Strategy =
  st_ID :: uuid
  st_WorkspaceID :: uuid
  st_SellerCabinetID :: uuid
  st_Name :: string
  st_Type :: string
  st_Params :: StrategyParams
  st_IsActive :: bool
  st_Bindings :: "StrategyBinding list"

section \<open>Lemmas on default filling\<close>

lemma dflt_idem [simp]:
  "dflt_f (dflt_f u e) e = dflt_f u e" "dflt_i (dflt_i v d) d = dflt_i v d"
  "dflt_s (dflt_s w c) c = dflt_s w c"
  by (simp_all add: dflt_f_def dflt_i_def dflt_s_def)

lemma dflt_f_Fin [simp]: "dflt_f (Fin x) d = (if x = 0 then d else Fin x)"
  by (simp add: dflt_f_def)

lemma dflt_nonzero:
  "d \<noteq> 0 \<Longrightarrow> dflt_i v d \<noteq> 0" "c \<noteq> [] \<Longrightarrow> dflt_s w c \<noteq> []"
  "\<not> feq e 0 \<Longrightarrow> \<not> feq (dflt_f u e) 0"
  by (simp_all add: dflt_f_def dflt_i_def dflt_s_def)

lemmas params_defs = zero_StrategyParams_def DefaultPriceParams_def DefaultStrategyParams_def

lemma DefaultStrategyParams_sel [simp]:
  "MinBid DefaultStrategyParams = 50" "MaxBid DefaultStrategyParams = 5000"
  "AutomationLevel DefaultStrategyParams = 1" "MaxChangePercent DefaultStrategyParams = Fin 15"
  "MinClicks DefaultStrategyParams = 10" "LookbackDays DefaultStrategyParams = 7"
  "BaseMultiplier DefaultStrategyParams = Fin 1" "Timezone DefaultStrategyParams = ''Europe/Moscow''"
  "MinStockForIncrease DefaultStrategyParams = 1" "CooldownMinutes DefaultStrategyParams = 120"
  "MaxChangesPerDay DefaultStrategyParams = 3" "MaxActionsPerDay DefaultStrategyParams = 10"
  "MaxDataAgeHours DefaultStrategyParams = 36"
  by (simp_all add: params_defs)

lemma DefaultPriceParams_sel [simp]:
  "StepPercent DefaultPriceParams = Fin 3" "OverstockDays DefaultPriceParams = 60"
  "LowStockDays DefaultPriceParams = 14" "PriceCooldownHours DefaultPriceParams = 24"
  "MaxPriceChangesPerDay DefaultPriceParams = 2"
  "PriceApplyMode DefaultPriceParams = PriceApplyModeDryRun" "AdLookbackDays DefaultPriceParams = 7"
  "PeakUpliftPercent DefaultPriceParams = Fin 8" "DeadDiscountPercent DefaultPriceParams = Fin 12"
  "MaxDiscountPercent DefaultPriceParams = Fin 30" "UndercutPercent DefaultPriceParams = Fin 2"
  by (simp_all add: params_defs)

lemma Merged_sel [simp]:
  "MinBid (Merged p) = dflt_i (MinBid p) 50" "MaxBid (Merged p) = dflt_i (MaxBid p) 5000"
  "MaxChangePercent (Merged p) = dflt_f (MaxChangePercent p) (Fin 15)"
  "AutomationLevel (Merged p) = dflt_i (AutomationLevel p) 1"
  "MinClicks (Merged p) = dflt_i (MinClicks p) 10"
  "LookbackDays (Merged p) = dflt_i (LookbackDays p) 7"
  "BaseMultiplier (Merged p) = dflt_f (BaseMultiplier p) (Fin 1)"
  "Timezone (Merged p) = dflt_s (Timezone p) ''Europe/Moscow''"
  "TargetACoS (Merged p) = TargetACoS p" "TargetROAS (Merged p) = TargetROAS p"
  "MaxACoS (Merged p) = MaxACoS p" "MaxCPC (Merged p) = MaxCPC p" "MaxCPO (Merged p) = MaxCPO p"
  "TargetPosition (Merged p) = TargetPosition p" "FrequencyTier (Merged p) = FrequencyTier p"
  "HourlyMultipliers (Merged p) = HourlyMultipliers p"
  "WeekdayMultipliers (Merged p) = WeekdayMultipliers p"
  "SacrificialSpendPricePct (Merged p) = dflt_f (SacrificialSpendPricePct p) (Fin 100)"
  "FlatImpressionsPct (Merged p) = dflt_f (FlatImpressionsPct p) (Fin 20)"
  "RollbackStepPercent (Merged p) = dflt_f (RollbackStepPercent p) (Fin 9)"
  "MaxChangesPerDay (Merged p) = dflt_i (MaxChangesPerDay p) 3"
  "CooldownMinutes (Merged p) = dflt_i (CooldownMinutes p) 120"
  by (simp_all add: Merged_def)

lemma Merged_idem: "Merged (Merged p) = Merged p"
  by (simp add: Merged_def)

text \<open>The capped step is at most 10 unless it is NaN, which no stored parameter can be.\<close>

lemma MergedPriceParams_sel [simp]:
  "MinPriceRub (MergedPriceParams p) = MinPriceRub p"
  "MaxPriceRub (MergedPriceParams p) = MaxPriceRub p"
  "MaxAllowedDRRPercent (MergedPriceParams p) = MaxAllowedDRRPercent p"
  "SlowVelocityPerDay (MergedPriceParams p) = SlowVelocityPerDay p"
  "PriceApplyMode (MergedPriceParams p) = dflt_s (PriceApplyMode p) PriceApplyModeDryRun"
  "MaxDiscountPercent (MergedPriceParams p) = dflt_f (MaxDiscountPercent p) (Fin 30)"
  "UndercutPercent (MergedPriceParams p) = dflt_f (UndercutPercent p) (Fin 2)"
  "PeakUpliftPercent (MergedPriceParams p) = dflt_f (PeakUpliftPercent p) (Fin 8)"
  "DeadDiscountPercent (MergedPriceParams p) = dflt_f (DeadDiscountPercent p) (Fin 12)"
  "OverstockDays (MergedPriceParams p) = dflt_i (OverstockDays p) 60"
  "LowStockDays (MergedPriceParams p) = dflt_i (LowStockDays p) 14"
  "PriceCooldownHours (MergedPriceParams p) = dflt_i (PriceCooldownHours p) 24"
  "MaxPriceChangesPerDay (MergedPriceParams p) = dflt_i (MaxPriceChangesPerDay p) 2"
  by (simp_all add: MergedPriceParams_def Let_def)

lemma MergedPriceParams_step:
  "StepPercent (MergedPriceParams p) =
     (let s = dflt_f (StepPercent p) (Fin 3) in if s > Fin 10 then Fin 10 else s)"
  by (simp add: MergedPriceParams_def Let_def)

lemma MergedPriceParams_step_Fin:
  assumes "StepPercent p = Fin s" "0 \<le> s"
  obtains t where "StepPercent (MergedPriceParams p) = Fin t" "0 < t" "t \<le> 10"
proof (cases "s = 0 \<or> 10 < s")
  case True
  with assms show ?thesis
    by (intro that [of "if s = 0 then 3 else 10"]) (auto simp: MergedPriceParams_step Let_def)
next
  case False
  with assms show ?thesis
    by (intro that [of s]) (auto simp: MergedPriceParams_step Let_def)
qed

lemma MergedPriceParams_idem: "MergedPriceParams (MergedPriceParams p) = MergedPriceParams p"
  by (simp add: MergedPriceParams_def Let_def)

end
