(* ===== verification/Price_Engine.thy ===== *)
theory Price_Engine
  imports Strategy_Params
begin

text \<open>
  The price engine of \<^verbatim>\<open>internal/service/priceengine.go\<close>: the margin floor from the unit
  economics, the conversion of a target price to the base price that is sent with a constant
  discount, and the five decision functions of the repricer. All amounts are integer rubles, computed
  in binary64 as the source does. \<open>repricer_decision\<close> states what every decision function promises its
  caller; it is interpreted on the five of them.
\<close>

named_theorems price_defs \<open>definitions of the price engine, for evaluation\<close>

section \<open>Data\<close>

record ProductPrice =
  pp_ID :: uuid
  pp_WorkspaceID :: uuid
  pp_SellerCabinetID :: uuid
  pp_WBProductID :: int
  pp_PriceRub :: int
  pp_DiscountPercent :: int
  pp_ClubDiscountPercent :: int
  pp_DiscountedPriceRub :: "int option"
  pp_EditableSizePrice :: bool
  pp_SyncedAt :: int
  pp_UpdatedAt :: int

text \<open>Instants are integers; the zero \<^verbatim>\<open>time.Time\<close> is \<open>0\<close>.\<close>

definition EffectivePriceRub :: "ProductPrice \<Rightarrow> int" where
  "EffectivePriceRub p = (case pp_DiscountedPriceRub p of Some d \<Rightarrow> d | None \<Rightarrow> pp_PriceRub p)"

record ProductEconomics =
  pe_WBProductID :: int
  pe_CostPrice :: "int option"
  pe_LogisticsCost :: "int option"
  pe_OtherCosts :: "int option"
  pe_TaxRatePercent :: "f64 option"
  pe_CommissionPercent :: "f64 option"
  pe_TargetMarginPercent :: "f64 option"
  pe_MaxAllowedDRR :: "f64 option"

record PriceEngineInputs =
  in_Current :: ProductPrice
  in_Economics :: ProductEconomics
  in_CommissionFallbackPercent :: "f64 option"
  in_Stock :: int
  in_StockKnown :: bool
  in_SalesUnitsPerDay :: f64
  in_DRR :: "f64 option"
  in_HasActiveCampaigns :: bool

record PriceDecision =
  pd_ShouldChange :: bool
  pd_NewPriceRub :: int
  pd_NewDiscountPercent :: int
  pd_TargetEffectiveRub :: int
  pd_MinPriceRub :: int
  pd_Direction :: string
  pd_Reason :: string
  pd_SkipReason :: string

definition zero_PriceDecision :: PriceDecision where
  "zero_PriceDecision = \<lparr>pd_ShouldChange = False, pd_NewPriceRub = 0, pd_NewDiscountPercent = 0,
     pd_TargetEffectiveRub = 0, pd_MinPriceRub = 0, pd_Direction = [], pd_Reason = [], pd_SkipReason = []\<rparr>"

definition price_skip :: "string \<Rightarrow> PriceDecision" where
  "price_skip reason = zero_PriceDecision\<lparr>pd_Direction := ''none'', pd_SkipReason := reason\<rparr>"

definition noChange :: "string \<Rightarrow> int \<Rightarrow> PriceDecision" where
  "noChange reason floorRub =
     zero_PriceDecision\<lparr>pd_Direction := ''none'', pd_Reason := reason, pd_MinPriceRub := floorRub\<rparr>"

section \<open>Floors and base prices\<close>

definition opt_f :: "f64 option \<Rightarrow> f64" where "opt_f x = (case x of None \<Rightarrow> 0 | Some v \<Rightarrow> v)"

text \<open>
  The three intermediate values of \<^verbatim>\<open>ComputeMinEffectivePrice\<close>: the unit cost, the commission with
  its fallback, and the share of the price that is left after commission, tax and margin.
\<close>

definition econ_cost :: "ProductEconomics \<Rightarrow> int option" where
  "econ_cost econ =
     (case pe_CostPrice econ of
        None \<Rightarrow> None
      | Some cost0 \<Rightarrow>
        let cost1 = (case pe_LogisticsCost econ of None \<Rightarrow> cost0 | Some l \<Rightarrow> wrap64 (cost0 + l))
        in Some (case pe_OtherCosts econ of None \<Rightarrow> cost1 | Some c \<Rightarrow> wrap64 (cost1 + c)))"

definition econ_commission :: "ProductEconomics \<Rightarrow> f64 option \<Rightarrow> f64 option" where
  "econ_commission econ commissionFallback =
     (case pe_CommissionPercent econ of Some c \<Rightarrow> Some c | None \<Rightarrow> commissionFallback)"

definition econ_denom :: "ProductEconomics \<Rightarrow> f64 \<Rightarrow> f64" where
  "econ_denom econ commission =
     Fin 1 - (commission + opt_f (pe_TaxRatePercent econ) + opt_f (pe_TargetMarginPercent econ)) / Fin 100"

definition ComputeMinEffectivePrice :: "ProductEconomics \<Rightarrow> f64 option \<Rightarrow> int \<times> string" where
  "ComputeMinEffectivePrice econ commissionFallback =
     (case econ_cost econ of
        None \<Rightarrow> (0, ''missing_cost_price'')
      | Some cost \<Rightarrow>
        if cost < 0 then (0, ''negative_cost'')
        else
          case econ_commission econ commissionFallback of
            None \<Rightarrow> (0, ''missing_commission_percent'')
          | Some commission \<Rightarrow>
            let denom = econ_denom econ commission
            in if denom < lit (5/100) then (0, ''economics_percentages_invalid'')
               else (int_of_float (math_Ceil (float_of_int cost / denom)), []))"

definition basePriceForTarget :: "int \<Rightarrow> int \<Rightarrow> int" where
  "basePriceForTarget targetEffectiveRub discountPercent =
     (let d1 = (if discountPercent < 0 then 0 else discountPercent);
          d = (if d1 > 95 then 95 else d1)
      in if d = 0 then targetEffectiveRub
         else int_of_float (math_Ceil (float_of_int targetEffectiveRub * Fin 100 / float_of_int (100 - d))))"

definition effectiveMinFloor :: "int \<Rightarrow> StrategyParams \<Rightarrow> int" where
  "effectiveMinFloor marginFloor params =
     (case MinPriceRub params of
        None \<Rightarrow> marginFloor
      | Some m \<Rightarrow> if m > marginFloor then m else marginFloor)"

text \<open>\<^verbatim>\<open>int64(math.Round(float64(price) * factor))\<close>\<close>

definition scale_price :: "int \<Rightarrow> f64 \<Rightarrow> int" where
  "scale_price price factor = int_of_float (math_Round (float_of_int price * factor))"

definition resolveFloor :: "PriceEngineInputs \<Rightarrow> StrategyParams \<Rightarrow> int \<times> string" where
  "resolveFloor inp params =
     (let (marginFloor, reason) = ComputeMinEffectivePrice (in_Economics inp) (in_CommissionFallbackPercent inp)
      in if reason = [] then (effectiveMinFloor marginFloor params, [])
         else if some_and (\<lambda>m. m > 0) (MinPriceRub params) then (the (MinPriceRub params), [])
         else
           let current = EffectivePriceRub (in_Current inp)
           in if current > 0 \<and> MaxDiscountPercent params > 0 \<and> PriceApplyMode params \<noteq> PriceApplyModeAuto
              then (scale_price current (Fin 1 - MaxDiscountPercent params / Fin 100), [])
              else (0, reason))"

section \<open>Decisions\<close>

definition priceMove :: "PriceEngineInputs \<Rightarrow> string \<Rightarrow> int \<Rightarrow> int \<Rightarrow> string \<Rightarrow> PriceDecision" where
  "priceMove inp direction targetEffective floorRub reason =
     \<lparr>pd_ShouldChange = True,
      pd_NewPriceRub = basePriceForTarget targetEffective (pp_DiscountPercent (in_Current inp)),
      pd_NewDiscountPercent = pp_DiscountPercent (in_Current inp),
      pd_TargetEffectiveRub = targetEffective,
      pd_MinPriceRub = floorRub,
      pd_Direction = direction,
      pd_Reason = reason,
      pd_SkipReason = []\<rparr>"

definition DecideMarginFloor :: "PriceEngineInputs \<Rightarrow> StrategyParams \<Rightarrow> PriceDecision" where
  "DecideMarginFloor inp params =
     (let (floorRub, reason) = resolveFloor inp params in
      if reason \<noteq> [] then price_skip reason
      else
        let current = EffectivePriceRub (in_Current inp) in
        if current \<le> 0 then price_skip ''invalid_current_price''
        else if current \<ge> floorRub then noChange ''above_margin_floor'' floorRub
        else if floorRub \<ge> wrap64 (current * 3) then price_skip ''floor_suspicious''
        else \<lparr>pd_ShouldChange = True,
              pd_NewPriceRub = basePriceForTarget floorRub (pp_DiscountPercent (in_Current inp)),
              pd_NewDiscountPercent = pp_DiscountPercent (in_Current inp),
              pd_TargetEffectiveRub = floorRub,
              pd_MinPriceRub = floorRub,
              pd_Direction = ''up'',
              pd_Reason = ''below margin floor '' @ fmt_d floorRub @ '', raising to floor'',
              pd_SkipReason = []\<rparr>)"

definition DecideInventoryDemand :: "PriceEngineInputs \<Rightarrow> StrategyParams \<Rightarrow> PriceDecision" where
  "DecideInventoryDemand inp params =
     (let p = MergedPriceParams params;
          (floorRub, reason) = resolveFloor inp p in
      if reason \<noteq> [] then price_skip reason
      else
        let current = EffectivePriceRub (in_Current inp) in
        if current \<le> 0 then price_skip ''invalid_current_price''
        else if \<not> in_StockKnown inp then price_skip ''stock_unknown''
        else
          let daysOfStock = (if in_SalesUnitsPerDay inp > 0
                             then float_of_int (in_Stock inp) / in_SalesUnitsPerDay inp else PInf);
              slow = in_SalesUnitsPerDay inp \<le> SlowVelocityPerDay p
          in if daysOfStock > float_of_int (OverstockDays p) \<and> slow then
               (let target0 = scale_price current (Fin 1 - StepPercent p / Fin 100);
                    target = (if target0 < floorRub then floorRub else target0)
                in if target \<ge> current then noChange ''already_at_floor'' floorRub
                   else priceMove inp ''down'' target floorRub
                          (''overstock '' @ fmt_f 0 daysOfStock @ '' days, stepping down ''
                             @ fmt_f 0 (StepPercent p) @ ''%''))
             else if daysOfStock < float_of_int (LowStockDays p) \<and> in_SalesUnitsPerDay inp > 0 then
               (case MaxPriceRub params of
                  None \<Rightarrow> price_skip ''max_price_required_for_increase''
                | Some maxPrice \<Rightarrow>
                  let target0 = scale_price current (Fin 1 + StepPercent p / Fin 100);
                      target = (if target0 > maxPrice then maxPrice else target0)
                  in if target \<le> current then noChange ''already_at_max'' floorRub
                     else priceMove inp ''up'' target floorRub
                            (''low stock '' @ fmt_f 0 daysOfStock @ '' days, stepping up ''
                               @ fmt_f 0 (StepPercent p) @ ''%''))
             else noChange ''inventory_balanced'' floorRub)"

definition DecideAdLinked :: "PriceEngineInputs \<Rightarrow> StrategyParams \<Rightarrow> PriceDecision" where
  "DecideAdLinked inp params =
     (let p = MergedPriceParams params;
          (floorRub, reason) = resolveFloor inp p in
      if reason \<noteq> [] then price_skip reason
      else
        let current = EffectivePriceRub (in_Current inp) in
        if current \<le> 0 then price_skip ''invalid_current_price''
        else if \<not> in_HasActiveCampaigns inp then price_skip ''no_active_campaigns''
        else
          let maxDRR = (case MaxAllowedDRRPercent p of
                          Some m \<Rightarrow> Some m | None \<Rightarrow> pe_MaxAllowedDRR (in_Economics inp))
          in if in_DRR inp = None \<or> maxDRR = None then price_skip ''missing_ad_data''
             else if the (in_DRR inp) \<le> the maxDRR then noChange ''drr_within_limit'' floorRub
             else
               let target0 = scale_price current (Fin 1 - StepPercent p / Fin 100);
                   target = (if target0 < floorRub then floorRub else target0)
               in if target \<ge> current then noChange ''already_at_floor'' floorRub
                  else priceMove inp ''down'' target floorRub
                         (''DRR '' @ fmt_f 1 (the (in_DRR inp)) @ ''% over allowed ''
                            @ fmt_f 1 (the maxDRR) @ ''%, stepping down''))"

text \<open>
  The step cap and the dead band that the last two functions share: the move of one run is capped to
  \<^verbatim>\<open>step\<close> of the current price, a move down never passes the floor, and a move under one percent (or
  one ruble) is not made.
\<close>

definition cap_step :: "int \<Rightarrow> int \<Rightarrow> f64 \<Rightarrow> int \<Rightarrow> int" where
  "cap_step current floorRub step target =
     (if target > current then
        (let capped = scale_price current (Fin 1 + step) in if target > capped then capped else target)
      else if target < current then
        (let capped = scale_price current (Fin 1 - step);
             t = (if target < capped then capped else target)
         in if t < floorRub then floorRub else t)
      else target)"

definition in_dead_band :: "int \<Rightarrow> int \<Rightarrow> bool" where
  "in_dead_band current target =
     (let diff0 = wrap64 (target - current);
          diff = (if diff0 < 0 then wrap64 (- diff0) else diff0)
      in diff = 0 \<or> float_of_int diff < math_Max (Fin 1) (float_of_int current * lit (1/100)))"

definition move_direction :: "int \<Rightarrow> int \<Rightarrow> string" where
  "move_direction current target = (if target < current then ''down'' else ''up'')"

text \<open>The target inside the demand band, not below the floor, and its clamp to the maximum.\<close>

definition peak_band_target :: "int \<Rightarrow> int \<Rightarrow> f64 \<Rightarrow> f64 \<Rightarrow> f64 \<Rightarrow> int" where
  "peak_band_target current floorRub uplift dead intensity =
     (let factor = Fin 1 + uplift / Fin 100 * intensity - dead / Fin 100 * (Fin 1 - intensity);
          target0 = scale_price current factor;
          ceilRub = scale_price current (Fin 1 + uplift / Fin 100);
          target1 = (if target0 > ceilRub then ceilRub else target0)
      in if target1 < floorRub then floorRub else target1)"

definition clamp_to_max :: "int \<Rightarrow> int option \<Rightarrow> int \<Rightarrow> int" where
  "clamp_to_max current maxPrice target =
     (case maxPrice of None \<Rightarrow> target | Some m \<Rightarrow> if target > current \<and> target > m then m else target)"

definition DecidePeakHours :: "PriceEngineInputs \<Rightarrow> StrategyParams \<Rightarrow> f64 \<Rightarrow> PriceDecision" where
  "DecidePeakHours inp params intensity0 =
     (let p = MergedPriceParams params;
          uplift = PeakUpliftPercent p;
          dead = DeadDiscountPercent p;
          current = EffectivePriceRub (in_Current inp) in
      if current \<le> 0 then price_skip ''invalid_current_price''
      else
        let intensity1 = (if intensity0 < 0 then 0 else intensity0);
            intensity = (if intensity1 > Fin 1 then Fin 1 else intensity1);
            (floorRub, reason) = resolveFloor inp p in
        if reason \<noteq> [] then price_skip reason
        else
          let target2 = peak_band_target current floorRub uplift dead intensity in
          if target2 > current \<and> MaxPriceRub p = None \<and> PriceApplyMode p = PriceApplyModeAuto
          then price_skip ''max_price_required_for_increase''
          else
            let target3 = clamp_to_max current (MaxPriceRub p) target2;
                target = cap_step current floorRub (StepPercent p / Fin 100) target3
            in if in_dead_band current target then noChange ''near_demand_target'' floorRub
               else
                 let dir = move_direction current target
                 in priceMove inp dir target floorRub
                      (''demand '' @ fmt_f 0 (intensity * Fin 100) @ ''%, '' @ dir @ '' to '' @ fmt_d target
                         @ sym_rub @ '' (band '' @ sym_minus @ fmt_f 0 dead @ ''%..+'' @ fmt_f 0 uplift @ ''%)''))"

definition DecideCompetitorFollow :: "PriceEngineInputs \<Rightarrow> StrategyParams \<Rightarrow> int \<Rightarrow> PriceDecision" where
  "DecideCompetitorFollow inp params competitorPrice =
     (let p = MergedPriceParams params in
      if competitorPrice \<le> 0 then price_skip ''no_competitor_price''
      else
        let current = EffectivePriceRub (in_Current inp) in
        if current \<le> 0 then price_skip ''invalid_current_price''
        else
          let (floorRub, reason) = resolveFloor inp p in
          if reason \<noteq> [] then price_skip reason
          else
            let target0 = scale_price competitorPrice (Fin 1 - UndercutPercent p / Fin 100);
                target1 = (if target0 < floorRub then floorRub else target0);
                target = cap_step current floorRub (StepPercent p / Fin 100) target1
            in if in_dead_band current target then noChange ''near_competitor'' floorRub
               else
                 let dir = move_direction current target
                 in priceMove inp dir target floorRub
                      (''competitor median '' @ fmt_d competitorPrice @ sym_rub @ '', '' @ dir @ '' to ''
                         @ fmt_d target @ sym_rub @ '' ('' @ sym_minus @ fmt_f 0 (UndercutPercent p) @ ''%)''))"

lemmas price_engine_defs [price_defs] =
  EffectivePriceRub_def zero_PriceDecision_def price_skip_def noChange_def opt_f_def
  econ_cost_def econ_commission_def econ_denom_def ComputeMinEffectivePrice_def basePriceForTarget_def effectiveMinFloor_def scale_price_def resolveFloor_def
  priceMove_def DecideMarginFloor_def DecideInventoryDemand_def DecideAdLinked_def cap_step_def
  in_dead_band_def move_direction_def peak_band_target_def clamp_to_max_def DecidePeakHours_def DecideCompetitorFollow_def

section \<open>Base prices\<close>

text \<open>
  The ceiling of a rounded quotient by a small number is the exact ceiling: a quotient that is not
  an integer is at least \<open>1 / k\<close> away from the next one, farther than rounding can move it.
\<close>

lemma ceiling_rnd_quotient:
  assumes "0 < k" "k \<le> 128" "0 \<le> a" "a \<le> k * 2 ^ 45"
  shows "\<lceil>rnd (of_int a / of_int k)\<rceil> = \<lceil>of_int a / of_int k :: rat\<rceil>"
proof -
  define n r where "n = a div k" and "r = a mod k"
  let ?q = "of_int a / of_int k :: rat" and ?f = "of_int r / of_int k :: rat"
  have r: "0 \<le> r" "r < k" and a: "a = k * n + r" using assms(1) by (simp_all add: n_def r_def)
  have n0: "0 \<le> n" using assms(1,3) by (simp add: n_def pos_imp_zdiv_nonneg_iff)
  have "k * n \<le> k * 2 ^ 45" using a r(1) assms(4) by linarith
  then have n: "n \<le> 2 ^ 45" using assms(1) by (simp only: mult_le_cancel_left_pos)
  have q: "?q = of_int n + ?f" using assms(1) by (simp add: a field_simps)
  have f: "0 \<le> ?f" "?f \<le> 1" using r assms(1) by simp_all
  show ?thesis
  proof (cases "r = 0")
    case True
    then show ?thesis using n0 n b64.R_int [of n] by (simp add: q)
  next
    case False
    then have "1 \<le> r" using r by simp
    then have "1 / 128 \<le> ?f"
      using assms(1,2) frac_le [of "1 :: rat" "of_int r" "of_int k" 128] by simp
    then have "of_int (128 * n + 1) / 2 ^ 7 \<le> ?q" by (simp add: q add_divide_distrib)
    then have "of_int (128 * n + 1) / 2 ^ 7 \<le> rnd ?q" using n0 n by (intro b64.R_ge_dyadic) simp_all
    then have 1: "of_int n < rnd ?q" by (simp add: add_divide_distrib)
    have "rnd ?q \<le> of_int (n + 1)" using n0 n f(2) by (intro b64.R_le_int) (simp_all add: q)
    with 1 have "\<lceil>rnd ?q\<rceil> = n + 1" by (simp add: ceiling_eq_iff)
    moreover have "0 < ?f" using \<open>1 \<le> r\<close> assms(1) by simp
    then have "\<lceil>?q\<rceil> = n + 1" using f(2) by (simp add: q ceiling_eq_iff)
    ultimately show ?thesis by simp
  qed
qed

lemma base_price_ceiling:
  assumes "0 \<le> t" "t \<le> 2 ^ 40" "0 \<le> d" "d \<le> 95"
  shows "basePriceForTarget t d = \<lceil>of_int (100 * t) / of_int (100 - d) :: rat\<rceil>"
proof (cases "d = 0")
  case True
  then show ?thesis by (simp add: basePriceForTarget_def)
next
  case False
  let ?k = "100 - d" and ?q = "of_int (100 * t) / of_int (100 - d) :: rat"
  have k: "5 \<le> ?k" "?k \<le> 128" using assms by simp_all
  have "100 * t \<le> 5 * 2 ^ 45" using assms(2) by simp
  also have "\<dots> \<le> ?k * 2 ^ 45" using k(1) by simp
  finally have c: "\<lceil>rnd ?q\<rceil> = \<lceil>?q\<rceil>" and ub: "100 * t \<le> ?k * 2 ^ 45"
    using ceiling_rnd_quotient [of ?k "100 * t"] k assms(1) by simp_all
  have "of_int (100 * t) \<le> (of_int (?k * 2 ^ 45) :: rat)" using ub by (simp only: of_int_le_iff)
  then have q: "0 \<le> ?q" "?q \<le> of_int (2 ^ 45)" using k(1) assms(1) by (simp_all add: pos_divide_le_eq mult.commute)
  have "0 \<le> \<lceil>?q\<rceil>" "\<lceil>?q\<rceil> \<le> 2 ^ 45" using q by (simp, simp only: ceiling_le_iff)
  then have "in_int64 \<lceil>?q\<rceil>" by (intro in_int64I) simp_all
  moreover have "round64 (of_int t * 100) = Fin (of_int t * 100)"
    using round64_int [of "100 * t"] assms(1,2) by (simp add: mult.commute)
  moreover have "round64 ?q = Fin (rnd ?q)"
    using round64_between [of 0 ?q "2 ^ 45"] q by auto
  ultimately show ?thesis
    using False assms c by (simp add: basePriceForTarget_def Let_def mult.commute)
qed

text \<open>
  C33 The base price that is sent with a discount is the least whole price whose discounted value
  reaches the target: in exact arithmetic, \<open>base * (100 - d)\<close> percent is at least the target and one
  ruble less is below it, for every target up to \<open>2 ^ 40\<close> rubles and every allowed discount.
\<close>

theorem base_price_least:
  assumes "0 \<le> t" "t \<le> 2 ^ 40" "0 \<le> d" "d \<le> 95"
  shows "100 * t \<le> basePriceForTarget t d * (100 - d) \<and> (basePriceForTarget t d - 1) * (100 - d) < 100 * t"
proof -
  let ?q = "of_int (100 * t) / of_int (100 - d) :: rat" and ?b = "basePriceForTarget t d"
  have k: "0 < 100 - d" using assms(4) by simp
  have "of_int ?b - 1 < ?q" "?q \<le> of_int ?b"
    unfolding base_price_ceiling [OF assms] by linarith+
  then have "of_int (100 * t) \<le> (of_int (?b * (100 - d)) :: rat)"
    "(of_int ((?b - 1) * (100 - d)) :: rat) < of_int (100 * t)"
    using k by (simp_all add: pos_divide_le_eq pos_less_divide_eq)
  then show ?thesis by (simp only: of_int_le_iff of_int_less_iff)
qed

theorem base_price_least_witness:
  "100 * 999 \<le> basePriceForTarget 999 33 * 67 \<and> (basePriceForTarget 999 33 - 1) * 67 < 100 * 999"
  using base_price_least [of 999 33] by simp

section \<open>The margin floor\<close>

lemma lit_005: "lit (5/100) = Fin (3602879701896397 / 72057594037927936)"
  by (simp add: f64_defs f64_eval rnd_eval go_eval)

lemma floor_quotient:
  assumes "0 \<le> c" "c \<le> 2 ^ 40" "\<not> Fin dn < lit (5/100)"
  shows "0 < dn" "0 \<le> of_int c / dn" "of_int c / dn \<le> of_int (2 ^ 45 :: int)"
    and "int_of_float (math_Ceil (float_of_int c / Fin dn)) = \<lceil>rnd (of_int c / dn)\<rceil>"
proof -
  have dn: "1 / 32 \<le> dn" using assms(3) unfolding lit_005 by (simp add: field_simps)
  then show 0: "0 < dn" by linarith
  then show q0: "0 \<le> of_int c / dn" using assms(1) by simp
  have "(of_int c :: rat) \<le> 2 ^ 40" using assms(2) by (metis of_int_le_iff of_int_numeral of_int_power)
  also have "\<dots> = 2 ^ 45 * (1 / 32)" by simp
  also have "\<dots> \<le> 2 ^ 45 * dn" using dn by (rule mult_left_mono) simp
  finally show q1: "of_int c / dn \<le> of_int (2 ^ 45 :: int)" using 0 by (simp add: pos_divide_le_eq)
  obtain r where r: "round64 (of_int c / dn) = Fin r" "of_int 0 \<le> r" "r \<le> of_int (2 ^ 45)" "r = rnd (of_int c / dn)"
    using round64_between [of 0 "of_int c / dn" "2 ^ 45"] q0 q1 by auto
  have "0 \<le> \<lceil>r\<rceil>" "\<lceil>r\<rceil> \<le> 2 ^ 45" using r(2,3) by (simp, simp only: ceiling_le_iff)
  then have "in_int64 \<lceil>r\<rceil>" by (intro in_int64I) simp_all
  moreover have "float_of_int c = Fin (of_int c)" using assms(1,2) by simp
  ultimately show "int_of_float (math_Ceil (float_of_int c / Fin dn)) = \<lceil>rnd (of_int c / dn)\<rceil>"
    using r(1,4) 0 by simp
qed

text \<open>
  The margin floor separates profitable from unprofitable prices: with a computed net share \<open>dn\<close>
  (what is left of a ruble after commission, tax and target margin), every whole price below the
  floor brings in less than the unit cost and every whole price above it brings in more, in exact
  arithmetic, for unit costs up to \<open>2 ^ 40\<close> rubles.
\<close>

theorem margin_floor_separates:
  assumes "ComputeMinEffectivePrice econ fb = (f, [])" "econ_cost econ = Some c" "c \<le> 2 ^ 40"
    and "econ_commission econ fb = Some comm" "econ_denom econ comm = Fin dn"
  shows "0 \<le> f \<and> (\<forall>p. p < f \<longrightarrow> of_int p * dn < of_int c) \<and> (\<forall>p. f < p \<longrightarrow> of_int c < of_int p * dn)"
proof -
  have c: "0 \<le> c" and d: "\<not> Fin dn < lit (5/100)" and f: "f = int_of_float (math_Ceil (float_of_int c / Fin dn))"
    using assms by (auto simp: ComputeMinEffectivePrice_def Let_def split: if_splits)
  note q = floor_quotient [OF c assms(3) d]
  let ?q = "of_int c / dn"
  have r: "0 \<le> rnd ?q" "rnd ?q \<le> of_int (2 ^ 45)"
    using b64.R_nonneg [OF q(2)] b64.R_le_int [OF q(3)] by simp_all
  have f': "f = \<lceil>rnd ?q\<rceil>" using f q(4) by simp
  have "of_int p < ?q" if "p < f" for p
  proof (rule ccontr)
    assume "\<not> of_int p < ?q"
    then have le: "?q \<le> of_int p" by simp
    have "of_int p < rnd ?q" using that f' by (simp add: less_ceiling_iff)
    moreover have "of_int p < (of_int (2 ^ 45) :: rat)" using \<open>of_int p < rnd ?q\<close> r(2) by linarith
    then have "p < 2 ^ 45" by (simp only: of_int_less_iff)
    moreover have "(of_int 0 :: rat) \<le> of_int p" using le q(2) by simp
    then have "0 \<le> p" by (simp only: of_int_le_iff)
    ultimately show False using b64.R_le_int [OF le] by simp
  qed
  moreover have "?q < of_int p" if "f < p" for p
  proof (rule ccontr)
    assume "\<not> ?q < of_int p"
    then have le: "of_int p \<le> ?q" by simp
    have "rnd ?q < of_int p" using that f' by (simp add: less_le_trans ceiling_less_iff order_le_less_trans)
    moreover have "(of_int p :: rat) \<le> of_int (2 ^ 45)" using le q(3) by linarith
    then have "p \<le> 2 ^ 45" by (simp only: of_int_le_iff)
    moreover have "0 \<le> p" using that f' r(1) by (simp add: ceiling_less_iff order_trans [OF _ less_imp_le])
    ultimately show False using b64.R_ge_int [OF le] by simp
  qed
  moreover have "0 \<le> f" using r(1) f' by simp
  ultimately show ?thesis using q(1) by (simp add: pos_less_divide_eq pos_divide_less_eq)
qed

definition wit_econ :: ProductEconomics where
  "wit_econ = \<lparr>pe_WBProductID = 5, pe_CostPrice = Some 600, pe_LogisticsCost = Some 50, pe_OtherCosts = None,
     pe_TaxRatePercent = Some (Fin 6), pe_CommissionPercent = Some (Fin 19), pe_TargetMarginPercent = Some (Fin 25),
     pe_MaxAllowedDRR = None\<rparr>"

lemmas price_wit_eval = price_defs f64_defs f64_eval rnd_eval go_eval

theorem margin_floor_separates_witness:
  "ComputeMinEffectivePrice wit_econ None = (1300, []) \<and>
   of_int 1299 * (1 / 2) < (650 :: rat) \<and> (650 :: rat) < of_int 1301 * (1 / 2)"
proof -
  have f: "ComputeMinEffectivePrice wit_econ None = (1300, [])" "econ_cost wit_econ = Some 650"
    "econ_commission wit_econ None = Some (Fin 19)" by (simp_all add: price_wit_eval wit_econ_def)
  have dn: "econ_denom wit_econ (Fin 19) = Fin (1 / 2)" by (simp add: price_wit_eval wit_econ_def)
  from margin_floor_separates [OF f(1,2) _ f(3) dn] f(1) show ?thesis by simp
qed

section \<open>One step of a price\<close>

text \<open>
  \<open>step_factor\<close> bounds: a step of at most ten percent, computed in binary64, stays within
  \<open>2 ^ -35\<close> of ten percent, so scaling a price up to a billion rubles rounds to a whole amount
  within ten percent, rounded up.
\<close>

lemma step_ratio:
  assumes "0 \<le> x" "x \<le> 10"
  shows "\<exists>s. Fin x / Fin 100 = Fin s \<and> 0 \<le> s \<and> s \<le> 3435973837 / 2 ^ 35"
proof -
  obtain s where s: "round64 (x / 100) = Fin s" "0 \<le> s" "s = rnd (x / 100)"
    using round64_between [of 0 "x / 100" 1] assms by auto
  have "rnd (x / 100) \<le> of_int 3435973837 / 2 ^ 35"
    using assms(2) by (intro b64.R_le_dyadic) simp_all
  with s show ?thesis by simp
qed

lemma factor_up:
  assumes "0 \<le> s" "s \<le> 3435973837 / 2 ^ 35"
  shows "\<exists>f. Fin 1 + Fin s = Fin f \<and> 1 \<le> f \<and> f \<le> 1 + 3435973837 / 2 ^ 35"
proof -
  have b: "of_int 1 \<le> 1 + s" "1 + s \<le> of_int 2" using assms by simp_all
  then obtain f where f: "round64 (1 + s) = Fin f" "of_int 1 \<le> f" "f = rnd (1 + s)"
    using round64_between [of 1 "1 + s" 2] by auto
  have "rnd (1 + s) \<le> of_int (2 ^ 35 + 3435973837) / 2 ^ 35"
    using assms(2) by (intro b64.R_le_dyadic) simp_all
  with f show ?thesis by simp
qed

lemma factor_down:
  assumes "0 \<le> s" "s \<le> 3435973837 / 2 ^ 35"
  shows "\<exists>f. Fin 1 - Fin s = Fin f \<and> 1 - 3435973837 / 2 ^ 35 \<le> f \<and> f \<le> 1"
proof -
  have "s \<le> 1" using assms(2) by (rule order_trans) simp
  then have b: "of_int 0 \<le> 1 - s" "1 - s \<le> of_int 1" using assms by simp_all
  then obtain f where f: "round64 (1 - s) = Fin f" "f \<le> of_int 1" "f = rnd (1 - s)"
    using round64_between [of 0 "1 - s" 1] by auto
  have "of_int (2 ^ 35 - 3435973837) / 2 ^ 35 \<le> rnd (1 - s)"
    using assms(2) by (intro b64.R_ge_dyadic) simp_all
  with f show ?thesis by simp
qed

lemma round_away_less: "x < of_int n + 1/2 \<Longrightarrow> round_away x \<le> n"
  by (auto simp: round_away_def floor_le_iff ceiling_le_iff)

lemma round_away_greater: "of_int n - 1/2 < x \<Longrightarrow> n \<le> round_away x"
  by (auto simp: round_away_def le_floor_iff le_ceiling_iff)

lemma scale_price_eval:
  assumes "0 \<le> c" "c \<le> 10 ^ 9" "0 \<le> f" "f \<le> 2"
  shows "scale_price c (Fin f) = round_away (rnd (of_int c * f))"
proof -
  have "of_int c * f \<le> of_int c * 2" using assms by (intro mult_left_mono) simp_all
  then have b: "of_int 0 \<le> of_int c * f" "of_int c * f \<le> of_int (2 * c)" using assms by simp_all
  then obtain r where r: "round64 (of_int c * f) = Fin r" "of_int 0 \<le> r" "r \<le> of_int (2 * c)" "r = rnd (of_int c * f)"
    using round64_between [of 0 "of_int c * f" "2 * c"] assms by auto
  have "0 \<le> round_away r" "round_away r \<le> 2 * c"
    using round_away_ge_int [OF r(2)] round_away_le_int [OF r(3)] by simp_all
  then have "in_int64 (round_away r)" using assms(2) by (intro in_int64I) simp_all
  moreover have "float_of_int c = Fin (of_int c)" using assms(1,2) by simp
  ultimately show ?thesis using r(1,4) by (simp add: scale_price_def)
qed

lemma scale_step_up:
  assumes "0 < c" "c \<le> 10 ^ 9" "1 \<le> f" "f \<le> 1 + 3435973837 / 2 ^ 35"
  shows "c \<le> scale_price c (Fin f)" "scale_price c (Fin f) \<le> c + \<lceil>of_int c / 10 :: rat\<rceil>"
proof -
  let ?n = "c + \<lceil>of_int c / 10 :: rat\<rceil>"
  have f: "0 \<le> f" "f \<le> 2" using assms(3,4) by simp_all
  have c: "(of_int c :: rat) \<le> 10 ^ 9" using assms(2) by (metis of_int_le_iff of_int_numeral of_int_power)
  have "of_int c * f \<le> of_int c * (1 + 3435973837 / 2 ^ 35)" using assms by (intro mult_left_mono) simp_all
  also have "\<dots> \<le> of_int c + of_int c / 10 + 1/4" using c assms(1) by (simp add: field_simps)
  also have "\<dots> \<le> of_int ?n + 1/4"
    using le_of_int_ceiling [of "of_int c / 10 :: rat"] unfolding of_int_add by linarith
  finally have ub: "of_int c * f \<le> of_int (4 * ?n + 1) / 2 ^ 2" by (simp add: field_simps)
  have "of_int c / 10 \<le> (of_int c :: rat)" using assms(1) by simp
  then have "\<lceil>of_int c / 10 :: rat\<rceil> \<le> c" by (simp only: ceiling_le_iff)
  moreover have "0 \<le> \<lceil>of_int c / 10 :: rat\<rceil>" using assms(1) by simp
  ultimately have n: "0 \<le> ?n" "?n \<le> 2 * 10 ^ 9" using assms(1,2) by simp_all
  have "rnd (of_int c * f) \<le> of_int (4 * ?n + 1) / 2 ^ 2" using n by (intro b64.R_le_dyadic [OF ub]) simp_all
  then have "rnd (of_int c * f) < of_int ?n + 1/2" by (simp add: field_simps)
  then show "scale_price c (Fin f) \<le> ?n"
    using scale_price_eval [OF _ assms(2) f] assms(1) by (simp add: round_away_less del: of_int_add)
  have "of_int c \<le> of_int c * f" using assms(1,3) by simp
  then have "of_int c \<le> rnd (of_int c * f)" using assms(1,2) by (intro b64.R_ge_int) simp_all
  then show "c \<le> scale_price c (Fin f)"
    using scale_price_eval [OF _ assms(2) f] assms(1) by (simp add: round_away_ge_int)
qed

lemma scale_step_down:
  assumes "0 < c" "c \<le> 10 ^ 9" "1 - 3435973837 / 2 ^ 35 \<le> f" "f \<le> 1"
  shows "scale_price c (Fin f) \<le> c" "c - \<lceil>of_int c / 10 :: rat\<rceil> \<le> scale_price c (Fin f)"
proof -
  let ?n = "c - \<lceil>of_int c / 10 :: rat\<rceil>"
  have "0 \<le> (1 - 3435973837 / 2 ^ 35 :: rat)" by simp
  then have f: "0 \<le> f" "f \<le> 2" using assms(3,4) by linarith+
  have c: "(of_int c :: rat) \<le> 10 ^ 9" using assms(2) by (metis of_int_le_iff of_int_numeral of_int_power)
  have "of_int ?n \<le> of_int c - (of_int c / 10 :: rat)"
    using le_of_int_ceiling [of "of_int c / 10 :: rat"] unfolding of_int_diff by linarith
  then have "of_int ?n - 1/4 \<le> of_int c - of_int c / 10 - (1/4 :: rat)" by simp
  also have "\<dots> \<le> of_int c * (1 - 3435973837 / 2 ^ 35)" using c assms(1) by (simp add: field_simps)
  also have "\<dots> \<le> of_int c * f" using assms by (intro mult_left_mono) simp_all
  finally have lb: "of_int (4 * ?n - 1) / 2 ^ 2 \<le> of_int c * f" by (simp add: field_simps)
  have "of_int c / 10 \<le> (of_int c :: rat)" using assms(1) by simp
  then have "\<lceil>of_int c / 10 :: rat\<rceil> \<le> c" by (simp only: ceiling_le_iff)
  moreover have "0 \<le> \<lceil>of_int c / 10 :: rat\<rceil>" using assms(1) by simp
  ultimately have n: "0 \<le> ?n" "?n \<le> 1000000000" using assms(2) [simplified] by linarith+
  have "of_int (4 * ?n - 1) / 2 ^ 2 \<le> rnd (of_int c * f)" using n by (intro b64.R_ge_dyadic [OF lb]) simp_all
  then have "of_int ?n - 1/2 < rnd (of_int c * f)" by (simp add: field_simps)
  then show "?n \<le> scale_price c (Fin f)"
    using scale_price_eval [OF _ assms(2) f] assms(1) by (simp add: round_away_greater del: of_int_diff)
  have "of_int c * f \<le> of_int c" using assms(1,4) by simp
  then have "rnd (of_int c * f) \<le> of_int c" using assms(1,2) by (intro b64.R_le_int) simp_all
  then show "scale_price c (Fin f) \<le> c"
    using scale_price_eval [OF _ assms(2) f] assms(1) by (simp add: round_away_le_int)
qed

section \<open>The contract of a repricer decision\<close>

text \<open>
  The range in which the decisions are made: a positive price up to a billion rubles, a discount that
  the marketplace allows and a step that the save validation accepts.
\<close>

definition price_range :: "PriceEngineInputs \<Rightarrow> StrategyParams \<Rightarrow> bool" where
  "price_range inp params \<longleftrightarrow>
     EffectivePriceRub (in_Current inp) \<le> 10 ^ 9 \<and>
     0 \<le> pp_DiscountPercent (in_Current inp) \<and> pp_DiscountPercent (in_Current inp) \<le> 95 \<and>
     0 \<le> StepPercent params \<and> StepPercent params \<le> Fin 10"

locale repricer_decision =
  fixes decide :: "PriceEngineInputs \<Rightarrow> StrategyParams \<Rightarrow> PriceDecision"
  assumes moves: "\<lbrakk>price_range inp params; pd_ShouldChange (decide inp params)\<rbrakk> \<Longrightarrow>
      \<exists>dir target floorRub reason.
        decide inp params = priceMove inp dir target floorRub reason \<and> 0 < EffectivePriceRub (in_Current inp) \<and>
        (dir = ''up'' \<and> target > EffectivePriceRub (in_Current inp) \<or>
         dir = ''down'' \<and> target < EffectivePriceRub (in_Current inp) \<and> floorRub \<le> target)"
begin

lemma keeps_discount:
  "\<lbrakk>price_range inp params; pd_ShouldChange (decide inp params)\<rbrakk> \<Longrightarrow>
     pd_NewDiscountPercent (decide inp params) = pp_DiscountPercent (in_Current inp)"
  using moves by (force simp: priceMove_def)

lemma direction_sound:
  assumes "price_range inp params" "pd_ShouldChange (decide inp params)"
  shows "pd_Direction (decide inp params) = ''up'' \<and>
           pd_TargetEffectiveRub (decide inp params) > EffectivePriceRub (in_Current inp) \<or>
         pd_Direction (decide inp params) = ''down'' \<and>
           pd_TargetEffectiveRub (decide inp params) < EffectivePriceRub (in_Current inp)"
  using moves [OF assms] by (auto simp: priceMove_def)

lemma down_respects_floor:
  assumes "price_range inp params" "pd_ShouldChange (decide inp params)" "pd_Direction (decide inp params) = ''down''"
  shows "pd_MinPriceRub (decide inp params) \<le> pd_TargetEffectiveRub (decide inp params)"
  using moves [OF assms(1,2)] assms(3) by (auto simp: priceMove_def)

text \<open>What is sent: the least base price that reaches the target at the unchanged discount.\<close>

lemma sent_price_reaches_target:
  assumes "price_range inp params" "pd_ShouldChange (decide inp params)"
    and "0 \<le> pd_TargetEffectiveRub (decide inp params)" "pd_TargetEffectiveRub (decide inp params) \<le> 2 ^ 40"
  shows "100 * pd_TargetEffectiveRub (decide inp params) \<le>
           pd_NewPriceRub (decide inp params) * (100 - pd_NewDiscountPercent (decide inp params))"
proof -
  obtain dir target fl re where d: "decide inp params = priceMove inp dir target fl re"
    using moves [OF assms(1,2)] by blast
  let ?d = "pp_DiscountPercent (in_Current inp)" and ?b = "basePriceForTarget target (pp_DiscountPercent (in_Current inp))"
  have t: "0 \<le> target" "target \<le> 2 ^ 40" "0 \<le> ?d" "?d \<le> 95"
    using assms by (simp_all add: d priceMove_def price_range_def)
  have "of_int (100 * target) / of_int (100 - ?d) \<le> (of_int ?b :: rat)"
    unfolding base_price_ceiling [OF t] by linarith
  then have "of_int (100 * target) \<le> (of_int (?b * (100 - ?d)) :: rat)"
    using t(4) by (simp add: pos_divide_le_eq)
  then show ?thesis by (simp only: of_int_le_iff d priceMove_def PriceDecision.simps)
qed

end

text \<open>
  The step law has a premise: the configured maximum, when there is one, is not below the current
  price. Without it one of the functions breaks the law (\<open>peak_hours_step_violation\<close> below).
\<close>

abbreviation max_not_below :: "PriceEngineInputs \<Rightarrow> StrategyParams \<Rightarrow> bool" where
  "max_not_below inp params \<equiv> \<not> some_and (\<lambda>m. m < EffectivePriceRub (in_Current inp)) (MaxPriceRub params)"

locale stepped_decision = repricer_decision +
  assumes stepped: "\<lbrakk>price_range inp params; pd_ShouldChange (decide inp params); max_not_below inp params\<rbrakk> \<Longrightarrow>
      \<bar>pd_TargetEffectiveRub (decide inp params) - EffectivePriceRub (in_Current inp)\<bar>
        \<le> \<lceil>of_int (EffectivePriceRub (in_Current inp)) / 10 :: rat\<rceil>"
begin

text \<open>A move down keeps at least two thirds of any price of four rubles or more.\<close>

lemma no_quarantine_drop:
  assumes "price_range inp params" "pd_ShouldChange (decide inp params)" "max_not_below inp params"
    and "4 \<le> EffectivePriceRub (in_Current inp)"
  shows "EffectivePriceRub (in_Current inp) < pd_TargetEffectiveRub (decide inp params) * 3"
proof -
  let ?c = "EffectivePriceRub (in_Current inp)"
  have "\<lceil>of_int ?c / 10 :: rat\<rceil> \<le> ?c div 10 + 1"
    by (simp add: ceiling_le_iff)
  with stepped [OF assms(1-3)] assms(4) show ?thesis by linarith
qed

end

section \<open>The five functions keep the contract\<close>

lemma no_move [simp]: "\<not> pd_ShouldChange (price_skip r)" "\<not> pd_ShouldChange (noChange r f)"
  by (simp_all add: price_skip_def noChange_def zero_PriceDecision_def)

lemma priceMove_sel [simp]:
  "pd_ShouldChange (priceMove inp d t f r)" "pd_TargetEffectiveRub (priceMove inp d t f r) = t"
  by (simp_all add: priceMove_def)

lemma priceMove_inject: "priceMove inp d t f r = priceMove inp d' t' f' r' \<longleftrightarrow> d = d' \<and> t = t' \<and> f = f' \<and> r = r'"
  by (auto simp: priceMove_def)

lemma merged_step_range:
  assumes "0 \<le> StepPercent params" "StepPercent params \<le> Fin 10"
  shows "\<exists>x. StepPercent (MergedPriceParams params) = Fin x \<and> 0 \<le> x \<and> x \<le> 10"
proof -
  obtain y where "StepPercent params = Fin y" "0 \<le> y" "y \<le> 10" using assms by (cases "StepPercent params") simp_all
  then show ?thesis by (cases "y = 0") (simp_all add: MergedPriceParams_def Let_def)
qed

text \<open>The two step prices around the current one.\<close>

lemma step_prices:
  assumes "price_range inp params" "0 < EffectivePriceRub (in_Current inp)"
  defines "c \<equiv> EffectivePriceRub (in_Current inp)" and "s \<equiv> StepPercent (MergedPriceParams params) / Fin 100"
  shows "c \<le> scale_price c (Fin 1 + s)" "scale_price c (Fin 1 + s) \<le> c + \<lceil>of_int c / 10 :: rat\<rceil>"
    "scale_price c (Fin 1 - s) \<le> c" "c - \<lceil>of_int c / 10 :: rat\<rceil> \<le> scale_price c (Fin 1 - s)"
proof -
  obtain x where x: "StepPercent (MergedPriceParams params) = Fin x" "0 \<le> x" "x \<le> 10"
    using assms(1) merged_step_range [of params] by (auto simp: price_range_def)
  from step_ratio [OF x(2,3)] obtain r where r: "s = Fin r" "0 \<le> r" "r \<le> 3435973837 / 2 ^ 35"
    unfolding s_def x(1) by blast
  have c: "0 < c" "c \<le> 10 ^ 9" using assms(1,2) by (simp_all add: c_def price_range_def)
  from factor_up [OF r(2,3)] obtain f where f: "Fin 1 + s = Fin f" "1 \<le> f" "f \<le> 1 + 3435973837 / 2 ^ 35"
    unfolding r(1) by blast
  from factor_down [OF r(2,3)] obtain g where g: "Fin 1 - s = Fin g" "1 - 3435973837 / 2 ^ 35 \<le> g" "g \<le> 1"
    unfolding r(1) by blast
  show "c \<le> scale_price c (Fin 1 + s)" "scale_price c (Fin 1 + s) \<le> c + \<lceil>of_int c / 10 :: rat\<rceil>"
    unfolding f(1) using scale_step_up [OF c f(2,3)] .
  show "scale_price c (Fin 1 - s) \<le> c" "c - \<lceil>of_int c / 10 :: rat\<rceil> \<le> scale_price c (Fin 1 - s)"
    unfolding g(1) using scale_step_down [OF c g(2,3)] .
qed

lemma cap_step_up:
  assumes "cap_step c fl s t > c" "scale_price c (Fin 1 - s) \<le> c" "t < c \<Longrightarrow> fl \<le> c"
  shows "cap_step c fl s t \<le> scale_price c (Fin 1 + s)"
  using assms by (auto simp: cap_step_def Let_def split: if_splits)

lemma cap_step_down:
  assumes "cap_step c fl s t < c" "c \<le> scale_price c (Fin 1 + s)"
  shows "fl \<le> cap_step c fl s t" "scale_price c (Fin 1 - s) \<le> cap_step c fl s t"
  using assms by (auto simp: cap_step_def Let_def split: if_splits)

lemma dead_band_same: "in_dead_band c c"
  by (simp add: in_dead_band_def wrap64_small)

lemma move_direction_cases:
  "\<not> in_dead_band c t \<Longrightarrow> move_direction c t = ''up'' \<and> t > c \<or> move_direction c t = ''down'' \<and> t < c"
  using dead_band_same [of c] by (cases "t = c") (auto simp: move_direction_def)

text \<open>The floor that a decision records is the one that \<open>resolveFloor\<close> gives.\<close>

lemma margin_floor_floor:
  assumes "pd_ShouldChange (DecideMarginFloor inp params)"
  shows "resolveFloor inp params = (pd_MinPriceRub (DecideMarginFloor inp params), [])"
  using assms by (cases "resolveFloor inp params")
    (auto simp: DecideMarginFloor_def Let_def split: if_splits)

lemma inventory_floor:
  assumes "pd_ShouldChange (DecideInventoryDemand inp params)"
  shows "resolveFloor inp (MergedPriceParams params) = (pd_MinPriceRub (DecideInventoryDemand inp params), [])"
  using assms by (cases "resolveFloor inp (MergedPriceParams params)")
    (auto simp: DecideInventoryDemand_def Let_def priceMove_def split: if_splits option.splits)

lemma ad_linked_floor:
  assumes "pd_ShouldChange (DecideAdLinked inp params)"
  shows "resolveFloor inp (MergedPriceParams params) = (pd_MinPriceRub (DecideAdLinked inp params), [])"
  using assms by (cases "resolveFloor inp (MergedPriceParams params)")
    (auto simp: DecideAdLinked_def Let_def priceMove_def split: if_splits option.splits)

lemma peak_hours_floor:
  assumes "pd_ShouldChange (DecidePeakHours inp params i)"
  shows "resolveFloor inp (MergedPriceParams params) = (pd_MinPriceRub (DecidePeakHours inp params i), [])"
  using assms by (cases "resolveFloor inp (MergedPriceParams params)")
    (auto simp: DecidePeakHours_def Let_def priceMove_def split: if_splits)

lemma competitor_floor:
  assumes "pd_ShouldChange (DecideCompetitorFollow inp params c)"
  shows "resolveFloor inp (MergedPriceParams params) = (pd_MinPriceRub (DecideCompetitorFollow inp params c), [])"
  using assms by (cases "resolveFloor inp (MergedPriceParams params)")
    (auto simp: DecideCompetitorFollow_def Let_def priceMove_def split: if_splits)

lemma resolveFloor_merged [simp]:
  "resolveFloor inp (MergedPriceParams (MergedPriceParams params)) = resolveFloor inp (MergedPriceParams params)"
  by (simp add: resolveFloor_def effectiveMinFloor_def MergedPriceParams_def DefaultPriceParams_def dflt_f_def dflt_s_def
      Let_def case_prod_beta PriceApplyModeDryRun_def zero_StrategyParams_def)

interpretation margin_floor: repricer_decision DecideMarginFloor
proof unfold_locales
  fix inp params assume "pd_ShouldChange (DecideMarginFloor inp params)"
  then obtain fl where "resolveFloor inp params = (fl, [])" "0 < EffectivePriceRub (in_Current inp)"
    "EffectivePriceRub (in_Current inp) < fl"
    "DecideMarginFloor inp params = priceMove inp ''up'' fl fl (''below margin floor '' @ fmt_d fl @ '', raising to floor'')"
    by (auto simp: DecideMarginFloor_def priceMove_def Let_def split: prod.splits if_splits)
  then show "\<exists>dir target floorRub reason.
        DecideMarginFloor inp params = priceMove inp dir target floorRub reason \<and> 0 < EffectivePriceRub (in_Current inp) \<and>
        (dir = ''up'' \<and> target > EffectivePriceRub (in_Current inp) \<or>
         dir = ''down'' \<and> target < EffectivePriceRub (in_Current inp) \<and> floorRub \<le> target)" by blast
qed

text \<open>
  \<open>step_move\<close> is the shape of a change that a stepped function makes: a move up to at most the upper
  step price, or a move down to at least the lower step price and the floor.
\<close>

definition step_move :: "PriceEngineInputs \<Rightarrow> StrategyParams \<Rightarrow> PriceDecision \<Rightarrow> bool" where
  "step_move inp params d \<longleftrightarrow>
     (\<exists>target floorRub reason. 0 < EffectivePriceRub (in_Current inp) \<and>
        (let c = EffectivePriceRub (in_Current inp); s = StepPercent (MergedPriceParams params) / Fin 100 in
         d = priceMove inp ''up'' target floorRub reason \<and> c < target \<and> target \<le> scale_price c (Fin 1 + s) \<or>
         d = priceMove inp ''down'' target floorRub reason \<and> target < c \<and> floorRub \<le> target \<and>
           scale_price c (Fin 1 - s) \<le> target))"

lemma step_move_bound:
  assumes "step_move inp params d" "price_range inp params"
  shows "\<bar>pd_TargetEffectiveRub d - EffectivePriceRub (in_Current inp)\<bar>
           \<le> \<lceil>of_int (EffectivePriceRub (in_Current inp)) / 10 :: rat\<rceil>"
  using assms(1) step_prices [OF assms(2)] unfolding step_move_def Let_def by auto

lemma step_move_moves:
  assumes "step_move inp params d"
  shows "\<exists>dir target floorRub reason.
        d = priceMove inp dir target floorRub reason \<and> 0 < EffectivePriceRub (in_Current inp) \<and>
        (dir = ''up'' \<and> target > EffectivePriceRub (in_Current inp) \<or>
         dir = ''down'' \<and> target < EffectivePriceRub (in_Current inp) \<and> floorRub \<le> target)"
  using assms unfolding step_move_def Let_def by blast

lemma step_move_upI:
  assumes "0 < EffectivePriceRub (in_Current inp)" "EffectivePriceRub (in_Current inp) < target"
    and "target \<le> scale_price (EffectivePriceRub (in_Current inp)) (Fin 1 + StepPercent (MergedPriceParams params) / Fin 100)"
  shows "step_move inp params (priceMove inp ''up'' target fl re)"
  using assms unfolding step_move_def Let_def by blast

lemma step_move_downI:
  assumes "0 < EffectivePriceRub (in_Current inp)" "target < EffectivePriceRub (in_Current inp)" "fl \<le> target"
    and "scale_price (EffectivePriceRub (in_Current inp)) (Fin 1 - StepPercent (MergedPriceParams params) / Fin 100) \<le> target"
  shows "step_move inp params (priceMove inp ''down'' target fl re)"
  using assms unfolding step_move_def Let_def by blast

lemma inventory_step_move:
  assumes "pd_ShouldChange (DecideInventoryDemand inp params)"
  shows "step_move inp params (DecideInventoryDemand inp params)"
proof -
  obtain fl where "resolveFloor inp (MergedPriceParams params) = (fl, [])"
    using assms by (cases "resolveFloor inp (MergedPriceParams params)")
      (auto simp: DecideInventoryDemand_def Let_def split: if_splits)
  with assms show ?thesis
    by (auto simp: DecideInventoryDemand_def Let_def intro!: step_move_upI step_move_downI
        split: if_split_asm option.split_asm)
qed

lemma ad_linked_step_move:
  assumes "pd_ShouldChange (DecideAdLinked inp params)"
  shows "step_move inp params (DecideAdLinked inp params)"
proof -
  obtain fl where "resolveFloor inp (MergedPriceParams params) = (fl, [])"
    using assms by (cases "resolveFloor inp (MergedPriceParams params)")
      (auto simp: DecideAdLinked_def Let_def split: if_splits)
  with assms show ?thesis
    by (auto simp: DecideAdLinked_def Let_def intro!: step_move_downI split: if_split_asm)
qed

interpretation inventory_demand: stepped_decision DecideInventoryDemand
proof (unfold_locales, goal_cases)
  case (1 inp params)
  then show ?case using step_move_moves [OF inventory_step_move] by simp
next
  case (2 inp params)
  then show ?case using step_move_bound [OF inventory_step_move] by simp
qed

interpretation ad_linked: stepped_decision DecideAdLinked
proof (unfold_locales, goal_cases)
  case (1 inp params)
  then show ?case using step_move_moves [OF ad_linked_step_move] by simp
next
  case (2 inp params)
  then show ?case using step_move_bound [OF ad_linked_step_move] by simp
qed

text \<open>The two functions that share the step cap and the dead band.\<close>

lemma capped_move:
  assumes "price_range inp params" "0 < EffectivePriceRub (in_Current inp)"
  defines "c \<equiv> EffectivePriceRub (in_Current inp)" and "s \<equiv> StepPercent (MergedPriceParams params) / Fin 100"
  assumes "\<not> in_dead_band c (cap_step c fl s t)"
  shows "t < c \<Longrightarrow> fl \<le> c \<Longrightarrow> step_move inp params (priceMove inp (move_direction c (cap_step c fl s t)) (cap_step c fl s t) fl re)"
    and "\<not> t < c \<Longrightarrow> step_move inp params (priceMove inp (move_direction c (cap_step c fl s t)) (cap_step c fl s t) fl re)"
    and "\<exists>dir. move_direction c (cap_step c fl s t) = dir \<and>
           (dir = ''up'' \<and> cap_step c fl s t > c \<or> dir = ''down'' \<and> cap_step c fl s t < c \<and> fl \<le> cap_step c fl s t)"
proof -
  let ?r = "cap_step c fl s t"
  note sp = step_prices [OF assms(1,2), folded c_def s_def]
  have dir: "move_direction c ?r = ''up'' \<and> ?r > c \<or> move_direction c ?r = ''down'' \<and> ?r < c"
    using move_direction_cases assms(5) by blast
  have down: "?r < c \<Longrightarrow> fl \<le> ?r \<and> scale_price c (Fin 1 - s) \<le> ?r" using cap_step_down sp(1) by blast
  { assume "t < c \<Longrightarrow> fl \<le> c"
    then have "?r > c \<Longrightarrow> ?r \<le> scale_price c (Fin 1 + s)" using cap_step_up sp(3) by blast
    with dir down assms(2) have "step_move inp params (priceMove inp (move_direction c ?r) ?r fl re)"
      unfolding c_def s_def by (auto intro: step_move_upI step_move_downI) }
  then show "t < c \<Longrightarrow> fl \<le> c \<Longrightarrow> step_move inp params (priceMove inp (move_direction c ?r) ?r fl re)"
    and "\<not> t < c \<Longrightarrow> step_move inp params (priceMove inp (move_direction c ?r) ?r fl re)" by blast+
  show "\<exists>dir. move_direction c ?r = dir \<and> (dir = ''up'' \<and> ?r > c \<or> dir = ''down'' \<and> ?r < c \<and> fl \<le> ?r)"
    using dir down by blast
qed

lemma competitor_step_move:
  assumes "pd_ShouldChange (DecideCompetitorFollow inp params cp)" "price_range inp params"
  shows "step_move inp params (DecideCompetitorFollow inp params cp)"
proof -
  let ?p = "MergedPriceParams params" and ?c = "EffectivePriceRub (in_Current inp)"
  obtain fl where fl: "resolveFloor inp ?p = (fl, [])"
    using assms(1) by (cases "resolveFloor inp ?p") (auto simp: DecideCompetitorFollow_def Let_def split: if_splits)
  let ?t0 = "scale_price cp (Fin 1 - UndercutPercent ?p / Fin 100)"
  let ?t = "if ?t0 < fl then fl else ?t0"
  let ?r = "cap_step ?c fl (StepPercent ?p / Fin 100) ?t"
  obtain re where c: "0 < ?c" and nd: "\<not> in_dead_band ?c ?r"
    and d: "DecideCompetitorFollow inp params cp = priceMove inp (move_direction ?c ?r) ?r fl re"
    using assms(1) fl by (simp add: DecideCompetitorFollow_def Let_def split: if_splits)
  have "?t < ?c \<Longrightarrow> fl \<le> ?c" by (simp split: if_splits)
  then show ?thesis unfolding d using capped_move(1,2) [OF assms(2) c nd] by blast
qed

interpretation competitor_follow: stepped_decision "\<lambda>inp params. DecideCompetitorFollow inp params cp" for cp
proof (unfold_locales, goal_cases)
  case (1 inp params)
  then show ?case using step_move_moves [OF competitor_step_move] by simp
next
  case (2 inp params)
  then show ?case using step_move_bound [OF competitor_step_move] by simp
qed

lemma peak_band_floor: "fl \<le> peak_band_target c fl u d i"
  by (simp add: peak_band_target_def Let_def)

lemma clamp_below:
  assumes "clamp_to_max c m t2 < c" "fl \<le> t2"
  shows "fl \<le> c \<or> some_and (\<lambda>v. v < c) m"
  using assms by (auto simp: clamp_to_max_def split: option.splits if_splits)

lemma peak_hours_inv:
  assumes "pd_ShouldChange (DecidePeakHours inp params i)"
  defines "p \<equiv> MergedPriceParams params" and "c \<equiv> EffectivePriceRub (in_Current inp)"
  shows "\<exists>fl t2 re. 0 < c \<and> fl \<le> t2 \<and>
     \<not> in_dead_band c (cap_step c fl (StepPercent p / Fin 100) (clamp_to_max c (MaxPriceRub params) t2)) \<and>
     DecidePeakHours inp params i =
       priceMove inp (move_direction c (cap_step c fl (StepPercent p / Fin 100) (clamp_to_max c (MaxPriceRub params) t2)))
         (cap_step c fl (StepPercent p / Fin 100) (clamp_to_max c (MaxPriceRub params) t2)) fl re"
proof -
  obtain fl where fl: "resolveFloor inp p = (fl, [])"
    using assms(1) unfolding p_def
    by (cases "resolveFloor inp (MergedPriceParams params)") (auto simp: DecidePeakHours_def Let_def split: if_splits)
  let ?i = "if (if i < 0 then 0 else i) > Fin 1 then Fin 1 else (if i < 0 then 0 else i)"
  show ?thesis
    using assms(1) fl peak_band_floor [of fl c "PeakUpliftPercent p" "DeadDiscountPercent p" ?i] unfolding p_def c_def
    by (intro exI [of _ fl]
        exI [of _ "peak_band_target c fl (PeakUpliftPercent p) (DeadDiscountPercent p) ?i"], unfold p_def c_def)
      (auto simp only: DecidePeakHours_def Let_def prod.case no_move if_True if_False simp_thms not_le priceMove_inject
        MergedPriceParams_sel split: if_split_asm)
qed

lemma peak_hours_moves:
  assumes "pd_ShouldChange (DecidePeakHours inp params i)" "price_range inp params"
  shows "\<exists>dir target floorRub reason.
        DecidePeakHours inp params i = priceMove inp dir target floorRub reason \<and> 0 < EffectivePriceRub (in_Current inp) \<and>
        (dir = ''up'' \<and> target > EffectivePriceRub (in_Current inp) \<or>
         dir = ''down'' \<and> target < EffectivePriceRub (in_Current inp) \<and> floorRub \<le> target)"
  using peak_hours_inv [OF assms(1)] capped_move(3) [OF assms(2)] by blast

lemma peak_hours_step_move:
  assumes "pd_ShouldChange (DecidePeakHours inp params i)" "price_range inp params" "max_not_below inp params"
  shows "step_move inp params (DecidePeakHours inp params i)"
proof -
  let ?c = "EffectivePriceRub (in_Current inp)" and ?s = "StepPercent (MergedPriceParams params) / Fin 100"
  obtain fl t2 re where c: "0 < ?c" and f: "fl \<le> t2"
    and nd: "\<not> in_dead_band ?c (cap_step ?c fl ?s (clamp_to_max ?c (MaxPriceRub params) t2))"
    and d: "DecidePeakHours inp params i = priceMove inp
      (move_direction ?c (cap_step ?c fl ?s (clamp_to_max ?c (MaxPriceRub params) t2)))
      (cap_step ?c fl ?s (clamp_to_max ?c (MaxPriceRub params) t2)) fl re"
    using peak_hours_inv [OF assms(1)] by blast
  have "clamp_to_max ?c (MaxPriceRub params) t2 < ?c \<Longrightarrow> fl \<le> ?c" using clamp_below f assms(3) by blast
  then show ?thesis unfolding d using capped_move(1,2) [OF assms(2) c nd] by blast
qed

interpretation peak_hours: stepped_decision "\<lambda>inp params. DecidePeakHours inp params i" for i
proof (unfold_locales, goal_cases)
  case (1 inp params)
  then show ?case by (intro peak_hours_moves)
next
  case (2 inp params)
  then show ?case using step_move_bound [OF peak_hours_step_move] by simp
qed

section \<open>Two limits of the engine\<close>

definition wit_price :: ProductPrice where
  "wit_price = \<lparr>pp_ID = 1, pp_WorkspaceID = 1, pp_SellerCabinetID = 7, pp_WBProductID = 5, pp_PriceRub = 1000,
     pp_DiscountPercent = 0, pp_ClubDiscountPercent = 0, pp_DiscountedPriceRub = None, pp_EditableSizePrice = False,
     pp_SyncedAt = 100, pp_UpdatedAt = 100\<rparr>"

definition wit_inputs :: PriceEngineInputs where
  "wit_inputs = \<lparr>in_Current = wit_price, in_Economics = wit_econ, in_CommissionFallbackPercent = None,
     in_Stock = 10, in_StockKnown = True, in_SalesUnitsPerDay = Fin 5, in_DRR = Some (Fin 40),
     in_HasActiveCampaigns = True\<rparr>"

definition wit_price_params :: StrategyParams where
  "wit_price_params = zero_StrategyParams\<lparr>StepPercent := Fin 5, MaxPriceRub := Some 900\<rparr>"

lemmas price_wit_defs = price_wit_eval wit_price_def wit_inputs_def wit_econ_def wit_price_params_def
  zero_StrategyParams_def MergedPriceParams_def DefaultPriceParams_def dflt_i_def dflt_s_def price_range_def

text \<open>
  The demand-hours function can break its step cap: when the margin floor lies above the current
  price and the configured maximum lies below it, the clamp to the maximum turns the raise into a
  move down and the floor clamp of that branch then raises the price to the floor in one run, here by
  30 percent with a step of 5, and above the maximum.
\<close>

theorem peak_hours_step_violation:
  "price_range wit_inputs wit_price_params \<and>
   pd_ShouldChange (DecidePeakHours wit_inputs wit_price_params 0) \<and>
   pd_TargetEffectiveRub (DecidePeakHours wit_inputs wit_price_params 0) = 1300 \<and>
   EffectivePriceRub (in_Current wit_inputs) = 1000 \<and> MaxPriceRub wit_price_params = Some 900"
  by (simp add: price_wit_defs)

definition cheap_inputs :: PriceEngineInputs where
  "cheap_inputs = wit_inputs\<lparr>in_Economics := wit_econ\<lparr>pe_CostPrice := Some 100\<rparr>\<rparr>"

lemma competitor_steps:
  "scale_price 2000 (Fin 1 - Fin 2 / Fin 100) = 1960" "scale_price 1000 (Fin 1 + Fin 5 / Fin 100) = 1050"
  "\<not> in_dead_band 1000 1050"
  by (simp_all add: scale_price_def in_dead_band_def f64_defs f64_eval rnd_eval go_eval)

lemma cheap_floor: "resolveFloor cheap_inputs (MergedPriceParams (wit_price_params\<lparr>MaxPriceRub := Some 1000\<rparr>)) = (300, [])"
  by (simp add: price_wit_defs cheap_inputs_def)

text \<open>
  The competitor function does not look at the configured maximum: it raises a price that is
  already at the maximum.
\<close>

theorem competitor_follow_ignores_max:
  "price_range cheap_inputs (wit_price_params\<lparr>MaxPriceRub := Some 1000\<rparr>) \<and>
   pd_ShouldChange (DecideCompetitorFollow cheap_inputs (wit_price_params\<lparr>MaxPriceRub := Some 1000\<rparr>) 2000) \<and>
   pd_TargetEffectiveRub (DecideCompetitorFollow cheap_inputs (wit_price_params\<lparr>MaxPriceRub := Some 1000\<rparr>) 2000) = 1050"
proof -
  have "EffectivePriceRub (in_Current cheap_inputs) = 1000" "pp_DiscountPercent (in_Current cheap_inputs) = 0"
    "StepPercent (MergedPriceParams (wit_price_params\<lparr>MaxPriceRub := Some 1000\<rparr>)) = Fin 5"
    "UndercutPercent (MergedPriceParams (wit_price_params\<lparr>MaxPriceRub := Some 1000\<rparr>)) = Fin 2"
    by (simp_all add: cheap_inputs_def wit_inputs_def wit_price_def EffectivePriceRub_def wit_price_params_def
        zero_StrategyParams_def MergedPriceParams_step)
  moreover have "StepPercent wit_price_params = Fin 5" by (simp add: wit_price_params_def)
  ultimately show ?thesis
    using competitor_steps cheap_floor by (simp add: price_range_def DecideCompetitorFollow_def cap_step_def Let_def)
qed

end
