(* ===== verification/Ozon_Budget.thy ===== *)
theory Ozon_Budget
  imports Go_Float
begin

text \<open>
  The call budget of the Ozon advertising interface, \<^verbatim>\<open>internal/service/ozon_api_budget.go\<close> with its statements in
  \<^verbatim>\<open>internal/repository/sqlc/ozon_actions.sql.go\<close>: metered calls are counted per cabinet, category and UTC hour,
  and automation stops at its share of the hourly and daily allowance. The theorems show that automation
  keeps to its share in every hour and in every 24 consecutive hours, that the announced time of
  the reset is the first one at which there is room, and where the count departs from the last 24 hours.
\<close>

section \<open>Limits\<close>

definition ozonAPICategoryBidWrite :: string where "ozonAPICategoryBidWrite = ''bid_write''"
definition ozonAPICategoryBudgetWrite :: string where "ozonAPICategoryBudgetWrite = ''budget_write''"
definition ozonAPICategoryCampaignWrite :: string where "ozonAPICategoryCampaignWrite = ''campaign_write''"
definition ozonAPICategoryProductWrite :: string where "ozonAPICategoryProductWrite = ''product_write''"
definition ozonAPICategoryReport :: string where "ozonAPICategoryReport = ''report''"

lemmas ozon_category_defs = ozonAPICategoryBidWrite_def ozonAPICategoryBudgetWrite_def ozonAPICategoryCampaignWrite_def
  ozonAPICategoryProductWrite_def ozonAPICategoryReport_def

definition ozonBidWriteDailyLimit :: int where "ozonBidWriteDailyLimit = 6000"
definition ozonAutomationDailyShare :: f64 where "ozonAutomationDailyShare = lit (8/10)"

definition hour :: int where "hour = 3600 * 1000000"

definition ozonAPICounterRetention :: int where "ozonAPICounterRetention = 48 * hour"

text \<open>Reading a missing key of these maps gives \<open>0\<close>, which means that there is no limit.\<close>

definition ozonAPIDailyLimits :: "string \<Rightarrow> int" where
  "ozonAPIDailyLimits category =
     (if category = ozonAPICategoryBidWrite then ozonBidWriteDailyLimit
      else if category = ozonAPICategoryBudgetWrite then 500
      else if category = ozonAPICategoryCampaignWrite then 1000
      else if category = ozonAPICategoryProductWrite then 1200
      else if category = ozonAPICategoryReport then 2000 else 0)"

definition ozonAPIHourlyLimits :: "string \<Rightarrow> int" where
  "ozonAPIHourlyLimits category =
     (if category = ozonAPICategoryBidWrite then 500
      else if category = ozonAPICategoryBudgetWrite then 100
      else if category = ozonAPICategoryCampaignWrite then 300
      else if category = ozonAPICategoryProductWrite then 200 else 0)"

section \<open>Counters\<close>

record OzonAPICallCounter =
  oc_SellerCabinetID :: uuid
  oc_Category :: string
  oc_HourStart :: int
  oc_Calls :: int

text \<open>Instants are microseconds; \<^verbatim>\<open>Truncate(time.Hour)\<close> and \<^verbatim>\<open>date_trunc\<close> both round down to the hour.\<close>

definition trunc_hour :: "int \<Rightarrow> int" where
  "trunc_hour t = t - t mod hour"

definition counter_key :: "uuid \<Rightarrow> string \<Rightarrow> int \<Rightarrow> OzonAPICallCounter \<Rightarrow> bool" where
  "counter_key cab category h c \<longleftrightarrow> oc_SellerCabinetID c = cab \<and> oc_Category c = category \<and> oc_HourStart c = h"

text \<open>The upsert fails when the sum leaves the range of the column; then nothing changes.\<close>

definition IncrementOzonAPICalls :: "uuid \<Rightarrow> string \<Rightarrow> int \<Rightarrow> int \<Rightarrow> OzonAPICallCounter list \<Rightarrow> OzonAPICallCounter list option" where
  "IncrementOzonAPICalls cab category calls now tbl =
     (case find (counter_key cab category (trunc_hour now)) tbl of
        None \<Rightarrow> Some (tbl @ [\<lparr>oc_SellerCabinetID = cab, oc_Category = category, oc_HourStart = trunc_hour now, oc_Calls = calls\<rparr>])
      | Some c \<Rightarrow>
        if oc_Calls c + calls > 2147483647 \<or> oc_Calls c + calls < - 2147483648 then None
        else Some (map (\<lambda>c. if counter_key cab category (trunc_hour now) c then c\<lparr>oc_Calls := oc_Calls c + calls\<rparr> else c) tbl))"

definition CountOzonAPICallsSince :: "uuid \<Rightarrow> string \<Rightarrow> int \<Rightarrow> OzonAPICallCounter list \<Rightarrow> int" where
  "CountOzonAPICallsSince cab category since tbl =
     sum_list (map oc_Calls (filter (\<lambda>c. oc_SellerCabinetID c = cab \<and> oc_Category c = category \<and> oc_HourStart c \<ge> since) tbl))"

definition DeleteOzonAPICallCountersBefore :: "int \<Rightarrow> OzonAPICallCounter list \<Rightarrow> OzonAPICallCounter list" where
  "DeleteOzonAPICallCountersBefore before tbl = filter (\<lambda>c. \<not> oc_HourStart c < before) tbl"

section \<open>Operations\<close>

definition int32_of :: "int \<Rightarrow> int" where
  "int32_of n = (n + 2147483648) mod 4294967296 - 2147483648"

definition Record :: "bool \<Rightarrow> uuid \<Rightarrow> string \<Rightarrow> int \<Rightarrow> int \<Rightarrow> OzonAPICallCounter list \<Rightarrow> OzonAPICallCounter list" where
  "Record fault cab category n now tbl =
     (if n \<le> 0 \<or> fault then tbl
      else case IncrementOzonAPICalls cab category (int32_of n) now tbl of None \<Rightarrow> tbl | Some tbl' \<Rightarrow> tbl')"

definition UsedToday :: "uuid \<Rightarrow> string \<Rightarrow> int \<Rightarrow> OzonAPICallCounter list \<Rightarrow> int" where
  "UsedToday cab category now tbl = CountOzonAPICallsSince cab category (now - 24 * hour) tbl"

text \<open>
  A reason for blocking is given by its parts: the window, the counts that the text states and the time of the
  reset. No reason is \<open>None\<close>.
\<close>

datatype budget_window = Hourly | Daily

record block_reason =
  br_window :: budget_window
  br_category :: string
  br_used :: int
  br_limit :: int
  br_share :: int

definition automationLimit :: "int \<Rightarrow> int" where
  "automationLimit limit = int_of_float (float_of_int limit * ozonAutomationDailyShare)"

definition ozonAPIWindowBlockReason :: "int \<Rightarrow> int \<Rightarrow> int \<Rightarrow> string \<Rightarrow> budget_window \<Rightarrow> block_reason option" where
  "ozonAPIWindowBlockReason used planned limit category window =
     (if limit \<le> 0 then None
      else if wrap64 (used + planned) \<le> automationLimit limit then None
      else Some \<lparr>br_window = window, br_category = category, br_used = used, br_limit = limit, br_share = automationLimit limit\<rparr>)"

definition ozonAPIBudgetBlockReason :: "int \<Rightarrow> int \<Rightarrow> int \<Rightarrow> string \<Rightarrow> block_reason option" where
  "ozonAPIBudgetBlockReason used planned dailyLimit category = ozonAPIWindowBlockReason used planned dailyLimit category Daily"

text \<open>\<^verbatim>\<open>sort.Search\<close>: the smallest index below \<open>j\<close> at which the predicate holds, if it is monotone.\<close>

function search_loop :: "(nat \<Rightarrow> bool) \<Rightarrow> nat \<Rightarrow> nat \<Rightarrow> nat" where
  "search_loop f i j =
     (if i < j then let h = (i + j) div 2 in if \<not> f h then search_loop f (h + 1) j else search_loop f i h else i)"
  by pat_completeness auto
termination
  by (relation "measure (\<lambda>(f, i, j). j - i)") auto

declare search_loop.simps [simp del]

definition sort_Search :: "nat \<Rightarrow> (nat \<Rightarrow> bool) \<Rightarrow> nat" where
  "sort_Search n f = search_loop f 0 n"

text \<open>\<open>fails k\<close>: the read for index \<open>k\<close> of the search fails.\<close>

definition dailyResetAt :: "(nat \<Rightarrow> bool) \<Rightarrow> uuid \<Rightarrow> string \<Rightarrow> int \<Rightarrow> int \<Rightarrow> OzonAPICallCounter list \<Rightarrow> int" where
  "dailyResetAt fails cab category planned now tbl =
     (let limit = automationLimit (ozonAPIDailyLimits category);
          first = trunc_hour (now - 24 * hour);
          hours = nat ((trunc_hour now - first) div hour);
          k = sort_Search (hours + 1) (\<lambda>k. fails k \<or>
                wrap64 (CountOzonAPICallsSince cab category (first + (int k + 1) * hour) tbl + planned) \<le> limit)
      in first + (int k * hour + 24 * hour))"

text \<open>
  The check that automation makes before a write: the hour first, then the last day. The clock is read
  again for the day; a failing read blocks nothing.
\<close>

definition AutomationBlockReason ::
    "bool \<Rightarrow> bool \<Rightarrow> (nat \<Rightarrow> bool) \<Rightarrow> int \<Rightarrow> int \<Rightarrow> uuid \<Rightarrow> string \<Rightarrow> int \<Rightarrow> OzonAPICallCounter list \<Rightarrow> (block_reason \<times> int) option" where
  "AutomationBlockReason hourFails dayFails searchFails now now2 cab category planned tbl =
     (if planned \<le> 0 then None
      else
        let hourStart = trunc_hour now;
            hourly = ozonAPIHourlyLimits category;
            daily =
              (if dayFails then None
               else case ozonAPIBudgetBlockReason (UsedToday cab category now2 tbl) planned
                           (ozonAPIDailyLimits category) category of
                 None \<Rightarrow> None
               | Some reason \<Rightarrow> Some (reason, dailyResetAt searchFails cab category planned now tbl))
        in if hourly > 0 then
             (if hourFails then None
              else case ozonAPIWindowBlockReason (CountOzonAPICallsSince cab category hourStart tbl) planned hourly category Hourly of
                Some reason \<Rightarrow> Some (reason, hourStart + hour)
              | None \<Rightarrow> daily)
           else daily)"

definition CleanupCounters :: "int \<Rightarrow> OzonAPICallCounter list \<Rightarrow> OzonAPICallCounter list" where
  "CleanupCounters now tbl = DeleteOzonAPICallCountersBefore (now - ozonAPICounterRetention) tbl"

section \<open>Lemmas\<close>

lemma share_value: "ozonAutomationDailyShare = Fin (3602879701896397 / 4503599627370496)"
  by (simp add: ozonAutomationDailyShare_def f64_defs f64_eval rnd_eval go_eval)

lemma share_products:
  "float_of_int 6000 * ozonAutomationDailyShare = Fin 4800" "float_of_int 500 * ozonAutomationDailyShare = Fin 400"
  "float_of_int 1000 * ozonAutomationDailyShare = Fin 800" "float_of_int 1200 * ozonAutomationDailyShare = Fin 960"
  "float_of_int 2000 * ozonAutomationDailyShare = Fin 1600" "float_of_int 100 * ozonAutomationDailyShare = Fin 80"
  "float_of_int 300 * ozonAutomationDailyShare = Fin 240" "float_of_int 200 * ozonAutomationDailyShare = Fin 160"
  unfolding share_value by (simp_all add: f64_defs f64_eval rnd_eval go_eval)

lemma int_of_float_numeral: "in_int64 (numeral k) \<Longrightarrow> int_of_float (Fin (numeral k)) = numeral k"
  using int_of_float_int [of "numeral k"] by (simp only: of_int_numeral)

lemma automation_limits:
  "automationLimit 6000 = 4800" "automationLimit 500 = 400" "automationLimit 1000 = 800" "automationLimit 1200 = 960"
  "automationLimit 2000 = 1600" "automationLimit 100 = 80" "automationLimit 300 = 240" "automationLimit 200 = 160"
  unfolding automationLimit_def share_products
  by (rule int_of_float_numeral, rule in_int64I, simp, simp)+

definition upward :: "(nat \<Rightarrow> bool) \<Rightarrow> bool" where
  "upward f \<longleftrightarrow> (\<forall>a b. a \<le> b \<and> f a \<longrightarrow> f b)"

definition first_at :: "(nat \<Rightarrow> bool) \<Rightarrow> nat \<Rightarrow> nat \<Rightarrow> bool" where
  "first_at f n k \<longleftrightarrow> k \<le> n \<and> (k < n \<longrightarrow> f k) \<and> (\<forall>i < k. \<not> f i)"

lemma search_loop_spec:
  assumes "upward f" "\<forall>k < i. \<not> f k" "j < n \<longrightarrow> f j" "i \<le> j" "j \<le> n"
  shows "first_at f n (search_loop f i j)"
  using assms
proof (induction f i j rule: search_loop.induct)
  case (1 f i j)
  let ?h = "(i + j) div 2"
  show ?case
  proof (cases "i < j")
    case False
    then show ?thesis using 1(4-7) by (simp add: search_loop.simps first_at_def)
  next
    case True
    show ?thesis
    proof (cases "f ?h")
      case f: True
      have "search_loop f i j = search_loop f i ?h" using True f by (subst search_loop.simps) (simp add: Let_def)
      moreover have "i \<le> ?h" "?h \<le> n" using True 1(7) by simp_all
      ultimately show ?thesis using 1(2) [OF True refl] f 1(3,4) by simp
    next
      case f: False
      have "\<forall>k < ?h + 1. \<not> f k" using f 1(3) unfolding upward_def by (metis less_Suc_eq_le Suc_eq_plus1)
      moreover have "search_loop f i j = search_loop f (?h + 1) j" using True f by (subst search_loop.simps) (simp add: Let_def)
      moreover have "?h + 1 \<le> j" using True by linarith
      ultimately show ?thesis using 1(1) [OF True refl] f 1(3,5,7) by simp
    qed
  qed
qed

lemma sort_Search_first: "upward f \<Longrightarrow> first_at f n (sort_Search n f)"
  unfolding sort_Search_def by (rule search_loop_spec) simp_all

subsection \<open>Sums over the counters\<close>

definition usage :: "(OzonAPICallCounter \<Rightarrow> bool) \<Rightarrow> OzonAPICallCounter list \<Rightarrow> int" where
  "usage P tbl = sum_list (map oc_Calls (filter P tbl))"

lemma usage_simps [simp]: "usage P [] = 0" "usage P (c # tbl) = (if P c then oc_Calls c else 0) + usage P tbl"
  "usage P (tbl @ tbl') = usage P tbl + usage P tbl'"
  by (simp_all add: usage_def)

lemma usage_cover:
  assumes "\<forall>c \<in> set tbl. P c \<longrightarrow> Q c \<or> R c" "\<forall>c \<in> set tbl. Q c \<or> R c \<longrightarrow> 0 \<le> oc_Calls c"
  shows "usage P tbl \<le> usage Q tbl + usage R tbl"
  using assms by (induction tbl) auto

lemma usage_le:
  assumes "\<forall>c \<in> set tbl. P c \<longrightarrow> Q c" "\<forall>c \<in> set tbl. Q c \<longrightarrow> 0 \<le> oc_Calls c"
  shows "usage P tbl \<le> usage Q tbl"
  using usage_cover [of tbl P Q "\<lambda>_. False"] assms by (simp add: usage_def)

lemma usage_nonneg: "\<forall>c \<in> set tbl. P c \<longrightarrow> 0 \<le> oc_Calls c \<Longrightarrow> 0 \<le> usage P tbl"
  using usage_le [of tbl "\<lambda>_. False" P] by (simp add: usage_def)

lemma usage_filter: "usage P (filter Q tbl) = usage (\<lambda>c. P c \<and> Q c) tbl"
  by (induction tbl) auto

definition key_of :: "OzonAPICallCounter \<Rightarrow> uuid \<times> string \<times> int" where
  "key_of c = (oc_SellerCabinetID c, oc_Category c, oc_HourStart c)"

lemma counter_key_iff: "counter_key cab category h c \<longleftrightarrow> key_of c = (cab, category, h)"
  by (simp add: counter_key_def key_of_def)

lemma usage_add:
  assumes "distinct (map key_of tbl)" "k \<in> key_of ` set tbl"
  shows "usage (Q \<circ> key_of) (map (\<lambda>c. if key_of c = k then c\<lparr>oc_Calls := oc_Calls c + n\<rparr> else c) tbl) =
    usage (Q \<circ> key_of) tbl + (if Q k then n else 0)"
  using assms
proof (induction tbl)
  case (Cons c tbl)
  have key: "key_of (c\<lparr>oc_Calls := v\<rparr>) = key_of c" for v by (simp add: key_of_def)
  show ?case
  proof (cases "key_of c = k")
    case True
    then have "key_of x \<noteq> k" if "x \<in> set tbl" for x using Cons.prems(1) that by (auto simp: image_iff)
    then have "map (\<lambda>c. if key_of c = k then c\<lparr>oc_Calls := oc_Calls c + n\<rparr> else c) tbl = tbl" by (simp add: map_idI)
    then show ?thesis using True key by simp
  next
    case False
    then show ?thesis using Cons key by simp
  qed
qed simp

lemma increment_effect:
  assumes "IncrementOzonAPICalls cab category n now tbl = Some tbl'" "distinct (map key_of tbl)"
  shows "distinct (map key_of tbl')" "set (map key_of tbl') \<subseteq> insert (cab, category, trunc_hour now) (set (map key_of tbl))"
    "usage (Q \<circ> key_of) tbl' = usage (Q \<circ> key_of) tbl + (if Q (cab, category, trunc_hour now) then n else 0)"
    "\<forall>c \<in> set tbl'. (\<exists>d \<in> set tbl. key_of d = key_of c \<and> oc_Calls c \<in> {oc_Calls d, oc_Calls d + n}) \<or> oc_Calls c = n"
proof -
  let ?k = "(cab, category, trunc_hour now)"
  let ?f = "\<lambda>c. if key_of c = ?k then c\<lparr>oc_Calls := oc_Calls c + n\<rparr> else c"
  have key: "key_of (?f c) = key_of c" for c by (simp add: key_of_def)
  consider (new) "?k \<notin> key_of ` set tbl"
      "tbl' = tbl @ [\<lparr>oc_SellerCabinetID = cab, oc_Category = category, oc_HourStart = trunc_hour now, oc_Calls = n\<rparr>]"
    | (old) "?k \<in> key_of ` set tbl" "tbl' = map ?f tbl"
  proof (cases "find (counter_key cab category (trunc_hour now)) tbl")
    case None
    then have "?k \<notin> key_of ` set tbl" by (auto simp: find_None_iff counter_key_iff image_iff)
    then show thesis using that(1) assms(1) None by (simp add: IncrementOzonAPICalls_def)
  next
    case (Some c)
    then have "?k \<in> key_of ` set tbl" by (auto simp: find_Some_iff counter_key_iff image_iff) (metis nth_mem)
    then show thesis using that(2) assms(1) Some by (simp add: IncrementOzonAPICalls_def counter_key_iff split: if_split_asm)
  qed
  note cases = this
  show "distinct (map key_of tbl')"
  proof (cases rule: cases)
    case new
    then show ?thesis using assms(2) by (simp add: key_of_def)
  next
    case old
    have "map key_of tbl' = map key_of tbl" unfolding old(2) by (simp add: comp_def key)
    then show ?thesis using assms(2) by simp
  qed
  show "set (map key_of tbl') \<subseteq> insert ?k (set (map key_of tbl))"
    by (cases rule: cases) (auto simp: key_of_def)
  show "usage (Q \<circ> key_of) tbl' = usage (Q \<circ> key_of) tbl + (if Q ?k then n else 0)"
  proof (cases rule: cases)
    case new
    then show ?thesis by (simp add: key_of_def)
  next
    case old
    show ?thesis unfolding old(2) by (rule usage_add [OF assms(2) old(1)])
  qed
  show "\<forall>c \<in> set tbl'. (\<exists>d \<in> set tbl. key_of d = key_of c \<and> oc_Calls c \<in> {oc_Calls d, oc_Calls d + n}) \<or> oc_Calls c = n"
    by (cases rule: cases) (auto simp: key_of_def)
qed

section \<open>Automation keeps to its share\<close>

text \<open>
  The clock and the counters over time. An automated write checks the budget at one reading of the clock for the
  hour and a later one for the day, and is counted when it is done; the counting itself may fail. Cleaning
  up removes old counters.
\<close>

inductive budget_step :: "int \<times> OzonAPICallCounter list \<Rightarrow> int \<times> OzonAPICallCounter list \<Rightarrow> bool" where
  wait: "now \<le> now' \<Longrightarrow> budget_step (now, tbl) (now', tbl)"
| automate: "\<lbrakk>AutomationBlockReason False False searchFails t1 t2 cab category n tbl = None; now \<le> t1; t1 \<le> t2; t2 \<le> t3;
      0 < n; n < 2147483648\<rbrakk> \<Longrightarrow> budget_step (now, tbl) (t3, Record fault cab category n t3 tbl)"
| cleanup: "budget_step (now, tbl) (now, CleanupCounters now tbl)"

abbreviation limited :: "string \<Rightarrow> bool" where
  "limited category \<equiv> 0 < ozonAPIDailyLimits category"

definition in_hours :: "uuid \<Rightarrow> string \<Rightarrow> int \<Rightarrow> int \<Rightarrow> uuid \<times> string \<times> int \<Rightarrow> bool" where
  "in_hours cab category a b k \<longleftrightarrow> (case k of (cab', category', h) \<Rightarrow> cab' = cab \<and> category' = category \<and> a \<le> h \<and> h \<le> b)"

definition calls_between :: "uuid \<Rightarrow> string \<Rightarrow> int \<Rightarrow> int \<Rightarrow> OzonAPICallCounter list \<Rightarrow> int" where
  "calls_between cab category a b tbl = usage (in_hours cab category a b \<circ> key_of) tbl"

definition budget_inv :: "int \<times> OzonAPICallCounter list \<Rightarrow> bool" where
  "budget_inv s \<longleftrightarrow> (case s of (now, tbl) \<Rightarrow> distinct (map key_of tbl) \<and>
     (\<forall>c \<in> set tbl. oc_HourStart c \<le> now \<and> (limited (oc_Category c) \<longrightarrow> 0 \<le> oc_Calls c)) \<and>
     (\<forall>cab category h. limited category \<longrightarrow>
        calls_between cab category (h - 23 * hour) h tbl \<le> automationLimit (ozonAPIDailyLimits category)) \<and>
     (\<forall>cab category h. 0 < ozonAPIHourlyLimits category \<longrightarrow>
        calls_between cab category h h tbl \<le> automationLimit (ozonAPIHourlyLimits category)))"

lemma hour_pos [simp]: "0 < hour"
  by (simp add: hour_def)

lemma trunc_hour_bounds: "trunc_hour t \<le> t" "t < trunc_hour t + hour"
  using pos_mod_bound [OF hour_pos, of t] pos_mod_sign [OF hour_pos, of t] by (simp_all add: trunc_hour_def)

lemma trunc_hour_mono: "s \<le> t \<Longrightarrow> trunc_hour s \<le> trunc_hour t"
  unfolding trunc_hour_def minus_mod_eq_mult_div using zdiv_mono1 [OF _ hour_pos] by (simp add: mult_left_mono)

lemma hourly_limited: "0 < ozonAPIHourlyLimits category \<Longrightarrow> limited category"
  by (simp add: ozonAPIHourlyLimits_def ozonAPIDailyLimits_def ozon_category_defs ozonBidWriteDailyLimit_def split: if_split_asm)

lemma share_bounds:
  "limited category \<Longrightarrow> 0 \<le> automationLimit (ozonAPIDailyLimits category) \<and> automationLimit (ozonAPIDailyLimits category) \<le> 4800"
  "0 < ozonAPIHourlyLimits category \<Longrightarrow> 0 \<le> automationLimit (ozonAPIHourlyLimits category) \<and> automationLimit (ozonAPIHourlyLimits category) \<le> 4800"
  by (simp_all add: ozonAPIHourlyLimits_def ozonAPIDailyLimits_def ozonBidWriteDailyLimit_def automation_limits split: if_split_asm)

lemma CountSince_usage:
  "CountOzonAPICallsSince cab category since tbl = usage ((\<lambda>(cab', category', h). cab' = cab \<and> category' = category \<and> since \<le> h) \<circ> key_of) tbl"
  by (simp add: CountOzonAPICallsSince_def usage_def key_of_def comp_def)

lemma count_since_bounds:
  assumes "budget_inv (now, tbl)" "limited category" "now \<le> t"
  shows "0 \<le> CountOzonAPICallsSince cab category (t - 24 * hour) tbl"
    "CountOzonAPICallsSince cab category (t - 24 * hour) tbl \<le> 9600"
proof -
  note i = assms(1) [unfolded budget_inv_def prod.case]
  let ?w = "\<lambda>a b. in_hours cab category a b \<circ> key_of"
  have n: "\<forall>c \<in> set tbl. limited (oc_Category c) \<longrightarrow> 0 \<le> oc_Calls c" and h: "\<forall>c \<in> set tbl. oc_HourStart c \<le> t"
    using i assms(3) by force+
  show "0 \<le> CountOzonAPICallsSince cab category (t - 24 * hour) tbl"
    unfolding CountSince_usage by (rule usage_nonneg) (use n assms(2) in \<open>auto simp: key_of_def\<close>)
  have "CountOzonAPICallsSince cab category (t - 24 * hour) tbl \<le>
      usage (?w (t - 24 * hour) (t - hour)) tbl + usage (?w (t - 23 * hour) t) tbl"
    unfolding CountSince_usage by (rule usage_cover) (use n h assms(2) hour_pos in \<open>auto simp: key_of_def in_hours_def\<close>)
  moreover have "usage (?w (t - 24 * hour) (t - hour)) tbl \<le> 4800" "usage (?w (t - 23 * hour) t) tbl \<le> 4800"
  proof -
    have w: "calls_between cab category (h - 23 * hour) h tbl \<le> 4800" for h
      using i share_bounds(1) [OF assms(2)] assms(2) by (meson order_trans)
    show "usage (?w (t - 24 * hour) (t - hour)) tbl \<le> 4800" using w [of "t - hour"] by (simp add: calls_between_def algebra_simps)
    show "usage (?w (t - 23 * hour) t) tbl \<le> 4800" using w [of t] by (simp add: calls_between_def)
  qed
  ultimately show "CountOzonAPICallsSince cab category (t - 24 * hour) tbl \<le> 9600" by linarith
qed

lemma automation_passes:
  assumes "AutomationBlockReason False False searchFails t1 t2 cab category n tbl = None" "0 < n"
  shows "limited category \<Longrightarrow> wrap64 (CountOzonAPICallsSince cab category (t2 - 24 * hour) tbl + n) \<le> automationLimit (ozonAPIDailyLimits category)"
    "0 < ozonAPIHourlyLimits category \<Longrightarrow>
       wrap64 (CountOzonAPICallsSince cab category (trunc_hour t1) tbl + n) \<le> automationLimit (ozonAPIHourlyLimits category)"
  using assms unfolding AutomationBlockReason_def ozonAPIBudgetBlockReason_def ozonAPIWindowBlockReason_def UsedToday_def Let_def
  by (auto split: if_split_asm)

lemma between_le_since:
  assumes "budget_inv (now, tbl)" "limited category" "since \<le> a"
  shows "calls_between cab category a b tbl \<le> CountOzonAPICallsSince cab category since tbl"
  unfolding calls_between_def CountSince_usage
  by (rule usage_le) (use assms in \<open>auto simp: budget_inv_def in_hours_def key_of_def\<close>)

lemma Record_cases:
  assumes "0 < n" "n < 2147483648"
  obtains "Record fault cab category n t tbl = tbl"
  | tbl' where "Record fault cab category n t tbl = tbl'" "IncrementOzonAPICalls cab category n t tbl = Some tbl'"
proof -
  have "int32_of n = n" using assms by (simp add: int32_of_def)
  then show thesis using that assms(1) by (cases "fault"; cases "IncrementOzonAPICalls cab category n t tbl") (auto simp: Record_def)
qed

text \<open>A write that passed the check leaves the windows within the share, whichever hour it is counted in.\<close>

lemma increment_keeps:
  assumes inv: "budget_inv (now, tbl)" and inc: "IncrementOzonAPICalls cab category n t3 tbl = Some tbl'"
    and pass: "AutomationBlockReason False False searchFails t1 t2 cab category n tbl = None"
    and times: "now \<le> t1" "t1 \<le> t2" "t2 \<le> t3" and n: "0 < n" "n < 2147483648"
  shows "budget_inv (t3, tbl')"
proof -
  note i = inv [unfolded budget_inv_def prod.case]
  note e = increment_effect [OF inc conjunct1 [OF i]]
  have hs: "\<forall>c \<in> set tbl. oc_HourStart c \<le> now" using i by blast
  have between: "calls_between cab' category' a b tbl' = calls_between cab' category' a b tbl +
      (if cab' = cab \<and> category' = category \<and> a \<le> trunc_hour t3 \<and> trunc_hour t3 \<le> b then n else 0)" for cab' category' a b
    unfolding calls_between_def e(3) by (auto simp: in_hours_def)
  have w: "wrap64 (x + n) = x + n" if "0 \<le> x" "x \<le> 9600" for x
    using that n by (intro wrap64_id in_int64I) simp_all
  have day: "calls_between cab category (h - 23 * hour) h tbl + n \<le> automationLimit (ozonAPIDailyLimits category)"
    if "limited category" "trunc_hour t3 \<le> h" for h
  proof -
    have "t2 - 24 * hour \<le> h - 23 * hour" using trunc_hour_bounds [of t3] that(2) times by linarith
    moreover have t: "now \<le> t2" using times by simp
    moreover note w [OF count_since_bounds(1) [OF inv that(1) t, of cab] count_since_bounds(2) [OF inv that(1) t, of cab]]
    ultimately show ?thesis
      using between_le_since [OF inv that(1), of "t2 - 24 * hour" "h - 23 * hour" cab h] automation_passes(1) [OF pass n(1) that(1)] by linarith
  qed
  have hourly: "calls_between cab category h h tbl + n \<le> automationLimit (ozonAPIHourlyLimits category)"
    if l: "0 < ozonAPIHourlyLimits category" and h: "h = trunc_hour t3" for h
  proof -
    note lim = hourly_limited [OF l]
    have "t1 - 24 * hour \<le> trunc_hour t1" using trunc_hour_bounds [of t1] hour_pos by linarith
    have b: "0 \<le> CountOzonAPICallsSince cab category (trunc_hour t1) tbl"
      unfolding CountSince_usage by (rule usage_nonneg) (use i lim in \<open>auto simp: key_of_def\<close>)
    have "CountOzonAPICallsSince cab category (trunc_hour t1) tbl \<le> CountOzonAPICallsSince cab category (t1 - 24 * hour) tbl"
      unfolding CountSince_usage by (rule usage_le) (use i lim \<open>t1 - 24 * hour \<le> trunc_hour t1\<close> in \<open>auto simp: key_of_def\<close>)
    then have c: "CountOzonAPICallsSince cab category (trunc_hour t1) tbl \<le> 9600"
      using count_since_bounds(2) [OF inv lim times(1), of cab] by linarith
    have "trunc_hour t1 \<le> h" unfolding h by (rule trunc_hour_mono) (use times in simp)
    then show ?thesis
      using between_le_since [OF inv lim, of "trunc_hour t1" h cab h] automation_passes(2) [OF pass n(1) l] w [OF b c] by linarith
  qed
  have rows: "oc_HourStart c \<le> t3 \<and> (limited (oc_Category c) \<longrightarrow> 0 \<le> oc_Calls c)" if c: "c \<in> set tbl'" for c
  proof -
    have "key_of c \<in> insert (cab, category, trunc_hour t3) (set (map key_of tbl))" using e(2) c by auto
    then have "oc_HourStart c \<le> t3" using hs times trunc_hour_bounds(1) [of t3] by (auto simp: key_of_def)
    moreover have "limited (oc_Category c) \<longrightarrow> 0 \<le> oc_Calls c"
      using bspec [OF e(4) c] i n(1) by (auto simp: key_of_def)
    ultimately show ?thesis by blast
  qed
  show ?thesis unfolding budget_inv_def prod.case between
    using e(1) rows i day hourly by auto
qed

lemma budget_inv_step:
  assumes "budget_step s s'" "budget_inv s"
  shows "budget_inv s'"
  using assms
proof (induction rule: budget_step.induct)
  case (wait now now' tbl)
  then show ?case by (auto simp: budget_inv_def)
next
  case (automate searchFails t1 t2 cab category n tbl now t3 fault)
  show ?case
  proof (cases rule: Record_cases [OF automate(5,6), of fault cab category t3 tbl])
    case 1
    then show ?thesis using automate by (auto simp: budget_inv_def)
  next
    case (2 tbl')
    then show ?thesis using increment_keeps [OF automate(7) 2(2) automate(1-6)] by simp
  qed
next
  case (cleanup now tbl)
  note i = cleanup [unfolded budget_inv_def prod.case]
  let ?keep = "\<lambda>c. \<not> oc_HourStart c < now - ozonAPICounterRetention"
  have le: "calls_between cab category a b (filter ?keep tbl) \<le> calls_between cab category a b tbl" if "limited category" for cab category a b
    unfolding calls_between_def usage_filter by (rule usage_le) (use i that in \<open>auto simp: in_hours_def key_of_def\<close>)
  have "distinct (map key_of (filter ?keep tbl))" using i by (simp add: distinct_map_filter)
  moreover have "calls_between cab category (h - 23 * hour) h (filter ?keep tbl) \<le> automationLimit (ozonAPIDailyLimits category)"
    if "limited category" for cab category h using i le [OF that] that by (meson order_trans)
  moreover have "calls_between cab category h h (filter ?keep tbl) \<le> automationLimit (ozonAPIHourlyLimits category)"
    if "0 < ozonAPIHourlyLimits category" for cab category h using i le [OF hourly_limited [OF that]] that by (meson order_trans)
  ultimately show ?case
    unfolding budget_inv_def prod.case CleanupCounters_def DeleteOzonAPICallCountersBefore_def using i by simp
qed

definition fresh_budget :: "int \<times> OzonAPICallCounter list \<Rightarrow> bool" where
  "fresh_budget s \<longleftrightarrow> snd s = []"

interpretation budget: state_invariant fresh_budget budget_step budget_inv
proof unfold_locales
  show "budget_inv s" if "fresh_budget s" for s
    using that share_bounds by (cases s) (auto simp: fresh_budget_def budget_inv_def calls_between_def)
  show "budget_inv t" if "budget_inv s" "budget_step s t" for s t
    using budget_inv_step that by blast
qed

text \<open>
  Automation leaves the reserve untouched: as long as its budget reads succeed, the calls it has counted for a
  cabinet and a metered category stay within 80 percent of the daily allowance over any 24 consecutive
  hours and, where there is an hourly allowance, within 80 percent of it in every hour, for every sequence of writes, failed
  counts, pauses and clean-ups.
\<close>

theorem automation_within_share:
  assumes "budget_step\<^sup>*\<^sup>* (t0, []) (now, tbl)" "0 < ozonAPIDailyLimits category"
  shows "calls_between cab category (h - 23 * hour) h tbl \<le> automationLimit (ozonAPIDailyLimits category) \<and>
    (0 < ozonAPIHourlyLimits category \<longrightarrow> calls_between cab category h h tbl \<le> automationLimit (ozonAPIHourlyLimits category))"
proof -
  have "budget_inv (now, tbl)" by (rule budget.inv_reachable [OF _ assms(1)]) (simp add: fresh_budget_def)
  then show ?thesis using assms(2) by (auto simp: budget_inv_def)
qed

lemma count_antimono:
  assumes "\<forall>c \<in> set tbl. 0 \<le> oc_Calls c" "\<forall>c \<in> set tbl. b \<le> oc_HourStart c \<longrightarrow> a \<le> oc_HourStart c"
  shows "CountOzonAPICallsSince cab category b tbl \<le> CountOzonAPICallsSince cab category a tbl"
  unfolding CountSince_usage by (rule usage_le) (use assms in \<open>auto simp: key_of_def\<close>)

lemma hour_gap:
  assumes "a mod hour = 0" "b mod hour = 0" "a < b"
  shows "a + hour \<le> b"
proof -
  obtain x y where xy: "a = hour * x" "b = hour * y" using assms by (metis mod_0_imp_dvd dvd_def)
  then have "x + 1 \<le> y" using assms(3) hour_pos by (simp add: mult_less_cancel_left)
  then have "hour * (x + 1) \<le> hour * y" using hour_pos by (simp add: mult_left_mono)
  then show ?thesis by (simp add: xy algebra_simps)
qed

lemma trunc_hour_day: "trunc_hour (t - 24 * hour) = trunc_hour t - 24 * hour" "trunc_hour t mod hour = 0"
proof -
  have "(t - 24 * hour) mod hour = t mod hour" by (metis diff_diff_add mod_diff_right_eq mod_mult_self2_is_0 diff_zero)
  then show "trunc_hour (t - 24 * hour) = trunc_hour t - 24 * hour" by (simp add: trunc_hour_def)
  show "trunc_hour t mod hour = 0" by (simp add: trunc_hour_def mod_diff_left_eq [symmetric])
qed

text \<open>
  The announced reset is exact: when the daily allowance blocks a write that fits into the share at all, the
  time that \<^verbatim>\<open>dailyResetAt\<close> finds by binary search separates the future: until then the write stays blocked, from
  then on there is room, if nothing else is counted.
\<close>

theorem daily_reset_exact:
  assumes tbl: "\<forall>c \<in> set tbl. 0 \<le> oc_Calls c \<and> oc_HourStart c \<le> now \<and> oc_HourStart c mod hour = 0"
    and small: "CountOzonAPICallsSince cab category (now - 25 * hour) tbl \<le> 10 ^ 9"
    and planned: "0 < planned" "planned \<le> automationLimit (ozonAPIDailyLimits category)" "planned \<le> 10 ^ 9"
    and blocked: "automationLimit (ozonAPIDailyLimits category) < CountOzonAPICallsSince cab category (now - 24 * hour) tbl + planned"
    and t: "now \<le> t"
  shows "CountOzonAPICallsSince cab category (t - 24 * hour) tbl + planned \<le> automationLimit (ozonAPIDailyLimits category) \<longleftrightarrow>
    dailyResetAt (\<lambda>_. False) cab category planned now tbl < t"
proof -
  let ?C = "\<lambda>a. CountOzonAPICallsSince cab category a tbl" and ?L = "automationLimit (ozonAPIDailyLimits category)"
  define first where "first = trunc_hour (now - 24 * hour)"
  have f: "first = trunc_hour now - 24 * hour" "first mod hour = 0" "first \<le> now - 24 * hour" "now < first + 25 * hour"
    using trunc_hour_day [of now] trunc_hour_day(2) [of "now - 24 * hour"] trunc_hour_bounds [of now] by (simp_all add: first_def)
  have anti: "?C b \<le> ?C a" if "a \<le> b" for a b by (rule count_antimono) (use tbl that in auto)
  have pos: "0 \<le> ?C a" for a unfolding CountSince_usage by (rule usage_nonneg) (use tbl in simp)
  have "nat ((trunc_hour now - first) div hour) = 24" using f(1) by (simp add: hour_def)
  define g where "g k \<longleftrightarrow> ?C (first + (int k + 1) * hour) + planned \<le> ?L" for k :: nat
  have w: "wrap64 (?C (first + (int k + 1) * hour) + planned) = ?C (first + (int k + 1) * hour) + planned" for k
  proof -
    have "0 \<le> int k * hour" "(int k + 1) * hour = int k * hour + hour" by (simp_all add: algebra_simps less_imp_le)
    then have "now - 25 * hour \<le> first + (int k + 1) * hour" using f(4) hour_pos by linarith
    then have "?C (first + (int k + 1) * hour) \<le> 10 ^ 9" using anti small order_trans by blast
    then show ?thesis using pos [of "first + (int k + 1) * hour"] planned by (intro wrap64_id in_int64I) simp_all
  qed
  define k where "k = sort_Search 25 g"
  have r: "dailyResetAt (\<lambda>_. False) cab category planned now tbl = first + (int k * hour + 24 * hour)"
    using \<open>nat ((trunc_hour now - first) div hour) = 24\<close>
    by (simp add: dailyResetAt_def first_def [symmetric] Let_def w g_def [symmetric] k_def)
  have "upward g" unfolding upward_def g_def
  proof (intro allI impI, elim conjE)
    fix a b :: nat assume "a \<le> b" "?C (first + (int a + 1) * hour) + planned \<le> ?L"
    moreover have "?C (first + (int b + 1) * hour) \<le> ?C (first + (int a + 1) * hour)"
      using \<open>a \<le> b\<close> hour_pos by (intro anti) (simp add: mult_right_mono)
    ultimately show "?C (first + (int b + 1) * hour) + planned \<le> ?L" by linarith
  qed
  then have k: "first_at g 25 k" unfolding k_def by (rule sort_Search_first)
  have "?C (first + 25 * hour) \<le> ?C (now + 1)" by (rule anti) (use f(4) in simp)
  moreover have "filter (\<lambda>c. oc_SellerCabinetID c = cab \<and> oc_Category c = category \<and> now + 1 \<le> oc_HourStart c) tbl = []"
    using tbl by (force simp: filter_empty_conv)
  then have "?C (now + 1) = 0" by (simp add: CountOzonAPICallsSince_def)
  ultimately have "g 24" using planned(2) unfolding g_def by simp
  then have "k \<le> 24" using k unfolding first_at_def by (meson not_le)
  then have gk: "g k" using k by (simp add: first_at_def)
  show ?thesis unfolding r
  proof
    assume late: "first + (int k * hour + 24 * hour) < t"
    have "?C (t - 24 * hour) \<le> ?C (first + (int k + 1) * hour)"
    proof (rule count_antimono)
      show "\<forall>c \<in> set tbl. t - 24 * hour \<le> oc_HourStart c \<longrightarrow> first + (int k + 1) * hour \<le> oc_HourStart c"
      proof (intro ballI impI)
        fix c assume c: "c \<in> set tbl" "t - 24 * hour \<le> oc_HourStart c"
        have "(first + int k * hour) mod hour = 0" using f(2) by simp
        from hour_gap [OF this] show "first + (int k + 1) * hour \<le> oc_HourStart c" using tbl c late by (simp add: algebra_simps)
      qed
    qed (use tbl in simp)
    then show "?C (t - 24 * hour) + planned \<le> ?L" using gk by (simp add: g_def)
  next
    assume room: "?C (t - 24 * hour) + planned \<le> ?L"
    show "first + (int k * hour + 24 * hour) < t"
    proof (rule ccontr)
      assume "\<not> first + (int k * hour + 24 * hour) < t"
      then have early: "t - 24 * hour \<le> first + int k * hour" by simp
      show False
      proof (cases k)
        case 0
        then have "t = now" using early f(3) t by simp
        then show False using room blocked by simp
      next
        case (Suc m)
        then have "\<not> g m" using k by (simp add: first_at_def)
        moreover have "?C (first + (int m + 1) * hour) \<le> ?C (t - 24 * hour)" using early Suc by (intro anti) (simp add: algebra_simps)
        ultimately show False using room by (simp add: g_def)
      qed
    qed
  qed
qed

text \<open>
  The daily count is not that of the last 24 hours: calls are counted at the start of their hour, so the
  calls of the second half of an hour drop out of the count up to an hour too early. Here
  400 calls made 23 and a half hours ago are not counted.
\<close>

theorem used_today_drops_recent_calls:
  "(let made = 100 * hour + 59 * 60 * 1000000; now = 124 * hour + 29 * 60 * 1000000
    in now - made < 24 * hour \<and> UsedToday 1 ozonAPICategoryBidWrite now (Record False 1 ozonAPICategoryBidWrite 400 made []) = 0 \<and>
       UsedToday 1 ozonAPICategoryBidWrite made (Record False 1 ozonAPICategoryBidWrite 400 made []) = 400)"
  by (simp add: Let_def hour_def UsedToday_def Record_def IncrementOzonAPICalls_def CountOzonAPICallsSince_def trunc_hour_def int32_of_def)

definition first_write :: "OzonAPICallCounter list" where
  "first_write = Record False 1 ozonAPICategoryBidWrite 10 (100 * hour) []"

lemma bid_limits: "ozonAPIDailyLimits ozonAPICategoryBidWrite = 6000" "ozonAPIHourlyLimits ozonAPICategoryBidWrite = 500"
  by (simp_all add: ozonAPIDailyLimits_def ozonAPIHourlyLimits_def ozonBidWriteDailyLimit_def)

theorem automation_within_share_witness:
  "calls_between 1 ozonAPICategoryBidWrite (77 * hour) (100 * hour) first_write = 10 \<and>
   calls_between 1 ozonAPICategoryBidWrite (77 * hour) (100 * hour) first_write \<le> 4800"
proof -
  have "AutomationBlockReason False False (\<lambda>_. False) (100 * hour) (100 * hour) 1 ozonAPICategoryBidWrite 10 [] = None"
    by (simp add: AutomationBlockReason_def ozonAPIBudgetBlockReason_def ozonAPIWindowBlockReason_def UsedToday_def
        CountOzonAPICallsSince_def bid_limits automation_limits wrap64_def)
  from budget_step.automate [OF this, of 0 "100 * hour" False]
  have "budget_step\<^sup>*\<^sup>* (0, []) (100 * hour, first_write)" by (simp add: first_write_def hour_def)
  from automation_within_share [OF this, of ozonAPICategoryBidWrite 1 "100 * hour"] show ?thesis
    by (simp add: bid_limits automation_limits)
      (simp add: first_write_def calls_between_def in_hours_def key_of_def Record_def IncrementOzonAPICalls_def int32_of_def trunc_hour_def hour_def)
qed

definition full_day :: "OzonAPICallCounter list" where
  "full_day = [\<lparr>oc_SellerCabinetID = 1, oc_Category = ozonAPICategoryBidWrite, oc_HourStart = 100 * hour, oc_Calls = 4800\<rparr>]"

theorem daily_reset_exact_witness:
  "dailyResetAt (\<lambda>_. False) 1 ozonAPICategoryBidWrite 1 (105 * hour) full_day < 125 * hour"
proof -
  have "CountOzonAPICallsSince 1 ozonAPICategoryBidWrite (125 * hour - 24 * hour) full_day + 1 \<le> automationLimit (ozonAPIDailyLimits ozonAPICategoryBidWrite) \<longleftrightarrow>
    dailyResetAt (\<lambda>_. False) 1 ozonAPICategoryBidWrite 1 (105 * hour) full_day < 125 * hour"
    by (rule daily_reset_exact)
      (simp_all add: bid_limits automation_limits full_day_def CountOzonAPICallsSince_def hour_def)
  then show ?thesis by (simp add: bid_limits automation_limits full_day_def CountOzonAPICallsSince_def hour_def)
qed

end
