(* ===== verification/Ozon_Total_DRR.thy ===== *)
theory Ozon_Total_DRR
  imports Ozon_Budget Strategy_Params
begin

text \<open>
  The share of advertising in the whole turnover of a cabinet, \<^verbatim>\<open>internal/service/ozon_total_drr.go\<close>, with the
  window evidence it is measured from (\<^verbatim>\<open>internal/repository/sqlc/ozon_drr_evidence_manual.go\<close>). A measurement
  blocks increases above a ceiling that is either configured or derived from the margin. The theorems show
  that a usable measurement rests on complete days and what the derived ceiling means, and one case
  in which it vanishes.
\<close>

section \<open>Tables\<close>

text \<open>
  Dates are instants at midnight. Amounts are the exact decimals of the \<^verbatim>\<open>NUMERIC\<close> columns; a bid is stored in
  kopecks and is given by the \<^verbatim>\<open>float64\<close> that reading it yields, a \<^verbatim>\<open>NULL\<close> bid by \<open>Fin 0\<close>.
\<close>

definition day :: int where "day = 24 * hour"

definition trunc_day :: "int \<Rightarrow> int" where
  "trunc_day t = t - t mod day"

record OzonCampaign =
  oz_ID :: uuid
  oz_SellerCabinetID :: uuid
  oz_OzonCampaignID :: int
  oz_State :: "string option"
  oz_FromDate :: "int option"
  oz_ToDate :: "int option"

record OzonCampaignProduct =
  op_CampaignID :: uuid
  op_Sku :: int
  op_BidRub :: f64
  op_IsActive :: bool

record OzonCampaignStat =
  os_CampaignID :: uuid
  os_Date :: int
  os_Views :: int
  os_Clicks :: int
  os_SpendRub :: rat
  os_Orders :: int
  os_RevenueRub :: rat

record OzonSalesDaily =
  sd_SellerCabinetID :: uuid
  sd_Sku :: int
  sd_Date :: int
  sd_OrderedUnits :: int
  sd_RevenueRub :: "rat option"

record OzonProductPrice =
  ozp_SellerCabinetID :: uuid
  ozp_Sku :: int
  ozp_PriceRub :: "rat option"
  ozp_NetPriceRub :: "rat option"
  ozp_CommissionFboPct :: "rat option"
  ozp_CommissionFbsPct :: "rat option"
  ozp_AcquiringPct :: "rat option"

record ozon_tables =
  ozon_campaigns :: "OzonCampaign list"
  ozon_campaign_products :: "OzonCampaignProduct list"
  ozon_campaign_stats :: "OzonCampaignStat list"
  ozon_sales_daily :: "OzonSalesDaily list"
  ozon_product_prices :: "OzonProductPrice list"
  ozon_cancellation_rates :: "(uuid \<times> int \<times> int) list"

definition pgNumericToFloat :: "rat option \<Rightarrow> f64" where
  "pgNumericToFloat n =
     (case n of None \<Rightarrow> Fin 0 | Some r \<Rightarrow> (case round64 r of Fin x \<Rightarrow> Fin x | _ \<Rightarrow> Fin 0))"

definition roundRub :: "f64 \<Rightarrow> f64" where
  "roundRub value = math_Round (value * Fin 100) / Fin 100"

section \<open>Window evidence\<close>

record OzonDRRWindowEvidence =
  ev_SpendRub :: rat
  ev_RevenueRub :: rat
  ev_OrderedUnits :: int
  ev_SalesDays :: int
  ev_AdDays :: int
  ev_SalesLastDate :: "int option"
  ev_AdLastDate :: "int option"
  ev_MissingCampaignDays :: int
  ev_InvalidRows :: int

definition between :: "int \<Rightarrow> int \<Rightarrow> int \<Rightarrow> bool" where
  "between a b d \<longleftrightarrow> a \<le> d \<and> d \<le> b"

definition window_sales :: "uuid \<Rightarrow> int \<Rightarrow> int \<Rightarrow> ozon_tables \<Rightarrow> OzonSalesDaily list" where
  "window_sales cab a b db = filter (\<lambda>s. sd_SellerCabinetID s = cab \<and> between a b (sd_Date s)) (ozon_sales_daily db)"

definition window_ads :: "uuid \<Rightarrow> int \<Rightarrow> int \<Rightarrow> ozon_tables \<Rightarrow> OzonCampaignStat list" where
  "window_ads cab a b db =
     filter (\<lambda>s. between a b (os_Date s) \<and>
               list_ex (\<lambda>c. oz_ID c = os_CampaignID s \<and> oz_SellerCabinetID c = cab) (ozon_campaigns db)) (ozon_campaign_stats db)"

definition series :: "int \<Rightarrow> int \<Rightarrow> int list" where
  "series a b = map (\<lambda>k. a + int k * day) [0..<(if a \<le> b then nat ((b - a) div day) + 1 else 0)]"

definition upper_char :: "char \<Rightarrow> char" where
  "upper_char c = (let n = of_char c :: nat in if 97 \<le> n \<and> n \<le> 122 then char_of (n - 32) else c)"

definition pg_trim :: "string \<Rightarrow> string" where
  "pg_trim s = rev (dropWhile (\<lambda>c. c = CHR '' '') (rev (dropWhile (\<lambda>c. c = CHR '' '') s)))"

definition idle_states :: "string list" where
  "idle_states = [''CAMPAIGN_STATE_INACTIVE'', ''CAMPAIGN_STATE_STOPPED'', ''CAMPAIGN_STATE_ARCHIVED'',
     ''CAMPAIGN_STATE_FINISHED'', ''CAMPAIGN_STATE_PLANNED'', ''CAMPAIGN_STATE_MODERATION_PASSED'']"

text \<open>A campaign that must have a row for day \<open>d\<close> of the window.\<close>

definition reports_day :: "int \<Rightarrow> int \<Rightarrow> ozon_tables \<Rightarrow> OzonCampaign \<Rightarrow> int \<Rightarrow> bool" where
  "reports_day a b db c d \<longleftrightarrow>
     (map upper_char (pg_trim (case oz_State c of None \<Rightarrow> [] | Some s \<Rightarrow> s)) \<notin> set idle_states \<or>
      list_ex (\<lambda>s. os_CampaignID s = oz_ID c \<and> between a b (os_Date s)) (ozon_campaign_stats db)) \<and>
     (case oz_FromDate c of None \<Rightarrow> True | Some f \<Rightarrow> f \<le> d) \<and> (case oz_ToDate c of None \<Rightarrow> True | Some t \<Rightarrow> d \<le> t)"

definition missing_days :: "uuid \<Rightarrow> int \<Rightarrow> int \<Rightarrow> ozon_tables \<Rightarrow> (OzonCampaign \<times> int) list" where
  "missing_days cab a b db =
     filter (\<lambda>(c, d). oz_SellerCabinetID c = cab \<and> reports_day a b db c d \<and>
               \<not> list_ex (\<lambda>s. os_CampaignID s = oz_ID c \<and> os_Date s = d) (ozon_campaign_stats db))
       (List.product (ozon_campaigns db) (series a b))"

definition max_date :: "int list \<Rightarrow> int option" where
  "max_date ds = (case ds of [] \<Rightarrow> None | d # ds' \<Rightarrow> Some (foldr max ds' d))"

definition GetOzonDRRWindowEvidence :: "uuid \<Rightarrow> int \<Rightarrow> int \<Rightarrow> ozon_tables \<Rightarrow> OzonDRRWindowEvidence" where
  "GetOzonDRRWindowEvidence cab a b db =
     (let sales = window_sales cab a b db; ads = window_ads cab a b db
      in \<lparr>ev_SpendRub = sum_list (map os_SpendRub ads),
          ev_RevenueRub = sum_list (map (\<lambda>s. case sd_RevenueRub s of None \<Rightarrow> 0 | Some r \<Rightarrow> r) sales),
          ev_OrderedUnits = sum_list (map sd_OrderedUnits sales),
          ev_SalesDays = int (length (remdups (map sd_Date sales))),
          ev_AdDays = int (length (remdups (map os_Date ads))),
          ev_SalesLastDate = max_date (map sd_Date sales),
          ev_AdLastDate = max_date (map os_Date ads),
          ev_MissingCampaignDays = int (length (missing_days cab a b db)),
          ev_InvalidRows =
            int (length (filter (\<lambda>s. (case sd_RevenueRub s of None \<Rightarrow> True | Some r \<Rightarrow> r < 0) \<or> sd_OrderedUnits s < 0) sales)) +
            int (length (filter (\<lambda>s. os_SpendRub s < 0) ads))\<rparr>)"

definition completeDRRWindowEvidence :: "OzonDRRWindowEvidence \<Rightarrow> int \<Rightarrow> int \<Rightarrow> bool" where
  "completeDRRWindowEvidence evidence a b \<longleftrightarrow>
     (let days = (b - a) div day + 1
      in days > 0 \<and> ev_SalesDays evidence = days \<and> ev_AdDays evidence = days \<and>
         ev_MissingCampaignDays evidence = 0 \<and> ev_InvalidRows evidence = 0)"

section \<open>Measurement\<close>

definition totalDRRStatusOK :: string where "totalDRRStatusOK = ''ok''"
definition totalDRRStatusNoData :: string where "totalDRRStatusNoData = ''no_data''"
definition totalDRRStatusStale :: string where "totalDRRStatusStale = ''stale''"
definition totalDRRScopeCabinet :: string where "totalDRRScopeCabinet = ''cabinet''"
definition totalDRRScopeCampaign :: string where "totalDRRScopeCampaign = ''campaign''"
definition defaultTotalDRRMaxAgeHours :: int where "defaultTotalDRRMaxAgeHours = 36"

lemmas drr_status_defs = totalDRRStatusOK_def totalDRRStatusNoData_def totalDRRStatusStale_def

record totalDRR =
  td_Value :: f64
  td_Status :: string
  td_SpendRub :: f64
  td_RevenueRub :: f64
  td_Scope :: string
  td_AgeHours :: f64

text \<open>\<^verbatim>\<open>Duration.Hours\<close> of a positive duration in microseconds.\<close>

definition duration_hours :: "int \<Rightarrow> f64" where
  "duration_hours d = float_of_int (d div hour) + float_of_int (1000 * (d mod hour)) / Fin 3600000000000"

definition computeTotalDRR :: "f64 \<Rightarrow> f64 \<Rightarrow> int \<Rightarrow> int \<Rightarrow> int \<Rightarrow> totalDRR" where
  "computeTotalDRR spend revenue lastData now maxAgeHours =
     (let result = \<lparr>td_Value = Fin 0, td_Status = totalDRRStatusNoData, td_SpendRub = roundRub spend,
                    td_RevenueRub = roundRub revenue, td_Scope = totalDRRScopeCabinet, td_AgeHours = Fin 0\<rparr>
      in if revenue \<le> Fin 0 \<or> lastData = 0 then result
         else
           let dataEnd = trunc_day lastData + day;
               result = (if now - dataEnd > 0 then result\<lparr>td_AgeHours := duration_hours (now - dataEnd)\<rparr> else result);
               limit = (if maxAgeHours \<le> 0 then defaultTotalDRRMaxAgeHours else maxAgeHours)
           in if td_AgeHours result > float_of_int limit then result\<lparr>td_Status := totalDRRStatusStale\<rparr>
              else result\<lparr>td_Status := totalDRRStatusOK, td_Value := roundRub (spend / revenue * Fin 100)\<rparr>)"

text \<open>A failing read gives the measurement without data; \<open>fault\<close> says that it fails.\<close>

definition loadCabinetTotalDRR :: "bool \<Rightarrow> uuid \<Rightarrow> int \<Rightarrow> int \<Rightarrow> int \<Rightarrow> ozon_tables \<Rightarrow> totalDRR" where
  "loadCabinetTotalDRR fault cab since now maxAgeHours db =
     (let a = trunc_day since; b = trunc_day now - day
      in if a > b then
           \<lparr>td_Value = Fin 0, td_Status = totalDRRStatusNoData, td_SpendRub = Fin 0, td_RevenueRub = Fin 0,
            td_Scope = totalDRRScopeCabinet, td_AgeHours = Fin 0\<rparr>
         else if fault then computeTotalDRR (Fin 0) (Fin 0) 0 now maxAgeHours
         else
           let evidence = GetOzonDRRWindowEvidence cab a b db;
               lastData = (case (ev_SalesLastDate evidence, ev_AdLastDate evidence) of
                             (Some s, Some ad) \<Rightarrow> if ad < s then ad else s | _ \<Rightarrow> 0);
               result = computeTotalDRR (pgNumericToFloat (Some (ev_SpendRub evidence)))
                          (pgNumericToFloat (Some (ev_RevenueRub evidence))) lastData now maxAgeHours
           in if td_Status result = totalDRRStatusOK \<and> \<not> completeDRRWindowEvidence evidence a b
              then result\<lparr>td_Status := totalDRRStatusNoData, td_Value := Fin 0\<rparr> else result)"

subsection \<open>Per campaign\<close>

record campaignTotalDRR =
  ct_total :: totalDRR
  ct_Shared :: bool

text \<open>A row of the statement that splits the turnover between campaigns; its quotients are computed by the database.\<close>

record OzonCampaignAttributedTurnoverByCabinetRow =
  at_CampaignID :: uuid
  at_RevenueRub :: rat
  at_RevenueShared :: bool
  at_LastDate :: "int option"

definition loadCampaignAttributedTurnover ::
    "OzonCampaignAttributedTurnoverByCabinetRow list option \<Rightarrow> int \<Rightarrow> int \<Rightarrow> uuid \<Rightarrow> OzonCampaignAttributedTurnoverByCabinetRow option" where
  "loadCampaignAttributedTurnover rows since now cid =
     (if trunc_day since > trunc_day now - day then None
      else case rows of None \<Rightarrow> None | Some rs \<Rightarrow> find (\<lambda>r. at_CampaignID r = cid) (rev rs))"

definition campaignTotalDRRFrom ::
    "OzonCampaignAttributedTurnoverByCabinetRow option \<Rightarrow> f64 \<Rightarrow> int \<Rightarrow> int \<Rightarrow> campaignTotalDRR" where
  "campaignTotalDRRFrom row campaignSpend now maxAgeHours =
     (case row of
        None \<Rightarrow> \<lparr>ct_total = computeTotalDRR campaignSpend (Fin 0) 0 now maxAgeHours, ct_Shared = False\<rparr>
      | Some r \<Rightarrow>
        \<lparr>ct_total = (computeTotalDRR campaignSpend (pgNumericToFloat (Some (at_RevenueRub r)))
                       (case at_LastDate r of None \<Rightarrow> 0 | Some d \<Rightarrow> d) now maxAgeHours)\<lparr>td_Scope := totalDRRScopeCampaign\<rparr>,
         ct_Shared = at_RevenueShared r\<rparr>)"

subsection \<open>Incremental\<close>

definition incrementalDRRMinOrders :: int where "incrementalDRRMinOrders = 5"
definition incrementalDRRMinSpendDelta :: f64 where "incrementalDRRMinSpendDelta = Fin 100"
definition incrementalDRRNotEnoughData :: string where "incrementalDRRNotEnoughData = ''not_enough_data''"
definition incrementalDRRAccretive :: string where "incrementalDRRAccretive = ''accretive''"
definition incrementalDRRCannibalizing :: string where "incrementalDRRCannibalizing = ''cannibalizing''"
definition incrementalDRRFreed :: string where "incrementalDRRFreed = ''freed''"
definition incrementalDRRCostly :: string where "incrementalDRRCostly = ''costly_cut''"

record incrementalDRR =
  in_Value :: f64
  in_Verdict :: string
  in_SpendDeltaRub :: f64
  in_TurnoverDeltaRub :: f64

definition no_incremental :: incrementalDRR where
  "no_incremental = \<lparr>in_Value = Fin 0, in_Verdict = incrementalDRRNotEnoughData, in_SpendDeltaRub = Fin 0, in_TurnoverDeltaRub = Fin 0\<rparr>"

definition computeIncrementalDRR :: "f64 \<times> f64 \<times> int \<Rightarrow> f64 \<times> f64 \<times> int \<Rightarrow> incrementalDRR" where
  "computeIncrementalDRR prev cur =
     (let (prevSpend, prevTurnover, prevOrders) = prev; (curSpend, curTurnover, curOrders) = cur;
          spendDelta = roundRub (curSpend - prevSpend); turnoverDelta = roundRub (curTurnover - prevTurnover);
          result = no_incremental\<lparr>in_SpendDeltaRub := spendDelta, in_TurnoverDeltaRub := turnoverDelta\<rparr>
      in if prevOrders < incrementalDRRMinOrders \<or> curOrders < incrementalDRRMinOrders then result
         else if prevTurnover \<le> Fin 0 \<or> curTurnover \<le> Fin 0 then result
         else if spendDelta > - incrementalDRRMinSpendDelta \<and> spendDelta < incrementalDRRMinSpendDelta then result
         else if spendDelta > Fin 0 \<and> turnoverDelta > Fin 0 then
           result\<lparr>in_Verdict := incrementalDRRAccretive, in_Value := roundRub (spendDelta / turnoverDelta * Fin 100)\<rparr>
         else if spendDelta > Fin 0 then result\<lparr>in_Verdict := incrementalDRRCannibalizing\<rparr>
         else if turnoverDelta \<ge> Fin 0 then result\<lparr>in_Verdict := incrementalDRRFreed\<rparr>
         else result\<lparr>in_Verdict := incrementalDRRCostly, in_Value := roundRub (spendDelta / turnoverDelta * Fin 100)\<rparr>)"

definition incremental_window :: "bool \<Rightarrow> uuid \<Rightarrow> int \<Rightarrow> int \<Rightarrow> ozon_tables \<Rightarrow> (f64 \<times> f64 \<times> int) option" where
  "incremental_window fault cab a b db =
     (let evidence = GetOzonDRRWindowEvidence cab a b db
      in if fault \<or> \<not> completeDRRWindowEvidence evidence a b then None
         else Some (pgNumericToFloat (Some (ev_SpendRub evidence)), pgNumericToFloat (Some (ev_RevenueRub evidence)), ev_OrderedUnits evidence))"

definition loadIncrementalDRR :: "bool \<Rightarrow> bool \<Rightarrow> uuid \<Rightarrow> int \<Rightarrow> int \<Rightarrow> ozon_tables \<Rightarrow> incrementalDRR" where
  "loadIncrementalDRR fault1 fault2 cab now lookbackDays db =
     (if lookbackDays \<le> 0 then no_incremental
      else
        let today = trunc_day now; curFrom = today - lookbackDays * day; curTo = today - day;
            prevFrom = today - 2 * lookbackDays * day; prevTo = curFrom - day
        in case incremental_window fault1 cab prevFrom prevTo db of
             None \<Rightarrow> no_incremental
           | Some prev \<Rightarrow> (case incremental_window fault2 cab curFrom curTo db of
                 None \<Rightarrow> no_incremental
               | Some cur \<Rightarrow> computeIncrementalDRR prev cur))"

section \<open>The ceiling\<close>

definition derivedCeilingMinCoverage :: f64 where "derivedCeilingMinCoverage = lit (5/10)"
definition defaultExpectedBuyoutPercent :: f64 where "defaultExpectedBuyoutPercent = Fin 90"
definition minPostingsForBuyout :: int where "minPostingsForBuyout = 50"

record cabinetMargin =
  cm_WeightedMarginPct :: f64
  cm_Coverage :: f64

definition ozonSKUMarginPct :: "f64 \<Rightarrow> f64 \<Rightarrow> f64 \<Rightarrow> f64 \<Rightarrow> f64 option" where
  "ozonSKUMarginPct price cost commissionPct acquiringRub =
     (if price \<le> Fin 0 \<or> cost \<le> Fin 0 then None
      else Some (roundRub ((price - cost - price * commissionPct / Fin 100 - acquiringRub) / price * Fin 100)))"

definition OzonCabinetMarginInputs :: "uuid \<Rightarrow> int \<Rightarrow> ozon_tables \<Rightarrow> (OzonProductPrice \<times> rat) list" where
  "OzonCabinetMarginInputs cab since db =
     map (\<lambda>p. (p, sum_list (map (\<lambda>s. case sd_RevenueRub s of None \<Rightarrow> 0 | Some r \<Rightarrow> r)
             (filter (\<lambda>s. sd_SellerCabinetID s = cab \<and> sd_Date s \<ge> trunc_day since \<and> sd_Sku s = ozp_Sku p) (ozon_sales_daily db)))))
       (filter (\<lambda>p. ozp_SellerCabinetID p = cab) (ozon_product_prices db))"

text \<open>The accumulators of the loop: known turnover, whole turnover and weighted margin.\<close>

fun margin_loop :: "(OzonProductPrice \<times> rat) list \<Rightarrow> f64 \<times> f64 \<times> f64 \<Rightarrow> f64 \<times> f64 \<times> f64" where
  "margin_loop [] acc = acc"
| "margin_loop ((row, revenue) # rows) (knownTurnover, allTurnover, weighted) =
     (let turnover = pgNumericToFloat (Some revenue)
      in if turnover \<le> Fin 0 then margin_loop rows (knownTurnover, allTurnover, weighted)
         else
           let fbo = pgNumericToFloat (ozp_CommissionFboPct row); fbs = pgNumericToFloat (ozp_CommissionFbsPct row);
               commission = (if fbs > fbo then fbs else fbo)
           in case ozonSKUMarginPct (pgNumericToFloat (ozp_PriceRub row)) (pgNumericToFloat (ozp_NetPriceRub row)) commission
                     (pgNumericToFloat (ozp_AcquiringPct row)) of
                None \<Rightarrow> margin_loop rows (knownTurnover, allTurnover + turnover, weighted)
              | Some margin \<Rightarrow> margin_loop rows (knownTurnover + turnover, allTurnover + turnover, weighted + margin * turnover))"

definition loadCabinetMargin :: "bool \<Rightarrow> uuid \<Rightarrow> int \<Rightarrow> ozon_tables \<Rightarrow> cabinetMargin" where
  "loadCabinetMargin fault cab since db =
     (if fault then \<lparr>cm_WeightedMarginPct = Fin 0, cm_Coverage = Fin 0\<rparr>
      else
        let (knownTurnover, allTurnover, weighted) = margin_loop (OzonCabinetMarginInputs cab since db) (Fin 0, Fin 0, Fin 0)
        in if allTurnover \<le> Fin 0 \<or> knownTurnover \<le> Fin 0 then \<lparr>cm_WeightedMarginPct = Fin 0, cm_Coverage = Fin 0\<rparr>
           else \<lparr>cm_WeightedMarginPct = roundRub (weighted / knownTurnover), cm_Coverage = knownTurnover / allTurnover\<rparr>)"

definition ozonMeasuredBuyoutPercent :: "int \<Rightarrow> int \<Rightarrow> f64 option" where
  "ozonMeasuredBuyoutPercent tot cancelled =
     (if tot < minPostingsForBuyout \<or> cancelled < 0 \<or> cancelled > tot then None
      else Some (roundRub (float_of_int (tot - cancelled) / float_of_int tot * Fin 100)))"

definition GetOzonCancellationCounts :: "uuid \<Rightarrow> ozon_tables \<Rightarrow> (int \<times> int) option" where
  "GetOzonCancellationCounts cab db = map_of (ozon_cancellation_rates db) cab"

definition loadBuyoutPercent :: "bool \<Rightarrow> uuid \<Rightarrow> f64 \<Rightarrow> ozon_tables \<Rightarrow> f64 \<times> string" where
  "loadBuyoutPercent fault cab configured db =
     (let measured = (if fault then None else
            case GetOzonCancellationCounts cab db of None \<Rightarrow> None | Some (tot, cancelled) \<Rightarrow> ozonMeasuredBuyoutPercent tot cancelled)
      in case measured of
           Some v \<Rightarrow> (v, ''measured'')
         | None \<Rightarrow>
           if configured > Fin 0 \<and> configured \<le> Fin 100 then (configured, ''configured'')
           else (defaultExpectedBuyoutPercent, ''assumed''))"

definition derivedTotalDRRCeiling :: "cabinetMargin \<Rightarrow> f64 \<Rightarrow> f64 \<Rightarrow> f64 option" where
  "derivedTotalDRRCeiling margin targetProfitPct buyoutPercent0 =
     (if cm_WeightedMarginPct margin \<le> Fin 0 \<or> cm_Coverage margin < derivedCeilingMinCoverage then None
      else
        let buyoutPercent = (if buyoutPercent0 \<le> Fin 0 \<or> buyoutPercent0 > Fin 100 then defaultExpectedBuyoutPercent else buyoutPercent0);
            headroom = cm_WeightedMarginPct margin - targetProfitPct
        in if headroom \<le> Fin 0 then None
           else
             let ceiling = roundRub (headroom * buyoutPercent / Fin 100)
             in if ceiling \<le> Fin 0 then None else Some ceiling)"

definition resolveTotalDRRCeiling :: "f64 option \<Rightarrow> cabinetMargin \<Rightarrow> f64 \<Rightarrow> f64 \<Rightarrow> f64 option \<times> string" where
  "resolveTotalDRRCeiling explicit margin targetProfitPct buyoutPercent =
     (if some_and (\<lambda>e. e > Fin 0) explicit then (explicit, ''explicit'')
      else case derivedTotalDRRCeiling margin targetProfitPct buyoutPercent of
        Some derived \<Rightarrow> (Some derived, ''unit_economics'')
      | None \<Rightarrow> (None, ''none''))"

datatype drr_reason = DRRStale | DRRNoData | DRRAtCeiling f64 f64

definition totalDRRIncreaseBlockReason :: "f64 option \<Rightarrow> totalDRR \<Rightarrow> drr_reason option" where
  "totalDRRIncreaseBlockReason maxTotalDRR tot =
     (case maxTotalDRR of
        None \<Rightarrow> None
      | Some m \<Rightarrow>
        if m \<le> Fin 0 then None
        else if td_Status tot \<noteq> totalDRRStatusOK then
          (if td_Status tot = totalDRRStatusStale then Some DRRStale else Some DRRNoData)
        else if td_Value tot < m then None
        else Some (DRRAtCeiling (td_Value tot) m))"

section \<open>Windows of days\<close>

lemma day_pos [simp]: "0 < day" "day \<noteq> 0" "0 \<le> day"
  by (simp_all add: day_def hour_def)

lemma trunc_day_mod [simp]: "trunc_day t mod day = 0"
  by (simp add: trunc_day_def mod_diff_left_eq)

lemma set_series:
  assumes "a mod day = 0"
  shows "set (series a b) = {d. d mod day = 0 \<and> a \<le> d \<and> d \<le> b}"
proof (rule set_eqI)
  fix d
  show "d \<in> set (series a b) \<longleftrightarrow> d \<in> {d. d mod day = 0 \<and> a \<le> d \<and> d \<le> b}"
  proof
    assume "d \<in> set (series a b)"
    then obtain k where k: "d = a + int k * day" "a \<le> b" "k < nat ((b - a) div day) + 1" by (auto simp: series_def split: if_splits)
    moreover have "0 \<le> (b - a) div day" using k(2) by (simp add: pos_imp_zdiv_nonneg_iff)
    ultimately have "int k \<le> (b - a) div day" by linarith
    then have "int k * day \<le> (b - a) div day * day" by (intro mult_right_mono) simp_all
    also have "\<dots> \<le> b - a" using pos_mod_sign [of day "b - a"] div_mult_mod_eq [of "b - a" day] day_pos(1) by linarith
    finally show "d \<in> {d. d mod day = 0 \<and> a \<le> d \<and> d \<le> b}" using k assms by simp
  next
    assume "d \<in> {d. d mod day = 0 \<and> a \<le> d \<and> d \<le> b}"
    then have d: "d mod day = 0" "a \<le> d" "d \<le> b" by auto
    then have "(d - a) mod day = 0" using assms by (metis mod_diff_eq diff_self mod_0)
    then have "d = a + int (nat ((d - a) div day)) * day" using d div_mult_mod_eq [of "d - a" day] by (simp add: pos_imp_zdiv_nonneg_iff)
    moreover have "nat ((d - a) div day) < nat ((b - a) div day) + 1"
      using zdiv_mono1 [of "d - a" "b - a" day] d by (simp add: pos_imp_zdiv_nonneg_iff nat_mono le_imp_less_Suc)
    ultimately have "\<exists>k < nat ((b - a) div day) + 1. d = a + int k * day" by blast
    then show "d \<in> set (series a b)" using order_trans [OF d(2,3)] by (simp only: series_def set_map set_upt if_True) auto
  qed
qed

lemma distinct_series: "distinct (series a b)"
  by (simp add: series_def distinct_map inj_on_def)

lemma length_series: "a \<le> b \<Longrightarrow> int (length (series a b)) = (b - a) div day + 1"
  by (simp add: series_def pos_imp_zdiv_nonneg_iff)

text \<open>As many different days as the window has are all of its days.\<close>

lemma all_days:
  assumes "a mod day = 0" "a \<le> b" "int (length (remdups ds)) = (b - a) div day + 1"
    and "\<forall>d \<in> set ds. d mod day = 0 \<and> between a b d"
  shows "set ds = set (series a b)"
proof (rule card_subset_eq)
  show "set ds \<subseteq> set (series a b)" using assms(1,4) by (auto simp: set_series between_def)
  have "card (set ds) = length (remdups ds)" by (simp add: length_remdups_card_conv)
  then show "card (set ds) = card (set (series a b))"
    using assms(3) length_series [OF assms(2)] distinct_card [OF distinct_series, of a b] by simp
qed simp

definition dates_are_days :: "ozon_tables \<Rightarrow> bool" where
  "dates_are_days db \<longleftrightarrow> (\<forall>s \<in> set (ozon_sales_daily db). sd_Date s mod day = 0) \<and> (\<forall>s \<in> set (ozon_campaign_stats db). os_Date s mod day = 0)"

lemma complete_covers:
  assumes "completeDRRWindowEvidence (GetOzonDRRWindowEvidence cab a b db) a b" "dates_are_days db" "a mod day = 0" "a \<le> b" "d \<in> set (series a b)"
  shows "\<exists>s \<in> set (window_sales cab a b db). sd_Date s = d" "\<exists>s \<in> set (window_ads cab a b db). os_Date s = d"
    and "\<lbrakk>c \<in> set (ozon_campaigns db); oz_SellerCabinetID c = cab; reports_day a b db c d\<rbrakk> \<Longrightarrow>
      \<exists>s \<in> set (ozon_campaign_stats db). os_CampaignID s = oz_ID c \<and> os_Date s = d"
proof -
  note e = assms(1) [unfolded completeDRRWindowEvidence_def GetOzonDRRWindowEvidence_def Let_def, simplified]
  have "set (map sd_Date (window_sales cab a b db)) = set (series a b)"
    by (rule all_days) (use e assms(2-4) in \<open>auto simp: window_sales_def dates_are_days_def\<close>)
  then show "\<exists>s \<in> set (window_sales cab a b db). sd_Date s = d" using assms(5) by (metis imageE set_map)
  have "set (map os_Date (window_ads cab a b db)) = set (series a b)"
    by (rule all_days) (use e assms(2-4) in \<open>auto simp: window_ads_def dates_are_days_def\<close>)
  then show "\<exists>s \<in> set (window_ads cab a b db). os_Date s = d" using assms(5) by (metis imageE set_map)
  assume "c \<in> set (ozon_campaigns db)" "oz_SellerCabinetID c = cab" "reports_day a b db c d"
  moreover have "missing_days cab a b db = []" using e by simp
  ultimately show "\<exists>s \<in> set (ozon_campaign_stats db). os_CampaignID s = oz_ID c \<and> os_Date s = d"
    using assms(5) by (auto simp: missing_days_def filter_empty_conv list_ex_iff)
qed

section \<open>Theorems\<close>

lemma computeTotalDRR_OK:
  assumes "td_Status (computeTotalDRR spend revenue lastData now maxAgeHours) = totalDRRStatusOK"
  shows "\<not> revenue \<le> Fin 0" "lastData \<noteq> 0"
    "td_Value (computeTotalDRR spend revenue lastData now maxAgeHours) = roundRub (spend / revenue * Fin 100)"
    "\<not> td_AgeHours (computeTotalDRR spend revenue lastData now maxAgeHours) > float_of_int (if maxAgeHours \<le> 0 then 36 else maxAgeHours)"
  using assms by (auto simp: computeTotalDRR_def Let_def drr_status_defs defaultTotalDRRMaxAgeHours_def split: if_splits)

text \<open>
  C29 A measurement of the cabinet that is marked usable rests on a complete window: on every day of it there are a
  sale and an advertising row of the cabinet and a row of every campaign that had to report, it is not older
  than the limit, the turnover is positive, and its value is the ratio of the exact sums over those rows.
\<close>

theorem usable_measurement_complete:
  assumes ok: "td_Status (loadCabinetTotalDRR fault cab since now maxAgeHours db) = totalDRRStatusOK" and dates: "dates_are_days db"
  shows "(\<forall>d \<in> set (series (trunc_day since) (trunc_day now - day)).
      (\<exists>s \<in> set (window_sales cab (trunc_day since) (trunc_day now - day) db). sd_Date s = d) \<and>
      (\<exists>s \<in> set (window_ads cab (trunc_day since) (trunc_day now - day) db). os_Date s = d) \<and>
      (\<forall>c \<in> set (ozon_campaigns db). oz_SellerCabinetID c = cab \<and> reports_day (trunc_day since) (trunc_day now - day) db c d \<longrightarrow>
        (\<exists>s \<in> set (ozon_campaign_stats db). os_CampaignID s = oz_ID c \<and> os_Date s = d))) \<and>
    (let spend = pgNumericToFloat (Some (sum_list (map os_SpendRub (window_ads cab (trunc_day since) (trunc_day now - day) db))));
         revenue = pgNumericToFloat (Some (sum_list (map (\<lambda>s. case sd_RevenueRub s of None \<Rightarrow> 0 | Some r \<Rightarrow> r)
                     (window_sales cab (trunc_day since) (trunc_day now - day) db))));
         m = loadCabinetTotalDRR fault cab since now maxAgeHours db
     in \<not> revenue \<le> Fin 0 \<and> td_Value m = roundRub (spend / revenue * Fin 100) \<and>
        \<not> td_AgeHours m > float_of_int (if maxAgeHours \<le> 0 then 36 else maxAgeHours))"
proof -
  let ?a = "trunc_day since" and ?b = "trunc_day now - day"
  let ?e = "GetOzonDRRWindowEvidence cab ?a ?b db"
  let ?l = "case (ev_SalesLastDate ?e, ev_AdLastDate ?e) of (Some s, Some ad) \<Rightarrow> if ad < s then ad else s | _ \<Rightarrow> 0"
  let ?c = "computeTotalDRR (pgNumericToFloat (Some (ev_SpendRub ?e))) (pgNumericToFloat (Some (ev_RevenueRub ?e))) ?l now maxAgeHours"
  have nodata: "td_Status (computeTotalDRR (Fin 0) (Fin 0) 0 now maxAgeHours) \<noteq> totalDRRStatusOK"
    by (simp add: computeTotalDRR_def drr_status_defs)
  have l: "loadCabinetTotalDRR fault cab since now maxAgeHours db = ?c" "\<not> ?a > ?b" "td_Status ?c = totalDRRStatusOK"
    "completeDRRWindowEvidence ?e ?a ?b"
    using ok nodata unfolding loadCabinetTotalDRR_def Let_def by (auto simp: drr_status_defs split: if_splits)
  have "?a \<le> ?b" "?a mod day = 0" using l(2) by simp_all
  note days = complete_covers [OF l(4) dates this(2,1)]
  note v = computeTotalDRR_OK [OF l(3)]
  have e: "ev_SpendRub ?e = sum_list (map os_SpendRub (window_ads cab ?a ?b db))"
    "ev_RevenueRub ?e = sum_list (map (\<lambda>s. case sd_RevenueRub s of None \<Rightarrow> 0 | Some r \<Rightarrow> r) (window_sales cab ?a ?b db))"
    by (simp_all add: GetOzonDRRWindowEvidence_def Let_def)
  show ?thesis using days v unfolding l(1) Let_def e by blast
qed

text \<open>
  A cabinet whose known margin does not exceed the target profit has no room for advertising at all, but the
  derived ceiling is then missing instead of zero: no increase is ever blocked, whatever the measured share.
\<close>

theorem unprofitable_cabinet_unlimited:
  assumes "\<not> some_and (\<lambda>e. e > Fin 0) explicit" "cm_WeightedMarginPct margin = Fin w" "target = Fin t" "w \<le> t"
  shows "totalDRRIncreaseBlockReason (fst (resolveTotalDRRCeiling explicit margin target buyout)) measured = None"
proof -
  have "rnd (w - t) \<le> 0" by (rule b64.R_nonpos) (use assms(4) in simp)
  moreover have "0 < overflow_bound" by (simp add: overflow_bound_def)
  ultimately have "round64 (w - t) \<le> Fin 0" by (simp add: round64_def Let_def)
  then have "derivedTotalDRRCeiling margin target buyout = None" using assms(2,3) by (simp add: derivedTotalDRRCeiling_def Let_def)
  then show ?thesis using assms(1) by (simp add: resolveTotalDRRCeiling_def totalDRRIncreaseBlockReason_def)
qed

section \<open>Witnesses\<close>

definition drr_db :: ozon_tables where
  "drr_db = \<lparr>ozon_campaigns = [\<lparr>oz_ID = 5, oz_SellerCabinetID = 1, oz_OzonCampaignID = 77, oz_State = Some ''CAMPAIGN_STATE_RUNNING'', oz_FromDate = None, oz_ToDate = None\<rparr>],
     ozon_campaign_products = [],
     ozon_campaign_stats = [\<lparr>os_CampaignID = 5, os_Date = 10 * day, os_Views = 100, os_Clicks = 20, os_SpendRub = 50, os_Orders = 3, os_RevenueRub = 300\<rparr>],
     ozon_sales_daily = [\<lparr>sd_SellerCabinetID = 1, sd_Sku = 9, sd_Date = 10 * day, sd_OrderedUnits = 4, sd_RevenueRub = Some 500\<rparr>],
     ozon_product_prices = [], ozon_cancellation_rates = []\<rparr>"

lemma drr_db_ok: "td_Status (loadCabinetTotalDRR False 1 (10 * day) (11 * day) 36 drr_db) = totalDRRStatusOK"
  by (simp add: drr_db_def loadCabinetTotalDRR_def trunc_day_def GetOzonDRRWindowEvidence_def window_sales_def window_ads_def
      missing_days_def series_def between_def max_date_def completeDRRWindowEvidence_def computeTotalDRR_def Let_def
      pgNumericToFloat_def f64_defs f64_eval rnd_eval drr_status_defs)

theorem usable_measurement_complete_witness:
  "\<exists>s \<in> set (window_sales 1 (10 * day) (10 * day) drr_db). sd_Date s = 10 * day"
proof -
  have "dates_are_days drr_db" by (simp add: dates_are_days_def drr_db_def)
  from usable_measurement_complete [OF drr_db_ok this] show ?thesis by (simp add: trunc_day_def series_def)
qed

theorem unprofitable_cabinet_unlimited_witness:
  "totalDRRIncreaseBlockReason (fst (resolveTotalDRRCeiling None \<lparr>cm_WeightedMarginPct = Fin 5, cm_Coverage = Fin 1\<rparr> (Fin 10) (Fin 90)))
     \<lparr>td_Value = Fin 95, td_Status = totalDRRStatusOK, td_SpendRub = Fin 95, td_RevenueRub = Fin 100, td_Scope = totalDRRScopeCabinet, td_AgeHours = Fin 0\<rparr> = None"
  by (rule unprofitable_cabinet_unlimited [where w = 5 and t = 10]) simp_all

end
