(* ===== verification/Ozon_Guardrails.thy ===== *)
theory Ozon_Guardrails
  imports Strategy_Params
begin

text \<open>
  The deterministic guardrails of the Ozon automation, \<^verbatim>\<open>internal/service/ozon_guardrails.go\<close>: what a proposal of the
  strategy runner or of the language model must satisfy, and the clamps that pull a bid or a budget back into the
  change limit. A reason is given by its kind and the values that its text states; passing is \<open>None\<close>.
\<close>

section \<open>Guards\<close>

definition ozonMinWeeklyBudgetRub :: int where "ozonMinWeeklyBudgetRub = 1000"
definition ozonMinDailyBudgetRub :: int where "ozonMinDailyBudgetRub = 150"
definition aiPackStatsWindowDays :: int where "aiPackStatsWindowDays = 14"

datatype ozon_reason =
    BidNotPositive | BelowOzonMinimum f64 f64 | BelowMinBid f64 int | AboveMaxBid f64 int
  | ChangeTooLarge string f64 f64 f64 f64
  | BudgetNotPositive | BelowBudgetFloor bool int int | NoBudgetAnchor | AboveSpendCap bool int f64
  | CPOBidNotPositive | BelowCPOMinimum f64 f64 | StockTooLow int int | NotRunning string | NotActivatable string

definition ozonAIChangePercentReason :: "f64 \<Rightarrow> f64 \<Rightarrow> f64 \<Rightarrow> string \<Rightarrow> ozon_reason option" where
  "ozonAIChangePercentReason current proposed maxChangePercent what =
     (if maxChangePercent \<le> Fin 0 \<or> current \<le> Fin 0 then None
      else
        let changePct = \<bar>proposed - current\<bar> / current * Fin 100
        in if changePct > maxChangePercent + lit (1 / 10 ^ 9)
           then Some (ChangeTooLarge what changePct maxChangePercent current proposed) else None)"

definition ozonAIBidGuardReason :: "f64 \<Rightarrow> f64 \<Rightarrow> f64 \<Rightarrow> StrategyParams \<Rightarrow> ozon_reason option" where
  "ozonAIBidGuardReason currentBid proposedBid ozonMinBid params =
     (if proposedBid \<le> Fin 0 then Some BidNotPositive
      else if ozonMinBid > Fin 0 \<and> proposedBid < ozonMinBid then Some (BelowOzonMinimum proposedBid ozonMinBid)
      else if MinBid params > 0 \<and> proposedBid < float_of_int (MinBid params) then Some (BelowMinBid proposedBid (MinBid params))
      else if MaxBid params > 0 \<and> proposedBid > float_of_int (MaxBid params) then Some (AboveMaxBid proposedBid (MaxBid params))
      else ozonAIChangePercentReason currentBid proposedBid (MaxChangePercent params) ''bid'')"

definition ozonAIBudgetGuardReason :: "int option \<Rightarrow> int \<Rightarrow> bool \<Rightarrow> StrategyParams \<Rightarrow> ozon_reason option" where
  "ozonAIBudgetGuardReason currentBudget proposedBudget weekly params =
     (if proposedBudget \<le> 0 then Some BudgetNotPositive
      else
        let low = (if weekly then ozonMinWeeklyBudgetRub else ozonMinDailyBudgetRub)
        in if proposedBudget < low then Some (BelowBudgetFloor weekly proposedBudget low)
           else case currentBudget of
             None \<Rightarrow> None
           | Some c \<Rightarrow>
             if c > 0 then ozonAIChangePercentReason (float_of_int c) (float_of_int proposedBudget) (MaxChangePercent params) ''budget''
             else None)"

definition ozonAIUnbudgetedBudgetGuardReason :: "int \<Rightarrow> f64 \<Rightarrow> bool \<Rightarrow> int \<Rightarrow> ozon_reason option" where
  "ozonAIUnbudgetedBudgetGuardReason proposedBudget spend14d weekly windowDays0 =
     (let windowDays = (if windowDays0 \<le> 0 then aiPackStatsWindowDays else windowDays0);
          perDay = spend14d / float_of_int windowDays;
          cap0 = perDay * Fin 2;
          cap = (if weekly then cap0 * Fin 7 else cap0)
      in if spend14d \<le> Fin 0 \<or> cap < Fin 1 then Some NoBudgetAnchor
         else if float_of_int proposedBudget > cap then Some (AboveSpendCap weekly proposedBudget cap)
         else None)"

definition ozonAICPOBidGuardReason :: "f64 \<Rightarrow> f64 \<Rightarrow> ozon_reason option" where
  "ozonAICPOBidGuardReason proposedBid cpoMinBid =
     (if proposedBid \<le> Fin 0 then Some CPOBidNotPositive
      else if cpoMinBid > Fin 0 \<and> proposedBid < cpoMinBid then Some (BelowCPOMinimum proposedBid cpoMinBid)
      else None)"

definition ozonAIStockIncreaseGuardReason :: "int option \<Rightarrow> StrategyParams \<Rightarrow> ozon_reason option" where
  "ozonAIStockIncreaseGuardReason stock params =
     (if AllowIncreaseWithoutStock params then None
      else case stock of
        None \<Rightarrow> None
      | Some n \<Rightarrow> if n < MinStockForIncrease params then Some (StockTooLow n (MinStockForIncrease params)) else None)"

definition AIActionCampaignPause :: string where "AIActionCampaignPause = ''campaign_pause''"
definition AIActionCampaignActivate :: string where "AIActionCampaignActivate = ''campaign_activate''"
definition ozonCampaignStateRunning :: string where "ozonCampaignStateRunning = ''CAMPAIGN_STATE_RUNNING''"

definition ozonAICampaignStateGuardReason :: "string \<Rightarrow> string \<Rightarrow> ozon_reason option" where
  "ozonAICampaignStateGuardReason actionType state =
     (if actionType = AIActionCampaignPause then
        (if state \<noteq> ozonCampaignStateRunning then Some (NotRunning state) else None)
      else if actionType = AIActionCampaignActivate then
        (if state \<in> {''CAMPAIGN_STATE_INACTIVE'', ''CAMPAIGN_STATE_STOPPED'', ''CAMPAIGN_STATE_MODERATION_PASSED''} then None
         else Some (NotActivatable state))
      else None)"

section \<open>Clamps\<close>

text \<open>The second component says whether the value was changed, for which the source returns a note.\<close>

definition ozonAIClampBidToChangeLimit :: "f64 \<Rightarrow> f64 \<Rightarrow> f64 \<Rightarrow> f64 \<times> bool" where
  "ozonAIClampBidToChangeLimit currentBid proposedBid maxChangePercent =
     (if maxChangePercent \<le> Fin 0 \<or> currentBid \<le> Fin 0 \<or> proposedBid \<le> Fin 0 then (proposedBid, False)
      else
        let maxDelta = currentBid * maxChangePercent / Fin 100;
            delta = proposedBid - currentBid
        in if \<not> (delta > maxDelta) \<and> \<not> (delta < - maxDelta) then (proposedBid, False)
           else
             let raw = (if delta > maxDelta then currentBid + maxDelta else currentBid - maxDelta);
                 clamped = (if delta > Fin 0 then math_Floor raw else math_Ceil raw)
             in if clamped \<le> Fin 0 then (proposedBid, False)
                else if feq clamped currentBid then
                  let step = (if delta > Fin 0 then currentBid + Fin 1 else currentBid - Fin 1)
                  in if step \<le> Fin 0 then (proposedBid, False) else (step, True)
                else (clamped, True))"

definition ozonAIClampBudgetToChangeLimit :: "int \<Rightarrow> int \<Rightarrow> f64 \<Rightarrow> int \<times> bool" where
  "ozonAIClampBudgetToChangeLimit currentBudget proposedBudget maxChangePercent =
     (if maxChangePercent \<le> Fin 0 \<or> currentBudget \<le> 0 \<or> proposedBudget \<le> 0 then (proposedBudget, False)
      else
        let maxDelta = float_of_int currentBudget * maxChangePercent / Fin 100;
            delta = float_of_int (wrap64 (proposedBudget - currentBudget))
        in if \<not> (delta > maxDelta) \<and> \<not> (delta < - maxDelta) then (proposedBudget, False)
           else
             let s = int_of_float (math_Floor maxDelta);
                 clamped = (if delta > maxDelta then wrap64 (currentBudget + s) else wrap64 (currentBudget - s))
             in if clamped \<le> 0 \<or> clamped = currentBudget then (proposedBudget, False) else (clamped, True))"

text \<open>What the decision path does with a bid: clamp it, then check the result.\<close>

definition clamp_then_guard :: "f64 \<Rightarrow> f64 \<Rightarrow> StrategyParams \<Rightarrow> ozon_reason option" where
  "clamp_then_guard currentBid proposedBid params =
     ozonAIBidGuardReason currentBid (fst (ozonAIClampBidToChangeLimit currentBid proposedBid (MaxChangePercent params))) (Fin 0) params"

section \<open>Rounding errors\<close>

lemma rnd_rel:
  assumes "pow2 (-1022) \<le> \<bar>x\<bar>"
  shows "\<bar>rnd x - x\<bar> \<le> \<bar>x\<bar> / 2 ^ 53"
proof -
  have x: "x \<noteq> 0" "0 < \<bar>x\<bar>" using less_le_trans [OF pow2_pos assms] by auto
  let ?q = "quantum x"
  have "pow2 (-1022) < pow2 (expo \<bar>x\<bar> + 1)" using assms expo_bounds(2) [OF x(2)] by simp
  then have "-1022 < expo \<bar>x\<bar> + 1" by (rule pow2_less_imp)
  then have q: "?q = expo \<bar>x\<bar> - 52" by (simp add: quantum_def)
  have "rnd x - x = (of_int (rhe (x / pow2 ?q)) - x / pow2 ?q) * pow2 ?q"
    using x(1) by (simp add: rnd_def left_diff_distrib)
  then have "\<bar>rnd x - x\<bar> = \<bar>of_int (rhe (x / pow2 ?q)) - x / pow2 ?q\<bar> * pow2 ?q" by (simp add: abs_mult)
  also have "\<dots> \<le> 1/2 * pow2 ?q" by (intro mult_right_mono rhe_dist) (simp add: less_imp_le)
  also have "\<dots> = pow2 (expo \<bar>x\<bar>) / 2 ^ 53" unfolding q pow2_diff by (simp add: pow2_def)
  also have "\<dots> \<le> \<bar>x\<bar> / 2 ^ 53" using expo_bounds(1) [OF x(2)] by (simp add: divide_right_mono)
  finally show ?thesis .
qed

text \<open>In the range of the amounts here: a finite result within a relative error of \<open>10\<^sup>-\<^sup>1\<^sup>5\<close>.\<close>

lemma round64_near:
  assumes "1 / 10 ^ 20 \<le> x" "x \<le> 10 ^ 15"
  obtains r where "round64 x = Fin r" "x * (1 - 1 / 10 ^ 15) \<le> r" "r \<le> x * (1 + 1 / 10 ^ 15)" "r = rnd x"
proof -
  have "pow2 (-1022) \<le> 1 / 10 ^ 20" by (simp add: pow2_def field_simps)
  then have a: "pow2 (-1022) \<le> \<bar>x\<bar>" "0 < x" using assms(1) by (auto intro: less_le_trans [of _ "1 / 10 ^ 20"])
  have "round64 x = Fin (rnd x)" by (rule round64_Fin) (use assms a in simp)
  moreover have e: "\<bar>rnd x - x\<bar> \<le> x / 10 ^ 15"
    using rnd_rel [OF a(1)] a(2) by (simp add: field_simps)
  have "x * (1 - 1 / 10 ^ 15) \<le> rnd x" using abs_le_D2 [OF e] by (simp add: algebra_simps)
  moreover have "rnd x \<le> x * (1 + 1 / 10 ^ 15)" using abs_le_D1 [OF e] by (simp add: algebra_simps)
  ultimately show ?thesis using that by blast
qed

section \<open>The bid clamp\<close>

text \<open>
  Whole bids: the current and the proposed bid are whole rubles up to a million and the limit lies between
  one percent and a hundred.
\<close>

definition whole_bids :: "int \<Rightarrow> int \<Rightarrow> rat \<Rightarrow> bool" where
  "whole_bids c p m \<longleftrightarrow> 1 \<le> c \<and> c \<le> 10 ^ 6 \<and> 1 \<le> p \<and> p \<le> 10 ^ 6 \<and> 1 \<le> m \<and> m \<le> 100"

lemma max_delta:
  assumes "whole_bids c p m"
  obtains d where "Fin (of_int c) * Fin m / Fin 100 = Fin d" "of_int c * m / 100 * (1 - 3 / 10 ^ 15) \<le> d" "d \<le> of_int c * m / 100 * (1 + 3 / 10 ^ 15)"
    "0 < d" "d \<le> of_int c"
proof -
  let ?x = "of_int c * m :: rat"
  note w = assms [unfolded whole_bids_def]
  have c: "(1 :: rat) \<le> of_int c" "of_int c \<le> (10 ^ 6 :: rat)" using w by simp_all
  have x1: "1 \<le> ?x" "?x \<le> of_int c * 100"
    using mult_mono [of 1 "of_int c" 1 m] mult_left_mono [of m 100 "of_int c"] c w by auto
  then have x: "1 \<le> ?x" "?x \<le> of_int c * 100" "?x \<le> 10 ^ 8" using c(2) by simp_all
  obtain r where r: "round64 ?x = Fin r" "?x * (1 - 1 / 10 ^ 15) \<le> r" "r \<le> ?x * (1 + 1 / 10 ^ 15)"
    using round64_near [of ?x] x by auto
  obtain s where s: "round64 (r / 100) = Fin s" "r / 100 * (1 - 1 / 10 ^ 15) \<le> s" "s \<le> r / 100 * (1 + 1 / 10 ^ 15)"
    using round64_near [of "r / 100"] x r by auto
  have "r \<le> of_int (c * 100)" using round64_between [of 1 ?x "c * 100"] x w r(1) by auto
  then have "s \<le> of_int c" using round64_between [of 0 "r / 100" c] x r s(1) w by auto
  show ?thesis
  proof (rule that)
    show "Fin (of_int c) * Fin m / Fin 100 = Fin s" by (simp add: r(1) s(1))
    show "?x / 100 * (1 - 3 / 10 ^ 15) \<le> s" using r(2) s(2) x(1) by (simp add: algebra_simps)
    show "s \<le> ?x / 100 * (1 + 3 / 10 ^ 15)" using r(3) s(3) x(1) by (simp add: algebra_simps)
    show "0 < s" using r(2) s(2) x(1) by (simp add: algebra_simps)
    show "s \<le> of_int c" by fact
  qed
qed

text \<open>The result of the clamp on whole bids: the proposal if it is within the limit, else a whole bid on the way to it.\<close>

lemma clamp_whole:
  assumes w: "whole_bids c p m" and d: "Fin (of_int c) * Fin m / Fin 100 = Fin d" "0 < d" "d \<le> of_int c"
  obtains (kept) "ozonAIClampBidToChangeLimit (Fin (of_int c)) (Fin (of_int p)) (Fin m) = (Fin (of_int p), False)" "\<bar>of_int p - of_int c\<bar> \<le> d"
  | (up) k where "ozonAIClampBidToChangeLimit (Fin (of_int c)) (Fin (of_int p)) (Fin m) = (Fin (of_int k), True)" "c < k" "k \<le> p"
      "d < of_int p - of_int c" "k = c + 1 \<or> of_int k \<le> rnd (of_int c + d)"
  | (down) k where "ozonAIClampBidToChangeLimit (Fin (of_int c)) (Fin (of_int p)) (Fin m) = (Fin (of_int k), True)" "k < c" "p \<le> k"
      "d < of_int c - of_int p" "k = c - 1 \<or> rnd (of_int c - d) \<le> of_int k"
proof -
  let ?cl = "ozonAIClampBidToChangeLimit (Fin (of_int c)) (Fin (of_int p)) (Fin m)"
  have r: "1 \<le> c" "c \<le> 10 ^ 6" "1 \<le> p" "p \<le> 10 ^ 6" "1 \<le> m" using w by (auto simp: whole_bids_def)
  have delta: "Fin (of_int p) - Fin (of_int c) = Fin (of_int p - of_int c)" using round64_int [of "p - c"] r by simp
  have pos: "\<not> Fin m \<le> Fin 0" "\<not> Fin (of_int c) \<le> Fin 0" "\<not> Fin (of_int p) \<le> Fin 0" using r by simp_all
  have cl: "?cl = (let delta = Fin (of_int p - of_int c)
        in if \<not> (delta > Fin d) \<and> \<not> (delta < - Fin d) then (Fin (of_int p), False)
           else
             let raw = (if delta > Fin d then Fin (of_int c) + Fin d else Fin (of_int c) - Fin d);
                 clamped = (if delta > Fin 0 then math_Floor raw else math_Ceil raw)
             in if clamped \<le> Fin 0 then (Fin (of_int p), False)
                else if feq clamped (Fin (of_int c)) then
                  let step = (if delta > Fin 0 then Fin (of_int c) + Fin 1 else Fin (of_int c) - Fin 1)
                  in if step \<le> Fin 0 then (Fin (of_int p), False) else (step, True)
                else (clamped, True))"
    unfolding ozonAIClampBidToChangeLimit_def d(1) delta Let_def using pos by (simp only: if_False simp_thms)
  consider "\<bar>of_int p - of_int c\<bar> \<le> d" | "d < of_int p - of_int c" | "d < of_int c - of_int p" by linarith
  then show thesis
  proof cases
    case 1
    have "?cl = (Fin (of_int p), False)" using 1 by (auto simp: cl Let_def)
    then show thesis using kept 1 by blast
  next
    case 2
    have cp: "c < p" using 2 d(2) by (metis less_trans of_int_less_iff diff_gt_0_iff_gt)
    obtain x where x: "round64 (of_int c + d) = Fin x" "of_int c \<le> x" "x \<le> of_int p" "x = rnd (of_int c + d)"
      using round64_between [of c "of_int c + d" p] 2 d(2) r by auto
    let ?k = "if \<lfloor>x\<rfloor> = c then c + 1 else \<lfloor>x\<rfloor>"
    have fl: "c \<le> \<lfloor>x\<rfloor>" "\<lfloor>x\<rfloor> \<le> p" using x by (simp_all add: le_floor_iff floor_le_iff)
    have one: "Fin (of_int c) + Fin 1 = Fin (of_int (c + 1))" using round64_int [of "c + 1"] r by simp
    have "1 \<le> x" using x(2) r(1) by (metis of_int_1_le_iff order_trans)
    then have "?cl = (Fin (of_int ?k), True)"
      unfolding cl Let_def one using 2 d(2) cp fl r x(1) by auto
    moreover have "?k = c + 1 \<or> of_int ?k \<le> rnd (of_int c + d)" using x(4) by simp
    ultimately show thesis using up [of ?k] 2 cp fl by auto
  next
    case 3
    have cp: "p < c" using 3 d(2) by (metis less_trans of_int_less_iff diff_gt_0_iff_gt)
    obtain x where x: "round64 (of_int c - d) = Fin x" "of_int p \<le> x" "x \<le> of_int c" "x = rnd (of_int c - d)"
      using round64_between [of p "of_int c - d" c] 3 d(2) r by auto
    let ?k = "if \<lceil>x\<rceil> = c then c - 1 else \<lceil>x\<rceil>"
    have ce: "p \<le> \<lceil>x\<rceil>" "\<lceil>x\<rceil> \<le> c" using x by (simp_all add: le_ceiling_iff ceiling_le_iff)
    have one: "Fin (of_int c) - Fin 1 = Fin (of_int (c - 1))" using round64_int [of "c - 1"] r by simp
    have "1 \<le> x" using x(2) r(3) by (metis of_int_1_le_iff order_trans)
    then have "?cl = (Fin (of_int ?k), True)"
      unfolding cl Let_def one using 3 d(2) cp ce r x(1) by auto
    moreover have "?k = c - 1 \<or> rnd (of_int c - d) \<le> of_int ?k" using x(4) by simp
    ultimately show thesis using down [of ?k] 3 cp ce by auto
  qed
qed

lemma change_percent:
  assumes "whole_bids c k m" "k \<noteq> c"
  obtains y where "\<bar>Fin (of_int k) - Fin (of_int c)\<bar> / Fin (of_int c) * Fin 100 = Fin y"
    "of_int \<bar>k - c\<bar> / of_int c * 100 * (1 - 3 / 10 ^ 15) \<le> y" "y \<le> of_int \<bar>k - c\<bar> / of_int c * 100 * (1 + 3 / 10 ^ 15)"
proof -
  note w = assms(1) [unfolded whole_bids_def]
  let ?x = "of_int \<bar>k - c\<bar> / of_int c :: rat"
  have "\<bar>k - c\<bar> \<le> 2 ^ 53" using w by auto
  then have "Fin (of_int k) - Fin (of_int c) = Fin (of_int (k - c))" using round64_int [of "k - c"] by simp
  then have a: "\<bar>Fin (of_int k) - Fin (of_int c)\<bar> = Fin (of_int \<bar>k - c\<bar>)" by simp
  have c: "(1 :: rat) \<le> of_int c" "of_int c \<le> (10 ^ 6 :: rat)" using w by simp_all
  have "1 \<le> \<bar>k - c\<bar>" "\<bar>k - c\<bar> \<le> 10 ^ 6" using w assms(2) by auto
  then have j: "(1 :: rat) \<le> of_int \<bar>k - c\<bar>" "of_int \<bar>k - c\<bar> \<le> (10 ^ 6 :: rat)" by simp_all
  define x where "x = ?x"
  have x: "1 / 10 ^ 6 \<le> x" "x \<le> 10 ^ 6" unfolding x_def using frac_le [OF _ j(1) _ c(2)] frac_le [OF _ j(2) _ c(1)] c j by simp_all
  obtain r where r: "round64 x = Fin r" "x * (1 - 1 / 10 ^ 15) \<le> r" "r \<le> x * (1 + 1 / 10 ^ 15)"
    using round64_near [of x] x by auto
  obtain s where s: "round64 (r * 100) = Fin s" "r * 100 * (1 - 1 / 10 ^ 15) \<le> s" "s \<le> r * 100 * (1 + 1 / 10 ^ 15)"
    using round64_near [of "r * 100"] x r by auto
  show ?thesis
  proof (rule that)
    show "\<bar>Fin (of_int k) - Fin (of_int c)\<bar> / Fin (of_int c) * Fin 100 = Fin s" unfolding a using c r(1) s(1) by (simp add: x_def)
    show "?x * 100 * (1 - 3 / 10 ^ 15) \<le> s" unfolding x_def [symmetric] using r(2) s(2) x(1) by (simp add: algebra_simps)
    show "s \<le> ?x * 100 * (1 + 3 / 10 ^ 15)" unfolding x_def [symmetric] using r(3) s(3) x(1) by (simp add: algebra_simps)
  qed
qed

text \<open>The slack of the change check: \<open>10\<^sup>-\<^sup>9\<close> up to rounding.\<close>

lemma change_bound:
  assumes "1 \<le> m" "m \<le> 100"
  obtains b where "Fin m + lit (1 / 10 ^ 9) = Fin b" "m + 1 / 10 ^ 10 \<le> b" "b \<le> m + 1 / 10 ^ 8"
proof -
  obtain e where e: "round64 (1 / 10 ^ 9) = Fin e" "1 / 10 ^ 9 * (1 - 1 / 10 ^ 15) \<le> e" "e \<le> 1 / 10 ^ 9 * (1 + 1 / 10 ^ 15)"
    using round64_near [of "1 / 10 ^ 9"] by auto
  obtain b where b: "round64 (m + e) = Fin b" "(m + e) * (1 - 1 / 10 ^ 15) \<le> b" "b \<le> (m + e) * (1 + 1 / 10 ^ 15)"
    using round64_near [of "m + e"] assms e by auto
  show ?thesis
  proof (rule that)
    show "Fin m + lit (1 / 10 ^ 9) = Fin b" using e(1) b(1) by (simp add: lit_def)
    show "m + 1 / 10 ^ 10 \<le> b" using b(2) e(2) assms by (simp add: algebra_simps)
    show "b \<le> m + 1 / 10 ^ 8" using b(3) e(3) assms by (simp add: algebra_simps)
  qed
qed

lemma change_within:
  assumes "whole_bids c k m" "of_int \<bar>k - c\<bar> / of_int c * 100 \<le> m + 1 / 10 ^ 12"
  shows "ozonAIChangePercentReason (Fin (of_int c)) (Fin (of_int k)) (Fin m) what = None"
proof (cases "k = c")
  case True
  have m: "1 \<le> m" "m \<le> 100" and c: "1 \<le> c" using assms(1) by (auto simp: whole_bids_def)
  have z: "\<bar>Fin (of_int c) - Fin (of_int c)\<bar> / Fin (of_int c) * Fin 100 = Fin 0" using c round64_int [of 0] by simp
  obtain b where b: "Fin m + lit (1 / 10 ^ 9) = Fin b" "m + 1 / 10 ^ 10 \<le> b" using change_bound [OF m] by metis
  have "0 \<le> b" using b(2) m(1) by simp
  then show ?thesis unfolding ozonAIChangePercentReason_def True z b(1) Let_def by simp
next
  case False
  have m: "1 \<le> m" "m \<le> 100" using assms(1) by (auto simp: whole_bids_def)
  obtain y where y: "\<bar>Fin (of_int k) - Fin (of_int c)\<bar> / Fin (of_int c) * Fin 100 = Fin y"
    "y \<le> of_int \<bar>k - c\<bar> / of_int c * 100 * (1 + 3 / 10 ^ 15)" using change_percent [OF assms(1) False] by metis
  obtain b where b: "Fin m + lit (1 / 10 ^ 9) = Fin b" "m + 1 / 10 ^ 10 \<le> b" using change_bound [OF m] by metis
  have "y \<le> (m + 1 / 10 ^ 12) * (1 + 3 / 10 ^ 15)" using y(2) assms(2) by (rule order_trans [OF _ mult_right_mono]) simp
  also have "\<dots> \<le> m + 1 / 10 ^ 10" using m by (simp add: algebra_simps)
  finally have "y \<le> b" using b(2) by simp
  then show ?thesis unfolding ozonAIChangePercentReason_def y(1) b(1) Let_def by simp
qed

lemma change_beyond:
  assumes "whole_bids c k m" "k \<noteq> c" "of_int c * m \<le> 99"
  shows "ozonAIChangePercentReason (Fin (of_int c)) (Fin (of_int k)) (Fin m) what \<noteq> None"
proof -
  have m: "1 \<le> m" "m \<le> 100" and c: "1 \<le> c" "c \<le> 10 ^ 6" using assms(1) by (auto simp: whole_bids_def)
  obtain y where y: "\<bar>Fin (of_int k) - Fin (of_int c)\<bar> / Fin (of_int c) * Fin 100 = Fin y"
    "of_int \<bar>k - c\<bar> / of_int c * 100 * (1 - 3 / 10 ^ 15) \<le> y" using change_percent [OF assms(1,2)] by metis
  obtain b where b: "Fin m + lit (1 / 10 ^ 9) = Fin b" "b \<le> m + 1 / 10 ^ 8" using change_bound [OF m] by metis
  have cr: "(1 :: rat) \<le> of_int c" "of_int c \<le> (10 ^ 6 :: rat)" using c by simp_all
  have "(1 :: rat) \<le> of_int \<bar>k - c\<bar>" using assms(2) by linarith
  then have "1 / of_int c * 100 * (1 - 3 / 10 ^ 15) \<le> y"
    using cr by (intro order_trans [OF _ y(2)] mult_right_mono divide_right_mono) simp_all
  moreover have "m \<le> 99 / of_int c" using assms(3) cr by (simp add: field_simps)
  moreover have "1 / 10 ^ 6 \<le> 1 / (of_int c :: rat)" using cr by (intro divide_left_mono) simp_all
  ultimately have "b < y" using b(2) by (simp add: algebra_simps)
  moreover have "\<not> Fin m \<le> Fin 0" "\<not> Fin (of_int c) \<le> Fin 0" using m c by simp_all
  ultimately show ?thesis unfolding ozonAIChangePercentReason_def y(1) b(1) Let_def by simp
qed

text \<open>A step that comes out of the clamp with room for a ruble is within the limit up to rounding.\<close>

lemma step_within:
  assumes w: "whole_bids c p m" and d: "d \<le> of_int c * m / 100 * (1 + 3 / 10 ^ 15)" "d \<le> of_int c"
    and j: "of_int j \<le> d + of_int c * (2 / 10 ^ 15) \<or> of_int j \<le> of_int c * m / 100"
  shows "of_int j / of_int c * 100 \<le> m + 1 / 10 ^ 12"
proof -
  have c: "(1 :: rat) \<le> of_int c" and m: "1 \<le> m" "m \<le> 100" using w by (auto simp: whole_bids_def)
  have "of_int j \<le> of_int c * (m / 100 * (1 + 3 / 10 ^ 15) + 2 / 10 ^ 15)"
    using j
  proof
    assume "of_int j \<le> d + of_int c * (2 / 10 ^ 15)"
    then show ?thesis using d(1) by (simp add: algebra_simps)
  next
    assume "of_int j \<le> of_int c * m / 100"
    also have "\<dots> = of_int c * (m / 100)" by simp
    also have "\<dots> \<le> of_int c * (m / 100 * (1 + 3 / 10 ^ 15) + 2 / 10 ^ 15)" using c m by (intro mult_left_mono) simp_all
    finally show ?thesis .
  qed
  then have "of_int j / of_int c \<le> m / 100 * (1 + 3 / 10 ^ 15) + 2 / 10 ^ 15" using c by (simp add: field_simps)
  then show ?thesis using m by simp
qed

section \<open>Theorems\<close>

text \<open>
  The bid clamp moves a whole bid by at least a ruble towards the proposal and never past it: the result is a
  whole bid strictly beyond the current one in the direction of the proposal and at most the proposal.
\<close>

theorem clamped_bid_between:
  assumes "whole_bids c p m"
  shows "\<exists>k. fst (ozonAIClampBidToChangeLimit (Fin (of_int c)) (Fin (of_int p)) (Fin m)) = Fin (of_int k) \<and>
    (if c < p then c < k \<and> k \<le> p else if p < c then p \<le> k \<and> k < c else k = c)"
proof -
  obtain d where d: "Fin (of_int c) * Fin m / Fin 100 = Fin d" "0 < d" "d \<le> of_int c" using max_delta [OF assms] by metis
  show ?thesis
  proof (cases rule: clamp_whole [OF assms d])
    case 1
    then show ?thesis by (intro exI [of _ p]) simp
  next
    case (2 k)
    then show ?thesis by (intro exI [of _ k]) simp
  next
    case (3 k)
    then show ?thesis by (intro exI [of _ k]) simp
  qed
qed

text \<open>
  C30 Where the limit leaves room for a ruble, the clamped bid always passes the change check, whatever the
  rounding of the arithmetic does.
\<close>

theorem clamped_bid_accepted:
  assumes w: "whole_bids c p m" and ruble: "100 \<le> of_int c * m"
  shows "ozonAIChangePercentReason (Fin (of_int c))
    (fst (ozonAIClampBidToChangeLimit (Fin (of_int c)) (Fin (of_int p)) (Fin m))) (Fin m) what = None"
proof -
  obtain d where d: "Fin (of_int c) * Fin m / Fin 100 = Fin d" "d \<le> of_int c * m / 100 * (1 + 3 / 10 ^ 15)" "0 < d" "d \<le> of_int c"
    using max_delta [OF w] by metis
  note s = step_within [OF w d(2,4)]
  have c: "(1 :: rat) \<le> of_int c" "of_int c \<le> (10 ^ 6 :: rat)" using w by (auto simp: whole_bids_def)
  have tiny: "0 \<le> of_int c * (2 / 10 ^ 15 :: rat)" using c by simp
  show ?thesis
  proof (cases rule: clamp_whole [OF w d(1,3,4)])
    case 1
    then have "of_int \<bar>p - c\<bar> \<le> d + of_int c * (2 / 10 ^ 15)" using tiny by simp
    then show ?thesis using change_within [OF w s] 1(1) by simp
  next
    case (2 k)
    have wk: "whole_bids c k m" using w 2 by (simp add: whole_bids_def)
    have "of_int (k - c) \<le> d + of_int c * (2 / 10 ^ 15) \<or> of_int (k - c) \<le> of_int c * m / 100"
      using 2(5)
    proof
      assume k: "of_int k \<le> rnd (of_int c + d)"
      obtain r where "r = rnd (of_int c + d)" "r \<le> (of_int c + d) * (1 + 1 / 10 ^ 15)"
        using round64_near [of "of_int c + d"] c d by auto
      then show ?thesis using k d(4) by (simp add: algebra_simps)
    qed (use ruble in simp)
    moreover have "\<bar>k - c\<bar> = k - c" using 2(2) by simp
    ultimately have "ozonAIChangePercentReason (Fin (of_int c)) (Fin (of_int k)) (Fin m) what = None"
      by (intro change_within [OF wk]) (simp only: s)
    then show ?thesis by (simp only: 2(1) fst_conv)
  next
    case (3 k)
    have wk: "whole_bids c k m" using w 3 by (simp add: whole_bids_def)
    have "of_int (c - k) \<le> d + of_int c * (2 / 10 ^ 15) \<or> of_int (c - k) \<le> of_int c * m / 100"
      using 3(5)
    proof
      assume k: "rnd (of_int c - d) \<le> of_int k"
      have "1 \<le> of_int c - d" using 3(4) w of_int_le_iff [of 1 p] unfolding whole_bids_def by (simp del: of_int_le_iff)
      then obtain r where "r = rnd (of_int c - d)" "(of_int c - d) * (1 - 1 / 10 ^ 15) \<le> r"
        using round64_near [of "of_int c - d"] c d by auto
      then show ?thesis using k d(3) c by (simp add: algebra_simps)
    qed (use ruble in simp)
    moreover have "\<bar>k - c\<bar> = c - k" using 3(2) by simp
    ultimately have "ozonAIChangePercentReason (Fin (of_int c)) (Fin (of_int k)) (Fin m) what = None"
      by (intro change_within [OF wk]) (simp only: s)
    then show ?thesis by (simp only: 3(1) fst_conv)
  qed
qed

text \<open>
  Where the limit is less than a ruble, no proposal gets through the decision path: the clamp allows a step of
  a ruble, and the check that follows rejects it as beyond the limit. Such bids never move, which is what the
  comment on the clamp says it prevents.
\<close>

theorem small_bid_never_moves:
  assumes w: "whole_bids c p m" "p \<noteq> c" and m: "MaxChangePercent params = Fin m" and small: "of_int c * m \<le> 99"
  shows "clamp_then_guard (Fin (of_int c)) (Fin (of_int p)) params \<noteq> None"
proof -
  let ?k = "fst (ozonAIClampBidToChangeLimit (Fin (of_int c)) (Fin (of_int p)) (Fin m))"
  obtain d where d: "Fin (of_int c) * Fin m / Fin 100 = Fin d" "0 < d" "d \<le> of_int c" using max_delta [OF w(1)] by metis
  have "\<exists>k. ?k = Fin (of_int k) \<and> k \<noteq> c \<and> whole_bids c k m"
    by (cases rule: clamp_whole [OF w(1) d]) (use w in \<open>auto simp: whole_bids_def\<close>)
  then have "ozonAIChangePercentReason (Fin (of_int c)) ?k (Fin m) ''bid'' \<noteq> None" using change_beyond small by force
  then show ?thesis by (simp add: clamp_then_guard_def ozonAIBidGuardReason_def m)
qed

section \<open>Witnesses\<close>

theorem clamped_bid_between_witness:
  "\<exists>k. fst (ozonAIClampBidToChangeLimit (Fin 38) (Fin 32) (Fin 15)) = Fin (of_int k) \<and> 32 \<le> k \<and> k < (38 :: int)"
  using clamped_bid_between [of 38 32 15] by (simp add: whole_bids_def)

theorem clamped_bid_accepted_witness:
  "ozonAIChangePercentReason (Fin 38) (fst (ozonAIClampBidToChangeLimit (Fin 38) (Fin 32) (Fin 15))) (Fin 15) ''bid'' = None"
  using clamped_bid_accepted [of 38 32 15 "''bid''"] by (simp add: whole_bids_def)

theorem small_bid_never_moves_witness:
  "clamp_then_guard (Fin 6) (Fin 7) (DefaultStrategyParams\<lparr>MaxChangePercent := Fin 15\<rparr>) \<noteq> None"
  using small_bid_never_moves [of 6 7 15 "DefaultStrategyParams\<lparr>MaxChangePercent := Fin 15\<rparr>"] by (simp add: whole_bids_def)

end
