(* ===== verification/Ozon_Price_Rules.thy ===== *)
theory Ozon_Price_Rules
  imports Price_Engine Ozon_Total_DRR Ozon_Guardrails
begin

text \<open>
  The price rules for the second marketplace, the pure part of \<^verbatim>\<open>internal/service/ozon_repricer.go\<close>: the margin
  floor, the two rules of its own and the three rules that run the price engine with the floor injected as the minimum
  price. The theorems show that the floor covers the costs, that no rule lowers a price below it, how far
  a price follows a competitor, and where a raise leaves the step and the maximum behind.
\<close>

section \<open>Floors\<close>

definition minOzonPriceDeltaRub :: f64 where "minOzonPriceDeltaRub = Fin 1"

record ozonFloorInputs =
  fi_NetPriceRub :: f64
  fi_CommissionFBOPct :: f64
  fi_CommissionFBSPct :: f64
  fi_AcquiringRub :: f64
  fi_TargetMarginPercent :: f64
  fi_CurrentPriceRub :: f64
  fi_MaxDiscountPercent :: f64

definition floor_denom :: "ozonFloorInputs \<Rightarrow> f64" where
  "floor_denom inp =
     Fin 1 - (math_Max (fi_CommissionFBOPct inp) (fi_CommissionFBSPct inp) + fi_TargetMarginPercent inp) / Fin 100"

definition computeOzonFloor :: "ozonFloorInputs \<Rightarrow> f64 \<times> string" where
  "computeOzonFloor inp =
     (if fi_NetPriceRub inp > Fin 0 then
        if math_Max (fi_CommissionFBOPct inp) (fi_CommissionFBSPct inp) \<le> Fin 0 then (Fin 0, ''missing_commission'')
        else if fi_AcquiringRub inp < Fin 0 then (Fin 0, ''negative_acquiring'')
        else if floor_denom inp < lit (5/100) then (Fin 0, ''economics_percentages_invalid'')
        else (roundRub ((fi_NetPriceRub inp + fi_AcquiringRub inp) / floor_denom inp), [])
      else if fi_CurrentPriceRub inp > Fin 0 then
        let maxDiscount = (if fi_MaxDiscountPercent inp \<le> Fin 0 then MaxDiscountPercent DefaultPriceParams else fi_MaxDiscountPercent inp)
        in (roundRub (fi_CurrentPriceRub inp * (Fin 1 - maxDiscount / Fin 100)), [])
      else (Fin 0, ''missing_net_price''))"

text \<open>A row of \<^verbatim>\<open>ozon_product_economics\<close>, its amounts as exact decimals.\<close>

record OzonProductEconomic =
  ope_SellerCabinetID :: uuid
  ope_OfferID :: string
  ope_CostPriceRub :: "rat option"
  ope_OtherCostsRub :: "rat option"
  ope_MaxAllowedDrr :: "rat option"

definition ozonEffectiveNetPrice :: "f64 \<Rightarrow> OzonProductEconomic option \<Rightarrow> f64" where
  "ozonEffectiveNetPrice netPriceRub econ =
     (if netPriceRub > Fin 0 then netPriceRub
      else case econ of
          None \<Rightarrow> Fin 0
        | Some e \<Rightarrow>
          let cost = pgNumericToFloat (ope_CostPriceRub e); other = pgNumericToFloat (ope_OtherCostsRub e)
          in if cost \<le> Fin 0 then Fin 0 else if other > Fin 0 then cost + other else cost)"

section \<open>Rules\<close>

record ozonPriceDecision =
  od_ShouldChange :: bool
  od_NewPriceRub :: f64
  od_FloorRub :: f64
  od_CompetitorRub :: f64
  od_Direction :: string
  od_Reason :: string
  od_SkipReason :: string

definition no_decision :: ozonPriceDecision where
  "no_decision = \<lparr>od_ShouldChange = False, od_NewPriceRub = Fin 0, od_FloorRub = Fin 0, od_CompetitorRub = Fin 0,
     od_Direction = [], od_Reason = [], od_SkipReason = []\<rparr>"

definition ozonSkip :: "string \<Rightarrow> ozonPriceDecision" where
  "ozonSkip reason = no_decision\<lparr>od_Direction := ''none'', od_SkipReason := reason\<rparr>"

definition decideOzonMarginFloor :: "f64 \<Rightarrow> f64 \<Rightarrow> ozonPriceDecision" where
  "decideOzonMarginFloor currentRub floorRub =
     (if currentRub \<le> Fin 0 then ozonSkip ''invalid_current_price''
      else if floorRub \<le> Fin 0 then ozonSkip ''no_floor''
      else if currentRub \<ge> floorRub then
        no_decision\<lparr>od_Direction := ''none'', od_Reason := ''above_margin_floor'', od_FloorRub := floorRub\<rparr>
      else if floorRub \<ge> currentRub * Fin 3 then ozonSkip ''floor_suspicious''
      else no_decision\<lparr>od_ShouldChange := True, od_NewPriceRub := floorRub, od_FloorRub := floorRub, od_Direction := ''up'',
        od_Reason := ''below margin floor '' @ fmt_f 2 floorRub @ sym_rub @ '', raising to floor''\<rparr>)"

text \<open>The target of the competitor rule after the floor and the step cap.\<close>

definition competitor_target :: "f64 \<Rightarrow> f64 \<Rightarrow> f64 \<Rightarrow> f64 \<Rightarrow> f64 \<Rightarrow> f64" where
  "competitor_target currentRub floorRub competitorMinRub undercutPct stepPct =
     (let target0 = roundRub (competitorMinRub * (Fin 1 - undercutPct / Fin 100));
          target1 = (if target0 < floorRub then floorRub else target0);
          step = stepPct / Fin 100
      in if target1 > currentRub then
           let capped = roundRub (currentRub * (Fin 1 + step)) in if target1 > capped then capped else target1
         else if target1 < currentRub then
           let capped = roundRub (currentRub * (Fin 1 - step));
               target2 = (if target1 < capped then capped else target1)
           in if target2 < floorRub then floorRub else target2
         else target1)"

definition decideOzonCompetitorFollow :: "f64 \<Rightarrow> f64 \<Rightarrow> f64 \<Rightarrow> f64 \<Rightarrow> f64 \<Rightarrow> ozonPriceDecision" where
  "decideOzonCompetitorFollow currentRub floorRub competitorMinRub undercutPct stepPct =
     (if currentRub \<le> Fin 0 then ozonSkip ''invalid_current_price''
      else if competitorMinRub \<le> Fin 0 then ozonSkip ''no_competitor_price''
      else if floorRub \<le> Fin 0 then ozonSkip ''no_floor''
      else
        let target = competitor_target currentRub floorRub competitorMinRub undercutPct stepPct
        in if \<bar>target - currentRub\<bar> < math_Max minOzonPriceDeltaRub (currentRub * lit (1/100)) then
             no_decision\<lparr>od_Direction := ''none'', od_Reason := ''near_competitor'', od_FloorRub := floorRub, od_CompetitorRub := competitorMinRub\<rparr>
           else
             let direction = (if target < currentRub then ''down'' else ''up'')
             in no_decision\<lparr>od_ShouldChange := True, od_NewPriceRub := target, od_FloorRub := floorRub, od_CompetitorRub := competitorMinRub,
                  od_Direction := direction,
                  od_Reason := ''competitor min '' @ fmt_f 2 competitorMinRub @ sym_rub @ '', '' @ direction @ '' to '' @
                    fmt_f 2 target @ sym_rub @ '' ('' @ sym_minus @ fmt_f 0 undercutPct @ ''%)''\<rparr>)"

section \<open>Rules on the price engine\<close>

definition ozonEngineParams :: "StrategyParams \<Rightarrow> f64 \<Rightarrow> StrategyParams" where
  "ozonEngineParams params floorRub =
     (if floorRub > Fin 0 then
        let floorInt = int_of_float (math_Ceil floorRub)
        in if (case MinPriceRub params of None \<Rightarrow> True | Some m \<Rightarrow> m < floorInt) then params\<lparr>MinPriceRub := Some floorInt\<rparr> else params
      else params)"

definition ozonDecisionFromEngine :: "PriceDecision \<Rightarrow> f64 \<Rightarrow> ozonPriceDecision" where
  "ozonDecisionFromEngine d floorRub =
     (if \<not> pd_ShouldChange d then
        no_decision\<lparr>od_Direction := ''none'', od_Reason := pd_Reason d, od_SkipReason := pd_SkipReason d, od_FloorRub := floorRub\<rparr>
      else
        let target0 = float_of_int (pd_TargetEffectiveRub d);
            target = (if floorRub > Fin 0 \<and> target0 < floorRub then floorRub else target0)
        in no_decision\<lparr>od_ShouldChange := True, od_NewPriceRub := roundRub target, od_FloorRub := floorRub,
             od_Direction := pd_Direction d, od_Reason := pd_Reason d\<rparr>)"

definition ozon_zero_ProductPrice :: ProductPrice where
  "ozon_zero_ProductPrice = \<lparr>pp_ID = 0, pp_WorkspaceID = 0, pp_SellerCabinetID = 0, pp_WBProductID = 0, pp_PriceRub = 0, pp_DiscountPercent = 0,
     pp_ClubDiscountPercent = 0, pp_DiscountedPriceRub = None, pp_EditableSizePrice = False, pp_SyncedAt = 0, pp_UpdatedAt = 0\<rparr>"

definition ozon_zero_ProductEconomics :: ProductEconomics where
  "ozon_zero_ProductEconomics = \<lparr>pe_WBProductID = 0, pe_CostPrice = None, pe_LogisticsCost = None, pe_OtherCosts = None, pe_TaxRatePercent = None,
     pe_CommissionPercent = None, pe_TargetMarginPercent = None, pe_MaxAllowedDRR = None\<rparr>"

definition ozon_engine_inputs :: "f64 \<Rightarrow> PriceEngineInputs" where
  "ozon_engine_inputs currentRub =
     \<lparr>in_Current = ozon_zero_ProductPrice\<lparr>pp_PriceRub := int_of_float (math_Round currentRub)\<rparr>, in_Economics = ozon_zero_ProductEconomics,
      in_CommissionFallbackPercent = None, in_Stock = 0, in_StockKnown = False, in_SalesUnitsPerDay = Fin 0, in_DRR = None,
      in_HasActiveCampaigns = False\<rparr>"

definition decideOzonInventoryDemand :: "f64 \<Rightarrow> f64 \<Rightarrow> int \<Rightarrow> bool \<Rightarrow> f64 \<Rightarrow> StrategyParams \<Rightarrow> ozonPriceDecision" where
  "decideOzonInventoryDemand currentRub floorRub stock stockKnown salesPerDay params =
     (if currentRub \<le> Fin 0 then ozonSkip ''invalid_current_price''
      else
        let inp = (ozon_engine_inputs currentRub)\<lparr>in_Stock := stock, in_StockKnown := stockKnown, in_SalesUnitsPerDay := salesPerDay\<rparr>
        in ozonDecisionFromEngine (DecideInventoryDemand inp (ozonEngineParams params floorRub)) floorRub)"

definition decideOzonAdLinked :: "f64 \<Rightarrow> f64 \<Rightarrow> f64 option \<Rightarrow> f64 \<Rightarrow> f64 option \<Rightarrow> StrategyParams \<Rightarrow> ozonPriceDecision" where
  "decideOzonAdLinked currentRub floorRub drr spendRub maxDRRFallback params =
     (if currentRub \<le> Fin 0 then ozonSkip ''invalid_current_price''
      else if spendRub \<le> Fin 0 then ozonSkip ''no_ad_spend''
      else
        let inp = (ozon_engine_inputs currentRub)\<lparr>in_DRR := drr, in_HasActiveCampaigns := True,
              in_Economics := ozon_zero_ProductEconomics\<lparr>pe_MaxAllowedDRR := maxDRRFallback\<rparr>\<rparr>
        in ozonDecisionFromEngine (DecideAdLinked inp (ozonEngineParams params floorRub)) floorRub)"

definition decideOzonPeakHours :: "f64 \<Rightarrow> f64 \<Rightarrow> f64 \<Rightarrow> bool \<Rightarrow> StrategyParams \<Rightarrow> ozonPriceDecision" where
  "decideOzonPeakHours currentRub floorRub intensity hasDemandData params =
     (if currentRub \<le> Fin 0 then ozonSkip ''invalid_current_price''
      else if \<not> hasDemandData then ozonSkip ''no_demand_data''
      else ozonDecisionFromEngine (DecidePeakHours (ozon_engine_inputs currentRub) (ozonEngineParams params floorRub) intensity) floorRub)"

section \<open>Products\<close>

record ozon_price_row = OzonProductPrice +
  opr_OfferID :: "string option"
  opr_OldPriceRub :: "rat option"
  opr_MinPriceRub :: "rat option"
  opr_SyncedAt :: "int option"
  opr_OzonIndexMinPriceRub :: "rat option"
  opr_ExternalIndexMinPriceRub :: "rat option"

definition ozonCompetitorMin :: "ozon_price_row \<Rightarrow> f64" where
  "ozonCompetitorMin row =
     foldl (\<lambda>m candidate. if candidate > Fin 0 \<and> (m = Fin 0 \<or> candidate < m) then candidate else m) (Fin 0)
       [pgNumericToFloat (opr_OzonIndexMinPriceRub row), pgNumericToFloat (opr_ExternalIndexMinPriceRub row)]"

definition ozonPeakHoursMinSKUOrders :: int where "ozonPeakHoursMinSKUOrders = 20"

record ozonStrategyAux =
  ax_presentByProductID :: "int \<rightharpoonup> int"
  ax_salesSKUByProductID :: "int \<rightharpoonup> int"
  ax_velocityBySalesSKU :: "int \<rightharpoonup> f64"
  ax_drrBySalesSKU :: "int \<rightharpoonup> f64"
  ax_spendBySalesSKU :: "int \<rightharpoonup> f64"
  ax_peakIntensityBySalesSKU :: "int \<rightharpoonup> f64 \<times> int"
  ax_peakCabinetIntensity :: f64
  ax_peakCabinetHasData :: bool

text \<open>Reading a missing key of a map gives the zero value.\<close>

definition get0 :: "'v \<Rightarrow> ('k \<rightharpoonup> 'v) \<Rightarrow> 'k \<Rightarrow> 'v" where
  "get0 z m k = (case m k of None \<Rightarrow> z | Some v \<Rightarrow> v)"

definition sales_sku :: "ozonStrategyAux \<Rightarrow> int \<Rightarrow> int" where
  "sales_sku a productID = get0 0 (ax_salesSKUByProductID a) productID"

definition peakIntensityForProduct :: "ozonStrategyAux \<Rightarrow> int \<Rightarrow> f64 \<times> bool" where
  "peakIntensityForProduct a productID =
     (let fallback = (if ax_peakCabinetHasData a then (ax_peakCabinetIntensity a, True) else (Fin 0, False))
      in case ax_peakIntensityBySalesSKU a (sales_sku a productID) of
          Some (intensity, totalOrders) \<Rightarrow> if totalOrders \<ge> ozonPeakHoursMinSKUOrders then (intensity, True) else fallback
        | None \<Rightarrow> fallback)"

definition velocityForProduct :: "ozonStrategyAux \<Rightarrow> int \<Rightarrow> f64" where
  "velocityForProduct a productID = get0 (Fin 0) (ax_velocityBySalesSKU a) (sales_sku a productID)"

text \<open>The floor of a row and the switch over the types of a strategy.\<close>

definition row_floor :: "StrategyParams \<Rightarrow> ozon_price_row \<Rightarrow> OzonProductEconomic option \<Rightarrow> f64 \<times> string" where
  "row_floor params row econ =
     computeOzonFloor
       \<lparr>fi_NetPriceRub = ozonEffectiveNetPrice (pgNumericToFloat (ozp_NetPriceRub row)) econ,
        fi_CommissionFBOPct = pgNumericToFloat (ozp_CommissionFboPct row), fi_CommissionFBSPct = pgNumericToFloat (ozp_CommissionFbsPct row),
        fi_AcquiringRub = pgNumericToFloat (ozp_AcquiringPct row), fi_TargetMarginPercent = TargetMarginPercent params,
        fi_CurrentPriceRub = pgNumericToFloat (ozp_PriceRub row), fi_MaxDiscountPercent = MaxDiscountPercent params\<rparr>"

definition row_decision ::
    "Strategy \<Rightarrow> StrategyParams \<Rightarrow> ozon_price_row \<Rightarrow> OzonProductEconomic option \<Rightarrow> ozonStrategyAux \<Rightarrow> f64 \<Rightarrow> f64 \<Rightarrow> ozonPriceDecision option" where
  "row_decision strategy params row econ aux current fl =
     (if st_Type strategy = StrategyTypeOzonPriceMarginFloor then Some (decideOzonMarginFloor current fl)
      else if st_Type strategy = StrategyTypeOzonPriceCompetitorFollow then
        Some (decideOzonCompetitorFollow current fl (ozonCompetitorMin row) (UndercutPercent params) (StepPercent params))
      else if st_Type strategy = StrategyTypeOzonPriceInventoryDemand then
        Some (decideOzonInventoryDemand current fl (get0 0 (ax_presentByProductID aux) (ozp_Sku row)) (ax_presentByProductID aux (ozp_Sku row) \<noteq> None)
                (velocityForProduct aux (ozp_Sku row)) (st_Params strategy))
      else if st_Type strategy = StrategyTypeOzonPricePeakHours then
        (case peakIntensityForProduct aux (ozp_Sku row) of
           (intensity, hasDemandData) \<Rightarrow> Some (decideOzonPeakHours current fl intensity hasDemandData (st_Params strategy)))
      else if st_Type strategy = StrategyTypeOzonPriceAdLinked then
        (let salesSKU = sales_sku aux (ozp_Sku row);
             maxDRRFallback = (case econ of None \<Rightarrow> None
               | Some e \<Rightarrow> (case ope_MaxAllowedDrr e of None \<Rightarrow> None | Some v \<Rightarrow> Some (pgNumericToFloat (Some v))))
         in Some (decideOzonAdLinked current fl (ax_drrBySalesSKU aux salesSKU) (get0 (Fin 0) (ax_spendBySalesSKU aux) salesSKU)
                    maxDRRFallback (st_Params strategy)))
      else None)"


section \<open>Rounding to kopecks\<close>

lemma roundRub_Fin: "roundRub (Fin x) = math_Round (round64 (x * 100)) / Fin 100"
  by (simp add: roundRub_def)

lemma roundRub_ge_int:
  assumes "of_int k \<le> x" "0 \<le> k" "k \<le> 10 ^ 12" "roundRub (Fin x) = Fin y"
  shows "of_int k \<le> y"
proof -
  have "of_int (100 * k) \<le> x * 100" "0 \<le> x * 100" using assms(1,2) by (simp_all add: order_trans [of 0 "of_int k"])
  then have r: "of_int (100 * k) \<le> rnd (x * 100)" using assms(2,3) by (intro b64.R_ge_int) simp_all
  show ?thesis
  proof (rule round64_cases_nonneg [OF \<open>0 \<le> x * 100\<close>])
    assume "round64 (x * 100) = PInf"
    then show ?thesis using assms(4) by (simp add: roundRub_Fin signed_inf_def)
  next
    fix q assume q: "round64 (x * 100) = Fin q" "q = rnd (x * 100)"
    then have "100 * k \<le> round_away q" using r round_away_ge_int by blast
    then have "of_int (100 * k) \<le> (of_int (round_away q) :: rat)" by (simp only: of_int_le_iff)
    then have "of_int k \<le> (of_int (round_away q) :: rat) / 100" by simp
    then have "of_int k \<le> rnd (of_int (round_away q) / 100)" using assms(2,3) by (intro b64.R_ge_int) simp_all
    moreover have "y = rnd (of_int (round_away q) / 100)"
      using assms(4) q(1) round64_Fin_rnd by (simp add: roundRub_Fin)
    ultimately show ?thesis by simp
  qed
qed

lemma roundRub_near:
  assumes "1 / 10 ^ 3 \<le> x" "x \<le> 10 ^ 8"
  obtains y where "roundRub (Fin x) = Fin y" "\<bar>y - x\<bar> \<le> 50002 / 10 ^ 7"
proof -
  obtain r where r: "round64 (x * 100) = Fin r" "x * 100 * (1 - 1 / 10 ^ 15) \<le> r" "r \<le> x * 100 * (1 + 1 / 10 ^ 15)"
    using round64_near [of "x * 100"] assms by (auto simp: field_simps)
  define k where "k = round_away r"
  have k: "\<bar>of_int k - r\<bar> \<le> 1 / 2" unfolding k_def by (rule round_away_dist)
  have r0: "0 \<le> r" "r \<le> of_int (2 * 10 ^ 10)" using r(2,3) assms by (simp_all add: field_simps)
  then have k0: "0 \<le> k" "k \<le> 2 * 10 ^ 10" unfolding k_def using round_away_ge_int [of 0 r] round_away_le_int [of r "2 * 10 ^ 10"] by simp_all
  have "(of_int k :: rat) \<le> of_int (2 * 10 ^ 10)" using k0(2) by (simp only: of_int_le_iff)
  then have k1: "of_int 0 \<le> (of_int k :: rat) / 100" "(of_int k :: rat) / 100 \<le> of_int (2 * 10 ^ 8)" using k0(1) by simp_all
  obtain y where y: "round64 (of_int k / 100) = Fin y" "y = rnd (of_int k / 100)"
    using round64_between [OF k1] by auto
  have e: "\<bar>y - of_int k / 100\<bar> \<le> 1 / 10 ^ 7"
  proof (cases "k = 0")
    case False
    then have "1 \<le> k" using k0 by simp
    then have "1 \<le> (of_int k :: rat)" by simp
    then have "1 / 10 ^ 20 \<le> \<bar>of_int k / 100 :: rat\<bar>" by simp
    moreover have "pow2 (-1022) \<le> 1 / 10 ^ 20" by (simp add: pow2_def field_simps)
    ultimately have "pow2 (-1022) \<le> \<bar>of_int k / 100\<bar>" by linarith
    from rnd_rel [OF this] have "\<bar>y - of_int k / 100\<bar> \<le> \<bar>of_int k / 100\<bar> / 2 ^ 53" unfolding y(2) .
    also have "\<dots> \<le> (2 * 10 ^ 8) / 2 ^ 53" using k1 by (intro divide_right_mono) simp_all
    also have "\<dots> \<le> 1 / 10 ^ 7" by simp
    finally show ?thesis .
  qed (simp add: y b64.R_zero)
  show ?thesis
  proof (rule that)
    show "roundRub (Fin x) = Fin y" using r(1) y(1) by (simp add: roundRub_Fin k_def)
    have "\<bar>r - x * 100\<bar> \<le> 1 / 10 ^ 5" using r(2,3) assms by (intro abs_leI) (simp_all add: algebra_simps)
    with e k show "\<bar>y - x\<bar> \<le> 50002 / 10 ^ 7" unfolding abs_le_iff by simp
  qed
qed


section \<open>The contract of a rule\<close>

text \<open>
  Every rule gets the current price, the floor and the parameters of its strategy. In the range of its inputs it never
  lowers a price below the floor.
\<close>

locale ozon_rule =
  fixes rule :: "f64 \<Rightarrow> f64 \<Rightarrow> StrategyParams \<Rightarrow> ozonPriceDecision"
  assumes cut: "\<lbrakk>0 < c; c \<le> 10 ^ 7; 0 < f; f \<le> 10 ^ 7; 0 \<le> StepPercent params; StepPercent params \<le> Fin 10;
      od_ShouldChange (rule (Fin c) (Fin f) params); od_NewPriceRub (rule (Fin c) (Fin f) params) = Fin p; p < c\<rbrakk> \<Longrightarrow> f \<le> p"
begin

lemma below_floor_only_raised:
  assumes "0 < c" "c \<le> 10 ^ 7" "c \<le> f" "f \<le> 10 ^ 7" "0 \<le> StepPercent params" "StepPercent params \<le> Fin 10"
    and "od_ShouldChange (rule (Fin c) (Fin f) params)" "od_NewPriceRub (rule (Fin c) (Fin f) params) = Fin p"
  shows "c \<le> p"
proof (rule ccontr)
  assume "\<not> c \<le> p"
  then show False using cut [OF assms(1,2) _ assms(4-8)] assms(1,3) by simp
qed

end

lemma no_decision_simps [simp]:
  "\<not> od_ShouldChange no_decision" "\<not> od_ShouldChange (ozonSkip r)"
  by (simp_all add: no_decision_def ozonSkip_def)

interpretation margin_floor_rule: ozon_rule "\<lambda>c f params. decideOzonMarginFloor c f"
  by unfold_locales (auto simp: decideOzonMarginFloor_def split: if_splits)

subsection \<open>The competitor rule\<close>

lemma capped_not_below:
  assumes c: "0 < c" "c \<le> 10 ^ 7" and s: "0 \<le> s" "s \<le> 10" and y: "roundRub (Fin c * (Fin 1 + Fin s / Fin 100)) = Fin y"
  shows "c - 1 / 2 \<le> y"
proof -
  obtain q where q: "Fin s / Fin 100 = Fin q" "0 \<le> q" "q \<le> 3435973837 / 2 ^ 35" using step_ratio [OF s] by blast
  obtain g where g: "Fin 1 + Fin q = Fin g" "1 \<le> g" "g \<le> 1 + 3435973837 / 2 ^ 35" using factor_up [OF q(2,3)] by blast
  have cg: "c \<le> c * g" using c g(2) by (simp add: mult_le_cancel_left1)
  have "g \<le> 2" using g(3) by simp
  then have "c * g \<le> c * 2" using c by (intro mult_left_mono) simp_all
  then have cg2: "c * g \<le> 2 * 10 ^ 7" using c by linarith
  obtain z where z: "round64 (c * g) = Fin z" "0 \<le> z" "z \<le> of_int (2 * 10 ^ 7)" "z = rnd (c * g)"
    using round64_between [of 0 "c * g" "2 * 10 ^ 7"] cg cg2 c by auto
  have e: "Fin c * (Fin 1 + Fin s / Fin 100) = Fin z" unfolding q(1) g(1) using z(1) by simp
  show ?thesis
  proof (cases "c < 1 / 2")
    case True
    have "of_int 0 \<le> y" by (rule roundRub_ge_int [where x = z]) (use z(2) y e in simp_all)
    then show ?thesis using True by simp
  next
    case False
    have half: "1 / 2 \<le> c * g" using False cg by linarith
    have "1 / 10 ^ 20 \<le> c * g" by (rule order_trans [OF _ half]) simp
    moreover have "c * g \<le> 10 ^ 15" by (rule order_trans [OF cg2]) simp
    ultimately obtain z' where z': "round64 (c * g) = Fin z'" "c * g * (1 - 1 / 10 ^ 15) \<le> z'"
      using round64_near by metis
    then have "c * g - c * g / 10 ^ 15 \<le> z" using z(1) by (simp add: algebra_simps)
    moreover have "c * g / 10 ^ 15 \<le> 1 / 10 ^ 6" using cg2 by simp
    ultimately have zc: "c - 1 / 10 ^ 6 \<le> z" using cg by linarith
    obtain y' where y': "roundRub (Fin z) = Fin y'" "\<bar>y' - z\<bar> \<le> 50002 / 10 ^ 7"
      using roundRub_near [of z] zc z(3) False by auto
    have "z - y' \<le> 50002 / 10 ^ 7" using abs_le_D2 [OF y'(2)] by simp
    then show ?thesis using y e y'(1) zc by simp
  qed
qed

lemma one_percent: "lit (1/100) = Fin (5764607523034235 / 576460752303423488)"
  by (simp add: f64_defs f64_eval rnd_eval go_eval)

lemma small_move_dead:
  assumes "0 < c" "c \<le> 10 ^ 7" "c - 1 / 2 \<le> y" "y < c"
  shows "\<bar>Fin y - Fin c\<bar> < math_Max minOzonPriceDeltaRub (Fin c * lit (1/100))"
proof -
  obtain r where r: "round64 (y - c) = Fin r" "r \<le> 0" "r = rnd (y - c)"
    using round64_between [of "-1" "y - c" 0] assms(3,4) by auto
  have "of_int (-1) / 2 ^ 1 \<le> rnd (y - c)" using assms(3) by (intro b64.R_ge_dyadic) simp_all
  then have a: "\<bar>Fin y - Fin c\<bar> < Fin 1" using r by (simp add: minus_f64_Fin abs_less_iff)
  obtain v where "Fin c * lit (1/100) = Fin v"
    using round64_between [of 0 "c * (5764607523034235 / 576460752303423488)" "10 ^ 7"] assms(1,2) by (auto simp: one_percent)
  then show ?thesis using a r by (simp add: minOzonPriceDeltaRub_def minus_f64_Fin)
qed

lemma competitor_cut:
  assumes c: "0 < c" "c \<le> 10 ^ 7" and s: "0 \<le> s" "s \<le> 10"
    and p: "competitor_target (Fin c) (Fin f) m u (Fin s) = Fin p" "p < c" "p < f"
  shows "\<bar>Fin p - Fin c\<bar> < math_Max minOzonPriceDeltaRub (Fin c * lit (1/100))"
proof -
  define t1 where "t1 = (let t0 = roundRub (m * (Fin 1 - u / Fin 100)) in if t0 < Fin f then Fin f else t0)"
  have e: "competitor_target (Fin c) (Fin f) m u (Fin s) =
     (if t1 > Fin c then let capped = roundRub (Fin c * (Fin 1 + Fin s / Fin 100)) in if t1 > capped then capped else t1
      else if t1 < Fin c then
        let capped = roundRub (Fin c * (Fin 1 - Fin s / Fin 100)); t2 = (if t1 < capped then capped else t1)
        in if t2 < Fin f then Fin f else t2
      else t1)"
    by (simp add: competitor_target_def t1_def Let_def)
  have "t1 > Fin c"
    using p by (auto simp: e Let_def split: if_splits)
  then have "roundRub (Fin c * (Fin 1 + Fin s / Fin 100)) = Fin p"
    using p by (auto simp: e Let_def split: if_splits)
  from capped_not_below [OF c s this] show ?thesis using small_move_dead [OF c _ p(2)] by simp
qed

lemma merged_step:
  assumes "0 \<le> StepPercent params" "StepPercent params \<le> Fin 10"
  obtains s where "StepPercent (MergedPriceParams params) = Fin s" "0 \<le> s" "s \<le> 10"
  using merged_step_range [OF assms] by blast

interpretation competitor_rule: ozon_rule
  "\<lambda>c f params. decideOzonCompetitorFollow c f m (UndercutPercent (MergedPriceParams params)) (StepPercent (MergedPriceParams params))" for m
proof
  fix c f p :: rat and params
  let ?u = "UndercutPercent (MergedPriceParams params)" and ?s = "StepPercent (MergedPriceParams params)"
  assume c: "0 < c" "c \<le> 10 ^ 7" and st: "0 \<le> StepPercent params" "StepPercent params \<le> Fin 10"
    and d: "od_ShouldChange (decideOzonCompetitorFollow (Fin c) (Fin f) m ?u ?s)"
      "od_NewPriceRub (decideOzonCompetitorFollow (Fin c) (Fin f) m ?u ?s) = Fin p" "p < c"
  obtain s where s: "?s = Fin s" "0 \<le> s" "s \<le> 10" using merged_step [OF st] by blast
  have t: "competitor_target (Fin c) (Fin f) m ?u (Fin s) = Fin p"
    and live: "\<not> \<bar>competitor_target (Fin c) (Fin f) m ?u (Fin s) - Fin c\<bar> < math_Max minOzonPriceDeltaRub (Fin c * lit (1/100))"
    using d unfolding s(1) by (auto simp: decideOzonCompetitorFollow_def Let_def no_decision_def ozonSkip_def split: if_splits)
  show "f \<le> p" using competitor_cut [OF c s(2,3) t d(3)] live t by (cases "p < f") auto
qed


subsection \<open>The rules on the engine\<close>

lemma engine_params_sel [simp]:
  "MaxPriceRub (ozonEngineParams params fl) = MaxPriceRub params" "StepPercent (ozonEngineParams params fl) = StepPercent params"
  by (simp_all add: ozonEngineParams_def Let_def)

lemma engine_floor_param:
  assumes "0 < f" "f \<le> 10 ^ 7"
  obtains m where "MinPriceRub (ozonEngineParams params (Fin f)) = Some m" "f \<le> of_int m" "0 < m"
proof -
  have c: "0 < \<lceil>f\<rceil>" "\<lceil>f\<rceil> \<le> 10 ^ 7" using assms by (simp_all add: ceiling_le_iff)
  then have e: "int_of_float (math_Ceil (Fin f)) = \<lceil>f\<rceil>" by (simp add: in_int64I)
  show ?thesis
  proof (cases "case MinPriceRub params of None \<Rightarrow> True | Some m \<Rightarrow> m < \<lceil>f\<rceil>")
    case True
    then show ?thesis using assms(1) c(1) e that [of "\<lceil>f\<rceil>"] by (simp add: ozonEngineParams_def)
  next
    case False
    then obtain m where m: "MinPriceRub params = Some m" "\<lceil>f\<rceil> \<le> m" by (auto split: option.splits)
    then have "MinPriceRub (ozonEngineParams params (Fin f)) = Some m" using assms(1) e by (simp add: ozonEngineParams_def)
    moreover have "f \<le> of_int m" using m(2) by (simp only: ceiling_le_iff)
    ultimately show ?thesis using that m(2) c(1) by simp
  qed
qed

lemma engine_floor:
  assumes "0 < f" "f \<le> 10 ^ 7" "pe_CostPrice (in_Economics inp) = None"
    and "resolveFloor inp (MergedPriceParams (ozonEngineParams params (Fin f))) = (fl, r)"
  shows "f \<le> of_int fl"
proof -
  obtain m where m: "MinPriceRub (ozonEngineParams params (Fin f)) = Some m" "f \<le> of_int m" "0 < m"
    using engine_floor_param [OF assms(1,2)] by blast
  have "fst (ComputeMinEffectivePrice (in_Economics inp) (in_CommissionFallbackPercent inp)) = 0"
    "snd (ComputeMinEffectivePrice (in_Economics inp) (in_CommissionFallbackPercent inp)) \<noteq> []"
    using assms(3) by (simp_all add: ComputeMinEffectivePrice_def econ_cost_def)
  then have "fl = m" using assms(4) m by (auto simp: resolveFloor_def Let_def split: prod.splits)
  then show ?thesis using m by simp
qed

text \<open>A move of the engine, down to its floor at the lowest, carries over.\<close>

lemma from_engine_cut:
  assumes c: "0 < c" "c \<le> 10 ^ 7" and f: "0 < f" "f \<le> 10 ^ 7" "f \<le> of_int fl"
    and d: "d = priceMove inp dir t fl re" "t > round_away c \<or> t < round_away c \<and> fl \<le> t"
    and p: "od_NewPriceRub (ozonDecisionFromEngine d (Fin f)) = Fin p" "p < c"
  shows "f \<le> p"
proof -
  have rc: "c - 1 / 2 \<le> of_int (round_away c)" "0 \<le> round_away c" "round_away c \<le> 10 ^ 7"
    using abs_le_D2 [OF round_away_dist [of c]] round_away_ge_int [of 0 c] round_away_le_int [of c "10 ^ 7"] c by simp_all
  show ?thesis
  proof (cases "t < round_away c")
    case True
    then have t: "fl \<le> t" "t \<le> 10 ^ 7" using d(2) rc(3) by simp_all
    have "0 < (of_int fl :: rat)" using f by linarith
    then have t0: "0 \<le> t" using t(1) by simp
    have "f \<le> of_int t" using f(3) t(1) by (meson of_int_le_iff order_trans)
    then have "roundRub (Fin (of_int t)) = Fin p" using p(1) t(2) t0 by (simp add: d(1) ozonDecisionFromEngine_def no_decision_def)
    then have "of_int t \<le> p" using roundRub_ge_int [of t "of_int t" p] t(2) t0 by simp
    then show ?thesis using \<open>f \<le> of_int t\<close> by simp
  next
    case False
    define k where "k = round_away c + 1"
    have k: "0 \<le> k" "k \<le> t" "k \<le> 10 ^ 8" "c < of_int k" using False d(2) rc by (auto simp: k_def)
    define x where "x = (if float_of_int t < Fin f then Fin f else float_of_int t)"
    have e: "roundRub x = Fin p" using p(1) f(1) by (simp add: d(1) ozonDecisionFromEngine_def no_decision_def x_def Let_def split: if_splits)
    have "of_int k \<le> p"
    proof (cases "float_of_int t")
      case (Fin v)
      have "of_int k \<le> rnd (of_int t)" using k by (intro b64.R_ge_int) simp_all
      then have v: "of_int k \<le> v" using Fin round64_Fin_rnd [of "of_int t" v] by (simp add: float_of_int_def)
      have "\<exists>x'. x = Fin x' \<and> of_int k \<le> x'" using v by (cases "v < f") (auto simp: x_def Fin)
      then show ?thesis using e k(1,3) roundRub_ge_int [OF _ k(1), of _ p] by auto
    next
      case PInf
      then show ?thesis using e by (simp add: x_def roundRub_def signed_inf_def)
    qed (use rnd_nonneg [of "of_int t"] k in \<open>auto simp: float_of_int_def round64_def Let_def overflow_bound_def split: if_splits\<close>)
    then show ?thesis using k(4) p(2) by simp
  qed
qed


lemma engine_inputs_current:
  assumes "0 < c" "c \<le> 10 ^ 7"
  shows "EffectivePriceRub (in_Current (ozon_engine_inputs (Fin c))) = round_away c"
    "0 \<le> round_away c" "round_away c \<le> 10 ^ 7"
proof -
  show r: "0 \<le> round_away c" "round_away c \<le> 10 ^ 7"
    using round_away_ge_int [of 0 c] round_away_le_int [of c "10 ^ 7"] assms by simp_all
  show "EffectivePriceRub (in_Current (ozon_engine_inputs (Fin c))) = round_away c"
    using r by (simp add: ozon_engine_inputs_def EffectivePriceRub_def ozon_zero_ProductPrice_def in_int64I)
qed

lemma engine_rule_cut:
  assumes c: "0 < c" "c \<le> 10 ^ 7" and f: "0 < f" "f \<le> 10 ^ 7" and st: "0 \<le> StepPercent params" "StepPercent params \<le> Fin 10"
    and cur: "in_Current inp = in_Current (ozon_engine_inputs (Fin c))" and econ: "pe_CostPrice (in_Economics inp) = None"
    and moves: "price_range inp (ozonEngineParams params (Fin f)) \<Longrightarrow> pd_ShouldChange d \<Longrightarrow>
      \<exists>dir t fl re. d = priceMove inp dir t fl re \<and> 0 < EffectivePriceRub (in_Current inp) \<and>
        (dir = ''up'' \<and> t > EffectivePriceRub (in_Current inp) \<or> dir = ''down'' \<and> t < EffectivePriceRub (in_Current inp) \<and> fl \<le> t)"
    and floor: "pd_ShouldChange d \<Longrightarrow> resolveFloor inp (MergedPriceParams (ozonEngineParams params (Fin f))) = (pd_MinPriceRub d, [])"
    and p: "od_ShouldChange (ozonDecisionFromEngine d (Fin f))" "od_NewPriceRub (ozonDecisionFromEngine d (Fin f)) = Fin p" "p < c"
  shows "f \<le> p"
proof -
  note e = engine_inputs_current [OF c]
  have ch: "pd_ShouldChange d" using p(1) by (simp add: ozonDecisionFromEngine_def no_decision_def split: if_splits)
  have "price_range inp (ozonEngineParams params (Fin f))"
    using e st by (simp add: price_range_def cur) (simp add: ozon_engine_inputs_def ozon_zero_ProductPrice_def)
  from moves [OF this ch] obtain dir t fl re where d: "d = priceMove inp dir t fl re"
    "t > round_away c \<or> t < round_away c \<and> fl \<le> t" unfolding cur e(1) by blast
  have "f \<le> of_int fl" using engine_floor [OF f econ floor [OF ch]] by (simp add: d(1) priceMove_def)
  then show ?thesis using from_engine_cut [OF c f _ d p(2,3)] by blast
qed

interpretation inventory_rule: ozon_rule "\<lambda>c f params. decideOzonInventoryDemand c f stock known sales params" for stock known sales
proof
  fix c f p :: rat and params
  assume a: "0 < c" "c \<le> 10 ^ 7" "0 < f" "f \<le> 10 ^ 7" "0 \<le> StepPercent params" "StepPercent params \<le> Fin 10"
    and d: "od_ShouldChange (decideOzonInventoryDemand (Fin c) (Fin f) stock known sales params)"
      "od_NewPriceRub (decideOzonInventoryDemand (Fin c) (Fin f) stock known sales params) = Fin p" "p < c"
  let ?inp = "(ozon_engine_inputs (Fin c))\<lparr>in_Stock := stock, in_StockKnown := known, in_SalesUnitsPerDay := sales\<rparr>"
  have e: "decideOzonInventoryDemand (Fin c) (Fin f) stock known sales params =
      ozonDecisionFromEngine (DecideInventoryDemand ?inp (ozonEngineParams params (Fin f))) (Fin f)"
    using a(1) by (simp add: decideOzonInventoryDemand_def)
  show "f \<le> p" by (rule engine_rule_cut [OF a _ _ inventory_demand.moves inventory_floor d [unfolded e]])
    (simp_all add: ozon_engine_inputs_def ozon_zero_ProductEconomics_def)
qed

interpretation ad_linked_rule: ozon_rule "\<lambda>c f params. decideOzonAdLinked c f drr spend fallback params" for drr spend fallback
proof
  fix c f p :: rat and params
  assume a: "0 < c" "c \<le> 10 ^ 7" "0 < f" "f \<le> 10 ^ 7" "0 \<le> StepPercent params" "StepPercent params \<le> Fin 10"
    and d: "od_ShouldChange (decideOzonAdLinked (Fin c) (Fin f) drr spend fallback params)"
      "od_NewPriceRub (decideOzonAdLinked (Fin c) (Fin f) drr spend fallback params) = Fin p" "p < c"
  let ?inp = "(ozon_engine_inputs (Fin c))\<lparr>in_DRR := drr, in_HasActiveCampaigns := True,
      in_Economics := ozon_zero_ProductEconomics\<lparr>pe_MaxAllowedDRR := fallback\<rparr>\<rparr>"
  have e: "decideOzonAdLinked (Fin c) (Fin f) drr spend fallback params =
      ozonDecisionFromEngine (DecideAdLinked ?inp (ozonEngineParams params (Fin f))) (Fin f)"
    using a(1) d(1) by (simp add: decideOzonAdLinked_def split: if_splits)
  show "f \<le> p" by (rule engine_rule_cut [OF a _ _ ad_linked.moves ad_linked_floor d [unfolded e]])
    (simp_all add: ozon_engine_inputs_def ozon_zero_ProductEconomics_def)
qed

interpretation peak_hours_rule: ozon_rule "\<lambda>c f params. decideOzonPeakHours c f intensity known params" for intensity known
proof
  fix c f p :: rat and params
  assume a: "0 < c" "c \<le> 10 ^ 7" "0 < f" "f \<le> 10 ^ 7" "0 \<le> StepPercent params" "StepPercent params \<le> Fin 10"
    and d: "od_ShouldChange (decideOzonPeakHours (Fin c) (Fin f) intensity known params)"
      "od_NewPriceRub (decideOzonPeakHours (Fin c) (Fin f) intensity known params) = Fin p" "p < c"
  have e: "decideOzonPeakHours (Fin c) (Fin f) intensity known params =
      ozonDecisionFromEngine (DecidePeakHours (ozon_engine_inputs (Fin c)) (ozonEngineParams params (Fin f)) intensity) (Fin f)"
    using a(1) d(1) by (simp add: decideOzonPeakHours_def split: if_splits)
  show "f \<le> p" by (rule engine_rule_cut [OF a _ _ peak_hours.moves peak_hours_floor d [unfolded e]])
    (simp_all add: ozon_engine_inputs_def ozon_zero_ProductEconomics_def)
qed

section \<open>Properties\<close>

text \<open>
  No rule lowers a price below the margin floor: whatever the type of the strategy and the demand, stock, advertising and
  competitor data, a change to less than the current price is not below the floor.
\<close>

lemma row_cut:
  assumes "row_decision strategy (MergedPriceParams (st_Params strategy)) row econ aux (Fin c) (Fin f) = Some d"
    and range: "0 < c" "c \<le> 10 ^ 7" "0 < f" "f \<le> 10 ^ 7" "0 \<le> StepPercent (st_Params strategy)" "StepPercent (st_Params strategy) \<le> Fin 10"
    and d: "od_ShouldChange d" "od_NewPriceRub d = Fin p" "p < c"
  shows "f \<le> p"
  using assms(1) margin_floor_rule.cut [OF range] competitor_rule.cut [OF range] inventory_rule.cut [OF range]
    ad_linked_rule.cut [OF range] peak_hours_rule.cut [OF range] d
  by (auto simp: row_decision_def Let_def split: if_splits prod.splits)

text \<open>
  C27 The floor covers the costs: with a known net price, what is left of the floor after commission and target margin is the net
  price and the acquiring fee, up to half a kopeck of the price, in exact arithmetic over the computed share \<open>dn\<close>.
\<close>

theorem floor_covers_costs:
  assumes "computeOzonFloor inp = (fl, [])" "fi_NetPriceRub inp = Fin n" "fi_AcquiringRub inp = Fin a" "floor_denom inp = Fin dn"
    and "1 / 100 \<le> n" "n + a \<le> 10 ^ 6" "dn \<le> 1"
  shows "\<exists>f. fl = Fin f \<and> \<bar>f * dn - (n + a)\<bar> \<le> 51 / 10 ^ 4 * dn"
proof -
  have a: "0 \<le> a" and d: "\<not> Fin dn < lit (5/100)" and fl: "fl = roundRub ((Fin n + Fin a) / Fin dn)"
    using assms by (auto simp: computeOzonFloor_def split: if_splits)
  have dn: "1 / 32 \<le> dn" using d unfolding lit_005 by (simp add: field_simps)
  have na: "1 / 100 \<le> n + a" "1 / 10 ^ 20 \<le> n + a" "n + a \<le> 10 ^ 15" using assms(5,6) a by simp_all
  obtain s where s: "round64 (n + a) = Fin s" "(n + a) * (1 - 1 / 10 ^ 15) \<le> s" "s \<le> (n + a) * (1 + 1 / 10 ^ 15)"
    using round64_near [OF na(2,3)] by metis
  have e1: "\<bar>s - (n + a)\<bar> \<le> 1 / 10 ^ 9" using s(2,3) na assms(6) by (intro abs_leI) (simp_all add: algebra_simps)
  have s1: "1 / 200 \<le> s" "s \<le> 2 * 10 ^ 6" using abs_le_D1 [OF e1] abs_le_D2 [OF e1] na(1) assms(6) by simp_all
  define w where "w = s / dn"
  have q: "s \<le> w" "w \<le> 32 * s" "w * dn = s" using dn assms(7) s1 by (simp_all add: w_def field_simps)
  have "1 / 10 ^ 20 \<le> w" "w \<le> 10 ^ 15" using q(1,2) s1 by simp_all
  then obtain z where z: "round64 w = Fin z" "w * (1 - 1 / 10 ^ 15) \<le> z" "z \<le> w * (1 + 1 / 10 ^ 15)"
    using round64_near by metis
  have e2: "\<bar>z - w\<bar> \<le> 1 / 10 ^ 7" using z(2,3) q(1,2) s1 by (intro abs_leI) (simp_all add: algebra_simps)
  have z1: "1 / 10 ^ 3 \<le> z" "z \<le> 10 ^ 8" using abs_le_D1 [OF e2] abs_le_D2 [OF e2] q(1,2) s1 by simp_all
  obtain f where f: "roundRub (Fin z) = Fin f" "\<bar>f - z\<bar> \<le> 50002 / 10 ^ 7" using roundRub_near [OF z1] by blast
  have "(Fin n + Fin a) / Fin dn = Fin z" using s(1) z(1) dn by (simp add: w_def)
  then have "fl = Fin f" using f(1) fl by simp
  moreover have "\<bar>f - w\<bar> \<le> 50003 / 10 ^ 7"
    using abs_le_D1 [OF f(2)] abs_le_D2 [OF f(2)] abs_le_D1 [OF e2] abs_le_D2 [OF e2] by (intro abs_leI) simp_all
  then have "\<bar>f - w\<bar> * dn \<le> 50003 / 10 ^ 7 * dn" using dn by (intro mult_right_mono) simp_all
  moreover have "f * dn - s = (f - w) * dn" using q(3) by (simp add: left_diff_distrib)
  then have "\<bar>f * dn - s\<bar> = \<bar>f - w\<bar> * dn" using dn by (simp add: abs_mult)
  ultimately have "\<bar>f * dn - s\<bar> \<le> 50003 / 10 ^ 7 * dn" "fl = Fin f" by simp_all
  then have "f * dn - s \<le> 50003 / 10 ^ 7 * dn" "s - f * dn \<le> 50003 / 10 ^ 7 * dn"
    using abs_le_D1 abs_le_D2 by fastforce+
  then have "\<bar>f * dn - (n + a)\<bar> \<le> 51 / 10 ^ 4 * dn"
    using abs_le_D1 [OF e1] abs_le_D2 [OF e1] dn by (intro abs_leI) simp_all
  then show ?thesis using \<open>fl = Fin f\<close> by blast
qed

definition wit_floor_inputs :: ozonFloorInputs where
  "wit_floor_inputs = \<lparr>fi_NetPriceRub = Fin 600, fi_CommissionFBOPct = Fin 20, fi_CommissionFBSPct = Fin 25, fi_AcquiringRub = Fin 10,
     fi_TargetMarginPercent = Fin 25, fi_CurrentPriceRub = Fin 1000, fi_MaxDiscountPercent = Fin 0\<rparr>"

lemma wit_floor: "floor_denom wit_floor_inputs = Fin (1/2)" "computeOzonFloor wit_floor_inputs = (Fin 1220, [])"
proof -
  show d: "floor_denom wit_floor_inputs = Fin (1/2)" by (simp add: floor_denom_def wit_floor_inputs_def f64_defs f64_eval rnd_eval go_eval)
  show "computeOzonFloor wit_floor_inputs = (Fin 1220, [])"
    unfolding computeOzonFloor_def d by (simp add: wit_floor_inputs_def lit_005 roundRub_def f64_defs f64_eval rnd_eval go_eval)
qed

theorem floor_covers_costs_witness:
  "computeOzonFloor wit_floor_inputs = (Fin 1220, []) \<and> \<bar>1220 * (1/2) - (600 + 10)\<bar> \<le> 51 / 10 ^ 4 * (1/2 :: rat)"
  using floor_covers_costs [OF wit_floor(2) _ _ wit_floor(1)] wit_floor(2) by (simp add: wit_floor_inputs_def)

definition wit_ozon_strategy :: Strategy where
  "wit_ozon_strategy = \<lparr>st_ID = 3, st_WorkspaceID = 1, st_SellerCabinetID = 7, st_Name = ''o'', st_Type = StrategyTypeOzonPriceCompetitorFollow,
     st_Params = zero_StrategyParams\<lparr>StepPercent := Fin 5, UndercutPercent := Fin 10, MaxPriceRub := Some 120\<rparr>, st_IsActive = True, st_Bindings = []\<rparr>"

definition wit_row :: ozon_price_row where
  "wit_row = \<lparr>ozp_SellerCabinetID = 7, ozp_Sku = 5, ozp_PriceRub = Some 1000, ozp_NetPriceRub = Some 600, ozp_CommissionFboPct = Some 20,
     ozp_CommissionFbsPct = Some 25, ozp_AcquiringPct = Some 10, opr_OfferID = Some ''a'', opr_OldPriceRub = None, opr_MinPriceRub = None,
     opr_SyncedAt = Some 100, opr_OzonIndexMinPriceRub = Some 700, opr_ExternalIndexMinPriceRub = None\<rparr>"

lemma stock_raise_parts:
  defines "params \<equiv> st_Params wit_ozon_strategy"
  defines "inp \<equiv> (ozon_engine_inputs (Fin 100))\<lparr>in_Stock := 1, in_StockKnown := True, in_SalesUnitsPerDay := Fin 10\<rparr>"
  shows "ozonEngineParams params (Fin 450) = params\<lparr>MinPriceRub := Some 450\<rparr>" "EffectivePriceRub (in_Current inp) = 100"
    "resolveFloor inp (MergedPriceParams (params\<lparr>MinPriceRub := Some 450\<rparr>)) = (450, [])" "scale_price 100 (Fin 1 + Fin 5 / Fin 100) = 105"
    "roundRub (Fin 450) = Fin 450" "float_of_int 1 / Fin 10 = Fin (3602879701896397 / 36028797018963968)"
  by (simp_all add: params_def inp_def ozonEngineParams_def wit_ozon_strategy_def ozon_engine_inputs_def ozon_zero_ProductPrice_def ozon_zero_ProductEconomics_def
      roundRub_def price_wit_defs)

lemma stock_raise_engine:
  defines "params \<equiv> st_Params wit_ozon_strategy"
  defines "inp \<equiv> (ozon_engine_inputs (Fin 100))\<lparr>in_Stock := 1, in_StockKnown := True, in_SalesUnitsPerDay := Fin 10\<rparr>"
  shows "\<exists>r. DecideInventoryDemand inp (params\<lparr>MinPriceRub := Some 450\<rparr>) = priceMove inp ''up'' 105 450 r"
proof -
  have p: "StepPercent (MergedPriceParams (params\<lparr>MinPriceRub := Some 450\<rparr>)) = Fin 5" "LowStockDays params = 0"
    "OverstockDays params = 0" "MaxPriceRub params = Some 120"
    by (simp_all add: params_def wit_ozon_strategy_def price_wit_defs)
  have i: "in_Stock inp = 1" "in_StockKnown inp" "in_SalesUnitsPerDay inp = Fin 10" by (simp_all add: inp_def)
  show ?thesis
    using stock_raise_parts(2-4,6) [folded params_def inp_def]
    by (simp add: DecideInventoryDemand_def Let_def p i dflt_i_def zero_f64_def priceMove_inject)
qed

text \<open>
  A raise of the stock rule leaves its own limits: with low stock and a floor far above the price, the engine's raise by one
  step is lifted to the floor, here from 100 to 450 rubles with a step of five percent and a maximum of 120. The margin-floor rule
  refuses the same floor as suspicious.
\<close>

theorem stock_raise_jumps_to_floor:
  "od_ShouldChange (decideOzonInventoryDemand (Fin 100) (Fin 450) 1 True (Fin 10) (st_Params wit_ozon_strategy)) \<and>
   od_NewPriceRub (decideOzonInventoryDemand (Fin 100) (Fin 450) 1 True (Fin 10) (st_Params wit_ozon_strategy)) = Fin 450 \<and>
   MaxPriceRub (st_Params wit_ozon_strategy) = Some 120 \<and> StepPercent (st_Params wit_ozon_strategy) = Fin 5 \<and>
   od_SkipReason (decideOzonMarginFloor (Fin 100) (Fin 450)) = ''floor_suspicious''"
proof -
  obtain r where r: "DecideInventoryDemand ((ozon_engine_inputs (Fin 100))\<lparr>in_Stock := 1, in_StockKnown := True, in_SalesUnitsPerDay := Fin 10\<rparr>)
      ((st_Params wit_ozon_strategy)\<lparr>MinPriceRub := Some 450\<rparr>) =
    priceMove ((ozon_engine_inputs (Fin 100))\<lparr>in_Stock := 1, in_StockKnown := True, in_SalesUnitsPerDay := Fin 10\<rparr>) ''up'' 105 450 r"
    using stock_raise_engine by blast
  have "decideOzonInventoryDemand (Fin 100) (Fin 450) 1 True (Fin 10) (st_Params wit_ozon_strategy) =
      no_decision\<lparr>od_ShouldChange := True, od_NewPriceRub := Fin 450, od_FloorRub := Fin 450, od_Direction := ''up'', od_Reason := r\<rparr>"
    by (simp add: decideOzonInventoryDemand_def stock_raise_parts(1,5) r ozonDecisionFromEngine_def no_decision_def Let_def) (simp add: priceMove_def)
  moreover have "od_SkipReason (decideOzonMarginFloor (Fin 100) (Fin 450)) = ''floor_suspicious''"
    by (simp add: decideOzonMarginFloor_def ozonSkip_def no_decision_def f64_defs f64_eval rnd_eval go_eval)
  ultimately show ?thesis by (simp add: wit_ozon_strategy_def)
qed

end
