(* ===== verification/Bid_Engine.thy ===== *)
theory Bid_Engine
  imports Strategy_Params
begin

text \<open>
  The bid engine of \<^verbatim>\<open>internal/service/bidengine.go\<close>: the five bid calculations, the
  change and corridor limits, the increase guardrails and \<^verbatim>\<open>CalculateBid\<close>, which
  composes them. The clock and the time-zone database are parameters: \<open>tnow\<close> is
  \<^verbatim>\<open>time.Now()\<close>, \<open>loc tz\<close> is \<^verbatim>\<open>time.LoadLocation(tz)\<close> as the function that gives the
  hour and the weekday of an instant, \<open>None\<close> when the zone is unknown.
  Logging has no effect on the result and is left out.
\<close>

named_theorems bid_defs \<open>definitions of the bid engine, for evaluation\<close>

section \<open>Data\<close>

record BidIncreaseGuardrail =
  gr_Allowed :: bool
  gr_Reason :: string
  gr_MaxAllowedDRRPercent :: f64
  gr_MaxAllowedCPO :: f64
  gr_BuyerPrice :: f64

record BidContext =
  CurrentBid :: int
  Impressions :: int
  Clicks :: int
  Spend :: f64
  Revenue :: f64
  Orders :: int
  Placement :: string
  IncreaseGuardrail :: "BidIncreaseGuardrail option"
  AvgPosition :: f64
  HasPosition :: bool
  PrevImpressions :: int
  BuyerPrice :: f64
  DaypartingBaselineBid :: int
  DaypartingSlotApplied :: bool
  DecisionTime :: "int option"

record BidDecision =
  bd_CampaignID :: uuid
  bd_ProductID :: "uuid option"
  bd_PhraseID :: "uuid option"
  bd_Placement :: string
  bd_OldBid :: int
  bd_NewBid :: int
  bd_Reason :: string
  bd_ACoS :: "f64 option"
  bd_ROAS :: "f64 option"

type_synonym location = "int \<Rightarrow> int \<times> int"

definition minOrdersForProfitSafeIncrease :: int where "minOrdersForProfitSafeIncrease = 3"
definition profitSafeCPOFactor :: f64 where "profitSafeCPOFactor = lit (9/10)"
definition bidIncreaseMinRating :: f64 where "bidIncreaseMinRating = lit (42/10)"
definition bidIncreaseMinReviewsCount :: int where "bidIncreaseMinReviewsCount = 10"

text \<open>The two columns of \<^verbatim>\<open>sqlcgen.Product\<close> that the reputation rule reads.\<close>

definition productReputationBidIncreaseBlockReason :: "f64 option \<Rightarrow> int option \<Rightarrow> string" where
  "productReputationBidIncreaseBlockReason rating reviews =
     (if some_and (\<lambda>r. r > 0 \<and> r < bidIncreaseMinRating) rating then
        ''real product rating '' @ fmt_f 1 (the rating) @ '' is below '' @ fmt_f 1 bidIncreaseMinRating
          @ ''; increase is blocked''
      else if some_and (\<lambda>n. n \<ge> 0 \<and> n < bidIncreaseMinReviewsCount) reviews then
        ''real product reviews count '' @ fmt_d (the reviews) @ '' is below ''
          @ fmt_d bidIncreaseMinReviewsCount @ ''; increase is blocked''
      else [])"

text \<open>\<^verbatim>\<open>int(math.Round(float64(bid) * ratio))\<close>\<close>

definition scale_bid :: "int \<Rightarrow> f64 \<Rightarrow> int" where
  "scale_bid bid ratio = int_of_float (math_Round (float_of_int bid * ratio))"

section \<open>Bid calculations\<close>

definition calculateACoSBid :: "StrategyParams \<Rightarrow> BidContext \<Rightarrow> int \<times> string \<times> f64 option" where
  "calculateACoSBid params ctx =
     (if Clicks ctx < MinClicks params then (0, [], None)
      else if feq (Revenue ctx) 0 then (0, [], None)
      else
        let currentACoS = Spend ctx / Revenue ctx * Fin 100;
            targetACoS = TargetACoS params
        in if feq targetACoS 0 then (0, [], None)
           else if currentACoS > targetACoS then
             (let ratio = targetACoS / currentACoS
              in (scale_bid (CurrentBid ctx) ratio,
                  ''ACoS '' @ fmt_f 1 currentACoS @ ''% > target '' @ fmt_f 1 targetACoS
                    @ ''%, reducing bid by ratio '' @ fmt_f 2 ratio,
                  Some currentACoS))
           else if currentACoS < targetACoS * lit (8/10) then
             (let ratio0 = targetACoS / currentACoS;
                  ratio = (if ratio0 > lit (13/10) then lit (13/10) else ratio0)
              in (scale_bid (CurrentBid ctx) ratio,
                  ''ACoS '' @ fmt_f 1 currentACoS @ ''% well below target '' @ fmt_f 1 targetACoS
                    @ ''%, increasing bid by ratio '' @ fmt_f 2 ratio,
                  Some currentACoS))
           else (0, [], None))"

definition calculateROASBid :: "StrategyParams \<Rightarrow> BidContext \<Rightarrow> int \<times> string \<times> f64 option" where
  "calculateROASBid params ctx =
     (if Clicks ctx < MinClicks params then (0, [], None)
      else if feq (Spend ctx) 0 then (0, [], None)
      else
        let currentROAS = Revenue ctx / Spend ctx;
            targetROAS = TargetROAS params
        in if feq targetROAS 0 then (0, [], None)
           else if currentROAS < targetROAS then
             (let ratio = currentROAS / targetROAS
              in (scale_bid (CurrentBid ctx) ratio,
                  ''ROAS '' @ fmt_f 2 currentROAS @ '' < target '' @ fmt_f 2 targetROAS
                    @ '', reducing bid by ratio '' @ fmt_f 2 ratio,
                  Some currentROAS))
           else if currentROAS > targetROAS * lit (12/10) then
             (let ratio0 = currentROAS / targetROAS;
                  ratio = (if ratio0 > lit (13/10) then lit (13/10) else ratio0)
              in (scale_bid (CurrentBid ctx) ratio,
                  ''ROAS '' @ fmt_f 2 currentROAS @ '' exceeds target '' @ fmt_f 2 targetROAS
                    @ '' by 20%+, increasing bid by ratio '' @ fmt_f 2 ratio,
                  Some currentROAS))
           else (0, [], None))"

definition defaultTargetPositionForTier :: "string \<Rightarrow> f64" where
  "defaultTargetPositionForTier tier =
     (if tier = ''high'' then Fin 4 else if tier = ''mid'' then Fin 3
      else if tier = ''low'' then Fin 1 else 0)"

text \<open>The four rules of the search playbook in the source's order; \<open>(0, [])\<close> holds the bid.\<close>

definition sacrificial_cap :: "StrategyParams \<Rightarrow> BidContext \<Rightarrow> f64" where
  "sacrificial_cap params ctx =
     (if SacrificialSpendPricePct params > 0 \<and> BuyerPrice ctx > 0
      then BuyerPrice ctx * SacrificialSpendPricePct params / Fin 100 else 0)"

text \<open>Rule 2, the profitability ceiling: \<open>Some\<close> when it returns a reduction.\<close>

definition playbook_rule2 :: "StrategyParams \<Rightarrow> BidContext \<Rightarrow> (int \<times> string) option" where
  "playbook_rule2 params ctx =
     (let ceiling = MaxACoS params in
      if ceiling > 0 \<and> Orders ctx > 0 then
        (if Revenue ctx > 0 then
           (let drr = Spend ctx / Revenue ctx * Fin 100
            in if drr > ceiling then
                 Some (scale_bid (CurrentBid ctx) (ceiling / drr),
                       ''DRR '' @ fmt_f 1 drr @ ''% > ceiling '' @ fmt_f 1 ceiling
                         @ ''%, reducing bid toward target'')
               else None)
         else if BuyerPrice ctx > 0 then
           (let currentCPO = Spend ctx / float_of_int (Orders ctx);
                maxCPO = BuyerPrice ctx * ceiling / Fin 100
            in if currentCPO > maxCPO then
                 Some (scale_bid (CurrentBid ctx) (maxCPO / currentCPO),
                       ''CPO '' @ fmt_f 1 currentCPO @ '' > ceiling '' @ fmt_f 1 maxCPO
                         @ '' from buyer price and DRR '' @ fmt_f 1 ceiling
                         @ ''%, reducing bid toward target'')
               else None)
         else None)
      else None)"

definition calculateSearchPlaybookBid :: "StrategyParams \<Rightarrow> BidContext \<Rightarrow> int \<times> string" where
  "calculateSearchPlaybookBid params ctx =
     (if \<not> HasPosition ctx \<or> Impressions ctx = 0 then (0, [])
      else
        let target = (if feq (TargetPosition params) 0
                      then defaultTargetPositionForTier (FrequencyTier params)
                      else TargetPosition params)
        in if target \<le> 0 then (0, [])
           else
             let sacrificialCap = sacrificial_cap params ctx
             in if sacrificialCap > 0 \<and> Orders ctx = 0 \<and> Spend ctx \<ge> sacrificialCap then
                  (scale_bid (CurrentBid ctx) (lit (7/10)),
                   ''sacrificial cap: spend '' @ fmt_f 0 (Spend ctx) @ '' '' @ sym_ge @ '' ''
                     @ fmt_f 0 (SacrificialSpendPricePct params) @ ''% of buyer price ''
                     @ fmt_f 0 (BuyerPrice ctx) @ '' with 0 orders, cutting bid'')
                else
                  (case playbook_rule2 params ctx of
                     Some r \<Rightarrow> r
                   | None \<Rightarrow>
                     if AvgPosition ctx > target then
                       (if Orders ctx = 0 \<and> sacrificialCap > 0 \<and> Spend ctx \<ge> sacrificialCap * lit (7/10)
                        then (0, [])
                        else
                          let step = (if MaxChangePercent params \<le> 0 then Fin 15 else MaxChangePercent params)
                          in (scale_bid (CurrentBid ctx) (Fin 1 + step / Fin 100),
                              ''avg position '' @ fmt_f 1 (AvgPosition ctx) @ '' worse than target ''
                                @ fmt_f 1 target @ '', raising bid to climb''))
                     else if FlatImpressionsPct params > 0 \<and> RollbackStepPercent params > 0
                             \<and> PrevImpressions ctx > 0 then
                       (let prev = float_of_int (PrevImpressions ctx);
                            growth = (float_of_int (Impressions ctx) - prev) / prev * Fin 100
                        in if \<bar>growth\<bar> \<le> FlatImpressionsPct params then
                             (scale_bid (CurrentBid ctx) (Fin 1 - RollbackStepPercent params / Fin 100),
                              ''at target (pos '' @ fmt_f 1 (AvgPosition ctx)
                                @ ''), impressions flat within '' @ fmt_f 0 (FlatImpressionsPct params)
                                @ ''% '' @ sym_emdash @ '' pulling back ''
                                @ fmt_f 0 (RollbackStepPercent params) @ ''% to hold cheaper'')
                           else (0, []))
                     else (0, [])))"

definition calculateAntiSlivBid :: "StrategyParams \<Rightarrow> BidContext \<Rightarrow> int \<times> string \<times> f64 option" where
  "calculateAntiSlivBid params ctx =
     (let maxACoS = MaxACoS params in
      if feq maxACoS 0 then (0, [], None)
      else if feq (Revenue ctx) 0 \<and> Clicks ctx > 0 then
        (let reduction = (if Clicks ctx > 50 then lit (15/100)
                          else if Clicks ctx > 20 then lit (3/10) else lit (5/10))
         in (scale_bid (CurrentBid ctx) reduction,
             ''Anti-Sliv: '' @ fmt_d (Clicks ctx) @ '' clicks with zero revenue, reducing bid to ''
               @ fmt_f 0 (reduction * Fin 100) @ ''%'',
             None))
      else if feq (Revenue ctx) 0 then (0, [], None)
      else
        let currentACoS = Spend ctx / Revenue ctx * Fin 100
        in if currentACoS > maxACoS then
             (let ratio0 = maxACoS / currentACoS;
                  ratio = (if ratio0 < lit (2/10) then lit (2/10) else ratio0)
              in (scale_bid (CurrentBid ctx) ratio,
                  ''Anti-Sliv: ACoS '' @ fmt_f 1 currentACoS @ ''% > max '' @ fmt_f 1 maxACoS
                    @ ''%, emergency bid reduction ratio '' @ fmt_f 2 ratio,
                  Some currentACoS))
           else (0, [], None))"

definition calculateDaypartingBid ::
  "(string \<Rightarrow> location option) \<Rightarrow> int \<Rightarrow> StrategyParams \<Rightarrow> BidContext \<Rightarrow> int \<times> string" where
  "calculateDaypartingBid loc tnow params ctx =
     (if DaypartingSlotApplied ctx then (0, [])
      else
        let now = (case DecisionTime ctx of None \<Rightarrow> tnow | Some t \<Rightarrow> t);
            timezone = (if TrimSpace (Timezone params) = [] then ''Europe/Moscow''
                        else TrimSpace (Timezone params))
        in case loc timezone of
             None \<Rightarrow> (0, [])
           | Some location \<Rightarrow>
             let hour = fmt_d (fst (location now));
                 weekday = fmt_d (snd (location now));
                 m0 = BaseMultiplier params;
                 m1 = (case map_of (HourlyMultipliers params) hour of None \<Rightarrow> m0 | Some h \<Rightarrow> m0 * h);
                 multiplier = (case map_of (WeekdayMultipliers params) weekday of
                                 None \<Rightarrow> m1 | Some w \<Rightarrow> m1 * w);
                 baseline = (if DaypartingBaselineBid ctx \<le> 0 then CurrentBid ctx
                             else DaypartingBaselineBid ctx);
                 newBid = scale_bid baseline multiplier
             in if newBid = CurrentBid ctx then (0, [])
                else (newBid,
                      ''Dayparting: timezone='' @ timezone @ '' hour='' @ hour @ '' weekday='' @ weekday
                        @ '' baseline='' @ fmt_d baseline @ '' multiplier='' @ fmt_f 2 multiplier))"

section \<open>Limits\<close>

definition max_delta :: "int \<Rightarrow> f64 \<Rightarrow> int" where
  "max_delta oldBid maxChangePercent =
     int_of_float (math_Ceil (float_of_int oldBid * maxChangePercent / Fin 100))"

definition limitChange :: "int \<Rightarrow> int \<Rightarrow> f64 \<Rightarrow> int" where
  "limitChange oldBid newBid maxChangePercent =
     (if maxChangePercent \<le> 0 \<or> oldBid = 0 then newBid
      else
        let maxDelta = max_delta oldBid maxChangePercent;
            delta = wrap64 (newBid - oldBid)
        in if delta > maxDelta then wrap64 (oldBid + maxDelta)
           else if delta < wrap64 (- maxDelta) then wrap64 (oldBid - maxDelta)
           else newBid)"

fun join_notes :: "string list \<Rightarrow> string" where
  "join_notes [] = []"
| "join_notes [n] = n"
| "join_notes (n # ns) = n @ ''; '' @ join_notes ns"

definition note_reason :: "int \<Rightarrow> string \<Rightarrow> string list \<Rightarrow> int \<times> string" where
  "note_reason limitedBid reason notes =
     (if notes = [] then (limitedBid, reason)
      else if reason = [] then (limitedBid, ''Bid limits: '' @ join_notes notes)
      else (limitedBid, reason @ ''; limits: '' @ join_notes notes))"

definition applyBidDecisionLimits :: "int \<Rightarrow> int \<Rightarrow> string \<Rightarrow> StrategyParams \<Rightarrow> int \<times> string" where
  "applyBidDecisionLimits oldBid calculatedBid reason params =
     (let pct = MaxChangePercent params;
          bid1 = limitChange oldBid calculatedBid pct;
          notes1 = (if bid1 \<noteq> calculatedBid then [''max_change_percent '' @ fmt_f 1 pct @ '' applied''] else [])
      in if MinBid params > 0 \<and> bid1 < MinBid params
            \<and> limitChange oldBid (MinBid params) pct \<noteq> MinBid params then
           (oldBid, reason @ ''; action held: min_bid '' @ fmt_d (MinBid params)
              @ '' requires a step beyond max_change_percent '' @ fmt_f 1 pct)
         else
           let (bid2, notes2) =
                 (if MinBid params > 0 \<and> bid1 < MinBid params
                  then (MinBid params, notes1 @ [''min_bid '' @ fmt_d (MinBid params) @ '' applied''])
                  else (bid1, notes1))
           in if MaxBid params > 0 \<and> bid2 > MaxBid params
                 \<and> limitChange oldBid (MaxBid params) pct \<noteq> MaxBid params then
                (oldBid, reason @ ''; action held: max_bid '' @ fmt_d (MaxBid params)
                   @ '' requires a step beyond max_change_percent '' @ fmt_f 1 pct)
              else
                let (bid3, notes3) =
                      (if MaxBid params > 0 \<and> bid2 > MaxBid params
                       then (MaxBid params, notes2 @ [''max_bid '' @ fmt_d (MaxBid params) @ '' applied''])
                       else (bid2, notes2))
                in note_reason bid3 reason notes3)"

section \<open>Increase guardrails\<close>

definition economicsIncreaseGuardrailReason :: "StrategyParams \<Rightarrow> BidContext \<Rightarrow> int \<Rightarrow> string" where
  "economicsIncreaseGuardrailReason params ctx proposedBid =
     (case IncreaseGuardrail ctx of
        None \<Rightarrow> []
      | Some g \<Rightarrow>
        if Revenue ctx \<le> 0 then
          let ceiling = gr_MaxAllowedCPO g in
          if ceiling \<le> 0 then ''unit economics CPO ceiling is unavailable''
          else if Orders ctx < minOrdersForProfitSafeIncrease then
            ''at least '' @ fmt_d minOrdersForProfitSafeIncrease
              @ '' attributed orders are required for a profit-safe increase''
          else if Clicks ctx < MinClicks params then
            ''at least '' @ fmt_d (MinClicks params) @ '' clicks are required for a profit-safe increase''
          else
            let currentCPO = Spend ctx / float_of_int (Orders ctx);
                projectedCPO = (if CurrentBid ctx > 0 \<and> proposedBid > CurrentBid ctx
                                then currentCPO * (float_of_int proposedBid / float_of_int (CurrentBid ctx))
                                else currentCPO);
                safeCeiling = ceiling * profitSafeCPOFactor
            in if projectedCPO \<ge> safeCeiling then
                 ''projected CPO '' @ fmt_f 2 projectedCPO @ '' is at or above safe ceiling ''
                   @ fmt_f 2 safeCeiling @ '' (90% of unit economics break-even '' @ fmt_f 2 ceiling @ '')''
               else []
        else if gr_MaxAllowedDRRPercent g \<le> 0 then ''unit economics DRR ceiling is unavailable''
        else
          let ceiling = gr_MaxAllowedDRRPercent g;
              currentDRR = Spend ctx / Revenue ctx * Fin 100
          in if currentDRR \<ge> ceiling then
               ''current DRR '' @ fmt_f 1 currentDRR @ ''% is at or above unit economics ceiling ''
                 @ fmt_f 1 ceiling @ ''%''
             else if TargetACoS params > 0 \<and> TargetACoS params > ceiling then
               ''target ACoS '' @ fmt_f 1 (TargetACoS params) @ ''% exceeds unit economics ceiling ''
                 @ fmt_f 1 ceiling @ ''%''
             else if TargetROAS params > 0 then
               (let minimumROAS = Fin 100 / ceiling
                in if TargetROAS params < minimumROAS then
                     ''target ROAS '' @ fmt_f 2 (TargetROAS params)
                       @ '' is below unit economics break-even '' @ fmt_f 2 minimumROAS
                   else [])
             else [])"

definition maxACoSIncreaseGuardrailReason :: "StrategyParams \<Rightarrow> BidContext \<Rightarrow> string" where
  "maxACoSIncreaseGuardrailReason params ctx =
     (if MaxACoS params \<le> 0 \<or> Revenue ctx \<le> 0 then []
      else
        let currentACoS = Spend ctx / Revenue ctx * Fin 100
        in if currentACoS < MaxACoS params then []
           else ''current ACoS '' @ fmt_f 1 currentACoS @ ''% is at or above max_acos ''
                  @ fmt_f 1 (MaxACoS params) @ ''%'')"

definition maxCostIncreaseGuardrailReason :: "StrategyParams \<Rightarrow> BidContext \<Rightarrow> string" where
  "maxCostIncreaseGuardrailReason params ctx =
     (let cpcReason =
            (if MaxCPC params > 0 then
               (if Clicks ctx \<le> 0 then ''current CPC evidence is unavailable while max_cpc is configured''
                else
                  let cpc = Spend ctx / float_of_int (Clicks ctx)
                  in if cpc \<ge> MaxCPC params then
                       ''current CPC '' @ fmt_f 2 cpc @ '' is at or above max_cpc '' @ fmt_f 2 (MaxCPC params)
                     else [])
             else [])
      in if cpcReason \<noteq> [] then cpcReason
         else if MaxCPO params > 0 then
           (if Orders ctx \<le> 0 then ''current CPO evidence is unavailable while max_cpo is configured''
            else
              let cpo = Spend ctx / float_of_int (Orders ctx)
              in if cpo \<ge> MaxCPO params then
                   ''current CPO '' @ fmt_f 2 cpo @ '' is at or above max_cpo '' @ fmt_f 2 (MaxCPO params)
                 else [])
         else [])"

section \<open>CalculateBid\<close>

text \<open>The switch on the strategy type: \<open>None\<close> is the default branch.\<close>

definition raw_bid ::
  "(string \<Rightarrow> location option) \<Rightarrow> int \<Rightarrow> string \<Rightarrow> StrategyParams \<Rightarrow> BidContext
     \<Rightarrow> (int \<times> string \<times> f64 option \<times> f64 option) option" where
  "raw_bid loc tnow ty params ctx =
     (if ty = StrategyTypeACoS then
        (case calculateACoSBid params ctx of (b, r, a) \<Rightarrow> Some (b, r, a, None))
      else if ty = StrategyTypeROAS then
        (case calculateROASBid params ctx of (b, r, a) \<Rightarrow> Some (b, r, None, a))
      else if ty = StrategyTypeAntiSliv then
        (case calculateAntiSlivBid params ctx of (b, r, a) \<Rightarrow> Some (b, r, a, None))
      else if ty = StrategyTypeDayparting then
        (case calculateDaypartingBid loc tnow params ctx of (b, r) \<Rightarrow> Some (b, r, None, None))
      else if ty = StrategyTypeSearchPlaybook then
        (case calculateSearchPlaybookBid params ctx of (b, r) \<Rightarrow> Some (b, r, None, None))
      else if ty = StrategyTypeOzonCPCTargetDRR then
        (case calculateACoSBid params ctx of (b, r, a) \<Rightarrow> Some (b, r, a, None))
      else None)"

definition increase_blocked :: "StrategyParams \<Rightarrow> BidContext \<Rightarrow> int \<Rightarrow> bool" where
  "increase_blocked params ctx newBid \<longleftrightarrow>
     newBid > CurrentBid ctx \<and>
     (economicsIncreaseGuardrailReason params ctx newBid \<noteq> [] \<or>
      maxACoSIncreaseGuardrailReason params ctx \<noteq> [] \<or>
      maxCostIncreaseGuardrailReason params ctx \<noteq> [] \<or>
      some_and (\<lambda>g. \<not> gr_Allowed g) (IncreaseGuardrail ctx))"

definition CalculateBid ::
  "(string \<Rightarrow> location option) \<Rightarrow> int \<Rightarrow> Strategy \<Rightarrow> BidContext \<Rightarrow> BidDecision option" where
  "CalculateBid loc tnow strategy ctx =
     (let params = Merged (st_Params strategy) in
      if CurrentBid ctx = 0 then None
      else
        case raw_bid loc tnow (st_Type strategy) params ctx of
          None \<Rightarrow> None
        | Some (rawBid, rawReason, acos, roas) \<Rightarrow>
          if rawBid = 0 \<or> rawBid = CurrentBid ctx then None
          else
            let (newBid, reason) = applyBidDecisionLimits (CurrentBid ctx) rawBid rawReason params
            in if newBid = CurrentBid ctx then None
               else if increase_blocked params ctx newBid then None
               else Some \<lparr>bd_CampaignID = uuid_Nil, bd_ProductID = None, bd_PhraseID = None,
                          bd_Placement = Placement ctx, bd_OldBid = CurrentBid ctx, bd_NewBid = newBid,
                          bd_Reason = reason, bd_ACoS = acos, bd_ROAS = roas\<rparr>)"

lemmas bid_engine_defs [bid_defs] =
  calculateACoSBid_def calculateROASBid_def calculateAntiSlivBid_def calculateDaypartingBid_def
  calculateSearchPlaybookBid_def sacrificial_cap_def playbook_rule2_def defaultTargetPositionForTier_def
  scale_bid_def max_delta_def limitChange_def applyBidDecisionLimits_def note_reason_def
  economicsIncreaseGuardrailReason_def maxACoSIncreaseGuardrailReason_def
  maxCostIncreaseGuardrailReason_def raw_bid_def increase_blocked_def CalculateBid_def
  minOrdersForProfitSafeIncrease_def profitSafeCPOFactor_def

section \<open>Bounds of one step\<close>

lemma fst_note_reason [simp]: "fst (note_reason b r ns) = b"
  by (simp add: note_reason_def)

lemma scale_bid_range: "in_int64 (scale_bid b r)"
  by (simp add: scale_bid_def int_of_float_range)

lemma max_delta_bounds:
  assumes "0 < old" "old \<le> 2 ^ 53" "0 \<le> p" "of_int old * p \<le> of_int (100 * n)" "100 * n \<le> 2 ^ 53"
  shows "0 \<le> max_delta old (Fin p)" and "max_delta old (Fin p) \<le> n"
proof -
  have n: "0 \<le> n" using assms(1,3,4)
    by (metis (no_types, opaque_lifting) less_imp_le mult_nonneg_nonneg of_int_0_le_iff order_trans
        zero_le_mult_iff zero_less_numeral not_numeral_le_zero)
  from assms(1,3) have "of_int 0 \<le> of_int old * p" by simp
  then obtain r1 where r1: "round64 (of_int old * p) = Fin r1" "of_int 0 \<le> r1" "r1 \<le> of_int (100 * n)"
    using round64_between [of 0 "of_int old * p" "100 * n"] assms(4,5) by auto
  then have "of_int 0 \<le> r1 / 100" "r1 / 100 \<le> of_int n" by simp_all
  then obtain r2 where r2: "round64 (r1 / 100) = Fin r2" "of_int 0 \<le> r2" "r2 \<le> of_int n"
    using round64_between [of 0 "r1 / 100" n] n assms(5) by auto
  have c: "0 \<le> \<lceil>r2\<rceil>" "\<lceil>r2\<rceil> \<le> n" using r2 by (simp_all add: ceiling_le_iff)
  moreover have "in_int64 \<lceil>r2\<rceil>" using c n assms(5) [simplified] by (intro in_int64I) linarith+
  moreover have "float_of_int old = Fin (of_int old)" using assms(1,2) by simp
  ultimately have "max_delta old (Fin p) = \<lceil>r2\<rceil>"
    using r1 r2 by (simp add: max_delta_def)
  with c show "0 \<le> max_delta old (Fin p)" and "max_delta old (Fin p) \<le> n" by simp_all
qed

lemma limitChange_step:
  assumes "0 < old" "old \<le> 2 ^ 53" "in_int64 new" "\<not> pct \<le> 0"
    and "0 \<le> max_delta old pct" "max_delta old pct \<le> 2 ^ 53"
  shows "\<bar>limitChange old new pct - old\<bar> \<le> max_delta old pct"
proof -
  let ?m = "max_delta old pct"
  have s: "wrap64 (old + ?m) = old + ?m" "wrap64 (old - ?m) = old - ?m" "wrap64 (- ?m) = - ?m"
    using assms by (auto intro!: wrap64_id in_int64I)
  show ?thesis
  proof (cases "in_int64 (new - old)")
    case True
    then have "wrap64 (new - old) = new - old" by (rule wrap64_id)
    with assms s show ?thesis by (auto simp: limitChange_def Let_def)
  next
    case False
    with assms(1-3) have "new - old < -9223372036854775808"
      by (auto simp: in_int64_def int64_min_def int64_max_def)
    moreover from assms(1-3) have "-27670116110564327424 \<le> new - old"
      by (simp add: in_int64_def int64_min_def int64_max_def)
    ultimately have "wrap64 (new - old) = new - old + 18446744073709551616"
      by (rule wrap64_below)
    with assms(1-3,5,6) have "wrap64 (new - old) > ?m"
      by (simp add: in_int64_def int64_min_def int64_max_def)
    with assms s show ?thesis by (auto simp: limitChange_def Let_def)
  qed
qed

text \<open>
  A step that the limits let through is one of the limited calculation and the two bounds, and each
  of these is within the change limit of the current bid.
\<close>

lemma limits_change:
  assumes "0 < old" "old \<le> 2 ^ 53" "in_int64 calc" "\<not> MaxChangePercent p \<le> 0"
    and "in_int64 (MinBid p)" "in_int64 (MaxBid p)"
    and "0 \<le> max_delta old (MaxChangePercent p)" "max_delta old (MaxChangePercent p) \<le> 2 ^ 53"
  shows "\<bar>fst (applyBidDecisionLimits old calc r p) - old\<bar> \<le> max_delta old (MaxChangePercent p)"
proof -
  let ?L = "\<lambda>n. limitChange old n (MaxChangePercent p)"
  have step: "in_int64 n \<Longrightarrow> \<bar>?L n - old\<bar> \<le> max_delta old (MaxChangePercent p)" for n
    using assms by (intro limitChange_step)
  have min: "?L (MinBid p) = MinBid p \<Longrightarrow> \<bar>MinBid p - old\<bar> \<le> max_delta old (MaxChangePercent p)"
    and max: "?L (MaxBid p) = MaxBid p \<Longrightarrow> \<bar>MaxBid p - old\<bar> \<le> max_delta old (MaxChangePercent p)"
    using step [OF assms(5)] step [OF assms(6)] by simp_all
  show ?thesis
    using step [OF assms(3)] min max assms(7)
    by (simp add: applyBidDecisionLimits_def Let_def split: prod.split)
qed

lemma limits_corridor:
  assumes "fst (applyBidDecisionLimits old calc r p) \<noteq> old"
  shows "0 < MaxBid p \<Longrightarrow> fst (applyBidDecisionLimits old calc r p) \<le> MaxBid p"
    and "\<lbrakk>0 < MinBid p; MaxBid p \<le> 0 \<or> MinBid p \<le> MaxBid p\<rbrakk>
           \<Longrightarrow> MinBid p \<le> fst (applyBidDecisionLimits old calc r p)"
  using assms by (auto simp: applyBidDecisionLimits_def Let_def split: if_splits)

text \<open>The limits never turn a reduction into an increase while the bid is inside the corridor.\<close>

lemma limitChange_down:
  assumes "0 < old" "old \<le> 2 ^ 53" "in_int64 new" "new \<le> old" "0 \<le> new"
    and "0 \<le> max_delta old pct" "max_delta old pct \<le> 2 ^ 53"
  shows "limitChange old new pct \<le> old"
proof -
  let ?m = "max_delta old pct"
  have s: "wrap64 (old + ?m) = old + ?m" "wrap64 (old - ?m) = old - ?m" "wrap64 (- ?m) = - ?m"
    "wrap64 (new - old) = new - old"
    using assms by (auto intro!: wrap64_id in_int64I simp: in_int64_def int64_min_def int64_max_def)
  with assms show ?thesis by (auto simp: limitChange_def Let_def)
qed

lemma limits_down:
  assumes "limitChange old calc (MaxChangePercent p) \<le> old" "MinBid p \<le> old"
  shows "fst (applyBidDecisionLimits old calc r p) \<le> old"
  using assms by (auto simp: applyBidDecisionLimits_def Let_def split: if_splits)

section \<open>The decision\<close>

lemma in_int64_fst_if:
  "in_int64 (fst (if c then a else b)) \<longleftrightarrow> (if c then in_int64 (fst a) else in_int64 (fst b))"
  by simp

lemmas calc_range_rules = in_int64_fst_if scale_bid_range Let_def

lemma calculateACoSBid_range: "in_int64 (fst (calculateACoSBid p ctx))"
  unfolding calculateACoSBid_def by (simp add: calc_range_rules)

lemma calculateROASBid_range: "in_int64 (fst (calculateROASBid p ctx))"
  unfolding calculateROASBid_def by (simp add: calc_range_rules)

lemma calculateAntiSlivBid_range: "in_int64 (fst (calculateAntiSlivBid p ctx))"
  unfolding calculateAntiSlivBid_def by (simp add: calc_range_rules)

lemma calculateDaypartingBid_range: "in_int64 (fst (calculateDaypartingBid loc tnow p ctx))"
  unfolding calculateDaypartingBid_def by (simp add: calc_range_rules split: option.split)

lemma playbook_rule2_range: "playbook_rule2 p ctx = Some (b, r) \<Longrightarrow> in_int64 b"
  unfolding playbook_rule2_def by (auto simp: calc_range_rules split: if_splits)

lemma calculateSearchPlaybookBid_range: "in_int64 (fst (calculateSearchPlaybookBid p ctx))"
  using playbook_rule2_range [of p ctx]
  unfolding calculateSearchPlaybookBid_def by (cases "playbook_rule2 p ctx") (auto simp: calc_range_rules)

lemma raw_bid_range: "raw_bid loc tnow ty p ctx = Some (raw, rest) \<Longrightarrow> in_int64 raw"
  using calculateACoSBid_range [of p ctx] calculateROASBid_range [of p ctx]
    calculateAntiSlivBid_range [of p ctx] calculateDaypartingBid_range [of loc tnow p ctx]
    calculateSearchPlaybookBid_range [of p ctx]
  by (auto simp: raw_bid_def split: if_splits prod.splits)

text \<open>The switch on each of the strategy types that the engine handles.\<close>

lemma raw_bid_types:
  "raw_bid loc tnow StrategyTypeACoS p ctx = (case calculateACoSBid p ctx of (b, r, a) \<Rightarrow> Some (b, r, a, None))"
  "raw_bid loc tnow StrategyTypeOzonCPCTargetDRR p ctx =
     (case calculateACoSBid p ctx of (b, r, a) \<Rightarrow> Some (b, r, a, None))"
  "raw_bid loc tnow StrategyTypeROAS p ctx = (case calculateROASBid p ctx of (b, r, a) \<Rightarrow> Some (b, r, None, a))"
  "raw_bid loc tnow StrategyTypeAntiSliv p ctx =
     (case calculateAntiSlivBid p ctx of (b, r, a) \<Rightarrow> Some (b, r, a, None))"
  "raw_bid loc tnow StrategyTypeDayparting p ctx =
     (case calculateDaypartingBid loc tnow p ctx of (b, r) \<Rightarrow> Some (b, r, None, None))"
  "raw_bid loc tnow StrategyTypeSearchPlaybook p ctx =
     (case calculateSearchPlaybookBid p ctx of (b, r) \<Rightarrow> Some (b, r, None, None))"
  by (simp_all add: raw_bid_def strategy_type_defs)

text \<open>Inversion of a decision: the raw calculation it came from and the checks it passed.\<close>

lemma CalculateBid_SomeE:
  assumes "CalculateBid loc tnow s ctx = Some d"
  obtains raw reason acos roas where
    "raw_bid loc tnow (st_Type s) (Merged (st_Params s)) ctx = Some (raw, reason, acos, roas)"
    "in_int64 raw" "raw \<noteq> 0" "raw \<noteq> CurrentBid ctx" "CurrentBid ctx \<noteq> 0" "bd_OldBid d = CurrentBid ctx"
    "bd_NewBid d = fst (applyBidDecisionLimits (CurrentBid ctx) raw reason (Merged (st_Params s)))"
    "bd_NewBid d \<noteq> CurrentBid ctx" "\<not> increase_blocked (Merged (st_Params s)) ctx (bd_NewBid d)"
  using assms
  by (auto simp: CalculateBid_def Let_def split: option.splits if_splits prod.splits dest: raw_bid_range)

lemma scale_bid_down:
  assumes "0 \<le> cur" "cur \<le> 2 ^ 53" "0 \<le> q" "q \<le> 1"
  shows "0 \<le> scale_bid cur (Fin q)" and "scale_bid cur (Fin q) \<le> cur"
proof -
  have "of_int 0 \<le> of_int cur * q" "of_int cur * q \<le> of_int cur"
    using assms by (simp_all add: mult_left_le)
  then obtain r where r: "round64 (of_int cur * q) = Fin r" "of_int 0 \<le> r" "r \<le> of_int cur"
    using round64_between [of 0 "of_int cur * q" cur] assms by auto
  have k: "0 \<le> round_away r" "round_away r \<le> cur"
    using round_away_ge_int [OF r(2)] round_away_le_int [OF r(3)] by simp_all
  moreover have "in_int64 (round_away r)" using k assms(2) [simplified] by (intro in_int64I) linarith+
  ultimately have "scale_bid cur (Fin q) = round_away r"
    using r(1) assms by (simp add: scale_bid_def)
  with k show "0 \<le> scale_bid cur (Fin q)" and "scale_bid cur (Fin q) \<le> cur" by simp_all
qed

text \<open>The validated range of the change limit, after default filling.\<close>

lemma merged_pct:
  assumes "MaxChangePercent p = Fin q" "0 \<le> q" "q \<le> 100"
  shows "MaxChangePercent (Merged p) = Fin (if q = 0 then 15 else q)"
    and "0 < (if q = 0 then 15 else q)" "(if q = 0 then 15 else q) \<le> 100"
  using assms by auto

lemma max_delta_pct:
  assumes "0 < cur" "cur \<le> 2 ^ 46" "0 < pct" "pct \<le> 100"
  shows "0 \<le> max_delta cur (Fin pct)" and "max_delta cur (Fin pct) \<le> \<lceil>of_int cur * pct / 100\<rceil>"
    and "max_delta cur (Fin pct) \<le> 2 ^ 53"
proof -
  let ?n = "\<lceil>of_int cur * pct / 100\<rceil>"
  have "of_int cur * pct / 100 \<le> of_int cur" using assms by (simp add: mult_left_le)
  then have n: "?n \<le> cur" by (simp only: ceiling_le_iff)
  have "of_int cur * pct \<le> of_int (100 * ?n)"
    using le_of_int_ceiling [of "of_int cur * pct / 100"]
    unfolding of_int_mult of_int_numeral by linarith
  then show "0 \<le> max_delta cur (Fin pct)" and m: "max_delta cur (Fin pct) \<le> ?n"
    using assms n by (auto intro!: max_delta_bounds)
  from m n assms(2) show "max_delta cur (Fin pct) \<le> 2 ^ 53" by simp
qed

lemma limitChange_up:
  assumes "0 < old" "old \<le> 2 ^ 53" "in_int64 new" "old \<le> new"
    and "0 \<le> max_delta old pct" "max_delta old pct \<le> 2 ^ 53"
  shows "old \<le> limitChange old new pct"
proof -
  let ?m = "max_delta old pct"
  have s: "wrap64 (old + ?m) = old + ?m" "wrap64 (old - ?m) = old - ?m" "wrap64 (- ?m) = - ?m"
    "wrap64 (new - old) = new - old"
    using assms by (auto intro!: wrap64_id in_int64I simp: in_int64_def int64_min_def int64_max_def)
  with assms show ?thesis by (auto simp: limitChange_def Let_def)
qed

lemma limits_up:
  assumes "old \<le> limitChange old calc (MaxChangePercent p)" "MaxBid p \<le> 0 \<or> old \<le> MaxBid p"
  shows "old \<le> fst (applyBidDecisionLimits old calc r p)"
  using assms by (auto simp: applyBidDecisionLimits_def Let_def split: if_splits)

text \<open>A ratio of a target to a larger actual value is at most one, whatever the larger value is.\<close>

lemma ratio_down:
  assumes "0 \<le> t" "Fin t < x"
  shows "\<exists>q. Fin t / x = Fin q \<and> 0 \<le> q \<and> q \<le> 1"
proof (cases x)
  case (Fin c)
  with assms have "0 \<le> t / c" "t / c \<le> 1" by simp_all
  then show ?thesis using round64_between [of 0 "t / c" 1] Fin assms by auto
qed (use assms in auto)

lemma ratio_up:
  assumes "0 < t" "0 < c" "c \<le> t"
  shows "Fin t / Fin c = PInf \<or> (\<exists>q. Fin t / Fin c = Fin q \<and> 1 \<le> q)"
proof -
  have "1 \<le> t / c" using assms by simp
  then have "1 \<le> rnd (t / c)" using b64.R_ge_int [of 1] by simp
  then show ?thesis using assms by (auto simp: round64_def Let_def overflow_bound_def)
qed

lemma lit_13_10: "lit (13/10) = Fin (5854679515581645 / 4503599627370496)"
  by (simp add: f64_defs f64_eval rnd_eval go_eval)

lemma scale_bid_up:
  assumes "0 \<le> cur" "cur \<le> 2 ^ 46" "1 \<le> q" "q \<le> 64"
  shows "cur \<le> scale_bid cur (Fin q)"
proof -
  have "of_int cur \<le> of_int cur * q" "of_int cur * q \<le> of_int (cur * 64)"
    using assms by (simp_all add: mult_le_cancel_left1 mult_left_mono)
  then obtain r where r: "round64 (of_int cur * q) = Fin r" "of_int cur \<le> r" "r \<le> of_int (cur * 64)"
    using round64_between [of cur "of_int cur * q" "cur * 64"] assms by auto
  have k: "cur \<le> round_away r" "round_away r \<le> cur * 64"
    using round_away_ge_int [OF r(2)] round_away_le_int [OF r(3)] by simp_all
  moreover have "in_int64 (round_away r)" using k assms by (intro in_int64I) simp_all
  ultimately have "scale_bid cur (Fin q) = round_away r"
    using r(1) assms by (simp add: scale_bid_def)
  with k show ?thesis by simp
qed

section \<open>Operating range\<close>

abbreviation eff_params :: "Strategy \<Rightarrow> StrategyParams" where
  "eff_params s \<equiv> Merged (st_Params s)"

text \<open>
  The range in which the engine is run: a positive bid below \<open>2 ^ 46\<close>, so that a percentage of it is
  computed without losing integers, and a change limit inside the range that the save validation
  accepts. \<open>inside_corridor\<close> says that the current bid already lies in the corridor.
\<close>

definition bid_range :: "Strategy \<Rightarrow> BidContext \<Rightarrow> bool" where
  "bid_range s ctx \<longleftrightarrow>
     0 < CurrentBid ctx \<and> CurrentBid ctx \<le> 2 ^ 46 \<and>
     0 \<le> MaxChangePercent (st_Params s) \<and> MaxChangePercent (st_Params s) \<le> Fin 100 \<and>
     in_int64 (MinBid (st_Params s)) \<and> in_int64 (MaxBid (st_Params s))"

definition inside_corridor :: "Strategy \<Rightarrow> BidContext \<Rightarrow> bool" where
  "inside_corridor s ctx \<longleftrightarrow>
     MinBid (eff_params s) \<le> CurrentBid ctx \<and> CurrentBid ctx \<le> MaxBid (eff_params s)"

lemma bid_range_pct:
  assumes "bid_range s ctx"
  shows "\<exists>pct. MaxChangePercent (eff_params s) = Fin pct \<and> 0 < pct \<and> pct \<le> 100"
  using assms merged_pct [of "st_Params s"]
  by (cases "MaxChangePercent (st_Params s)") (auto simp: bid_range_def)

lemma bid_range_delta:
  assumes "bid_range s ctx"
  shows "0 \<le> max_delta (CurrentBid ctx) (MaxChangePercent (eff_params s))"
    and "max_delta (CurrentBid ctx) (MaxChangePercent (eff_params s)) \<le> 2 ^ 53"
  using bid_range_pct [OF assms] assms max_delta_pct [of "CurrentBid ctx"]
  by (auto simp: bid_range_def)

text \<open>A decision moves in the direction of the raw calculation when the bid is inside the corridor.\<close>

lemma decision_direction:
  assumes "bid_range s ctx" "inside_corridor s ctx" "in_int64 raw"
    and "bd_NewBid d = fst (applyBidDecisionLimits (CurrentBid ctx) raw reason (eff_params s))"
    and "bd_NewBid d \<noteq> CurrentBid ctx"
  shows "\<lbrakk>0 \<le> raw; raw \<le> CurrentBid ctx\<rbrakk> \<Longrightarrow> bd_NewBid d < CurrentBid ctx"
    and "CurrentBid ctx \<le> raw \<Longrightarrow> CurrentBid ctx < bd_NewBid d"
proof -
  let ?p = "eff_params s" and ?cur = "CurrentBid ctx"
  note m = bid_range_delta [OF assms(1)]
  have c: "0 < ?cur" "?cur \<le> 2 ^ 53" "MinBid ?p \<le> ?cur" "?cur \<le> MaxBid ?p"
    using assms(1,2) unfolding bid_range_def inside_corridor_def by simp_all
  { assume "0 \<le> raw" "raw \<le> ?cur"
    then have "limitChange ?cur raw (MaxChangePercent ?p) \<le> ?cur"
      using limitChange_down assms(3) c(1,2) m by blast
    then show "bd_NewBid d < ?cur" using limits_down [of ?cur raw ?p reason] c(3) assms(4,5) by simp }
  { assume "?cur \<le> raw"
    then have "?cur \<le> limitChange ?cur raw (MaxChangePercent ?p)"
      using limitChange_up assms(3) c(1,2) m by blast
    then show "?cur < bd_NewBid d" using limits_up [of ?cur raw ?p reason] c(4) assms(4,5) by simp }
qed

section \<open>What an empty guardrail reason means\<close>

text \<open>\<open>cost_ratio\<close> is the ACoS of the statistics: \<^verbatim>\<open>Spend / Revenue * 100\<close>.\<close>

abbreviation cost_ratio :: "BidContext \<Rightarrow> f64" where
  "cost_ratio ctx \<equiv> Spend ctx / Revenue ctx * Fin 100"

lemma f64_pos_not_le: "(0 :: f64) < x \<Longrightarrow> \<not> x \<le> 0"
  by (cases x) auto

lemma maxACoS_reason_empty:
  assumes "maxACoSIncreaseGuardrailReason p ctx = []" "MaxACoS p > 0" "Revenue ctx > 0"
  shows "cost_ratio ctx < MaxACoS p"
  using assms(1) f64_pos_not_le [OF assms(2)] f64_pos_not_le [OF assms(3)]
  by (simp add: maxACoSIncreaseGuardrailReason_def Let_def split: if_splits)

lemma maxCost_reason_empty:
  assumes "maxCostIncreaseGuardrailReason p ctx = []"
  shows "MaxCPC p > 0 \<Longrightarrow> Clicks ctx > 0 \<and> \<not> Spend ctx / float_of_int (Clicks ctx) \<ge> MaxCPC p"
    and "MaxCPO p > 0 \<Longrightarrow> Orders ctx > 0 \<and> \<not> Spend ctx / float_of_int (Orders ctx) \<ge> MaxCPO p"
  using assms by (auto simp: maxCostIncreaseGuardrailReason_def Let_def split: if_splits)

lemma economics_reason_empty:
  assumes "economicsIncreaseGuardrailReason p ctx nb = []" "IncreaseGuardrail ctx = Some g"
  shows "\<not> Revenue ctx \<le> 0 \<Longrightarrow> \<not> gr_MaxAllowedDRRPercent g \<le> 0 \<and> \<not> cost_ratio ctx \<ge> gr_MaxAllowedDRRPercent g \<and>
           \<not> (TargetACoS p > 0 \<and> TargetACoS p > gr_MaxAllowedDRRPercent g) \<and>
           \<not> (TargetROAS p > 0 \<and> TargetROAS p < Fin 100 / gr_MaxAllowedDRRPercent g)"
    and "Revenue ctx \<le> 0 \<Longrightarrow> \<not> gr_MaxAllowedCPO g \<le> 0 \<and> Orders ctx \<ge> 3 \<and> Clicks ctx \<ge> MinClicks p"
    and "\<lbrakk>Revenue ctx \<le> 0; CurrentBid ctx < nb\<rbrakk>
         \<Longrightarrow> \<not> (if 0 < CurrentBid ctx
                then Spend ctx / float_of_int (Orders ctx) * (float_of_int nb / float_of_int (CurrentBid ctx))
                else Spend ctx / float_of_int (Orders ctx)) \<ge> gr_MaxAllowedCPO g * profitSafeCPOFactor"
proof -
  note unfolded = assms(1) [unfolded economicsIncreaseGuardrailReason_def Let_def assms(2) option.case]
  { assume "\<not> Revenue ctx \<le> 0"
    with unfolded show "\<not> gr_MaxAllowedDRRPercent g \<le> 0 \<and> \<not> cost_ratio ctx \<ge> gr_MaxAllowedDRRPercent g \<and>
           \<not> (TargetACoS p > 0 \<and> TargetACoS p > gr_MaxAllowedDRRPercent g) \<and>
           \<not> (TargetROAS p > 0 \<and> TargetROAS p < Fin 100 / gr_MaxAllowedDRRPercent g)"
      by (simp split: if_splits) }
  { assume "Revenue ctx \<le> 0"
    with unfolded show "\<not> gr_MaxAllowedCPO g \<le> 0 \<and> Orders ctx \<ge> 3 \<and> Clicks ctx \<ge> MinClicks p"
      by (simp add: minOrdersForProfitSafeIncrease_def split: if_splits) }
  { assume "Revenue ctx \<le> 0" "CurrentBid ctx < nb"
    with unfolded show "\<not> (if 0 < CurrentBid ctx
                then Spend ctx / float_of_int (Orders ctx) * (float_of_int nb / float_of_int (CurrentBid ctx))
                else Spend ctx / float_of_int (Orders ctx)) \<ge> gr_MaxAllowedCPO g * profitSafeCPOFactor"
      by (simp split: if_splits) }
qed

section \<open>Direction of each calculation\<close>

lemma round64_nonneg: "0 \<le> x \<Longrightarrow> round64 x = PInf \<or> (\<exists>c. round64 x = Fin c \<and> 0 \<le> c)"
  using b64.R_nonneg [of x] by (auto simp: round64_def Let_def overflow_bound_def)

lemma cost_ratio_nonneg:
  assumes "Spend ctx = Fin s" "0 \<le> s" "Revenue ctx = Fin r" "0 < r"
  shows "cost_ratio ctx = PInf \<or> (\<exists>c. cost_ratio ctx = Fin c \<and> 0 \<le> c)"
proof -
  from assms have "round64 (s / r) = PInf \<or> (\<exists>c. round64 (s / r) = Fin c \<and> 0 \<le> c)"
    by (intro round64_nonneg) simp
  then show ?thesis
  proof (elim disjE exE conjE)
    fix c assume c: "round64 (s / r) = Fin c" "0 \<le> c"
    then have "cost_ratio ctx = round64 (c * 100)" using assms by simp
    then show ?thesis using round64_nonneg [of "c * 100"] c(2) by simp
  qed (use assms in \<open>simp add: signed_inf_def\<close>)
qed

lemma capped_ratio:
  assumes "x = PInf \<or> (\<exists>q. x = Fin q \<and> 1 \<le> q)"
  shows "\<exists>q. (if x > lit (13/10) then lit (13/10) else x) = Fin q \<and> 1 \<le> q \<and> q \<le> 64"
proof -
  have "\<exists>q. (if x > Fin k then Fin k else x) = Fin q \<and> 1 \<le> q \<and> q \<le> 64" if "1 \<le> k" "k \<le> 64" for k
    using assms that by auto
  from this [of "5854679515581645 / 4503599627370496"] show ?thesis unfolding lit_13_10 by simp
qed

lemma capped_ratio_up:
  assumes "0 < t" "0 \<le> c" "c \<le> t"
  shows "\<exists>q. (if Fin t / Fin c > lit (13/10) then lit (13/10) else Fin t / Fin c) = Fin q
             \<and> 1 \<le> q \<and> q \<le> 64"
proof (rule capped_ratio)
  show "Fin t / Fin c = PInf \<or> (\<exists>q. Fin t / Fin c = Fin q \<and> 1 \<le> q)"
    using assms ratio_up [of t c] by (cases "c = 0") (auto simp: signed_inf_def)
qed

lemma calculateACoSBid_direction:
  assumes "calculateACoSBid p ctx = (raw, reason, a)" "raw \<noteq> 0"
    and "0 < CurrentBid ctx" "CurrentBid ctx \<le> 2 ^ 46"
    and "TargetACoS p = Fin t" "0 < t" "Spend ctx = Fin s" "0 \<le> s" "Revenue ctx = Fin r" "0 < r"
  shows "cost_ratio ctx > TargetACoS p \<and> 0 \<le> raw \<and> raw \<le> CurrentBid ctx \<or>
         cost_ratio ctx < TargetACoS p * lit (8/10) \<and> \<not> cost_ratio ctx > TargetACoS p \<and> CurrentBid ctx \<le> raw"
proof -
  have cur: "CurrentBid ctx \<le> 2 ^ 53" using assms(4) by simp
  consider (over) "cost_ratio ctx > Fin t" "raw = scale_bid (CurrentBid ctx) (Fin t / cost_ratio ctx)"
    | (under) "cost_ratio ctx < Fin t * lit (8/10)" "\<not> cost_ratio ctx > Fin t"
      "raw = scale_bid (CurrentBid ctx) (if Fin t / cost_ratio ctx > lit (13/10) then lit (13/10)
                                         else Fin t / cost_ratio ctx)"
    using assms(1,2,5) by (auto simp only: calculateACoSBid_def Let_def if_True if_False simp_thms split: if_splits)
  then show ?thesis
  proof cases
    case over
    with ratio_down [OF less_imp_le [OF assms(6)] over(1)] obtain q
      where "Fin t / cost_ratio ctx = Fin q" "0 \<le> q" "q \<le> 1" by blast
    with over scale_bid_down [of "CurrentBid ctx" q] assms(3,5) cur show ?thesis by simp
  next
    case under
    obtain c where c: "cost_ratio ctx = Fin c" "0 \<le> c"
      using cost_ratio_nonneg [OF assms(7-10)] under(2) by auto
    then have "c \<le> t" using under(2) by simp
    from capped_ratio_up [OF assms(6) c(2) this] obtain q
      where q: "raw = scale_bid (CurrentBid ctx) (Fin q)" "1 \<le> q" "q \<le> 64"
      using under(3) unfolding c(1) by metis
    with scale_bid_up [of "CurrentBid ctx" q] assms(3,4) have "CurrentBid ctx \<le> raw" by simp
    with under(1,2) assms(5) show ?thesis by simp
  qed
qed

lemma calculateROASBid_direction:
  assumes "calculateROASBid p ctx = (raw, reason, a)" "raw \<noteq> 0"
    and "0 < CurrentBid ctx" "CurrentBid ctx \<le> 2 ^ 46"
    and "TargetROAS p = Fin t" "0 < t" "Spend ctx = Fin s" "0 \<le> s" "Revenue ctx = Fin r" "0 \<le> r"
  shows "Revenue ctx / Spend ctx < TargetROAS p \<and> 0 \<le> raw \<and> raw \<le> CurrentBid ctx \<or>
         Revenue ctx / Spend ctx > TargetROAS p * lit (12/10) \<and> \<not> Revenue ctx / Spend ctx < TargetROAS p
           \<and> CurrentBid ctx \<le> raw"
proof -
  let ?roas = "Revenue ctx / Spend ctx"
  have cur: "CurrentBid ctx \<le> 2 ^ 53" using assms(4) by simp
  have s: "s \<noteq> 0" using assms(1,2,7) by (auto simp: calculateROASBid_def split: if_splits)
  then have roas: "?roas = PInf \<or> (\<exists>c. ?roas = Fin c \<and> 0 \<le> c)"
    using round64_nonneg [of "r / s"] assms(7-10) by simp
  consider (under) "?roas < Fin t" "raw = scale_bid (CurrentBid ctx) (?roas / Fin t)"
    | (over) "?roas > Fin t * lit (12/10)" "\<not> ?roas < Fin t"
      "raw = scale_bid (CurrentBid ctx) (if ?roas / Fin t > lit (13/10) then lit (13/10)
                                         else ?roas / Fin t)"
    using assms(1,2,5)
    by (auto simp only: calculateROASBid_def Let_def if_True if_False simp_thms split: if_splits)
  then show ?thesis
  proof cases
    case under
    from roas under(1) obtain c where c: "?roas = Fin c" "0 \<le> c" by auto
    with ratio_down [of c "Fin t"] under obtain q
      where "?roas / Fin t = Fin q" "0 \<le> q" "q \<le> 1" by auto
    with under scale_bid_down [of "CurrentBid ctx" q] assms(3,5) cur show ?thesis by simp
  next
    case over
    have "?roas / Fin t = PInf \<or> (\<exists>q. ?roas / Fin t = Fin q \<and> 1 \<le> q)"
    proof (rule disjE [OF roas])
      assume "\<exists>c. ?roas = Fin c \<and> 0 \<le> c"
      then obtain c where "?roas = Fin c" "t \<le> c" using over(2) by auto
      then show ?thesis using ratio_up [of c t] assms(6) by simp
    qed (use assms(6) in \<open>simp add: signed_inf_def\<close>)
    from capped_ratio [OF this] obtain q
      where "(if ?roas / Fin t > lit (13/10) then lit (13/10) else ?roas / Fin t) = Fin q"
        and q: "1 \<le> q" "q \<le> 64" by blast
    with over(3) have "raw = scale_bid (CurrentBid ctx) (Fin q)" by (simp only:)
    with q scale_bid_up [of "CurrentBid ctx" q] assms(3,4) have "CurrentBid ctx \<le> raw" by simp
    with over(1,2) assms(5) show ?thesis by simp
  qed
qed

text \<open>The decimal reductions of the sources are proper fractions.\<close>

lemma lit_fraction:
  assumes "0 \<le> x" "x \<le> 1"
  shows "\<exists>q. lit x = Fin q \<and> 0 \<le> q \<and> q \<le> 1"
  using round64_between [of 0 x 1] assms by (auto simp: lit_def)

lemma scale_bid_lit:
  assumes "0 < cur" "cur \<le> 2 ^ 46" "0 \<le> x" "x \<le> 1"
  shows "0 \<le> scale_bid cur (lit x)" and "scale_bid cur (lit x) \<le> cur"
  using lit_fraction [OF assms(3,4)] scale_bid_down [of cur] assms(1,2) by auto

lemma calculateAntiSlivBid_direction:
  assumes "calculateAntiSlivBid p ctx = (raw, reason, a)" "raw \<noteq> 0"
    and "0 < CurrentBid ctx" "CurrentBid ctx \<le> 2 ^ 46" "MaxACoS p = Fin t" "0 < t"
  shows "0 \<le> raw \<and> raw \<le> CurrentBid ctx"
proof -
  consider (cut) x where "raw = scale_bid (CurrentBid ctx) (lit x)" "0 \<le> x" "x \<le> 1"
    | (ratio) "cost_ratio ctx > Fin t" "raw = scale_bid (CurrentBid ctx) (Fin t / cost_ratio ctx)"
    using assms(1,2,5) by (auto simp: calculateAntiSlivBid_def Let_def split: if_splits)
  then show ?thesis
  proof cases
    case cut
    then show ?thesis using scale_bid_lit [OF assms(3,4)] by blast
  next
    case ratio
    with ratio_down [of t "cost_ratio ctx"] assms(6) obtain q
      where "Fin t / cost_ratio ctx = Fin q" "0 \<le> q" "q \<le> 1" by auto
    with ratio scale_bid_down [of "CurrentBid ctx" q] assms(3,4) show ?thesis by simp
  qed
qed

text \<open>
  Without orders, a playbook that has spent 70 percent of the sacrificial cap only cuts or holds.
\<close>

lemma one_minus_pct:
  assumes "0 \<le> x" "x \<le> 100"
  shows "\<exists>q. Fin 1 - Fin x / Fin 100 = Fin q \<and> 0 \<le> q \<and> q \<le> 1"
proof -
  obtain y where y: "round64 (x / 100) = Fin y" "0 \<le> y" "y \<le> 1"
    using round64_between [of 0 "x / 100" 1] assms by auto
  then show ?thesis using round64_between [of 0 "1 - y" 1] by auto
qed

lemma calculateSearchPlaybookBid_no_orders:
  assumes "calculateSearchPlaybookBid p ctx = (raw, reason)" "raw \<noteq> 0"
    and "0 < CurrentBid ctx" "CurrentBid ctx \<le> 2 ^ 46"
    and "Orders ctx = 0" "sacrificial_cap p ctx > 0" "Spend ctx \<ge> sacrificial_cap p ctx * lit (7/10)"
    and "RollbackStepPercent p = Fin b" "0 \<le> b" "b \<le> 100"
  shows "0 \<le> raw \<and> raw \<le> CurrentBid ctx"
proof -
  have r2: "playbook_rule2 p ctx = None" using assms(5) by (simp add: playbook_rule2_def)
  consider "raw = scale_bid (CurrentBid ctx) (lit (7/10))"
    | "raw = scale_bid (CurrentBid ctx) (Fin 1 - Fin b / Fin 100)"
    using assms(1,2,5-8) r2
    by (auto simp only: calculateSearchPlaybookBid_def Let_def option.case simp_thms prod.inject
        if_True if_False split: if_splits)
  then show ?thesis
  proof cases
    case 1
    then show ?thesis using scale_bid_lit [OF assms(3,4), of "7/10"] by simp
  next
    case 2
    with one_minus_pct [OF assms(9,10)] scale_bid_down [of "CurrentBid ctx"] assms(3,4)
    show ?thesis by auto
  qed
qed

section \<open>Properties\<close>

text \<open>Inputs of the witnesses: a strategy of each kind and a campaign with statistics.\<close>

definition wit_params :: StrategyParams where
  "wit_params = zero_StrategyParams\<lparr>TargetACoS := Fin 20, TargetROAS := Fin 5, MaxACoS := Fin 30\<rparr>"

definition wit_strategy :: "string \<Rightarrow> Strategy" where
  "wit_strategy ty = \<lparr>st_ID = 1, st_WorkspaceID = 1, st_SellerCabinetID = 1, st_Name = ''s'',
     st_Type = ty, st_Params = wit_params, st_IsActive = True, st_Bindings = []\<rparr>"

definition wit_ctx :: "rat \<Rightarrow> BidContext" where
  "wit_ctx spend = \<lparr>CurrentBid = 100, Impressions = 1000, Clicks = 50, Spend = Fin spend, Revenue = Fin 1000,
     Orders = 5, Placement = ''search'', IncreaseGuardrail = Some \<lparr>gr_Allowed = True, gr_Reason = [], gr_MaxAllowedDRRPercent = Fin 25,
                               gr_MaxAllowedCPO = 0, gr_BuyerPrice = 0\<rparr>,
     AvgPosition = 0, HasPosition = False, PrevImpressions = 0, BuyerPrice = 0, DaypartingBaselineBid = 0, DaypartingSlotApplied = False,
     DecisionTime = None\<rparr>"

lemmas bid_wit_eval = bid_defs f64_defs f64_eval rnd_eval go_eval params_defs strategy_type_defs
  wit_params_def wit_strategy_def wit_ctx_def dflt_i_def bid_range_def inside_corridor_def
  in_int64_def int64_min_def int64_max_def

lemma wit_acos_down: "\<exists>d. CalculateBid (\<lambda>_. None) 0 (wit_strategy StrategyTypeACoS) (wit_ctx 250) = Some d \<and> bd_OldBid d = 100 \<and> bd_NewBid d = 85"
  by (simp add: bid_wit_eval)

lemma wit_acos_up: "\<exists>d. CalculateBid (\<lambda>_. None) 0 (wit_strategy StrategyTypeACoS) (wit_ctx 100) = Some d \<and> bd_OldBid d = 100 \<and> bd_NewBid d = 115"
  by (simp add: bid_wit_eval)

lemma wit_ranges [simp]: "bid_range (wit_strategy ty) (wit_ctx x)" "inside_corridor (wit_strategy ty) (wit_ctx x)"
  by (simp_all add: bid_wit_eval)

text \<open>
  C1 Every decision of the engine moves the bid by at most the configured percentage of the current
  bid (15 percent when none is configured), rounded up to a whole unit, whatever the strategy type,
  the statistics and the bid corridor are.
\<close>

theorem bid_change_capped:
  assumes "CalculateBid loc tnow s ctx = Some d" "bid_range s ctx"
    and "MaxChangePercent (st_Params s) = Fin q"
  shows "\<bar>bd_NewBid d - bd_OldBid d\<bar> \<le> \<lceil>of_int (bd_OldBid d) * (if q = 0 then 15 else q) / 100\<rceil>"
proof -
  let ?p = "eff_params s" and ?pct = "if q = 0 then 15 else q"
  have r: "0 < CurrentBid ctx" "CurrentBid ctx \<le> 2 ^ 46" "0 \<le> q" "q \<le> 100"
    and c: "in_int64 (MinBid (st_Params s))" "in_int64 (MaxBid (st_Params s))"
    using assms(2,3) unfolding bid_range_def by simp_all
  note pct = merged_pct [OF assms(3) r(3,4)]
  note m = max_delta_pct [OF r(1,2) pct(2,3)]
  from assms(1) obtain raw reason where
    raw: "in_int64 raw" and d: "bd_OldBid d = CurrentBid ctx"
      "bd_NewBid d = fst (applyBidDecisionLimits (CurrentBid ctx) raw reason ?p)"
    by (elim CalculateBid_SomeE) auto
  have "\<bar>bd_NewBid d - CurrentBid ctx\<bar> \<le> max_delta (CurrentBid ctx) (MaxChangePercent ?p)"
    unfolding d(2) using r c m pct raw by (intro limits_change) (auto simp: dflt_i_def in_int64I)
  with m(2) pct(1) d(1) show ?thesis by simp
qed

theorem bid_change_capped_witness:
  "\<exists>d. CalculateBid (\<lambda>_. None) 0 (wit_strategy StrategyTypeACoS) (wit_ctx 250) = Some d \<and>
       bid_range (wit_strategy StrategyTypeACoS) (wit_ctx 250) \<and> \<bar>bd_NewBid d - bd_OldBid d\<bar> \<le> 15"
proof -
  obtain d where d: "CalculateBid (\<lambda>_. None) 0 (wit_strategy StrategyTypeACoS) (wit_ctx 250) = Some d" "bd_OldBid d = 100"
    using wit_acos_down by blast
  have "MaxChangePercent (st_Params (wit_strategy StrategyTypeACoS)) = Fin 0" by (simp add: bid_wit_eval)
  from bid_change_capped [OF d(1) wit_ranges(1) this] d show ?thesis by simp
qed

text \<open>
  C5 The bid of a decision lies in the corridor of the filled parameters, even when the current bid
  lies outside it.
\<close>

theorem bid_in_corridor:
  assumes "CalculateBid loc tnow s ctx = Some d"
    and "0 < MinBid (eff_params s)" "MinBid (eff_params s) \<le> MaxBid (eff_params s)"
  shows "MinBid (eff_params s) \<le> bd_NewBid d \<and> bd_NewBid d \<le> MaxBid (eff_params s)"
proof -
  let ?p = "eff_params s"
  from assms(1) obtain raw reason where
    d: "bd_NewBid d = fst (applyBidDecisionLimits (CurrentBid ctx) raw reason ?p)" "bd_NewBid d \<noteq> CurrentBid ctx"
    by (elim CalculateBid_SomeE) auto
  then have "fst (applyBidDecisionLimits (CurrentBid ctx) raw reason ?p) \<noteq> CurrentBid ctx" by simp
  from limits_corridor [OF this] assms(2,3) show ?thesis unfolding d(1) by simp
qed

theorem bid_in_corridor_witness:
  "\<exists>d. CalculateBid (\<lambda>_. None) 0 (wit_strategy StrategyTypeACoS) (wit_ctx 250) = Some d \<and>
       50 \<le> bd_NewBid d \<and> bd_NewBid d \<le> 5000"
proof -
  obtain d where d: "CalculateBid (\<lambda>_. None) 0 (wit_strategy StrategyTypeACoS) (wit_ctx 250) = Some d"
    using wit_acos_down by blast
  from bid_in_corridor [OF d] d show ?thesis by (simp add: bid_wit_eval)
qed

text \<open>
  C6 A decision that raises the bid has passed every guardrail of an increase: the ACoS is below
  \<^verbatim>\<open>max_acos\<close>; CPC and CPO evidence exists and is not at or above its limit; and when a readiness
  guardrail is present it allows increases and the ceiling of the unit economics is known. With
  revenue the current DRR is not at or above that ceiling, a set target ACoS does not exceed it and a
  set target ROAS is not below the break-even \<^verbatim>\<open>100 / ceiling\<close>. Without revenue there are at least
  three orders and \<^verbatim>\<open>min_clicks\<close> clicks and the CPO projected to the new bid is not at or above 90%
  of the CPO ceiling.
\<close>

theorem bid_increase_guarded:
  assumes "CalculateBid loc tnow s ctx = Some d" "bd_OldBid d < bd_NewBid d"
  shows "(MaxACoS (eff_params s) > 0 \<and> Revenue ctx > 0 \<longrightarrow> cost_ratio ctx < MaxACoS (eff_params s)) \<and>
         (MaxCPC (eff_params s) > 0 \<longrightarrow> Clicks ctx > 0 \<and> \<not> Spend ctx / float_of_int (Clicks ctx) \<ge> MaxCPC (eff_params s)) \<and>
         (MaxCPO (eff_params s) > 0 \<longrightarrow> Orders ctx > 0 \<and> \<not> Spend ctx / float_of_int (Orders ctx) \<ge> MaxCPO (eff_params s)) \<and>
         (\<forall>g. IncreaseGuardrail ctx = Some g \<longrightarrow> gr_Allowed g \<and>
            (\<not> Revenue ctx \<le> 0 \<longrightarrow> \<not> gr_MaxAllowedDRRPercent g \<le> 0 \<and>
               \<not> cost_ratio ctx \<ge> gr_MaxAllowedDRRPercent g \<and>
               \<not> (TargetACoS (eff_params s) > 0 \<and> TargetACoS (eff_params s) > gr_MaxAllowedDRRPercent g) \<and>
               \<not> (TargetROAS (eff_params s) > 0 \<and>
                  TargetROAS (eff_params s) < Fin 100 / gr_MaxAllowedDRRPercent g)) \<and>
            (Revenue ctx \<le> 0 \<longrightarrow> \<not> gr_MaxAllowedCPO g \<le> 0 \<and>
               Orders ctx \<ge> 3 \<and> Clicks ctx \<ge> MinClicks (eff_params s) \<and>
               \<not> (if 0 < bd_OldBid d
                  then Spend ctx / float_of_int (Orders ctx) * (float_of_int (bd_NewBid d) / float_of_int (bd_OldBid d))
                  else Spend ctx / float_of_int (Orders ctx)) \<ge> gr_MaxAllowedCPO g * profitSafeCPOFactor))"
proof -
  let ?p = "eff_params s"
  from assms(1,2) have "\<not> increase_blocked ?p ctx (bd_NewBid d)" and o: "bd_OldBid d = CurrentBid ctx"
    by (auto elim!: CalculateBid_SomeE)
  with assms(2) have g: "maxACoSIncreaseGuardrailReason ?p ctx = []" "maxCostIncreaseGuardrailReason ?p ctx = []"
    "economicsIncreaseGuardrailReason ?p ctx (bd_NewBid d) = []"
    "\<not> some_and (\<lambda>g. \<not> gr_Allowed g) (IncreaseGuardrail ctx)"
    by (simp_all add: increase_blocked_def)
  moreover have "\<forall>g. IncreaseGuardrail ctx = Some g \<longrightarrow> gr_Allowed g" using g(4) by auto
  ultimately show ?thesis
    using maxACoS_reason_empty [OF g(1)] maxCost_reason_empty [OF g(2)] economics_reason_empty [OF g(3)]
      assms(2) unfolding o by simp
qed

theorem bid_increase_guarded_witness:
  "\<exists>d. CalculateBid (\<lambda>_. None) 0 (wit_strategy StrategyTypeACoS) (wit_ctx 100) = Some d \<and>
       bd_OldBid d < bd_NewBid d \<and> cost_ratio (wit_ctx 100) < Fin 30 \<and> \<not> cost_ratio (wit_ctx 100) \<ge> Fin 25 \<and>
       0 < TargetACoS (eff_params (wit_strategy StrategyTypeACoS)) \<and>
       \<not> TargetACoS (eff_params (wit_strategy StrategyTypeACoS)) > Fin 25"
proof -
  obtain d where d: "CalculateBid (\<lambda>_. None) 0 (wit_strategy StrategyTypeACoS) (wit_ctx 100) = Some d"
    "bd_OldBid d < bd_NewBid d" using wit_acos_up by fastforce
  have w: "MaxACoS (eff_params (wit_strategy StrategyTypeACoS)) = Fin 30" "Revenue (wit_ctx 100) > 0"
    "\<not> Revenue (wit_ctx 100) \<le> 0" "0 < TargetACoS (eff_params (wit_strategy StrategyTypeACoS))"
    "\<exists>g. IncreaseGuardrail (wit_ctx 100) = Some g \<and> gr_MaxAllowedDRRPercent g = Fin 25"
    by (simp_all add: bid_wit_eval)
  then obtain g where g: "IncreaseGuardrail (wit_ctx 100) = Some g" "gr_MaxAllowedDRRPercent g = Fin 25"
    by blast
  note safe = bid_increase_guarded [OF d]
  from safe w(1,2) have "cost_ratio (wit_ctx 100) < Fin 30" by simp
  moreover from safe g w(3,4) have "\<not> cost_ratio (wit_ctx 100) \<ge> Fin 25"
    "\<not> TargetACoS (eff_params (wit_strategy StrategyTypeACoS)) > Fin 25" by auto
  ultimately show ?thesis using d w(4) by blast
qed

text \<open>
  A target-ACoS strategy (and the Ozon target-DRR strategy, which shares its calculation) lowers
  the bid only when the ACoS is above the target and raises it only when the ACoS is below 80 percent
  of the target; between the two it makes no decision.
\<close>

theorem acos_bid_tracks_target:
  assumes "CalculateBid loc tnow s ctx = Some d" "bid_range s ctx" "inside_corridor s ctx"
    and "st_Type s = StrategyTypeACoS \<or> st_Type s = StrategyTypeOzonCPCTargetDRR"
    and "TargetACoS (eff_params s) = Fin t" "0 < t"
    and "Spend ctx = Fin x" "0 \<le> x" "Revenue ctx = Fin r" "0 < r"
  shows "cost_ratio ctx > Fin t \<and> bd_NewBid d < bd_OldBid d \<or>
         cost_ratio ctx < Fin t * lit (8/10) \<and> bd_OldBid d < bd_NewBid d"
proof -
  let ?p = "eff_params s"
  have c: "0 < CurrentBid ctx" "CurrentBid ctx \<le> 2 ^ 46" using assms(2) by (simp_all add: bid_range_def)
  from assms(1,4) obtain raw reason a where
    raw: "calculateACoSBid ?p ctx = (raw, reason, a)" "raw \<noteq> 0" "in_int64 raw"
    and d: "bd_OldBid d = CurrentBid ctx" "bd_NewBid d \<noteq> CurrentBid ctx"
      "bd_NewBid d = fst (applyBidDecisionLimits (CurrentBid ctx) raw reason ?p)"
    by (elim CalculateBid_SomeE) (auto simp: raw_bid_types split: prod.splits)
  note dir = decision_direction [OF assms(2,3) raw(3) d(3,2)]
  from calculateACoSBid_direction [OF raw(1,2) c assms(5-10)] dir d(1) assms(5) show ?thesis by auto
qed

theorem acos_bid_tracks_target_witness:
  "\<exists>d. CalculateBid (\<lambda>_. None) 0 (wit_strategy StrategyTypeACoS) (wit_ctx 250) = Some d \<and>
       (cost_ratio (wit_ctx 250) > Fin 20 \<and> bd_NewBid d < bd_OldBid d \<or>
        cost_ratio (wit_ctx 250) < Fin 20 * lit (8/10) \<and> bd_OldBid d < bd_NewBid d)"
proof -
  obtain d where d: "CalculateBid (\<lambda>_. None) 0 (wit_strategy StrategyTypeACoS) (wit_ctx 250) = Some d"
    using wit_acos_down by blast
  have e: "TargetACoS (Merged (st_Params (wit_strategy StrategyTypeACoS))) = Fin 20"
    "Spend (wit_ctx 250) = Fin 250" "Revenue (wit_ctx 250) = Fin 1000"
    "st_Type (wit_strategy StrategyTypeACoS) = StrategyTypeACoS" by (simp_all add: bid_wit_eval)
  show ?thesis using acos_bid_tracks_target [OF d wit_ranges disjI1 [OF e(4)] e(1) _ e(2) _ e(3)] d
    by simp
qed

text \<open>
  A target-ROAS strategy lowers the bid only when the ROAS is below the target and raises it only
  when the ROAS exceeds the target by 20 percent; between the two it makes no decision.
\<close>

theorem roas_bid_tracks_target:
  assumes "CalculateBid loc tnow s ctx = Some d" "bid_range s ctx" "inside_corridor s ctx"
    and "st_Type s = StrategyTypeROAS"
    and "TargetROAS (eff_params s) = Fin t" "0 < t"
    and "Spend ctx = Fin x" "0 \<le> x" "Revenue ctx = Fin r" "0 \<le> r"
  shows "Revenue ctx / Spend ctx < Fin t \<and> bd_NewBid d < bd_OldBid d \<or>
         Revenue ctx / Spend ctx > Fin t * lit (12/10) \<and> bd_OldBid d < bd_NewBid d"
proof -
  let ?p = "eff_params s"
  have c: "0 < CurrentBid ctx" "CurrentBid ctx \<le> 2 ^ 46" using assms(2) by (simp_all add: bid_range_def)
  from assms(1,4) obtain raw reason a where
    raw: "calculateROASBid ?p ctx = (raw, reason, a)" "raw \<noteq> 0" "in_int64 raw"
    and d: "bd_OldBid d = CurrentBid ctx" "bd_NewBid d \<noteq> CurrentBid ctx"
      "bd_NewBid d = fst (applyBidDecisionLimits (CurrentBid ctx) raw reason ?p)"
    by (elim CalculateBid_SomeE) (auto simp: raw_bid_types split: prod.splits)
  note dir = decision_direction [OF assms(2,3) raw(3) d(3,2)]
  from calculateROASBid_direction [OF raw(1,2) c assms(5-10)] dir d(1) assms(5) show ?thesis by auto
qed

theorem roas_bid_tracks_target_witness:
  "\<exists>d. CalculateBid (\<lambda>_. None) 0 (wit_strategy StrategyTypeROAS) (wit_ctx 250) = Some d \<and>
       (Revenue (wit_ctx 250) / Spend (wit_ctx 250) < Fin 5 \<and> bd_NewBid d < bd_OldBid d \<or>
        Revenue (wit_ctx 250) / Spend (wit_ctx 250) > Fin 5 * lit (12/10) \<and> bd_OldBid d < bd_NewBid d)"
proof -
  have "\<exists>d. CalculateBid (\<lambda>_. None) 0 (wit_strategy StrategyTypeROAS) (wit_ctx 250) = Some d"
    by (simp add: bid_wit_eval)
  then obtain d where d: "CalculateBid (\<lambda>_. None) 0 (wit_strategy StrategyTypeROAS) (wit_ctx 250) = Some d" ..
  have e: "TargetROAS (eff_params (wit_strategy StrategyTypeROAS)) = Fin 5"
    "Spend (wit_ctx 250) = Fin 250" "Revenue (wit_ctx 250) = Fin 1000"
    "st_Type (wit_strategy StrategyTypeROAS) = StrategyTypeROAS" by (simp_all add: bid_wit_eval)
  show ?thesis using roas_bid_tracks_target [OF d wit_ranges e(4) e(1) _ e(2) _ e(3)] d by simp
qed

text \<open>
  The loss-stopping strategy only ever lowers a bid that lies in its corridor, whatever the
  statistics are.
\<close>

theorem anti_sliv_only_lowers:
  assumes "CalculateBid loc tnow s ctx = Some d" "bid_range s ctx" "inside_corridor s ctx"
    and "st_Type s = StrategyTypeAntiSliv" "MaxACoS (eff_params s) = Fin t" "0 < t"
  shows "bd_NewBid d < bd_OldBid d"
proof -
  let ?p = "eff_params s"
  have c: "0 < CurrentBid ctx" "CurrentBid ctx \<le> 2 ^ 46" using assms(2) by (simp_all add: bid_range_def)
  from assms(1,4) obtain raw reason a where
    raw: "calculateAntiSlivBid ?p ctx = (raw, reason, a)" "raw \<noteq> 0" "in_int64 raw"
    and d: "bd_OldBid d = CurrentBid ctx" "bd_NewBid d \<noteq> CurrentBid ctx"
      "bd_NewBid d = fst (applyBidDecisionLimits (CurrentBid ctx) raw reason ?p)"
    by (elim CalculateBid_SomeE) (auto simp: raw_bid_types split: prod.splits)
  note dir = decision_direction [OF assms(2,3) raw(3) d(3,2)]
  from calculateAntiSlivBid_direction [OF raw(1,2) c assms(5,6)] dir d(1) show ?thesis by auto
qed

theorem anti_sliv_only_lowers_witness:
  "\<exists>d. CalculateBid (\<lambda>_. None) 0 (wit_strategy StrategyTypeAntiSliv) (wit_ctx 400) = Some d \<and>
       bd_NewBid d < bd_OldBid d"
proof -
  have "\<exists>d. CalculateBid (\<lambda>_. None) 0 (wit_strategy StrategyTypeAntiSliv) (wit_ctx 400) = Some d"
    by (simp add: bid_wit_eval)
  then obtain d where d: "CalculateBid (\<lambda>_. None) 0 (wit_strategy StrategyTypeAntiSliv) (wit_ctx 400) = Some d" ..
  have e: "MaxACoS (eff_params (wit_strategy StrategyTypeAntiSliv)) = Fin 30"
    "st_Type (wit_strategy StrategyTypeAntiSliv) = StrategyTypeAntiSliv" by (simp_all add: bid_wit_eval)
  show ?thesis using anti_sliv_only_lowers [OF d wit_ranges e(2) e(1)] d by simp
qed

text \<open>
  Competitive pressure: with no orders and at least 70 percent of the sacrificial cap spent, the
  search playbook never raises the bid, however far the average position is from the target.
\<close>

theorem playbook_stops_climbing:
  assumes "CalculateBid loc tnow s ctx = Some d" "bid_range s ctx" "inside_corridor s ctx"
    and "st_Type s = StrategyTypeSearchPlaybook"
    and "Orders ctx = 0" "sacrificial_cap (eff_params s) ctx > 0"
    and "Spend ctx \<ge> sacrificial_cap (eff_params s) ctx * lit (7/10)"
    and "RollbackStepPercent (eff_params s) = Fin b" "0 \<le> b" "b \<le> 100"
  shows "bd_NewBid d < bd_OldBid d"
proof -
  let ?p = "eff_params s"
  have c: "0 < CurrentBid ctx" "CurrentBid ctx \<le> 2 ^ 46" using assms(2) by (simp_all add: bid_range_def)
  from assms(1,4) obtain raw reason where
    raw: "calculateSearchPlaybookBid ?p ctx = (raw, reason)" "raw \<noteq> 0" "in_int64 raw"
    and d: "bd_OldBid d = CurrentBid ctx" "bd_NewBid d \<noteq> CurrentBid ctx"
      "bd_NewBid d = fst (applyBidDecisionLimits (CurrentBid ctx) raw reason ?p)"
    by (elim CalculateBid_SomeE) (auto simp: raw_bid_types split: prod.splits)
  note dir = decision_direction [OF assms(2,3) raw(3) d(3,2)]
  from calculateSearchPlaybookBid_no_orders [OF raw(1,2) c assms(5-10)] dir d(1) show ?thesis by auto
qed

definition wit_playbook :: Strategy where
  "wit_playbook = (wit_strategy StrategyTypeSearchPlaybook)\<lparr>st_Params :=
     wit_params\<lparr>TargetPosition := Fin 3, SacrificialSpendPricePct := Fin 50, RollbackStepPercent := Fin 5\<rparr>\<rparr>"

definition wit_playbook_ctx :: BidContext where
  "wit_playbook_ctx = (wit_ctx 600)\<lparr>Orders := 0, HasPosition := True, AvgPosition := Fin 8, BuyerPrice := Fin 1000\<rparr>"

theorem playbook_stops_climbing_witness:
  "\<exists>d. CalculateBid (\<lambda>_. None) 0 wit_playbook wit_playbook_ctx = Some d \<and> bd_NewBid d < bd_OldBid d"
proof -
  note ev = bid_wit_eval wit_playbook_def wit_playbook_ctx_def
  have "\<exists>d. CalculateBid (\<lambda>_. None) 0 wit_playbook wit_playbook_ctx = Some d" by (simp add: ev)
  then obtain d where d: "CalculateBid (\<lambda>_. None) 0 wit_playbook wit_playbook_ctx = Some d" ..
  have "bid_range wit_playbook wit_playbook_ctx" "inside_corridor wit_playbook wit_playbook_ctx"
    "st_Type wit_playbook = StrategyTypeSearchPlaybook" "Orders wit_playbook_ctx = 0"
    "sacrificial_cap (eff_params wit_playbook) wit_playbook_ctx > 0"
    "Spend wit_playbook_ctx \<ge> sacrificial_cap (eff_params wit_playbook) wit_playbook_ctx * lit (7/10)"
    "RollbackStepPercent (eff_params wit_playbook) = Fin 5" by (simp_all add: ev)
  from playbook_stops_climbing [OF d this] d show ?thesis by simp
qed

text \<open>A change limit of at least one percent allows a step of at least one unit.\<close>

lemma max_delta_pos:
  assumes "0 < cur" "cur \<le> 2 ^ 46" "1 \<le> pct" "pct \<le> 100"
  shows "1 \<le> max_delta cur (Fin pct)"
proof -
  have "of_int 1 \<le> of_int cur * pct" "of_int cur * pct \<le> of_int (cur * 100)"
    using assms mult_mono [of 1 "of_int cur" 1 pct] mult_left_mono [of pct 100 "of_int cur"] by simp_all
  then obtain a where a: "round64 (of_int cur * pct) = Fin a" "1 \<le> a" "a \<le> of_int (cur * 100)"
    using round64_between [of 1 "of_int cur * pct" "cur * 100"] assms(2) by auto
  then have "0 \<le> a / 100" "a / 100 \<le> of_int cur" by simp_all
  then obtain b where b: "round64 (a / 100) = Fin b" "b = rnd (a / 100)" "b \<le> of_int cur"
    using round64_between [of 0 "a / 100" cur] assms(1,2) by auto
  have "rnd (1 / 128) \<le> rnd (a / 100)" using a(2) by (intro rnd_mono) simp
  then have "1 / 128 \<le> b" unfolding b(2) by (simp add: f64_defs f64_eval rnd_eval go_eval)
  then have "0 < \<lceil>b\<rceil>" by (simp add: less_le_trans)
  moreover have "\<lceil>b\<rceil> \<le> cur" using b(3) by (simp only: ceiling_le_iff)
  ultimately have "in_int64 \<lceil>b\<rceil>" using assms(2) [simplified] by (intro in_int64I) linarith+
  with \<open>0 < \<lceil>b\<rceil>\<close> a(1) b(1) assms(1,2) show ?thesis by (simp add: max_delta_def)
qed

lemma limits_strict_down:
  assumes "0 < old" "old \<le> 2 ^ 53" "0 \<le> raw" "raw < old"
    and "1 \<le> max_delta old (MaxChangePercent p)" "max_delta old (MaxChangePercent p) \<le> 2 ^ 53"
    and "MinBid p < old" "old \<le> MaxBid p"
  shows "fst (applyBidDecisionLimits old raw r p) < old"
proof -
  let ?m = "max_delta old (MaxChangePercent p)" and ?L = "\<lambda>n. limitChange old n (MaxChangePercent p)"
  have s: "wrap64 (old + ?m) = old + ?m" "wrap64 (old - ?m) = old - ?m" "wrap64 (- ?m) = - ?m"
    using assms by (auto intro!: wrap64_id in_int64I)
  have L: "?L n \<noteq> n \<Longrightarrow> n < old - ?m" "?L n < old" if "0 \<le> n" "n < old" for n
  proof -
    have "wrap64 (n - old) = n - old" using that assms(1,2) by (auto intro!: wrap64_id in_int64I)
    with that s assms(5) show "?L n \<noteq> n \<Longrightarrow> n < old - ?m" "?L n < old"
      by (auto simp: limitChange_def Let_def split: if_splits)
  qed
  have lo: "old - ?m \<le> ?L raw \<or> ?L raw = raw \<and> MaxChangePercent p \<le> 0"
    using s assms(1-5) wrap64_id [of "raw - old"] by (auto simp: limitChange_def Let_def in_int64I)
  have off: "MaxChangePercent p \<le> 0 \<Longrightarrow> ?L n = n" for n by (simp add: limitChange_def)
  have "?L (MinBid p) = MinBid p" if "0 < MinBid p" "?L raw < MinBid p"
  proof (rule ccontr)
    assume "?L (MinBid p) \<noteq> MinBid p"
    with L(1) [of "MinBid p"] lo off [of "MinBid p"] that assms(7) show False by auto
  qed
  then show ?thesis
    using L(2) [OF assms(3,4)] assms(7,8) by (auto simp: applyBidDecisionLimits_def Let_def)
qed

text \<open>
  A target-ACoS strategy acts: with enough clicks, an ACoS above the target, a change limit of at
  least one percent and room below the bid, the engine returns a decision and it lowers the bid,
  as soon as the scaled bid is a positive amount below the current one.
\<close>

theorem acos_over_target_acts:
  assumes "bid_range s ctx" "st_Type s = StrategyTypeACoS \<or> st_Type s = StrategyTypeOzonCPCTargetDRR"
    and "MinBid (eff_params s) < CurrentBid ctx" "CurrentBid ctx \<le> MaxBid (eff_params s)"
    and "Fin 1 \<le> MaxChangePercent (eff_params s)"
    and "MinClicks (eff_params s) \<le> Clicks ctx" "\<not> feq (Revenue ctx) 0"
    and "\<not> feq (TargetACoS (eff_params s)) 0" "cost_ratio ctx > TargetACoS (eff_params s)"
    and "0 < scale_bid (CurrentBid ctx) (TargetACoS (eff_params s) / cost_ratio ctx)"
    and "scale_bid (CurrentBid ctx) (TargetACoS (eff_params s) / cost_ratio ctx) < CurrentBid ctx"
  shows "\<exists>d. CalculateBid loc tnow s ctx = Some d \<and> bd_OldBid d = CurrentBid ctx \<and> bd_NewBid d < CurrentBid ctx"
proof -
  let ?p = "eff_params s" and ?cur = "CurrentBid ctx"
  let ?raw = "scale_bid ?cur (TargetACoS ?p / cost_ratio ctx)"
  have c: "0 < ?cur" "?cur \<le> 2 ^ 46" "?cur \<le> 2 ^ 53" using assms(1) by (simp_all add: bid_range_def)
  obtain pct where "MaxChangePercent ?p = Fin pct" "1 \<le> pct" "pct \<le> 100"
    using bid_range_pct [OF assms(1)] assms(5) by auto
  with max_delta_pos [OF c(1,2)] have m: "1 \<le> max_delta ?cur (MaxChangePercent ?p)" by simp
  have "\<exists>reason a. calculateACoSBid ?p ctx = (?raw, reason, a)"
    using assms(6-9) by (simp add: calculateACoSBid_def Let_def)
  then obtain reason a where raw: "raw_bid loc tnow (st_Type s) ?p ctx = Some (?raw, reason, a, None)"
    using assms(2) by (auto simp: raw_bid_types)
  obtain nb rs where nb: "applyBidDecisionLimits ?cur ?raw reason ?p = (nb, rs)" by fastforce
  have "nb < ?cur"
    using limits_strict_down [OF c(1,3) less_imp_le [OF assms(10)] assms(11) m bid_range_delta(2) [OF assms(1)] assms(3,4),
        of reason] nb by simp
  with raw nb assms(10,11) c(1) show ?thesis by (simp add: CalculateBid_def increase_blocked_def)
qed

theorem acos_over_target_acts_witness:
  "\<exists>d. CalculateBid (\<lambda>_. None) 0 (wit_strategy StrategyTypeOzonCPCTargetDRR) (wit_ctx 250) = Some d \<and>
       bd_OldBid d = 100 \<and> bd_NewBid d < 100"
proof -
  let ?s = "wit_strategy StrategyTypeOzonCPCTargetDRR"
  have e: "st_Type ?s = StrategyTypeOzonCPCTargetDRR" "MinBid (eff_params ?s) < CurrentBid (wit_ctx 250)"
    "CurrentBid (wit_ctx 250) \<le> MaxBid (eff_params ?s)" "Fin 1 \<le> MaxChangePercent (eff_params ?s)"
    "MinClicks (eff_params ?s) \<le> Clicks (wit_ctx 250)" "\<not> feq (Revenue (wit_ctx 250)) 0"
    "\<not> feq (TargetACoS (eff_params ?s)) 0" "cost_ratio (wit_ctx 250) > TargetACoS (eff_params ?s)"
    "0 < scale_bid (CurrentBid (wit_ctx 250)) (TargetACoS (eff_params ?s) / cost_ratio (wit_ctx 250))"
    "scale_bid (CurrentBid (wit_ctx 250)) (TargetACoS (eff_params ?s) / cost_ratio (wit_ctx 250)) < CurrentBid (wit_ctx 250)"
    "CurrentBid (wit_ctx 250) = 100"
    by (simp_all add: bid_wit_eval)
  from acos_over_target_acts [OF wit_ranges(1) disjI2 [OF e(1)] e(2-10), of "\<lambda>_. None" 0] e(11)
  show ?thesis by simp
qed

end
