(* ===== verification/Ozon_Strategy.thy ===== *)
theory Ozon_Strategy
  imports Ozon_Total_DRR Ozon_Guardrails Bid_Engine
begin

text \<open>
  The deterministic bid strategy of the second marketplace, \<^verbatim>\<open>internal/service/ozon_strategy.go\<close>: for every bound
  campaign it asks the bid engine, checks the ceilings, the cooldown and the call budget, records a change per
  product, writes the bids and settles the changes. It composes \<open>Bid_Engine\<close>, \<open>Ozon_Total_DRR\<close> and \<open>Ozon_Budget\<close>.
\<close>

section \<open>State and environment\<close>

definition MarketplaceOzon :: string where "MarketplaceOzon = ''ozon''"
definition OzonBidKindCPC :: string where "OzonBidKindCPC = ''cpc''"
definition OzonBidStatusPending :: string where "OzonBidStatusPending = ''pending''"
definition OzonBidStatusApplied :: string where "OzonBidStatusApplied = ''applied''"
definition OzonBidStatusFailed :: string where "OzonBidStatusFailed = ''failed''"
definition OzonBidStatusShadow :: string where "OzonBidStatusShadow = ''shadow''"
definition BidSourceStrategy :: string where "BidSourceStrategy = ''strategy''"

lemmas ozon_status_defs = OzonBidStatusPending_def OzonBidStatusApplied_def OzonBidStatusFailed_def OzonBidStatusShadow_def

text \<open>The stored error: a budget reason by its parts, or the text of the client, cut to 500 bytes.\<close>

definition truncateError :: "string \<Rightarrow> string" where
  "truncateError message = (if length message > 500 then take 500 message else message)"

datatype change_error = BudgetBlocked block_reason int | ClientError string

record OzonBidChange =
  bc_ID :: uuid
  bc_CampaignID :: uuid
  bc_Kind :: string
  bc_Sku :: int
  bc_OldBidRub :: f64
  bc_NewBidRub :: f64
  bc_Reason :: string
  bc_Source :: string
  bc_Status :: string
  bc_Error :: "change_error option"
  bc_CreatedAt :: int
  bc_AppliedAt :: "int option"

record OzonCabinet =
  cab_ID :: uuid
  cab_WorkspaceID :: uuid
  cab_Marketplace :: string
  cab_EncryptedCredentials :: string

text \<open>
  \<open>oz_bindings\<close> holds strategy and campaign of a binding, oldest first, \<open>oz_strategies\<close> the strategies, newest
  first. \<open>oz_sent\<close> records the attempts to write bids: cabinet, campaign and the bids; \<open>oz_sent_at\<close>, in
  step with it, the times at which their answers were back.
\<close>

record ozon_db =
  oz_tables :: ozon_tables
  oz_strategies :: "Strategy list"
  oz_bindings :: "(uuid \<times> uuid) list"
  oz_cabinets :: "OzonCabinet list"
  ozon_bid_changes :: "OzonBidChange list"
  ozon_api_call_counters :: "OzonAPICallCounter list"
  oz_sent :: "(uuid \<times> int \<times> (int \<times> f64) list) list"
  oz_sent_at :: "int list"
  oz_calls :: nat

datatype write_answer = Written | QuotaError string | WriteError string

text \<open>
  Clock, fresh ids, failing statements and the answers of the marketplace are functions of a call counter. \<open>oe_count_fault\<close>
  makes a read of the call counters fail, \<open>oe_decrypt\<close> gives the credentials, of which only the presence of the
  advertising part matters, and \<open>oe_attributed\<close> answers the statement that splits the turnover.
\<close>

record ozon_env =
  oe_now :: "nat \<Rightarrow> int"
  oe_uuid :: "nat \<Rightarrow> uuid"
  oe_fault :: "nat \<Rightarrow> bool"
  oe_count_fault :: "nat \<Rightarrow> bool"
  oe_loc :: "string \<Rightarrow> location option"
  oe_decrypt :: "string \<Rightarrow> bool option"
  oe_min_bids :: "nat \<Rightarrow> int list \<Rightarrow> (int \<times> f64) list option"
  oe_set_bids :: "nat \<Rightarrow> int \<Rightarrow> (int \<times> f64) list \<Rightarrow> write_answer"
  oe_attributed :: "nat \<Rightarrow> uuid \<Rightarrow> int \<Rightarrow> int \<Rightarrow> OzonCampaignAttributedTurnoverByCabinetRow list"

definition oz_tick :: "ozon_db \<Rightarrow> ozon_db" where
  "oz_tick db = db\<lparr>oz_calls := Suc (oz_calls db)\<rparr>"

definition oz_read :: "ozon_env \<Rightarrow> (ozon_db \<Rightarrow> 'a) \<Rightarrow> ozon_db \<Rightarrow> 'a option \<times> ozon_db" where
  "oz_read env q db = (if oe_fault env (oz_calls db) then None else Some (q db), oz_tick db)"

definition oz_upd :: "ozon_env \<Rightarrow> (int \<Rightarrow> uuid \<Rightarrow> ozon_db \<Rightarrow> ozon_db) \<Rightarrow> ozon_db \<Rightarrow> uuid option \<times> ozon_db" where
  "oz_upd env f db =
     (let n = oz_calls db
      in if oe_fault env n then (None, oz_tick db) else (Some (oe_uuid env n), oz_tick (f (oe_now env n) (oe_uuid env n) db)))"

section \<open>Statements\<close>

definition AggregateOzonCampaignStatsWindow :: "uuid \<Rightarrow> int \<Rightarrow> int \<Rightarrow> ozon_tables \<Rightarrow> int \<times> int \<times> rat \<times> int \<times> rat" where
  "AggregateOzonCampaignStatsWindow cid a b db =
     (let rows = filter (\<lambda>s. os_CampaignID s = cid \<and> between a b (os_Date s)) (ozon_campaign_stats db)
      in (sum_list (map os_Views rows), sum_list (map os_Clicks rows), sum_list (map os_SpendRub rows),
          sum_list (map os_Orders rows), sum_list (map os_RevenueRub rows)))"

definition ListOzonCampaignProducts :: "uuid \<Rightarrow> ozon_tables \<Rightarrow> OzonCampaignProduct list" where
  "ListOzonCampaignProducts cid db = sort_key op_Sku (filter (\<lambda>p. op_CampaignID p = cid) (ozon_campaign_products db))"

definition guard_rows :: "uuid \<Rightarrow> OzonBidChange list \<Rightarrow> OzonBidChange list" where
  "guard_rows cid changes =
     filter (\<lambda>c. bc_CampaignID c = cid \<and> bc_Source c = BidSourceStrategy \<and>
               bc_Status c \<in> {OzonBidStatusPending, OzonBidStatusApplied, OzonBidStatusShadow}) changes"

definition GetOzonStrategyGuardState :: "uuid \<Rightarrow> int \<Rightarrow> OzonBidChange list \<Rightarrow> int \<times> int option" where
  "GetOzonStrategyGuardState cid dayStart changes =
     (let rows = guard_rows cid changes;
          per_sku = map (\<lambda>sku. int (length (filter (\<lambda>c. bc_Sku c = sku \<and> bc_CreatedAt c \<ge> dayStart) rows))) (remdups (map bc_Sku rows))
      in (foldr max per_sku 0, max_date (map bc_CreatedAt rows)))"

definition InsertOzonBidChange :: "uuid \<Rightarrow> int \<Rightarrow> f64 \<Rightarrow> f64 \<Rightarrow> string \<Rightarrow> string \<Rightarrow> int \<Rightarrow> uuid \<Rightarrow> ozon_db \<Rightarrow> ozon_db" where
  "InsertOzonBidChange cid sku old new reason status now newID db =
     db\<lparr>ozon_bid_changes := ozon_bid_changes db @
       [\<lparr>bc_ID = newID, bc_CampaignID = cid, bc_Kind = OzonBidKindCPC, bc_Sku = sku, bc_OldBidRub = old, bc_NewBidRub = new,
         bc_Reason = reason, bc_Source = BidSourceStrategy, bc_Status = status, bc_Error = None, bc_CreatedAt = now, bc_AppliedAt = None\<rparr>]\<rparr>"

definition MarkOzonBidChangeResult :: "uuid \<Rightarrow> string \<Rightarrow> change_error option \<Rightarrow> int \<Rightarrow> ozon_db \<Rightarrow> ozon_db" where
  "MarkOzonBidChangeResult cid status err now db =
     db\<lparr>ozon_bid_changes := map (\<lambda>c. if bc_ID c = cid
         then c\<lparr>bc_Status := status, bc_Error := err, bc_AppliedAt := (if status = OzonBidStatusApplied then Some now else bc_AppliedAt c)\<rparr>
         else c) (ozon_bid_changes db)\<rparr>"

definition UpdateOzonCampaignProductBid :: "uuid \<Rightarrow> int \<Rightarrow> f64 \<Rightarrow> ozon_db \<Rightarrow> ozon_db" where
  "UpdateOzonCampaignProductBid cid sku bid db =
     db\<lparr>oz_tables := (oz_tables db)\<lparr>ozon_campaign_products :=
       map (\<lambda>p. if op_CampaignID p = cid \<and> op_Sku p = sku then p\<lparr>op_BidRub := bid\<rparr> else p) (ozon_campaign_products (oz_tables db))\<rparr>\<rparr>"

definition ListOzonCampaignBindingsByStrategy :: "uuid \<Rightarrow> ozon_db \<Rightarrow> OzonCampaign list" where
  "ListOzonCampaignBindingsByStrategy sid db =
     concat (map (\<lambda>(s, cid). if s = sid then filter (\<lambda>c. oz_ID c = cid) (ozon_campaigns (oz_tables db)) else []) (oz_bindings db))"

definition ListActiveStrategiesByWorkspace :: "uuid \<Rightarrow> ozon_db \<Rightarrow> Strategy list" where
  "ListActiveStrategiesByWorkspace ws db = filter (\<lambda>s. st_WorkspaceID s = ws \<and> st_IsActive s) (oz_strategies db)"

section \<open>Guards\<close>

datatype guard_reason = DailyChangeLimit int int | CooldownActive int

definition ozonStrategyGuardReason :: "int \<Rightarrow> int option \<Rightarrow> StrategyParams \<Rightarrow> int \<Rightarrow> guard_reason option" where
  "ozonStrategyGuardReason changesToday lastChangeAt params now =
     (if MaxChangesPerDay params > 0 \<and> changesToday \<ge> MaxChangesPerDay params
      then Some (DailyChangeLimit changesToday (MaxChangesPerDay params))
      else if some_and (\<lambda>l. CooldownMinutes params > 0 \<and> 1000 * (now - l) < wrap64 (CooldownMinutes params * 60000000000)) lastChangeAt
      then Some (CooldownActive (now - the lastChangeAt)) else None)"

definition ozonStrategyDayStart :: "int \<Rightarrow> int" where
  "ozonStrategyDayStart now = trunc_day (now + 3 * hour) - 3 * hour"

text \<open>The budget check and the count of one call, with the clock and the failures of the environment.\<close>

definition budget_check :: "ozon_env \<Rightarrow> uuid \<Rightarrow> ozon_db \<Rightarrow> (block_reason \<times> int) option \<times> ozon_db" where
  "budget_check env cab db =
     (let n = oz_calls db
      in (AutomationBlockReason (oe_count_fault env n) (oe_count_fault env (n + 1)) (\<lambda>k. oe_count_fault env (n + 2 + k))
            (oe_now env n) (oe_now env (n + 1)) cab ozonAPICategoryBidWrite 1 (ozon_api_call_counters db),
          db\<lparr>oz_calls := n + 30\<rparr>))"

definition budget_record :: "ozon_env \<Rightarrow> uuid \<Rightarrow> ozon_db \<Rightarrow> ozon_db" where
  "budget_record env cab db =
     (let n = oz_calls db
      in oz_tick (db\<lparr>ozon_api_call_counters :=
           Record (oe_fault env n) cab ozonAPICategoryBidWrite 1 (oe_now env n) (ozon_api_call_counters db)\<rparr>))"

section \<open>One campaign\<close>

definition current_bids :: "OzonCampaignProduct list \<Rightarrow> (int \<times> f64) list" where
  "current_bids rows = map (\<lambda>p. (op_Sku p, op_BidRub p)) (filter (\<lambda>p. op_IsActive p \<and> \<not> op_BidRub p \<le> Fin 0) rows)"

definition average_bid :: "(int \<times> f64) list \<Rightarrow> int" where
  "average_bid bids = int_of_float (math_Round (foldl (+) (Fin 0) (map snd bids) / float_of_int (int (length bids))))"

definition campaign_context :: "int \<times> int \<times> rat \<times> int \<times> rat \<Rightarrow> int \<Rightarrow> int \<Rightarrow> BidContext" where
  "campaign_context agg avgBid now =
     (let (views, clicks, spend, orders, revenue) = agg
      in \<lparr>CurrentBid = avgBid, Impressions = views, Clicks = clicks, Spend = pgNumericToFloat (Some spend),
          Revenue = pgNumericToFloat (Some revenue), Orders = orders, Placement = ''ozon_cpc'', IncreaseGuardrail = None,
          AvgPosition = Fin 0, HasPosition = False, PrevImpressions = 0, BuyerPrice = Fin 0, DaypartingBaselineBid = 0,
          DaypartingSlotApplied = False, DecisionTime = Some now\<rparr>)"

text \<open>The prefix of the reason, as its UTF-8 bytes.\<close>

definition total_prefix :: string where
  "total_prefix = [CHR 0xD0, CHR 0x94, CHR 0xD0, CHR 0xA0, CHR 0xD0, CHR 0xA0, CHR 0x20, CHR 0xD0, CHR 0xBE, CHR 0xD1, CHR 0x82, CHR 0x20,
     CHR 0xD0, CHR 0xBE, CHR 0xD0, CHR 0xB1, CHR 0xD1, CHR 0x89, CHR 0xD0, CHR 0xB5, CHR 0xD0, CHR 0xB3, CHR 0xD0, CHR 0xBE, CHR 0x20,
     CHR 0xD0, CHR 0xBE, CHR 0xD0, CHR 0xB1, CHR 0xD0, CHR 0xBE, CHR 0xD1, CHR 0x80, CHR 0xD0, CHR 0xBE, CHR 0xD1, CHR 0x82, CHR 0xD0, CHR 0xB0,
     CHR 0x3A, CHR 0x20]"

text \<open>The decision of the second target: the strategy with that target on the attributed turnover.\<close>

definition total_decision :: "(string \<Rightarrow> location option) \<Rightarrow> int \<Rightarrow> Strategy \<Rightarrow> StrategyParams \<Rightarrow> BidContext \<Rightarrow> campaignTotalDRR \<Rightarrow> BidDecision option" where
  "total_decision loc now strategy params ctx ct =
     CalculateBid loc now (strategy\<lparr>st_Params := (st_Params strategy)\<lparr>TargetACoS := TargetTotalDRRPercent params\<rparr>\<rparr>)
       (ctx\<lparr>Revenue := td_RevenueRub (ct_total ct)\<rparr>)"

definition campaign_decision ::
    "(string \<Rightarrow> location option) \<Rightarrow> int \<Rightarrow> Strategy \<Rightarrow> StrategyParams \<Rightarrow> BidContext \<Rightarrow> f64 option \<Rightarrow> totalDRR \<Rightarrow> campaignTotalDRR \<Rightarrow> BidDecision option" where
  "campaign_decision loc now strategy params ctx ceil tot ct =
     (case CalculateBid loc now strategy ctx of
        None \<Rightarrow> None
      | Some decision \<Rightarrow>
        if bd_OldBid decision \<le> 0 \<or> bd_NewBid decision = bd_OldBid decision then None
        else if bd_NewBid decision > bd_OldBid decision \<and> totalDRRIncreaseBlockReason ceil tot \<noteq> None then None
        else if TargetTotalDRRPercent params > Fin 0 \<and> td_Status (ct_total ct) = totalDRRStatusOK then
          (let decision' =
             (case total_decision loc now strategy params ctx ct of
                None \<Rightarrow> decision
              | Some t \<Rightarrow> if bd_NewBid t < bd_NewBid decision then t\<lparr>bd_Reason := total_prefix @ bd_Reason t\<rparr> else decision)
           in if bd_NewBid decision' = bd_OldBid decision' then None else Some decision')
        else Some decision)"

definition multiplier :: "BidDecision \<Rightarrow> f64" where
  "multiplier d = float_of_int (bd_NewBid d) / float_of_int (bd_OldBid d)"

text \<open>The new bid of a product, unless it is to be skipped.\<close>

definition scaled_bid :: "(int \<rightharpoonup> f64) \<Rightarrow> f64 \<Rightarrow> int \<times> f64 \<Rightarrow> f64 option" where
  "scaled_bid minBids mult item =
     (let (sku, bid) = item;
          newBid0 = roundRub (bid * mult);
          newBid = (case minBids sku of None \<Rightarrow> newBid0 | Some m \<Rightarrow> if m > Fin 0 \<and> newBid0 < m then roundRub m else newBid0)
      in if newBid \<le> Fin 0 \<or> feq newBid bid then None else Some newBid)"

definition fillMinBids :: "ozon_env \<Rightarrow> int list \<Rightarrow> (int \<rightharpoonup> f64) \<Rightarrow> ozon_db \<Rightarrow> bool \<times> (int \<rightharpoonup> f64) \<times> ozon_db" where
  "fillMinBids env skus cache db =
     (let missing = filter (\<lambda>sku. cache sku = None) skus
      in if missing = [] then (True, cache, db)
         else case oe_min_bids env (oz_calls db) missing of
           None \<Rightarrow> (False, cache, oz_tick db)
         | Some rows \<Rightarrow>
           let found = foldl (\<lambda>m (sku, bid). m(sku \<mapsto> bid)) Map.empty rows
           in (True, foldl (\<lambda>c sku. c(sku \<mapsto> (case found sku of None \<Rightarrow> Fin 0 | Some b \<Rightarrow> b))) cache missing, oz_tick db))"

text \<open>The loop that records the changes: \<open>None\<close> when an insert fails, else the ids and the bids.\<close>

fun insert_changes ::
    "ozon_env \<Rightarrow> uuid \<Rightarrow> string \<Rightarrow> string \<Rightarrow> (int \<rightharpoonup> f64) \<Rightarrow> f64 \<Rightarrow> (int \<times> f64) list \<Rightarrow> ozon_db \<Rightarrow> (uuid \<times> int \<times> f64) list option \<times> ozon_db" where
  "insert_changes env cid reason status minBids mult [] db = (Some [], db)"
| "insert_changes env cid reason status minBids mult (item # items) db =
     (case scaled_bid minBids mult item of
        None \<Rightarrow> insert_changes env cid reason status minBids mult items db
      | Some newBid \<Rightarrow>
        (case oz_upd env (InsertOzonBidChange cid (fst item) (snd item) newBid reason status) db of
           (None, db') \<Rightarrow> (None, db')
         | (Some newID, db') \<Rightarrow>
           (case insert_changes env cid reason status minBids mult items db' of
              (None, db'') \<Rightarrow> (None, db'')
            | (Some news, db'') \<Rightarrow> (Some ((newID, fst item, newBid) # news), db''))))"

text \<open>The loops that settle the changes and mirror the bids only log a failing statement.\<close>

definition mark_changes :: "ozon_env \<Rightarrow> uuid list \<Rightarrow> string \<Rightarrow> change_error option \<Rightarrow> ozon_db \<Rightarrow> ozon_db" where
  "mark_changes env ids status err db =
     foldl (\<lambda>db i. snd (oz_upd env (\<lambda>now _. MarkOzonBidChangeResult i status err now) db)) db ids"

definition mirror_bids :: "ozon_env \<Rightarrow> uuid \<Rightarrow> (int \<times> f64) list \<Rightarrow> ozon_db \<Rightarrow> ozon_db" where
  "mirror_bids env cid bids db =
     foldl (\<lambda>db (sku, bid). snd (oz_upd env (\<lambda>_ _. UpdateOzonCampaignProductBid cid sku bid) db)) db bids"

datatype run_error =
    AggregateFailed | ProductsFailed | GuardStateFailed | MinBidsUnavailable | RecordFailed | SetBidsFailed string
  | CabinetNotFound | CabinetReadFailed | NotAnOzonCabinet | DecryptFailed | NoPerformanceAPI | BindingsFailed | StrategiesFailed

definition write_bids :: "ozon_env \<Rightarrow> uuid \<Rightarrow> OzonCampaign \<Rightarrow> (uuid \<times> int \<times> f64) list \<Rightarrow> ozon_db \<Rightarrow> (int \<times> run_error option) \<times> ozon_db" where
  "write_bids env cab campaign news db =
     (let ids = map fst news; bids = map snd news
      in case budget_check env cab db of
           (Some (reason, reset), db1) \<Rightarrow> ((0, None), mark_changes env ids OzonBidStatusFailed (Some (BudgetBlocked reason reset)) db1)
         | (None, db1) \<Rightarrow>
           let answer = oe_set_bids env (oz_calls db1) (oz_OzonCampaignID campaign) bids;
               db2 = (oz_tick db1)\<lparr>oz_sent := oz_sent db1 @ [(cab, oz_OzonCampaignID campaign, bids)],
                 oz_sent_at := oz_sent_at db1 @ [oe_now env (oz_calls (oz_tick db1))]\<rparr>;
               db3 = budget_record env cab db2
           in case answer of
                Written \<Rightarrow> ((1, None), mirror_bids env (oz_ID campaign) bids (mark_changes env ids OzonBidStatusApplied None db3))
              | QuotaError e \<Rightarrow> ((0, None), mark_changes env ids OzonBidStatusFailed (Some (ClientError (truncateError e))) db3)
              | WriteError e \<Rightarrow> ((0, Some (SetBidsFailed e)), mark_changes env ids OzonBidStatusFailed (Some (ClientError (truncateError e))) db3))"

definition apply_decision ::
    "ozon_env \<Rightarrow> Strategy \<Rightarrow> StrategyParams \<Rightarrow> OzonCampaign \<Rightarrow> BidDecision \<Rightarrow> (int \<times> f64) list \<Rightarrow> (int \<rightharpoonup> f64) \<Rightarrow> ozon_db
       \<Rightarrow> (int \<times> run_error option) \<times> (int \<rightharpoonup> f64) \<times> ozon_db" where
  "apply_decision env strategy params campaign decision bids cache db =
     (let shadow = AutomationLevel params < 3;
          (ok, cache', db1) = (if shadow then (True, cache, db) else fillMinBids env (map fst bids) cache db)
      in if \<not> ok then ((0, Some MinBidsUnavailable), cache', db1)
         else case insert_changes env (oz_ID campaign) (bd_Reason decision) (if shadow then OzonBidStatusShadow else OzonBidStatusPending)
                     cache' (multiplier decision) bids db1 of
           (None, db2) \<Rightarrow> ((0, Some RecordFailed), cache', db2)
         | (Some news, db2) \<Rightarrow>
           if news = [] \<or> shadow then ((0, None), cache', db2)
           else let (r, db3) = write_bids env (st_SellerCabinetID strategy) campaign news db2 in (r, cache', db3))"

definition runCampaign ::
    "ozon_env \<Rightarrow> Strategy \<Rightarrow> StrategyParams \<Rightarrow> OzonCampaign \<Rightarrow> int \<Rightarrow> (int \<rightharpoonup> f64) \<Rightarrow> totalDRR \<Rightarrow>
       (uuid \<Rightarrow> OzonCampaignAttributedTurnoverByCabinetRow option) \<Rightarrow> f64 option \<Rightarrow> ozon_db \<Rightarrow> (int \<times> run_error option) \<times> (int \<rightharpoonup> f64) \<times> ozon_db" where
  "runCampaign env strategy params campaign now cache tot attributed ceil db =
     (if oz_State campaign \<noteq> Some ozonCampaignStateRunning then ((0, None), cache, db)
      else case oz_read env (\<lambda>db. AggregateOzonCampaignStatsWindow (oz_ID campaign) (trunc_day (now - LookbackDays params * day))
                  (trunc_day now - day) (oz_tables db)) db of
        (None, db1) \<Rightarrow> ((0, Some AggregateFailed), cache, db1)
      | (Some agg, db1) \<Rightarrow>
        if fst (snd agg) < MinClicks params then ((0, None), cache, db1)
        else case oz_read env (\<lambda>db. ListOzonCampaignProducts (oz_ID campaign) (oz_tables db)) db1 of
          (None, db2) \<Rightarrow> ((0, Some ProductsFailed), cache, db2)
        | (Some rows, db2) \<Rightarrow>
          if current_bids rows = [] \<or> average_bid (current_bids rows) \<le> 0 then ((0, None), cache, db2)
          else
            let ctx = campaign_context agg (average_bid (current_bids rows)) now
            in case campaign_decision (oe_loc env) now strategy params ctx ceil tot
                      (campaignTotalDRRFrom (attributed (oz_ID campaign)) (Spend ctx) now (MaxDataAgeHours params)) of
                 None \<Rightarrow> ((0, None), cache, db2)
               | Some decision \<Rightarrow>
                 (case oz_read env (\<lambda>db. GetOzonStrategyGuardState (oz_ID campaign) (ozonStrategyDayStart now) (ozon_bid_changes db)) db2 of
                    (None, db3) \<Rightarrow> ((0, Some GuardStateFailed), cache, db3)
                  | (Some guard, db3) \<Rightarrow>
                    if ozonStrategyGuardReason (fst guard) (snd guard) params now \<noteq> None then ((0, None), cache, db3)
                    else apply_decision env strategy params campaign decision (current_bids rows) cache db3))"

section \<open>Strategies and workspaces\<close>

definition strategyCredentials :: "ozon_env \<Rightarrow> uuid \<Rightarrow> Strategy \<Rightarrow> ozon_db \<Rightarrow> run_error option \<times> ozon_db" where
  "strategyCredentials env ws strategy db =
     (case oz_read env (\<lambda>db. find (\<lambda>c. cab_ID c = st_SellerCabinetID strategy) (oz_cabinets db)) db of
        (None, db1) \<Rightarrow> (Some CabinetReadFailed, db1)
      | (Some None, db1) \<Rightarrow> (Some CabinetNotFound, db1)
      | (Some (Some cabinet), db1) \<Rightarrow>
        if cab_WorkspaceID cabinet \<noteq> ws \<or> cab_Marketplace cabinet \<noteq> MarketplaceOzon then (Some NotAnOzonCabinet, db1)
        else case oe_decrypt env (cab_EncryptedCredentials cabinet) of
          None \<Rightarrow> (Some DecryptFailed, db1)
        | Some hasPerformanceAPI \<Rightarrow> if hasPerformanceAPI then (None, db1) else (Some NoPerformanceAPI, db1))"

fun run_campaigns ::
    "ozon_env \<Rightarrow> Strategy \<Rightarrow> StrategyParams \<Rightarrow> int \<Rightarrow> totalDRR \<Rightarrow> (uuid \<Rightarrow> OzonCampaignAttributedTurnoverByCabinetRow option) \<Rightarrow> f64 option \<Rightarrow>
       OzonCampaign list \<Rightarrow> (int \<rightharpoonup> f64) \<Rightarrow> ozon_db \<Rightarrow> (int \<times> run_error list) \<times> ozon_db" where
  "run_campaigns env strategy params now tot attributed ceil [] cache db = ((0, []), db)"
| "run_campaigns env strategy params now tot attributed ceil (c # cs) cache db =
     (let ((count, err), cache', db') = runCampaign env strategy params c now cache tot attributed ceil db;
          ((applied, errs), db'') = run_campaigns env strategy params now tot attributed ceil cs cache' db'
      in ((count + applied, (case err of None \<Rightarrow> errs | Some e \<Rightarrow> e # errs)), db''))"

text \<open>What a run measures before its campaigns: the share of the whole turnover, the split turnover and the ceiling.\<close>

definition load_limits ::
    "ozon_env \<Rightarrow> Strategy \<Rightarrow> StrategyParams \<Rightarrow> int \<Rightarrow> ozon_db \<Rightarrow>
       totalDRR \<times> (uuid \<Rightarrow> OzonCampaignAttributedTurnoverByCabinetRow option) \<times> incrementalDRR \<times> f64 option \<times> ozon_db" where
  "load_limits env strategy params now db =
     (let n = oz_calls db; cab = st_SellerCabinetID strategy; since = now - LookbackDays params * day; t = oz_tables db;
          tot = loadCabinetTotalDRR (oe_fault env n) cab since now (MaxDataAgeHours params) t;
          now2 = oe_now env (n + 1);
          attributed = loadCampaignAttributedTurnover
            (if oe_fault env (n + 1) then None else Some (oe_attributed env (n + 1) cab (trunc_day since) (trunc_day now2 - day))) since now2;
          incremental = loadIncrementalDRR (oe_fault env (n + 2)) (oe_fault env (n + 3)) cab now (LookbackDays params) t;
          margin = loadCabinetMargin (oe_fault env (n + 4)) cab since t;
          buyout = loadBuyoutPercent (oe_fault env (n + 5)) cab (ExpectedBuyoutPercent params) t;
          ceil = fst (resolveTotalDRRCeiling (MaxTotalDRRPercent params) margin (TargetMarginPercent params) (fst buyout))
      in (tot, attributed, incremental, ceil, db\<lparr>oz_calls := n + 6\<rparr>))"

definition runStrategy :: "ozon_env \<Rightarrow> uuid \<Rightarrow> Strategy \<Rightarrow> ozon_db \<Rightarrow> (int \<times> run_error list) \<times> ozon_db" where
  "runStrategy env ws strategy db =
     (let params = Merged (st_Params strategy)
      in case strategyCredentials env ws strategy db of
           (Some e, db1) \<Rightarrow> ((0, [e]), db1)
         | (None, db1) \<Rightarrow>
           (case oz_read env (ListOzonCampaignBindingsByStrategy (st_ID strategy)) db1 of
              (None, db2) \<Rightarrow> ((0, [BindingsFailed]), db2)
            | (Some bindings, db2) \<Rightarrow>
              if bindings = [] then ((0, []), db2)
              else
                let now = oe_now env (oz_calls db2);
                    (tot, attributed, incremental, ceil, db3) = load_limits env strategy params now db2
                in run_campaigns env strategy params now tot attributed ceil bindings Map.empty db3))"

fun run_strategies :: "ozon_env \<Rightarrow> uuid \<Rightarrow> Strategy list \<Rightarrow> ozon_db \<Rightarrow> (int \<times> run_error list) \<times> ozon_db" where
  "run_strategies env ws [] db = ((0, []), db)"
| "run_strategies env ws (s # ss) db =
     (if \<not> IsOzonStrategy (st_Type s) \<or> st_Type s = StrategyTypeOzonAIAutopilot \<or> IsOzonPriceStrategy (st_Type s)
      then run_strategies env ws ss db
      else
        let ((count, errs), db') = runStrategy env ws s db; ((applied, errs'), db'') = run_strategies env ws ss db'
        in ((count + applied, errs @ errs'), db''))"

definition RunForWorkspace :: "ozon_env \<Rightarrow> uuid \<Rightarrow> ozon_db \<Rightarrow> (int \<times> run_error list) \<times> ozon_db" where
  "RunForWorkspace env ws db =
     (case oz_read env (ListActiveStrategiesByWorkspace ws) db of
        (None, db1) \<Rightarrow> ((0, [StrategiesFailed]), db1)
      | (Some rows, db1) \<Rightarrow> run_strategies env ws rows db1)"

definition CleanupAPICounters :: "ozon_env \<Rightarrow> ozon_db \<Rightarrow> ozon_db" where
  "CleanupAPICounters env db =
     snd (oz_upd env (\<lambda>now _ db. db\<lparr>ozon_api_call_counters := CleanupCounters now (ozon_api_call_counters db)\<rparr>) db)"

section \<open>Frames\<close>

text \<open>A part of a run that writes no bids and counts no calls.\<close>

definition quiet :: "ozon_db \<Rightarrow> ozon_db \<Rightarrow> bool" where
  "quiet db db' \<longleftrightarrow> oz_sent db' = oz_sent db \<and> oz_sent_at db' = oz_sent_at db \<and> ozon_api_call_counters db' = ozon_api_call_counters db \<and> oz_calls db \<le> oz_calls db'"

lemma quiet_refl [simp]: "quiet db db" and quiet_trans [trans]: "\<lbrakk>quiet a b; quiet b c\<rbrakk> \<Longrightarrow> quiet a c"
  by (auto simp: quiet_def)

lemma oz_tick_simps [simp]: "oz_sent (oz_tick db) = oz_sent db" "oz_sent_at (oz_tick db) = oz_sent_at db" "ozon_api_call_counters (oz_tick db) = ozon_api_call_counters db"
  "ozon_bid_changes (oz_tick db) = ozon_bid_changes db" "oz_tables (oz_tick db) = oz_tables db" "oz_calls (oz_tick db) = Suc (oz_calls db)"
  by (simp_all add: oz_tick_def)

lemma quiet_tick [simp]: "quiet db (oz_tick db)"
  by (simp add: quiet_def)

lemma oz_read_eq: "oz_read env q db = (x, db') \<longleftrightarrow> x = (if oe_fault env (oz_calls db) then None else Some (q db)) \<and> db' = oz_tick db"
  by (auto simp: oz_read_def)

lemma quiet_upd:
  assumes "\<And>now i. oz_sent (f now i db) = oz_sent db" "\<And>now i. oz_sent_at (f now i db) = oz_sent_at db"
    "\<And>now i. ozon_api_call_counters (f now i db) = ozon_api_call_counters db"
    "\<And>now i. oz_calls (f now i db) = oz_calls db"
  shows "quiet db (snd (oz_upd env f db))"
  using assms by (simp add: oz_upd_def quiet_def Let_def)

lemma quiet_mark: "quiet db (mark_changes env ids status err db)"
proof (induction ids arbitrary: db)
  case (Cons i ids)
  have "quiet db (snd (oz_upd env (\<lambda>now _. MarkOzonBidChangeResult i status err now) db))"
    by (rule quiet_upd) (simp_all add: MarkOzonBidChangeResult_def)
  also note Cons.IH
  finally show ?case by (simp add: mark_changes_def)
qed (simp add: mark_changes_def)

lemma quiet_mirror: "quiet db (mirror_bids env cid bids db)"
proof (induction bids arbitrary: db)
  case (Cons b bids)
  obtain sku bid where b: "b = (sku, bid)" by fastforce
  have "quiet db (snd (oz_upd env (\<lambda>_ _. UpdateOzonCampaignProductBid cid sku bid) db))"
    by (rule quiet_upd) (simp_all add: UpdateOzonCampaignProductBid_def)
  also note Cons.IH
  finally show ?case by (simp add: mirror_bids_def b)
qed (simp add: mirror_bids_def)

lemma quiet_fill: "quiet db (snd (snd (fillMinBids env skus cache db)))"
  by (simp add: fillMinBids_def Let_def split: option.split)

lemma fill_same: "ozon_bid_changes (snd (snd (fillMinBids env skus cache db))) = ozon_bid_changes db"
  "oz_tables (snd (snd (fillMinBids env skus cache db))) = oz_tables db"
  by (simp_all add: fillMinBids_def Let_def split: option.split)

text \<open>The recording loop only appends rows; what it returns are their ids, products and bids.\<close>

definition row_of :: "uuid \<Rightarrow> string \<Rightarrow> OzonBidChange \<Rightarrow> bool" where
  "row_of cid status r \<longleftrightarrow> bc_CampaignID r = cid \<and> bc_Status r = status \<and> bc_Source r = BidSourceStrategy"

definition triple :: "OzonBidChange \<Rightarrow> uuid \<times> int \<times> f64" where
  "triple r = (bc_ID r, bc_Sku r, bc_NewBidRub r)"

definition news_ok :: "(int \<rightharpoonup> f64) \<Rightarrow> f64 \<Rightarrow> (int \<times> f64) list \<Rightarrow> (uuid \<times> int \<times> f64) list \<Rightarrow> bool" where
  "news_ok minBids mult items news \<longleftrightarrow>
     (\<forall>n \<in> set news. \<exists>old. (fst (snd n), old) \<in> set items \<and> scaled_bid minBids mult (fst (snd n), old) = Some (snd (snd n)))"

lemma news_ok_mono: "news_ok minBids mult items news \<Longrightarrow> news_ok minBids mult (item # items) news"
  by (auto simp: news_ok_def)

lemma news_ok_Cons:
  "\<lbrakk>news_ok minBids mult items news; scaled_bid minBids mult (sku, old) = Some b\<rbrakk> \<Longrightarrow> news_ok minBids mult ((sku, old) # items) ((i, sku, b) # news)"
  by (auto simp: news_ok_def)

definition appended :: "uuid \<Rightarrow> string \<Rightarrow> OzonBidChange list \<Rightarrow> ozon_db \<Rightarrow> ozon_db \<Rightarrow> bool" where
  "appended cid status rows db db' \<longleftrightarrow> quiet db db' \<and> oz_tables db' = oz_tables db \<and>
     ozon_bid_changes db' = ozon_bid_changes db @ rows \<and> (\<forall>r \<in> set rows. row_of cid status r)"

lemma appended_trans: "\<lbrakk>appended cid status rs a b; appended cid status rs' b c\<rbrakk> \<Longrightarrow> appended cid status (rs @ rs') a c"
  by (auto simp: appended_def intro: quiet_trans)

lemma appended_tick: "appended cid status [] db (oz_tick db)"
  by (simp add: appended_def)

lemma appended_insert:
  "\<exists>r. appended cid status [r] db (oz_tick (InsertOzonBidChange cid sku old b reason status now i db)) \<and> triple r = (i, sku, b)"
  by (simp add: appended_def quiet_def InsertOzonBidChange_def row_of_def triple_def)

lemma insert_changes_appends:
  assumes "insert_changes env cid reason status minBids mult items db = (res, db')"
  shows "\<exists>rows. appended cid status rows db db' \<and> (\<forall>news. res = Some news \<longrightarrow> map triple rows = news \<and> news_ok minBids mult items news)"
  using assms
proof (induction items arbitrary: db res db')
  case Nil
  then show ?case by (intro exI [of _ "[]"]) (auto simp: appended_def news_ok_def)
next
  case (Cons item items)
  obtain sku old where item: "item = (sku, old)" by fastforce
  show ?case
  proof (cases "scaled_bid minBids mult item")
    case None
    then have "insert_changes env cid reason status minBids mult items db = (res, db')" using Cons.prems by simp
    from Cons.IH [OF this] obtain rows where "appended cid status rows db db'"
      "\<forall>news. res = Some news \<longrightarrow> map triple rows = news \<and> news_ok minBids mult items news" by blast
    then show ?thesis by (intro exI [of _ rows]) (simp add: news_ok_mono)
  next
    case (Some b)
    let ?n = "oz_calls db"
    let ?ins = "oz_tick (InsertOzonBidChange cid sku old b reason status (oe_now env ?n) (oe_uuid env ?n) db)"
    show ?thesis
    proof (cases "oe_fault env ?n")
      case True
      then have "res = None" "db' = oz_tick db" using Cons.prems Some by (auto simp: oz_upd_def Let_def)
      then show ?thesis using appended_tick by blast
    next
      case False
      obtain res2 db2 where r2: "insert_changes env cid reason status minBids mult items ?ins = (res2, db2)"
        by (cases "insert_changes env cid reason status minBids mult items ?ins") blast
      have "db2 = db' \<and> res = map_option (\<lambda>news. (oe_uuid env ?n, sku, b) # news) res2"
        using Cons.prems Some False by (cases res2) (simp_all add: oz_upd_def Let_def item r2)
      then have r: "insert_changes env cid reason status minBids mult items ?ins = (res2, db')"
        and e: "res = map_option (\<lambda>news. (oe_uuid env ?n, sku, b) # news) res2" using r2 by blast+
      obtain x where x: "appended cid status [x] db ?ins" "triple x = (oe_uuid env ?n, sku, b)" using appended_insert by blast
      obtain rows where rows: "appended cid status rows ?ins db'" "\<forall>news. res2 = Some news \<longrightarrow> map triple rows = news \<and> news_ok minBids mult items news"
        using Cons.IH [OF r] by blast
      have "appended cid status (x # rows) db db'" using appended_trans [OF x(1) rows(1)] by simp
      moreover have "\<forall>news. res = Some news \<longrightarrow> map triple (x # rows) = news \<and> news_ok minBids mult (item # items) news"
        using rows(2) x(2) news_ok_Cons Some unfolding e item by auto
      ultimately show ?thesis by blast
    qed
  qed
qed

text \<open>Settling: with statements that succeed, no change of the list keeps its status.\<close>

lemma mark_changes_Cons: "mark_changes env (i # ids) status err db =
    mark_changes env ids status err (snd (oz_upd env (\<lambda>now _. MarkOzonBidChangeResult i status err now) db))"
  by (simp add: mark_changes_def)

lemma mark_settles:
  assumes "\<forall>n. \<not> oe_fault env n" "r \<in> set (ozon_bid_changes (mark_changes env ids status err db))"
  shows "bc_Status r = status \<or> r \<in> set (ozon_bid_changes db) \<and> bc_ID r \<notin> set ids"
  using assms(2)
proof (induction ids arbitrary: db)
  case Nil
  then show ?case by (simp add: mark_changes_def)
next
  case (Cons i ids)
  have "bc_Status r = status \<or> r \<in> set (ozon_bid_changes (snd (oz_upd env (\<lambda>now _. MarkOzonBidChangeResult i status err now) db))) \<and> bc_ID r \<notin> set ids"
    using Cons by (simp add: mark_changes_Cons)
  then show ?case using assms(1) by (auto simp: oz_upd_def Let_def MarkOzonBidChangeResult_def)
qed

lemma mirror_same: "ozon_bid_changes (mirror_bids env cid bids db) = ozon_bid_changes db"
proof (induction bids arbitrary: db)
  case (Cons b bids)
  obtain sku bid where b: "b = (sku, bid)" by fastforce
  have "ozon_bid_changes (snd (oz_upd env (\<lambda>_ _. UpdateOzonCampaignProductBid cid sku bid) db)) = ozon_bid_changes db"
    by (simp add: oz_upd_def Let_def UpdateOzonCampaignProductBid_def)
  then show ?case using Cons.IH by (simp add: mirror_bids_def b)
qed (simp add: mirror_bids_def)

section \<open>Effects of a campaign\<close>

definition idle :: "ozon_db \<Rightarrow> ozon_db \<Rightarrow> bool" where
  "idle db db' \<longleftrightarrow> quiet db db' \<and> oz_tables db' = oz_tables db \<and> ozon_bid_changes db' = ozon_bid_changes db"

lemma idle_refl [simp]: "idle db db" and idle_tick [simp]: "idle db (oz_tick db)"
  and idle_trans [trans]: "\<lbrakk>idle a b; idle b c\<rbrakk> \<Longrightarrow> idle a c"
  and idle_appended: "\<lbrakk>idle a b; appended cid status rows b c\<rbrakk> \<Longrightarrow> appended cid status rows a c"
  and appended_Nil: "idle a b \<Longrightarrow> appended cid status [] a b"
  by (auto simp: idle_def appended_def intro: quiet_trans)

lemma idle_fill: "idle db (snd (snd (fillMinBids env skus cache db)))"
  by (simp add: idle_def quiet_fill fill_same)

lemma budget_check_db: "snd (budget_check env cab db) = db\<lparr>oz_calls := oz_calls db + 30\<rparr>"
  by (simp add: budget_check_def Let_def)

text \<open>The state after the write and its count.\<close>

definition sent_db :: "ozon_env \<Rightarrow> uuid \<Rightarrow> OzonCampaign \<Rightarrow> (int \<times> f64) list \<Rightarrow> ozon_db \<Rightarrow> ozon_db" where
  "sent_db env cab campaign bids db =
     budget_record env cab ((oz_tick (db\<lparr>oz_calls := oz_calls db + 30\<rparr>))\<lparr>oz_sent := oz_sent db @ [(cab, oz_OzonCampaignID campaign, bids)],
       oz_sent_at := oz_sent_at db @ [oe_now env (oz_calls db + 31)]\<rparr>)"

lemma write_bids_shape:
  assumes "write_bids env cab campaign news db = (r, db')"
  obtains (blocked) x err where "fst (budget_check env cab db) = Some x"
      "db' = mark_changes env (map fst news) OzonBidStatusFailed err (db\<lparr>oz_calls := oz_calls db + 30\<rparr>)"
  | (sent) status err f where "fst (budget_check env cab db) = None" "status \<noteq> OzonBidStatusPending" "\<And>db. quiet db (f db)"
      "\<And>db. ozon_bid_changes (f db) = ozon_bid_changes db"
      "db' = f (mark_changes env (map fst news) status err (sent_db env cab campaign (map snd news) db))"
proof (cases "fst (budget_check env cab db)")
  case (Some x)
  then have "budget_check env cab db = (Some (fst x, snd x), db\<lparr>oz_calls := oz_calls db + 30\<rparr>)"
    using budget_check_db [of env cab db] by (metis prod.collapse)
  then show ?thesis using assms blocked [OF Some] by (cases x) (auto simp: write_bids_def Let_def)
next
  case None
  then have "budget_check env cab db = (None, db\<lparr>oz_calls := oz_calls db + 30\<rparr>)"
    using budget_check_db [of env cab db] by (metis prod.collapse)
  then have w: "(case oe_set_bids env (oz_calls db + 30) (oz_OzonCampaignID campaign) (map snd news) of
        Written \<Rightarrow> ((1, None), mirror_bids env (oz_ID campaign) (map snd news) (mark_changes env (map fst news) OzonBidStatusApplied None (sent_db env cab campaign (map snd news) db)))
      | QuotaError e \<Rightarrow> ((0, None), mark_changes env (map fst news) OzonBidStatusFailed (Some (ClientError (truncateError e))) (sent_db env cab campaign (map snd news) db))
      | WriteError e \<Rightarrow> ((0, Some (SetBidsFailed e)), mark_changes env (map fst news) OzonBidStatusFailed (Some (ClientError (truncateError e))) (sent_db env cab campaign (map snd news) db))) = (r, db')"
    using assms by (simp add: write_bids_def Let_def sent_db_def add.commute cong: write_answer.case_cong)
  have failed: thesis if "db' = mark_changes env (map fst news) OzonBidStatusFailed err (sent_db env cab campaign (map snd news) db)" for err
    by (rule sent [OF None, of OzonBidStatusFailed "\<lambda>db. db" err]) (simp_all add: ozon_status_defs that)
  show ?thesis
  proof (cases "oe_set_bids env (oz_calls db + 30) (oz_OzonCampaignID campaign) (map snd news)")
    case Written
    then show ?thesis using w
      by (intro sent [OF None, of OzonBidStatusApplied "mirror_bids env (oz_ID campaign) (map snd news)" None])
        (simp_all add: ozon_status_defs quiet_mirror mirror_same)
  qed (use w failed in auto)
qed

lemma sent_db_simps: "oz_sent (sent_db env cab campaign bids db) = oz_sent db @ [(cab, oz_OzonCampaignID campaign, bids)]"
  "oz_calls (sent_db env cab campaign bids db) = oz_calls db + 32" "ozon_bid_changes (sent_db env cab campaign bids db) = ozon_bid_changes db"
  "ozon_api_call_counters (sent_db env cab campaign bids db) =
     Record (oe_fault env (oz_calls db + 31)) cab ozonAPICategoryBidWrite 1 (oe_now env (oz_calls db + 31)) (ozon_api_call_counters db)"
  "oz_sent_at (sent_db env cab campaign bids db) = oz_sent_at db @ [oe_now env (oz_calls db + 31)]"
  by (simp_all add: sent_db_def budget_record_def Let_def add.commute)

lemma write_bids_sent:
  assumes "write_bids env cab campaign news db = (r, db')"
  shows "oz_sent db' = oz_sent db @ (if fst (budget_check env cab db) = None then [(cab, oz_OzonCampaignID campaign, map snd news)] else [])"
  using assms
proof (cases rule: write_bids_shape)
  case (blocked x err)
  then show ?thesis using quiet_mark [of "db\<lparr>oz_calls := oz_calls db + 30\<rparr>"] by (simp add: quiet_def)
next
  case (sent status err f)
  have "quiet (sent_db env cab campaign (map snd news) db) db'" unfolding sent(5) by (rule quiet_trans [OF quiet_mark sent(3)])
  then show ?thesis using sent(1) by (simp add: quiet_def sent_db_simps)
qed

lemma write_bids_settles:
  assumes "write_bids env cab campaign news db = (r, db')" "\<forall>n. \<not> oe_fault env n" "c \<in> set (ozon_bid_changes db')"
  shows "bc_Status c \<noteq> OzonBidStatusPending \<or> c \<in> set (ozon_bid_changes db) \<and> bc_ID c \<notin> set (map fst news)"
  using assms(1)
proof (cases rule: write_bids_shape)
  case (blocked x err)
  then show ?thesis using mark_settles [OF assms(2) assms(3) [unfolded blocked(2)]] by (auto simp: ozon_status_defs)
next
  case (sent status err f)
  then show ?thesis using mark_settles [OF assms(2) assms(3) [unfolded sent(5) sent(4)]] by (auto simp: sent_db_simps)
qed

lemma apply_decision_shadow:
  assumes "apply_decision env strategy params campaign decision bids cache db = (r, cache', db')" "AutomationLevel params < 3"
  shows "\<exists>rows. appended (oz_ID campaign) OzonBidStatusShadow rows db db'"
proof -
  obtain res db2 where i: "insert_changes env (oz_ID campaign) (bd_Reason decision) OzonBidStatusShadow cache (multiplier decision) bids db = (res, db2)"
    by (cases "insert_changes env (oz_ID campaign) (bd_Reason decision) OzonBidStatusShadow cache (multiplier decision) bids db") blast
  then have "db' = db2" using assms by (auto simp: apply_decision_def Let_def split: option.splits)
  then show ?thesis using insert_changes_appends [OF i] by blast
qed

lemma insert_changes_fails: "insert_changes env cid reason status minBids mult items db = (None, db') \<Longrightarrow> \<exists>n. oe_fault env n"
  by (induction items arbitrary: db) (auto simp: oz_upd_def Let_def split: option.splits if_splits prod.splits)

lemma apply_decision_live:
  assumes "apply_decision env strategy params campaign decision bids cache db = (r, cache', db')" "\<not> AutomationLevel params < 3"
  shows "(\<exists>rows. appended (oz_ID campaign) OzonBidStatusPending rows db db' \<and> (rows = [] \<or> (\<exists>n. oe_fault env n))) \<or>
    (\<exists>rows db2. appended (oz_ID campaign) OzonBidStatusPending rows db db2 \<and> rows \<noteq> [] \<and>
       news_ok cache' (multiplier decision) bids (map triple rows) \<and>
       write_bids env (st_SellerCabinetID strategy) campaign (map triple rows) db2 = (r, db'))"
proof -
  obtain ok c1 db1 where f: "fillMinBids env (map fst bids) cache db = (ok, c1, db1)"
    by (cases "fillMinBids env (map fst bids) cache db") blast
  have i: "idle db db1" using idle_fill [of db env "map fst bids" cache] f by simp
  let ?ins = "insert_changes env (oz_ID campaign) (bd_Reason decision) OzonBidStatusPending c1 (multiplier decision) bids db1"
  obtain res db2 where ins: "?ins = (res, db2)" by (cases ?ins) blast
  obtain rows where a: "appended (oz_ID campaign) OzonBidStatusPending rows db db2"
    and n: "\<forall>news. res = Some news \<longrightarrow> map triple rows = news \<and> news_ok c1 (multiplier decision) bids news"
    using insert_changes_appends [OF ins] idle_appended [OF i] by blast
  note d = assms(1) [unfolded apply_decision_def Let_def if_not_P [OF assms(2)] f prod.case ins]
  consider "\<not> ok" | "ok" "res = None" | "ok" "res = Some []" | news where "ok" "res = Some news" "news \<noteq> []" by (metis option.exhaust)
  then show ?thesis
  proof cases
    case 1
    then have "db' = db1" using d by simp
    then show ?thesis using appended_Nil [OF i] by blast
  next
    case 2
    then have "db' = db2" "\<exists>n. oe_fault env n" using d insert_changes_fails ins by auto
    then show ?thesis using a by blast
  next
    case 3
    then have "db' = db2" "rows = []" using d n by auto
    then show ?thesis using a by blast
  next
    case (4 news)
    then have "write_bids env (st_SellerCabinetID strategy) campaign news db2 = (r, db')" "cache' = c1"
      using d assms(2) by (auto split: prod.splits)
    then show ?thesis using a n 4 by auto
  qed
qed

text \<open>Everything that has held when a campaign reaches the write path.\<close>

definition agg_of :: "StrategyParams \<Rightarrow> OzonCampaign \<Rightarrow> int \<Rightarrow> ozon_db \<Rightarrow> int \<times> int \<times> rat \<times> int \<times> rat" where
  "agg_of params campaign now db = AggregateOzonCampaignStatsWindow (oz_ID campaign) (trunc_day (now - LookbackDays params * day)) (trunc_day now - day) (oz_tables db)"

definition bids_of :: "OzonCampaign \<Rightarrow> ozon_db \<Rightarrow> (int \<times> f64) list" where
  "bids_of campaign db = current_bids (ListOzonCampaignProducts (oz_ID campaign) (oz_tables db))"

definition decision_of :: "ozon_env \<Rightarrow> Strategy \<Rightarrow> StrategyParams \<Rightarrow> OzonCampaign \<Rightarrow> int \<Rightarrow> totalDRR \<Rightarrow>
    (uuid \<Rightarrow> OzonCampaignAttributedTurnoverByCabinetRow option) \<Rightarrow> f64 option \<Rightarrow> ozon_db \<Rightarrow> BidDecision option" where
  "decision_of env strategy params campaign now tot attributed ceil db =
     (let ctx = campaign_context (agg_of params campaign now db) (average_bid (bids_of campaign db)) now
      in campaign_decision (oe_loc env) now strategy params ctx ceil tot
           (campaignTotalDRRFrom (attributed (oz_ID campaign)) (Spend ctx) now (MaxDataAgeHours params)))"

definition guards_passed :: "StrategyParams \<Rightarrow> OzonCampaign \<Rightarrow> int \<Rightarrow> ozon_db \<Rightarrow> bool" where
  "guards_passed params campaign now db \<longleftrightarrow>
     oz_State campaign = Some ozonCampaignStateRunning \<and> MinClicks params \<le> fst (snd (agg_of params campaign now db)) \<and>
     (let guard = GetOzonStrategyGuardState (oz_ID campaign) (ozonStrategyDayStart now) (ozon_bid_changes db)
      in ozonStrategyGuardReason (fst guard) (snd guard) params now = None)"

lemma runCampaign_shape:
  assumes "runCampaign env strategy params campaign now cache tot attributed ceil db = (r, cache', db')"
  obtains (nothing) "idle db db'"
  | (decided) decision db3 where "guards_passed params campaign now db" "decision_of env strategy params campaign now tot attributed ceil db = Some decision"
      "idle db db3" "apply_decision env strategy params campaign decision (bids_of campaign db) cache db3 = (r, cache', db')"
proof -
  let ?t = "\<lambda>db. oz_tick db"
  have i: "idle db (?t db)" "idle db (?t (?t db))" "idle db (?t (?t (?t db)))"
    using idle_tick idle_trans by blast+
  show thesis
  proof (cases "idle db db'")
    case True
    then show ?thesis by (rule nothing)
  next
    case False
    then have n: "db' \<noteq> db" "db' \<noteq> ?t db" "db' \<noteq> ?t (?t db)" "db' \<noteq> ?t (?t (?t db))" using i by auto
    have run: "oz_State campaign = Some ozonCampaignStateRunning"
      using assms n by (auto simp: runCampaign_def split: if_splits)
    obtain decision where d: "guards_passed params campaign now db" "decision_of env strategy params campaign now tot attributed ceil db = Some decision"
      "apply_decision env strategy params campaign decision (bids_of campaign db) cache (?t (?t (?t db))) = (r, cache', db')"
      using assms n run unfolding runCampaign_def
      by (auto simp: oz_read_def guards_passed_def decision_of_def agg_of_def bids_of_def Let_def split: if_splits option.splits)
    then show ?thesis using decided i(3) by blast
  qed
qed

section \<open>Runs\<close>

text \<open>
  The contract of a relation between the states before and after a campaign, given for the strategies of
  interest: a run over any number of strategies then has it as well.
\<close>

locale campaign_relation =
  fixes env :: ozon_env and ok :: "Strategy \<Rightarrow> bool" and R :: "ozon_db \<Rightarrow> ozon_db \<Rightarrow> bool"
  assumes R_idle: "idle db db' \<Longrightarrow> R db db'"
    and R_trans: "\<lbrakk>R a b; R b c\<rbrakk> \<Longrightarrow> R a c"
    and R_campaign: "\<lbrakk>runCampaign env strategy (Merged (st_Params strategy)) campaign now cache tot attributed ceil db = (r, cache', db'); ok strategy\<rbrakk> \<Longrightarrow> R db db'"
begin

lemma R_campaigns:
  assumes "ok strategy"
  shows "R db (snd (run_campaigns env strategy (Merged (st_Params strategy)) now tot attributed ceil cs cache db))"
proof (induction cs arbitrary: cache db)
  case Nil
  show ?case by (simp add: R_idle)
next
  case (Cons c cs)
  obtain r cache' db' where r: "runCampaign env strategy (Merged (st_Params strategy)) c now cache tot attributed ceil db = (r, cache', db')"
    by (cases "runCampaign env strategy (Merged (st_Params strategy)) c now cache tot attributed ceil db") blast
  have "R db (snd (run_campaigns env strategy (Merged (st_Params strategy)) now tot attributed ceil cs cache' db'))"
    by (rule R_trans [OF R_campaign [OF r assms] Cons.IH])
  then show ?case by (simp add: r case_prod_beta Let_def)
qed

lemma R_strategy:
  assumes "ok strategy"
  shows "R db (snd (runStrategy env ws strategy db))"
proof -
  obtain e db1 where c: "strategyCredentials env ws strategy db = (e, db1)" by (cases "strategyCredentials env ws strategy db") blast
  then have i1: "idle db db1"
    by (auto simp: strategyCredentials_def oz_read_def split: option.splits if_splits)
  then have i2: "idle db (oz_tick db1)" using idle_tick idle_trans by blast
  have i3: "idle db ((oz_tick db1)\<lparr>oz_calls := oz_calls (oz_tick db1) + 6\<rparr>)"
    using i2 by (auto simp: idle_def quiet_def)
  show ?thesis
    using R_idle [OF i1] R_idle [OF i2] R_trans [OF R_idle [OF i3] R_campaigns [OF assms]]
    by (auto simp: runStrategy_def c oz_read_def load_limits_def Let_def split: option.splits)
qed

lemma R_workspace:
  assumes "\<forall>s \<in> set (ListActiveStrategiesByWorkspace ws db). ok s"
  shows "R db (snd (RunForWorkspace env ws db))"
proof -
  have l: "R db (snd (run_strategies env ws ss db))" if "\<forall>s \<in> set ss. ok s" for ss db
    using that
  proof (induction ss arbitrary: db)
    case Nil
    show ?case by (simp add: R_idle)
  next
    case (Cons s ss)
    have "R db (snd (run_strategies env ws ss (snd (runStrategy env ws s db))))"
      using R_trans [OF R_strategy [of s db ws] Cons.IH] Cons.prems by simp
    then show ?case using Cons by (simp add: case_prod_beta Let_def)
  qed
  have "R db (oz_tick db)" by (simp add: R_idle)
  then show ?thesis using R_trans [OF _ l [OF assms]] by (simp add: RunForWorkspace_def oz_read_def)
qed

end

subsection \<open>Shadow runs\<close>

definition shadow_only :: "ozon_db \<Rightarrow> ozon_db \<Rightarrow> bool" where
  "shadow_only db db' \<longleftrightarrow> oz_sent db' = oz_sent db \<and> ozon_api_call_counters db' = ozon_api_call_counters db \<and> oz_tables db' = oz_tables db \<and>
     (\<exists>rows. ozon_bid_changes db' = ozon_bid_changes db @ rows \<and> (\<forall>r \<in> set rows. bc_Status r = OzonBidStatusShadow))"

definition shadow_level :: "Strategy \<Rightarrow> bool" where
  "shadow_level s \<longleftrightarrow> AutomationLevel (Merged (st_Params s)) < 3"

interpretation shadow: campaign_relation env shadow_level shadow_only for env
proof unfold_locales
  show "shadow_only db db'" if "idle db db'" for db db' using that by (simp add: shadow_only_def idle_def quiet_def)
  show "shadow_only a c" if "shadow_only a b" "shadow_only b c" for a b c
    using that unfolding shadow_only_def by (elim conjE exE) (simp, blast)
  fix strategy campaign now cache tot attributed ceil db r cache' db'
  assume run: "runCampaign env strategy (Merged (st_Params strategy)) campaign now cache tot attributed ceil db = (r, cache', db')" and "shadow_level strategy"
  show "shadow_only db db'" using run
  proof (cases rule: runCampaign_shape)
    case nothing
    then show ?thesis by (simp add: shadow_only_def idle_def quiet_def)
  next
    case (decided decision db3)
    then obtain rows where "appended (oz_ID campaign) OzonBidStatusShadow rows db db'"
      using apply_decision_shadow [OF decided(4)] idle_appended [OF decided(3)] \<open>shadow_level strategy\<close> unfolding shadow_level_def by blast
    then show ?thesis by (auto simp: shadow_only_def appended_def quiet_def row_of_def)
  qed
qed

subsection \<open>Settling\<close>

definition settled :: "ozon_env \<Rightarrow> ozon_db \<Rightarrow> ozon_db \<Rightarrow> bool" where
  "settled env db db' \<longleftrightarrow> ((\<forall>n. \<not> oe_fault env n) \<longrightarrow>
     (\<forall>c \<in> set (ozon_bid_changes db'). bc_Status c = OzonBidStatusPending \<longrightarrow> c \<in> set (ozon_bid_changes db)))"

lemma settled_apply:
  assumes "apply_decision env strategy params campaign decision bids cache db = (r, cache', db')"
  shows "settled env db db'"
proof (cases "AutomationLevel params < 3")
  case True
  then obtain rows where "appended (oz_ID campaign) OzonBidStatusShadow rows db db'" using apply_decision_shadow assms by blast
  then show ?thesis by (auto simp: settled_def appended_def row_of_def ozon_status_defs)
next
  case False
  from apply_decision_live [OF assms this] show ?thesis
  proof (elim disjE exE conjE)
    fix rows db2
    assume a: "appended (oz_ID campaign) OzonBidStatusPending rows db db2"
      and w: "write_bids env (st_SellerCabinetID strategy) campaign (map triple rows) db2 = (r, db')"
    show ?thesis unfolding settled_def
    proof (intro impI ballI)
      fix c
      assume f: "\<forall>n. \<not> oe_fault env n" and c: "c \<in> set (ozon_bid_changes db')" "bc_Status c = OzonBidStatusPending"
      have "c \<in> set (ozon_bid_changes db2)" "bc_ID c \<notin> set (map fst (map triple rows))"
        using write_bids_settles [OF w f c(1)] c(2) by auto
      then show "c \<in> set (ozon_bid_changes db)" using a by (auto simp: appended_def triple_def)
    qed
  qed (auto simp: settled_def appended_def)
qed

interpretation settling: campaign_relation env "\<lambda>_. True" "settled env" for env
proof unfold_locales
  show "settled env db db'" if "idle db db'" for db db' using that by (simp add: settled_def idle_def)
  show "settled env a c" if "settled env a b" "settled env b c" for a b c using that unfolding settled_def by blast
  fix strategy campaign now cache tot attributed ceil db r cache' db'
  assume run: "runCampaign env strategy (Merged (st_Params strategy)) campaign now cache tot attributed ceil db = (r, cache', db')"
  show "settled env db db'" using run
  proof (cases rule: runCampaign_shape)
    case nothing
    then show ?thesis by (simp add: settled_def idle_def)
  next
    case (decided decision db3)
    then show ?thesis using settled_apply [OF decided(4)] by (simp add: settled_def idle_def)
  qed
qed

subsection \<open>The call budget\<close>

text \<open>The counters of a state with the time at which the next call can read the clock.\<close>

definition budget_state :: "ozon_env \<Rightarrow> ozon_db \<Rightarrow> int \<times> OzonAPICallCounter list" where
  "budget_state env db = (oe_now env (oz_calls db), ozon_api_call_counters db)"

definition steady :: "ozon_env \<Rightarrow> bool" where
  "steady env \<longleftrightarrow> mono (oe_now env) \<and> (\<forall>n. \<not> oe_count_fault env n)"

definition paced :: "ozon_env \<Rightarrow> ozon_db \<Rightarrow> ozon_db \<Rightarrow> bool" where
  "paced env db db' \<longleftrightarrow> (steady env \<longrightarrow> budget_step\<^sup>*\<^sup>* (budget_state env db) (budget_state env db'))"

lemma paced_trans: "\<lbrakk>paced env a b; paced env b c\<rbrakk> \<Longrightarrow> paced env a c"
  unfolding paced_def by (meson rtranclp_trans)

lemma paced_wait: "\<lbrakk>ozon_api_call_counters db' = ozon_api_call_counters db; oz_calls db \<le> oz_calls db'\<rbrakk> \<Longrightarrow> paced env db db'"
  unfolding paced_def budget_state_def steady_def
  by (auto intro!: r_into_rtranclp budget_step.wait dest: monoD)

lemma paced_quiet: "quiet db db' \<Longrightarrow> paced env db db'"
  by (rule paced_wait) (simp_all add: quiet_def)

lemma paced_sent:
  assumes "fst (budget_check env cab db) = None"
  shows "paced env db (sent_db env cab campaign bids db)"
  unfolding paced_def
proof
  let ?s = "sent_db env cab campaign bids db" and ?n = "oz_calls db"
  assume "steady env"
  then have m: "oe_now env a \<le> oe_now env b" if "a \<le> b" for a b using that by (auto simp: steady_def dest: monoD)
  have "AutomationBlockReason False False (\<lambda>k. oe_count_fault env (?n + 2 + k)) (oe_now env ?n) (oe_now env (?n + 1)) cab
      ozonAPICategoryBidWrite 1 (ozon_api_call_counters db) = None"
    using assms \<open>steady env\<close> by (simp add: budget_check_def Let_def steady_def)
  from budget_step.automate [OF this, of "oe_now env ?n" "oe_now env (?n + 31)" "oe_fault env (?n + 31)"]
  have "budget_step (budget_state env db) (oe_now env (?n + 31), ozon_api_call_counters ?s)"
    by (simp add: m budget_state_def sent_db_simps)
  moreover have "budget_step (oe_now env (?n + 31), ozon_api_call_counters ?s) (budget_state env ?s)"
    unfolding budget_state_def by (rule budget_step.wait) (simp add: sent_db_simps m)
  ultimately show "budget_step\<^sup>*\<^sup>* (budget_state env db) (budget_state env ?s)" by simp
qed

lemma paced_write:
  assumes "write_bids env cab campaign news db = (r, db')"
  shows "paced env db db'"
  using assms
proof (cases rule: write_bids_shape)
  case (blocked x err)
  have "quiet db (db\<lparr>oz_calls := oz_calls db + 30\<rparr>)" by (simp add: quiet_def)
  then show ?thesis using blocked quiet_mark quiet_trans paced_quiet by metis
next
  case (sent status err f)
  have "paced env (sent_db env cab campaign (map snd news) db) db'"
    using sent(3) quiet_mark quiet_trans paced_quiet unfolding sent(5) by metis
  then show ?thesis using paced_sent [OF sent(1)] paced_trans by blast
qed

lemma paced_apply:
  assumes "apply_decision env strategy params campaign decision bids cache db = (r, cache', db')"
  shows "paced env db db'"
proof (cases "AutomationLevel params < 3")
  case True
  then show ?thesis using apply_decision_shadow [OF assms] paced_quiet by (auto simp: appended_def)
next
  case False
  from apply_decision_live [OF assms this] show ?thesis
    by (elim disjE exE conjE) (auto simp: appended_def intro: paced_quiet paced_trans paced_write)
qed

interpretation pacing: campaign_relation env "\<lambda>_. True" "paced env" for env
proof unfold_locales
  show "paced env db db'" if "idle db db'" for db db' using that by (simp add: idle_def paced_quiet)
  show "paced env a c" if "paced env a b" "paced env b c" for a b c using that by (rule paced_trans)
  fix strategy campaign now cache tot attributed ceil db r cache' db'
  assume run: "runCampaign env strategy (Merged (st_Params strategy)) campaign now cache tot attributed ceil db = (r, cache', db')"
  show "paced env db db'" using run
  proof (cases rule: runCampaign_shape)
    case nothing
    then show ?thesis by (simp add: idle_def paced_quiet)
  next
    case (decided decision db3)
    have "paced env db db3" using decided(3) by (simp add: idle_def paced_quiet)
    then show ?thesis using paced_apply [OF decided(4)] by (rule paced_trans)
  qed
qed

text \<open>
  The jobs of the service in any order; \<open>sync\<close> stands for everything else that changes the tables, writes no bids and
  leaves the call counters alone.
\<close>

inductive ozon_step :: "ozon_env \<Rightarrow> ozon_db \<Rightarrow> ozon_db \<Rightarrow> bool" for env where
  run: "ozon_step env db (snd (RunForWorkspace env ws db))"
| cleanup: "ozon_step env db (CleanupAPICounters env db)"
| sync: "\<lbrakk>ozon_api_call_counters db' = ozon_api_call_counters db; oz_sent db' = oz_sent db; oz_sent_at db' = oz_sent_at db;
      oz_calls db \<le> oz_calls db'\<rbrakk> \<Longrightarrow> ozon_step env db db'"

lemma paced_step: "ozon_step env db db' \<Longrightarrow> paced env db db'"
proof (induction rule: ozon_step.induct)
  case (run db ws)
  show ?case by (rule pacing.R_workspace) simp
next
  case (cleanup db)
  let ?n = "oz_calls db"
  show ?case
  proof (cases "oe_fault env ?n")
    case True
    then show ?thesis by (intro paced_wait) (simp_all add: CleanupAPICounters_def oz_upd_def Let_def)
  next
    case False
    then have c: "budget_state env (CleanupAPICounters env db) = (oe_now env (Suc ?n), CleanupCounters (oe_now env ?n) (ozon_api_call_counters db))"
      by (simp add: CleanupAPICounters_def oz_upd_def Let_def budget_state_def)
    have "budget_step (budget_state env db) (oe_now env ?n, CleanupCounters (oe_now env ?n) (ozon_api_call_counters db))"
      unfolding budget_state_def by (rule budget_step.cleanup)
    moreover have "budget_step (oe_now env ?n, CleanupCounters (oe_now env ?n) (ozon_api_call_counters db)) (budget_state env (CleanupAPICounters env db))"
      if "steady env" unfolding c using that by (intro budget_step.wait) (simp add: steady_def monoD)
    ultimately show ?thesis unfolding paced_def by (meson r_into_rtranclp rtranclp.rtrancl_into_rtrancl)
  qed
next
  case (sync db' db)
  then show ?case by (intro paced_wait)
qed

lemma paced_steps: "(ozon_step env)\<^sup>*\<^sup>* db db' \<Longrightarrow> paced env db db'"
  by (induction rule: rtranclp_induct) (auto intro: paced_trans paced_step paced_wait)

subsection \<open>The writes that were sent\<close>

text \<open>The bid writes sent for a cabinet in the clock hours from \<open>a\<close> to \<open>b\<close>.\<close>

definition writes_between :: "uuid \<Rightarrow> int \<Rightarrow> int \<Rightarrow> ozon_db \<Rightarrow> nat" where
  "writes_between cab a b db =
     length (filter (\<lambda>(w, t). fst w = cab \<and> a \<le> trunc_hour t \<and> trunc_hour t \<le> b) (zip (oz_sent db) (oz_sent_at db)))"

text \<open>
  In the last day the counters know at least the writes that were sent, and the writes of every window keep to the
  share, also of those whose counters have been cleaned up since.
\<close>

definition writes_counted :: "ozon_env \<Rightarrow> ozon_db \<Rightarrow> bool" where
  "writes_counted env db \<longleftrightarrow> budget_inv (budget_state env db) \<and> length (oz_sent_at db) = length (oz_sent db) \<and>
     (\<forall>cab a b. b \<le> a + 23 * hour \<longrightarrow>
        (trunc_hour (oe_now env (oz_calls db)) - 23 * hour \<le> a \<longrightarrow>
           int (writes_between cab a b db) \<le> calls_between cab ozonAPICategoryBidWrite a b (ozon_api_call_counters db)) \<and>
        writes_between cab a b db \<le> 4800 \<and> (a = b \<longrightarrow> writes_between cab a b db \<le> 400))"

lemma writes_between_same: "\<lbrakk>oz_sent db' = oz_sent db; oz_sent_at db' = oz_sent_at db\<rbrakk> \<Longrightarrow> writes_between cab a b db' = writes_between cab a b db"
  by (simp add: writes_between_def)

lemma budget_inv_shares:
  assumes "budget_inv (now, tbl)" "b \<le> a + 23 * hour"
  shows "calls_between cab ozonAPICategoryBidWrite a b tbl \<le> 4800"
    "calls_between cab ozonAPICategoryBidWrite a a tbl \<le> 400"
proof -
  have l: "limited ozonAPICategoryBidWrite" "0 < ozonAPIHourlyLimits ozonAPICategoryBidWrite" by (simp_all add: bid_limits)
  note i = assms(1) [unfolded budget_inv_def prod.case]
  have "calls_between cab ozonAPICategoryBidWrite a b tbl \<le> calls_between cab ozonAPICategoryBidWrite (b - 23 * hour) b tbl"
    unfolding calls_between_def by (rule usage_le) (use i l(1) assms(2) in \<open>auto simp: in_hours_def key_of_def\<close>)
  moreover have "calls_between cab ozonAPICategoryBidWrite (b - 23 * hour) b tbl \<le> automationLimit (ozonAPIDailyLimits ozonAPICategoryBidWrite)"
    "calls_between cab ozonAPICategoryBidWrite a a tbl \<le> automationLimit (ozonAPIHourlyLimits ozonAPICategoryBidWrite)"
    using i l by blast+
  ultimately show "calls_between cab ozonAPICategoryBidWrite a b tbl \<le> 4800"
    "calls_between cab ozonAPICategoryBidWrite a a tbl \<le> 400" by (simp_all add: bid_limits automation_limits)
qed

text \<open>A count that does not fail is seen in its hour: the counters of a kept budget are far from their column's range.\<close>

lemma record_counts:
  assumes "budget_inv (now, tbl)"
  shows "calls_between cab' ozonAPICategoryBidWrite a b (Record False cab ozonAPICategoryBidWrite 1 t tbl) =
    calls_between cab' ozonAPICategoryBidWrite a b tbl + (if cab' = cab \<and> a \<le> trunc_hour t \<and> trunc_hour t \<le> b then 1 else 0)"
proof -
  let ?k = "counter_key cab ozonAPICategoryBidWrite (trunc_hour t)"
  note i = assms [unfolded budget_inv_def prod.case]
  have l: "limited ozonAPICategoryBidWrite" by (simp add: bid_limits)
  have one: "oc_Calls c \<le> usage P tbl" if "c \<in> set tbl" "P c" "\<forall>c \<in> set tbl. P c \<longrightarrow> 0 \<le> oc_Calls c" for P c
    using that
  proof (induction tbl)
    case (Cons d tbl)
    then show ?case using usage_nonneg [of tbl P] by auto
  qed simp
  have range: "0 \<le> oc_Calls c \<and> oc_Calls c \<le> 400" if "find ?k tbl = Some c" for c
  proof -
    have c: "c \<in> set tbl" "?k c" using that by (auto simp: find_Some_iff)
    then have n: "0 \<le> oc_Calls c" using i l by (auto simp: counter_key_def)
    have "oc_Calls c \<le> calls_between cab ozonAPICategoryBidWrite (trunc_hour t) (trunc_hour t) tbl"
      unfolding calls_between_def
      by (rule one) (use c i l in \<open>auto simp: in_hours_def key_of_def counter_key_def\<close>)
    then show ?thesis using n budget_inv_shares(2) [OF assms, of "trunc_hour t" "trunc_hour t" cab] hour_pos by simp
  qed
  obtain tbl' where inc: "IncrementOzonAPICalls cab ozonAPICategoryBidWrite 1 t tbl = Some tbl'"
    using range by (cases "find ?k tbl") (auto simp: IncrementOzonAPICalls_def dest: range)
  then have "Record False cab ozonAPICategoryBidWrite 1 t tbl = tbl'" by (simp add: Record_def int32_of_def)
  then show ?thesis
    using increment_effect(3) [OF inc conjunct1 [OF i], of "in_hours cab' ozonAPICategoryBidWrite a b"]
    by (auto simp: calls_between_def in_hours_def)
qed

definition keeps_share :: "ozon_env \<Rightarrow> ozon_db \<Rightarrow> ozon_db \<Rightarrow> bool" where
  "keeps_share env db db' \<longleftrightarrow> (steady env \<and> (\<forall>n. \<not> oe_fault env n) \<and> writes_counted env db \<longrightarrow> writes_counted env db')"

lemma keeps_share_trans: "\<lbrakk>keeps_share env a b; keeps_share env b c\<rbrakk> \<Longrightarrow> keeps_share env a c"
  by (simp add: keeps_share_def)

lemma paced_inv: "\<lbrakk>paced env db db'; steady env; budget_inv (budget_state env db)\<rbrakk> \<Longrightarrow> budget_inv (budget_state env db')"
proof -
  have "budget_step\<^sup>*\<^sup>* s s' \<Longrightarrow> budget_inv s \<Longrightarrow> budget_inv s'" for s s'
    by (induction rule: rtranclp_induct) (auto intro: budget_inv_step)
  then show "\<lbrakk>paced env db db'; steady env; budget_inv (budget_state env db)\<rbrakk> \<Longrightarrow> budget_inv (budget_state env db')"
    by (auto simp: paced_def)
qed

text \<open>Without a write the counters of the last day only have to stay.\<close>

lemma keeps_share_calm:
  assumes "paced env db db'" "oz_sent db' = oz_sent db" "oz_sent_at db' = oz_sent_at db" "oz_calls db \<le> oz_calls db'"
    and "\<And>cab a b. \<lbrakk>steady env; trunc_hour (oe_now env (oz_calls db')) - 23 * hour \<le> a\<rbrakk> \<Longrightarrow>
      calls_between cab ozonAPICategoryBidWrite a b (ozon_api_call_counters db) \<le> calls_between cab ozonAPICategoryBidWrite a b (ozon_api_call_counters db')"
  shows "keeps_share env db db'"
  unfolding keeps_share_def
proof (intro impI, elim conjE)
  assume st: "steady env" and ok: "writes_counted env db"
  have "trunc_hour (oe_now env (oz_calls db)) \<le> trunc_hour (oe_now env (oz_calls db'))"
    using st assms(4) by (intro trunc_hour_mono) (simp add: steady_def monoD)
  then have "int (writes_between cab a b db') \<le> calls_between cab ozonAPICategoryBidWrite a b (ozon_api_call_counters db')"
    if "b \<le> a + 23 * hour" "trunc_hour (oe_now env (oz_calls db')) - 23 * hour \<le> a" for cab a b
    using ok that assms(5) [OF st that(2), of cab b] unfolding writes_counted_def writes_between_same [OF assms(2,3)]
    by (meson diff_right_mono order_trans)
  then show "writes_counted env db'"
    using ok paced_inv [OF assms(1) st] unfolding writes_counted_def writes_between_same [OF assms(2,3)] assms(2,3) by blast
qed

lemma keeps_share_wait:
  "\<lbrakk>ozon_api_call_counters db' = ozon_api_call_counters db; oz_sent db' = oz_sent db; oz_sent_at db' = oz_sent_at db; oz_calls db \<le> oz_calls db'\<rbrakk>
     \<Longrightarrow> keeps_share env db db'"
  by (rule keeps_share_calm) (simp_all add: paced_wait)

lemma keeps_share_quiet: "quiet db db' \<Longrightarrow> keeps_share env db db'"
  by (rule keeps_share_wait) (simp_all add: quiet_def)

text \<open>One write and its count in the same hour \<open>t\<close>, not before the hour \<open>now\<close> of the check: the window keeps its bounds.\<close>

lemma window_after_write:
  fixes w w' :: nat and c c' :: int
  assumes "w' = w + (if inside \<and> a \<le> t \<and> t \<le> b then 1 else 0)" "c' = c + (if inside \<and> a \<le> t \<and> t \<le> b then 1 else 0)"
    and "b \<le> a + 23 * hour" "now \<le> t" "t \<le> now'"
    and "now - 23 * hour \<le> a \<longrightarrow> int w \<le> c" "w \<le> 4800" "a = b \<longrightarrow> w \<le> 400"
    and "c' \<le> 4800" "a = b \<longrightarrow> c' \<le> 400"
  shows "(now' - 23 * hour \<le> a \<longrightarrow> int w' \<le> c') \<and> w' \<le> 4800 \<and> (a = b \<longrightarrow> w' \<le> 400)"
proof (cases "inside \<and> a \<le> t \<and> t \<le> b")
  case True
  then have "now - 23 * hour \<le> a" using assms(3,4) by linarith
  then show ?thesis using assms True by (cases "a = b") simp_all
next
  case False
  have "now' - 23 * hour \<le> a \<longrightarrow> now - 23 * hour \<le> a" using assms(4,5) by linarith
  then show ?thesis using assms(1,2,6-8) False by auto
qed

text \<open>A write that the budget let pass is counted at the reading of the clock at which it was done.\<close>

lemma keeps_share_sent:
  assumes "fst (budget_check env cab db) = None"
  shows "keeps_share env db (sent_db env cab campaign bids db)"
  unfolding keeps_share_def
proof (intro impI, elim conjE)
  let ?s = "sent_db env cab campaign bids db" and ?t = "oe_now env (oz_calls db + 31)" and ?now = "oe_now env (oz_calls db)"
  let ?C = "\<lambda>cab a b db. calls_between cab ozonAPICategoryBidWrite a b (ozon_api_call_counters db)"
  assume st: "steady env" and nf: "\<forall>n. \<not> oe_fault env n" and ok: "writes_counted env db"
  have m: "trunc_hour (oe_now env a) \<le> trunc_hour (oe_now env b)" if "a \<le> b" for a b
    using st that by (intro trunc_hour_mono) (simp add: steady_def monoD)
  have t: "trunc_hour ?now \<le> trunc_hour ?t" "trunc_hour ?t \<le> trunc_hour (oe_now env (oz_calls ?s))"
    by (rule m; simp add: sent_db_simps)+
  have inv: "budget_inv (budget_state env db)" "length (oz_sent_at db) = length (oz_sent db)"
    using ok by (simp_all add: writes_counted_def)
  have inv': "budget_inv (budget_state env ?s)" by (rule paced_inv [OF paced_sent [OF assms] st inv(1)])
  let ?in = "\<lambda>cab' a b. cab' = cab \<and> a \<le> trunc_hour ?t \<and> trunc_hour ?t \<le> b"
  have w: "writes_between cab' a b ?s = writes_between cab' a b db + (if ?in cab' a b then 1 else 0)" for cab' a b
    using inv(2) by (auto simp: writes_between_def sent_db_simps)
  have c: "?C cab' a b ?s = ?C cab' a b db + (if ?in cab' a b then 1 else 0)" for cab' a b
    using record_counts [OF inv(1) [unfolded budget_state_def]] nf by (simp add: sent_db_simps)
  have "(trunc_hour (oe_now env (oz_calls ?s)) - 23 * hour \<le> a \<longrightarrow> int (writes_between cab' a b ?s) \<le> ?C cab' a b ?s) \<and>
      writes_between cab' a b ?s \<le> 4800 \<and> (a = b \<longrightarrow> writes_between cab' a b ?s \<le> 400)" if ab: "b \<le> a + 23 * hour" for cab' a b
    using window_after_write [OF w c ab t] ok ab budget_inv_shares [OF inv' [unfolded budget_state_def] ab, of cab']
    unfolding writes_counted_def by blast
  then show "writes_counted env ?s" using inv' inv(2) unfolding writes_counted_def by (auto simp: sent_db_simps)
qed

lemma keeps_share_apply:
  assumes "apply_decision env strategy params campaign decision bids cache db = (r, cache', db')"
  shows "keeps_share env db db'"
proof (cases "AutomationLevel params < 3")
  case True
  then show ?thesis using apply_decision_shadow [OF assms] keeps_share_quiet by (auto simp: appended_def)
next
  case False
  have w: "keeps_share env d d'" if "write_bids env cab campaign news d = (r, d')" for cab news d d'
    using that
  proof (cases rule: write_bids_shape)
    case (blocked x err)
    have "quiet d (d\<lparr>oz_calls := oz_calls d + 30\<rparr>)" by (simp add: quiet_def)
    then show ?thesis using blocked quiet_mark quiet_trans keeps_share_quiet by metis
  next
    case (sent status err f)
    have "keeps_share env (sent_db env cab campaign (map snd news) d) d'"
      using sent(3) quiet_mark quiet_trans keeps_share_quiet unfolding sent(5) by metis
    then show ?thesis using keeps_share_sent [OF sent(1)] keeps_share_trans by blast
  qed
  from apply_decision_live [OF assms False] show ?thesis
    by (elim disjE exE conjE) (auto simp: appended_def intro: keeps_share_quiet keeps_share_trans w)
qed

interpretation sharing: campaign_relation env "\<lambda>_. True" "keeps_share env" for env
proof unfold_locales
  show "keeps_share env db db'" if "idle db db'" for db db' using that by (simp add: idle_def keeps_share_quiet)
  show "keeps_share env a c" if "keeps_share env a b" "keeps_share env b c" for a b c using that by (rule keeps_share_trans)
  fix strategy campaign now cache tot attributed ceil db r cache' db'
  assume run: "runCampaign env strategy (Merged (st_Params strategy)) campaign now cache tot attributed ceil db = (r, cache', db')"
  show "keeps_share env db db'" using run
  proof (cases rule: runCampaign_shape)
    case nothing
    then show ?thesis by (simp add: idle_def keeps_share_quiet)
  next
    case (decided decision db3)
    have "keeps_share env db db3" using decided(3) by (simp add: idle_def keeps_share_quiet)
    then show ?thesis using keeps_share_apply [OF decided(4)] by (rule keeps_share_trans)
  qed
qed

lemma keeps_share_cleanup: "keeps_share env db (CleanupAPICounters env db)"
proof (rule keeps_share_calm [OF paced_step [OF ozon_step.cleanup]])
  let ?n = "oz_calls db" and ?db' = "CleanupAPICounters env db"
  fix cab a b
  assume st: "steady env" and a: "trunc_hour (oe_now env (oz_calls ?db')) - 23 * hour \<le> a"
  have "oe_now env ?n \<le> oe_now env (oz_calls ?db')"
    using st by (simp add: CleanupAPICounters_def oz_upd_def Let_def steady_def monoD)
  then have "oe_now env ?n - ozonAPICounterRetention \<le> a"
    using a trunc_hour_bounds(2) [of "oe_now env (oz_calls ?db')"] hour_pos unfolding ozonAPICounterRetention_def by linarith
  then have "filter (\<lambda>c. (in_hours cab ozonAPICategoryBidWrite a b \<circ> key_of) c \<and> \<not> oc_HourStart c < oe_now env ?n - ozonAPICounterRetention)
      (ozon_api_call_counters db) = filter (in_hours cab ozonAPICategoryBidWrite a b \<circ> key_of) (ozon_api_call_counters db)"
    by (intro filter_cong) (auto simp: in_hours_def key_of_def)
  then show "calls_between cab ozonAPICategoryBidWrite a b (ozon_api_call_counters db) \<le>
      calls_between cab ozonAPICategoryBidWrite a b (ozon_api_call_counters ?db')"
    by (simp add: CleanupAPICounters_def oz_upd_def Let_def CleanupCounters_def DeleteOzonAPICallCountersBefore_def
        calls_between_def usage_filter) (simp add: usage_def)
qed (simp_all add: CleanupAPICounters_def oz_upd_def Let_def)

lemma keeps_share_step: "ozon_step env db db' \<Longrightarrow> keeps_share env db db'"
proof (induction rule: ozon_step.induct)
  case (run db ws)
  show ?case by (rule sharing.R_workspace) simp
qed (auto intro: keeps_share_cleanup keeps_share_wait)

lemma keeps_share_steps: "(ozon_step env)\<^sup>*\<^sup>* db db' \<Longrightarrow> keeps_share env db db'"
  by (induction rule: rtranclp_induct) (auto intro: keeps_share_trans keeps_share_step keeps_share_wait)

section \<open>Theorems\<close>

text \<open>
  C19 However often the strategies run, and however their runs alternate with clean-ups of the counters and with everything else, the
  bid writes that they really send for a cabinet stay within 4800 over any 24 consecutive clock hours and within 400 in every
  clock hour, each write at the time at which its answer was back. This holds as long as no statement fails, so that every write is
  counted and every counter read, and the clock does not go back.
\<close>

theorem strategy_writes_within_share:
  assumes "steady env" "\<forall>n. \<not> oe_fault env n" "ozon_api_call_counters db0 = []" "oz_sent db0 = []" "oz_sent_at db0 = []"
    and "(ozon_step env)\<^sup>*\<^sup>* db0 db"
  shows "length (oz_sent_at db) = length (oz_sent db) \<and> writes_between cab (h - 23 * hour) h db \<le> 4800 \<and> writes_between cab h h db \<le> 400"
proof -
  have "budget_inv (budget_state env db0)"
    by (rule budget.inv_reachable [OF _ rtranclp.rtrancl_refl]) (simp add: fresh_budget_def budget_state_def assms(3))
  then have "writes_counted env db0" by (simp add: writes_counted_def writes_between_def calls_between_def assms(3-5))
  then have "writes_counted env db" using keeps_share_steps [OF assms(6)] assms(1,2) by (simp add: keeps_share_def)
  moreover have "h \<le> h - 23 * hour + 23 * hour" "h \<le> h + 23 * hour" by (simp_all add: hour_def)
  ultimately show ?thesis unfolding writes_counted_def by blast
qed

text \<open>
  C20 When every active strategy of the workspace that runs here is below the live level, a run writes no bids, counts
  no calls and changes no table except for new rows marked as shadow.
\<close>

theorem shadow_run_sends_nothing:
  assumes "\<forall>s \<in> set (ListActiveStrategiesByWorkspace ws db). shadow_level s"
  shows "shadow_only db (snd (RunForWorkspace env ws db))"
  by (rule shadow.R_workspace [OF assms])

text \<open>
  C21 A run in which no statement fails leaves no change pending: every change that is pending afterwards was
  already there before.
\<close>

theorem run_settles_changes:
  assumes "\<forall>n. \<not> oe_fault env n" "c \<in> set (ozon_bid_changes (snd (RunForWorkspace env ws db)))" "bc_Status c = OzonBidStatusPending"
  shows "c \<in> set (ozon_bid_changes db)"
  using settling.R_workspace [of ws db env] assms by (auto simp: settled_def)

lemma foldr_max_ge: "x \<in> set xs \<Longrightarrow> x \<le> foldr max xs (a :: int)" and foldr_max_init: "a \<le> foldr max xs (a :: int)"
  by (induction xs) auto

lemma max_date_ge: "d \<in> set ds \<Longrightarrow> \<exists>m. max_date ds = Some m \<and> d \<le> m"
  by (cases ds) (auto simp: max_date_def foldr_max_ge foldr_max_init)

lemma guard_passed:
  assumes "ozonStrategyGuardReason (fst (GetOzonStrategyGuardState cid dayStart changes)) (snd (GetOzonStrategyGuardState cid dayStart changes)) params now = None"
  shows "\<lbrakk>0 < CooldownMinutes params; c \<in> set (guard_rows cid changes)\<rbrakk> \<Longrightarrow> wrap64 (CooldownMinutes params * 60000000000) \<le> 1000 * (now - bc_CreatedAt c)"
    and "0 < MaxChangesPerDay params \<Longrightarrow>
      int (length (filter (\<lambda>c. bc_Sku c = sku \<and> bc_CreatedAt c \<ge> dayStart) (guard_rows cid changes))) < MaxChangesPerDay params"
proof -
  let ?rows = "guard_rows cid changes" and ?n = "\<lambda>sku. int (length (filter (\<lambda>c. bc_Sku c = sku \<and> bc_CreatedAt c \<ge> dayStart) (guard_rows cid changes)))"
  note a = assms [unfolded ozonStrategyGuardReason_def GetOzonStrategyGuardState_def Let_def fst_conv snd_conv]
  show "\<lbrakk>0 < CooldownMinutes params; c \<in> set (guard_rows cid changes)\<rbrakk> \<Longrightarrow> wrap64 (CooldownMinutes params * 60000000000) \<le> 1000 * (now - bc_CreatedAt c)"
  proof -
    assume c: "0 < CooldownMinutes params" "c \<in> set (guard_rows cid changes)"
    obtain m where m: "max_date (map bc_CreatedAt ?rows) = Some m" "bc_CreatedAt c \<le> m" using max_date_ge c(2) by force
    then have "wrap64 (CooldownMinutes params * 60000000000) \<le> 1000 * (now - m)" using a c(1) by (auto split: if_splits)
    then show ?thesis using m(2) by simp
  qed
  assume "0 < MaxChangesPerDay params"
  then have f: "foldr max (map ?n (remdups (map bc_Sku ?rows))) 0 < MaxChangesPerDay params" using a by (auto split: if_splits)
  show "?n sku < MaxChangesPerDay params"
  proof (cases "sku \<in> set (map bc_Sku ?rows)")
    case True
    then have "?n sku \<in> set (map ?n (remdups (map bc_Sku ?rows)))" by simp
    from foldr_max_ge [OF this, of 0] f show ?thesis by linarith
  next
    case False
    then have "filter (\<lambda>c. bc_Sku c = sku \<and> bc_CreatedAt c \<ge> dayStart) ?rows = []" by (auto simp: filter_empty_conv)
    then show ?thesis using \<open>0 < MaxChangesPerDay params\<close> by simp
  qed
qed

text \<open>
  C18 Bids are only written for a running campaign of a live strategy with enough clicks, after the cooldown since the
  last change of the campaign and with room in the daily limit of every product; there is one write with the
  bids of active products, each its current bid scaled by the decision and lifted to the minimum.
\<close>

theorem live_write_justified:
  assumes run: "runCampaign env strategy params campaign now cache tot attributed ceil db = (r, cache', db')" and wrote: "oz_sent db' \<noteq> oz_sent db"
  shows "3 \<le> AutomationLevel params \<and> oz_State campaign = Some ozonCampaignStateRunning \<and> MinClicks params \<le> fst (snd (agg_of params campaign now db)) \<and>
    (0 < CooldownMinutes params \<longrightarrow> (\<forall>c \<in> set (guard_rows (oz_ID campaign) (ozon_bid_changes db)).
       wrap64 (CooldownMinutes params * 60000000000) \<le> 1000 * (now - bc_CreatedAt c))) \<and>
    (0 < MaxChangesPerDay params \<longrightarrow> (\<forall>sku. int (length (filter (\<lambda>c. bc_Sku c = sku \<and> bc_CreatedAt c \<ge> ozonStrategyDayStart now)
       (guard_rows (oz_ID campaign) (ozon_bid_changes db)))) < MaxChangesPerDay params)) \<and>
    (\<exists>decision bids. decision_of env strategy params campaign now tot attributed ceil db = Some decision \<and> bids \<noteq> [] \<and>
       oz_sent db' = oz_sent db @ [(st_SellerCabinetID strategy, oz_OzonCampaignID campaign, bids)] \<and>
       (\<forall>b \<in> set bids. \<exists>old. (fst b, old) \<in> set (bids_of campaign db) \<and> scaled_bid cache' (multiplier decision) (fst b, old) = Some (snd b)))"
  using run
proof (cases rule: runCampaign_shape)
  case nothing
  then show ?thesis using wrote by (simp add: idle_def quiet_def)
next
  case (decided decision db3)
  have s3: "oz_sent db3 = oz_sent db" using decided(3) by (simp add: idle_def quiet_def)
  have level: "\<not> AutomationLevel params < 3" using apply_decision_shadow [OF decided(4)] wrote s3 by (auto simp: appended_def quiet_def)
  obtain rows db2 where w: "oz_sent db2 = oz_sent db" "rows \<noteq> []" "news_ok cache' (multiplier decision) (bids_of campaign db) (map triple rows)"
    "write_bids env (st_SellerCabinetID strategy) campaign (map triple rows) db2 = (r, db')"
    using apply_decision_live [OF decided(4) level] wrote s3 by (auto simp: appended_def quiet_def)
  have "oz_sent db' = oz_sent db @ [(st_SellerCabinetID strategy, oz_OzonCampaignID campaign, map snd (map triple rows))]"
    using write_bids_sent [OF w(4)] wrote w(1) by (simp split: if_splits)
  moreover have "\<forall>b \<in> set (map snd (map triple rows)). \<exists>old. (fst b, old) \<in> set (bids_of campaign db) \<and> scaled_bid cache' (multiplier decision) (fst b, old) = Some (snd b)"
    using w(3) by (auto simp: news_ok_def)
  moreover have "map snd (map triple rows) \<noteq> []" using w(2) by simp
  moreover note guard_passed [OF decided(1) [unfolded guards_passed_def Let_def, THEN conjunct2, THEN conjunct2]]
  ultimately show ?thesis using level decided(1,2) unfolding guards_passed_def by (auto simp del: map_map)
qed


section \<open>Witnesses\<close>

definition ow_strategy :: Strategy where
  "ow_strategy = (wit_strategy StrategyTypeOzonCPCTargetDRR)\<lparr>st_Params := wit_params\<lparr>AutomationLevel := 3\<rparr>\<rparr>"

definition ow_campaign :: OzonCampaign where
  "ow_campaign = \<lparr>oz_ID = 5, oz_SellerCabinetID = 1, oz_OzonCampaignID = 77, oz_State = Some ozonCampaignStateRunning, oz_FromDate = None, oz_ToDate = None\<rparr>"

definition ow_db :: ozon_db where
  "ow_db = \<lparr>oz_tables = \<lparr>ozon_campaigns = [ow_campaign],
       ozon_campaign_products = [\<lparr>op_CampaignID = 5, op_Sku = 9, op_BidRub = Fin 100, op_IsActive = True\<rparr>],
       ozon_campaign_stats = [\<lparr>os_CampaignID = 5, os_Date = 10 * day, os_Views = 1000, os_Clicks = 50, os_SpendRub = 250, os_Orders = 5, os_RevenueRub = 1000\<rparr>],
       ozon_sales_daily = [], ozon_product_prices = [], ozon_cancellation_rates = []\<rparr>,
     oz_strategies = [ow_strategy], oz_bindings = [(1, 5)],
     oz_cabinets = [\<lparr>cab_ID = 1, cab_WorkspaceID = 1, cab_Marketplace = MarketplaceOzon, cab_EncryptedCredentials = []\<rparr>],
     ozon_bid_changes = [], ozon_api_call_counters = [], oz_sent = [], oz_sent_at = [], oz_calls = 0\<rparr>"

definition ow_env :: ozon_env where
  "ow_env = \<lparr>oe_now = (\<lambda>n. 11 * day + int n), oe_uuid = int, oe_fault = (\<lambda>_. False), oe_count_fault = (\<lambda>_. False), oe_loc = (\<lambda>_. None),
     oe_decrypt = (\<lambda>_. Some True), oe_min_bids = (\<lambda>_ _. Some []), oe_set_bids = (\<lambda>_ _ _. Written), oe_attributed = (\<lambda>_ _ _ _. [])\<rparr>"

definition ow_total :: totalDRR where
  "ow_total = \<lparr>td_Value = Fin 5, td_Status = totalDRRStatusOK, td_SpendRub = Fin 5, td_RevenueRub = Fin 100, td_Scope = totalDRRScopeCabinet, td_AgeHours = Fin 0\<rparr>"

lemma ow_params: "MinClicks (eff_params ow_strategy) = 10" "LookbackDays (eff_params ow_strategy) = 7" "AutomationLevel (eff_params ow_strategy) = 3"
  "MaxDataAgeHours (eff_params ow_strategy) = 36" "TargetTotalDRRPercent (eff_params ow_strategy) = Fin 0" "CooldownMinutes (eff_params ow_strategy) = 120"
  "MaxChangesPerDay (eff_params ow_strategy) = 3"
  by (simp_all add: bid_wit_eval ow_strategy_def Merged_def)

lemma ow_agg: "agg_of (eff_params ow_strategy) ow_campaign (11 * day) ow_db = (1000, 50, 250, 5, 1000)"
  by (simp add: agg_of_def AggregateOzonCampaignStatsWindow_def ow_campaign_def ow_db_def bid_wit_eval ow_strategy_def between_def trunc_day_def)

lemma ow_bids: "bids_of ow_campaign ow_db = [(9, Fin 100)]" "average_bid [(9, Fin 100)] = 100"
  by (simp_all add: bids_of_def current_bids_def ListOzonCampaignProducts_def ow_campaign_def ow_db_def average_bid_def f64_defs f64_eval rnd_eval)

lemma ow_ctx: "campaign_context (1000, 50, 250, 5, 1000) 100 now =
   (wit_ctx 250)\<lparr>Placement := ''ozon_cpc'', IncreaseGuardrail := None, DecisionTime := Some now\<rparr>"
  by (simp add: campaign_context_def wit_ctx_def pgNumericToFloat_def f64_defs f64_eval rnd_eval zero_f64_def)

lemma ow_decision: "\<exists>d. CalculateBid (\<lambda>_. None) now ow_strategy ((wit_ctx 250)\<lparr>Placement := ''ozon_cpc'', IncreaseGuardrail := None, DecisionTime := Some now\<rparr>) = Some d
    \<and> bd_OldBid d = 100 \<and> bd_NewBid d = 85"
  by (simp add: bid_wit_eval ow_strategy_def)

lemma mult_85: "float_of_int 85 / float_of_int 100 = Fin (7656119366529843 / 9007199254740992)"
  by (simp add: f64_defs f64_eval rnd_eval)

lemma scaled_85: "minBids 9 = Some (Fin 0) \<Longrightarrow> scaled_bid minBids (Fin (7656119366529843 / 9007199254740992)) (9, Fin 100) = Some (Fin 85)"
  by (simp add: scaled_bid_def roundRub_def f64_defs f64_eval rnd_eval)

lemma ow_decided:
  obtains d where "decision_of ow_env ow_strategy (eff_params ow_strategy) ow_campaign (11 * day) ow_total (\<lambda>_. None) None ow_db = Some d"
    "bd_OldBid d = 100" "bd_NewBid d = 85"
proof -
  obtain d where d: "CalculateBid (\<lambda>_. None) (11 * day) ow_strategy ((wit_ctx 250)\<lparr>Placement := ''ozon_cpc'', IncreaseGuardrail := None, DecisionTime := Some (11 * day)\<rparr>) = Some d"
    "bd_OldBid d = 100" "bd_NewBid d = 85" using ow_decision by blast
  have "oe_loc ow_env = (\<lambda>_. None)" by (simp add: ow_env_def)
  then have "decision_of ow_env ow_strategy (eff_params ow_strategy) ow_campaign (11 * day) ow_total (\<lambda>_. None) None ow_db = Some d"
    unfolding decision_of_def Let_def ow_agg ow_bids ow_ctx campaign_decision_def using d
    by (simp add: ow_params(5))
  then show ?thesis using that d by blast
qed

lemma ow_guards: "guards_passed (eff_params ow_strategy) ow_campaign (11 * day) ow_db"
  unfolding guards_passed_def ow_agg ow_params(1)
  by (simp add: ow_campaign_def ow_db_def GetOzonStrategyGuardState_def guard_rows_def max_date_def ozonStrategyGuardReason_def ow_params bid_wit_eval ow_strategy_def)

lemma ow_budget: "ozon_api_call_counters db = [] \<Longrightarrow> fst (budget_check ow_env cab db) = None"
  by (simp add: budget_check_def Let_def AutomationBlockReason_def ozonAPIBudgetBlockReason_def ozonAPIWindowBlockReason_def UsedToday_def
      CountOzonAPICallsSince_def bid_limits automation_limits wrap64_def ow_env_def)

lemma ow_apply:
  assumes "bd_OldBid d = 100" "bd_NewBid d = 85" "ozon_api_call_counters db = []"
  shows "oz_sent (snd (snd (apply_decision ow_env ow_strategy (eff_params ow_strategy) ow_campaign d [(9, Fin 100)] Map.empty db))) = oz_sent db @ [(1, 77, [(9, Fin 85)])]"
proof -
  have m: "multiplier d = Fin (7656119366529843 / 9007199254740992)" unfolding multiplier_def assms(1,2) by (rule mult_85)
  let ?c = "[9 \<mapsto> Fin 0] :: int \<rightharpoonup> f64"
  let ?i = "oz_tick (InsertOzonBidChange 5 9 (Fin 100) (Fin 85) (bd_Reason d) OzonBidStatusPending (11 * day + (int (oz_calls db) + 1)) (int (oz_calls db) + 1) (oz_tick db))"
  have f: "fillMinBids ow_env [9] Map.empty db = (True, ?c, oz_tick db)" by (simp add: fillMinBids_def ow_env_def Let_def)
  have sc: "scaled_bid ?c (multiplier d) (9, Fin 100) = Some (Fin 85)" unfolding m by (rule scaled_85) simp
  have i: "insert_changes ow_env 5 (bd_Reason d) OzonBidStatusPending ?c (multiplier d) [(9, Fin 100)] (oz_tick db) = (Some [(int (oz_calls db) + 1, 9, Fin 85)], ?i)"
    by (simp add: sc oz_upd_def Let_def) (simp add: ow_env_def add.commute)
  have q: "ozon_api_call_counters ?i = []" "oz_sent ?i = oz_sent db" by (simp_all add: InsertOzonBidChange_def assms)
  obtain r db' where w: "write_bids ow_env 1 ow_campaign [(int (oz_calls db) + 1, 9, Fin 85)] ?i = (r, db')"
    by (cases "write_bids ow_env 1 ow_campaign [(int (oz_calls db) + 1, 9, Fin 85)] ?i") blast
  have "\<not> AutomationLevel (eff_params ow_strategy) < 3" "oz_ID ow_campaign = 5" "st_SellerCabinetID ow_strategy = 1" "oz_OzonCampaignID ow_campaign = 77"
    by (simp_all add: dflt_i_def ow_campaign_def ow_strategy_def wit_strategy_def)
  then show ?thesis using write_bids_sent [OF w] ow_budget [OF q(1)] q(2)
    by (simp add: apply_decision_def Let_def f i w del: insert_changes.simps)
qed

lemma runCampaign_decided:
  assumes "guards_passed params campaign now db" "decision_of env strategy params campaign now tot attributed ceil db = Some decision"
    "bids_of campaign db \<noteq> []" "0 < average_bid (bids_of campaign db)" "\<forall>n. \<not> oe_fault env n"
  shows "runCampaign env strategy params campaign now cache tot attributed ceil db =
    apply_decision env strategy params campaign decision (bids_of campaign db) cache (oz_tick (oz_tick (oz_tick db)))"
  using assms by (simp add: runCampaign_def oz_read_def guards_passed_def decision_of_def agg_of_def bids_of_def Let_def)

theorem live_write_justified_witness:
  "\<exists>decision. decision_of ow_env ow_strategy (eff_params ow_strategy) ow_campaign (11 * day) ow_total (\<lambda>_. None) None ow_db = Some decision \<and>
     oz_sent (snd (snd (runCampaign ow_env ow_strategy (eff_params ow_strategy) ow_campaign (11 * day) Map.empty ow_total (\<lambda>_. None) None ow_db))) = [(1, 77, [(9, Fin 85)])]"
proof -
  obtain d where d: "decision_of ow_env ow_strategy (eff_params ow_strategy) ow_campaign (11 * day) ow_total (\<lambda>_. None) None ow_db = Some d"
    "bd_OldBid d = 100" "bd_NewBid d = 85" by (rule ow_decided)
  obtain r c db' where r: "runCampaign ow_env ow_strategy (eff_params ow_strategy) ow_campaign (11 * day) Map.empty ow_total (\<lambda>_. None) None ow_db = (r, c, db')"
    by (cases "runCampaign ow_env ow_strategy (eff_params ow_strategy) ow_campaign (11 * day) Map.empty ow_total (\<lambda>_. None) None ow_db") blast
  have "apply_decision ow_env ow_strategy (eff_params ow_strategy) ow_campaign d [(9, Fin 100)] Map.empty (oz_tick (oz_tick (oz_tick ow_db))) = (r, c, db')"
    using runCampaign_decided [OF ow_guards d(1), of Map.empty] r by (simp add: ow_bids ow_env_def)
  then have "oz_sent db' = [(1, 77, [(9, Fin 85)])]" using ow_apply [OF d(2,3), of "oz_tick (oz_tick (oz_tick ow_db))"] by (simp add: ow_db_def)
  moreover from this have "oz_sent db' \<noteq> oz_sent ow_db" by (simp add: ow_db_def)
  from live_write_justified [OF r this] have "\<exists>decision. decision_of ow_env ow_strategy (eff_params ow_strategy) ow_campaign (11 * day) ow_total (\<lambda>_. None) None ow_db = Some decision"
    by blast
  ultimately show ?thesis using r by simp
qed

text \<open>The same workspace with its strategy below the live level.\<close>

definition shadow_db :: ozon_db where
  "shadow_db = ow_db\<lparr>oz_strategies := [ow_strategy\<lparr>st_Params := wit_params\<lparr>AutomationLevel := 2\<rparr>\<rparr>]\<rparr>"

theorem shadow_run_sends_nothing_witness: "shadow_only shadow_db (snd (RunForWorkspace ow_env 1 shadow_db))"
  by (rule shadow_run_sends_nothing)
    (simp add: ListActiveStrategiesByWorkspace_def shadow_db_def ow_db_def ow_strategy_def wit_strategy_def shadow_level_def dflt_i_def)

text \<open>A whole run of the workspace: the three reads before the campaigns move its clock to \<open>11 * day + 3\<close>.\<close>

lemma ow_run_agg: "agg_of (eff_params ow_strategy) ow_campaign (11 * day + 3) db = (1000, 50, 250, 5, 1000)" if "oz_tables db = oz_tables ow_db"
  using that by (simp add: agg_of_def AggregateOzonCampaignStatsWindow_def ow_campaign_def ow_db_def bid_wit_eval ow_strategy_def between_def trunc_day_def day_def hour_def)

lemma ow_run_bids: "bids_of ow_campaign db = [(9, Fin 100)]" if "oz_tables db = oz_tables ow_db"
  using that ow_bids(1) by (simp add: bids_of_def)

lemma ow_run_guards: "guards_passed (eff_params ow_strategy) ow_campaign (11 * day + 3) db" if "oz_tables db = oz_tables ow_db" "ozon_bid_changes db = []"
  unfolding guards_passed_def ow_run_agg [OF that(1)] ow_params(1)
  using that by (simp add: ow_campaign_def GetOzonStrategyGuardState_def guard_rows_def max_date_def ozonStrategyGuardReason_def ow_params bid_wit_eval ow_strategy_def)

lemma ow_run_reads:
  "strategyCredentials ow_env 1 ow_strategy (oz_tick ow_db) = (None, oz_tick (oz_tick ow_db))"
  "oz_read ow_env (ListOzonCampaignBindingsByStrategy (st_ID ow_strategy)) (oz_tick (oz_tick ow_db)) = (Some [ow_campaign], oz_tick (oz_tick (oz_tick ow_db)))"
  "ListActiveStrategiesByWorkspace 1 ow_db = [ow_strategy]"
  by (simp_all add: strategyCredentials_def oz_read_def ow_env_def ow_db_def ow_strategy_def wit_strategy_def oz_tick_def
      ListOzonCampaignBindingsByStrategy_def ow_campaign_def ListActiveStrategiesByWorkspace_def)

lemma ow_type: "IsOzonStrategy (st_Type ow_strategy)" "st_Type ow_strategy \<noteq> StrategyTypeOzonAIAutopilot" "\<not> IsOzonPriceStrategy (st_Type ow_strategy)"
  by (simp_all add: ow_strategy_def wit_strategy_def IsOzonStrategy_def IsOzonPriceStrategy_def strategy_type_defs)

lemma ow_run_writes: "oz_sent (snd (RunForWorkspace ow_env 1 ow_db)) = [(1, 77, [(9, Fin 85)])]"
proof -
  let ?db2 = "oz_tick (oz_tick (oz_tick ow_db))" and ?now = "11 * day + 3"
  have now: "oe_now ow_env (oz_calls ?db2) = ?now" by (simp add: ow_env_def ow_db_def)
  obtain tot attributed incremental ceil where lim: "load_limits ow_env ow_strategy (eff_params ow_strategy) ?now ?db2 =
      (tot, attributed, incremental, ceil, ?db2\<lparr>oz_calls := oz_calls ?db2 + 6\<rparr>)" by (simp add: load_limits_def Let_def)
  let ?db = "?db2\<lparr>oz_calls := oz_calls ?db2 + 6\<rparr>"
  have t: "oz_tables ?db = oz_tables ow_db" "ozon_bid_changes ?db = []" by (simp_all add: ow_db_def)
  obtain d where d: "CalculateBid (\<lambda>_. None) ?now ow_strategy ((wit_ctx 250)\<lparr>Placement := ''ozon_cpc'', IncreaseGuardrail := None, DecisionTime := Some ?now\<rparr>) = Some d"
    "bd_OldBid d = 100" "bd_NewBid d = 85" using ow_decision by blast
  have "oe_loc ow_env = (\<lambda>_. None)" by (simp add: ow_env_def)
  then have dec: "decision_of ow_env ow_strategy (eff_params ow_strategy) ow_campaign ?now tot attributed ceil ?db = Some d"
    unfolding decision_of_def Let_def ow_run_agg [OF t(1)] ow_run_bids [OF t(1)] ow_bids(2) ow_ctx campaign_decision_def using d
    by (simp add: ow_params(5))
  have nf: "\<forall>n. \<not> oe_fault ow_env n" by (simp add: ow_env_def)
  have ne: "bids_of ow_campaign ?db \<noteq> []" "0 < average_bid (bids_of ow_campaign ?db)" unfolding ow_run_bids [OF t(1)] by (simp_all add: ow_bids(2))
  let ?a = "apply_decision ow_env ow_strategy (eff_params ow_strategy) ow_campaign d [(9, Fin 100)] Map.empty (oz_tick (oz_tick (oz_tick ?db)))"
  have run: "runCampaign ow_env ow_strategy (eff_params ow_strategy) ow_campaign ?now Map.empty tot attributed ceil ?db = ?a"
    unfolding runCampaign_decided [OF ow_run_guards [OF t] dec ne nf] ow_run_bids [OF t(1)] ..
  obtain r c db' where a: "?a = (r, c, db')" by (metis prod.exhaust)
  have sent: "oz_sent db' = [(1, 77, [(9, Fin 85)])]"
    using ow_apply [OF d(2,3), of "oz_tick (oz_tick (oz_tick ?db))"] a by (simp add: ow_db_def)
  have s: "snd (runStrategy ow_env 1 ow_strategy (oz_tick ow_db)) = db'"
    unfolding runStrategy_def Let_def ow_run_reads(1) prod.case option.case ow_run_reads(2) now lim
    by (simp add: run a Let_def del: oz_tick_simps split: prod.splits)
  have "oz_read ow_env (ListActiveStrategiesByWorkspace 1) ow_db = (Some [ow_strategy], oz_tick ow_db)"
    using ow_run_reads(3) nf by (simp add: oz_read_def)
  then show ?thesis using s sent ow_type by (simp add: RunForWorkspace_def case_prod_beta Let_def)
qed

theorem strategy_writes_within_share_witness:
  "oz_sent (snd (RunForWorkspace ow_env 1 ow_db)) = [(1, 77, [(9, Fin 85)])] \<and>
   writes_between 1 (300 * hour) (323 * hour) (snd (RunForWorkspace ow_env 1 ow_db)) \<le> 4800"
proof -
  have "steady ow_env" "\<forall>n. \<not> oe_fault ow_env n" by (simp_all add: steady_def ow_env_def mono_def)
  moreover have "ozon_api_call_counters ow_db = []" "oz_sent ow_db = []" "oz_sent_at ow_db = []" by (simp_all add: ow_db_def)
  moreover have "(ozon_step ow_env)\<^sup>*\<^sup>* ow_db (snd (RunForWorkspace ow_env 1 ow_db))" by (rule r_into_rtranclp) (rule ozon_step.run)
  ultimately show ?thesis using strategy_writes_within_share [of ow_env ow_db _ 1 "323 * hour"] ow_run_writes by simp
qed

definition pending_change :: OzonBidChange where
  "pending_change = \<lparr>bc_ID = 900, bc_CampaignID = 6, bc_Kind = OzonBidKindCPC, bc_Sku = 9, bc_OldBidRub = Fin 1, bc_NewBidRub = Fin 2,
     bc_Reason = [], bc_Source = BidSourceStrategy, bc_Status = OzonBidStatusPending, bc_Error = None, bc_CreatedAt = 0, bc_AppliedAt = None\<rparr>"

definition pending_db :: ozon_db where
  "pending_db = shadow_db\<lparr>ozon_bid_changes := [pending_change]\<rparr>"

theorem run_settles_changes_witness: "pending_change \<in> set (ozon_bid_changes pending_db)"
proof (rule run_settles_changes [of ow_env pending_change 1])
  show "\<forall>n. \<not> oe_fault ow_env n" by (simp add: ow_env_def)
  have "shadow_only pending_db (snd (RunForWorkspace ow_env 1 pending_db))"
    by (rule shadow.R_workspace)
      (simp add: ListActiveStrategiesByWorkspace_def pending_db_def shadow_db_def ow_db_def ow_strategy_def wit_strategy_def shadow_level_def dflt_i_def)
  then show "pending_change \<in> set (ozon_bid_changes (snd (RunForWorkspace ow_env 1 pending_db)))"
    by (auto simp: shadow_only_def pending_db_def)
  show "bc_Status pending_change = OzonBidStatusPending" by (simp add: pending_change_def)
qed

section \<open>Departures\<close>

definition two_targets :: Strategy where
  "two_targets = ow_strategy\<lparr>st_Params := wit_params\<lparr>AutomationLevel := 3, TargetTotalDRRPercent := Fin 10\<rparr>\<rparr>"

definition raise_ctx :: BidContext where
  "raise_ctx = (wit_ctx 10)\<lparr>IncreaseGuardrail := None\<rparr>"

definition near_target :: campaignTotalDRR where
  "near_target = \<lparr>ct_total = ow_total\<lparr>td_RevenueRub := Fin 110\<rparr>, ct_Shared = False\<rparr>"

lemma held_second: "total_decision (\<lambda>_. None) 0 two_targets (eff_params two_targets) raise_ctx near_target = None"
  by (simp add: total_decision_def bid_wit_eval two_targets_def raise_ctx_def near_target_def ow_total_def ow_strategy_def Merged_def)

lemma raised_first: "\<exists>d. CalculateBid (\<lambda>_. None) 0 two_targets raise_ctx = Some d \<and> bd_OldBid d = 100 \<and> bd_NewBid d = 115"
  by (simp add: bid_wit_eval two_targets_def raise_ctx_def ow_strategy_def)

lemma first_target_wins:
  assumes "totalDRRIncreaseBlockReason ceil ow_total = None"
  shows "\<exists>d. campaign_decision (\<lambda>_. None) 0 two_targets (eff_params two_targets) raise_ctx ceil ow_total near_target = Some d \<and> bd_OldBid d = 100 \<and> bd_NewBid d = 115"
proof -
  obtain d where d: "CalculateBid (\<lambda>_. None) 0 two_targets raise_ctx = Some d" "bd_OldBid d = 100" "bd_NewBid d = 115" using raised_first by blast
  show ?thesis unfolding campaign_decision_def d(1) held_second using assms d(2,3) by (simp add: Let_def)
qed

text \<open>
  The second target does not have to agree to a raise. With 10 rubles spent on an attributed turnover of 110 its share
  of 9.1 percent is in the band below its target of 10 percent, in which it makes no decision; the
  decision of the first target then raises the bid from 100 to 115.
\<close>

theorem held_target_still_raises:
  "total_decision (\<lambda>_. None) 0 two_targets (eff_params two_targets) raise_ctx near_target = None \<and>
   (\<exists>d. campaign_decision (\<lambda>_. None) 0 two_targets (eff_params two_targets) raise_ctx None ow_total near_target = Some d \<and> bd_OldBid d = 100 \<and> bd_NewBid d = 115)"
  using held_second first_target_wins [of None] by (simp add: totalDRRIncreaseBlockReason_def)


lemma raised_2500: "\<exists>d. CalculateBid (\<lambda>_. None) 0 ow_strategy (raise_ctx\<lparr>CurrentBid := 2500\<rparr>) = Some d \<and> bd_OldBid d = 2500 \<and> bd_NewBid d = 2875"
  by (simp add: bid_wit_eval raise_ctx_def ow_strategy_def)

lemma mult_115: "float_of_int 2875 / float_of_int 2500 = Fin (5179139571476070 / 4503599627370496)"
  by (simp add: f64_defs f64_eval rnd_eval)

text \<open>
  The corridor holds for the average bid only. Of two products at 100 and 4900 rubles the average of 2500 is
  raised to 2875, well inside the corridor that ends at 5000, but the second product is sent 5635 rubles.
\<close>

theorem product_bid_leaves_corridor:
  "MaxBid (eff_params ow_strategy) = 5000 \<and> average_bid [(1, Fin 100), (2, Fin 4900)] = 2500 \<and>
   (\<exists>d. CalculateBid (\<lambda>_. None) 0 ow_strategy (raise_ctx\<lparr>CurrentBid := 2500\<rparr>) = Some d \<and> bd_NewBid d = 2875 \<and>
      scaled_bid Map.empty (multiplier d) (2, Fin 4900) = Some (Fin 5635))"
proof -
  have "MaxBid (eff_params ow_strategy) = 5000" by (simp add: bid_wit_eval ow_strategy_def)
  moreover have "average_bid [(1, Fin 100), (2, Fin 4900)] = 2500"
    by (simp add: average_bid_def f64_defs f64_eval rnd_eval)
  moreover obtain d where d: "CalculateBid (\<lambda>_. None) 0 ow_strategy (raise_ctx\<lparr>CurrentBid := 2500\<rparr>) = Some d" "bd_OldBid d = 2500" "bd_NewBid d = 2875"
    using raised_2500 by blast
  have "multiplier d = Fin (5179139571476070 / 4503599627370496)" unfolding multiplier_def d(2,3) by (rule mult_115)
  then have "scaled_bid Map.empty (multiplier d) (2, Fin 4900) = Some (Fin 5635)"
    by (simp add: scaled_bid_def roundRub_def f64_defs f64_eval rnd_eval)
  ultimately show ?thesis using d by blast
qed

end
