(* ===== verification/Price_Adjust.thy ===== *)
theory Price_Adjust
  imports Price_Engine
begin

text \<open>
  Price changes requested by an operator: \<^verbatim>\<open>internal/service/repricer_bulk.go\<close> and the checks at the
  head of \<^verbatim>\<open>internal/service/repricer_apply.go\<close>. A bulk request is validated, the current prices are
  overlaid with the latest saved intents, each product's new base price is computed, clamped at the
  product's margin floor and cut into quarantine-safe steps; every intent then passes the two
  anomaly checks before it is saved. The discounted price is computed in binary64 by the source;
  \<open>effectiveOf_eq\<close> shows that it is the integer quotient rounded half up.
\<close>

named_theorems adjust_defs \<open>definitions of the manual price path, for evaluation\<close>

section \<open>Data\<close>

definition PriceSourceStrategy :: string where "PriceSourceStrategy = ''strategy''"
definition PriceSourceManual :: string where "PriceSourceManual = ''manual''"
definition PriceSourceRollback :: string where "PriceSourceRollback = ''rollback''"
definition PriceSourceSchedule :: string where "PriceSourceSchedule = ''schedule''"

definition PriceStatusRecommended :: string where "PriceStatusRecommended = ''recommended''"
definition PriceStatusPending :: string where "PriceStatusPending = ''pending''"
definition PriceStatusSubmitting :: string where "PriceStatusSubmitting = ''submitting''"
definition PriceStatusSubmitUnknown :: string where "PriceStatusSubmitUnknown = ''submit_unknown''"
definition PriceStatusUploaded :: string where "PriceStatusUploaded = ''uploaded''"
definition PriceStatusApplied :: string where "PriceStatusApplied = ''applied''"
definition PriceStatusFailed :: string where "PriceStatusFailed = ''failed''"
definition PriceStatusRolledBack :: string where "PriceStatusRolledBack = ''rolled_back''"

definition PriceAdjustPercent :: string where "PriceAdjustPercent = ''percent''"
definition PriceAdjustAbsolute :: string where "PriceAdjustAbsolute = ''absolute''"
definition PriceAdjustTargetRub :: string where "PriceAdjustTargetRub = ''target_rub''"
definition PriceAdjustDeltaPercent :: string where "PriceAdjustDeltaPercent = ''delta_percent''"

lemmas price_source_defs [adjust_defs] =
  PriceSourceStrategy_def PriceSourceManual_def PriceSourceRollback_def PriceSourceSchedule_def

lemmas price_status_defs [adjust_defs] =
  PriceStatusRecommended_def PriceStatusPending_def PriceStatusSubmitting_def PriceStatusSubmitUnknown_def
  PriceStatusUploaded_def PriceStatusApplied_def PriceStatusFailed_def PriceStatusRolledBack_def

lemmas price_adjust_type_defs [adjust_defs] =
  PriceAdjustPercent_def PriceAdjustAbsolute_def PriceAdjustTargetRub_def PriceAdjustDeltaPercent_def

record ManualPriceBulkItem =
  mi_WBProductID :: int
  mi_TargetPriceRub :: "int option"
  mi_DiscountPercent :: "int option"

record ManualPriceBulkScope =
  sc_All :: bool
  sc_SellerCabinetID :: "uuid option"
  sc_ProductIDs :: "int list"

record ManualPriceAdjustment =
  adj_Type :: string
  adj_Value :: f64

record ManualPriceBulkRequest =
  rq_Items :: "ManualPriceBulkItem list"
  rq_Scope :: "ManualPriceBulkScope option"
  rq_Adjustment :: "ManualPriceAdjustment option"
  rq_Comment :: string
  rq_Force :: bool

text \<open>A row of \<^verbatim>\<open>price_changes\<close>; the audit JSON of a decision is not part of the model.\<close>

record PriceChangeRow =
  pc_ID :: uuid
  pc_WorkspaceID :: uuid
  pc_SellerCabinetID :: uuid
  pc_StrategyID :: "uuid option"
  pc_ScheduleEntryID :: "uuid option"
  pc_UploadTaskID :: "uuid option"
  pc_SubmissionBatchID :: "uuid option"
  pc_WbProductID :: int
  pc_OldPriceRub :: int
  pc_NewPriceRub :: int
  pc_OldDiscountPercent :: int
  pc_NewDiscountPercent :: int
  pc_MinPriceRub :: "int option"
  pc_Reason :: string
  pc_Source :: string
  pc_WbStatus :: string
  pc_Error :: "string option"
  pc_CanRollback :: bool
  pc_RollbackOf :: "uuid option"
  pc_CreatedBy :: "uuid option"
  pc_CreatedAt :: int
  pc_UpdatedAt :: int

record priceChangeIntent =
  CabinetID :: uuid
  NmID :: int
  OldPriceRub :: int
  NewPriceRub :: int
  OldDiscount :: int
  NewDiscount :: int
  IntentMinPriceRub :: int
  IntentReason :: string
  IntentSource :: string
  StrategyID :: "uuid option"
  ScheduleEntryID :: "uuid option"
  RollbackOf :: "uuid option"
  CreatedBy :: "uuid option"

section \<open>Discounts and floors\<close>

definition clampDiscount :: "int \<Rightarrow> int" where
  "clampDiscount d = (if d < 0 then 0 else if d > 95 then 95 else d)"

definition effectiveOf :: "int \<Rightarrow> int \<Rightarrow> int" where
  "effectiveOf base discount =
     (let d = clampDiscount discount
      in int_of_float (math_Round (float_of_int base * float_of_int (100 - d) / Fin 100)))"

definition clampToMarginFloor :: "ProductPrice \<Rightarrow> int \<Rightarrow> int \<Rightarrow> int \<Rightarrow> int \<times> bool" where
  "clampToMarginFloor cur newBase newDiscount floorRub =
     (let newEffective = effectiveOf newBase newDiscount;
          curEffective = effectiveOf (pp_PriceRub cur) (pp_DiscountPercent cur)
      in if newEffective \<ge> floorRub then (newBase, True)
         else if curEffective \<ge> floorRub then (basePriceForTarget floorRub newDiscount, True)
         else if newEffective > curEffective then (newBase, True)
         else (0, False))"

definition maxPriceAdjustmentPercent :: f64 where "maxPriceAdjustmentPercent = lit 95"
definition maxPriceRub :: f64 where "maxPriceRub = lit 1000000000"

definition applyAdjustment :: "int \<Rightarrow> ManualPriceAdjustment \<Rightarrow> int" where
  "applyAdjustment base adj =
     (let result =
            (if adj_Type adj = PriceAdjustPercent \<or> adj_Type adj = PriceAdjustDeltaPercent
             then Some (float_of_int base * (Fin 1 + adj_Value adj / Fin 100))
             else if adj_Type adj = PriceAdjustAbsolute then Some (float_of_int base + adj_Value adj)
             else if adj_Type adj = PriceAdjustTargetRub then Some (adj_Value adj)
             else None)
      in case result of
           None \<Rightarrow> base
         | Some r \<Rightarrow>
           if IsNaN r \<or> IsInf r \<or> r < Fin 1 \<or> r > maxPriceRub then 0
           else int_of_float (math_Round r))"

section \<open>Validation\<close>

definition validatePriceAdjustment :: "ManualPriceAdjustment \<Rightarrow> bool \<Rightarrow> go_error" where
  "validatePriceAdjustment adj allowDelta =
     (let v = adj_Value adj
      in if IsNaN v \<or> IsInf v then Some (validation_error ''adjustment value must be finite'')
         else if adj_Type adj = PriceAdjustPercent then
           (if feq v (Fin 0) \<or> \<bar>v\<bar> > maxPriceAdjustmentPercent
            then Some (validation_error ''percent adjustment must be non-zero and between -95 and 95'') else None)
         else if adj_Type adj = PriceAdjustDeltaPercent then
           (if \<not> allowDelta then Some (validation_error ''invalid adjustment type'')
            else if feq v (Fin 0) \<or> \<bar>v\<bar> > maxPriceAdjustmentPercent
            then Some (validation_error ''delta_percent adjustment must be non-zero and between -95 and 95'') else None)
         else if adj_Type adj = PriceAdjustAbsolute then
           (if feq v (Fin 0) \<or> \<bar>v\<bar> > maxPriceRub
            then Some (validation_error ''absolute adjustment must be non-zero and between -1000000000 and 1000000000'')
            else None)
         else if adj_Type adj = PriceAdjustTargetRub then
           (if v < Fin 1 \<or> v > maxPriceRub
            then Some (validation_error ''target_rub must be between 1 and 1000000000'') else None)
         else Some (validation_error ''invalid adjustment type''))"

text \<open>The loop over the explicit items; \<open>seen\<close> holds the product ids of the items before.\<close>

primrec validate_bulk_items :: "ManualPriceBulkItem list \<Rightarrow> int list \<Rightarrow> go_error" where
  "validate_bulk_items [] seen = None"
| "validate_bulk_items (item # items) seen =
     (if mi_WBProductID item \<le> 0 then Some (validation_error ''wb_product_id must be positive'')
      else if mi_WBProductID item \<in> set seen then Some (validation_error ''duplicate wb_product_id'')
      else if mi_TargetPriceRub item = None \<and> mi_DiscountPercent item = None
      then Some (validation_error ''each item requires target_price_rub or discount_percent'')
      else if some_and (\<lambda>t. t \<le> 0 \<or> float_of_int t > maxPriceRub) (mi_TargetPriceRub item)
      then Some (validation_error ''target_price_rub must be between 1 and 1000000000'')
      else if some_and (\<lambda>d. d < 0 \<or> d > 95) (mi_DiscountPercent item)
      then Some (validation_error ''discount_percent must be between 0 and 95'')
      else validate_bulk_items items (mi_WBProductID item # seen))"

text \<open>
  The loop over a list of product ids that the bulk request and the schedule share; the two callers
  pass their own messages.
\<close>

primrec validate_ids :: "string \<Rightarrow> string \<Rightarrow> int list \<Rightarrow> int list \<Rightarrow> go_error" where
  "validate_ids msg_positive msg_duplicate [] seen = None"
| "validate_ids msg_positive msg_duplicate (nm # nms) seen =
     (if nm \<le> 0 then Some (validation_error msg_positive)
      else if nm \<in> set seen then Some (validation_error msg_duplicate)
      else validate_ids msg_positive msg_duplicate nms (nm # seen))"

definition validateManualPriceBulkRequest :: "ManualPriceBulkRequest \<Rightarrow> go_error" where
  "validateManualPriceBulkRequest req =
     (let itemsMode = (rq_Items req \<noteq> []); scopeMode = (rq_Scope req \<noteq> None)
      in if itemsMode = scopeMode then Some (validation_error ''provide exactly one of items or scope'')
         else if itemsMode then
           (if rq_Adjustment req \<noteq> None
            then Some (validation_error ''items mode does not accept an adjustment'')
            else validate_bulk_items (rq_Items req) [])
         else
           case rq_Adjustment req of
             None \<Rightarrow> Some (validation_error ''scope requires an adjustment'')
           | Some adj \<Rightarrow>
             let scope = the (rq_Scope req);
                 allScope = (sc_All scope \<and> sc_SellerCabinetID scope = None \<and> sc_ProductIDs scope = []);
                 cabinetScope = (\<not> sc_All scope \<and> sc_SellerCabinetID scope \<noteq> None \<and> sc_ProductIDs scope = []);
                 productScope = (\<not> sc_All scope \<and> sc_SellerCabinetID scope \<noteq> None \<and> sc_ProductIDs scope \<noteq> [])
             in if \<not> allScope \<and> \<not> cabinetScope \<and> \<not> productScope
                then Some (validation_error ''scope must select all products, one seller cabinet, or product_ids'')
                else
                  case (if productScope
                        then validate_ids ''scope product_ids must be positive''
                               ''scope product_ids must not contain duplicates'' (sc_ProductIDs scope) []
                        else None) of
                    Some e \<Rightarrow> Some e
                  | None \<Rightarrow> validatePriceAdjustment adj False)"

section \<open>Checks before a change is saved\<close>

definition checkQuarantineRisk :: "priceChangeIntent \<Rightarrow> go_error" where
  "checkQuarantineRisk it =
     (let oldEffective = effectiveOf (OldPriceRub it) (OldDiscount it);
          newEffective = effectiveOf (NewPriceRub it) (NewDiscount it)
      in if newEffective \<le> 0 \<or> oldEffective < wrap64 (newEffective * 3) then None
         else Some (validation_error
           (''nmID '' @ fmt_d (NmID it) @ '': '' @ fmt_d oldEffective @ '' '' @ sym_rub @ '' '' @ sym_arrow @ '' '' @
            fmt_d newEffective @ '' '' @ sym_rub @ '' is a 3x or deeper drop '' @ sym_emdash @
            '' WB would park the product in price quarantine, which only the seller cabinet can release. '' @
            ''Lower the price in steps of less than 3x (e.g. via '' @ fmt_d (go_quot oldEffective 2) @ '' '' @
            sym_rub @ '' first).'')))"

definition checkRaiseAnomaly :: "priceChangeIntent \<Rightarrow> go_error" where
  "checkRaiseAnomaly it =
     (if IntentSource it = PriceSourceStrategy then None
      else
        let oldEffective = effectiveOf (OldPriceRub it) (OldDiscount it);
            newEffective = effectiveOf (NewPriceRub it) (NewDiscount it)
        in if oldEffective \<le> 0 \<or> newEffective < wrap64 (oldEffective * 3) then None
           else Some (validation_error
             (''nmID '' @ fmt_d (NmID it) @ '': '' @ fmt_d oldEffective @ '' '' @ sym_rub @ '' '' @ sym_arrow @ '' '' @
              fmt_d newEffective @ '' '' @ sym_rub @ '' is a 3x or larger raise '' @ sym_emdash @
              '' this looks like corrupted input, refusing to ship it to WB. '' @
              ''Raise the price in steps of less than 3x if it is intentional.'')))"

definition quarantineSafeTarget :: "int \<Rightarrow> int \<Rightarrow> int" where
  "quarantineSafeTarget oldEffective targetEffective =
     (if targetEffective \<le> 0 \<or> oldEffective < wrap64 (targetEffective * 3) then targetEffective
      else wrap64 (go_quot oldEffective 3 + 1))"

section \<open>Building the intents of a bulk request\<close>

definition priceBelongsToCabinet :: "ProductPrice \<Rightarrow> uuid \<Rightarrow> bool" where
  "priceBelongsToCabinet price cabinetID \<longleftrightarrow> pp_SellerCabinetID price = cabinetID"

type_synonym price_map = "int \<rightharpoonup> ProductPrice"

definition row_active :: "PriceChangeRow \<Rightarrow> bool" where
  "row_active row \<longleftrightarrow>
     pc_WbStatus row \<in> {PriceStatusPending, PriceStatusSubmitting, PriceStatusSubmitUnknown, PriceStatusUploaded}"

definition intent_price :: "PriceChangeRow \<Rightarrow> ProductPrice" where
  "intent_price row = \<lparr>pp_ID = uuid_Nil, pp_WorkspaceID = pc_WorkspaceID row,
     pp_SellerCabinetID = pc_SellerCabinetID row, pp_WBProductID = pc_WbProductID row,
     pp_PriceRub = pc_NewPriceRub row, pp_DiscountPercent = pc_NewDiscountPercent row,
     pp_ClubDiscountPercent = 0, pp_DiscountedPriceRub = None, pp_EditableSizePrice = False,
     pp_SyncedAt = pc_UpdatedAt row, pp_UpdatedAt = pc_UpdatedAt row\<rparr>"

definition overlay_one :: "price_map \<Rightarrow> PriceChangeRow \<Rightarrow> price_map" where
  "overlay_one prices row =
     (case prices (pc_WbProductID row) of
        Some cur \<Rightarrow>
          if \<not> row_active row \<and> \<not> pc_CreatedAt row > pp_SyncedAt cur then prices
          else prices(pc_WbProductID row \<mapsto> intent_price row)
      | None \<Rightarrow> prices(pc_WbProductID row \<mapsto> intent_price row))"

definition overlayLatestPriceIntents :: "price_map \<Rightarrow> PriceChangeRow list \<Rightarrow> price_map" where
  "overlayLatestPriceIntents prices latest = foldl overlay_one prices latest"

definition economicsPageSize :: nat where "economicsPageSize = 1000"

text \<open>
  \<^verbatim>\<open>marginFloors\<close> reads the economics of the workspace page by page. \<open>rows\<close> is the table in the order of
  the query and \<open>fails offset\<close> says that the query of that page fails, which ends the loop with what was
  collected.
\<close>

definition add_floor :: "(int \<rightharpoonup> int) \<Rightarrow> ProductEconomics \<Rightarrow> (int \<rightharpoonup> int)" where
  "add_floor floors econ =
     (let (floorRub, skip) = ComputeMinEffectivePrice econ None
      in if skip = [] then floors(pe_WBProductID econ \<mapsto> floorRub) else floors)"

function margin_floors_from ::
    "ProductEconomics list \<Rightarrow> (nat \<Rightarrow> bool) \<Rightarrow> nat \<Rightarrow> (int \<rightharpoonup> int) \<Rightarrow> (int \<rightharpoonup> int)" where
  "margin_floors_from rows fails offset floors =
     (if fails offset then floors
      else
        let page = take economicsPageSize (drop offset rows);
            floors' = foldl add_floor floors page
        in if length page < economicsPageSize then floors'
           else margin_floors_from rows fails (offset + economicsPageSize) floors')"
  by pat_completeness auto
termination
  by (relation "measure (\<lambda>(rows, fails, offset, floors). length rows - offset)") (auto simp: economicsPageSize_def)

declare margin_floors_from.simps [simp del]

definition marginFloors :: "ProductEconomics list \<Rightarrow> (nat \<Rightarrow> bool) \<Rightarrow> (int \<rightharpoonup> int)" where
  "marginFloors rows fails = margin_floors_from rows fails 0 (\<lambda>_. None)"

text \<open>Reading a missing key of a Go map gives the zero value.\<close>

definition floor_at :: "(int \<rightharpoonup> int) \<Rightarrow> int \<Rightarrow> int" where
  "floor_at floors nm = (case floors nm of None \<Rightarrow> 0 | Some f \<Rightarrow> f)"

text \<open>
  The base price that \<^verbatim>\<open>appendIntent\<close> settles on, with the reason extended when it is a
  quarantine-safe step; \<open>None\<close> when the change is skipped.
\<close>

definition clamp_request :: "bool \<Rightarrow> int \<Rightarrow> ProductPrice \<Rightarrow> int \<Rightarrow> int \<Rightarrow> int \<times> bool" where
  "clamp_request force floorRub cur newBase newDiscount =
     (if \<not> force \<and> floorRub > 0 then clampToMarginFloor cur newBase newDiscount floorRub else (newBase, True))"

definition settle_price ::
    "bool \<Rightarrow> int \<Rightarrow> ProductPrice \<Rightarrow> int \<Rightarrow> int \<Rightarrow> (int \<times> bool) option" where
  "settle_price force floorRub cur newBase newDiscount =
     (if newBase \<le> 0 then None
      else
        let (clamped, ok) = clamp_request force floorRub cur newBase newDiscount
        in if \<not> ok then None
           else
             let newEffective = effectiveOf clamped newDiscount;
                 stepped = quarantineSafeTarget (effectiveOf (pp_PriceRub cur) (pp_DiscountPercent cur)) newEffective
             in if stepped \<noteq> newEffective then Some (basePriceForTarget stepped newDiscount, True)
                else Some (clamped, False))"

definition appendIntent ::
    "bool \<Rightarrow> uuid \<Rightarrow> (int \<rightharpoonup> int) \<Rightarrow> ProductPrice \<Rightarrow> int \<Rightarrow> int \<Rightarrow> string \<Rightarrow> priceChangeIntent option" where
  "appendIntent force actorID floors cur newBase newDiscount reason =
     (let floorRub = floor_at floors (pp_WBProductID cur)
      in case settle_price force floorRub cur newBase newDiscount of
           None \<Rightarrow> None
         | Some (base, stepped) \<Rightarrow>
           if base = pp_PriceRub cur \<and> newDiscount = pp_DiscountPercent cur then None
           else Some \<lparr>CabinetID = pp_SellerCabinetID cur, NmID = pp_WBProductID cur,
                  OldPriceRub = pp_PriceRub cur, NewPriceRub = base,
                  OldDiscount = pp_DiscountPercent cur, NewDiscount = newDiscount,
                  IntentMinPriceRub = floorRub,
                  IntentReason = reason @ (if stepped then '' (quarantine-safe step toward target)'' else []),
                  IntentSource = PriceSourceManual, StrategyID = None, ScheduleEntryID = None,
                  RollbackOf = None, CreatedBy = Some actorID\<rparr>)"

text \<open>
  The result of one product of the request: an intent, a skip that is counted, or (for a product of
  another cabinet in the loop over all prices) nothing at all.
\<close>

datatype bulk_outcome = Intent priceChangeIntent | Skipped | Ignored

definition outcome_of :: "priceChangeIntent option \<Rightarrow> bulk_outcome" where
  "outcome_of r = (case r of None \<Rightarrow> Skipped | Some it \<Rightarrow> Intent it)"

definition bulk_item ::
    "bool \<Rightarrow> uuid \<Rightarrow> price_map \<Rightarrow> (int \<rightharpoonup> int) \<Rightarrow> ManualPriceBulkItem \<Rightarrow> bulk_outcome" where
  "bulk_item force actorID prices floors item =
     (case prices (mi_WBProductID item) of
        None \<Rightarrow> Skipped
      | Some cur \<Rightarrow>
        outcome_of (appendIntent force actorID floors cur
          (case mi_TargetPriceRub item of None \<Rightarrow> pp_PriceRub cur | Some t \<Rightarrow> t)
          (case mi_DiscountPercent item of None \<Rightarrow> pp_DiscountPercent cur | Some d \<Rightarrow> d)
          ''manual bulk item''))"

definition bulk_selected ::
    "bool \<Rightarrow> uuid \<Rightarrow> price_map \<Rightarrow> (int \<rightharpoonup> int) \<Rightarrow> uuid \<Rightarrow> ManualPriceAdjustment \<Rightarrow> int \<Rightarrow> bulk_outcome" where
  "bulk_selected force actorID prices floors requestedCabinetID adj nm =
     (case prices nm of
        None \<Rightarrow> Skipped
      | Some cur \<Rightarrow>
        if \<not> priceBelongsToCabinet cur requestedCabinetID then Skipped
        else outcome_of (appendIntent force actorID floors cur (applyAdjustment (pp_PriceRub cur) adj)
               (pp_DiscountPercent cur) ''manual selected-products adjustment''))"

definition bulk_scope ::
    "bool \<Rightarrow> uuid \<Rightarrow> (int \<rightharpoonup> int) \<Rightarrow> uuid option \<Rightarrow> ManualPriceAdjustment \<Rightarrow> ProductPrice \<Rightarrow> bulk_outcome" where
  "bulk_scope force actorID floors cabinet adj cur =
     (if cabinet \<noteq> None \<and> pp_SellerCabinetID cur \<noteq> the cabinet then Ignored
      else outcome_of (appendIntent force actorID floors cur (applyAdjustment (pp_PriceRub cur) adj)
             (pp_DiscountPercent cur) ''manual bulk adjustment''))"

text \<open>
  Go enumerates a map in an arbitrary order: \<open>order\<close> is that enumeration of the keys of the price map, a
  parameter of the loop over all prices.
\<close>

definition bulk_outcomes ::
    "uuid \<Rightarrow> ManualPriceBulkRequest \<Rightarrow> price_map \<Rightarrow> (int \<rightharpoonup> int) \<Rightarrow> int list \<Rightarrow> bulk_outcome list" where
  "bulk_outcomes actorID req prices floors order =
     (if rq_Items req \<noteq> [] then map (bulk_item (rq_Force req) actorID prices floors) (rq_Items req)
      else
        let scope = the (rq_Scope req); adj = the (rq_Adjustment req)
        in if sc_ProductIDs scope \<noteq> []
           then map (bulk_selected (rq_Force req) actorID prices floors (the (sc_SellerCabinetID scope)) adj)
                  (sc_ProductIDs scope)
           else map (bulk_scope (rq_Force req) actorID floors (sc_SellerCabinetID scope) adj)
                  (map (the \<circ> prices) order))"

definition bulk_intents :: "bulk_outcome list \<Rightarrow> priceChangeIntent list" where
  "bulk_intents outs = List.map_filter (\<lambda>r. case r of Intent it \<Rightarrow> Some it | _ \<Rightarrow> None) outs"

definition bulk_skipped :: "bulk_outcome list \<Rightarrow> int" where
  "bulk_skipped outs = int (length (filter (\<lambda>r. r = Skipped) outs))"

lemmas adjust_op_defs [adjust_defs] = clampDiscount_def effectiveOf_def clampToMarginFloor_def
  maxPriceAdjustmentPercent_def maxPriceRub_def applyAdjustment_def validatePriceAdjustment_def
  validateManualPriceBulkRequest_def checkQuarantineRisk_def checkRaiseAnomaly_def quarantineSafeTarget_def
  clamp_request_def settle_price_def appendIntent_def outcome_of_def bulk_item_def bulk_selected_def bulk_scope_def
  bulk_outcomes_def bulk_intents_def bulk_skipped_def floor_at_def

section \<open>The discounted price in integer arithmetic\<close>

lemma round_rnd_hundredth:
  assumes "0 \<le> a" "a \<le> 100 * 2 ^ 41"
  shows "round_away (rnd (of_int a / 100)) = (a + 50) div 100"
proof -
  define n where "n = (a + 50) div 100"
  have n: "100 * n - 50 \<le> a" "a \<le> 100 * n + 49" "0 \<le> n" "n \<le> 2 ^ 42"
    using assms unfolding n_def by simp_all
  have "of_int (100 * n - 50) \<le> (of_int a :: rat)" "(of_int a :: rat) \<le> of_int (100 * n + 49)"
    using n(1,2) by (simp_all only: of_int_le_iff)
  then have x: "of_int (2 * n - 1) / 2 ^ 1 \<le> (of_int a / 100 :: rat)"
    "(of_int a / 100 :: rat) \<le> of_int (128 * n + 63) / 2 ^ 7" by (simp_all add: field_simps)
  have "of_int (2 * n - 1) / 2 ^ 1 \<le> rnd (of_int a / 100)"
    using n by (intro b64.R_ge_dyadic [OF x(1)]) simp_all
  moreover have "0 \<le> rnd (of_int a / 100)" using assms(1) by (intro b64.R_nonneg) simp
  ultimately have "n \<le> round_away (rnd (of_int a / 100))"
    by (simp add: round_away_def le_floor_iff)
  moreover have "rnd (of_int a / 100) \<le> of_int (128 * n + 63) / 2 ^ 7"
    using n by (intro b64.R_le_dyadic [OF x(2)]) simp_all
  then have "round_away (rnd (of_int a / 100)) \<le> n"
    by (intro round_away_less) simp
  ultimately show ?thesis by (simp add: n_def)
qed

lemma clampDiscount_range [simp]: "0 \<le> clampDiscount d" "clampDiscount d \<le> 95"
  by (simp_all add: clampDiscount_def)

lemma clampDiscount_id [simp]: "\<lbrakk>0 \<le> d; d \<le> 95\<rbrakk> \<Longrightarrow> clampDiscount d = d"
  by (simp add: clampDiscount_def)

lemma effectiveOf_eq:
  assumes "0 \<le> base" "base \<le> 2 ^ 40"
  shows "effectiveOf base d = (base * (100 - clampDiscount d) + 50) div 100"
proof -
  define k where "k = 100 - clampDiscount d"
  have k: "5 \<le> k" "k \<le> 100" using clampDiscount_range [of d] by (simp_all add: k_def del: clampDiscount_range)
  let ?a = "base * k"
  have "?a \<le> 2 ^ 40 * 100" using assms k by (intro mult_mono) simp_all
  then have a: "0 \<le> ?a" "?a \<le> 100 * 2 ^ 40" using assms k by simp_all
  have "\<bar>base\<bar> \<le> 2 ^ 53" "\<bar>k\<bar> \<le> 2 ^ 53" "\<bar>?a\<bar> \<le> 2 ^ 53" using assms k a by simp_all
  then have f: "float_of_int base * float_of_int k = Fin (of_int ?a)"
    using round64_int [of ?a] by simp
  have "(of_int ?a :: rat) \<le> of_int (100 * 2 ^ 40)" using a(2) by (simp only: of_int_le_iff)
  then have "of_int 0 \<le> (of_int ?a / 100 :: rat)" "(of_int ?a / 100 :: rat) \<le> of_int (2 ^ 40)" using a(1) assms(1) k(1) by simp_all
  then have r: "round64 (of_int ?a / 100) = Fin (rnd (of_int ?a / 100))"
    using round64_between [of 0 "of_int ?a / 100" "2 ^ 40"] by auto
  have e: "round_away (rnd (of_int ?a / 100)) = (?a + 50) div 100" using a by (intro round_rnd_hundredth) simp_all
  moreover have "in_int64 ((?a + 50) div 100)" using a by (intro in_int64I) simp_all
  moreover have "effectiveOf base d = int_of_float (math_Round (Fin (of_int ?a) / Fin 100))"
    by (simp only: effectiveOf_def Let_def k_def [symmetric] f)
  ultimately show ?thesis using r by (simp add: k_def [symmetric])
qed

lemma effective_nonneg: "\<lbrakk>0 \<le> base; base \<le> 2 ^ 40\<rbrakk> \<Longrightarrow> 0 \<le> effectiveOf base d"
  using clampDiscount_range [of d] by (simp add: effectiveOf_eq pos_imp_zdiv_nonneg_iff del: clampDiscount_range)

lemma effective_le_base:
  assumes "0 \<le> base" "base \<le> 2 ^ 40"
  shows "effectiveOf base d \<le> base"
proof -
  have "base * (100 - clampDiscount d) \<le> base * 100" using assms(1) by (intro mult_left_mono) simp_all
  then show ?thesis unfolding effectiveOf_eq [OF assms] by simp
qed

lemma effective_mono:
  assumes "0 \<le> a" "a \<le> b" "b \<le> 2 ^ 40"
  shows "effectiveOf a d \<le> effectiveOf b d"
proof -
  have "a * (100 - clampDiscount d) \<le> b * (100 - clampDiscount d)"
    using assms(2) clampDiscount_range(2) [of d] by (intro mult_right_mono) linarith+
  then show ?thesis using assms by (simp add: effectiveOf_eq zdiv_mono1)
qed

text \<open>\<open>basePriceForTarget\<close> clamps its discount the way \<open>clampDiscount\<close> does.\<close>

lemma base_price_clamp: "basePriceForTarget t d = basePriceForTarget t (clampDiscount d)"
  by (simp add: basePriceForTarget_def clampDiscount_def)

lemma base_price_bounds:
  assumes "0 \<le> t" "t \<le> 2 ^ 35"
  shows "100 * t \<le> basePriceForTarget t d * (100 - clampDiscount d)"
    "basePriceForTarget t d * (100 - clampDiscount d) \<le> 100 * t + 99 - clampDiscount d"
    "0 \<le> basePriceForTarget t d" "basePriceForTarget t d \<le> 2 ^ 40"
proof -
  define k where "k = 100 - clampDiscount d"
  have k: "5 \<le> k" "k \<le> 100" using clampDiscount_range [of d] by (simp_all add: k_def del: clampDiscount_range)
  have "t \<le> 2 ^ 40" using assms(2) by simp
  then have b: "basePriceForTarget t d = \<lceil>of_int (100 * t) / of_int k :: rat\<rceil>"
    using base_price_ceiling [of t "clampDiscount d"] assms(1)
    by (simp add: base_price_clamp [of t d] k_def)
  define c where "c = \<lceil>of_int (100 * t) / of_int k :: rat\<rceil>"
  have "of_int (100 * t) / of_int k \<le> (of_int c :: rat)" "(of_int c :: rat) - 1 < of_int (100 * t) / of_int k"
    unfolding c_def by linarith+
  then have "of_int (100 * t) \<le> (of_int (c * k) :: rat)" "(of_int ((c - 1) * k) :: rat) < of_int (100 * t)"
    using k(1) by (simp_all add: pos_divide_le_eq pos_less_divide_eq)
  then have c: "100 * t \<le> c * k" "(c - 1) * k < 100 * t" by (simp_all only: of_int_le_iff of_int_less_iff)
  have "c * k \<le> 100 * t + (k - 1)" using c(2) by (simp add: left_diff_distrib)
  then show "100 * t \<le> basePriceForTarget t d * (100 - clampDiscount d)"
    "basePriceForTarget t d * (100 - clampDiscount d) \<le> 100 * t + 99 - clampDiscount d"
    using c by (simp_all add: b c_def k_def)
  have "(0 :: rat) \<le> of_int (100 * t) / of_int k" using assms(1) k(1) by simp
  then have "0 \<le> c" unfolding c_def by linarith
  moreover have "(c - 1) * 5 \<le> (c - 1) * k" if "1 \<le> c" using that k(1) by (intro mult_left_mono) simp_all
  then have "c \<le> 2 ^ 40" using c(2) assms(2) by (cases "1 \<le> c") simp_all
  ultimately show "0 \<le> basePriceForTarget t d" "basePriceForTarget t d \<le> 2 ^ 40" by (simp_all add: b c_def)
qed

lemma effective_of_base_price:
  assumes "0 \<le> t" "t \<le> 2 ^ 35"
  shows "t \<le> effectiveOf (basePriceForTarget t d) d" "effectiveOf (basePriceForTarget t d) d \<le> t + 1"
    "50 \<le> d \<Longrightarrow> effectiveOf (basePriceForTarget t d) d = t"
proof -
  note b = base_price_bounds [OF assms, of d]
  let ?x = "basePriceForTarget t d * (100 - clampDiscount d)"
  have e: "effectiveOf (basePriceForTarget t d) d = (?x + 50) div 100" using b(3,4) by (rule effectiveOf_eq)
  show lo: "t \<le> effectiveOf (basePriceForTarget t d) d" unfolding e using b(1) by linarith
  show "effectiveOf (basePriceForTarget t d) d \<le> t + 1"
    unfolding e using b(2) clampDiscount_range(1) [of d] by linarith
  assume "50 \<le> d"
  then have "50 \<le> clampDiscount d" by (simp add: clampDiscount_def)
  then have "(?x + 50) div 100 \<le> t" using b(2) by linarith
  with lo show "effectiveOf (basePriceForTarget t d) d = t" unfolding e by linarith
qed

section \<open>Quarantine-safe steps\<close>

lemma quarantineSafeTarget_cases:
  assumes "0 \<le> old" "old \<le> 2 ^ 40" "t \<le> 2 ^ 40"
  obtains (keep) "quarantineSafeTarget old t = t" "t \<le> 0 \<or> old < 3 * t"
  | (step) "quarantineSafeTarget old t = old div 3 + 1" "0 < t" "3 * t \<le> old"
proof (cases "0 < t")
  case True
  then have w: "wrap64 (t * 3) = t * 3" using assms(3) by (intro wrap64_id in_int64I) simp_all
  have "wrap64 (old div 3 + 1) = old div 3 + 1" using assms(1,2) by (intro wrap64_id in_int64I) simp_all
  with w True that assms(1) show thesis
    by (cases "old < 3 * t") (auto simp: quarantineSafeTarget_def)
next
  case False
  then show thesis by (intro that(1)) (simp_all add: quarantineSafeTarget_def)
qed

lemma checkQuarantineRisk_None:
  assumes "effectiveOf (NewPriceRub it) (NewDiscount it) \<le> 2 ^ 60"
    and "effectiveOf (NewPriceRub it) (NewDiscount it) \<le> 0 \<or>
      effectiveOf (OldPriceRub it) (OldDiscount it) < 3 * effectiveOf (NewPriceRub it) (NewDiscount it)"
  shows "checkQuarantineRisk it = None"
proof (cases "effectiveOf (NewPriceRub it) (NewDiscount it) \<le> 0")
  case False
  then have "wrap64 (effectiveOf (NewPriceRub it) (NewDiscount it) * 3) = 3 * effectiveOf (NewPriceRub it) (NewDiscount it)"
    using assms(1) by (subst wrap64_id) (auto intro!: in_int64I)
  then show ?thesis using assms(2) False by (simp add: checkQuarantineRisk_def Let_def)
qed (simp add: checkQuarantineRisk_def Let_def)

lemma checkQuarantineRisk_Some:
  assumes "effectiveOf (NewPriceRub it) (NewDiscount it) \<le> 2 ^ 60"
    and "0 < effectiveOf (NewPriceRub it) (NewDiscount it)"
    and "3 * effectiveOf (NewPriceRub it) (NewDiscount it) \<le> effectiveOf (OldPriceRub it) (OldDiscount it)"
  shows "checkQuarantineRisk it \<noteq> None"
proof -
  have "wrap64 (effectiveOf (NewPriceRub it) (NewDiscount it) * 3) = 3 * effectiveOf (NewPriceRub it) (NewDiscount it)"
    using assms(1,2) by (subst wrap64_id) (auto intro!: in_int64I)
  then show ?thesis using assms by (simp add: checkQuarantineRisk_def Let_def)
qed

lemma clampToMarginFloor_cases:
  assumes "clampToMarginFloor cur newBase newDiscount floorRub = (base, True)"
  obtains "base = newBase" "floorRub \<le> effectiveOf newBase newDiscount"
  | "base = basePriceForTarget floorRub newDiscount"
      "floorRub \<le> effectiveOf (pp_PriceRub cur) (pp_DiscountPercent cur)"
  | "base = newBase" "effectiveOf (pp_PriceRub cur) (pp_DiscountPercent cur) < floorRub"
      "effectiveOf (pp_PriceRub cur) (pp_DiscountPercent cur) < effectiveOf newBase newDiscount"
  using assms by (auto simp: clampToMarginFloor_def Let_def split: if_split_asm)

text \<open>The ranges in which prices, requested prices and floors are exact in binary64.\<close>

definition adjust_range :: "ProductPrice \<Rightarrow> int \<Rightarrow> int \<Rightarrow> bool" where
  "adjust_range cur newBase floorRub \<longleftrightarrow>
     0 \<le> pp_PriceRub cur \<and> pp_PriceRub cur \<le> 2 ^ 34 \<and> newBase \<le> 2 ^ 34 \<and> floorRub \<le> 2 ^ 34"

abbreviation cur_effective :: "ProductPrice \<Rightarrow> int" where
  "cur_effective cur \<equiv> effectiveOf (pp_PriceRub cur) (pp_DiscountPercent cur)"

lemma cur_effective_range:
  assumes "adjust_range cur newBase floorRub"
  shows "0 \<le> cur_effective cur" "cur_effective cur \<le> 2 ^ 34"
  using assms effective_nonneg [of "pp_PriceRub cur"] effective_le_base [of "pp_PriceRub cur" "pp_DiscountPercent cur"]
  by (simp_all add: adjust_range_def)

text \<open>What the floor clamp leaves of a request.\<close>

lemma clamped_request:
  assumes "clamp_request force floorRub cur newBase newDiscount = (base, True)"
    and "adjust_range cur newBase floorRub" "0 < newBase"
  shows "0 \<le> base" "base \<le> 2 ^ 40"
    "force \<or> floorRub \<le> 0 \<or> floorRub \<le> effectiveOf base newDiscount \<or>
       cur_effective cur < floorRub \<and> cur_effective cur < effectiveOf base newDiscount"
    "base = newBase \<or> 0 < effectiveOf base newDiscount"
proof -
  have r: "newBase \<le> 2 ^ 40" "floorRub \<le> 2 ^ 35" using assms(2) by (simp_all add: adjust_range_def)
  consider "force \<or> floorRub \<le> 0" "base = newBase"
    | "0 < floorRub" "clampToMarginFloor cur newBase newDiscount floorRub = (base, True)"
    using assms(1) by (cases "\<not> force \<and> 0 < floorRub") (auto simp: clamp_request_def)
  then have "0 \<le> base \<and> base \<le> 2 ^ 40 \<and> (force \<or> floorRub \<le> 0 \<or> floorRub \<le> effectiveOf base newDiscount \<or>
       cur_effective cur < floorRub \<and> cur_effective cur < effectiveOf base newDiscount) \<and>
       (base = newBase \<or> 0 < effectiveOf base newDiscount)"
  proof cases
    case 1
    then show ?thesis using assms(3) r by auto
  next
    case 2
    note b = base_price_bounds(3,4) [of floorRub newDiscount] effective_of_base_price(1) [of floorRub newDiscount]
    from 2(2) show ?thesis
      by (rule clampToMarginFloor_cases) (use 2(1) r b assms(3) in auto)
  qed
  then show "0 \<le> base" "base \<le> 2 ^ 40"
    "force \<or> floorRub \<le> 0 \<or> floorRub \<le> effectiveOf base newDiscount \<or>
       cur_effective cur < floorRub \<and> cur_effective cur < effectiveOf base newDiscount"
    "base = newBase \<or> 0 < effectiveOf base newDiscount"
    by blast+
qed

text \<open>
  What \<open>settle_price\<close> decides: the clamped price is sent when it is no quarantine risk, and otherwise
  the base price of the next step.
\<close>

lemma settle_price_cases:
  assumes "settle_price force floorRub cur newBase newDiscount = Some (b, stepped)"
    and "adjust_range cur newBase floorRub"
  obtains (sent) "clamp_request force floorRub cur newBase newDiscount = (b, True)" "0 < newBase"
      "effectiveOf b newDiscount \<le> 0 \<or> cur_effective cur < 3 * effectiveOf b newDiscount"
  | (step) base where "clamp_request force floorRub cur newBase newDiscount = (base, True)" "0 < newBase"
      "b = basePriceForTarget (cur_effective cur div 3 + 1) newDiscount"
      "0 < effectiveOf base newDiscount" "3 * effectiveOf base newDiscount \<le> cur_effective cur"
proof -
  obtain base ok where c: "clamp_request force floorRub cur newBase newDiscount = (base, ok)" by (metis surj_pair)
  have n: "0 < newBase" using assms(1) by (simp add: settle_price_def split: if_split_asm)
  with assms(1) c have ok: ok by (simp add: settle_price_def split: if_split_asm)
  have b: "b = (if quarantineSafeTarget (cur_effective cur) (effectiveOf base newDiscount) \<noteq> effectiveOf base newDiscount
      then basePriceForTarget (quarantineSafeTarget (cur_effective cur) (effectiveOf base newDiscount)) newDiscount
      else base)"
    using assms(1) n c ok by (simp add: settle_price_def Let_def split: if_split_asm)
  note c = c [unfolded eq_True [THEN iffD2, OF ok]]
  note old = cur_effective_range [OF assms(2)]
  have "cur_effective cur \<le> 2 ^ 40" "effectiveOf base newDiscount \<le> 2 ^ 40"
    using old(2) clamped_request(1,2) [OF c assms(2) n] effective_le_base [of base newDiscount] by simp_all
  with old(1) show thesis
  proof (cases rule: quarantineSafeTarget_cases)
    case keep
    then show thesis using b c n by (intro sent) simp_all
  next
    case step
    then have "cur_effective cur div 3 + 1 \<noteq> effectiveOf base newDiscount" by linarith
    then show thesis using b c n step by (intro that(2) [of base]) simp_all
  qed
qed

text \<open>
  The contract of a path that builds intents: the new price was settled by \<open>settle_price\<close> against the
  floor of the product, and the old price and discount are the current ones. It is enough for both
  guarantees of a price change.
\<close>

locale settled_path =
  fixes result :: "priceChangeIntent option" and force :: bool and floors :: "int \<rightharpoonup> int" and cur :: ProductPrice
    and newBase :: int and newDiscount :: int
  assumes settled: "result = Some it \<Longrightarrow> \<exists>stepped.
      settle_price force (floor_at floors (pp_WBProductID cur)) cur newBase newDiscount = Some (NewPriceRub it, stepped)"
    and current: "result = Some it \<Longrightarrow>
      OldPriceRub it = pp_PriceRub cur \<and> OldDiscount it = pp_DiscountPercent cur \<and> NewDiscount it = newDiscount"
begin

lemma respects_floor:
  assumes "result = Some it" "adjust_range cur newBase (floor_at floors (pp_WBProductID cur))"
    and "\<not> force" "0 < floor_at floors (pp_WBProductID cur)"
  shows "floor_at floors (pp_WBProductID cur) \<le> effectiveOf (NewPriceRub it) (NewDiscount it) \<or>
    effectiveOf (OldPriceRub it) (OldDiscount it) < floor_at floors (pp_WBProductID cur) \<and>
    effectiveOf (OldPriceRub it) (OldDiscount it) < effectiveOf (NewPriceRub it) (NewDiscount it)"
proof -
  note old = cur_effective_range [OF assms(2)]
  note eqs = current [OF assms(1)]
  obtain stepped where
    "settle_price force (floor_at floors (pp_WBProductID cur)) cur newBase newDiscount = Some (NewPriceRub it, stepped)"
    using settled [OF assms(1)] by blast
  then show ?thesis using assms(2)
  proof (cases rule: settle_price_cases)
    case sent
    then show ?thesis using clamped_request(3) [OF sent(1) assms(2) sent(2)] assms(3,4) by (auto simp: eqs)
  next
    case (step base)
    have "cur_effective cur div 3 + 1 \<le> effectiveOf (NewPriceRub it) newDiscount"
      unfolding step(3) using old by (intro effective_of_base_price(1)) simp_all
    then show ?thesis
      using clamped_request(3) [OF step(1) assms(2) step(2)] assms(3,4) step(4,5) by (auto simp: eqs)
  qed
qed

lemma drop_bounded:
  assumes "result = Some it" "adjust_range cur newBase (floor_at floors (pp_WBProductID cur))"
  shows "0 < effectiveOf (NewPriceRub it) (NewDiscount it) \<and>
      effectiveOf (OldPriceRub it) (OldDiscount it) < 3 * effectiveOf (NewPriceRub it) (NewDiscount it) \<or>
    effectiveOf (NewPriceRub it) (NewDiscount it) = 0 \<and> NewPriceRub it = newBase \<and>
      newBase * (100 - clampDiscount newDiscount) < 50"
    and "effectiveOf (NewPriceRub it) (NewDiscount it) \<le> 2 ^ 60"
proof -
  note old = cur_effective_range [OF assms(2)]
  note eqs = current [OF assms(1)]
  let ?b = "NewPriceRub it"
  obtain stepped where
    "settle_price force (floor_at floors (pp_WBProductID cur)) cur newBase newDiscount = Some (?b, stepped)"
    using settled [OF assms(1)] by blast
  then have "(0 < effectiveOf ?b newDiscount \<and> cur_effective cur < 3 * effectiveOf ?b newDiscount \<or>
    effectiveOf ?b newDiscount = 0 \<and> ?b = newBase \<and> newBase * (100 - clampDiscount newDiscount) < 50) \<and>
    effectiveOf ?b newDiscount \<le> 2 ^ 60" using assms(2)
  proof (cases rule: settle_price_cases)
    case sent
    note c = clamped_request [OF sent(1) assms(2) sent(2)]
    have e: "0 \<le> effectiveOf ?b newDiscount" "effectiveOf ?b newDiscount \<le> 2 ^ 60"
      using effective_nonneg [OF c(1,2)] effective_le_base [OF c(1,2), of newDiscount] c(2) by simp_all
    show ?thesis
    proof (cases "effectiveOf ?b newDiscount = 0")
      case True
      then have "?b = newBase" "(?b * (100 - clampDiscount newDiscount) + 50) div 100 = 0"
        using c(4) effectiveOf_eq [OF c(1,2), of newDiscount] by simp_all
      then show ?thesis using True by simp
    qed (use e sent(3) in linarith)
  next
    case (step base)
    have s: "0 \<le> cur_effective cur div 3 + 1" "cur_effective cur div 3 + 1 \<le> 2 ^ 34" using old by simp_all
    then have "effectiveOf ?b newDiscount \<le> 2 ^ 35" "cur_effective cur div 3 + 1 \<le> effectiveOf ?b newDiscount"
      unfolding step(3) using effective_of_base_price(1,2) [of "cur_effective cur div 3 + 1" newDiscount] by simp_all
    moreover from this old(1) have "0 < effectiveOf ?b newDiscount" "cur_effective cur < 3 * effectiveOf ?b newDiscount"
      by linarith+
    ultimately show ?thesis by simp
  qed
  then show "0 < effectiveOf (NewPriceRub it) (NewDiscount it) \<and>
      effectiveOf (OldPriceRub it) (OldDiscount it) < 3 * effectiveOf (NewPriceRub it) (NewDiscount it) \<or>
    effectiveOf (NewPriceRub it) (NewDiscount it) = 0 \<and> NewPriceRub it = newBase \<and>
      newBase * (100 - clampDiscount newDiscount) < 50"
    "effectiveOf (NewPriceRub it) (NewDiscount it) \<le> 2 ^ 60" using eqs by simp_all
qed

lemma quarantine_safe:
  assumes "result = Some it" "adjust_range cur newBase (floor_at floors (pp_WBProductID cur))"
  shows "checkQuarantineRisk it = None"
  using drop_bounded [OF assms] by (intro checkQuarantineRisk_None) auto

end

interpretation manual: settled_path "appendIntent force actorID floors cur newBase newDiscount reason" force floors cur newBase newDiscount
  for force actorID floors cur newBase newDiscount reason
  by unfold_locales (auto simp: appendIntent_def Let_def split: option.split_asm prod.split_asm if_split_asm)

section \<open>Properties of operator price changes\<close>

text \<open>
  C34 The discounted price that the code computes in binary64 is the exact quotient rounded half up,
  \<open>(base * (100 - d) + 50) div 100\<close> with the discount clamped to \<open>0..95\<close>, for every base price up
  to \<open>2 ^ 40\<close> rubles: no floating-point error ever reaches a price comparison.
\<close>

theorem effective_price_exact:
  assumes "0 \<le> base" "base \<le> 2 ^ 40"
  shows "effectiveOf base discount = (base * (100 - clampDiscount discount) + 50) div 100"
  using assms by (rule effectiveOf_eq)

theorem effective_price_exact_witness: "effectiveOf 1999 35 = 1299"
  using effective_price_exact [of 1999 35] by (simp add: clampDiscount_def)

text \<open>
  C35 Converting a target price to the base price that is sent and back through the discount never
  loses money and overshoots by at most one ruble; at a discount of 50 percent or more the round
  trip is exact.
\<close>

theorem base_price_roundtrip:
  assumes "0 \<le> t" "t \<le> 2 ^ 35"
  shows "effectiveOf (basePriceForTarget t d) d \<in> {t, t + 1} \<and>
    (50 \<le> d \<longrightarrow> effectiveOf (basePriceForTarget t d) d = t)"
  using effective_of_base_price [OF assms, of d] by (auto dest: antisym)

theorem base_price_roundtrip_witness:
  "effectiveOf (basePriceForTarget 1299 60) 60 = 1299 \<and> effectiveOf (basePriceForTarget 2 10) 10 \<in> {2, 3}"
  using base_price_roundtrip [of 1299 60] base_price_roundtrip [of 2 10] by simp

text \<open>
  C8 A manual change that is not forced never crosses the margin floor: the discounted price of the
  intent reaches the floor, or the product was below its floor before and the intent raises it.
\<close>

theorem manual_change_respects_floor:
  assumes "appendIntent False actorID floors cur newBase newDiscount reason = Some it"
    and "adjust_range cur newBase (floor_at floors (pp_WBProductID cur))"
    and "0 < floor_at floors (pp_WBProductID cur)"
  shows "floor_at floors (pp_WBProductID cur) \<le> effectiveOf (NewPriceRub it) (NewDiscount it) \<or>
    effectiveOf (OldPriceRub it) (OldDiscount it) < floor_at floors (pp_WBProductID cur) \<and>
    effectiveOf (OldPriceRub it) (OldDiscount it) < effectiveOf (NewPriceRub it) (NewDiscount it)"
  using manual.respects_floor [OF assms(1,2) _ assms(3)] by simp

text \<open>
  C9 An intent that the manual path builds, forced or not, drops the discounted price by less than three
  times, since a deeper drop has already been cut to the largest safe step, and the quarantine check of the
  apply step lets it pass. The one exception is stated exactly: a requested price whose discounted value is
  under 50 kopecks is sent as requested and rounds to zero, which the check does not see; a requested
  base price of ten rubles or more is never in the exception.
\<close>

theorem manual_change_quarantine_safe:
  assumes "appendIntent force actorID floors cur newBase newDiscount reason = Some it"
    and "adjust_range cur newBase (floor_at floors (pp_WBProductID cur))"
  shows "checkQuarantineRisk it = None \<and>
    (0 < effectiveOf (NewPriceRub it) (NewDiscount it) \<and>
       effectiveOf (pp_PriceRub cur) (pp_DiscountPercent cur) < 3 * effectiveOf (NewPriceRub it) (NewDiscount it) \<or>
     newBase < 10 \<and> NewPriceRub it = newBase \<and> newBase * (100 - clampDiscount newDiscount) < 50 \<and>
       effectiveOf (NewPriceRub it) (NewDiscount it) = 0)"
proof -
  have "newBase < 10" if "newBase * (100 - clampDiscount newDiscount) < 50"
  proof (rule ccontr)
    assume "\<not> newBase < 10"
    then have "10 * 5 \<le> newBase * (100 - clampDiscount newDiscount)"
      using clampDiscount_range(2) [of newDiscount] by (intro mult_mono) simp_all
    with that show False by simp
  qed
  then show ?thesis
    using manual.quarantine_safe [OF assms] manual.drop_bounded(1) [OF assms] manual.current [OF assms(1)] by auto
qed

definition wit_cur :: ProductPrice where
  "wit_cur = \<lparr>pp_ID = 1, pp_WorkspaceID = 1, pp_SellerCabinetID = 1, pp_WBProductID = 1, pp_PriceRub = 3000,
     pp_DiscountPercent = 0, pp_ClubDiscountPercent = 0, pp_DiscountedPriceRub = None,
     pp_EditableSizePrice = False, pp_SyncedAt = 0, pp_UpdatedAt = 0\<rparr>"

definition wit_intent :: "int \<Rightarrow> string \<Rightarrow> priceChangeIntent" where
  "wit_intent new sfx = \<lparr>CabinetID = 1, NmID = 1, OldPriceRub = 3000, NewPriceRub = new, OldDiscount = 0, NewDiscount = 0,
     IntentMinPriceRub = 400, IntentReason = ''manual bulk item'' @ sfx,
     IntentSource = PriceSourceManual, StrategyID = None, ScheduleEntryID = None, RollbackOf = None, CreatedBy = Some 7\<rparr>"

lemma wit_append:
  "appendIntent False 7 [1 \<mapsto> 400] wit_cur 100 0 ''manual bulk item'' =
     Some (wit_intent 1001 '' (quarantine-safe step toward target)'')"
  by (simp add: appendIntent_def settle_price_def clamp_request_def clampToMarginFloor_def floor_at_def wit_cur_def
      wit_intent_def effectiveOf_eq clampDiscount_def quarantineSafeTarget_def basePriceForTarget_def go_eval)

theorem manual_change_respects_floor_witness:
  "floor_at [1 \<mapsto> 400] (pp_WBProductID wit_cur) \<le>
     effectiveOf (NewPriceRub (wit_intent 1001 '' (quarantine-safe step toward target)''))
       (NewDiscount (wit_intent 1001 '' (quarantine-safe step toward target)'')) \<or>
   effectiveOf 3000 0 < 400 \<and> effectiveOf 3000 0 < effectiveOf 1001 0"
  using manual_change_respects_floor [OF wit_append]
  by (simp add: adjust_range_def wit_cur_def wit_intent_def floor_at_def)

theorem manual_change_quarantine_safe_witness:
  "checkQuarantineRisk (wit_intent 1001 '' (quarantine-safe step toward target)'') = None \<and>
   effectiveOf 3000 0 < 3 * effectiveOf 1001 0"
  using manual_change_quarantine_safe [OF wit_append]
  by (simp add: adjust_range_def wit_cur_def wit_intent_def floor_at_def)

text \<open>
  C36 A deep price cut converges: repeating the quarantine-safe step from any discounted price
  reaches every positive lower target after finitely many runs, and each of these runs is a
  drop of less than three times.
\<close>

theorem quarantine_steps_converge:
  assumes "0 < t" "t \<le> old" "old \<le> 2 ^ 40"
  shows "\<exists>n. ((\<lambda>e. quarantineSafeTarget e t) ^^ n) old = t \<and>
    (\<forall>k < n. ((\<lambda>e. quarantineSafeTarget e t) ^^ k) old < 3 * ((\<lambda>e. quarantineSafeTarget e t) ^^ Suc k) old)"
  using assms(2,3)
proof (induction "nat (old - t)" arbitrary: old rule: less_induct)
  case less
  let ?f = "\<lambda>e. quarantineSafeTarget e t"
  have r: "0 \<le> old" "t \<le> 2 ^ 40" using less.prems assms(1) by simp_all
  show ?case
  proof (cases rule: quarantineSafeTarget_cases [OF r(1) less.prems(2) r(2), case_names keep step])
    case keep
    then show ?thesis using assms(1) by (intro exI [of _ 1]) simp
  next
    case step
    let ?s = "old div 3 + 1"
    have "nat (?s - t) < nat (old - t)" "t \<le> ?s" "?s \<le> 2 ^ 40"
      using step(2,3) less.prems(2) by auto
    from less.hyps [OF this] obtain n where n: "(?f ^^ n) ?s = t" "\<forall>k < n. (?f ^^ k) ?s < 3 * (?f ^^ Suc k) ?s"
      by blast
    have sh: "(?f ^^ Suc k) old = (?f ^^ k) ?s" for k by (simp only: funpow_Suc_right comp_apply step(1))
    have "(?f ^^ k) old < 3 * (?f ^^ Suc k) old" if "k < Suc n" for k
    proof (cases k)
      case 0
      then show ?thesis using step(1) by simp
    next
      case (Suc j)
      then show ?thesis using n(2) that sh [of j] sh [of "Suc j"] by simp
    qed
    with n(1) sh [of n] show ?thesis by (intro exI [of _ "Suc n"]) simp
  qed
qed

theorem quarantine_steps_converge_witness:
  "\<exists>n. ((\<lambda>e. quarantineSafeTarget e 100) ^^ n) 3000 = 100"
  using quarantine_steps_converge [of 100 3000] by auto

text \<open>
  An adjustment that passed validation yields \<open>0\<close> (the change is skipped) or a base price between one
  ruble and one billion, whatever the current price is.
\<close>

theorem adjustment_in_range:
  assumes "validatePriceAdjustment adj allowDelta = None"
  shows "applyAdjustment base adj = 0 \<or> 1 \<le> applyAdjustment base adj \<and> applyAdjustment base adj \<le> 1000000000"
proof -
  have "lit 1000000000 = Fin 1000000000"
    using round64_int [of 1000000000] by (simp add: lit_def)
  then have m: "maxPriceRub = Fin 1000000000" by (simp add: maxPriceRub_def)
  have clip: "(if IsNaN r \<or> IsInf r \<or> r < Fin 1 \<or> r > maxPriceRub then 0 else int_of_float (math_Round r)) \<in> {0} \<union> {1..1000000000}"
    for r
  proof (cases r)
    case (Fin x)
    have "1 \<le> round_away x \<and> round_away x \<le> 1000000000" if "1 \<le> x" "x \<le> 1000000000"
      using that round_away_ge_int [of 1 x] round_away_le_int [of x 1000000000] by simp
    then show ?thesis by (auto simp: Fin m IsNaN_def IsInf_def in_int64I)
  qed (simp_all add: IsNaN_def IsInf_def)
  consider "adj_Type adj = PriceAdjustPercent \<or> adj_Type adj = PriceAdjustDeltaPercent"
    | "adj_Type adj = PriceAdjustAbsolute" | "adj_Type adj = PriceAdjustTargetRub"
    using assms by (auto simp: validatePriceAdjustment_def Let_def split: if_split_asm)
  then have "applyAdjustment base adj \<in> {0} \<union> {1..1000000000}"
    by cases (use clip in \<open>auto simp: applyAdjustment_def price_adjust_type_defs\<close>)
  then show ?thesis by auto
qed

theorem adjustment_in_range_witness:
  "applyAdjustment 1000 \<lparr>adj_Type = ''absolute'', adj_Value = Fin 250\<rparr> = 0 \<or>
   1 \<le> applyAdjustment 1000 \<lparr>adj_Type = ''absolute'', adj_Value = Fin 250\<rparr> \<and>
   applyAdjustment 1000 \<lparr>adj_Type = ''absolute'', adj_Value = Fin 250\<rparr> \<le> 1000000000"
  by (rule adjustment_in_range [of _ False])
    (simp add: validatePriceAdjustment_def price_adjust_type_defs IsNaN_def IsInf_def maxPriceRub_def lit_def
      round64_int [of 1000000000, simplified])

text \<open>The loops of the validators check for every element and for duplicates.\<close>

lemma validate_ids_None_iff:
  "validate_ids p q nms seen = None \<longleftrightarrow> (\<forall>nm \<in> set nms. 0 < nm \<and> nm \<notin> set seen) \<and> distinct nms"
  by (induction nms arbitrary: seen) auto

definition item_ok :: "ManualPriceBulkItem \<Rightarrow> bool" where
  "item_ok item \<longleftrightarrow> 0 < mi_WBProductID item \<and>
     (mi_TargetPriceRub item \<noteq> None \<or> mi_DiscountPercent item \<noteq> None) \<and>
     \<not> some_and (\<lambda>t. t \<le> 0 \<or> float_of_int t > maxPriceRub) (mi_TargetPriceRub item) \<and>
     \<not> some_and (\<lambda>d. d < 0 \<or> d > 95) (mi_DiscountPercent item)"

lemma validate_bulk_items_None_iff:
  "validate_bulk_items items seen = None \<longleftrightarrow>
     (\<forall>item \<in> set items. item_ok item \<and> mi_WBProductID item \<notin> set seen) \<and> distinct (map mi_WBProductID items)"
proof (induction items arbitrary: seen)
  case (Cons item items)
  show ?case
  proof (cases "item_ok item \<and> mi_WBProductID item \<notin> set seen")
    case True
    then have "validate_bulk_items (item # items) seen = validate_bulk_items items (mi_WBProductID item # seen)"
      by (auto simp: item_ok_def)
    moreover have "(\<forall>i \<in> set items. mi_WBProductID i \<noteq> mi_WBProductID item) \<longleftrightarrow>
        mi_WBProductID item \<notin> mi_WBProductID ` set items" by (metis imageE imageI)
    ultimately show ?thesis using True Cons [of "mi_WBProductID item # seen"] by (simp add: ball_conj_distrib) blast
  next
    case False
    have "item_ok item \<and> mi_WBProductID item \<notin> set seen" if "validate_bulk_items (item # items) seen = None"
      using that by (simp add: item_ok_def split: if_split_asm)
    with False have "validate_bulk_items (item # items) seen \<noteq> None" by blast
    moreover have "\<not> (\<forall>i \<in> set (item # items). item_ok i \<and> mi_WBProductID i \<notin> set seen)" using False by simp
    ultimately show ?thesis by blast
  qed
qed simp

text \<open>
  The validator of a bulk request accepts exactly the requests that are either a list of items with
  distinct positive product ids, each with a price between one ruble and one billion or a discount
  between 0 and 95 (or both), and no adjustment; or a scope that selects everything, one cabinet,
  or distinct positive products of one cabinet, together with a valid adjustment.
\<close>

theorem bulk_request_valid_iff:
  "validateManualPriceBulkRequest req = None \<longleftrightarrow>
     rq_Items req \<noteq> [] \<and> rq_Scope req = None \<and> rq_Adjustment req = None \<and>
       (\<forall>item \<in> set (rq_Items req). item_ok item) \<and> distinct (map mi_WBProductID (rq_Items req)) \<or>
     rq_Items req = [] \<and>
       (\<exists>scope adj. rq_Scope req = Some scope \<and> rq_Adjustment req = Some adj \<and>
          validatePriceAdjustment adj False = None \<and>
          (if sc_All scope then sc_SellerCabinetID scope = None \<and> sc_ProductIDs scope = []
           else sc_SellerCabinetID scope \<noteq> None \<and> (\<forall>nm \<in> set (sc_ProductIDs scope). 0 < nm) \<and>
                distinct (sc_ProductIDs scope)))"
proof (cases "rq_Items req = []")
  case True
  show ?thesis
  proof (cases "rq_Scope req")
    case None
    with True show ?thesis by (simp add: validateManualPriceBulkRequest_def)
  next
    case (Some scope)
    show ?thesis
    proof (cases "rq_Adjustment req")
      case None
      with True Some show ?thesis by (simp add: validateManualPriceBulkRequest_def)
    next
      case adj: (Some adj)
      let ?v = "validate_ids ''scope product_ids must be positive''
        ''scope product_ids must not contain duplicates'' (sc_ProductIDs scope) []"
      have "?v = None \<longleftrightarrow> (\<forall>nm \<in> set (sc_ProductIDs scope). 0 < nm) \<and> distinct (sc_ProductIDs scope)"
        by (simp add: validate_ids_None_iff)
      then show ?thesis
        using True Some adj
        by (cases ?v; cases "sc_ProductIDs scope = []"; cases "sc_All scope"; cases "sc_SellerCabinetID scope")
          (simp_all add: validateManualPriceBulkRequest_def)
    qed
  qed
next
  case False
  then show ?thesis
    by (cases "rq_Scope req"; cases "rq_Adjustment req")
      (simp_all add: validateManualPriceBulkRequest_def validate_bulk_items_None_iff)
qed

theorem bulk_request_valid_iff_witness:
  "validateManualPriceBulkRequest \<lparr>rq_Items = [], rq_Scope = Some \<lparr>sc_All = True, sc_SellerCabinetID = None, sc_ProductIDs = []\<rparr>,
     rq_Adjustment = Some \<lparr>adj_Type = ''target_rub'', adj_Value = Fin 990\<rparr>, rq_Comment = [], rq_Force = False\<rparr> = None"
  by (subst bulk_request_valid_iff)
    (simp add: validatePriceAdjustment_def price_adjust_type_defs IsNaN_def IsInf_def maxPriceRub_def lit_def
      round64_int [of 1000000000, simplified])

lemma margin_floors_from_all:
  assumes "\<And>n. \<not> fails n"
  shows "margin_floors_from rows fails offset floors = foldl add_floor floors (drop offset rows)"
  using assms
proof (induction rows fails offset floors rule: margin_floors_from.induct)
  case (1 rows fails offset floors)
  let ?page = "take economicsPageSize (drop offset rows)"
  show ?case
  proof (cases "length ?page < economicsPageSize")
    case True
    then have "drop offset rows = ?page" by simp
    with True 1(2) show ?thesis by (subst margin_floors_from.simps) (simp only: Let_def if_True if_False)
  next
    case False
    from 1(1) [OF 1(2) refl refl False 1(2)]
    have "margin_floors_from rows fails (offset + economicsPageSize) (foldl add_floor floors ?page) =
        foldl add_floor (foldl add_floor floors ?page) (drop economicsPageSize (drop offset rows))"
      by (simp add: add.commute)
    also have "\<dots> = foldl add_floor floors (drop offset rows)"
      by (simp only: foldl_append [symmetric] append_take_drop_id)
    finally show ?thesis using False 1(2) by (subst margin_floors_from.simps) (simp only: Let_def if_False)
  qed
qed

text \<open>
  Reading the economics page by page gives the same floors as one pass over the whole table: when no
  page fails, no row is skipped or read twice, and the loop ends.
\<close>

theorem margin_floors_complete:
  assumes "\<And>n. \<not> fails n"
  shows "marginFloors rows fails = foldl add_floor (\<lambda>_. None) rows"
  using margin_floors_from_all [OF assms] by (simp add: marginFloors_def)

theorem margin_floors_complete_witness: "marginFloors [] (\<lambda>_. False) = (\<lambda>_. None)"
  using margin_floors_complete [of "\<lambda>_. False" "[]"] by simp

text \<open>
  C39 The margin-floor function corrects a price below its floor in one decision: it changes the price
  exactly when the price is below the floor and the floor is below three times the price; the
  base price it sends is then the one for the floor at the unchanged discount, so the
  discounted price is the floor or one ruble more (exactly the floor from a discount of 50 percent),
  and a run that finds that price against the same floor changes nothing. A floor of
  three times the price or more is skipped as suspicious.
\<close>

theorem margin_floor_raise:
  assumes "resolveFloor inp params = (fl, [])" "0 < EffectivePriceRub (in_Current inp)"
    and "EffectivePriceRub (in_Current inp) \<le> 2 ^ 33"
  shows "(pd_ShouldChange (DecideMarginFloor inp params) \<longleftrightarrow>
           EffectivePriceRub (in_Current inp) < fl \<and> fl < 3 * EffectivePriceRub (in_Current inp)) \<and>
    (3 * EffectivePriceRub (in_Current inp) \<le> fl \<longrightarrow> DecideMarginFloor inp params = price_skip ''floor_suspicious'') \<and>
    (pd_ShouldChange (DecideMarginFloor inp params) \<longrightarrow>
       pd_TargetEffectiveRub (DecideMarginFloor inp params) = fl \<and>
       pd_NewDiscountPercent (DecideMarginFloor inp params) = pp_DiscountPercent (in_Current inp) \<and>
       pd_NewPriceRub (DecideMarginFloor inp params) = basePriceForTarget fl (pp_DiscountPercent (in_Current inp)) \<and>
       effectiveOf (pd_NewPriceRub (DecideMarginFloor inp params)) (pp_DiscountPercent (in_Current inp)) \<in>
         (if 50 \<le> pp_DiscountPercent (in_Current inp) then {fl} else {fl, fl + 1}) \<and>
       (\<forall>inp'. resolveFloor inp' params = (fl, []) \<and> EffectivePriceRub (in_Current inp') =
           effectiveOf (pd_NewPriceRub (DecideMarginFloor inp params)) (pp_DiscountPercent (in_Current inp)) \<longrightarrow>
         \<not> pd_ShouldChange (DecideMarginFloor inp' params)))"
proof -
  let ?c = "EffectivePriceRub (in_Current inp)" and ?D = "DecideMarginFloor inp params"
  let ?d = "pp_DiscountPercent (in_Current inp)"
  have "wrap64 (?c * 3) = ?c * 3" using assms(2,3) by (intro wrap64_id in_int64I) simp_all
  with assms(1,2) have D: "?c < fl \<and> fl < 3 * ?c \<Longrightarrow> pd_ShouldChange ?D \<and> pd_TargetEffectiveRub ?D = fl \<and>
      pd_NewDiscountPercent ?D = ?d \<and> pd_NewPriceRub ?D = basePriceForTarget fl ?d"
    and skip: "3 * ?c \<le> fl \<Longrightarrow> ?D = price_skip ''floor_suspicious''"
    and iff: "pd_ShouldChange ?D \<longleftrightarrow> ?c < fl \<and> fl < 3 * ?c"
    by (auto simp: DecideMarginFloor_def Let_def)
  have again: "\<not> pd_ShouldChange (DecideMarginFloor inp' params)"
    if "resolveFloor inp' params = (fl, [])" "fl \<le> EffectivePriceRub (in_Current inp')" for inp'
    using that by (simp add: DecideMarginFloor_def Let_def)
  have e: "fl \<le> effectiveOf (basePriceForTarget fl ?d) ?d" "effectiveOf (basePriceForTarget fl ?d) ?d \<le> fl + 1"
    "50 \<le> ?d \<Longrightarrow> effectiveOf (basePriceForTarget fl ?d) ?d = fl" if "?c < fl \<and> fl < 3 * ?c"
    using effective_of_base_price [of fl ?d] that assms(2,3) by simp_all
  show ?thesis using iff skip D e again by (cases "?c < fl \<and> fl < 3 * ?c") auto
qed

definition wit_below_floor :: PriceEngineInputs where
  "wit_below_floor = wit_inputs\<lparr>in_Current := wit_price\<lparr>pp_DiscountPercent := 50\<rparr>\<rparr>"

theorem margin_floor_raise_witness:
  "pd_ShouldChange (DecideMarginFloor wit_below_floor wit_price_params) \<and>
   effectiveOf (pd_NewPriceRub (DecideMarginFloor wit_below_floor wit_price_params)) 50 = 1300"
proof -
  have "resolveFloor wit_below_floor wit_price_params = (1300, [])"
    "EffectivePriceRub (in_Current wit_below_floor) = 1000" "pp_DiscountPercent (in_Current wit_below_floor) = 50"
    by (simp_all add: wit_below_floor_def price_wit_defs)
  note e = this
  have "0 < EffectivePriceRub (in_Current wit_below_floor)" "EffectivePriceRub (in_Current wit_below_floor) \<le> 2 ^ 33"
    by (simp_all add: e)
  note m = margin_floor_raise [OF e(1) this]
  have ch: "pd_ShouldChange (DecideMarginFloor wit_below_floor wit_price_params)" using m by (simp add: e)
  with m have "effectiveOf (pd_NewPriceRub (DecideMarginFloor wit_below_floor wit_price_params))
      (pp_DiscountPercent (in_Current wit_below_floor)) \<in>
    (if 50 \<le> pp_DiscountPercent (in_Current wit_below_floor) then {1300} else {1300, 1300 + 1})" by blast
  with ch show ?thesis by (simp add: e)
qed

text \<open>
  The quarantine check does not see a drop to zero: an item request that lowers a product from 3000
  rubles to base price 9 with discount 95 has a discounted price that rounds to zero, the check
  lets it pass as if it were no drop, and the manual path builds the intent in one step.
\<close>

theorem quarantine_check_misses_zero:
  "\<exists>it. bulk_item False 7 [1 \<mapsto> wit_cur] Map.empty
      \<lparr>mi_WBProductID = 1, mi_TargetPriceRub = Some 9, mi_DiscountPercent = Some 95\<rparr> = Intent it \<and>
    effectiveOf (OldPriceRub it) (OldDiscount it) = 3000 \<and> effectiveOf (NewPriceRub it) (NewDiscount it) = 0 \<and>
    checkQuarantineRisk it = None \<and> checkRaiseAnomaly it = None"
  by (rule exI [of _ "\<lparr>CabinetID = 1, NmID = 1, OldPriceRub = 3000, NewPriceRub = 9, OldDiscount = 0, NewDiscount = 95,
     IntentMinPriceRub = 0, IntentReason = ''manual bulk item'', IntentSource = PriceSourceManual, StrategyID = None,
     ScheduleEntryID = None, RollbackOf = None, CreatedBy = Some 7\<rparr>"])
    (simp add: bulk_item_def outcome_of_def appendIntent_def settle_price_def clamp_request_def floor_at_def wit_cur_def
      effectiveOf_eq clampDiscount_def quarantineSafeTarget_def checkQuarantineRisk_def checkRaiseAnomaly_def
      price_source_defs go_eval)

text \<open>The overlay: an active intent always wins over the synced price.\<close>

lemma overlay_one_other: "nm \<noteq> pc_WbProductID row \<Longrightarrow> overlay_one prices row nm = prices nm"
  by (simp add: overlay_one_def split: option.split)

lemma overlay_one_active: "row_active row \<Longrightarrow> overlay_one prices row (pc_WbProductID row) = Some (intent_price row)"
  by (simp add: overlay_one_def split: option.split)

lemma overlay_other:
  "nm \<notin> pc_WbProductID ` set rows \<Longrightarrow> overlayLatestPriceIntents prices rows nm = prices nm"
  unfolding overlayLatestPriceIntents_def
  by (induction rows arbitrary: prices) (simp_all add: overlay_one_other)

lemma overlay_active:
  assumes "row \<in> set rows" "distinct (map pc_WbProductID rows)" "row_active row"
  shows "overlayLatestPriceIntents prices rows (pc_WbProductID row) = Some (intent_price row)"
proof -
  from assms(1) obtain xs ys where rows: "rows = xs @ row # ys" by (meson split_list)
  have "pc_WbProductID row \<notin> pc_WbProductID ` set ys" using assms(2) by (simp add: rows)
  then have "overlayLatestPriceIntents (overlay_one p row) ys (pc_WbProductID row) = Some (intent_price row)" for p
    using overlay_other overlay_one_active [OF assms(3)] by simp
  then show ?thesis by (simp add: rows overlayLatestPriceIntents_def)
qed

end
