(* ===== verification/Ozon_Repricer.thy ===== *)
theory Ozon_Repricer
  imports Ozon_Price_Rules Ozon_Strategy Price_Adjust
begin

text \<open>
  The repricer of the second marketplace, \<^verbatim>\<open>internal/service/ozon_repricer.go\<close> with its statements in
  \<^verbatim>\<open>internal/repository/sqlc/ozon_prices.sql.go\<close>: the run of the price strategies, manual price changes and the rollback.
  Every change is a row that is recorded first, sent and then settled. The theorems show that a product is written at most ten times in
  any hour, that dry runs send nothing, what a rollback restores, and where changes are left behind.
\<close>

section \<open>State and environment\<close>

definition ozonRepricerPageSize :: nat where "ozonRepricerPageSize = 1000"
definition maxOzonRepricerPriceAge :: int where "maxOzonRepricerPriceAge = 6 * hour"
definition ozonStrategyHourlyWriteCap :: int where "ozonStrategyHourlyWriteCap = 2"
definition ozonHardHourlyWriteCap :: int where "ozonHardHourlyWriteCap = 10"
definition ozonManualPriceItemsLimit :: nat where "ozonManualPriceItemsLimit = 1000"
definition ozonVelocityLookbackDays :: int where "ozonVelocityLookbackDays = 14"

definition OzonPriceStatusPending :: string where "OzonPriceStatusPending = ''pending''"
definition OzonPriceStatusApplied :: string where "OzonPriceStatusApplied = ''applied''"
definition OzonPriceStatusFailed :: string where "OzonPriceStatusFailed = ''failed''"
definition OzonPriceStatusRolledBack :: string where "OzonPriceStatusRolledBack = ''rolled_back''"
definition OzonPriceStatusShadow :: string where "OzonPriceStatusShadow = ''shadow''"

lemmas ozon_price_status_defs = OzonPriceStatusPending_def OzonPriceStatusApplied_def OzonPriceStatusFailed_def
  OzonPriceStatusRolledBack_def OzonPriceStatusShadow_def

definition ErrRateLimited :: app_error where
  "ErrRateLimited = \<lparr>Code = ''RATE_LIMITED'', Message = ''too many requests'', Status = 429\<rparr>"

text \<open>A row of \<^verbatim>\<open>ozon_price_changes\<close>; amounts are exact decimals.\<close>

record OzonPriceChange =
  xc_ID :: uuid
  xc_SellerCabinetID :: uuid
  xc_Sku :: int
  xc_OfferID :: "string option"
  xc_OldPriceRub :: "rat option"
  xc_NewPriceRub :: rat
  xc_OldOldPriceRub :: "rat option"
  xc_NewOldPriceRub :: "rat option"
  xc_MinPriceRub :: "rat option"
  xc_FloorRub :: "rat option"
  xc_Reason :: "string option"
  xc_Source :: string
  xc_StrategyID :: "uuid option"
  xc_Status :: string
  xc_Error :: "string option"
  xc_CreatedAt :: int
  xc_AppliedAt :: "int option"

record PriceCabinet = OzonCabinet +
  cab_RepricerPausedUntil :: "int option"

record PriceUpdate =
  pu_ProductID :: int
  pu_PriceRub :: f64
  pu_OldPriceRub :: "f64 option"
  pu_MinPriceRub :: "f64 option"

record PriceUpdateResult =
  pr_ProductID :: int
  pr_Updated :: bool
  pr_Errors :: "string list"

record OzonProductStock =
  ps_SellerCabinetID :: uuid
  ps_Sku :: int
  ps_Present :: int

record OzonProduct =
  pd_SellerCabinetID :: uuid
  pd_ProductID :: int
  pd_Sku :: "int option"

record OzonOrdersHourly =
  oh_SellerCabinetID :: uuid
  oh_Sku :: int
  oh_Dow :: int
  oh_Hour :: int
  oh_Orders :: int

text \<open>A row of \<^verbatim>\<open>ozon_price_schedule_entries\<close>.\<close>

record OzonPriceScheduleEntry =
  se_ID :: uuid
  se_SellerCabinetID :: uuid
  se_Sku :: int
  se_OfferID :: "string option"
  se_ScheduledPriceRub :: rat
  se_RevertPriceRub :: "rat option"
  se_StartsAt :: int
  se_EndsAt :: "int option"
  se_Status :: string
  se_Error :: "string option"
  se_CreatedAt :: int
  se_AppliedAt :: "int option"
  se_RevertedAt :: "int option"

text \<open>
  \<open>xp_cabinets\<close> holds the cabinets that are not deleted, \<open>xp_sent\<close> records the requests to write prices, the cabinet with the updates, \<open>xp_calls\<close> counts the calls to the outside.
\<close>

record price_db =
  xp_tables :: ozon_tables
  xp_strategies :: "Strategy list"
  xp_cabinets :: "PriceCabinet list"
  xp_prices :: "ozon_price_row list"
  xp_economics :: "OzonProductEconomic list"
  xp_stocks :: "OzonProductStock list"
  xp_products :: "OzonProduct list"
  xp_hourly :: "OzonOrdersHourly list"
  xp_changes :: "OzonPriceChange list"
  xp_schedules :: "OzonPriceScheduleEntry list"
  xp_sent :: "(uuid \<times> PriceUpdate list) list"
  xp_calls :: nat

text \<open>
  The environment gives the clock, fresh ids, failing statements and the answers of the marketplace as functions of
  the call counter. \<open>xe_numeric\<close> is the decimal that a \<^verbatim>\<open>NUMERIC(12,2)\<close> column stores for a \<^verbatim>\<open>float64\<close> (\<^verbatim>\<open>floatToPgNumeric\<close> through the
  database driver), \<open>xe_decrypt\<close> says whether the decrypted credentials have the seller interface, \<open>xe_collate\<close> orders the
  offer ids and \<open>xe_order\<close> is the order in which a map of cabinets is iterated.
\<close>

record price_env =
  xe_now :: "nat \<Rightarrow> int"
  xe_uuid :: "nat \<Rightarrow> uuid"
  xe_fault :: "nat \<Rightarrow> bool"
  xe_decrypt :: "string \<Rightarrow> bool option"
  xe_numeric :: "f64 \<Rightarrow> rat option"
  xe_collate :: "string option \<Rightarrow> nat"
  xe_order :: "nat \<Rightarrow> uuid list \<Rightarrow> uuid list"
  xe_update :: "nat \<Rightarrow> PriceUpdate list \<Rightarrow> PriceUpdateResult list \<times> string option"

definition xp_tick :: "price_db \<Rightarrow> price_db" where
  "xp_tick db = db\<lparr>xp_calls := Suc (xp_calls db)\<rparr>"

definition xp_now :: "price_env \<Rightarrow> price_db \<Rightarrow> int" where
  "xp_now env db = xe_now env (xp_calls db)"

definition xp_read :: "price_env \<Rightarrow> (price_db \<Rightarrow> 'a) \<Rightarrow> price_db \<Rightarrow> 'a option \<times> price_db" where
  "xp_read env q db = (if xe_fault env (xp_calls db) then None else Some (q db), xp_tick db)"

text \<open>A statement that changes the tables: it fails as a whole or yields a row's id.\<close>

definition xp_exec :: "price_env \<Rightarrow> (int \<Rightarrow> uuid \<Rightarrow> price_db \<Rightarrow> price_db option) \<Rightarrow> price_db \<Rightarrow> uuid option \<times> price_db" where
  "xp_exec env f db =
     (let n = xp_calls db
      in if xe_fault env n then (None, xp_tick db)
         else case f (xe_now env n) (xe_uuid env n) db of
             None \<Rightarrow> (None, xp_tick db)
           | Some db' \<Rightarrow> (Some (xe_uuid env n), xp_tick db'))"

definition ozon_textToPgtype :: "string \<Rightarrow> string option" where
  "ozon_textToPgtype value = (if value = [] then None else Some value)"

definition floatPtrToPgNumeric :: "price_env \<Rightarrow> f64 option \<Rightarrow> rat option" where
  "floatPtrToPgNumeric env value = (case value of None \<Rightarrow> None | Some v \<Rightarrow> xe_numeric env v)"

section \<open>Statements\<close>

text \<open>A price that the driver cannot encode is \<^verbatim>\<open>NULL\<close>, which the column of the new price rejects.\<close>

definition InsertOzonPriceChange :: "OzonPriceChange \<Rightarrow> rat option \<Rightarrow> int \<Rightarrow> uuid \<Rightarrow> price_db \<Rightarrow> price_db option" where
  "InsertOzonPriceChange row new now newID db =
     (case new of None \<Rightarrow> None
      | Some p \<Rightarrow> Some (db\<lparr>xp_changes := xp_changes db @
          [row\<lparr>xc_ID := newID, xc_NewPriceRub := p, xc_Error := None, xc_CreatedAt := now, xc_AppliedAt := None\<rparr>]\<rparr>))"

definition MarkOzonPriceChangeResult :: "uuid \<Rightarrow> string \<Rightarrow> string option \<Rightarrow> int \<Rightarrow> price_db \<Rightarrow> price_db" where
  "MarkOzonPriceChangeResult i status err now db =
     db\<lparr>xp_changes := map (\<lambda>c. if xc_ID c = i
         then c\<lparr>xc_Status := status, xc_Error := err, xc_AppliedAt := (if status = OzonPriceStatusApplied then Some now else xc_AppliedAt c)\<rparr>
         else c) (xp_changes db)\<rparr>"

definition coalesce :: "'a option \<Rightarrow> 'a option \<Rightarrow> 'a option" where
  "coalesce x y = (case x of None \<Rightarrow> y | Some v \<Rightarrow> Some v)"

definition UpdateOzonProductPriceMirror :: "uuid \<Rightarrow> int \<Rightarrow> rat option \<Rightarrow> rat option \<Rightarrow> rat option \<Rightarrow> price_db \<Rightarrow> price_db" where
  "UpdateOzonProductPriceMirror cab sku price old minp db =
     db\<lparr>xp_prices := map (\<lambda>r. if ozp_SellerCabinetID r = cab \<and> ozp_Sku r = sku
         then r\<lparr>ozp_PriceRub := price, opr_OldPriceRub := coalesce old (opr_OldPriceRub r), opr_MinPriceRub := coalesce minp (opr_MinPriceRub r)\<rparr>
         else r) (xp_prices db)\<rparr>"

definition write_row :: "uuid \<Rightarrow> int \<Rightarrow> OzonPriceChange \<Rightarrow> bool" where
  "write_row cab sku c \<longleftrightarrow> xc_SellerCabinetID c = cab \<and> xc_Sku c = sku \<and>
     xc_Status c \<in> {OzonPriceStatusPending, OzonPriceStatusApplied, OzonPriceStatusRolledBack}"

definition CountOzonPriceWritesBySkuSince :: "uuid \<Rightarrow> int \<Rightarrow> int \<Rightarrow> price_db \<Rightarrow> int" where
  "CountOzonPriceWritesBySkuSince cab sku since db =
     int (length (filter (\<lambda>c. write_row cab sku c \<and> xc_CreatedAt c \<ge> since) (xp_changes db)))"

definition CountOzonStrategyDecisionsBySkuSince :: "uuid \<Rightarrow> int \<Rightarrow> int \<Rightarrow> price_db \<Rightarrow> int" where
  "CountOzonStrategyDecisionsBySkuSince cab sku since db =
     int (length (filter (\<lambda>c. xc_SellerCabinetID c = cab \<and> xc_Sku c = sku \<and> xc_Source c = PriceSourceStrategy \<and>
       xc_Status c \<in> {OzonPriceStatusPending, OzonPriceStatusApplied, OzonPriceStatusShadow} \<and> xc_CreatedAt c \<ge> since) (xp_changes db)))"

definition GetOzonPriceChangeByID :: "uuid \<Rightarrow> price_db \<Rightarrow> OzonPriceChange option" where
  "GetOzonPriceChangeByID i db = find (\<lambda>c. xc_ID c = i) (xp_changes db)"

definition GetOzonProductPriceBySku :: "uuid \<Rightarrow> int \<Rightarrow> price_db \<Rightarrow> ozon_price_row option" where
  "GetOzonProductPriceBySku cab sku db = find (\<lambda>r. ozp_SellerCabinetID r = cab \<and> ozp_Sku r = sku) (xp_prices db)"

definition ListOzonProductPrices :: "price_env \<Rightarrow> uuid \<Rightarrow> price_db \<Rightarrow> ozon_price_row list" where
  "ListOzonProductPrices env cab db =
     sort_key (\<lambda>r. xe_collate env (opr_OfferID r)) (sort_key ozp_Sku (filter (\<lambda>r. ozp_SellerCabinetID r = cab) (xp_prices db)))"

definition price_strategies :: "uuid \<Rightarrow> price_db \<Rightarrow> Strategy list" where
  "price_strategies ws db = filter (\<lambda>s. st_WorkspaceID s = ws \<and> st_IsActive s) (xp_strategies db)"

definition ozon_GetSellerCabinetByID :: "uuid \<Rightarrow> price_db \<Rightarrow> PriceCabinet option" where
  "ozon_GetSellerCabinetByID cab db = find (\<lambda>c. cab_ID c = cab) (xp_cabinets db)"


section \<open>Errors and guards\<close>

text \<open>An error is a typed one or the wrapping text of a failing call.\<close>

datatype price_error = App app_error | Failed string | MarketError string

definition xp_find :: "price_env \<Rightarrow> (price_db \<Rightarrow> 'a option) \<Rightarrow> price_error \<Rightarrow> price_error \<Rightarrow> price_db \<Rightarrow> (price_error + 'a) \<times> price_db" where
  "xp_find env q failed missing db =
     (case xp_read env q db of
        (None, db1) \<Rightarrow> (Inl failed, db1)
      | (Some None, db1) \<Rightarrow> (Inl missing, db1)
      | (Some (Some v), db1) \<Rightarrow> (Inr v, db1))"

definition cabinet_missing :: price_error where
  "cabinet_missing = App (apperror_New ErrNotFound ''seller cabinet not found'')"

text \<open>The cabinet and whether its credentials have the seller interface.\<close>

definition resolveCabinetReadOnly :: "price_env \<Rightarrow> uuid \<Rightarrow> uuid \<Rightarrow> price_db \<Rightarrow> (price_error + PriceCabinet \<times> bool) \<times> price_db" where
  "resolveCabinetReadOnly env ws cab db =
     (case xp_find env (ozon_GetSellerCabinetByID cab) (Failed ''load seller cabinet'') cabinet_missing db of
        (Inl e, db1) \<Rightarrow> (Inl e, db1)
      | (Inr c, db1) \<Rightarrow>
        if cab_Marketplace c \<noteq> MarketplaceOzon \<or> cab_WorkspaceID c \<noteq> ws then (Inl cabinet_missing, db1)
        else case xe_decrypt env (cab_EncryptedCredentials c) of
            None \<Rightarrow> (Inl (Failed ''decrypt ozon credentials''), db1)
          | Some hasSellerAPI \<Rightarrow> (Inr (c, hasSellerAPI), db1))"

definition resolveCabinet :: "price_env \<Rightarrow> uuid \<Rightarrow> uuid \<Rightarrow> price_db \<Rightarrow> (price_error + PriceCabinet) \<times> price_db" where
  "resolveCabinet env ws cab db =
     (case resolveCabinetReadOnly env ws cab db of
        (Inl e, db1) \<Rightarrow> (Inl e, db1)
      | (Inr (c, hasSellerAPI), db1) \<Rightarrow>
        if \<not> hasSellerAPI then (Inl (App (apperror_New ErrValidation ''seller api credentials are missing for this cabinet'')), db1)
        else (Inr c, db1))"

definition ozonHourlyGuardReason :: "int \<Rightarrow> int \<Rightarrow> string" where
  "ozonHourlyGuardReason writesThisHour budget =
     (if writesThisHour \<ge> budget
      then ''hourly price change limit reached ('' @ fmt_d writesThisHour @ ''/'' @ fmt_d budget @ '')'' else [])"

definition hourlyWriteGuard :: "price_env \<Rightarrow> uuid \<Rightarrow> int \<Rightarrow> int \<Rightarrow> int \<Rightarrow> price_db \<Rightarrow> string \<times> price_db" where
  "hourlyWriteGuard env cab sku budget now db =
     (case xp_read env (CountOzonPriceWritesBySkuSince cab sku (now - hour)) db of
        (None, db1) \<Rightarrow> (''hourly write count unavailable'', db1)
      | (Some n, db1) \<Rightarrow> (ozonHourlyGuardReason n budget, db1))"

section \<open>Applying changes\<close>

record ozonPriceIntent =
  pi_ChangeID :: uuid
  pi_SKU :: int
  pi_NewPriceRub :: f64
  pi_OldPriceRub :: "f64 option"
  pi_MinPriceRub :: "f64 option"

definition intent_update :: "ozonPriceIntent \<Rightarrow> PriceUpdate" where
  "intent_update i = \<lparr>pu_ProductID = pi_SKU i, pu_PriceRub = pi_NewPriceRub i, pu_OldPriceRub = pi_OldPriceRub i, pu_MinPriceRub = pi_MinPriceRub i\<rparr>"

text \<open>\<^verbatim>\<open>%v\<close> of a list of strings.\<close>

fun join_errors :: "string list \<Rightarrow> string" where
  "join_errors [] = []"
| "join_errors [e] = e"
| "join_errors (e # es) = e @ '' '' @ join_errors es"

definition outcomes :: "PriceUpdateResult list \<Rightarrow> int \<rightharpoonup> PriceUpdateResult" where
  "outcomes results = foldl (\<lambda>m r. m(pr_ProductID r \<mapsto> r)) Map.empty results"

definition intent_status :: "(int \<rightharpoonup> PriceUpdateResult) \<Rightarrow> string option \<Rightarrow> ozonPriceIntent \<Rightarrow> string \<times> string option" where
  "intent_status outcome writeErr i =
     (case outcome (pi_SKU i) of
        Some r \<Rightarrow>
          if pr_Updated r then (OzonPriceStatusApplied, None)
          else (OzonPriceStatusFailed,
                ozon_textToPgtype (if pr_Errors r = [] then ''ozon rejected the price update''
                              else truncateError (''['' @ join_errors (pr_Errors r) @ '']'')))
      | None \<Rightarrow>
          (OzonPriceStatusFailed,
           ozon_textToPgtype (case writeErr of None \<Rightarrow> ''no result returned by ozon'' | Some e \<Rightarrow> truncateError e)))"

definition settle_intent :: "price_env \<Rightarrow> uuid \<Rightarrow> (int \<rightharpoonup> PriceUpdateResult) \<Rightarrow> string option \<Rightarrow> ozonPriceIntent \<Rightarrow> price_db \<Rightarrow> price_db" where
  "settle_intent env cab outcome writeErr i db =
     (let (status, err) = intent_status outcome writeErr i;
          db1 = snd (xp_exec env (\<lambda>now _ db. Some (MarkOzonPriceChangeResult (pi_ChangeID i) status err now db)) db)
      in if status = OzonPriceStatusApplied
         then snd (xp_exec env (\<lambda>_ _ db. Some (UpdateOzonProductPriceMirror cab (pi_SKU i) (xe_numeric env (pi_NewPriceRub i))
                (floatPtrToPgNumeric env (pi_OldPriceRub i)) (floatPtrToPgNumeric env (pi_MinPriceRub i)) db)) db1)
         else db1)"

definition send_updates :: "price_env \<Rightarrow> uuid \<Rightarrow> PriceUpdate list \<Rightarrow> price_db \<Rightarrow> (PriceUpdateResult list \<times> string option) \<times> price_db" where
  "send_updates env cab updates db =
     (xe_update env (xp_calls db) updates, (xp_tick db)\<lparr>xp_sent := xp_sent db @ [(cab, updates)]\<rparr>)"

definition applyIntents :: "price_env \<Rightarrow> uuid \<Rightarrow> ozonPriceIntent list \<Rightarrow> price_db \<Rightarrow> price_error option \<times> price_db" where
  "applyIntents env cab intents db =
     (case send_updates env cab (map intent_update intents) db of
        ((results, writeErr), db1) \<Rightarrow>
          (map_option MarketError writeErr,
           foldl (\<lambda>db i. settle_intent env cab (outcomes results) writeErr i db) db1 intents))"

section \<open>The run of the strategies\<close>

text \<open>
  Paging reads the rows of a cabinet in pages; nothing changes the table in between, so the pages are consecutive parts of the
  sorted rows.
\<close>

function load_pages :: "price_env \<Rightarrow> ozon_price_row list \<Rightarrow> ozon_price_row list \<Rightarrow> price_db \<Rightarrow> ozon_price_row list option \<times> price_db" where
  "load_pages env rest out db =
     (case xp_read env (\<lambda>_. take ozonRepricerPageSize rest) db of
        (None, db1) \<Rightarrow> (None, db1)
      | (Some rows, db1) \<Rightarrow>
        if length rows < ozonRepricerPageSize then (Some (out @ rows), db1)
        else load_pages env (drop ozonRepricerPageSize rest) (out @ rows) db1)"
  by pat_completeness auto
termination
  by (relation "measure (\<lambda>(env, rest, out, db). length rest)") (auto simp: xp_read_def ozonRepricerPageSize_def split: if_splits)

declare load_pages.simps [simp del]

definition loadCabinetPrices :: "price_env \<Rightarrow> uuid \<Rightarrow> price_db \<Rightarrow> ozon_price_row list option \<times> price_db" where
  "loadCabinetPrices env cab db = load_pages env (ListOzonProductPrices env cab db) [] db"

definition loadCabinetEconomics :: "price_env \<Rightarrow> uuid \<Rightarrow> price_db \<Rightarrow> (string \<rightharpoonup> OzonProductEconomic) option \<times> price_db" where
  "loadCabinetEconomics env cab db =
     (case xp_read env (\<lambda>db. filter (\<lambda>e. ope_SellerCabinetID e = cab) (xp_economics db)) db of
        (None, db1) \<Rightarrow> (None, db1)
      | (Some rows, db1) \<Rightarrow> (Some (foldl (\<lambda>m e. m(ope_OfferID e \<mapsto> e)) Map.empty rows), db1))"


subsection \<open>Demand, stock and advertising data\<close>

definition OzonSalesVelocityByCabinet :: "uuid \<Rightarrow> int \<Rightarrow> price_db \<Rightarrow> (int \<times> int) list" where
  "OzonSalesVelocityByCabinet cab date db =
     (let rows = filter (\<lambda>s. sd_SellerCabinetID s = cab \<and> sd_Date s \<ge> date) (ozon_sales_daily (xp_tables db))
      in map (\<lambda>sku. (sku, sum_list (map sd_OrderedUnits (filter (\<lambda>s. sd_Sku s = sku) rows)))) (remdups (map sd_Sku rows)))"

definition OzonSkuAdSpendByCabinet :: "uuid \<Rightarrow> int \<Rightarrow> price_db \<Rightarrow> (int \<times> rat \<times> rat) list" where
  "OzonSkuAdSpendByCabinet cab date db =
     (let t = xp_tables db;
          joined = concat (map (\<lambda>c. List.product
                     (filter (\<lambda>p. op_CampaignID p = oz_ID c) (ozon_campaign_products t))
                     (filter (\<lambda>s. os_CampaignID s = oz_ID c \<and> os_Date s \<ge> date) (ozon_campaign_stats t)))
                   (filter (\<lambda>c. oz_SellerCabinetID c = cab) (ozon_campaigns t)))
      in map (\<lambda>sku. let rows = map snd (filter (\<lambda>(p, s). op_Sku p = sku) joined)
                    in (sku, sum_list (map os_SpendRub rows), sum_list (map os_RevenueRub rows)))
           (remdups (map (op_Sku \<circ> fst) joined)))"

definition max0 :: "int list \<Rightarrow> int" where "max0 xs = foldr max xs 0"

text \<open>Orders are not negative; a product without any order in the window has no intensity.\<close>

definition OzonSlotIntensities :: "uuid \<Rightarrow> int \<Rightarrow> int \<Rightarrow> price_db \<Rightarrow> (int \<times> f64 \<times> int) list" where
  "OzonSlotIntensities cab dow hr db =
     (let rows = filter (\<lambda>h. oh_SellerCabinetID h = cab) (xp_hourly db)
      in concat (map (\<lambda>sku.
           let own = filter (\<lambda>h. oh_Sku h = sku) rows; top = max0 (map oh_Orders own);
               slot = max0 (map oh_Orders (filter (\<lambda>h. oh_Dow h = dow \<and> oh_Hour h = hr) own))
           in if top = 0 then [] else [(sku, float_of_int slot / float_of_int top, sum_list (map oh_Orders own))])
         (remdups (map oh_Sku rows))))"

definition OzonCabinetSlotIntensity :: "uuid \<Rightarrow> int \<Rightarrow> int \<Rightarrow> price_db \<Rightarrow> f64 \<times> bool" where
  "OzonCabinetSlotIntensity cab dow hr db =
     (let rows = filter (\<lambda>h. oh_SellerCabinetID h = cab) (xp_hourly db);
          total = (\<lambda>d k. sum_list (map oh_Orders (filter (\<lambda>h. oh_Dow h = d \<and> oh_Hour h = k) rows)));
          top = max0 (map (\<lambda>h. total (oh_Dow h) (oh_Hour h)) rows)
      in if top = 0 then (Fin 0, False) else (float_of_int (total dow hr) / float_of_int top, True))"

text \<open>Day of the week from Monday and hour in Moscow; the zero time is a Monday.\<close>

definition ozonMSKSlot :: "int \<Rightarrow> int \<times> int" where
  "ozonMSKSlot t = (let msk = t + 3 * hour in ((msk div day) mod 7, (msk mod day) div hour))"

definition fold_map :: "('k \<times> 'v) list \<Rightarrow> 'k \<rightharpoonup> 'v" where
  "fold_map rows = foldl (\<lambda>m (k, v). m(k \<mapsto> v)) Map.empty rows"

definition empty_aux :: ozonStrategyAux where
  "empty_aux = \<lparr>ax_presentByProductID = Map.empty, ax_salesSKUByProductID = Map.empty, ax_velocityBySalesSKU = Map.empty,
     ax_drrBySalesSKU = Map.empty, ax_spendBySalesSKU = Map.empty, ax_peakIntensityBySalesSKU = Map.empty,
     ax_peakCabinetIntensity = Fin 0, ax_peakCabinetHasData = False\<rparr>"

text \<open>The three loads, each only when a strategy of its type is present.\<close>

definition load_inventory :: "price_env \<Rightarrow> uuid \<Rightarrow> int \<Rightarrow> ozonStrategyAux \<Rightarrow> price_db \<Rightarrow> ozonStrategyAux option \<times> price_db" where
  "load_inventory env cab since aux db =
     (case xp_read env (\<lambda>db. filter (\<lambda>s. ps_SellerCabinetID s = cab) (xp_stocks db)) db of
        (None, db1) \<Rightarrow> (None, db1)
      | (Some stockRows, db1) \<Rightarrow>
        (case xp_read env (OzonSalesVelocityByCabinet cab (trunc_day since)) db1 of
           (None, db2) \<Rightarrow> (None, db2)
         | (Some salesRows, db2) \<Rightarrow>
           (Some (aux\<lparr>ax_presentByProductID := fold_map (map (\<lambda>s. (ps_Sku s, ps_Present s)) stockRows),
                      ax_velocityBySalesSKU :=
                        fold_map (map (\<lambda>(sku, units). (sku, float_of_int units / float_of_int ozonVelocityLookbackDays)) salesRows)\<rparr>), db2)))"

definition load_peak :: "price_env \<Rightarrow> uuid \<Rightarrow> ozonStrategyAux \<Rightarrow> price_db \<Rightarrow> ozonStrategyAux option \<times> price_db" where
  "load_peak env cab aux db =
     (case ozonMSKSlot (xp_now env db) of
        (dow, hr) \<Rightarrow>
        (case xp_read env (OzonSlotIntensities cab dow hr) db of
           (None, db1) \<Rightarrow> (None, db1)
         | (Some slots, db1) \<Rightarrow>
           (case xp_read env (OzonCabinetSlotIntensity cab dow hr) db1 of
              (None, db2) \<Rightarrow> (None, db2)
            | (Some (intensity, hasData), db2) \<Rightarrow>
              (Some (aux\<lparr>ax_peakIntensityBySalesSKU := fold_map slots, ax_peakCabinetIntensity := intensity,
                         ax_peakCabinetHasData := hasData\<rparr>), db2))))"

definition add_ad_row :: "ozonStrategyAux \<Rightarrow> int \<times> rat \<times> rat \<Rightarrow> ozonStrategyAux" where
  "add_ad_row aux row =
     (case row of (sku, spendRub, revenueRub) \<Rightarrow>
        let spend = pgNumericToFloat (Some spendRub); revenue = pgNumericToFloat (Some revenueRub)
        in if spend \<le> Fin 0 then aux
           else
             let aux1 = aux\<lparr>ax_spendBySalesSKU := (ax_spendBySalesSKU aux)(sku \<mapsto> spend)\<rparr>
             in if revenue > Fin 0 then aux1\<lparr>ax_drrBySalesSKU := (ax_drrBySalesSKU aux1)(sku \<mapsto> spend / revenue * Fin 100)\<rparr> else aux1)"

definition load_ads :: "price_env \<Rightarrow> uuid \<Rightarrow> int \<Rightarrow> ozonStrategyAux \<Rightarrow> price_db \<Rightarrow> ozonStrategyAux option \<times> price_db" where
  "load_ads env cab since aux db =
     (case xp_read env (OzonSkuAdSpendByCabinet cab (trunc_day since)) db of
        (None, db1) \<Rightarrow> (None, db1)
      | (Some rows, db1) \<Rightarrow> (Some (foldl add_ad_row aux rows), db1))"

definition load_if :: "bool \<Rightarrow> ('a \<Rightarrow> price_db \<Rightarrow> 'a option \<times> price_db) \<Rightarrow> 'a option \<times> price_db \<Rightarrow> 'a option \<times> price_db" where
  "load_if needed load acc = (case acc of (None, db) \<Rightarrow> (None, db) | (Some aux, db) \<Rightarrow> if needed then load aux db else (Some aux, db))"

definition loadStrategyAux :: "price_env \<Rightarrow> uuid \<Rightarrow> Strategy list \<Rightarrow> price_db \<Rightarrow> ozonStrategyAux option \<times> price_db" where
  "loadStrategyAux env cab strategies db =
     (let needs = (\<lambda>ty. ty \<in> st_Type ` set strategies);
          needsInventory = needs StrategyTypeOzonPriceInventoryDemand; needsAd = needs StrategyTypeOzonPriceAdLinked;
          needsPeak = needs StrategyTypeOzonPricePeakHours
      in if \<not> needsInventory \<and> \<not> needsAd \<and> \<not> needsPeak then (Some empty_aux, db)
         else case xp_read env (\<lambda>db. filter (\<lambda>p. pd_SellerCabinetID p = cab) (xp_products db)) db of
             (None, db1) \<Rightarrow> (None, db1)
           | (Some productRows, db1) \<Rightarrow>
             let aux = empty_aux\<lparr>ax_salesSKUByProductID := fold_map (concat (map (\<lambda>p. case pd_Sku p of
                    None \<Rightarrow> [] | Some sku \<Rightarrow> if sku \<noteq> 0 then [(pd_ProductID p, sku)] else []) productRows))\<rparr>;
                 since = xp_now env db1 - ozonVelocityLookbackDays * day
             in load_if needsAd (load_ads env cab since)
                  (load_if needsPeak (load_peak env cab) (load_if needsInventory (load_inventory env cab since) (Some aux, db1))))"

subsection \<open>One product\<close>

definition strategyGuard :: "price_env \<Rightarrow> uuid \<Rightarrow> int \<Rightarrow> (int \<Rightarrow> bool) \<Rightarrow> int \<Rightarrow> price_db \<Rightarrow> bool \<times> price_db" where
  "strategyGuard env cab sku blocks since db =
     (case xp_read env (CountOzonStrategyDecisionsBySkuSince cab sku since) db of
        (None, db1) \<Rightarrow> (False, db1)
      | (Some n, db1) \<Rightarrow> (\<not> blocks n, db1))"

definition row_econ :: "(string \<rightharpoonup> OzonProductEconomic) \<Rightarrow> ozon_price_row \<Rightarrow> OzonProductEconomic option" where
  "row_econ economics row = (case opr_OfferID row of None \<Rightarrow> None | Some offer \<Rightarrow> economics offer)"

text \<open>The decision of \<^verbatim>\<open>evaluateProduct\<close> before its guards on the history.\<close>

definition product_decision ::
    "Strategy \<Rightarrow> StrategyParams \<Rightarrow> ozon_price_row \<Rightarrow> (string \<rightharpoonup> OzonProductEconomic) \<Rightarrow> ozonStrategyAux \<Rightarrow> int \<Rightarrow> ozonPriceDecision option" where
  "product_decision strategy params row economics aux now =
     (let current = pgNumericToFloat (ozp_PriceRub row); econ = row_econ economics row
      in if current \<le> Fin 0 then None
         else if (case opr_SyncedAt row of None \<Rightarrow> True | Some t \<Rightarrow> now - t > maxOzonRepricerPriceAge) then None
         else case row_floor params row econ of
             (fl, reason) \<Rightarrow>
             if reason \<noteq> [] then None
             else case row_decision strategy params row econ aux current fl of
                 None \<Rightarrow> None
               | Some d \<Rightarrow>
                 if \<not> od_ShouldChange d then None
                 else if \<bar>od_NewPriceRub d - current\<bar> < minOzonPriceDeltaRub then None
                 else Some d)"

definition ozon_evaluateProduct ::
    "price_env \<Rightarrow> uuid \<Rightarrow> Strategy \<Rightarrow> StrategyParams \<Rightarrow> ozon_price_row \<Rightarrow> (string \<rightharpoonup> OzonProductEconomic) \<Rightarrow> ozonStrategyAux \<Rightarrow> int \<Rightarrow>
       price_db \<Rightarrow> ozonPriceDecision option \<times> price_db" where
  "ozon_evaluateProduct env cab strategy params row economics aux now db =
     (case product_decision strategy params row economics aux now of
        None \<Rightarrow> (None, db)
      | Some d \<Rightarrow>
        (case (if PriceCooldownHours params > 0
               then strategyGuard env cab (ozp_Sku row) (\<lambda>n. n > 0) (now - wrap64 (PriceCooldownHours params * 3600000000000) div 1000) db
               else (True, db)) of
           (False, db1) \<Rightarrow> (None, db1)
         | (True, db1) \<Rightarrow>
           (case strategyGuard env cab (ozp_Sku row) (\<lambda>n. n \<ge> MaxPriceChangesPerDay params) (trunc_day now) db1 of
              (False, db2) \<Rightarrow> (None, db2)
            | (True, db2) \<Rightarrow>
              (case hourlyWriteGuard env cab (ozp_Sku row) ozonStrategyHourlyWriteCap now db2 of
                 (reason, db3) \<Rightarrow> if reason \<noteq> [] then (None, db3) else (Some d, db3)))))"

subsection \<open>One cabinet\<close>

definition is_auto_mode :: "StrategyParams \<Rightarrow> bool" where
  "is_auto_mode params \<longleftrightarrow> PriceApplyMode params = PriceApplyModeAuto"

definition strategy_change :: "price_env \<Rightarrow> uuid \<Rightarrow> Strategy \<Rightarrow> StrategyParams \<Rightarrow> ozon_price_row \<Rightarrow> ozonPriceDecision \<Rightarrow> OzonPriceChange" where
  "strategy_change env cab strategy params row d =
     \<lparr>xc_ID = 0, xc_SellerCabinetID = cab, xc_Sku = ozp_Sku row, xc_OfferID = opr_OfferID row, xc_OldPriceRub = ozp_PriceRub row,
      xc_NewPriceRub = 0, xc_OldOldPriceRub = None, xc_NewOldPriceRub = None, xc_MinPriceRub = None,
      xc_FloorRub = xe_numeric env (od_FloorRub d), xc_Reason = ozon_textToPgtype (od_Reason d), xc_Source = PriceSourceStrategy,
      xc_StrategyID = Some (st_ID strategy),
      xc_Status = (if is_auto_mode params then OzonPriceStatusPending else OzonPriceStatusShadow),
      xc_Error = None, xc_CreatedAt = 0, xc_AppliedAt = None\<rparr>"

text \<open>The state of the loop: the products decided so far, the number of changes written and the changes to send.\<close>

record run_acc =
  ra_decided :: "int set"
  ra_written :: nat
  ra_intents :: "ozonPriceIntent list"

fun run_rows ::
    "price_env \<Rightarrow> uuid \<Rightarrow> Strategy \<Rightarrow> (string \<rightharpoonup> OzonProductEconomic) \<Rightarrow> ozonStrategyAux \<Rightarrow> int \<Rightarrow> ozon_price_row list \<Rightarrow> run_acc \<Rightarrow> price_db \<Rightarrow>
       price_error option \<times> run_acc \<times> price_db" where
  "run_rows env cab strategy economics aux now [] acc db = (None, acc, db)"
| "run_rows env cab strategy economics aux now (row # rows) acc db =
     (if ozp_Sku row \<in> ra_decided acc then run_rows env cab strategy economics aux now rows acc db
      else
        let params = MergedPriceParams (st_Params strategy)
        in case ozon_evaluateProduct env cab strategy params row economics aux now db of
             (None, db1) \<Rightarrow> run_rows env cab strategy economics aux now rows acc db1
           | (Some d, db1) \<Rightarrow>
             (case xp_exec env (InsertOzonPriceChange (strategy_change env cab strategy params row d) (xe_numeric env (od_NewPriceRub d))) db1 of
                (None, db2) \<Rightarrow> (Some (Failed ''record price change''), acc\<lparr>ra_decided := insert (ozp_Sku row) (ra_decided acc)\<rparr>, db2)
              | (Some newID, db2) \<Rightarrow>
                run_rows env cab strategy economics aux now rows
                  \<lparr>ra_decided = insert (ozp_Sku row) (ra_decided acc), ra_written = ra_written acc + 1,
                   ra_intents = ra_intents acc @
                     (if is_auto_mode params
                      then [\<lparr>pi_ChangeID = newID, pi_SKU = ozp_Sku row, pi_NewPriceRub = od_NewPriceRub d, pi_OldPriceRub = None,
                             pi_MinPriceRub = None\<rparr>] else [])\<rparr> db2))"

fun run_cabinet_strategies ::
    "price_env \<Rightarrow> uuid \<Rightarrow> (string \<rightharpoonup> OzonProductEconomic) \<Rightarrow> ozonStrategyAux \<Rightarrow> int \<Rightarrow> ozon_price_row list \<Rightarrow> Strategy list \<Rightarrow> run_acc \<Rightarrow> price_db \<Rightarrow>
       price_error option \<times> run_acc \<times> price_db" where
  "run_cabinet_strategies env cab economics aux now prices [] acc db = (None, acc, db)"
| "run_cabinet_strategies env cab economics aux now prices (s # ss) acc db =
     (case run_rows env cab s economics aux now prices acc db of
        (Some e, acc1, db1) \<Rightarrow> (Some e, acc1, db1)
      | (None, acc1, db1) \<Rightarrow> run_cabinet_strategies env cab economics aux now prices ss acc1 db1)"

definition no_acc :: run_acc where "no_acc = \<lparr>ra_decided = {}, ra_written = 0, ra_intents = []\<rparr>"

definition runCabinet :: "price_env \<Rightarrow> uuid \<Rightarrow> uuid \<Rightarrow> Strategy list \<Rightarrow> price_db \<Rightarrow> (nat \<times> price_error option) \<times> price_db" where
  "runCabinet env ws cab strategies db =
     (case resolveCabinet env ws cab db of
        (Inl e, db1) \<Rightarrow> ((0, Some e), db1)
      | (Inr cabinet, db1) \<Rightarrow>
        if some_and (\<lambda>until. until > xp_now env db1) (cab_RepricerPausedUntil cabinet) then ((0, None), db1)
        else case loadCabinetPrices env cab db1 of
            (None, db2) \<Rightarrow> ((0, Some (Failed ''list cabinet prices'')), db2)
          | (Some prices, db2) \<Rightarrow>
            if prices = [] then ((0, None), db2)
            else case loadCabinetEconomics env cab db2 of
                (None, db3) \<Rightarrow> ((0, Some (Failed ''list cabinet economics'')), db3)
              | (Some economics, db3) \<Rightarrow>
                (case loadStrategyAux env cab strategies db3 of
                   (None, db4) \<Rightarrow> ((0, Some (Failed ''load strategy data'')), db4)
                 | (Some aux, db4) \<Rightarrow>
                   (case run_cabinet_strategies env cab economics aux (xp_now env db4) prices strategies no_acc db4 of
                      (Some e, acc, db5) \<Rightarrow> ((ra_written acc, Some e), db5)
                    | (None, acc, db5) \<Rightarrow>
                      if ra_intents acc = [] then ((ra_written acc, None), db5)
                      else case applyIntents env cab (ra_intents acc) db5 of (err, db6) \<Rightarrow> ((ra_written acc, err), db6))))"

fun run_cabinets :: "price_env \<Rightarrow> uuid \<Rightarrow> Strategy list \<Rightarrow> uuid list \<Rightarrow> price_db \<Rightarrow> (nat \<times> price_error list) \<times> price_db" where
  "run_cabinets env ws strategies [] db = ((0, []), db)"
| "run_cabinets env ws strategies (cab # cabs) db =
     (case runCabinet env ws cab (filter (\<lambda>s. st_SellerCabinetID s = cab) strategies) db of
        ((count, err), db1) \<Rightarrow>
        (case run_cabinets env ws strategies cabs db1 of
           ((written, errs), db2) \<Rightarrow> ((count + written, (case err of None \<Rightarrow> [] | Some e \<Rightarrow> [e]) @ errs), db2)))"

definition ozon_RunForWorkspace :: "price_env \<Rightarrow> uuid \<Rightarrow> price_db \<Rightarrow> (nat \<times> price_error list) \<times> price_db" where
  "ozon_RunForWorkspace env ws db =
     (case xp_read env (price_strategies ws) db of
        (None, db1) \<Rightarrow> ((0, [Failed ''list active strategies'']), db1)
      | (Some rows, db1) \<Rightarrow>
        let strategies = filter (\<lambda>s. IsOzonPriceStrategy (st_Type s)) rows
        in run_cabinets env ws strategies (xe_order env (xp_calls db1) (remdups (map st_SellerCabinetID strategies))) db1)"


section \<open>Manual changes\<close>

record OzonManualPriceInput =
  mi_SKU :: int
  mi_PriceRub :: f64
  mi_OldPriceRub :: "f64 option"
  mi_MinPriceRub :: "f64 option"

definition manual_item_error :: "OzonManualPriceInput \<Rightarrow> go_error" where
  "manual_item_error item =
     (if mi_SKU item \<le> 0 \<or> mi_PriceRub item \<le> Fin 0 then Some (validation_error ''every item needs a positive sku and price_rub'')
      else if some_and (\<lambda>v. v < Fin 0) (mi_OldPriceRub item) then Some (validation_error ''old_price_rub must be non-negative'')
      else if some_and (\<lambda>v. v < Fin 0) (mi_MinPriceRub item) then Some (validation_error ''min_price_rub must be non-negative'')
      else None)"

definition manual_items_error :: "OzonManualPriceInput list \<Rightarrow> go_error" where
  "manual_items_error items =
     (if items = [] then Some (validation_error ''items are required'')
      else if length items > ozonManualPriceItemsLimit
        then Some (validation_error (''at most '' @ fmt_d (int ozonManualPriceItemsLimit) @ '' items per request''))
      else case filter (\<lambda>e. e \<noteq> None) (map manual_item_error items) of [] \<Rightarrow> None | e # _ \<Rightarrow> e)"

text \<open>The current row of a product, nothing when it is missing or cannot be read.\<close>

definition mirror_row :: "price_env \<Rightarrow> uuid \<Rightarrow> int \<Rightarrow> price_db \<Rightarrow> ozon_price_row option \<times> price_db" where
  "mirror_row env cab sku db =
     (case xp_read env (GetOzonProductPriceBySku cab sku) db of (None, db1) \<Rightarrow> (None, db1) | (Some r, db1) \<Rightarrow> (r, db1))"

definition manual_change :: "price_env \<Rightarrow> uuid \<Rightarrow> OzonManualPriceInput \<Rightarrow> ozon_price_row option \<Rightarrow> string \<Rightarrow> OzonPriceChange" where
  "manual_change env cab item mirror status =
     \<lparr>xc_ID = 0, xc_SellerCabinetID = cab, xc_Sku = mi_SKU item,
      xc_OfferID = (case mirror of None \<Rightarrow> None | Some r \<Rightarrow> opr_OfferID r),
      xc_OldPriceRub = (case mirror of None \<Rightarrow> None | Some r \<Rightarrow> ozp_PriceRub r), xc_NewPriceRub = 0,
      xc_OldOldPriceRub = (case mirror of None \<Rightarrow> None | Some r \<Rightarrow> opr_OldPriceRub r),
      xc_NewOldPriceRub = floatPtrToPgNumeric env (mi_OldPriceRub item), xc_MinPriceRub = floatPtrToPgNumeric env (mi_MinPriceRub item),
      xc_FloorRub = None, xc_Reason = ozon_textToPgtype ''manual price update'', xc_Source = PriceSourceManual, xc_StrategyID = None,
      xc_Status = status, xc_Error = None, xc_CreatedAt = 0, xc_AppliedAt = None\<rparr>"

definition manual_intent :: "uuid \<Rightarrow> OzonManualPriceInput \<Rightarrow> ozonPriceIntent" where
  "manual_intent i item = \<lparr>pi_ChangeID = i, pi_SKU = mi_SKU item, pi_NewPriceRub = mi_PriceRub item, pi_OldPriceRub = mi_OldPriceRub item,
     pi_MinPriceRub = mi_MinPriceRub item\<rparr>"

text \<open>The loop over the items: the ids and statuses of the recorded changes, and the changes to send.\<close>

fun record_manual ::
    "price_env \<Rightarrow> uuid \<Rightarrow> int \<Rightarrow> OzonManualPriceInput list \<Rightarrow> price_db \<Rightarrow> ((uuid \<times> string) list \<times> ozonPriceIntent list) option \<times> price_db" where
  "record_manual env cab now [] db = (Some ([], []), db)"
| "record_manual env cab now (item # items) db =
     (case mirror_row env cab (mi_SKU item) db of
        (mirror, db1) \<Rightarrow>
        (case hourlyWriteGuard env cab (mi_SKU item) ozonHardHourlyWriteCap now db1 of
           (blocked, db2) \<Rightarrow>
           (let status = (if blocked \<noteq> [] then OzonPriceStatusFailed else OzonPriceStatusPending)
            in case xp_exec env (InsertOzonPriceChange (manual_change env cab item mirror status) (xe_numeric env (mi_PriceRub item))) db2 of
                 (None, db3) \<Rightarrow> (None, db3)
               | (Some newID, db3) \<Rightarrow>
                 let db4 = (if blocked \<noteq> []
                            then snd (xp_exec env (\<lambda>now _ db. Some (MarkOzonPriceChangeResult newID OzonPriceStatusFailed (ozon_textToPgtype blocked) now db)) db3)
                            else db3)
                 in (case record_manual env cab now items db4 of
                       (None, db5) \<Rightarrow> (None, db5)
                     | (Some (rows, intents), db5) \<Rightarrow>
                       (Some ((newID, status) # rows, (if blocked \<noteq> [] then [] else [manual_intent newID item]) @ intents), db5)))))"

text \<open>The refreshed rows of the answer; a row that cannot be read again keeps the status it was recorded with.\<close>

fun refresh_rows :: "price_env \<Rightarrow> (uuid \<times> string) list \<Rightarrow> price_db \<Rightarrow> (uuid \<times> string) list \<times> price_db" where
  "refresh_rows env [] db = ([], db)"
| "refresh_rows env ((i, status) # rows) db =
     (if status \<noteq> OzonPriceStatusPending then (case refresh_rows env rows db of (out, db1) \<Rightarrow> ((i, status) # out, db1))
      else case xp_read env (GetOzonPriceChangeByID i) db of
          (Some (Some c), db1) \<Rightarrow> (case refresh_rows env rows db1 of (out, db2) \<Rightarrow> ((i, xc_Status c) # out, db2))
        | (_, db1) \<Rightarrow> (case refresh_rows env rows db1 of (out, db2) \<Rightarrow> ((i, status) # out, db2)))"

definition ozon_ApplyManual ::
    "price_env \<Rightarrow> uuid \<Rightarrow> uuid \<Rightarrow> OzonManualPriceInput list \<Rightarrow> price_db \<Rightarrow> ((uuid \<times> string) list \<times> price_error option) \<times> price_db" where
  "ozon_ApplyManual env ws cab items db =
     (case manual_items_error items of
        Some e \<Rightarrow> (([], Some (App e)), db)
      | None \<Rightarrow>
        (case resolveCabinet env ws cab db of
           (Inl e, db1) \<Rightarrow> (([], Some e), db1)
         | (Inr cabinet, db1) \<Rightarrow>
           (case record_manual env cab (xp_now env db1) items db1 of
              (None, db2) \<Rightarrow> (([], Some (Failed ''record manual price change'')), db2)
            | (Some (rows, intents), db2) \<Rightarrow>
              (case (if intents = [] then (None, db2) else applyIntents env cab intents db2) of
                 (err, db3) \<Rightarrow> (case refresh_rows env rows db3 of (out, db4) \<Rightarrow> ((out, err), db4))))))"

section \<open>Rollback\<close>

definition change_missing :: price_error where
  "change_missing = App (apperror_New ErrNotFound ''price change not found'')"

definition rollback_change :: "OzonPriceChange \<Rightarrow> string \<Rightarrow> OzonPriceChange" where
  "rollback_change row reason =
     \<lparr>xc_ID = 0, xc_SellerCabinetID = xc_SellerCabinetID row, xc_Sku = xc_Sku row, xc_OfferID = xc_OfferID row,
      xc_OldPriceRub = Some (xc_NewPriceRub row), xc_NewPriceRub = 0, xc_OldOldPriceRub = xc_NewOldPriceRub row,
      xc_NewOldPriceRub = xc_OldOldPriceRub row, xc_MinPriceRub = None, xc_FloorRub = None, xc_Reason = ozon_textToPgtype reason,
      xc_Source = PriceSourceManual, xc_StrategyID = None, xc_Status = OzonPriceStatusPending, xc_Error = None, xc_CreatedAt = 0,
      xc_AppliedAt = None\<rparr>"

text \<open>The refusals before anything is recorded.\<close>

definition rollback_checks :: "price_env \<Rightarrow> OzonPriceChange \<Rightarrow> price_db \<Rightarrow> price_error option \<times> price_db" where
  "rollback_checks env row db =
     (if xc_Status row \<noteq> OzonPriceStatusApplied then (Some (App (validation_error ''only applied price changes can be rolled back'')), db)
      else if pgNumericToFloat (xc_OldPriceRub row) \<le> Fin 0
        then (Some (App (validation_error ''price change has no previous price to restore'')), db)
      else case mirror_row env (xc_SellerCabinetID row) (xc_Sku row) db of
          (None, db1) \<Rightarrow> (Some (App (validation_error ''product price mirror is missing; sync the cabinet first'')), db1)
        | (Some mirror, db1) \<Rightarrow>
          if \<bar>pgNumericToFloat (ozp_PriceRub mirror) - pgNumericToFloat (Some (xc_NewPriceRub row))\<bar> > lit (1/100)
          then (Some (App (validation_error ''current price no longer matches this change; rollback aborted'')), db1)
          else (case hourlyWriteGuard env (xc_SellerCabinetID row) (xc_Sku row) ozonHardHourlyWriteCap (xp_now env db1) db1 of
                  (blocked, db2) \<Rightarrow> if blocked \<noteq> [] then (Some (App (apperror_New ErrRateLimited blocked)), db2) else (None, db2)))"

text \<open>\<open>show_id\<close> prints the id of the change.\<close>

definition ozon_Rollback :: "(uuid \<Rightarrow> string) \<Rightarrow> price_env \<Rightarrow> uuid \<Rightarrow> uuid \<Rightarrow> price_db \<Rightarrow> (price_error + OzonPriceChange) \<times> price_db" where
  "ozon_Rollback show_id env ws changeID db =
     (case xp_find env (GetOzonPriceChangeByID changeID) (Failed ''load price change'') change_missing db of
        (Inl e, db1) \<Rightarrow> (Inl e, db1)
      | (Inr row, db1) \<Rightarrow>
        (case resolveCabinet env ws (xc_SellerCabinetID row) db1 of
           (Inl e, db2) \<Rightarrow> (Inl (if e = cabinet_missing then change_missing else e), db2)
         | (Inr cabinet, db2) \<Rightarrow>
           (case rollback_checks env row db2 of
              (Some e, db3) \<Rightarrow> (Inl e, db3)
            | (None, db3) \<Rightarrow>
              (case xp_exec env (InsertOzonPriceChange (rollback_change row (''rollback of '' @ show_id (xc_ID row))) (xc_OldPriceRub row)) db3 of
                 (None, db4) \<Rightarrow> (Inl (Failed ''record rollback change''), db4)
               | (Some newID, db4) \<Rightarrow>
                 (case applyIntents env (xc_SellerCabinetID row)
                         [\<lparr>pi_ChangeID = newID, pi_SKU = xc_Sku row, pi_NewPriceRub = pgNumericToFloat (xc_OldPriceRub row),
                           pi_OldPriceRub = (case xc_OldOldPriceRub row of None \<Rightarrow> None | Some v \<Rightarrow> Some (pgNumericToFloat (Some v))),
                           pi_MinPriceRub = None\<rparr>] db4 of
                    (Some e, db5) \<Rightarrow> (Inl e, db5)
                  | (None, db5) \<Rightarrow>
                    (case xp_find env (GetOzonPriceChangeByID newID) (Failed ''reload rollback change'') (Failed ''reload rollback change'') db5 of
                       (Inl e, db6) \<Rightarrow> (Inl e, db6)
                     | (Inr fresh, db6) \<Rightarrow>
                       if xc_Status fresh \<noteq> OzonPriceStatusApplied
                       then (Inl (App (validation_error (''rollback write failed: '' @ (case xc_Error fresh of None \<Rightarrow> [] | Some m \<Rightarrow> m)))), db6)
                       else (Inr fresh,
                             snd (xp_exec env (\<lambda>now _ db. Some (MarkOzonPriceChangeResult (xc_ID row) OzonPriceStatusRolledBack None now db)) db6))))))))"

section \<open>Listing\<close>

definition CountOzonPriceChangesByCabinet :: "uuid \<Rightarrow> int option \<Rightarrow> price_db \<Rightarrow> int" where
  "CountOzonPriceChangesByCabinet cab sku db =
     int (length (filter (\<lambda>c. xc_SellerCabinetID c = cab \<and> (sku = None \<or> sku = Some (xc_Sku c))) (xp_changes db)))"

definition ListOzonPriceChangesByCabinet :: "uuid \<Rightarrow> int option \<Rightarrow> nat \<Rightarrow> nat \<Rightarrow> price_db \<Rightarrow> OzonPriceChange list" where
  "ListOzonPriceChangesByCabinet cab sku limit offset db =
     take limit (drop offset (sort_key (\<lambda>c. - xc_CreatedAt c)
       (filter (\<lambda>c. xc_SellerCabinetID c = cab \<and> (sku = None \<or> sku = Some (xc_Sku c))) (xp_changes db))))"

definition ListPriceChanges ::
    "price_env \<Rightarrow> uuid \<Rightarrow> uuid \<Rightarrow> int option \<Rightarrow> nat \<Rightarrow> nat \<Rightarrow> price_db \<Rightarrow> (price_error + OzonPriceChange list \<times> int) \<times> price_db" where
  "ListPriceChanges env ws cab sku limit offset db =
     (case resolveCabinetReadOnly env ws cab db of
        (Inl e, db1) \<Rightarrow> (Inl e, db1)
      | (Inr cabinet, db1) \<Rightarrow>
        (case xp_read env (CountOzonPriceChangesByCabinet cab sku) db1 of
           (None, db2) \<Rightarrow> (Inl (App (apperror_New ErrInternal ''failed to count ozon price changes'')), db2)
         | (Some cnt, db2) \<Rightarrow>
           (case xp_read env (ListOzonPriceChangesByCabinet cab sku limit offset) db2 of
              (None, db3) \<Rightarrow> (Inl (App (apperror_New ErrInternal ''failed to list ozon price changes'')), db3)
            | (Some rows, db3) \<Rightarrow> (Inr (rows, cnt), db3))))"

definition ResolveWorkspaceCabinet :: "price_env \<Rightarrow> uuid \<Rightarrow> uuid \<Rightarrow> price_db \<Rightarrow> price_error option \<times> price_db" where
  "ResolveWorkspaceCabinet env ws cab db =
     (case resolveCabinetReadOnly env ws cab db of (Inl e, db1) \<Rightarrow> (Some e, db1) | (Inr _, db1) \<Rightarrow> (None, db1))"

end
