(* ===== verification/Ozon_Calendar.thy ===== *)
theory Ozon_Calendar
  imports Ozon_Repricer
begin

text \<open>
  The price calendar of the second marketplace, \<^verbatim>\<open>internal/service/ozon_price_schedule.go\<close> with its statements in
  \<^verbatim>\<open>internal/repository/sqlc/ozon_schedules.sql.go\<close>: planned prices with an automatic return to an earlier price, the executor that
  applies and reverts them, the pause of a cabinet and its summary.
\<close>

definition ozonScheduleBatch :: nat where "ozonScheduleBatch = 200"

definition OzonScheduleStatusPending :: string where "OzonScheduleStatusPending = ''pending''"
definition OzonScheduleStatusApplied :: string where "OzonScheduleStatusApplied = ''applied''"
definition OzonScheduleStatusReverted :: string where "OzonScheduleStatusReverted = ''reverted''"
definition OzonScheduleStatusCancelled :: string where "OzonScheduleStatusCancelled = ''cancelled''"
definition OzonScheduleStatusFailed :: string where "OzonScheduleStatusFailed = ''failed''"

lemmas ozon_schedule_status_defs = OzonScheduleStatusPending_def OzonScheduleStatusApplied_def OzonScheduleStatusReverted_def
  OzonScheduleStatusCancelled_def OzonScheduleStatusFailed_def

record OzonPriceScheduleInput =
  in_SKU :: int
  in_ScheduledPriceRub :: f64
  in_RevertPriceRub :: "f64 option"
  in_StartsAt :: int
  in_EndsAt :: "int option"

section \<open>Statements\<close>

definition CreateOzonPriceScheduleEntry :: "OzonPriceScheduleEntry \<Rightarrow> rat option \<Rightarrow> int \<Rightarrow> uuid \<Rightarrow> price_db \<Rightarrow> price_db option" where
  "CreateOzonPriceScheduleEntry row price now newID db =
     (case price of None \<Rightarrow> None
      | Some p \<Rightarrow> Some (db\<lparr>xp_schedules := xp_schedules db @
          [row\<lparr>se_ID := newID, se_ScheduledPriceRub := p, se_Status := OzonScheduleStatusPending, se_Error := None, se_CreatedAt := now,
               se_AppliedAt := None, se_RevertedAt := None\<rparr>]\<rparr>))"

definition GetOzonPriceScheduleEntry :: "uuid \<Rightarrow> price_db \<Rightarrow> OzonPriceScheduleEntry option" where
  "GetOzonPriceScheduleEntry i db = find (\<lambda>e. se_ID e = i) (xp_schedules db)"

text \<open>No pending row with the id is the error \<^verbatim>\<open>ErrNoRows\<close>.\<close>

definition CancelOzonPriceScheduleEntry :: "uuid \<Rightarrow> price_db \<Rightarrow> bool \<times> price_db" where
  "CancelOzonPriceScheduleEntry i db =
     (list_ex (\<lambda>e. se_ID e = i \<and> se_Status e = OzonScheduleStatusPending) (xp_schedules db),
      db\<lparr>xp_schedules := map (\<lambda>e. if se_ID e = i \<and> se_Status e = OzonScheduleStatusPending
          then e\<lparr>se_Status := OzonScheduleStatusCancelled\<rparr> else e) (xp_schedules db)\<rparr>)"

definition MarkOzonPriceScheduleResult :: "uuid \<Rightarrow> string \<Rightarrow> string option \<Rightarrow> int \<Rightarrow> price_db \<Rightarrow> price_db" where
  "MarkOzonPriceScheduleResult i status err now db =
     db\<lparr>xp_schedules := map (\<lambda>e. if se_ID e = i
         then e\<lparr>se_Status := status, se_Error := err,
                se_AppliedAt := (if status = OzonScheduleStatusApplied then Some now else se_AppliedAt e),
                se_RevertedAt := (if status = OzonScheduleStatusReverted then Some now else se_RevertedAt e)\<rparr>
         else e) (xp_schedules db)\<rparr>"

text \<open>Entries with the same time are taken in the order of the table.\<close>

definition ListDueOzonPriceSchedules :: "int \<Rightarrow> price_db \<Rightarrow> OzonPriceScheduleEntry list" where
  "ListDueOzonPriceSchedules now db =
     take ozonScheduleBatch (sort_key se_StartsAt
       (filter (\<lambda>e. se_Status e = OzonScheduleStatusPending \<and> se_StartsAt e \<le> now) (xp_schedules db)))"

definition ListDueOzonPriceScheduleReverts :: "int \<Rightarrow> price_db \<Rightarrow> OzonPriceScheduleEntry list" where
  "ListDueOzonPriceScheduleReverts now db =
     take ozonScheduleBatch (sort_key (the \<circ> se_EndsAt)
       (filter (\<lambda>e. se_Status e = OzonScheduleStatusApplied \<and> some_and (\<lambda>t. t \<le> now) (se_EndsAt e) \<and> se_RevertPriceRub e \<noteq> None)
         (xp_schedules db)))"

definition CountOzonPriceScheduleEntriesByCabinet :: "uuid \<Rightarrow> string option \<Rightarrow> price_db \<Rightarrow> int" where
  "CountOzonPriceScheduleEntriesByCabinet cab status db =
     int (length (filter (\<lambda>e. se_SellerCabinetID e = cab \<and> (status = None \<or> status = Some (se_Status e))) (xp_schedules db)))"

definition ListOzonPriceScheduleEntriesByCabinet :: "uuid \<Rightarrow> string option \<Rightarrow> nat \<Rightarrow> nat \<Rightarrow> price_db \<Rightarrow> OzonPriceScheduleEntry list" where
  "ListOzonPriceScheduleEntriesByCabinet cab status limit offset db =
     take limit (drop offset (sort_key (\<lambda>e. - se_StartsAt e)
       (filter (\<lambda>e. se_SellerCabinetID e = cab \<and> (status = None \<or> status = Some (se_Status e))) (xp_schedules db))))"

definition CountPendingOzonPriceSchedulesByCabinet :: "uuid \<Rightarrow> price_db \<Rightarrow> int" where
  "CountPendingOzonPriceSchedulesByCabinet cab db =
     int (length (filter (\<lambda>e. se_SellerCabinetID e = cab \<and> se_Status e = OzonScheduleStatusPending) (xp_schedules db)))"

definition LastOzonStrategySweepAt :: "uuid \<Rightarrow> price_db \<Rightarrow> int option" where
  "LastOzonStrategySweepAt cab db =
     (case map xc_CreatedAt (filter (\<lambda>c. xc_SellerCabinetID c = cab \<and> xc_Source c = PriceSourceStrategy) (xp_changes db)) of
        [] \<Rightarrow> None | t # ts \<Rightarrow> Some (foldl max t ts))"

definition OzonPriceChanges24hSummary :: "uuid \<Rightarrow> int \<Rightarrow> price_db \<Rightarrow> int \<times> int \<times> int" where
  "OzonPriceChanges24hSummary cab now db =
     (let rows = filter (\<lambda>c. xc_SellerCabinetID c = cab \<and> xc_CreatedAt c > now - 24 * hour) (xp_changes db);
          count = (\<lambda>status. int (length (filter (\<lambda>c. xc_Status c = status) rows)))
      in (count OzonPriceStatusApplied, count OzonPriceStatusShadow, count OzonPriceStatusFailed))"

definition SetCabinetRepricerPause :: "uuid \<Rightarrow> int option \<Rightarrow> uuid \<Rightarrow> price_db \<Rightarrow> price_db" where
  "SetCabinetRepricerPause cab until ws db =
     db\<lparr>xp_cabinets := map (\<lambda>c. if cab_ID c = cab \<and> cab_WorkspaceID c = ws then c\<lparr>cab_RepricerPausedUntil := until\<rparr> else c) (xp_cabinets db)\<rparr>"

section \<open>The calendar\<close>

text \<open>The floor of a row without a target margin; zero when it cannot be computed.\<close>

definition plain_floor :: "ozon_price_row \<Rightarrow> OzonProductEconomic option \<Rightarrow> f64 \<times> string" where
  "plain_floor row econ =
     computeOzonFloor
       \<lparr>fi_NetPriceRub = ozonEffectiveNetPrice (pgNumericToFloat (ozp_NetPriceRub row)) econ,
        fi_CommissionFBOPct = pgNumericToFloat (ozp_CommissionFboPct row), fi_CommissionFBSPct = pgNumericToFloat (ozp_CommissionFbsPct row),
        fi_AcquiringRub = pgNumericToFloat (ozp_AcquiringPct row), fi_TargetMarginPercent = Fin 0, fi_CurrentPriceRub = Fin 0,
        fi_MaxDiscountPercent = Fin 0\<rparr>"

definition scheduleFloorFor :: "price_env \<Rightarrow> uuid \<Rightarrow> ozon_price_row \<Rightarrow> price_db \<Rightarrow> f64 \<times> price_db" where
  "scheduleFloorFor env cab row db =
     (case (if opr_OfferID row = None then (None, db) else loadCabinetEconomics env cab db) of
        (economics, db1) \<Rightarrow>
          (case plain_floor row (case economics of None \<Rightarrow> None | Some m \<Rightarrow> row_econ m row) of
             (fl, reason) \<Rightarrow> (if reason \<noteq> [] then Fin 0 else fl, db1)))"

definition schedule_input_error :: "OzonPriceScheduleInput \<Rightarrow> int \<Rightarrow> go_error" where
  "schedule_input_error inp now =
     (if in_SKU inp \<le> 0 then Some (validation_error ''sku must be positive'')
      else if in_ScheduledPriceRub inp \<le> Fin 0 then Some (validation_error ''scheduled_price_rub must be positive'')
      else if some_and (\<lambda>v. v \<le> Fin 0) (in_RevertPriceRub inp) then Some (validation_error ''revert_price_rub must be positive'')
      else if \<not> in_StartsAt inp > now then Some (validation_error ''starts_at must be in the future'')
      else if some_and (\<lambda>t. \<not> t > in_StartsAt inp) (in_EndsAt inp) then Some (validation_error ''ends_at must be after starts_at'')
      else None)"

definition rub_sign :: string where "rub_sign = map char_of [226, 130, 189 :: nat]"

definition floor_warning :: "f64 \<Rightarrow> f64 \<Rightarrow> string" where
  "floor_warning price fl =
     (if fl > Fin 0 \<and> price < fl
      then ''scheduled price '' @ fmt_f 2 price @ rub_sign @ '' is below the margin floor '' @ fmt_f 2 fl @ rub_sign else [])"

text \<open>The price that an entry with an end returns to: the given one or the current one.\<close>

definition revert_target :: "OzonPriceScheduleInput \<Rightarrow> ozon_price_row option \<Rightarrow> f64 option" where
  "revert_target inp mirror =
     (case mirror of
        Some row \<Rightarrow>
          if in_EndsAt inp \<noteq> None \<and> in_RevertPriceRub inp = None
          then (let current = pgNumericToFloat (ozp_PriceRub row) in if current > Fin 0 then Some current else None)
          else in_RevertPriceRub inp
      | None \<Rightarrow> in_RevertPriceRub inp)"

definition ozon_schedule_row :: "price_env \<Rightarrow> uuid \<Rightarrow> OzonPriceScheduleInput \<Rightarrow> ozon_price_row option \<Rightarrow> OzonPriceScheduleEntry" where
  "ozon_schedule_row env cab inp mirror =
     \<lparr>se_ID = 0, se_SellerCabinetID = cab, se_Sku = in_SKU inp, se_OfferID = (case mirror of None \<Rightarrow> None | Some r \<Rightarrow> opr_OfferID r),
      se_ScheduledPriceRub = 0, se_RevertPriceRub = floatPtrToPgNumeric env (revert_target inp mirror), se_StartsAt = in_StartsAt inp,
      se_EndsAt = in_EndsAt inp, se_Status = [], se_Error = None, se_CreatedAt = 0, se_AppliedAt = None, se_RevertedAt = None\<rparr>"

text \<open>The answer is the id of the new entry with the warning.\<close>

definition ozon_CreateSchedule :: "price_env \<Rightarrow> uuid \<Rightarrow> uuid \<Rightarrow> OzonPriceScheduleInput \<Rightarrow> price_db \<Rightarrow> (price_error + uuid \<times> string) \<times> price_db" where
  "ozon_CreateSchedule env ws cab inp db =
     (case schedule_input_error inp (xp_now env db) of
        Some e \<Rightarrow> (Inl (App e), db)
      | None \<Rightarrow>
        (case resolveCabinetReadOnly env ws cab db of
           (Inl e, db1) \<Rightarrow> (Inl e, db1)
         | (Inr cabinet, db1) \<Rightarrow>
           (case xp_read env (GetOzonProductPriceBySku cab (in_SKU inp)) db1 of
              (None, db2) \<Rightarrow> (Inl (Failed ''load product price mirror''), db2)
            | (Some mirror, db2) \<Rightarrow>
              (case (case mirror of None \<Rightarrow> (Fin 0, db2) | Some row \<Rightarrow> scheduleFloorFor env cab row db2) of
                 (fl, db3) \<Rightarrow>
                 if in_EndsAt inp \<noteq> None \<and> revert_target inp mirror = None
                 then (Inl (App (validation_error
                        ''revert_price_rub is required with ends_at when the product has no synced price to restore'')), db3)
                 else (case xp_exec env (CreateOzonPriceScheduleEntry (ozon_schedule_row env cab inp mirror) (xe_numeric env (in_ScheduledPriceRub inp))) db3 of
                         (None, db4) \<Rightarrow> (Inl (Failed ''create ozon price schedule''), db4)
                       | (Some newID, db4) \<Rightarrow> (Inr (newID, floor_warning (in_ScheduledPriceRub inp) fl), db4))))))"

definition ListSchedules ::
    "price_env \<Rightarrow> uuid \<Rightarrow> uuid \<Rightarrow> string \<Rightarrow> nat \<Rightarrow> nat \<Rightarrow> price_db \<Rightarrow> (price_error + OzonPriceScheduleEntry list \<times> int) \<times> price_db" where
  "ListSchedules env ws cab status limit offset db =
     (case resolveCabinetReadOnly env ws cab db of
        (Inl e, db1) \<Rightarrow> (Inl e, db1)
      | (Inr cabinet, db1) \<Rightarrow>
        (case xp_read env (CountOzonPriceScheduleEntriesByCabinet cab (ozon_textToPgtype status)) db1 of
           (None, db2) \<Rightarrow> (Inl (App (apperror_New ErrInternal ''failed to count ozon price schedules'')), db2)
         | (Some cnt, db2) \<Rightarrow>
           (case xp_read env (ListOzonPriceScheduleEntriesByCabinet cab (ozon_textToPgtype status) limit offset) db2 of
              (None, db3) \<Rightarrow> (Inl (App (apperror_New ErrInternal ''failed to list ozon price schedules'')), db3)
            | (Some rows, db3) \<Rightarrow> (Inr (rows, cnt), db3))))"

definition entry_missing :: price_error where
  "entry_missing = App (apperror_New ErrNotFound ''schedule entry not found'')"

definition only_pending :: price_error where
  "only_pending = App (validation_error ''only pending entries can be cancelled'')"

definition ozon_CancelSchedule :: "price_env \<Rightarrow> uuid \<Rightarrow> uuid \<Rightarrow> price_db \<Rightarrow> price_error option \<times> price_db" where
  "ozon_CancelSchedule env ws entryID db =
     (case xp_find env (GetOzonPriceScheduleEntry entryID) (Failed ''load schedule entry'') entry_missing db of
        (Inl e, db1) \<Rightarrow> (Some e, db1)
      | (Inr row, db1) \<Rightarrow>
        (case resolveCabinetReadOnly env ws (se_SellerCabinetID row) db1 of
           (Inl e, db2) \<Rightarrow> (Some entry_missing, db2)
         | (Inr cabinet, db2) \<Rightarrow>
           if se_Status row \<noteq> OzonScheduleStatusPending then (Some only_pending, db2)
           else if xe_fault env (xp_calls db2) then (Some (Failed ''cancel schedule entry''), xp_tick db2)
           else (case CancelOzonPriceScheduleEntry (se_ID row) db2 of
                   (found, db3) \<Rightarrow> (if found then None else Some only_pending, xp_tick db3))))"

section \<open>Execution\<close>

text \<open>The text of an error; a wrapped failure is named by its wrapping text.\<close>

fun error_text :: "price_error \<Rightarrow> string" where
  "error_text (App e) = Message e"
| "error_text (Failed s) = s"
| "error_text (MarketError s) = ''ozon import/prices: '' @ s"

definition resolveScheduleCabinet :: "price_env \<Rightarrow> uuid \<Rightarrow> price_db \<Rightarrow> (price_error + PriceCabinet) \<times> price_db" where
  "resolveScheduleCabinet env cab db =
     (case xp_find env (ozon_GetSellerCabinetByID cab) (Failed ''load seller cabinet'') cabinet_missing db of
        (Inl e, db1) \<Rightarrow> (Inl e, db1)
      | (Inr c, db1) \<Rightarrow>
        if cab_Marketplace c \<noteq> MarketplaceOzon then (Inl (App (validation_error ''seller cabinet is not an Ozon cabinet'')), db1)
        else case xe_decrypt env (cab_EncryptedCredentials c) of
            None \<Rightarrow> (Inl (Failed ''decrypt ozon credentials''), db1)
          | Some hasSellerAPI \<Rightarrow>
            if \<not> hasSellerAPI then (Inl (App (validation_error ''seller api credentials are missing for this cabinet'')), db1)
            else (Inr c, db1))"

definition mark_entry :: "price_env \<Rightarrow> uuid \<Rightarrow> string \<Rightarrow> string option \<Rightarrow> price_db \<Rightarrow> price_db" where
  "mark_entry env i status err db = snd (xp_exec env (\<lambda>now _ db. Some (MarkOzonPriceScheduleResult i status err now db)) db)"

definition failScheduleEntry :: "price_env \<Rightarrow> uuid \<Rightarrow> string \<Rightarrow> price_db \<Rightarrow> price_db" where
  "failScheduleEntry env i reason db =
     mark_entry env i OzonScheduleStatusFailed (ozon_textToPgtype (if length reason > 500 then take 500 reason else reason)) db"

definition schedule_change :: "OzonPriceScheduleEntry \<Rightarrow> ozon_price_row option \<Rightarrow> string \<Rightarrow> OzonPriceChange" where
  "schedule_change entry mirror reason =
     \<lparr>xc_ID = 0, xc_SellerCabinetID = se_SellerCabinetID entry, xc_Sku = se_Sku entry, xc_OfferID = se_OfferID entry,
      xc_OldPriceRub = (case mirror of None \<Rightarrow> None | Some r \<Rightarrow> ozp_PriceRub r), xc_NewPriceRub = 0, xc_OldOldPriceRub = None,
      xc_NewOldPriceRub = None, xc_MinPriceRub = None, xc_FloorRub = None, xc_Reason = ozon_textToPgtype reason, xc_Source = PriceSourceManual,
      xc_StrategyID = None, xc_Status = OzonPriceStatusPending, xc_Error = None, xc_CreatedAt = 0, xc_AppliedAt = None\<rparr>"

definition scheduled_price :: "OzonPriceScheduleEntry \<Rightarrow> bool \<Rightarrow> f64" where
  "scheduled_price entry revert = pgNumericToFloat (if revert then se_RevertPriceRub entry else Some (se_ScheduledPriceRub entry))"

text \<open>The end of a written entry: the change is read again and decides how the entry is marked.\<close>

definition finish_entry ::
    "price_env \<Rightarrow> OzonPriceScheduleEntry \<Rightarrow> bool \<Rightarrow> uuid \<Rightarrow> price_error option \<Rightarrow> price_db \<Rightarrow> (bool \<times> price_error option) \<times> price_db" where
  "finish_entry env entry revert changeID applyErr db =
     (case xp_find env (GetOzonPriceChangeByID changeID) (Failed []) (Failed []) db of
        (fresh, db1) \<Rightarrow>
        if (case fresh of Inl _ \<Rightarrow> True | Inr c \<Rightarrow> xc_Status c \<noteq> OzonPriceStatusApplied)
        then (let message = (case fresh of Inr c \<Rightarrow> (case xc_Error c of None \<Rightarrow> [] | Some m \<Rightarrow> m) | Inl _ \<Rightarrow> []);
                  text = (if message \<noteq> [] then message
                          else case applyErr of Some e \<Rightarrow> truncateError (error_text e) | None \<Rightarrow> ''ozon rejected the scheduled price write'')
              in ((False, None), failScheduleEntry env (se_ID entry) text db1))
        else ((True, None), mark_entry env (se_ID entry) (if revert then OzonScheduleStatusReverted else OzonScheduleStatusApplied) None db1))"

definition ozon_executeScheduleEntry ::
    "price_env \<Rightarrow> OzonPriceScheduleEntry \<Rightarrow> bool \<Rightarrow> int \<Rightarrow> price_db \<Rightarrow> (bool \<times> price_error option) \<times> price_db" where
  "ozon_executeScheduleEntry env entry revert now db =
     (case resolveScheduleCabinet env (se_SellerCabinetID entry) db of
        (Inl e, db1) \<Rightarrow> ((False, None), failScheduleEntry env (se_ID entry) (error_text e) db1)
      | (Inr cabinet, db1) \<Rightarrow>
        if some_and (\<lambda>until. until > now) (cab_RepricerPausedUntil cabinet) then ((False, None), db1)
        else if scheduled_price entry revert \<le> Fin 0
          then ((False, None), failScheduleEntry env (se_ID entry) ''schedule has no positive price to apply'' db1)
        else (case hourlyWriteGuard env (se_SellerCabinetID entry) (se_Sku entry) ozonHardHourlyWriteCap now db1 of
                (blocked, db2) \<Rightarrow>
                if blocked \<noteq> [] then ((False, None), db2)
                else (case mirror_row env (se_SellerCabinetID entry) (se_Sku entry) db2 of
                        (mirror, db3) \<Rightarrow>
                        (case xp_exec env (InsertOzonPriceChange
                                (schedule_change entry mirror (if revert then ''schedule revert'' else ''schedule''))
                                (xe_numeric env (scheduled_price entry revert))) db3 of
                           (None, db4) \<Rightarrow> ((False, Some (Failed ''record scheduled price change'')), db4)
                         | (Some newID, db4) \<Rightarrow>
                           (case applyIntents env (se_SellerCabinetID entry)
                                   [\<lparr>pi_ChangeID = newID, pi_SKU = se_Sku entry, pi_NewPriceRub = scheduled_price entry revert,
                                     pi_OldPriceRub = None, pi_MinPriceRub = None\<rparr>] db4 of
                              (applyErr, db5) \<Rightarrow> finish_entry env entry revert newID applyErr db5)))))"

fun execute_entries ::
    "price_env \<Rightarrow> bool \<Rightarrow> int \<Rightarrow> OzonPriceScheduleEntry list \<Rightarrow> price_db \<Rightarrow> (nat \<times> price_error list) \<times> price_db" where
  "execute_entries env revert now [] db = ((0, []), db)"
| "execute_entries env revert now (entry # entries) db =
     (case ozon_executeScheduleEntry env entry revert now db of
        ((applied, err), db1) \<Rightarrow>
        (case execute_entries env revert now entries db1 of
           ((n, errs), db2) \<Rightarrow>
             ((if applied then n + 1 else n, (case err of None \<Rightarrow> [] | Some e \<Rightarrow> [e]) @ errs), db2)))"

definition ozon_ExecuteDueSchedules :: "price_env \<Rightarrow> int \<Rightarrow> price_db \<Rightarrow> (nat \<times> price_error list) \<times> price_db" where
  "ozon_ExecuteDueSchedules env now db =
     (case xp_read env (ListDueOzonPriceSchedules now) db of
        (None, db1) \<Rightarrow> ((0, [Failed ''list due ozon schedules'']), db1)
      | (Some due, db1) \<Rightarrow>
        (case execute_entries env False now due db1 of
           ((n, errs), db2) \<Rightarrow>
           (case xp_read env (ListDueOzonPriceScheduleReverts now) db2 of
              (None, db3) \<Rightarrow> ((n, [Failed ''list due ozon schedule reverts'']), db3)
            | (Some reverts, db3) \<Rightarrow>
              (case execute_entries env True now reverts db3 of ((m, errs'), db4) \<Rightarrow> ((n + m, errs @ errs'), db4)))))"

section \<open>Pause and summary\<close>

definition SetPause :: "price_env \<Rightarrow> uuid \<Rightarrow> uuid \<Rightarrow> int \<Rightarrow> price_db \<Rightarrow> (price_error + int option) \<times> price_db" where
  "SetPause env ws cab hours db =
     (if hours < 0 \<or> hours > 24 * 30 then (Inl (App (validation_error ''hours must be between 0 and 720'')), db)
      else case resolveCabinetReadOnly env ws cab db of
          (Inl e, db1) \<Rightarrow> (Inl e, db1)
        | (Inr cabinet, db1) \<Rightarrow>
          (let until = (if hours > 0 then Some (xp_now env db1 + hours * hour) else None)
           in case xp_exec env (\<lambda>_ _ db. Some (SetCabinetRepricerPause cab until ws db)) db1 of
                (None, db2) \<Rightarrow> (Inl (Failed ''set repricer pause''), db2)
              | (Some _, db2) \<Rightarrow> (Inr until, db2)))"

record OzonRepricerHealth =
  hl_PausedUntil :: "int option"
  hl_LastSweepAt :: "int option"
  hl_PendingSchedules :: int
  hl_Applied :: int
  hl_Shadow :: int
  hl_Failed :: int
  hl_ProductsBelowFloor :: nat

definition below_floor :: "(string \<rightharpoonup> OzonProductEconomic) \<Rightarrow> ozon_price_row \<Rightarrow> bool" where
  "below_floor economics row \<longleftrightarrow>
     (let current = pgNumericToFloat (ozp_PriceRub row); (fl, reason) = plain_floor row (row_econ economics row)
      in \<not> current \<le> Fin 0 \<and> reason = [] \<and> fl > Fin 0 \<and> current < fl - lit (1/100))"

definition Health :: "price_env \<Rightarrow> uuid \<Rightarrow> uuid \<Rightarrow> price_db \<Rightarrow> (price_error + OzonRepricerHealth) \<times> price_db" where
  "Health env ws cab db =
     (case resolveCabinetReadOnly env ws cab db of
        (Inl e, db1) \<Rightarrow> (Inl e, db1)
      | (Inr (cabinet, _), db1) \<Rightarrow>
        (case xp_read env (LastOzonStrategySweepAt cab) db1 of
           (sweep, db2) \<Rightarrow>
           (case xp_read env (CountPendingOzonPriceSchedulesByCabinet cab) db2 of
              (pending, db3) \<Rightarrow>
              (case xp_read env (OzonPriceChanges24hSummary cab (xp_now env db3)) db3 of
                 (None, db4) \<Rightarrow> (Inl (Failed ''summarize ozon price changes''), db4)
               | (Some (applied, shadow, failed), db4) \<Rightarrow>
                 (case loadCabinetPrices env cab db4 of
                    (None, db5) \<Rightarrow> (Inl (Failed ''list cabinet prices''), db5)
                  | (Some prices, db5) \<Rightarrow>
                    (case loadCabinetEconomics env cab db5 of
                       (None, db6) \<Rightarrow> (Inl (Failed ''list cabinet economics''), db6)
                     | (Some economics, db6) \<Rightarrow>
                       (Inr \<lparr>hl_PausedUntil = (if some_and (\<lambda>t. t > xp_now env db1) (cab_RepricerPausedUntil cabinet)
                                then cab_RepricerPausedUntil cabinet else None),
                             hl_LastSweepAt = (case sweep of None \<Rightarrow> None | Some t \<Rightarrow> t),
                             hl_PendingSchedules = (case pending of None \<Rightarrow> 0 | Some n \<Rightarrow> n), hl_Applied = applied, hl_Shadow = shadow,
                             hl_Failed = failed, hl_ProductsBelowFloor = length (filter (below_floor economics) prices)\<rparr>, db6)))))))"

text \<open>The helpers that say when an entry is due.\<close>

definition ozonScheduleIsDue :: "string \<Rightarrow> int \<Rightarrow> int \<Rightarrow> bool" where
  "ozonScheduleIsDue status startsAt now \<longleftrightarrow> status = OzonScheduleStatusPending \<and> \<not> startsAt > now"

definition ozonScheduleNeedsRevert :: "string \<Rightarrow> int option \<Rightarrow> f64 option \<Rightarrow> int \<Rightarrow> bool" where
  "ozonScheduleNeedsRevert status endsAt revertPriceRub now \<longleftrightarrow>
     status = OzonScheduleStatusApplied \<and> some_and (\<lambda>t. \<not> t > now) endsAt \<and> some_and (\<lambda>v. v > Fin 0) revertPriceRub"

end
