(* ===== verification/Ozon_Writes.thy ===== *)
theory Ozon_Writes
  imports Ozon_Calendar
begin

text \<open>
  The writes of the second marketplace's repricer taken together: runs of the strategies, manual changes, rollbacks and the price
  calendar share the table of changes. However they follow one another, a product has at most ten writes in any hour.
\<close>

section \<open>Writes of an hour\<close>

text \<open>
  \<open>writes_in\<close> counts the changes of a product that were sent or may still be sent, created in the hour up to \<open>a\<close>.
  \<open>good\<close>: no hour has more than the hard cap, no row is newer than the clock and every id comes from the past.
\<close>

definition writes_in :: "uuid \<Rightarrow> int \<Rightarrow> int \<Rightarrow> OzonPriceChange list \<Rightarrow> int" where
  "writes_in cab sku a changes =
     int (length (filter (\<lambda>c. write_row cab sku c \<and> a - hour \<le> xc_CreatedAt c \<and> xc_CreatedAt c \<le> a) changes))"

definition good_writes :: "price_env \<Rightarrow> price_db \<Rightarrow> bool" where
  "good_writes env db \<longleftrightarrow>
     (\<forall>cab sku a. writes_in cab sku a (xp_changes db) \<le> ozonHardHourlyWriteCap) \<and>
     (\<forall>c \<in> set (xp_changes db). \<exists>n < xp_calls db. xc_ID c = xe_uuid env n \<and> xc_CreatedAt c \<le> xe_now env n) \<and>
     distinct (map xc_ID (xp_changes db))"

definition held :: "price_db \<Rightarrow> uuid \<Rightarrow> bool" where
  "held db i \<longleftrightarrow> (\<forall>c \<in> set (xp_changes db). xc_ID c = i \<longrightarrow>
     xc_Status c \<in> {OzonPriceStatusPending, OzonPriceStatusApplied, OzonPriceStatusRolledBack})"

definition live_price_env :: "price_env \<Rightarrow> bool" where
  "live_price_env env \<longleftrightarrow> mono (xe_now env) \<and> inj (xe_uuid env)"

text \<open>
  \<open>ext env I\<close> relates the states around a part of an operation that may settle the changes in \<open>I\<close>: it keeps \<open>good_writes\<close> and
  leaves the other changes alone.
\<close>

definition ext :: "price_env \<Rightarrow> uuid set \<Rightarrow> price_db \<Rightarrow> price_db \<Rightarrow> bool" where
  "ext env I db db' \<longleftrightarrow> xp_calls db \<le> xp_calls db' \<and> (good_writes env db \<longrightarrow> good_writes env db') \<and>
     (\<forall>c \<in> set (xp_changes db'). xc_ID c \<notin> I \<and> (\<exists>n < xp_calls db. xc_ID c = xe_uuid env n) \<longrightarrow> c \<in> set (xp_changes db))"

lemma ext_refl [simp]: "ext env I db db"
  by (simp add: ext_def)

lemma ext_trans:
  assumes "ext env I a b" "ext env J b c" shows "ext env (I \<union> J) a c"
  unfolding ext_def
proof (intro conjI ballI impI)
  show "xp_calls a \<le> xp_calls c" using assms by (auto simp: ext_def)
  show "good_writes env a \<Longrightarrow> good_writes env c" using assms by (simp add: ext_def)
  fix x assume x: "x \<in> set (xp_changes c)" and n: "xc_ID x \<notin> I \<union> J \<and> (\<exists>n < xp_calls a. xc_ID x = xe_uuid env n)"
  have "xp_calls a \<le> xp_calls b" using assms(1) by (simp add: ext_def)
  then have "\<exists>n < xp_calls b. xc_ID x = xe_uuid env n" using n less_le_trans by blast
  then have "x \<in> set (xp_changes b)" using assms(2) x n by (simp add: ext_def)
  then show "x \<in> set (xp_changes a)" using assms(1) n by (simp add: ext_def)
qed

lemma ext_mono: "ext env I a b \<Longrightarrow> I \<subseteq> J \<Longrightarrow> ext env J a b"
  by (auto simp: ext_def)

lemma ext_seq: "ext env I a b \<Longrightarrow> ext env I b c \<Longrightarrow> ext env I a c"
  using ext_trans [of env I a b I c] by simp

lemma ext_held:
  "ext env I db db' \<Longrightarrow> held db i \<Longrightarrow> i \<notin> I \<Longrightarrow> \<exists>n < xp_calls db. i = xe_uuid env n \<Longrightarrow> held db' i"
  unfolding held_def ext_def by blast

lemma good_more_calls: "good_writes env db \<Longrightarrow> xp_changes db' = xp_changes db \<Longrightarrow> xp_calls db \<le> xp_calls db' \<Longrightarrow> good_writes env db'"
  unfolding good_writes_def using less_le_trans by fastforce

lemma ext_same: "xp_changes db' = xp_changes db \<Longrightarrow> xp_calls db \<le> xp_calls db' \<Longrightarrow> ext env I db db'"
  using good_more_calls by (simp add: ext_def)

lemma xp_tick_simps [simp]: "xp_changes (xp_tick db) = xp_changes db" "xp_calls (xp_tick db) = Suc (xp_calls db)"
  "xp_sent (xp_tick db) = xp_sent db" "xp_prices (xp_tick db) = xp_prices db" "xp_cabinets (xp_tick db) = xp_cabinets db"
  "xp_economics (xp_tick db) = xp_economics db" "xp_schedules (xp_tick db) = xp_schedules db"
  by (simp_all add: xp_tick_def)

lemma xp_read_eq: "xp_read env q db = (x, db') \<Longrightarrow> db' = xp_tick db"
  by (simp add: xp_read_def)

lemma ext_tick [simp]: "ext env I db (xp_tick db)"
  by (rule ext_same) simp_all

text \<open>Inserting: a change that is not sent, or one that the hourly guard has let pass.\<close>

lemma writes_in_append:
  "writes_in cab sku a (cs @ [c]) = writes_in cab sku a cs + (if write_row cab sku c \<and> a - hour \<le> xc_CreatedAt c \<and> xc_CreatedAt c \<le> a then 1 else 0)"
  by (simp add: writes_in_def)

definition may_insert :: "price_db \<Rightarrow> OzonPriceChange \<Rightarrow> int \<Rightarrow> bool" where
  "may_insert db row t \<longleftrightarrow>
     (\<forall>cab sku. write_row cab sku row \<longrightarrow> (\<exists>now \<le> t. CountOzonPriceWritesBySkuSince cab sku (now - hour) db < ozonHardHourlyWriteCap))"

lemma window_le_since:
  assumes "since \<le> a - hour" shows "writes_in cab sku a (xp_changes db) \<le> CountOzonPriceWritesBySkuSince cab sku since db"
proof -
  have "length (filter (\<lambda>c. write_row cab sku c \<and> a - hour \<le> xc_CreatedAt c \<and> xc_CreatedAt c \<le> a) cs)
      \<le> length (filter (\<lambda>c. write_row cab sku c \<and> xc_CreatedAt c \<ge> since) cs)" for cs
    using assms by (induction cs) auto
  then show ?thesis by (simp add: writes_in_def CountOzonPriceWritesBySkuSince_def)
qed

lemma insert_good:
  assumes env: "live_price_env env" and good: "good_writes env db" and ok: "may_insert db row (xp_now env db)"
    and ins: "InsertOzonPriceChange row new (xp_now env db) (xe_uuid env (xp_calls db)) db = Some db'"
  shows "good_writes env (xp_tick db')"
proof -
  obtain p where "new = Some p" using ins by (cases new) (auto simp: InsertOzonPriceChange_def)
  define c where "c = row\<lparr>xc_ID := xe_uuid env (xp_calls db), xc_NewPriceRub := p, xc_Error := None, xc_CreatedAt := xp_now env db, xc_AppliedAt := None\<rparr>"
  have db': "xp_changes db' = xp_changes db @ [c]" "xp_calls db' = xp_calls db"
    using ins \<open>new = Some p\<close> by (auto simp: InsertOzonPriceChange_def c_def)
  have "writes_in cab sku a (xp_changes db @ [c]) \<le> ozonHardHourlyWriteCap" for cab sku a
  proof (cases "write_row cab sku c \<and> a - hour \<le> xc_CreatedAt c \<and> xc_CreatedAt c \<le> a")
    case True
    have "write_row cab sku row" using True by (simp add: write_row_def c_def)
    then obtain now where now: "now \<le> xp_now env db" "CountOzonPriceWritesBySkuSince cab sku (now - hour) db < ozonHardHourlyWriteCap"
      using ok by (auto simp: may_insert_def)
    have "now - hour \<le> a - hour" using True now(1) by (simp add: c_def)
    then show ?thesis using window_le_since [of "now - hour" a cab sku db] now(2) by (simp add: writes_in_append)
  next
    case False
    then show ?thesis using good by (auto simp: writes_in_append good_writes_def)
  qed
  moreover have "\<exists>n < Suc (xp_calls db). xc_ID x = xe_uuid env n \<and> xc_CreatedAt x \<le> xe_now env n" if "x \<in> set (xp_changes db @ [c])" for x
  proof (cases "x = c")
    case True
    then show ?thesis by (intro exI [where x = "xp_calls db"]) (simp add: c_def xp_now_def)
  next
    case False
    then have "x \<in> set (xp_changes db)" using that by simp
    then show ?thesis using good unfolding good_writes_def by (meson less_SucI)
  qed
  moreover have "distinct (map xc_ID (xp_changes db @ [c]))"
  proof -
    have "xc_ID c \<noteq> xc_ID x" if "x \<in> set (xp_changes db)" for x
      using good env that by (fastforce simp: good_writes_def live_price_env_def inj_eq c_def)
    then show ?thesis using good by (auto simp: good_writes_def)
  qed
  ultimately show ?thesis by (simp add: good_writes_def db')
qed

lemma ext_insert:
  assumes "live_price_env env" "may_insert db row (xp_now env db)" "xp_exec env (InsertOzonPriceChange row new) db = (r, db')"
  shows "ext env I db db'"
proof (cases "r = None")
  case True
  then have "db' = xp_tick db" using assms(3) by (auto simp: xp_exec_def Let_def split: if_splits option.splits)
  then show ?thesis by simp
next
  case False
  then obtain db1 where db1: "InsertOzonPriceChange row new (xp_now env db) (xe_uuid env (xp_calls db)) db = Some db1" "db' = xp_tick db1"
    using assms(3) by (auto simp: xp_exec_def Let_def xp_now_def split: if_splits option.splits)
  then have e: "xp_calls db1 = xp_calls db" "\<exists>c. xp_changes db1 = xp_changes db @ [c] \<and> xc_ID c = xe_uuid env (xp_calls db)"
    by (auto simp: InsertOzonPriceChange_def split: option.splits)
  have "inj (xe_uuid env)" using assms(1) by (simp add: live_price_env_def)
  then show ?thesis using e insert_good [OF assms(1) _ assms(2) db1(1)] by (auto simp: ext_def db1(2) inj_eq)
qed

text \<open>Settling: only a change that may be sent gets a status that counts.\<close>

lemma ext_mark:
  assumes "status \<notin> {OzonPriceStatusPending, OzonPriceStatusApplied, OzonPriceStatusRolledBack} \<or> held db i"
    and "xp_exec env (\<lambda>now _ db. Some (MarkOzonPriceChangeResult i status err now db)) db = (r, db')"
  shows "ext env {i} db db'"
proof (cases "xe_fault env (xp_calls db)")
  case True
  then have "db' = xp_tick db" using assms(2) by (auto simp: xp_exec_def Let_def)
  then show ?thesis by simp
next
  case False
  define f where "f now c = (if xc_ID c = i
         then c\<lparr>xc_Status := status, xc_Error := err, xc_AppliedAt := (if status = OzonPriceStatusApplied then Some now else xc_AppliedAt c)\<rparr>
         else c)" for now and c :: OzonPriceChange
  have db': "xp_changes db' = map (f (xp_now env db)) (xp_changes db)" "xp_calls db' = Suc (xp_calls db)"
    using assms(2) False by (auto simp: xp_exec_def Let_def MarkOzonPriceChangeResult_def f_def xp_now_def)
  have f: "xc_ID (f now c) = xc_ID c" "xc_CreatedAt (f now c) = xc_CreatedAt c" "xc_ID c \<noteq> i \<Longrightarrow> f now c = c" for now c by (simp_all add: f_def)
  have w: "write_row cab sku (f now c) \<Longrightarrow> write_row cab sku c" if "c \<in> set (xp_changes db)" for cab sku now c
    using assms(1) that by (auto simp: f_def write_row_def held_def split: if_splits)
  have "writes_in cab sku a (map (f now) (xp_changes db)) \<le> writes_in cab sku a (xp_changes db)" for cab sku a now
  proof -
    have "length (filter (\<lambda>c. write_row cab sku c \<and> a - hour \<le> xc_CreatedAt c \<and> xc_CreatedAt c \<le> a) (map (f now) cs))
        \<le> length (filter (\<lambda>c. write_row cab sku c \<and> a - hour \<le> xc_CreatedAt c \<and> xc_CreatedAt c \<le> a) cs)"
      if "set cs \<subseteq> set (xp_changes db)" for cs
      using that w by (induction cs) (auto simp: f(2))
    then show ?thesis by (simp add: writes_in_def)
  qed
  note le = this
  have "good_writes env db'" if good: "good_writes env db"
  proof -
    have "writes_in cab sku a (xp_changes db') \<le> ozonHardHourlyWriteCap" for cab sku a
      unfolding db' by (rule order_trans [OF le]) (use good in \<open>simp add: good_writes_def\<close>)
    moreover have "\<exists>n < Suc (xp_calls db). xc_ID c = xe_uuid env n \<and> xc_CreatedAt (f now c) \<le> xe_now env n" if "c \<in> set (xp_changes db)" for now c
    proof -
      obtain n where "n < xp_calls db" "xc_ID c = xe_uuid env n" "xc_CreatedAt c \<le> xe_now env n"
        using good \<open>c \<in> set (xp_changes db)\<close> unfolding good_writes_def by blast
      then show ?thesis by (intro exI [where x = n]) (simp add: f)
    qed
    moreover have "xc_ID \<circ> f now = xc_ID" for now by (auto simp: f(1))
    ultimately show ?thesis using good by (simp add: good_writes_def db' f(1))
  qed
  moreover have "c \<in> set (xp_changes db)" if "c \<in> set (xp_changes db')" "xc_ID c \<noteq> i" for c
    using that f unfolding db' by auto
  ultimately show ?thesis by (simp add: ext_def db')
qed


subsection \<open>Operations\<close>

lemma exec_other:
  assumes "xp_exec env f db = (r, db')" "\<And>now i db d. f now i db = Some d \<Longrightarrow> xp_changes d = xp_changes db \<and> xp_calls d = xp_calls db"
  shows "xp_changes db' = xp_changes db" "xp_calls db' = Suc (xp_calls db)"
  using assms by (auto simp: xp_exec_def Let_def split: if_splits option.splits)

lemma ext_settle:
  assumes "held db (pi_ChangeID i)"
  shows "ext env {pi_ChangeID i} db (settle_intent env cab outcome err i db)"
proof -
  obtain status e where st: "intent_status outcome err i = (status, e)" by (cases "intent_status outcome err i") blast
  obtain r db1 where m: "xp_exec env (\<lambda>now _ db. Some (MarkOzonPriceChangeResult (pi_ChangeID i) status e now db)) db = (r, db1)"
    by (cases "xp_exec env (\<lambda>now _ db. Some (MarkOzonPriceChangeResult (pi_ChangeID i) status e now db)) db") blast
  have 1: "ext env {pi_ChangeID i} db db1" using ext_mark [OF _ m] assms by blast
  obtain r' db2 where u: "xp_exec env (\<lambda>_ _ db. Some (UpdateOzonProductPriceMirror cab (pi_SKU i) (xe_numeric env (pi_NewPriceRub i))
      (floatPtrToPgNumeric env (pi_OldPriceRub i)) (floatPtrToPgNumeric env (pi_MinPriceRub i)) db)) db1 = (r', db2)"
    by (cases "xp_exec env (\<lambda>_ _ db. Some (UpdateOzonProductPriceMirror cab (pi_SKU i) (xe_numeric env (pi_NewPriceRub i))
      (floatPtrToPgNumeric env (pi_OldPriceRub i)) (floatPtrToPgNumeric env (pi_MinPriceRub i)) db)) db1") blast
  have 2: "ext env {pi_ChangeID i} db1 db2"
    using exec_other [OF u] by (intro ext_same) (auto simp: UpdateOzonProductPriceMirror_def)
  show ?thesis using 1 ext_seq [OF 1 2] by (simp add: settle_intent_def st m u)
qed

definition ready :: "price_env \<Rightarrow> ozonPriceIntent list \<Rightarrow> price_db \<Rightarrow> bool" where
  "ready env is db \<longleftrightarrow> distinct (map pi_ChangeID is) \<and>
     (\<forall>i \<in> set is. held db (pi_ChangeID i) \<and> (\<exists>n < xp_calls db. pi_ChangeID i = xe_uuid env n))"

lemma ready_ext:
  assumes "ready env is db" "ext env I db db'" "pi_ChangeID ` set is \<inter> I = {}"
  shows "ready env is db'"
proof -
  have le: "xp_calls db \<le> xp_calls db'" using assms(2) by (simp add: ext_def)
  have "held db' (pi_ChangeID i) \<and> (\<exists>n < xp_calls db'. pi_ChangeID i = xe_uuid env n)" if "i \<in> set is" for i
  proof -
    have h: "held db (pi_ChangeID i)" "\<exists>n < xp_calls db. pi_ChangeID i = xe_uuid env n" "pi_ChangeID i \<notin> I"
      using assms(1,3) that by (auto simp: ready_def)
    then show ?thesis using ext_held [OF assms(2) h(1,3,2)] less_le_trans [OF _ le] by blast
  qed
  then show ?thesis using assms(1) by (simp add: ready_def)
qed

lemma ext_settle_all:
  "ready env is db \<Longrightarrow> ext env (pi_ChangeID ` set is) db (foldl (\<lambda>db i. settle_intent env cab outcome err i db) db is)"
proof (induction "is" arbitrary: db)
  case (Cons i "is")
  let ?db = "settle_intent env cab outcome err i db"
  have 1: "ext env {pi_ChangeID i} db ?db" using Cons.prems by (intro ext_settle) (simp add: ready_def)
  have "ready env is ?db" using Cons.prems by (intro ready_ext [OF _ 1]) (auto simp: ready_def)
  from ext_trans [OF 1 Cons.IH [OF this]] show ?case by simp
qed simp

lemma ext_apply:
  assumes "ready env is db" "applyIntents env cab is db = (r, db')"
  shows "ext env (pi_ChangeID ` set is) db db'"
proof -
  obtain results err db1 where s: "send_updates env cab (map intent_update is) db = ((results, err), db1)"
    by (metis prod.exhaust)
  then have 1: "ext env {} db db1" by (auto simp: send_updates_def intro!: ext_same)
  have "ready env is db1" using ready_ext [OF assms(1) 1] by simp
  from ext_trans [OF 1 ext_settle_all [OF this]] show ?thesis using assms(2) by (auto simp: applyIntents_def s)
qed

lemma ext_pages: "ext env {} db (snd (load_pages env rest out db))"
proof (induction env rest out db rule: load_pages.induct)
  case (1 env rest out db)
  obtain r db1 where r: "xp_read env (\<lambda>_. take ozonRepricerPageSize rest) db = (r, db1)" by (metis prod.exhaust)
  have e: "ext env {} db db1" using xp_read_eq [OF r] by simp
  show ?case
  proof (cases r)
    case None
    then show ?thesis using e by (simp add: load_pages.simps r)
  next
    case (Some rows)
    then show ?thesis using e 1 [OF r [symmetric] Some] ext_seq [OF e] by (simp add: load_pages.simps [of env rest] r)
  qed
qed

lemma ext_read: "xp_read env q db = (x, db') \<Longrightarrow> ext env {} db db'"
  by (auto simp: xp_read_def split: if_splits)

lemma ext_find: "xp_find env q a b db = (x, db') \<Longrightarrow> ext env {} db db'"
  by (auto simp: xp_find_def xp_read_def split: if_splits option.splits)

lemma ext_resolve: "resolveCabinet env ws cab db = (x, db') \<Longrightarrow> ext env {} db db'"
  by (auto simp: resolveCabinet_def resolveCabinetReadOnly_def ext_find split: prod.splits sum.splits option.splits if_splits)

subsection \<open>The run\<close>

text \<open>A guard that lets a write pass has counted fewer writes than its budget.\<close>

lemma hourly_guard_open:
  assumes "hourlyWriteGuard env cab sku budget now db = ([], db')"
  shows "db' = xp_tick db" "CountOzonPriceWritesBySkuSince cab sku (now - hour) db' < budget"
  using assms by (auto simp: hourlyWriteGuard_def xp_read_def ozonHourlyGuardReason_def CountOzonPriceWritesBySkuSince_def split: if_splits)

lemma hourly_guard_tick: "hourlyWriteGuard env cab sku budget now db = (r, db') \<Longrightarrow> db' = xp_tick db"
  by (auto simp: hourlyWriteGuard_def xp_read_def split: if_splits)

lemma strategy_guard_tick: "strategyGuard env cab sku blocks since db = (r, db') \<Longrightarrow> db' = xp_tick db"
  by (auto simp: strategyGuard_def xp_read_def split: if_splits)

lemma guard_may_insert:
  assumes "hourlyWriteGuard env cab sku budget now db = ([], db')" "budget \<le> ozonHardHourlyWriteCap" "now \<le> t"
    and "xc_SellerCabinetID row = cab" "xc_Sku row = sku"
  shows "may_insert db' row t"
  using hourly_guard_open(2) [OF assms(1)] assms by (auto simp: may_insert_def write_row_def intro!: exI [where x = now])

lemma not_write_may_insert: "xc_Status row \<notin> {OzonPriceStatusPending, OzonPriceStatusApplied, OzonPriceStatusRolledBack} \<Longrightarrow> may_insert db row t"
  by (simp add: may_insert_def write_row_def)

lemma evaluate_tick:
  assumes "ozon_evaluateProduct env cab s params row economics aux now db = (d, db')"
  shows "xp_changes db' = xp_changes db \<and> xp_calls db \<le> xp_calls db' \<and> xp_sent db' = xp_sent db"
  using assms
  by (auto simp: ozon_evaluateProduct_def strategyGuard_def hourlyWriteGuard_def xp_read_def split: option.splits if_splits prod.splits bool.splits)

lemma evaluate_guarded:
  assumes "ozon_evaluateProduct env cab s params row economics aux now db = (Some d, db')"
  shows "\<exists>db3. hourlyWriteGuard env cab (ozp_Sku row) ozonStrategyHourlyWriteCap now db3 = ([], db')"
  using assms by (auto simp: ozon_evaluateProduct_def split: option.splits if_splits prod.splits bool.splits)

text \<open>What the loops keep: the sent rows stay good, and the recorded changes are ready to be sent.\<close>

definition sound :: "price_env \<Rightarrow> int \<Rightarrow> ozonPriceIntent list \<Rightarrow> price_db \<Rightarrow> bool" where
  "sound env now is db \<longleftrightarrow> good_writes env db \<and> ready env is db \<and> now \<le> xp_now env db"

lemma sound_ext:
  assumes "live_price_env env" "sound env now is db" "ext env {} db db'" shows "sound env now is db'"
proof -
  have "xp_now env db \<le> xp_now env db'" using assms(1,3) by (simp add: live_price_env_def ext_def xp_now_def monoD)
  then show ?thesis using assms ready_ext [of env "is" db "{}" db'] by (simp add: sound_def ext_def)
qed

lemma exec_insert_cases:
  assumes "xp_exec env (InsertOzonPriceChange row new) db = (r, db')"
  obtains "r = None" "xp_changes db' = xp_changes db" "xp_calls db' = Suc (xp_calls db)"
  | c where "r = Some (xc_ID c)" "xp_changes db' = xp_changes db @ [c]" "xp_calls db' = Suc (xp_calls db)" "xc_ID c = xe_uuid env (xp_calls db)"
      "xc_Status c = xc_Status row" "new = Some (xc_NewPriceRub c)" "xc_CreatedAt c = xp_now env db"
proof (cases "xe_fault env (xp_calls db) \<or> new = None")
  case True
  then show ?thesis using assms that(1) by (auto simp: xp_exec_def Let_def InsertOzonPriceChange_def split: if_splits)
next
  case False
  then obtain p where p: "new = Some p" by auto
  show ?thesis
    using assms False p
    by (intro that(2) [where c = "row\<lparr>xc_ID := xe_uuid env (xp_calls db), xc_NewPriceRub := p, xc_Error := None,
          xc_CreatedAt := xp_now env db, xc_AppliedAt := None\<rparr>"])
      (auto simp: xp_exec_def Let_def InsertOzonPriceChange_def xp_now_def)
qed

lemma sound_insert:
  assumes "live_price_env env" "sound env now is db" "may_insert db row (xp_now env db)"
    and ins: "xp_exec env (InsertOzonPriceChange row new) db = (Some newID, db')"
    and st: "xc_Status row = OzonPriceStatusPending" and i: "pi_ChangeID i = newID"
  shows "sound env now (is @ [i]) db'"
proof -
  have e: "ext env {} db db'" by (rule ext_insert [OF assms(1,3) ins])
  have s: "sound env now is db'" by (rule sound_ext [OF assms(1,2) e])
  obtain c where c: "newID = xc_ID c" "xp_changes db' = xp_changes db @ [c]" "xp_calls db' = Suc (xp_calls db)"
    "xc_ID c = xe_uuid env (xp_calls db)" "xc_Status c = OzonPriceStatusPending"
    using ins st by (auto elim: exec_insert_cases)
  have inj: "xe_uuid env n = xe_uuid env m \<longleftrightarrow> n = m" for n m using assms(1) by (simp add: live_price_env_def inj_eq)
  have old: "\<exists>n < xp_calls db. xc_ID x = xe_uuid env n" if "x \<in> set (xp_changes db)" for x
    using assms(2) that by (auto simp: sound_def good_writes_def)
  have "held db' newID" using old inj by (fastforce simp: held_def c)
  moreover have "\<exists>n < xp_calls db'. newID = xe_uuid env n" by (auto simp: c)
  moreover have "newID \<notin> pi_ChangeID ` set is" using assms(2) inj by (fastforce simp: sound_def ready_def c)
  ultimately show ?thesis using s i by (auto simp: sound_def ready_def)
qed

lemma run_rows_sound:
  assumes "live_price_env env" "run_rows env cab s economics aux now rows acc db = (e, acc', db')" "sound env now (ra_intents acc) db"
  shows "sound env now (ra_intents acc') db'"
  using assms(2,3)
proof (induction rows arbitrary: acc db)
  case (Cons row rows)
  define params where "params = MergedPriceParams (st_Params s)"
  show ?case
  proof (cases "ozp_Sku row \<in> ra_decided acc")
    case True
    then show ?thesis using Cons by simp
  next
    case False
    obtain d db1 where ev: "ozon_evaluateProduct env cab s params row economics aux now db = (d, db1)" by fastforce
    have s1: "sound env now (ra_intents acc) db1"
      using evaluate_tick [OF ev] by (intro sound_ext [OF assms(1) Cons.prems(2)] ext_same) simp_all
    show ?thesis
    proof (cases d)
      case None
      then show ?thesis using Cons False ev s1 by (simp add: params_def [symmetric])
    next
      case (Some dec)
      let ?c = "strategy_change env cab s params row dec"
      obtain db0 where "hourlyWriteGuard env cab (ozp_Sku row) ozonStrategyHourlyWriteCap now db0 = ([], db1)"
        using evaluate_guarded ev Some by blast
      then have may: "may_insert db1 ?c (xp_now env db1)"
        by (rule guard_may_insert)
          (use s1 in \<open>simp_all add: strategy_change_def sound_def ozonStrategyHourlyWriteCap_def ozonHardHourlyWriteCap_def\<close>)
      obtain r db2 where ins: "xp_exec env (InsertOzonPriceChange ?c (xe_numeric env (od_NewPriceRub dec))) db1 = (r, db2)" by fastforce
      have s2: "sound env now (ra_intents acc) db2" by (rule sound_ext [OF assms(1) s1 ext_insert [OF assms(1) may ins]])
      show ?thesis
      proof (cases r)
        case None
        then show ?thesis using Cons.prems(1) False ev Some ins s2 by (auto simp: params_def [symmetric])
      next
        case (Some newID)
        define acc2 where "acc2 = \<lparr>ra_decided = insert (ozp_Sku row) (ra_decided acc), ra_written = ra_written acc + 1,
          ra_intents = ra_intents acc @ (if is_auto_mode params
            then [\<lparr>pi_ChangeID = newID, pi_SKU = ozp_Sku row, pi_NewPriceRub = od_NewPriceRub dec, pi_OldPriceRub = None, pi_MinPriceRub = None\<rparr>]
            else [])\<rparr>"
        have "run_rows env cab s economics aux now rows acc2 db2 = (e, acc', db')"
          using Cons.prems(1) False ev \<open>d = Some dec\<close> ins Some by (simp add: params_def [symmetric] acc2_def)
        moreover have "sound env now (ra_intents acc2) db2"
          using sound_insert [OF assms(1) s1 may ins [unfolded Some]] s2 by (auto simp: acc2_def strategy_change_def)
        ultimately show ?thesis by (rule Cons.IH)
      qed
    qed
  qed
qed simp

lemma run_strategies_sound:
  assumes "live_price_env env" "run_cabinet_strategies env cab economics aux now prices ss acc db = (e, acc', db')" "sound env now (ra_intents acc) db"
  shows "sound env now (ra_intents acc') db'"
  using assms(2,3)
proof (induction ss arbitrary: acc db)
  case (Cons s ss)
  obtain e1 acc1 db1 where r: "run_rows env cab s economics aux now prices acc db = (e1, acc1, db1)" by (metis prod.exhaust)
  have "sound env now (ra_intents acc1) db1" by (rule run_rows_sound [OF assms(1) r Cons.prems(2)])
  then show ?case using Cons r by (cases e1) auto
qed simp

text \<open>Loading data leaves the changes alone.\<close>

definition calm :: "price_db \<Rightarrow> price_db \<Rightarrow> bool" where
  "calm db db' \<longleftrightarrow> xp_changes db' = xp_changes db \<and> xp_sent db' = xp_sent db \<and> xp_calls db \<le> xp_calls db' \<and>
     xp_prices db' = xp_prices db \<and> xp_economics db' = xp_economics db"

lemma calm_refl [simp]: "calm db db" and calm_tick [simp]: "calm db (xp_tick db)"
  by (simp_all add: calm_def)

lemma calm_trans: "calm a b \<Longrightarrow> calm b c \<Longrightarrow> calm a c"
  by (simp add: calm_def)

lemma calm_ext: "calm db db' \<Longrightarrow> ext env I db db'"
  by (simp add: calm_def ext_same)

lemma calm_price_read: "xp_read env q db = (x, db') \<Longrightarrow> calm db db'"
  using xp_read_eq [of env q db x db'] by simp

lemma calm_find: "xp_find env q a b db = (x, db') \<Longrightarrow> calm db db'"
  by (auto simp: xp_find_def xp_read_def split: if_splits option.splits)

lemma calm_resolve: "resolveCabinet env ws cab db = (x, db') \<Longrightarrow> calm db db'"
  by (auto simp: resolveCabinet_def resolveCabinetReadOnly_def calm_find split: prod.splits sum.splits option.splits if_splits)

lemma calm_pages: "load_pages env rest out db = (x, db') \<Longrightarrow> calm db db'"
proof (induction env rest out db rule: load_pages.induct)
  case (1 env rest out db)
  obtain r db1 where r: "xp_read env (\<lambda>_. take ozonRepricerPageSize rest) db = (r, db1)" by (metis prod.exhaust)
  have e: "calm db db1" by (rule calm_price_read [OF r])
  show ?case
  proof (cases r)
    case None
    then show ?thesis using e 1(2) by (simp add: load_pages.simps [of env rest] r)
  next
    case (Some rows)
    then show ?thesis using e 1(1) [OF r [symmetric] Some] 1(2) calm_trans [OF e] by (auto simp: load_pages.simps [of env rest] r split: if_splits)
  qed
qed

lemma calm_prices: "loadCabinetPrices env cab db = (x, db') \<Longrightarrow> calm db db'"
  by (auto simp: loadCabinetPrices_def dest: calm_pages)

lemma calm_economics: "loadCabinetEconomics env cab db = (x, db') \<Longrightarrow> calm db db'"
  by (auto simp: loadCabinetEconomics_def dest: calm_price_read split: prod.splits option.splits)

lemma calm_loads:
  "load_inventory env cab since aux db = (x, db') \<Longrightarrow> calm db db'"
  "load_peak env cab aux db = (x, db') \<Longrightarrow> calm db db'"
  "load_ads env cab since aux db = (x, db') \<Longrightarrow> calm db db'"
  by (auto simp: load_inventory_def load_peak_def load_ads_def xp_read_def calm_def split: prod.splits option.splits if_splits)

lemma calm_load_if:
  assumes "\<And>aux db x db'. l aux db = (x, db') \<Longrightarrow> calm db db'" "calm db0 (snd acc)" shows "calm db0 (snd (load_if b l acc))"
proof -
  have "calm (snd acc) (snd (load_if b l acc))"
    using assms(1) [OF prod.collapse [symmetric]] by (auto simp: load_if_def split: prod.splits option.splits)
  then show ?thesis using assms(2) calm_trans by blast
qed

lemma calm_aux: "loadStrategyAux env cab ss db = (x, db') \<Longrightarrow> calm db db'"
proof -
  have l: "calm db (snd (load_if b1 (load_ads env cab since) (load_if b2 (load_peak env cab) (load_if b3 (load_inventory env cab since) (Some aux, db1)))))"
    if "calm db db1" for b1 b2 b3 since aux db1
    by (intro calm_load_if) (use that in \<open>auto dest: calm_loads\<close>)
  assume e: "loadStrategyAux env cab ss db = (x, db')"
  have "calm db (snd (loadStrategyAux env cab ss db))"
    unfolding loadStrategyAux_def Let_def by (auto split: prod.splits option.splits dest: calm_price_read intro!: l)
  then show ?thesis by (simp add: e)
qed

text \<open>\<open>kept\<close>: what an operation keeps of the changes as a whole.\<close>

definition kept :: "price_env \<Rightarrow> price_db \<Rightarrow> price_db \<Rightarrow> bool" where
  "kept env db db' \<longleftrightarrow> (good_writes env db \<longrightarrow> good_writes env db')"

lemma kept_refl [simp]: "kept env db db"
  by (simp add: kept_def)

lemma kept_trans: "kept env a b \<Longrightarrow> kept env b c \<Longrightarrow> kept env a c"
  by (simp add: kept_def)

lemma calm_kept: "calm db db' \<Longrightarrow> kept env db db'"
  by (simp add: calm_def kept_def good_more_calls)

lemma ext_kept: "ext env I db db' \<Longrightarrow> kept env db db'"
  by (simp add: ext_def kept_def)

lemma ready_Nil [simp]: "ready env [] db"
  by (simp add: ready_def)

lemma run_strategies_kept:
  assumes "live_price_env env" "run_cabinet_strategies env cab economics aux (xp_now env db) prices ss no_acc db = (e, acc, db')" "good_writes env db"
  shows "good_writes env db' \<and> ready env (ra_intents acc) db'"
proof -
  have "sound env (xp_now env db) (ra_intents no_acc) db" using assms(3) by (simp add: sound_def no_acc_def)
  from run_strategies_sound [OF assms(1,2) this] show ?thesis by (simp add: sound_def)
qed

lemma kept_apply:
  assumes "ready env is db" "applyIntents env cab is db = (r, db')" shows "kept env db db'"
  by (rule ext_kept [OF ext_apply [OF assms]])

lemma kept_runCabinet:
  assumes "live_price_env env" "runCabinet env ws cab ss db = (r, db')" shows "kept env db db'"
proof -
  obtain c db1 where c: "resolveCabinet env ws cab db = (c, db1)" by fastforce
  obtain p db2 where p: "loadCabinetPrices env cab db1 = (p, db2)" by fastforce
  obtain ec db3 where ec: "loadCabinetEconomics env cab db2 = (ec, db3)" by fastforce
  obtain aux db4 where aux: "loadStrategyAux env cab ss db3 = (aux, db4)" by fastforce
  note calm = calm_resolve [OF c] calm_prices [OF p] calm_economics [OF ec] calm_aux [OF aux]
  have k: "kept env db db1" "kept env db db2" "kept env db db3" "kept env db db4"
    using calm by (blast intro: calm_kept calm_trans)+
  obtain e acc db5 where r: "run_cabinet_strategies env cab (the ec) (the aux) (xp_now env db4) (the p) ss no_acc db4 = (e, acc, db5)"
    by (metis prod.exhaust)
  obtain err db6 where a: "applyIntents env cab (ra_intents acc) db5 = (err, db6)" by fastforce
  have k5: "kept env db db5" and k6: "kept env db db6"
    using k(4) run_strategies_kept [OF assms(1) r] kept_apply [OF _ a]
    by (auto simp: kept_def)
  show ?thesis
    using assms(2) c p ec aux r a k k5 k6
    by (auto simp: runCabinet_def split: sum.splits option.splits if_splits prod.splits)
qed

lemma kept_run_cabinets: "live_price_env env \<Longrightarrow> run_cabinets env ws ss cabs db = (r, db') \<Longrightarrow> kept env db db'"
proof (induction cabs arbitrary: db r)
  case (Cons cab cabs)
  then show ?case by (auto split: prod.splits dest!: kept_runCabinet intro: kept_trans)
qed simp

lemma kept_run: "live_price_env env \<Longrightarrow> ozon_RunForWorkspace env ws db = (r, db') \<Longrightarrow> kept env db db'"
  by (auto simp: ozon_RunForWorkspace_def Let_def split: prod.splits option.splits
      dest!: calm_price_read dest: kept_run_cabinets intro: kept_trans calm_kept)

subsection \<open>Manual changes and rollback\<close>

lemma calm_mirror: "mirror_row env cab sku db = (x, db') \<Longrightarrow> calm db db'"
  by (auto simp: mirror_row_def dest: calm_price_read split: prod.splits option.splits)

lemma record_manual_sound:
  assumes "live_price_env env" "record_manual env cab now items db = (res, db')" "sound env now pre db"
  shows "good_writes env db' \<and> (\<forall>rows intents. res = Some (rows, intents) \<longrightarrow> ready env (pre @ intents) db')"
  using assms(2,3)
proof (induction items arbitrary: db db' pre res)
  case Nil
  then show ?case by (auto simp: sound_def)
next
  case (Cons item items)
  obtain mirror db1 where m: "mirror_row env cab (mi_SKU item) db = (mirror, db1)" by fastforce
  obtain blocked db2 where g: "hourlyWriteGuard env cab (mi_SKU item) ozonHardHourlyWriteCap now db1 = (blocked, db2)" by fastforce
  define status where "status = (if blocked \<noteq> [] then OzonPriceStatusFailed else OzonPriceStatusPending)"
  let ?c = "manual_change env cab item mirror status"
  obtain r db3 where ins: "xp_exec env (InsertOzonPriceChange ?c (xe_numeric env (mi_PriceRub item))) db2 = (r, db3)" by fastforce
  have c: "calm db db2" using calm_mirror [OF m] hourly_guard_tick [OF g] calm_trans calm_tick by blast
  have s2: "sound env now pre db2" by (rule sound_ext [OF assms(1) Cons.prems(2) calm_ext [OF c]])
  have may: "may_insert db2 ?c (xp_now env db2)"
  proof (cases "blocked = []")
    case True
    show ?thesis by (rule guard_may_insert [OF g [unfolded True]]) (use s2 in \<open>simp_all add: manual_change_def sound_def\<close>)
  next
    case False
    then show ?thesis by (intro not_write_may_insert) (simp add: manual_change_def status_def ozon_price_status_defs)
  qed
  have e3: "ext env {} db2 db3" by (rule ext_insert [OF assms(1) may ins])
  have s3: "sound env now pre db3" by (rule sound_ext [OF assms(1) s2 e3])
  have le3: "xp_calls db \<le> xp_calls db3" using c e3 by (simp add: calm_def ext_def)
  show ?case
  proof (cases r)
    case None
    then show ?thesis using Cons.prems(1) m g ins s3 le3 by (auto simp: status_def [symmetric] sound_def)
  next
    case (Some newID)
    define db4 where "db4 = (if blocked \<noteq> []
       then snd (xp_exec env (\<lambda>now _ db. Some (MarkOzonPriceChangeResult newID OzonPriceStatusFailed (ozon_textToPgtype blocked) now db)) db3) else db3)"
    define add where "add = (if blocked \<noteq> [] then [] else [manual_intent newID item])"
    have s4: "sound env now (pre @ add) db4 \<and> xp_calls db3 \<le> xp_calls db4"
    proof (cases "blocked = []")
      case True
      then show ?thesis
        using sound_insert [OF assms(1) s2 may ins [unfolded Some]] by (simp add: db4_def add_def manual_change_def status_def manual_intent_def)
    next
      case False
      obtain x db5 where mk: "xp_exec env (\<lambda>now _ db. Some (MarkOzonPriceChangeResult newID OzonPriceStatusFailed (ozon_textToPgtype blocked) now db)) db3 = (x, db5)"
        by fastforce
      have e: "ext env {newID} db3 db5" by (rule ext_mark [OF _ mk]) (simp add: ozon_price_status_defs)
      have "newID = xe_uuid env (xp_calls db2)" using ins Some by (auto elim: exec_insert_cases)
      then have "newID \<notin> pi_ChangeID ` set pre"
        using s2 assms(1) by (fastforce simp: sound_def ready_def live_price_env_def inj_eq)
      then have "ready env pre db5" using s3 ready_ext [OF _ e] by (auto simp: sound_def)
      moreover have "xp_now env db3 \<le> xp_now env db5" using assms(1) e by (simp add: live_price_env_def ext_def xp_now_def monoD)
      ultimately show ?thesis using False mk s3 e by (auto simp: db4_def add_def sound_def ext_def)
    qed
    obtain res5 db5 where rest: "record_manual env cab now items db4 = (res5, db5)" by fastforce
    have "db' = db5 \<and> res = map_option (\<lambda>(rows, intents). ((newID, status) # rows, add @ intents)) res5"
      using Cons.prems(1) m g ins Some rest
      by (auto simp: status_def [symmetric] db4_def [symmetric] add_def Let_def split: option.splits prod.splits)
    then show ?thesis using Cons.IH [OF rest, of "pre @ add"] s4 by (auto simp: append_assoc)
  qed
qed

lemma calm_refresh: "refresh_rows env rows db = (out, db') \<Longrightarrow> calm db db'"
proof (induction rows arbitrary: db out)
  case (Cons row rows)
  then show ?case
    by (cases row) (auto simp: xp_read_def split: prod.splits if_splits option.splits intro: calm_trans [OF calm_tick])
qed simp

lemma kept_manual:
  assumes "live_price_env env" "ozon_ApplyManual env ws cab items db = (r, db')" shows "kept env db db'"
proof (cases "manual_items_error items")
  case None
  obtain c db1 where c: "resolveCabinet env ws cab db = (c, db1)" by fastforce
  obtain res db2 where m: "record_manual env cab (xp_now env db1) items db1 = (res, db2)" by fastforce
  have k1: "kept env db db1" by (rule calm_kept [OF calm_resolve [OF c]])
  have rec: "good_writes env db1 \<Longrightarrow> good_writes env db2 \<and> (\<forall>rows intents. res = Some (rows, intents) \<longrightarrow> ready env intents db2)"
    using record_manual_sound [OF assms(1) m, of "[]"] by (simp add: sound_def)
  have "kept env db1 db'" if v: "c = Inr cabinet" for cabinet
  proof (cases res)
    case None
    then show ?thesis using assms(2) \<open>manual_items_error items = None\<close> c m rec v by (auto simp: ozon_ApplyManual_def kept_def)
  next
    case (Some rs)
    obtain rows intents where rs: "res = Some (rows, intents)" using Some by (cases rs) simp
    obtain err db3 where a: "(if intents = [] then (None, db2) else applyIntents env cab intents db2) = (err, db3)" by fastforce
    obtain out db4 where f: "refresh_rows env rows db3 = (out, db4)" by fastforce
    have "kept env db2 db3" if "ready env intents db2" using a kept_apply [OF that] by (auto split: if_splits)
    moreover have "kept env db3 db4" by (rule calm_kept [OF calm_refresh [OF f]])
    moreover have "db' = db4" using assms(2) None c m rs a f v by (simp add: ozon_ApplyManual_def)
    ultimately show ?thesis using rec rs by (auto simp: kept_def)
  qed
  moreover have "db' = db1" if "c = Inl e" for e
    using assms(2) None c that by (simp add: ozon_ApplyManual_def)
  ultimately show ?thesis using kept_trans [OF k1] k1 by (cases c) auto
qed (use assms(2) in \<open>simp add: ozon_ApplyManual_def\<close>)

text \<open>Rollback marks a change that was applied when it was read, so it already counted.\<close>

lemma found_held:
  assumes "good_writes env db" "GetOzonPriceChangeByID i db = Some row"
    and "xc_Status row \<in> {OzonPriceStatusPending, OzonPriceStatusApplied, OzonPriceStatusRolledBack}"
  shows "held db (xc_ID row) \<and> (\<exists>n < xp_calls db. xc_ID row = xe_uuid env n)"
proof -
  have row: "row \<in> set (xp_changes db)" using assms(2) by (auto simp: GetOzonPriceChangeByID_def find_Some_iff)
  have "c = row" if "c \<in> set (xp_changes db)" "xc_ID c = xc_ID row" for c
    using assms(1) row that by (auto simp: good_writes_def distinct_map inj_on_def)
  then have "held db (xc_ID row)" using assms(3) unfolding held_def by blast
  then show ?thesis using assms(1) row by (auto simp: good_writes_def)
qed

text \<open>The checks of a rollback, one after the other.\<close>

lemma rollback_checks_cases:
  assumes "rollback_checks env row db = (e, db')"
  obtains (refused) x where "e = Some x" "calm db db'"
  | (passed) db1 where "e = None" "calm db db1" "xc_Status row = OzonPriceStatusApplied" "\<not> pgNumericToFloat (xc_OldPriceRub row) \<le> Fin 0"
      "hourlyWriteGuard env (xc_SellerCabinetID row) (xc_Sku row) ozonHardHourlyWriteCap (xp_now env db1) db1 = ([], db')"
proof (cases "xc_Status row \<noteq> OzonPriceStatusApplied \<or> pgNumericToFloat (xc_OldPriceRub row) \<le> Fin 0")
  case True
  then show ?thesis using assms refused by (auto simp: rollback_checks_def split: if_splits)
next
  case False
  obtain m db1 where m: "mirror_row env (xc_SellerCabinetID row) (xc_Sku row) db = (m, db1)" by fastforce
  obtain b db2 where b: "hourlyWriteGuard env (xc_SellerCabinetID row) (xc_Sku row) ozonHardHourlyWriteCap (xp_now env db1) db1 = (b, db2)" by fastforce
  have c: "calm db db1" "calm db db2" using calm_mirror [OF m] hourly_guard_tick [OF b] calm_trans calm_tick by blast+
  show ?thesis
  proof (cases "\<exists>x. e = Some x")
    case True
    then show ?thesis using assms False m b c refused by (auto simp: rollback_checks_def split: option.splits if_splits)
  next
    case None: False
    then show ?thesis
      using assms False m b c by (intro passed [of db1]) (auto simp: rollback_checks_def split: option.splits if_splits)
  qed
qed

text \<open>What happens between the checks and the reloaded row: one change is recorded and sent.\<close>

lemma kept_send_one:
  assumes "live_price_env env" "good_writes env db" "may_insert db row (xp_now env db)" "xc_Status row = OzonPriceStatusPending"
    and ins: "xp_exec env (InsertOzonPriceChange row new) db = (Some newID, db1)"
    and i: "pi_ChangeID i = newID" and ap: "applyIntents env cab [i] db1 = (err, db2)"
  shows "ext env {newID} db db2" "newID = xe_uuid env (xp_calls db)"
proof -
  have "sound env (xp_now env db) [] db" using assms(2) by (simp add: sound_def)
  from sound_insert [OF assms(1) this assms(3) ins assms(4) i] have "ready env [i] db1" by (simp add: sound_def)
  then have "ext env {newID} db1 db2" using ext_apply [OF _ ap] i by simp
  then show "ext env {newID} db db2" using ext_seq [OF ext_insert [OF assms(1,3) ins]] by blast
  show "newID = xe_uuid env (xp_calls db)" using ins by (auto elim: exec_insert_cases)
qed

lemma kept_rollback:
  assumes "live_price_env env" "ozon_Rollback show_id env ws i db = (r, db')" shows "kept env db db'"
  unfolding kept_def
proof
  assume good: "good_writes env db"
  obtain f db1 where f: "xp_find env (GetOzonPriceChangeByID i) (Failed ''load price change'') change_missing db = (f, db1)" by fastforce
  have g1: "good_writes env db1" using calm_kept [OF calm_find [OF f], of env] good by (simp add: kept_def)
  show "good_writes env db'"
  proof (cases f)
    case (Inl e)
    then show ?thesis using assms(2) f g1 by (simp add: ozon_Rollback_def)
  next
    case (Inr row)
    have row: "GetOzonPriceChangeByID i db1 = Some row"
      using f Inr by (auto simp: xp_find_def xp_read_def GetOzonPriceChangeByID_def split: if_splits option.splits)
    obtain c db2 where c: "resolveCabinet env ws (xc_SellerCabinetID row) db1 = (c, db2)" by fastforce
    obtain e db3 where ch: "rollback_checks env row db2 = (e, db3)" by fastforce
    have cl: "calm db1 db2" by (rule calm_resolve [OF c])
    have g2: "good_writes env db2" using calm_kept [OF cl, of env] g1 by (simp add: kept_def)
    show ?thesis
      using ch
    proof (cases rule: rollback_checks_cases)
      case (refused x)
      then have "good_writes env db3" using calm_kept [of db2 db3 env] g2 by (simp add: kept_def)
      then show ?thesis using assms(2) f Inr c ch refused g2 by (auto simp: ozon_Rollback_def split: sum.splits)
    next
      case (passed d)
      have c3: "calm db1 db3" using cl passed(2) hourly_guard_tick [OF passed(5)] calm_trans calm_tick by blast
      have g3: "good_writes env db3" using calm_kept [OF c3, of env] g1 by (simp add: kept_def)
      define rc where "rc = rollback_change row (''rollback of '' @ show_id (xc_ID row))"
      have may: "may_insert db3 rc (xp_now env db3)"
        using passed(5) hourly_guard_tick [OF passed(5)] assms(1)
        by (intro guard_may_insert) (auto simp: rc_def rollback_change_def live_price_env_def xp_now_def mono_def)
      define int where "int newID = \<lparr>pi_ChangeID = newID, pi_SKU = xc_Sku row, pi_NewPriceRub = pgNumericToFloat (xc_OldPriceRub row),
           pi_OldPriceRub = (case xc_OldOldPriceRub row of None \<Rightarrow> None | Some v \<Rightarrow> Some (pgNumericToFloat (Some v))),
           pi_MinPriceRub = None\<rparr>" for newID
      obtain n db4 where ins: "xp_exec env (InsertOzonPriceChange rc (xc_OldPriceRub row)) db3 = (n, db4)" by fastforce
      have g4: "good_writes env db4" using ext_insert [OF assms(1) may ins, of "{}"] g3 by (simp add: ext_def)
      show ?thesis
      proof (cases n)
        case None
        then show ?thesis using assms(2) f Inr c ch passed(1) ins g4 g2 by (auto simp: ozon_Rollback_def rc_def split: sum.splits)
      next
        case (Some newID)
        obtain err db5 where ap: "applyIntents env (xc_SellerCabinetID row) [int newID] db4 = (err, db5)" by fastforce
        have x: "ext env {newID} db3 db5" "newID = xe_uuid env (xp_calls db3)"
          using kept_send_one [OF assms(1) g3 may _ ins [unfolded Some] _ ap] by (simp_all add: rc_def rollback_change_def int_def)
        have g5: "good_writes env db5" using x g3 by (simp add: ext_def)
        obtain fr db6 where fr: "xp_find env (GetOzonPriceChangeByID newID) (Failed ''reload rollback change'') (Failed ''reload rollback change'') db5 = (fr, db6)"
          by fastforce
        have c6: "calm db5 db6" by (rule calm_find [OF fr])
        have g6: "good_writes env db6" using calm_kept [OF c6, of env] g5 by (simp add: kept_def)
        obtain m db7 where m: "xp_exec env (\<lambda>now _ db. Some (MarkOzonPriceChangeResult (xc_ID row) OzonPriceStatusRolledBack None now db)) db6 = (m, db7)"
          by fastforce
        have "held db3 (xc_ID row) \<and> (\<exists>n < xp_calls db3. xc_ID row = xe_uuid env n)"
        proof (rule found_held [OF g3])
          show "GetOzonPriceChangeByID i db3 = Some row" using row c3 by (simp add: GetOzonPriceChangeByID_def calm_def)
        qed (simp add: passed(3))
        moreover from this have "xc_ID row \<noteq> newID" using x(2) assms(1) by (auto simp: live_price_env_def inj_eq)
        ultimately have "held db5 (xc_ID row)" using ext_held [OF x(1)] by simp
        then have "held db6 (xc_ID row)" using c6 by (simp add: held_def calm_def)
        then have "good_writes env db7" using ext_mark [OF _ m] g6 by (auto simp: ext_def)
        then show ?thesis
          using assms(2) f Inr c ch passed(1) ins Some ap fr m g2 g5 g6
          by (auto simp: ozon_Rollback_def rc_def int_def split: sum.splits option.splits if_splits)
      qed
    qed
  qed
qed

subsection \<open>The calendar\<close>

lemma calm_resolve_read_only: "resolveCabinetReadOnly env ws cab db = (x, db') \<Longrightarrow> calm db db'"
  by (auto simp: resolveCabinetReadOnly_def calm_find split: prod.splits sum.splits option.splits if_splits)

lemma calm_resolve_schedule: "resolveScheduleCabinet env cab db = (x, db') \<Longrightarrow> calm db db'"
  by (auto simp: resolveScheduleCabinet_def calm_find split: prod.splits sum.splits option.splits if_splits)

lemma calm_mark_entry [simp]: "calm db (mark_entry env i status err db)"
  by (auto simp: mark_entry_def xp_exec_def Let_def MarkOzonPriceScheduleResult_def calm_def)

lemma calm_fail_entry [simp]: "calm db (failScheduleEntry env i reason db)"
  by (simp add: failScheduleEntry_def)

lemma calm_finish: "finish_entry env entry revert i err db = (r, db') \<Longrightarrow> calm db db'"
  by (auto simp: finish_entry_def Let_def dest!: calm_find split: prod.splits if_splits sum.splits option.splits intro: calm_trans)

lemma sound_calm: "live_price_env env \<Longrightarrow> sound env now is db \<Longrightarrow> calm db db' \<Longrightarrow> sound env now is db'"
  by (rule sound_ext [OF _ _ calm_ext])

lemma execute_entry_sound:
  assumes env: "live_price_env env" and s: "sound env now [] db" and ex: "ozon_executeScheduleEntry env entry revert now db = (r, db')"
  shows "sound env now [] db'"
proof -
  obtain c db1 where c: "resolveScheduleCabinet env (se_SellerCabinetID entry) db = (c, db1)" by fastforce
  have s1: "sound env now [] db1" by (rule sound_calm [OF env s calm_resolve_schedule [OF c]])
  note fail = sound_calm [OF env s1 calm_fail_entry]
  obtain b db2 where b: "hourlyWriteGuard env (se_SellerCabinetID entry) (se_Sku entry) ozonHardHourlyWriteCap now db1 = (b, db2)" by fastforce
  have s2: "sound env now [] db2" using sound_calm [OF env s1 calm_tick] hourly_guard_tick [OF b] by simp
  obtain m db3 where m: "mirror_row env (se_SellerCabinetID entry) (se_Sku entry) db2 = (m, db3)" by fastforce
  have c3: "calm db2 db3" by (rule calm_mirror [OF m])
  have s3: "sound env now [] db3" by (rule sound_calm [OF env s2 c3])
  define sc where "sc = schedule_change entry m (if revert then ''schedule revert'' else ''schedule'')"
  define price where "price = scheduled_price entry revert"
  obtain n db4 where ins: "xp_exec env (InsertOzonPriceChange sc (xe_numeric env price)) db3 = (n, db4)" by fastforce
  show ?thesis
  proof (cases "(\<exists>cab. c = Inr cab) \<and> b = [] \<and> \<not> price \<le> Fin 0")
    case False
    then show ?thesis using ex c b s1 s2 fail by (auto simp: ozon_executeScheduleEntry_def price_def split: sum.splits if_splits)
  next
    case True
    have b0: "hourlyWriteGuard env (se_SellerCabinetID entry) (se_Sku entry) ozonHardHourlyWriteCap now db1 = ([], db2)"
      using b True by simp
    have may: "may_insert db3 sc (xp_now env db3)"
      using guard_may_insert [OF b0 order_refl, of "xp_now env db3" sc] s3 c3
      by (simp add: sc_def schedule_change_def sound_def may_insert_def CountOzonPriceWritesBySkuSince_def calm_def)
    have s4: "sound env now [] db4" by (rule sound_ext [OF env s3 ext_insert [OF env may ins]])
    show ?thesis
    proof (cases n)
      case None
      then show ?thesis
        using ex c b m ins True s1 s4 by (auto simp: ozon_executeScheduleEntry_def sc_def price_def split: if_splits)
    next
      case (Some newID)
      define i where "i = \<lparr>pi_ChangeID = newID, pi_SKU = se_Sku entry, pi_NewPriceRub = price, pi_OldPriceRub = None, pi_MinPriceRub = None\<rparr>"
      obtain err db5 where ap: "applyIntents env (se_SellerCabinetID entry) [i] db4 = (err, db5)" by fastforce
      have "sound env now ([] @ [i]) db4"
        by (rule sound_insert [OF env s3 may ins [unfolded Some]]) (simp_all add: sc_def schedule_change_def i_def)
      then have "ext env (pi_ChangeID ` set [i]) db4 db5" by (intro ext_apply [OF _ ap]) (simp add: sound_def)
      then have s5: "sound env now [] db5"
        using s4 env by (auto simp: sound_def ext_def live_price_env_def xp_now_def dest: monoD intro: order_trans)
      obtain r' db6 where fin: "finish_entry env entry revert newID err db5 = (r', db6)" by fastforce
      have "sound env now [] db6" by (rule sound_calm [OF env s5 calm_finish [OF fin]])
      then show ?thesis
        using ex c b m ins True s1 Some ap fin by (auto simp: ozon_executeScheduleEntry_def sc_def price_def i_def split: if_splits)
    qed
  qed
qed

lemma execute_entries_sound:
  "live_price_env env \<Longrightarrow> sound env now [] db \<Longrightarrow> execute_entries env revert now es db = (r, db') \<Longrightarrow> sound env now [] db'"
proof (induction es arbitrary: db db' r)
  case (Cons e es)
  obtain x db1 where x: "ozon_executeScheduleEntry env e revert now db = (x, db1)" by fastforce
  obtain y db2 where y: "execute_entries env revert now es db1 = (y, db2)" by fastforce
  have "sound env now [] db2" using Cons.IH [OF Cons.prems(1) execute_entry_sound [OF Cons.prems(1,2) x] y] .
  moreover have "db' = db2" using Cons.prems(3) x y by (auto split: prod.splits)
  ultimately show ?case by simp
qed simp

lemma kept_execute:
  assumes env: "live_price_env env" and ex: "ozon_ExecuteDueSchedules env (xp_now env db) db = (r, db')"
  shows "kept env db db'"
  unfolding kept_def
proof
  assume "good_writes env db"
  then have s: "sound env (xp_now env db) [] (xp_tick db)" using sound_calm [OF env _ calm_tick, of "xp_now env db" "[]" db] by (simp add: sound_def)
  let ?now = "xp_now env db"
  obtain x db2 where x: "execute_entries env False ?now (ListDueOzonPriceSchedules ?now db) (xp_tick db) = (x, db2)" by fastforce
  have s2: "sound env ?now [] (xp_tick db2)" by (rule sound_calm [OF env execute_entries_sound [OF env s x] calm_tick])
  obtain y db4 where y: "execute_entries env True ?now (ListDueOzonPriceScheduleReverts ?now db2) (xp_tick db2) = (y, db4)" by fastforce
  have "sound env ?now [] db4" by (rule execute_entries_sound [OF env s2 y])
  then have "sound env ?now [] db'"
    using ex x y s s2 by (auto simp: ozon_ExecuteDueSchedules_def xp_read_def split: if_splits prod.splits)
  then show "good_writes env db'" by (simp add: sound_def)
qed

text \<open>The other operations of the calendar do not touch the changes.\<close>

lemma calm_create: "ozon_CreateSchedule env ws cab inp db = (r, db') \<Longrightarrow> calm db db'"
proof -
  have e: "calm d (snd (xp_exec env (CreateOzonPriceScheduleEntry row p) d))" for d row p
    by (auto simp: xp_exec_def Let_def CreateOzonPriceScheduleEntry_def calm_def split: option.splits)
  have f: "calm d (snd (scheduleFloorFor env cab row d))" for d row
    by (auto simp: scheduleFloorFor_def dest: calm_economics split: prod.splits)
  assume a: "ozon_CreateSchedule env ws cab inp db = (r, db')"
  obtain c db1 where c: "resolveCabinetReadOnly env ws cab db = (c, db1)" by fastforce
  have 1: "calm db db1" by (rule calm_resolve_read_only [OF c])
  obtain m db2 where m: "xp_read env (GetOzonProductPriceBySku cab (in_SKU inp)) db1 = (m, db2)" by fastforce
  have 2: "calm db db2" by (rule calm_trans [OF 1 calm_price_read [OF m]])
  obtain fl db3 where fl: "(case the m of None \<Rightarrow> (Fin 0, db2) | Some row \<Rightarrow> scheduleFloorFor env cab row db2) = (fl, db3)" by fastforce
  have 3: "calm db db3" using fl f [of db2] calm_trans [OF 2] 2 by (cases "the m") (auto simp: prod_eq_iff)
  have 4: "calm db (snd (xp_exec env (CreateOzonPriceScheduleEntry row p) db3))" for row p using calm_trans [OF 3 e] .
  show ?thesis
    using a c m fl 1 2 3 4 by (auto simp: ozon_CreateSchedule_def split: option.splits sum.splits prod.splits if_splits) (metis snd_conv)+
qed

lemma calm_cancel: "ozon_CancelSchedule env ws i db = (r, db') \<Longrightarrow> calm db db'"
  by (auto simp: ozon_CancelSchedule_def CancelOzonPriceScheduleEntry_def dest!: calm_find calm_resolve_read_only
      split: sum.splits if_splits prod.splits intro: calm_trans) (auto simp: calm_def)

lemma calm_pause: "SetPause env ws cab hours db = (r, db') \<Longrightarrow> calm db db'"
  by (auto simp: SetPause_def Let_def xp_exec_def SetCabinetRepricerPause_def dest!: calm_resolve_read_only
      split: sum.splits if_splits prod.splits option.splits) (auto simp: calm_def)

section \<open>Every history\<close>

text \<open>
  The operations of the repricer in any order. The executor is called with the current time. Whatever else the program does to
  the state leaves the changes alone: synchronizing prices, editing strategies and cabinets.
\<close>

inductive price_step :: "price_env \<Rightarrow> price_db \<Rightarrow> price_db \<Rightarrow> bool" for env where
  step_run: "ozon_RunForWorkspace env ws db = (r, db') \<Longrightarrow> price_step env db db'"
| step_manual: "ozon_ApplyManual env ws cab items db = (r', db') \<Longrightarrow> price_step env db db'"
| step_rollback: "ozon_Rollback show_id env ws i db = (r'', db') \<Longrightarrow> price_step env db db'"
| step_create: "ozon_CreateSchedule env ws cab inp db = (r3, db') \<Longrightarrow> price_step env db db'"
| step_cancel: "ozon_CancelSchedule env ws i db = (r4, db') \<Longrightarrow> price_step env db db'"
| step_execute: "ozon_ExecuteDueSchedules env (xp_now env db) db = (r5, db') \<Longrightarrow> price_step env db db'"
| step_pause: "SetPause env ws cab hours db = (r6, db') \<Longrightarrow> price_step env db db'"
| step_other: "xp_changes db' = xp_changes db \<Longrightarrow> xp_calls db \<le> xp_calls db' \<Longrightarrow> price_step env db db'"

lemma kept_other: "xp_changes db' = xp_changes db \<Longrightarrow> xp_calls db \<le> xp_calls db' \<Longrightarrow> kept env db db'"
  by (simp add: kept_def good_more_calls)

lemma step_kept:
  assumes "live_price_env env" "price_step env db db'" shows "kept env db db'"
  using assms(2)
proof induction
  case step_run
  then show ?case by (rule kept_run [OF assms(1)])
next
  case step_manual
  then show ?case by (rule kept_manual [OF assms(1)])
next
  case step_rollback
  then show ?case by (rule kept_rollback [OF assms(1)])
next
  case step_execute
  then show ?case by (rule kept_execute [OF assms(1)])
next
  case step_create
  then show ?case by (rule calm_kept [OF calm_create])
next
  case step_cancel
  then show ?case by (rule calm_kept [OF calm_cancel])
next
  case step_pause
  then show ?case by (rule calm_kept [OF calm_pause])
next
  case step_other
  then show ?case by (rule kept_other)
qed

definition writes_inv :: "price_env \<Rightarrow> price_db \<Rightarrow> bool" where
  "writes_inv env db \<longleftrightarrow> (live_price_env env \<longrightarrow> good_writes env db)"

definition no_changes :: "price_db \<Rightarrow> bool" where
  "no_changes db \<longleftrightarrow> xp_changes db = []"

interpretation price_history: state_invariant no_changes "price_step env" "writes_inv env" for env
proof unfold_locales
  fix db db'
  show "no_changes db \<Longrightarrow> writes_inv env db"
    by (simp add: no_changes_def writes_inv_def good_writes_def writes_in_def ozonHardHourlyWriteCap_def)
  show "writes_inv env db \<Longrightarrow> price_step env db db' \<Longrightarrow> writes_inv env db'"
    using step_kept by (simp add: writes_inv_def kept_def)
qed

text \<open>
  C16 The hourly limit. In any history of the repricer (runs of the strategies, manual changes, rollbacks, the calendar, whatever fails in
  between) and for any moment, at most ten changes of a product that were sent or wait to be sent were created in the hour before it.
  The operations check the limit separately, with counts taken before they record a change; settling a change and rolling
  one back keep it counted.
\<close>

theorem hourly_price_writes_capped:
  assumes "live_price_env env" "no_changes db0" "(price_step env)\<^sup>*\<^sup>* db0 db"
  shows "length (filter (\<lambda>c. xc_SellerCabinetID c = cab \<and> xc_Sku c = sku
      \<and> xc_Status c \<in> {OzonPriceStatusPending, OzonPriceStatusApplied, OzonPriceStatusRolledBack}
      \<and> a - hour \<le> xc_CreatedAt c \<and> xc_CreatedAt c \<le> a) (xp_changes db)) \<le> 10"
proof -
  have "writes_in cab sku a (xp_changes db) \<le> ozonHardHourlyWriteCap"
    using price_history.inv_reachable [OF assms(2,3)] assms(1) by (simp add: writes_inv_def good_writes_def)
  then show ?thesis by (simp add: writes_in_def write_row_def ozonHardHourlyWriteCap_def)
qed

text \<open>A manual change in a concrete history; later it is rolled back.\<close>

definition wit_price_env :: price_env where
  "wit_price_env = \<lparr>xe_now = int, xe_uuid = (\<lambda>n. int n + 1), xe_fault = (\<lambda>_. False), xe_decrypt = (\<lambda>_. Some True),
     xe_numeric = (\<lambda>v. case v of Fin r \<Rightarrow> Some r | _ \<Rightarrow> None), xe_collate = (\<lambda>_. 0), xe_order = (\<lambda>_ cabs. cabs),
     xe_update = (\<lambda>_ us. (map (\<lambda>u. \<lparr>pr_ProductID = pu_ProductID u, pr_Updated = True, pr_Errors = []\<rparr>) us, None))\<rparr>"

definition wit_price_db :: price_db where
  "wit_price_db = \<lparr>xp_tables = \<lparr>ozon_campaigns = [], ozon_campaign_products = [], ozon_campaign_stats = [], ozon_sales_daily = [],
       ozon_product_prices = [], ozon_cancellation_rates = []\<rparr>,
     xp_strategies = [], xp_cabinets = [\<lparr>cab_ID = 7, cab_WorkspaceID = 9, cab_Marketplace = MarketplaceOzon, cab_EncryptedCredentials = [],
       cab_RepricerPausedUntil = None\<rparr>],
     xp_prices = [wit_row], xp_economics = [], xp_stocks = [], xp_products = [], xp_hourly = [], xp_changes = [], xp_schedules = [],
     xp_sent = [], xp_calls = 0\<rparr>"

definition wit_item :: OzonManualPriceInput where
  "wit_item = \<lparr>mi_SKU = 5, mi_PriceRub = Fin 900, mi_OldPriceRub = None, mi_MinPriceRub = None\<rparr>"

definition wit_change :: OzonPriceChange where
  "wit_change = \<lparr>xc_ID = 4, xc_SellerCabinetID = 7, xc_Sku = 5, xc_OfferID = Some ''a'', xc_OldPriceRub = Some 1000, xc_NewPriceRub = 900,
     xc_OldOldPriceRub = None, xc_NewOldPriceRub = None, xc_MinPriceRub = None, xc_FloorRub = None,
     xc_Reason = Some ''manual price update'', xc_Source = PriceSourceManual, xc_StrategyID = None, xc_Status = OzonPriceStatusApplied,
     xc_Error = None, xc_CreatedAt = 3, xc_AppliedAt = Some 5\<rparr>"

definition wit_manual_db :: price_db where
  "wit_manual_db = wit_price_db\<lparr>xp_changes := [wit_change], xp_prices := [wit_row\<lparr>ozp_PriceRub := Some 900\<rparr>],
     xp_sent := [(7, [\<lparr>pu_ProductID = 5, pu_PriceRub = Fin 900, pu_OldPriceRub = None, pu_MinPriceRub = None\<rparr>])], xp_calls := 8\<rparr>"


lemmas price_eval = resolveCabinet_def resolveCabinetReadOnly_def xp_find_def xp_read_def ozon_GetSellerCabinetByID_def xp_tick_def
  xp_exec_def mirror_row_def hourlyWriteGuard_def GetOzonProductPriceBySku_def CountOzonPriceWritesBySkuSince_def write_row_def hour_def
  ozonHourlyGuardReason_def ozonHardHourlyWriteCap_def InsertOzonPriceChange_def applyIntents_def send_updates_def intent_update_def
  settle_intent_def outcomes_def intent_status_def MarkOzonPriceChangeResult_def UpdateOzonProductPriceMirror_def
  floatPtrToPgNumeric_def coalesce_def GetOzonPriceChangeByID_def ozon_price_status_defs xp_now_def ozon_textToPgtype_def Let_def
  wit_price_env_def wit_price_db_def wit_row_def wit_change_def

lemma wit_manual: "ozon_ApplyManual wit_price_env 9 7 [wit_item] wit_price_db = (([(4, OzonPriceStatusApplied)], None), wit_manual_db)"
  by (simp add: ozon_ApplyManual_def manual_items_error_def manual_item_error_def wit_item_def ozonManualPriceItemsLimit_def
     manual_change_def manual_intent_def wit_manual_db_def price_eval)

lemma wit_live: "live_price_env wit_price_env"
  by (simp add: live_price_env_def wit_price_env_def mono_def inj_def)

lemma wit_step: "no_changes wit_price_db" "(price_step wit_price_env)\<^sup>*\<^sup>* wit_price_db wit_manual_db"
  using step_manual [OF wit_manual] by (simp_all add: no_changes_def wit_price_db_def r_into_rtranclp)

theorem hourly_price_writes_capped_witness:
  "length (filter (\<lambda>c. xc_SellerCabinetID c = 7 \<and> xc_Sku c = 5
      \<and> xc_Status c \<in> {OzonPriceStatusPending, OzonPriceStatusApplied, OzonPriceStatusRolledBack}
      \<and> 5 - hour \<le> xc_CreatedAt c \<and> xc_CreatedAt c \<le> 5) (xp_changes wit_manual_db)) \<le> 10 \<and>
   xp_changes wit_manual_db = [wit_change]"
  using hourly_price_writes_capped [OF wit_live wit_step, of 7 5 5] by (simp add: wit_manual_db_def)

end
