(* ===== verification/Ozon_Price_Safety.thy ===== *)
theory Ozon_Price_Safety
  imports Ozon_Writes
begin

text \<open>
  What the repricer of the second marketplace guarantees beyond the hourly limit: a rollback restores the price, an automatic
  cut keeps the floor, a paused cabinet is left alone. Further theorems show where the code leaves something behind: stranded changes, a
  forgotten cooldown, an entry that is written although it was cancelled, and one that fails for good.
\<close>

section \<open>Rollback\<close>

text \<open>Without failing statements reads and changes of the tables take effect.\<close>

lemma read_ok: "\<forall>n. \<not> xe_fault env n \<Longrightarrow> xp_read env q db = (Some (q db), xp_tick db)"
  by (simp add: xp_read_def)

lemma exec_ok: "\<forall>n. \<not> xe_fault env n \<Longrightarrow> xp_exec env (\<lambda>t i d. Some (f t i d)) db =
    (Some (xe_uuid env (xp_calls db)), xp_tick (f (xp_now env db) (xe_uuid env (xp_calls db)) db))"
  by (simp add: xp_exec_def Let_def xp_now_def)

lemma map_other: "k \<notin> key ` set xs \<Longrightarrow> map (\<lambda>x. if key x = k then f x else x) xs = xs"
  by (induction xs) auto

text \<open>One change that was sent: it is the last row, and when it was applied the row of the product has its prices.\<close>

lemma apply_one:
  assumes ok: "\<forall>n. \<not> xe_fault env n" and new: "xp_changes db = cs @ [c]" "xc_ID c = pi_ChangeID i" "pi_ChangeID i \<notin> xc_ID ` set cs"
    and ap: "applyIntents env cab [i] db = (err, db')"
    and fr: "GetOzonPriceChangeByID (pi_ChangeID i) db' = Some fresh" "xc_Status fresh = OzonPriceStatusApplied"
  shows "\<exists>t. fresh = c\<lparr>xc_Status := OzonPriceStatusApplied, xc_Error := None, xc_AppliedAt := Some t\<rparr> \<and> xp_changes db' = cs @ [fresh]"
    and "xp_prices db' = xp_prices (UpdateOzonProductPriceMirror cab (pi_SKU i) (xe_numeric env (pi_NewPriceRub i))
      (floatPtrToPgNumeric env (pi_OldPriceRub i)) (floatPtrToPgNumeric env (pi_MinPriceRub i)) db)"
    and "xp_sent db' = xp_sent db @ [(cab, [intent_update i])]"
proof -
  obtain results we where u: "xe_update env (xp_calls db) [intent_update i] = (results, we)" by fastforce
  obtain status e where st: "intent_status (outcomes results) we i = (status, e)" by fastforce
  have none: "map (\<lambda>x. if xc_ID x = pi_ChangeID i then f x else x) cs = cs" for f by (rule map_other [OF new(3)])
  have find: "find (\<lambda>x. xc_ID x = pi_ChangeID i) (cs @ [x]) = Some x" if "xc_ID x = pi_ChangeID i" for x
    using new(3) that by (induction cs) auto
  define upd where "upd t = c\<lparr>xc_Status := status, xc_Error := e, xc_AppliedAt := (if status = OzonPriceStatusApplied then Some t else xc_AppliedAt c)\<rparr>" for t
  define t where "t = xp_now env (snd (send_updates env cab [intent_update i] db))"
  have ch: "xp_changes db' = cs @ [upd t]"
    using ap new none by (auto simp: applyIntents_def send_updates_def settle_intent_def u st exec_ok [OF ok] Let_def
        MarkOzonPriceChangeResult_def UpdateOzonProductPriceMirror_def upd_def t_def split: if_splits)
  then have "fresh = upd t" using fr(1) find [of "upd t"] new(2) by (simp add: GetOzonPriceChangeByID_def upd_def)
  then have status: "status = OzonPriceStatusApplied" using fr(2) by (simp add: upd_def)
  then have e: "e = None" using st by (auto simp: intent_status_def ozon_price_status_defs split: option.splits if_splits)
  show "\<exists>t. fresh = c\<lparr>xc_Status := OzonPriceStatusApplied, xc_Error := None, xc_AppliedAt := Some t\<rparr> \<and> xp_changes db' = cs @ [fresh]"
    using \<open>fresh = upd t\<close> ch status e by (auto simp: upd_def)
  show "xp_prices db' = xp_prices (UpdateOzonProductPriceMirror cab (pi_SKU i) (xe_numeric env (pi_NewPriceRub i))
      (floatPtrToPgNumeric env (pi_OldPriceRub i)) (floatPtrToPgNumeric env (pi_MinPriceRub i)) db)"
    using ap status by (auto simp: applyIntents_def send_updates_def settle_intent_def u st exec_ok [OF ok] Let_def
        MarkOzonPriceChangeResult_def UpdateOzonProductPriceMirror_def)
  show "xp_sent db' = xp_sent db @ [(cab, [intent_update i])]"
    using ap status by (auto simp: applyIntents_def send_updates_def settle_intent_def u st exec_ok [OF ok] Let_def
        MarkOzonPriceChangeResult_def UpdateOzonProductPriceMirror_def)
qed

definition ozon_rollback_intent :: "uuid \<Rightarrow> OzonPriceChange \<Rightarrow> ozonPriceIntent" where
  "ozon_rollback_intent newID row = \<lparr>pi_ChangeID = newID, pi_SKU = xc_Sku row, pi_NewPriceRub = pgNumericToFloat (xc_OldPriceRub row),
     pi_OldPriceRub = (case xc_OldOldPriceRub row of None \<Rightarrow> None | Some v \<Rightarrow> Some (pgNumericToFloat (Some v))), pi_MinPriceRub = None\<rparr>"

text \<open>The way through a rollback that succeeds.\<close>

lemma rollback_success:
  assumes ok: "\<forall>n. \<not> xe_fault env n" and rb: "ozon_Rollback show_id env ws i db = (Inr fresh, db')"
  obtains row p db3 c err db5 where
    "GetOzonPriceChangeByID i db = Some row" "xc_Status row = OzonPriceStatusApplied" "xc_OldPriceRub row = Some p"
    "calm db db3" "xp_prices db3 = xp_prices db"
    "c = (rollback_change row (''rollback of '' @ show_id (xc_ID row)))\<lparr>xc_ID := xe_uuid env (xp_calls db3), xc_NewPriceRub := p,
        xc_Error := None, xc_CreatedAt := xp_now env db3, xc_AppliedAt := None\<rparr>"
    "applyIntents env (xc_SellerCabinetID row) [ozon_rollback_intent (xc_ID c) row] (xp_tick (db3\<lparr>xp_changes := xp_changes db3 @ [c]\<rparr>)) = (err, db5)"
    "GetOzonPriceChangeByID (xc_ID c) db5 = Some fresh" "xc_Status fresh = OzonPriceStatusApplied"
    "db' = xp_tick (MarkOzonPriceChangeResult (xc_ID row) OzonPriceStatusRolledBack None (xp_now env (xp_tick db5)) (xp_tick db5))"
proof -
  obtain f db1 where f: "xp_find env (GetOzonPriceChangeByID i) (Failed ''load price change'') change_missing db = (f, db1)" by fastforce
  then obtain row where row: "f = Inr row" using rb by (cases f) (auto simp: ozon_Rollback_def)
  have 1: "GetOzonPriceChangeByID i db = Some row" "db1 = xp_tick db"
    using f row by (auto simp: xp_find_def read_ok [OF ok] split: option.splits)
  obtain c db2 where c: "resolveCabinet env ws (xc_SellerCabinetID row) db1 = (c, db2)" by fastforce
  then obtain cab where cab: "c = Inr cab" using rb f row by (cases c) (auto simp: ozon_Rollback_def)
  obtain e db3 where ch: "rollback_checks env row db2 = (e, db3)" by fastforce
  then have e: "e = None" using rb f row c cab by (cases e) (auto simp: ozon_Rollback_def)
  have p2: "xp_prices db2 = xp_prices db"
    using c 1(2) by (auto simp: resolveCabinet_def resolveCabinetReadOnly_def xp_find_def read_ok [OF ok] split: option.splits if_splits)
  have p3: "xp_prices db3 = xp_prices db2"
    using ch e by (auto simp: rollback_checks_def mirror_row_def hourlyWriteGuard_def read_ok [OF ok] split: option.splits if_splits)
  have st: "xc_Status row = OzonPriceStatusApplied" using ch e by (auto simp: rollback_checks_def split: if_splits)
  have calm3: "calm db1 db3"
    using ch
  proof (cases rule: rollback_checks_cases)
    case (passed d)
    then show ?thesis using calm_resolve [OF c] hourly_guard_tick [OF passed(5)] calm_trans calm_tick by blast
  qed (simp add: e)
  then have calm3: "calm db db3" using 1(2) calm_trans calm_tick by blast
  have "xc_OldPriceRub row \<noteq> None"
  proof
    assume "xc_OldPriceRub row = None"
    then show False using rb f row c cab ch e ok by (simp add: ozon_Rollback_def xp_exec_def InsertOzonPriceChange_def Let_def)
  qed
  then obtain p where p: "xc_OldPriceRub row = Some p" by auto
  define n where "n = (rollback_change row (''rollback of '' @ show_id (xc_ID row)))\<lparr>xc_ID := xe_uuid env (xp_calls db3), xc_NewPriceRub := p,
        xc_Error := None, xc_CreatedAt := xp_now env db3, xc_AppliedAt := None\<rparr>"
  define db4 where "db4 = xp_tick (db3\<lparr>xp_changes := xp_changes db3 @ [n]\<rparr>)"
  have ins: "xp_exec env (InsertOzonPriceChange (rollback_change row (''rollback of '' @ show_id (xc_ID row))) (xc_OldPriceRub row)) db3 = (Some (xc_ID n), db4)"
    using ok by (simp add: xp_exec_def InsertOzonPriceChange_def p n_def db4_def xp_now_def Let_def)
  obtain err db5 where ap: "applyIntents env (xc_SellerCabinetID row) [ozon_rollback_intent (xc_ID n) row] db4 = (err, db5)" by fastforce
  have r: "(case err of Some e \<Rightarrow> (Inl e, db5) | None \<Rightarrow>
      (case xp_find env (GetOzonPriceChangeByID (xc_ID n)) (Failed ''reload rollback change'') (Failed ''reload rollback change'') db5 of
         (Inl e, db6) \<Rightarrow> (Inl e, db6)
       | (Inr fresh, db6) \<Rightarrow>
         if xc_Status fresh \<noteq> OzonPriceStatusApplied
         then (Inl (App (validation_error (''rollback write failed: '' @ (case xc_Error fresh of None \<Rightarrow> [] | Some m \<Rightarrow> m)))), db6)
         else (Inr fresh, snd (xp_exec env (\<lambda>now _ db. Some (MarkOzonPriceChangeResult (xc_ID row) OzonPriceStatusRolledBack None now db)) db6))))
      = (Inr fresh, db')"
    using rb f row c cab ch e ins ap by (simp add: ozon_Rollback_def ozon_rollback_intent_def)
  have fin: "GetOzonPriceChangeByID (xc_ID n) db5 = Some fresh" "xc_Status fresh = OzonPriceStatusApplied"
    "db' = xp_tick (MarkOzonPriceChangeResult (xc_ID row) OzonPriceStatusRolledBack None (xp_now env (xp_tick db5)) (xp_tick db5))"
    using r by (auto simp: xp_find_def read_ok [OF ok] exec_ok [OF ok] split: option.splits if_splits)
  show ?thesis
    by (rule that [OF 1(1) st p calm3 _ n_def ap [unfolded db4_def] fin]) (simp add: p2 p3)
qed

text \<open>
  C26 A rollback restores the price. When no statement fails and the old price survives the way through a \<^verbatim>\<open>float64\<close> column value, a
  rollback that reports success has sent exactly the old price as its only request, has recorded it as an applied change,
  has put it back into the row of the product and has marked the original change, which was applied, as rolled back.
\<close>

theorem ozon_rollback_restores_price:
  assumes "live_price_env env" "good_writes env db" "\<forall>n. \<not> xe_fault env n" "ozon_Rollback show_id env ws i db = (Inr fresh, db')"
    and "GetOzonPriceChangeByID i db = Some row" "xc_OldPriceRub row = Some p" "xe_numeric env (pgNumericToFloat (Some p)) = Some p"
  shows "\<exists>u. xp_sent db' = xp_sent db @ [(xc_SellerCabinetID row, [u])] \<and> pu_ProductID u = xc_Sku row \<and> pu_PriceRub u = pgNumericToFloat (Some p) \<and>
     xc_Status row = OzonPriceStatusApplied \<and> xc_Status fresh = OzonPriceStatusApplied \<and> xc_NewPriceRub fresh = p \<and>
     xp_changes db' = map (\<lambda>c. if xc_ID c = i then c\<lparr>xc_Status := OzonPriceStatusRolledBack, xc_Error := None\<rparr> else c) (xp_changes db) @ [fresh] \<and>
     map ozp_PriceRub (filter (\<lambda>r. ozp_SellerCabinetID r = xc_SellerCabinetID row \<and> ozp_Sku r = xc_Sku row) (xp_prices db')) =
       replicate (length (filter (\<lambda>r. ozp_SellerCabinetID r = xc_SellerCabinetID row \<and> ozp_Sku r = xc_Sku row) (xp_prices db))) (Some p)"
proof -
  from assms(3,4) obtain row' p' db3 c err db5 where
    s': "GetOzonPriceChangeByID i db = Some row'" "xc_Status row' = OzonPriceStatusApplied" "xc_OldPriceRub row' = Some p'"
    "calm db db3" "xp_prices db3 = xp_prices db"
    "c = (rollback_change row' (''rollback of '' @ show_id (xc_ID row')))\<lparr>xc_ID := xe_uuid env (xp_calls db3), xc_NewPriceRub := p',
        xc_Error := None, xc_CreatedAt := xp_now env db3, xc_AppliedAt := None\<rparr>"
    "applyIntents env (xc_SellerCabinetID row') [ozon_rollback_intent (xc_ID c) row'] (xp_tick (db3\<lparr>xp_changes := xp_changes db3 @ [c]\<rparr>)) = (err, db5)"
    "GetOzonPriceChangeByID (xc_ID c) db5 = Some fresh" "xc_Status fresh = OzonPriceStatusApplied"
    "db' = xp_tick (MarkOzonPriceChangeResult (xc_ID row') OzonPriceStatusRolledBack None (xp_now env (xp_tick db5)) (xp_tick db5))"
    by (rule rollback_success)
  have same: "row' = row" "p' = p" using s'(1,3) assms(5,6) by auto
  have s: "GetOzonPriceChangeByID i db = Some row" "xc_Status row = OzonPriceStatusApplied" "xc_OldPriceRub row = Some p"
    "calm db db3" "xp_prices db3 = xp_prices db"
    "c = (rollback_change row (''rollback of '' @ show_id (xc_ID row)))\<lparr>xc_ID := xe_uuid env (xp_calls db3), xc_NewPriceRub := p,
        xc_Error := None, xc_CreatedAt := xp_now env db3, xc_AppliedAt := None\<rparr>"
    "applyIntents env (xc_SellerCabinetID row) [ozon_rollback_intent (xc_ID c) row] (xp_tick (db3\<lparr>xp_changes := xp_changes db3 @ [c]\<rparr>)) = (err, db5)"
    "GetOzonPriceChangeByID (xc_ID c) db5 = Some fresh" "xc_Status fresh = OzonPriceStatusApplied"
    "db' = xp_tick (MarkOzonPriceChangeResult (xc_ID row) OzonPriceStatusRolledBack None (xp_now env (xp_tick db5)) (xp_tick db5))"
    using s' by (simp_all add: same)
  let ?own = "\<lambda>r. ozp_SellerCabinetID r = xc_SellerCabinetID row \<and> ozp_Sku r = xc_Sku row"
  have id: "xc_ID row = i" using s(1) by (auto simp: GetOzonPriceChangeByID_def find_Some_iff)
  have ch3: "xp_changes db3 = xp_changes db" "xp_sent db3 = xp_sent db" using s(4) by (simp_all add: calm_def)
  have cid: "xc_ID c = xe_uuid env (xp_calls db3)" by (simp add: s(6))
  have less: "xp_calls db \<le> xp_calls db3" using s(4) by (simp add: calm_def)
  have new: "xc_ID c \<notin> xc_ID ` set (xp_changes db)"
    using assms(1,2) less by (fastforce simp: cid good_writes_def live_price_env_def inj_eq)
  have "row \<in> set (xp_changes db)" using s(1) by (auto simp: GetOzonPriceChangeByID_def find_Some_iff)
  then have ne: "xc_ID c \<noteq> i" using new id by auto
  note one = apply_one [OF assms(3) _ _ _ s(7), of "xp_changes db" c fresh]
  obtain t where t: "fresh = c\<lparr>xc_Status := OzonPriceStatusApplied, xc_Error := None, xc_AppliedAt := Some t\<rparr>" "xp_changes db5 = xp_changes db @ [fresh]"
    using one(1) s(8,9) new by (auto simp: ozon_rollback_intent_def ch3)
  have pr: "xp_prices db' = xp_prices (UpdateOzonProductPriceMirror (xc_SellerCabinetID row) (xc_Sku row) (Some p)
      (floatPtrToPgNumeric env (pi_OldPriceRub (ozon_rollback_intent (xc_ID c) row))) None db)"
    using one(2) s(3,5,8,9,10) new assms(7)
    by (simp add: ozon_rollback_intent_def ch3 MarkOzonPriceChangeResult_def UpdateOzonProductPriceMirror_def floatPtrToPgNumeric_def)
  have sent: "xp_sent db' = xp_sent db @ [(xc_SellerCabinetID row, [intent_update (ozon_rollback_intent (xc_ID c) row)])]"
    using one(3) s(8,9,10) new by (simp add: ozon_rollback_intent_def ch3 MarkOzonPriceChangeResult_def)
  have ch: "xp_changes db' = map (\<lambda>c. if xc_ID c = i then c\<lparr>xc_Status := OzonPriceStatusRolledBack, xc_Error := None\<rparr> else c) (xp_changes db) @ [fresh]"
    using ne t by (simp add: s(10) MarkOzonPriceChangeResult_def id ozon_price_status_defs)
  have own: "map ozp_PriceRub (filter ?own (map (\<lambda>r. if ?own r then r\<lparr>ozp_PriceRub := Some p, opr_OldPriceRub := f r, opr_MinPriceRub := g r\<rparr> else r) rs))
      = replicate (length (filter ?own rs)) (Some p)" for f g rs
    by (induction rs) auto
  show ?thesis
    using s(1,2,3,9) sent ch pr own t(1)
    by (intro exI [where x = "intent_update (ozon_rollback_intent (xc_ID c) row)"])
      (simp add: intent_update_def ozon_rollback_intent_def UpdateOzonProductPriceMirror_def s(6))
qed

definition wit_rolled_db :: price_db where
  "wit_rolled_db = snd (ozon_Rollback (\<lambda>_. ''x'') wit_price_env 9 4 wit_manual_db)"

lemma wit_rollback: "\<exists>fresh. ozon_Rollback (\<lambda>_. ''x'') wit_price_env 9 4 wit_manual_db = (Inr fresh, wit_rolled_db) \<and>
    xp_sent wit_rolled_db = xp_sent wit_manual_db @ [(7, [\<lparr>pu_ProductID = 5, pu_PriceRub = Fin 1000, pu_OldPriceRub = None, pu_MinPriceRub = None\<rparr>])]"
  by (simp add: wit_rolled_db_def ozon_Rollback_def rollback_checks_def rollback_change_def pgNumericToFloat_def wit_manual_db_def price_eval
      f64_defs f64_eval rnd_eval go_eval)

theorem ozon_rollback_restores_price_witness:
  "\<exists>fresh u. ozon_Rollback (\<lambda>_. ''x'') wit_price_env 9 4 wit_manual_db = (Inr fresh, wit_rolled_db) \<and>
     xp_sent wit_rolled_db = xp_sent wit_manual_db @ [(7, [u])] \<and> pu_PriceRub u = Fin 1000 \<and> xc_NewPriceRub fresh = 1000"
proof -
  obtain fresh where f: "ozon_Rollback (\<lambda>_. ''x'') wit_price_env 9 4 wit_manual_db = (Inr fresh, wit_rolled_db)"
    using wit_rollback by blast
  have good: "good_writes wit_price_env wit_manual_db"
    using price_history.inv_reachable [OF wit_step] wit_live by (simp add: writes_inv_def)
  have row: "GetOzonPriceChangeByID 4 wit_manual_db = Some wit_change" "xc_OldPriceRub wit_change = Some 1000" "xc_SellerCabinetID wit_change = 7"
    by (simp_all add: GetOzonPriceChangeByID_def wit_manual_db_def wit_change_def)
  have num: "pgNumericToFloat (Some 1000) = Fin 1000" by (simp add: pgNumericToFloat_def f64_defs f64_eval rnd_eval go_eval)
  show ?thesis
    using ozon_rollback_restores_price [OF wit_live good _ f row(1,2)] f num row(3) by (auto simp: wit_price_env_def)
qed

section \<open>Automatic changes\<close>

lemma pages_all: "load_pages env rest out db = (Some x, db') \<Longrightarrow> x = out @ rest"
proof (induction env rest out db rule: load_pages.induct)
  case (1 env rest out db)
  show ?case
  proof (cases "xe_fault env (xp_calls db)")
    case False
    then have r: "xp_read env (\<lambda>_. take ozonRepricerPageSize rest) db = (Some (take ozonRepricerPageSize rest), xp_tick db)"
      by (simp add: xp_read_def)
    show ?thesis
      using 1(1) [OF r [symmetric] refl] 1(2) by (auto simp: load_pages.simps [of env rest] r append_assoc min_def split: if_splits)
  qed (use 1(2) in \<open>simp add: load_pages.simps [of env rest] xp_read_def\<close>)
qed

definition cabinet_economics :: "uuid \<Rightarrow> price_db \<Rightarrow> string \<rightharpoonup> OzonProductEconomic" where
  "cabinet_economics cab db = foldl (\<lambda>m e. m(ope_OfferID e \<mapsto> e)) Map.empty (filter (\<lambda>e. ope_SellerCabinetID e = cab) (xp_economics db))"

text \<open>A change to send that the strategies of a cabinet justify.\<close>

definition justified :: "(string \<rightharpoonup> OzonProductEconomic) \<Rightarrow> ozonStrategyAux \<Rightarrow> int \<Rightarrow> ozon_price_row list \<Rightarrow> Strategy list \<Rightarrow> ozonPriceIntent \<Rightarrow> bool" where
  "justified economics aux now rows ss i \<longleftrightarrow> (\<exists>s \<in> set ss. \<exists>row \<in> set rows. \<exists>d.
     is_auto_mode (MergedPriceParams (st_Params s)) \<and> pi_SKU i = ozp_Sku row \<and> pi_NewPriceRub i = od_NewPriceRub d \<and>
     product_decision s (MergedPriceParams (st_Params s)) row economics aux now = Some d)"

definition acc_ok :: "(ozonPriceIntent \<Rightarrow> bool) \<Rightarrow> run_acc \<Rightarrow> bool" where
  "acc_ok P acc \<longleftrightarrow> (\<forall>i \<in> set (ra_intents acc). P i) \<and> distinct (map pi_SKU (ra_intents acc)) \<and> pi_SKU ` set (ra_intents acc) \<subseteq> ra_decided acc"

lemma evaluate_decision: "ozon_evaluateProduct env cab s params row economics aux now db = (Some d, db') \<Longrightarrow>
    product_decision s params row economics aux now = Some d"
  by (auto simp: ozon_evaluateProduct_def split: option.splits prod.splits bool.splits if_splits)

lemma run_rows_ok:
  assumes "run_rows env cab s economics aux now rows acc db = (e, acc', db')" "acc_ok P acc"
    and "\<And>i. justified economics aux now rows [s] i \<Longrightarrow> P i"
  shows "acc_ok P acc' \<and> xp_sent db' = xp_sent db"
  using assms
proof (induction rows arbitrary: acc db)
  case (Cons row rows)
  define params where "params = MergedPriceParams (st_Params s)"
  have P: "justified economics aux now rows [s] i \<Longrightarrow> P i" for i using Cons.prems(3) by (auto simp: justified_def)
  show ?case
  proof (cases "ozp_Sku row \<in> ra_decided acc")
    case True
    then show ?thesis using Cons.IH [OF _ Cons.prems(2) P] Cons.prems(1) by simp
  next
    case False
    obtain d db1 where ev: "ozon_evaluateProduct env cab s params row economics aux now db = (d, db1)" by fastforce
    have sent1: "xp_sent db1 = xp_sent db" using evaluate_tick [OF ev] by simp
    show ?thesis
    proof (cases d)
      case None
      then show ?thesis using Cons.IH [OF _ Cons.prems(2) P] Cons.prems(1) False ev sent1 by (simp add: params_def [symmetric])
    next
      case (Some dec)
      let ?c = "strategy_change env cab s params row dec"
      obtain r db2 where ins: "xp_exec env (InsertOzonPriceChange ?c (xe_numeric env (od_NewPriceRub dec))) db1 = (r, db2)" by fastforce
      have sent2: "xp_sent db2 = xp_sent db" using ins sent1
        by (auto simp: xp_exec_def Let_def InsertOzonPriceChange_def split: if_splits option.splits)
      show ?thesis
      proof (cases r)
        case None
        have "acc_ok P (acc\<lparr>ra_decided := insert (ozp_Sku row) (ra_decided acc)\<rparr>)"
          using Cons.prems(2) by (simp add: acc_ok_def subset_insertI2)
        then show ?thesis using None Cons.prems(1) False ev Some ins sent2 by (auto simp: params_def [symmetric])
      next
        case (Some newID)
        define i where "i = \<lparr>pi_ChangeID = newID, pi_SKU = ozp_Sku row, pi_NewPriceRub = od_NewPriceRub dec, pi_OldPriceRub = None, pi_MinPriceRub = None\<rparr>"
        define acc2 where "acc2 = \<lparr>ra_decided = insert (ozp_Sku row) (ra_decided acc), ra_written = ra_written acc + 1,
          ra_intents = ra_intents acc @ (if is_auto_mode params then [i] else [])\<rparr>"
        have "product_decision s params row economics aux now = Some dec" using ev \<open>d = Some dec\<close> evaluate_decision by blast
        then have "is_auto_mode params \<Longrightarrow> P i"
          by (intro Cons.prems(3)) (auto simp: justified_def params_def i_def)
        then have "acc_ok P acc2" using Cons.prems(2) False by (auto simp: acc_ok_def acc2_def i_def)
        moreover have "run_rows env cab s economics aux now rows acc2 db2 = (e, acc', db')"
          using Cons.prems(1) False ev \<open>d = Some dec\<close> ins Some
          by (cases "is_auto_mode params") (simp_all add: params_def [symmetric] acc2_def i_def)
        ultimately show ?thesis using Cons.IH [OF _ _ P] sent2 by simp
      qed
    qed
  qed
qed simp

lemma run_strategies_ok:
  assumes "run_cabinet_strategies env cab economics aux now prices ss acc db = (e, acc', db')" "acc_ok P acc"
    and "\<And>i. justified economics aux now prices ss i \<Longrightarrow> P i"
  shows "acc_ok P acc' \<and> xp_sent db' = xp_sent db"
  using assms
proof (induction ss arbitrary: acc db)
  case (Cons s ss)
  obtain e1 acc1 db1 where r: "run_rows env cab s economics aux now prices acc db = (e1, acc1, db1)" by (metis prod.exhaust)
  have P: "justified economics aux now prices ss i \<Longrightarrow> P i" "justified economics aux now prices [s] i \<Longrightarrow> P i" for i
    using Cons.prems(3) by (auto simp: justified_def)
  have 1: "acc_ok P acc1 \<and> xp_sent db1 = xp_sent db" by (rule run_rows_ok [OF r Cons.prems(2) P(2)])
  then show ?case using Cons.IH [OF _ _ P(1)] Cons.prems(1) r by (cases e1) auto
qed simp

lemma apply_sent: "applyIntents env cab is db = (err, db') \<Longrightarrow> xp_sent db' = xp_sent db @ [(cab, map intent_update is)]"
proof -
  have settle: "xp_sent (foldl (\<lambda>db i. settle_intent env cab outcome we i db) d is) = xp_sent d" for outcome we d
    by (induction "is" arbitrary: d)
      (auto simp: settle_intent_def Let_def xp_exec_def MarkOzonPriceChangeResult_def UpdateOzonProductPriceMirror_def split: prod.splits)
  show "applyIntents env cab is db = (err, db') \<Longrightarrow> xp_sent db' = xp_sent db @ [(cab, map intent_update is)]"
    by (auto simp: applyIntents_def send_updates_def settle split: prod.splits)
qed

text \<open>Loading data changes nothing but the number of the next statement.\<close>

definition ticked :: "price_db \<Rightarrow> price_db \<Rightarrow> bool" where
  "ticked db db' \<longleftrightarrow> (\<exists>n. db' = db\<lparr>xp_calls := n\<rparr>)"

lemma ticked_trans: "ticked a b \<Longrightarrow> ticked b c \<Longrightarrow> ticked a c"
  by (auto simp: ticked_def)

lemma ticked_read: "xp_read env q db = (x, db') \<Longrightarrow> ticked db db'"
  by (auto simp: xp_read_def ticked_def xp_tick_def)

lemma ticked_resolve: "resolveCabinet env ws cab db = (x, db') \<Longrightarrow> ticked db db'"
  by (auto simp: resolveCabinet_def resolveCabinetReadOnly_def xp_find_def
      dest!: ticked_read split: prod.splits sum.splits option.splits if_splits)

lemma ticked_economics: "loadCabinetEconomics env cab db = (x, db') \<Longrightarrow> ticked db db'"
  by (auto simp: loadCabinetEconomics_def dest: ticked_read split: prod.splits option.splits)

lemma ticked_pages: "load_pages env rest out db = (x, db') \<Longrightarrow> ticked db db'"
proof (induction env rest out db rule: load_pages.induct)
  case (1 env rest out db)
  obtain r db1 where r: "xp_read env (\<lambda>_. take ozonRepricerPageSize rest) db = (r, db1)" by (metis prod.exhaust)
  note e = ticked_read [OF r]
  show ?case
  proof (cases r)
    case None
    then show ?thesis using e 1(2) by (simp add: load_pages.simps [of env rest] r)
  next
    case (Some rows)
    then show ?thesis using e 1(1) [OF r [symmetric] Some] 1(2) ticked_trans [OF e]
      by (auto simp: load_pages.simps [of env rest] r split: if_splits)
  qed
qed

text \<open>The strategy data of a run: what \<open>loadStrategyAux\<close> reads from the tables as they were before the run, and the time after it.\<close>

definition run_data_at :: "price_env \<Rightarrow> uuid \<Rightarrow> Strategy list \<Rightarrow> price_db \<Rightarrow> ozonStrategyAux \<Rightarrow> int \<Rightarrow> bool" where
  "run_data_at env cab ss db aux now \<longleftrightarrow> (\<exists>n db4. loadStrategyAux env cab ss (db\<lparr>xp_calls := n\<rparr>) = (Some aux, db4) \<and> now = xp_now env db4)"

lemma run_cabinet_sends:
  assumes "runCabinet env ws cab ss db = (r, db')"
  shows "xp_sent db' = xp_sent db \<or>
    (\<exists>is aux now. xp_sent db' = xp_sent db @ [(cab, map intent_update is)] \<and> distinct (map pi_SKU is) \<and>
       run_data_at env cab ss db aux now \<and>
       (\<forall>i \<in> set is. justified (cabinet_economics cab db) aux now (ListOzonProductPrices env cab db) ss i))"
proof -
  obtain c db1 where c: "resolveCabinet env ws cab db = (c, db1)" by fastforce
  obtain p db2 where p: "loadCabinetPrices env cab db1 = (p, db2)" by fastforce
  obtain ec db3 where ec: "loadCabinetEconomics env cab db2 = (ec, db3)" by fastforce
  obtain aux db4 where aux: "loadStrategyAux env cab ss db3 = (aux, db4)" by fastforce
  note calm = calm_resolve [OF c] calm_prices [OF p] calm_economics [OF ec] calm_aux [OF aux]
  have sent: "xp_sent db1 = xp_sent db" "xp_sent db2 = xp_sent db" "xp_sent db3 = xp_sent db" "xp_sent db4 = xp_sent db"
    using calm by (simp_all add: calm_def)
  have "ticked db db3"
    using ticked_resolve [OF c] ticked_pages [OF p [unfolded loadCabinetPrices_def]] ticked_economics [OF ec] ticked_trans by blast
  then have data: "aux \<noteq> None \<Longrightarrow> run_data_at env cab ss db (the aux) (xp_now env db4)"
    using aux by (auto simp: run_data_at_def ticked_def)
  have prices: "p = None \<or> p = Some (ListOzonProductPrices env cab db)"
    using p calm(1) by (cases p) (auto simp: loadCabinetPrices_def calm_def ListOzonProductPrices_def dest: pages_all)
  have econ: "ec = None \<or> ec = Some (cabinet_economics cab db)"
    using ec calm(1,2) by (auto simp: loadCabinetEconomics_def xp_read_def calm_def cabinet_economics_def split: if_splits)
  obtain e acc db5 where run: "run_cabinet_strategies env cab (the ec) (the aux) (xp_now env db4) (the p) ss no_acc db4 = (e, acc, db5)"
    by (metis prod.exhaust)
  obtain err db6 where ap: "applyIntents env cab (ra_intents acc) db5 = (err, db6)" by fastforce
  have "acc_ok (justified (the ec) (the aux) (xp_now env db4) (the p) ss) no_acc" by (simp add: acc_ok_def no_acc_def)
  from run_strategies_ok [OF run this] have ok: "acc_ok (justified (the ec) (the aux) (xp_now env db4) (the p) ss) acc" "xp_sent db5 = xp_sent db"
    using sent(4) by simp_all
  have "xp_sent db6 = xp_sent db @ [(cab, map intent_update (ra_intents acc))]" using apply_sent [OF ap] ok(2) by simp
  then show ?thesis
    using assms c p ec aux run ap sent prices econ ok data
    by (auto simp: runCabinet_def acc_ok_def split: sum.splits option.splits if_splits prod.splits)
qed

lemma price_finite: "\<exists>x. pgNumericToFloat v = Fin x"
  by (auto simp: pgNumericToFloat_def split: option.splits f64.splits)

lemma decision_parts:
  assumes "product_decision s params row economics aux now = Some d"
  obtains c fl where "pgNumericToFloat (ozp_PriceRub row) = Fin c" "0 < c" "row_floor params row (row_econ economics row) = (fl, [])"
    "row_decision s params row (row_econ economics row) aux (Fin c) fl = Some d" "od_ShouldChange d"
proof -
  obtain c where c: "pgNumericToFloat (ozp_PriceRub row) = Fin c" using price_finite by blast
  obtain fl reason where "row_floor params row (row_econ economics row) = (fl, reason)" by fastforce
  then show ?thesis using assms that [of c fl] c by (auto simp: product_decision_def Let_def split: if_splits option.splits)
qed

text \<open>
  C17 An automatic price cut respects the floor. Every price that the run of a cabinet sends is exactly the new price that the decision
  of one of the run's strategies in automatic mode has for a product of this cabinet, decided on the current price, the costs and the
  strategy data of the run, and no product is in the request twice; when the price is below the current one, it is not below
  the floor that follows from the costs and commissions of the product. The strategies' step is at most the ten percent that the
  validation allows.
\<close>

theorem automatic_cut_keeps_floor:
  assumes "runCabinet env ws cab ss db = (r, db')" "xp_sent db' = xp_sent db @ [(cab', us)]" "u \<in> set us"
    and "\<forall>s \<in> set ss. 0 \<le> StepPercent (st_Params s) \<and> StepPercent (st_Params s) \<le> Fin 10"
  shows "cab' = cab \<and> distinct (map pu_ProductID us) \<and>
    (\<exists>s \<in> set ss. \<exists>row \<in> set (xp_prices db). \<exists>c fl d aux now. is_auto_mode (MergedPriceParams (st_Params s)) \<and>
       ozp_SellerCabinetID row = cab \<and> ozp_Sku row = pu_ProductID u \<and> pgNumericToFloat (ozp_PriceRub row) = Fin c \<and>
       run_data_at env cab ss db aux now \<and>
       product_decision s (MergedPriceParams (st_Params s)) row (cabinet_economics cab db) aux now = Some d \<and>
       pu_PriceRub u = od_NewPriceRub d \<and>
       row_floor (MergedPriceParams (st_Params s)) row (row_econ (cabinet_economics cab db) row) = (fl, []) \<and>
       (\<forall>f p. fl = Fin f \<and> pu_PriceRub u = Fin p \<and> 0 < f \<and> f \<le> 10 ^ 7 \<and> c \<le> 10 ^ 7 \<and> p < c \<longrightarrow> f \<le> p))"
proof -
  obtain "is" aux now where us: "cab' = cab" "us = map intent_update is" "distinct (map pi_SKU is)" "run_data_at env cab ss db aux now"
    "\<forall>i \<in> set is. justified (cabinet_economics cab db) aux now (ListOzonProductPrices env cab db) ss i"
    using run_cabinet_sends [OF assms(1)] assms(2) by auto
  have d: "distinct (map pu_ProductID us)" using us(3) by (simp add: us(2) intent_update_def comp_def)
  obtain i where i: "i \<in> set is" "u = intent_update i" using assms(3) us(2) by auto
  then obtain s row dec where j: "s \<in> set ss" "row \<in> set (ListOzonProductPrices env cab db)" "is_auto_mode (MergedPriceParams (st_Params s))"
    "pi_SKU i = ozp_Sku row" "pi_NewPriceRub i = od_NewPriceRub dec"
    "product_decision s (MergedPriceParams (st_Params s)) row (cabinet_economics cab db) aux now = Some dec"
    using us(5) by (auto simp: justified_def)
  obtain c fl where cf: "pgNumericToFloat (ozp_PriceRub row) = Fin c" "0 < c"
    "row_floor (MergedPriceParams (st_Params s)) row (row_econ (cabinet_economics cab db) row) = (fl, [])"
    "row_decision s (MergedPriceParams (st_Params s)) row (row_econ (cabinet_economics cab db) row) aux (Fin c) fl = Some dec" "od_ShouldChange dec"
    using j(6) by (rule decision_parts)
  have sent: "pu_PriceRub u = od_NewPriceRub dec" using i(2) j(5) by (simp add: intent_update_def)
  have step: "0 \<le> StepPercent (st_Params s)" "StepPercent (st_Params s) \<le> Fin 10" using assms(4) j(1) by auto
  have cut: "f \<le> p" if "fl = Fin f" "pu_PriceRub u = Fin p" "0 < f" "f \<le> 10 ^ 7" "c \<le> 10 ^ 7" "p < c" for f p
    by (rule row_cut [OF cf(4) [unfolded that(1)] cf(2) that(5,3,4) step cf(5) that(2) [unfolded sent] that(6)])
  have row: "row \<in> set (xp_prices db)" "ozp_SellerCabinetID row = cab" using j(2) by (auto simp: ListOzonProductPrices_def)
  have sku: "ozp_Sku row = pu_ProductID u" using i(2) j(4) by (simp add: intent_update_def)
  show ?thesis using us(1,4) d row sku j(1,3,6) cf(1,3) cut sent by blast
qed

definition wit_run_row :: ozon_price_row where
  "wit_run_row = wit_row\<lparr>ozp_NetPriceRub := Some 650, opr_SyncedAt := Some 0\<rparr>"

definition wit_run_strategy :: Strategy where
  "wit_run_strategy = wit_ozon_strategy\<lparr>st_Params := (st_Params wit_ozon_strategy)\<lparr>PriceApplyMode := PriceApplyModeAuto\<rparr>\<rparr>"

definition wit_run_db :: price_db where
  "wit_run_db = wit_price_db\<lparr>xp_prices := [wit_run_row]\<rparr>"

lemma wit_run_params:
  "StepPercent (MergedPriceParams (st_Params wit_run_strategy)) = Fin 5" "UndercutPercent (MergedPriceParams (st_Params wit_run_strategy)) = Fin 10"
  "is_auto_mode (MergedPriceParams (st_Params wit_run_strategy))" "TargetMarginPercent (MergedPriceParams (st_Params wit_run_strategy)) = Fin 0"
  "PriceCooldownHours (MergedPriceParams (st_Params wit_run_strategy)) = 24" "MaxPriceChangesPerDay (MergedPriceParams (st_Params wit_run_strategy)) = 2"
  by (simp_all add: wit_run_strategy_def wit_ozon_strategy_def is_auto_mode_def price_wit_defs PriceApplyModeAuto_def)

lemma wit_run_floor: "row_floor (MergedPriceParams (st_Params wit_run_strategy)) wit_run_row None = (Fin 880, [])"
  by (simp add: row_floor_def wit_run_row_def wit_row_def computeOzonFloor_def wit_run_params ozonEffectiveNetPrice_def floor_denom_def
     pgNumericToFloat_def lit_005 roundRub_def f64_defs f64_eval rnd_eval go_eval)

lemma wit_run_decision: "\<exists>d. product_decision wit_run_strategy (MergedPriceParams (st_Params wit_run_strategy)) wit_run_row Map.empty empty_aux 3 = Some d \<and>
    od_NewPriceRub d = Fin 950"
proof -
  have t: "competitor_target (Fin 1000) (Fin 880) (Fin 700) (Fin 10) (Fin 5) = Fin 950"
    "\<not> \<bar>Fin 950 - Fin 1000\<bar> < math_Max minOzonPriceDeltaRub (Fin 1000 * lit (1/100))" "\<not> \<bar>Fin 950 - Fin 1000\<bar> < minOzonPriceDeltaRub"
    by (simp_all add: competitor_target_def roundRub_def minOzonPriceDeltaRub_def f64_defs f64_eval rnd_eval go_eval)
  have c: "pgNumericToFloat (ozp_PriceRub wit_run_row) = Fin 1000" "ozonCompetitorMin wit_run_row = Fin 700"
    by (simp_all add: ozonCompetitorMin_def wit_run_row_def wit_row_def pgNumericToFloat_def f64_defs f64_eval rnd_eval go_eval)
  have ty: "st_Type wit_run_strategy = StrategyTypeOzonPriceCompetitorFollow" by (simp add: wit_run_strategy_def wit_ozon_strategy_def)
  have rd: "row_decision wit_run_strategy (MergedPriceParams (st_Params wit_run_strategy)) wit_run_row None empty_aux (Fin 1000) (Fin 880) =
      Some (decideOzonCompetitorFollow (Fin 1000) (Fin 880) (Fin 700) (Fin 10) (Fin 5))"
    unfolding row_decision_def c(2) wit_run_params(1,2) ty by (simp add: strategy_type_defs)
  have e: "row_econ Map.empty wit_run_row = None" by (simp add: row_econ_def split: option.splits)
  have sync: "opr_SyncedAt wit_run_row = Some 0" by (simp add: wit_run_row_def)
  have d: "od_ShouldChange (decideOzonCompetitorFollow (Fin 1000) (Fin 880) (Fin 700) (Fin 10) (Fin 5))"
    "od_NewPriceRub (decideOzonCompetitorFollow (Fin 1000) (Fin 880) (Fin 700) (Fin 10) (Fin 5)) = Fin 950"
    using t by (simp_all add: decideOzonCompetitorFollow_def no_decision_def Let_def)
  show ?thesis
    using d t(3) by (simp add: product_decision_def Let_def c(1) e sync wit_run_floor rd maxOzonRepricerPriceAge_def hour_def)
qed

lemma wit_run: "\<exists>r db'. runCabinet wit_price_env 9 7 [wit_run_strategy] wit_run_db = (r, db') \<and>
    xp_sent db' = xp_sent wit_run_db @ [(7, [\<lparr>pu_ProductID = 5, pu_PriceRub = Fin 950, pu_OldPriceRub = None, pu_MinPriceRub = None\<rparr>])]"
proof -
  obtain d where d: "product_decision wit_run_strategy (MergedPriceParams (st_Params wit_run_strategy)) wit_run_row Map.empty empty_aux 3 = Some d"
    "od_NewPriceRub d = Fin 950" using wit_run_decision by blast
  have aux: "loadStrategyAux wit_price_env 7 [wit_run_strategy] db = (Some empty_aux, db)" for db
    by (simp add: loadStrategyAux_def wit_run_strategy_def wit_ozon_strategy_def strategy_type_defs)
  have prices: "loadCabinetPrices wit_price_env 7 (xp_tick wit_run_db) = (Some [wit_run_row], xp_tick (xp_tick wit_run_db))"
    by (simp add: loadCabinetPrices_def load_pages.simps ListOzonProductPrices_def ozonRepricerPageSize_def wit_run_db_def wit_run_row_def price_eval)
  have econ: "loadCabinetEconomics wit_price_env 7 (xp_tick (xp_tick wit_run_db)) = (Some Map.empty, xp_tick (xp_tick (xp_tick wit_run_db)))"
    by (simp add: loadCabinetEconomics_def wit_run_db_def price_eval)
  define db3 where "db3 = xp_tick (xp_tick (xp_tick wit_run_db))"
  have now: "xp_now wit_price_env db3 = 3" "xp_changes db3 = []" "xp_sent db3 = []" "xp_calls db3 = 3"
    by (simp_all add: db3_def wit_run_db_def wit_price_db_def xp_now_def wit_price_env_def)
  define db6 where "db6 = xp_tick (xp_tick (xp_tick db3))"
  have ev: "ozon_evaluateProduct wit_price_env 7 wit_run_strategy (MergedPriceParams (st_Params wit_run_strategy)) wit_run_row Map.empty empty_aux 3 db3 = (Some d, db6)"
    unfolding ozon_evaluateProduct_def d(1) wit_run_params
    by (simp add: strategyGuard_def hourlyWriteGuard_def CountOzonStrategyDecisionsBySkuSince_def CountOzonPriceWritesBySkuSince_def xp_read_def
        ozonHourlyGuardReason_def ozonStrategyHourlyWriteCap_def wit_price_env_def db6_def now)
  have env: "\<not> xe_fault wit_price_env n" "xe_numeric wit_price_env (Fin x) = Some x" for n x by (simp_all add: wit_price_env_def)
  have sku: "ozp_Sku wit_run_row = 5" by (simp add: wit_run_row_def wit_row_def)
  have rows: "\<exists>i db7. run_cabinet_strategies wit_price_env 7 Map.empty empty_aux 3 [wit_run_row] [wit_run_strategy] no_acc db3 =
      (None, \<lparr>ra_decided = {5}, ra_written = 1, ra_intents = [i]\<rparr>, db7) \<and> xp_sent db7 = [] \<and>
      intent_update i = \<lparr>pu_ProductID = 5, pu_PriceRub = Fin 950, pu_OldPriceRub = None, pu_MinPriceRub = None\<rparr>"
    by (simp add: ev no_acc_def wit_run_params d(2) xp_exec_def InsertOzonPriceChange_def Let_def intent_update_def env sku db6_def now)
  then obtain i db7 where rows: "run_cabinet_strategies wit_price_env 7 Map.empty empty_aux 3 [wit_run_row] [wit_run_strategy] no_acc db3 =
      (None, \<lparr>ra_decided = {5}, ra_written = 1, ra_intents = [i]\<rparr>, db7)" "xp_sent db7 = []"
    "intent_update i = \<lparr>pu_ProductID = 5, pu_PriceRub = Fin 950, pu_OldPriceRub = None, pu_MinPriceRub = None\<rparr>" by blast
  obtain err db8 where ap: "applyIntents wit_price_env 7 [i] db7 = (err, db8)" by fastforce
  have res: "resolveCabinet wit_price_env 9 7 wit_run_db = (Inr (hd (xp_cabinets wit_run_db)), xp_tick wit_run_db)"
    by (simp add: wit_run_db_def price_eval)
  have paused: "cab_RepricerPausedUntil (hd (xp_cabinets wit_run_db)) = None" by (simp add: wit_run_db_def wit_price_db_def)
  have "runCabinet wit_price_env 9 7 [wit_run_strategy] wit_run_db = ((1, err), db8)"
    unfolding runCabinet_def res
    by (simp add: prices econ aux db3_def [symmetric] paused rows(1) ap now del: run_cabinet_strategies.simps run_rows.simps)
  moreover have "xp_sent wit_run_db = []" by (simp add: wit_run_db_def wit_price_db_def)
  ultimately show ?thesis using apply_sent [OF ap] rows(2,3) by auto
qed

theorem automatic_cut_keeps_floor_witness:
  "\<exists>r db' u. runCabinet wit_price_env 9 7 [wit_run_strategy] wit_run_db = (r, db') \<and> xp_sent db' = xp_sent wit_run_db @ [(7, [u])] \<and>
     pu_PriceRub u = Fin 950 \<and> (880 :: rat) \<le> 950"
proof -
  obtain r db' where w: "runCabinet wit_price_env 9 7 [wit_run_strategy] wit_run_db = (r, db')"
    "xp_sent db' = xp_sent wit_run_db @ [(7, [\<lparr>pu_ProductID = 5, pu_PriceRub = Fin 950, pu_OldPriceRub = None, pu_MinPriceRub = None\<rparr>])]"
    using wit_run by blast
  have "cabinet_economics 7 wit_run_db = Map.empty" by (simp add: cabinet_economics_def wit_run_db_def wit_price_db_def)
  then have e: "row_econ (cabinet_economics 7 wit_run_db) wit_run_row = None" by (simp add: row_econ_def split: option.splits)
  have step: "\<forall>s \<in> set [wit_run_strategy]. 0 \<le> StepPercent (st_Params s) \<and> StepPercent (st_Params s) \<le> Fin 10"
    by (simp add: wit_run_strategy_def wit_ozon_strategy_def zero_f64_def)
  have p: "xp_prices wit_run_db = [wit_run_row]" "pgNumericToFloat (ozp_PriceRub wit_run_row) = Fin 1000"
    by (simp_all add: wit_run_db_def wit_run_row_def wit_row_def pgNumericToFloat_def f64_defs f64_eval rnd_eval go_eval)
  have "(880 :: rat) \<le> 950"
    using automatic_cut_keeps_floor [OF w _ step] by (auto simp: p e wit_run_floor)
  then show ?thesis using w by auto
qed

section \<open>Pause, failures and races\<close>

text \<open>
  A paused cabinet is left alone. While the pause lasts, neither the run of the strategies nor the executor of the calendar
  sends or records anything for the cabinet, and its entries keep their state.
\<close>

theorem paused_cabinet_untouched:
  assumes "ozon_GetSellerCabinetByID cab db = Some c" "cab_RepricerPausedUntil c = Some until" "\<forall>n. xe_now env n < until"
    and "cab_Marketplace c = MarketplaceOzon" "xe_decrypt env (cab_EncryptedCredentials c) = Some True" "\<not> xe_fault env (xp_calls db)"
    and "runCabinet env ws cab ss db = (r, db')" "se_SellerCabinetID entry = cab"
    and "ozon_executeScheduleEntry env entry revert (xe_now env n) db = (q, db'')"
  shows "xp_changes db' = xp_changes db \<and> xp_sent db' = xp_sent db \<and> xp_schedules db' = xp_schedules db \<and>
    xp_changes db'' = xp_changes db \<and> xp_sent db'' = xp_sent db \<and> xp_schedules db'' = xp_schedules db \<and> q = (False, None)"
proof -
  have r: "xp_find env (ozon_GetSellerCabinetByID cab) a b db = (Inr c, xp_tick db)" for a b using assms(1,6) by (simp add: xp_find_def xp_read_def)
  have "db'' = xp_tick db \<and> q = (False, None)"
    using assms(2,3,4,5,8,9) by (auto simp: ozon_executeScheduleEntry_def resolveScheduleCabinet_def r)
  moreover have "db' = xp_tick db"
    using assms(2,3,4,5,7) by (auto simp: runCabinet_def resolveCabinet_def resolveCabinetReadOnly_def r xp_now_def split: if_splits)
  ultimately show ?thesis by simp
qed

text \<open>
  C28 Rolling back a strategy's change lifts its waiting time. The change still counts for the hourly limit, but no longer for the cooldown and
  the daily number of decisions of the strategies, so the next run may repeat the change that was just taken back.
\<close>

theorem rollback_forgets_decision:
  assumes "distinct (map xc_ID (xp_changes db))" "c \<in> set (xp_changes db)" "xc_Source c = PriceSourceStrategy" "xc_Status c = OzonPriceStatusApplied"
    and "since \<le> xc_CreatedAt c" "db' = MarkOzonPriceChangeResult (xc_ID c) OzonPriceStatusRolledBack None t db"
  shows "CountOzonStrategyDecisionsBySkuSince (xc_SellerCabinetID c) (xc_Sku c) since db' =
      CountOzonStrategyDecisionsBySkuSince (xc_SellerCabinetID c) (xc_Sku c) since db - 1 \<and>
    CountOzonPriceWritesBySkuSince (xc_SellerCabinetID c) (xc_Sku c) since db' =
      CountOzonPriceWritesBySkuSince (xc_SellerCabinetID c) (xc_Sku c) since db"
proof -
  obtain as bs where split: "xp_changes db = as @ c # bs" using assms(2) split_list by metis
  have others: "map (\<lambda>x. if xc_ID x = xc_ID c then f x else x) as = as" "map (\<lambda>x. if xc_ID x = xc_ID c then f x else x) bs = bs" for f
    using assms(1) by (simp_all add: split map_other)
  show ?thesis
    using assms(3,4,5)
    by (simp add: assms(6) MarkOzonPriceChangeResult_def split others CountOzonStrategyDecisionsBySkuSince_def
        CountOzonPriceWritesBySkuSince_def write_row_def ozon_price_status_defs)
qed

text \<open>The history of a manual change of two products whose second record fails.\<close>

definition wit_fault_env :: price_env where
  "wit_fault_env = wit_price_env\<lparr>xe_fault := (\<lambda>n. n = 6)\<rparr>"

definition wit_stranded :: OzonPriceChange where
  "wit_stranded = wit_change\<lparr>xc_Status := OzonPriceStatusPending, xc_AppliedAt := None\<rparr>"

text \<open>
  A failing record strands the changes before it. When recording the second item of a manual change fails, the request ends with
  the error: the first item stays pending, nothing is sent for it, and the change still counts against the hourly limit of its product.
\<close>

theorem failed_record_strands_changes:
  "ozon_ApplyManual wit_fault_env 9 7 [wit_item, wit_item\<lparr>mi_SKU := 6\<rparr>] wit_price_db =
     (([], Some (Failed ''record manual price change'')), wit_price_db\<lparr>xp_changes := [wit_stranded], xp_calls := 7\<rparr>) \<and>
   CountOzonPriceWritesBySkuSince 7 5 0 (wit_price_db\<lparr>xp_changes := [wit_stranded], xp_calls := 7\<rparr>) = 1"
  by (simp add: ozon_ApplyManual_def manual_items_error_def manual_item_error_def wit_item_def ozonManualPriceItemsLimit_def
     manual_change_def manual_intent_def wit_fault_env_def wit_stranded_def price_eval)

definition wit_entry :: OzonPriceScheduleEntry where
  "wit_entry = \<lparr>se_ID = 2, se_SellerCabinetID = 7, se_Sku = 5, se_OfferID = Some ''a'', se_ScheduledPriceRub = 900, se_RevertPriceRub = None,
     se_StartsAt = 10, se_EndsAt = None, se_Status = OzonScheduleStatusPending, se_Error = None, se_CreatedAt = 0, se_AppliedAt = None,
     se_RevertedAt = None\<rparr>"

definition wit_calendar_db :: price_db where
  "wit_calendar_db = wit_price_db\<lparr>xp_schedules := [wit_entry], xp_calls := 20\<rparr>"

lemma num_900: "pgNumericToFloat (Some 900) = Fin 900"
  by (simp add: pgNumericToFloat_def f64_defs f64_eval rnd_eval go_eval)

lemmas calendar_eval = ozon_executeScheduleEntry_def resolveScheduleCabinet_def finish_entry_def schedule_change_def scheduled_price_def
  failScheduleEntry_def mark_entry_def MarkOzonPriceScheduleResult_def ozon_CancelSchedule_def CancelOzonPriceScheduleEntry_def
  GetOzonPriceScheduleEntry_def ozon_schedule_status_defs wit_calendar_db_def wit_entry_def num_900 price_eval

text \<open>
  Cancelling does not stop an entry that the executor has already listed. The cancellation of a due entry succeeds, but the executor
  works on the rows it read before: it writes the scheduled price and marks the cancelled entry as applied.
\<close>

theorem cancelled_entry_still_written:
  "case ListDueOzonPriceSchedules 20 wit_calendar_db of due \<Rightarrow>
   case ozon_CancelSchedule wit_price_env 9 2 wit_calendar_db of (refused, db1) \<Rightarrow>
   case execute_entries wit_price_env False 20 due db1 of ((n, errs), db2) \<Rightarrow>
     refused = None \<and> map se_Status (xp_schedules db1) = [OzonScheduleStatusCancelled] \<and>
     n = 1 \<and> map se_Status (xp_schedules db2) = [OzonScheduleStatusApplied] \<and>
     xp_sent db2 = [(7, [\<lparr>pu_ProductID = 5, pu_PriceRub = Fin 900, pu_OldPriceRub = None, pu_MinPriceRub = None\<rparr>])]"
  by (simp add: ListDueOzonPriceSchedules_def ozonScheduleBatch_def calendar_eval)

text \<open>
  A single unreadable row ends an entry of the calendar. When the cabinet cannot be read for a moment, the executor marks the
  due entry as failed for good, whatever its start; nothing was sent, and no later pass lists the entry again.
\<close>

theorem unreadable_cabinet_fails_entry:
  assumes "xe_fault env (xp_calls db)" "\<not> xe_fault env (xp_calls db + 1)" "ozon_executeScheduleEntry env entry revert now db = (r, db')"
  shows "r = (False, None) \<and> xp_sent db' = xp_sent db \<and>
    list_all (\<lambda>e. se_ID e = se_ID entry \<longrightarrow> se_Status e = OzonScheduleStatusFailed) (xp_schedules db') \<and>
    se_ID entry \<notin> se_ID ` set (ListDueOzonPriceSchedules later db') \<and> se_ID entry \<notin> se_ID ` set (ListDueOzonPriceScheduleReverts later db')"
proof -
  obtain err where db': "r = (False, None)" "db' = xp_tick (MarkOzonPriceScheduleResult (se_ID entry) OzonScheduleStatusFailed err
      (xp_now env (xp_tick db)) (xp_tick db))"
    using assms by (auto simp: ozon_executeScheduleEntry_def resolveScheduleCabinet_def xp_find_def xp_read_def failScheduleEntry_def
        mark_entry_def xp_exec_def Let_def xp_now_def)
  have failed: "list_all (\<lambda>e. se_ID e = se_ID entry \<longrightarrow> se_Status e = OzonScheduleStatusFailed) (xp_schedules db')"
    unfolding db' MarkOzonPriceScheduleResult_def list_all_iff by auto
  have "se_ID e \<noteq> se_ID entry" if "e \<in> set (ListDueOzonPriceSchedules later db') \<union> set (ListDueOzonPriceScheduleReverts later db')" for e
  proof -
    have "e \<in> set (xp_schedules db')" "se_Status e = OzonScheduleStatusPending \<or> se_Status e = OzonScheduleStatusApplied"
      using that by (auto simp: ListDueOzonPriceSchedules_def ListDueOzonPriceScheduleReverts_def dest: in_set_takeD)
    moreover from this(2) have "se_Status e \<noteq> OzonScheduleStatusFailed" by (auto simp: ozon_schedule_status_defs)
    ultimately show ?thesis using failed by (auto simp: list_all_iff)
  qed
  then have "se_ID entry \<notin> se_ID ` set (ListDueOzonPriceSchedules later db')" "se_ID entry \<notin> se_ID ` set (ListDueOzonPriceScheduleReverts later db')"
    by (metis UnI1 imageE, metis UnI2 imageE)
  moreover have "xp_sent db' = xp_sent db" by (simp add: db'(2) MarkOzonPriceScheduleResult_def)
  ultimately show ?thesis using failed db'(1) by blast
qed

definition wit_unreadable_env :: price_env where
  "wit_unreadable_env = wit_price_env\<lparr>xe_fault := (\<lambda>n. n = 20)\<rparr>"

theorem unreadable_cabinet_fails_entry_witness:
  "\<exists>db'. ozon_executeScheduleEntry wit_unreadable_env wit_entry False 20 wit_calendar_db = ((False, None), db') \<and>
     se_ID wit_entry \<in> se_ID ` set (ListDueOzonPriceSchedules 20 wit_calendar_db) \<and> se_ID wit_entry \<notin> se_ID ` set (ListDueOzonPriceSchedules 30 db')"
proof -
  obtain r db' where e: "ozon_executeScheduleEntry wit_unreadable_env wit_entry False 20 wit_calendar_db = (r, db')" by fastforce
  have "se_ID wit_entry \<in> se_ID ` set (ListDueOzonPriceSchedules 20 wit_calendar_db)"
    by (simp add: ListDueOzonPriceSchedules_def ozonScheduleBatch_def calendar_eval)
  then show ?thesis
    using unreadable_cabinet_fails_entry [OF _ _ e, of 30] e by (auto simp: wit_unreadable_env_def wit_calendar_db_def wit_price_db_def)
qed

definition wit_paused_db :: price_db where
  "wit_paused_db = wit_run_db\<lparr>xp_cabinets := map (\<lambda>c. c\<lparr>cab_RepricerPausedUntil := Some 9\<rparr>) (xp_cabinets wit_run_db)\<rparr>"

definition wit_stopped_env :: price_env where
  "wit_stopped_env = wit_price_env\<lparr>xe_now := (\<lambda>_. 3)\<rparr>"

theorem paused_cabinet_untouched_witness:
  "\<exists>r db' q db''. runCabinet wit_stopped_env 9 7 [wit_run_strategy] wit_paused_db = (r, db') \<and> xp_sent db' = [] \<and>
     ozon_executeScheduleEntry wit_stopped_env wit_entry False 3 wit_paused_db = (q, db'') \<and> q = (False, None)"
proof -
  let ?c = "(hd (xp_cabinets wit_price_db))\<lparr>cab_RepricerPausedUntil := Some 9\<rparr>"
  obtain r db' where r: "runCabinet wit_stopped_env 9 7 [wit_run_strategy] wit_paused_db = (r, db')" by fastforce
  obtain q db'' where q: "ozon_executeScheduleEntry wit_stopped_env wit_entry False (xe_now wit_stopped_env 0) wit_paused_db = (q, db'')" by fastforce
  have c: "ozon_GetSellerCabinetByID 7 wit_paused_db = Some ?c" "cab_Marketplace ?c = MarketplaceOzon" "cab_RepricerPausedUntil ?c = Some 9"
    by (simp_all add: ozon_GetSellerCabinetByID_def wit_paused_db_def wit_run_db_def wit_price_db_def)
  have e: "\<forall>n. xe_now wit_stopped_env n < 9" "xe_decrypt wit_stopped_env (cab_EncryptedCredentials ?c) = Some True"
    "\<not> xe_fault wit_stopped_env (xp_calls wit_paused_db)" "se_SellerCabinetID wit_entry = 7" "xp_sent wit_paused_db = []"
    "xe_now wit_stopped_env 0 = 3"
    by (simp_all add: wit_stopped_env_def wit_price_env_def wit_entry_def wit_paused_db_def wit_run_db_def wit_price_db_def)
  show ?thesis
    using paused_cabinet_untouched [OF c(1,3) e(1) c(2) e(2,3) r e(4) q] r q e(5,6) by auto
qed

theorem rollback_forgets_decision_witness:
  "CountOzonStrategyDecisionsBySkuSince 7 5 0
     (MarkOzonPriceChangeResult 4 OzonPriceStatusRolledBack None 9 (wit_manual_db\<lparr>xp_changes := [wit_change\<lparr>xc_Source := PriceSourceStrategy\<rparr>]\<rparr>)) = 0"
proof -
  let ?c = "wit_change\<lparr>xc_Source := PriceSourceStrategy\<rparr>"
  let ?db = "wit_manual_db\<lparr>xp_changes := [?c]\<rparr>"
  have c: "xc_ID ?c = 4" "xc_SellerCabinetID ?c = 7" "xc_Sku ?c = 5" "xc_Status ?c = OzonPriceStatusApplied" "0 \<le> xc_CreatedAt ?c"
    by (simp_all add: wit_change_def)
  have "CountOzonStrategyDecisionsBySkuSince 7 5 0 ?db = 1"
    using c by (simp add: CountOzonStrategyDecisionsBySkuSince_def)
  then show ?thesis using rollback_forgets_decision [OF _ _ _ c(4,5) refl, of ?db 9] c by simp
qed

end
