(* ===== verification/Strategy_Validation.thy ===== *)
theory Strategy_Validation
  imports Strategy_Params
begin

text \<open>
  The checks of \<^verbatim>\<open>internal/service/strategy.go\<close> that every strategy passes before it is
  stored: the common limits, the checks of each strategy type and the repricer parameters. The
  time-zone database is a parameter: \<open>tz_ok tz\<close> says that \<^verbatim>\<open>time.LoadLocation\<close> succeeds.
  A map is ranged over in the order of its association list; only the choice among several
  error messages depends on it.
\<close>

section \<open>Checks\<close>

definition msg_drr :: string where "msg_drr = bytes [208, 148, 208, 160, 208, 160]"

fun validate_multipliers :: "int \<Rightarrow> string \<Rightarrow> string \<Rightarrow> (string \<times> f64) list \<Rightarrow> go_error" where
  "validate_multipliers hi kmsg vmsg [] = None"
| "validate_multipliers hi kmsg vmsg ((raw, multiplier) # rest) =
     (case Atoi raw of
        None \<Rightarrow> Some (validation_error kmsg)
      | Some n \<Rightarrow>
        if n < 0 \<or> n > hi then Some (validation_error kmsg)
        else if multiplier \<le> 0 \<or> multiplier > Fin 5 then Some (validation_error vmsg)
        else validate_multipliers hi kmsg vmsg rest)"

definition validateDaypartingStrategy :: "(string \<Rightarrow> bool) \<Rightarrow> StrategyParams \<Rightarrow> go_error" where
  "validateDaypartingStrategy tz_ok p =
     (if BaseMultiplier p < 0 \<or> BaseMultiplier p > Fin 5 then
        Some (validation_error ''base_multiplier must be greater than 0 and at most 5'')
      else
        case validate_multipliers 23 ''hourly_multipliers keys must be hours 0..23''
               ''hourly_multipliers values must be greater than 0 and at most 5'' (HourlyMultipliers p) of
          Some e \<Rightarrow> Some e
        | None \<Rightarrow>
          case validate_multipliers 6 ''weekday_multipliers keys must be weekdays 0..6''
                 ''weekday_multipliers values must be greater than 0 and at most 5'' (WeekdayMultipliers p) of
            Some e \<Rightarrow> Some e
          | None \<Rightarrow>
            let timezone = (if TrimSpace (Timezone p) = [] then ''Europe/Moscow'' else TrimSpace (Timezone p))
            in if \<not> tz_ok timezone then Some (validation_error ''timezone must be a valid IANA timezone'')
               else None)"

definition validateSearchPlaybookStrategy :: "StrategyParams \<Rightarrow> go_error" where
  "validateSearchPlaybookStrategy p =
     (if FrequencyTier p \<notin> {[], ''high'', ''mid'', ''low''} then
        Some (validation_error ''frequency_tier must be high, mid or low'')
      else if TargetPosition p < 0 \<or> TargetPosition p > Fin 100
              \<or> TargetPosition p > 0 \<and> TargetPosition p < Fin 1 then
        Some (validation_error ''target_position must be between 1 and 100'')
      else if feq (TargetPosition p) 0 \<and> FrequencyTier p = [] then
        Some (validation_error ''search_playbook requires frequency_tier or target_position'')
      else if SacrificialSpendPricePct p < 0 \<or> SacrificialSpendPricePct p > Fin 1000 then
        Some (validation_error ''sacrificial_spend_price_pct must be between 0 and 1000'')
      else if FlatImpressionsPct p < 0 \<or> FlatImpressionsPct p > Fin 100
              \<or> RollbackStepPercent p < 0 \<or> RollbackStepPercent p > Fin 100 then
        Some (validation_error ''flat_impressions_pct and rollback_step_percent must be between 0 and 100'')
      else None)"

definition validatePriceStrategy :: "Strategy \<Rightarrow> go_error" where
  "validatePriceStrategy input =
     (let p = st_Params input in
      if StepPercent p < 0 \<or> StepPercent p > Fin 10 then
        Some (validation_error ''step_percent must be between 0 and 10'')
      else if some_and (\<lambda>v. v < 0) (MinPriceRub p) then
        Some (validation_error ''min_price_rub must be non-negative'')
      else if some_and (\<lambda>v. v < 0) (MaxPriceRub p) then
        Some (validation_error ''max_price_rub must be non-negative'')
      else if some_and (\<lambda>lo. some_and (\<lambda>hi. lo > hi) (MaxPriceRub p)) (MinPriceRub p) then
        Some (validation_error ''min_price_rub must be less than or equal to max_price_rub'')
      else if PriceApplyMode p \<noteq> [] \<and> PriceApplyMode p \<noteq> PriceApplyModeDryRun
              \<and> PriceApplyMode p \<noteq> PriceApplyModeAuto then
        Some (validation_error ''price_apply_mode must be dry_run or auto'')
      else if OverstockDays p < 0 \<or> LowStockDays p < 0 then
        Some (validation_error ''stock day thresholds must be non-negative'')
      else if MaxPriceChangesPerDay p < 0 then
        Some (validation_error ''max_price_changes_per_day must be non-negative'')
      else if some_and (\<lambda>v. v < 0 \<or> v > Fin 100) (MaxAllowedDRRPercent p) then
        Some (validation_error ''max_allowed_drr_percent must be between 0 and 100'')
      else if PeakUpliftPercent p < 0 \<or> PeakUpliftPercent p > Fin 100
              \<or> DeadDiscountPercent p < 0 \<or> DeadDiscountPercent p > Fin 100 then
        Some (validation_error ''peak/dead percentages must be between 0 and 100'')
      else if MaxDiscountPercent p < 0 \<or> MaxDiscountPercent p > Fin 95 then
        Some (validation_error ''max_discount_percent must be between 0 and 95'')
      else if UndercutPercent p < 0 \<or> UndercutPercent p > Fin 95 then
        Some (validation_error ''undercut_percent must be between 0 and 95'')
      else if TargetMarginPercent p < 0 \<or> TargetMarginPercent p > Fin 90 then
        Some (validation_error ''target_margin_percent must be between 0 and 90'')
      else None)"

text \<open>The switch on the common limits of the bid strategies.\<close>

definition validate_common_limits :: "StrategyParams \<Rightarrow> go_error" where
  "validate_common_limits p =
     (if MinBid p < 0 then Some (validation_error ''min_bid must be non-negative'')
      else if MaxBid p < 0 then Some (validation_error ''max_bid must be non-negative'')
      else if MinBid p > 0 \<and> MaxBid p > 0 \<and> MinBid p > MaxBid p then
        Some (validation_error ''min_bid must be less than or equal to max_bid'')
      else if MaxCPC p < 0 then Some (validation_error ''max_cpc must be non-negative'')
      else if MaxCPO p < 0 then Some (validation_error ''max_cpo must be non-negative'')
      else if MaxACoS p < 0 \<or> MaxACoS p > Fin 1000 then
        Some (validation_error ''max_acos must be between 0 and 1000'')
      else if AutomationLevel p < 0 \<or> AutomationLevel p > 4 then
        Some (validation_error (''automation_level '' @ fmt_d (AutomationLevel p) @ '' is invalid; use 1..4''))
      else if MaxChangePercent p < 0 \<or> MaxChangePercent p > Fin 100 then
        Some (validation_error ''max_change_percent must be between 0 and 100'')
      else if LookbackDays p < 0 then Some (validation_error ''lookback_days must be non-negative'')
      else if MinClicks p < 0 then Some (validation_error ''min_clicks must be non-negative'')
      else if MinStockForIncrease p < 0 then
        Some (validation_error ''min_stock_for_increase must be non-negative'')
      else if CooldownMinutes p < 0 then Some (validation_error ''cooldown_minutes must be non-negative'')
      else if MaxChangesPerDay p < 0 then
        Some (validation_error ''max_changes_per_day must be non-negative'')
      else if MaxDataAgeHours p < 0 then Some (validation_error ''max_data_age_hours must be non-negative'')
      else None)"

definition msg_target_drr :: string where
  "msg_target_drr = ''target_acos (target '' @ msg_drr @ '') must be greater than 0 and at most 1000''"

definition validate_type_limits :: "(string \<Rightarrow> bool) \<Rightarrow> string \<Rightarrow> StrategyParams \<Rightarrow> go_error" where
  "validate_type_limits tz_ok ty p =
     (if ty = StrategyTypeACoS then
        (if TargetACoS p \<le> 0 \<or> TargetACoS p > Fin 1000 then
           Some (validation_error ''target_acos must be greater than 0 and at most 1000'') else None)
      else if ty = StrategyTypeROAS then
        (if TargetROAS p \<le> 0 \<or> TargetROAS p > Fin 1000 then
           Some (validation_error ''target_roas must be greater than 0 and at most 1000'') else None)
      else if ty = StrategyTypeAntiSliv then
        (if MaxACoS p \<le> 0 then
           Some (validation_error ''max_acos must be greater than 0 for anti_sliv'') else None)
      else if ty = StrategyTypeDayparting then validateDaypartingStrategy tz_ok p
      else if ty = StrategyTypeSearchPlaybook then validateSearchPlaybookStrategy p
      else if ty = StrategyTypeOzonCPCTargetDRR then
        (if TargetACoS p \<le> 0 \<or> TargetACoS p > Fin 1000 then
           Some (validation_error msg_target_drr) else None)
      else if ty = StrategyTypeOzonAIAutopilot then
        (if TargetACoS p \<le> 0 \<or> TargetACoS p > Fin 1000 then Some (validation_error msg_target_drr)
         else if AutomationLevel p > 3 then
           Some (validation_error ''automation_level for ozon_ai_autopilot must be 1..3'')
         else None)
      else None)"

definition validateStrategyForSave :: "(string \<Rightarrow> bool) \<Rightarrow> Strategy \<Rightarrow> go_error" where
  "validateStrategyForSave tz_ok input =
     (let ty = st_Type input; p = st_Params input in
      if TrimSpace (st_Name input) = [] then Some (validation_error ''strategy name is required'')
      else if ty \<in> {StrategyTypeACoS, StrategyTypeROAS, StrategyTypeAntiSliv, StrategyTypeDayparting,
                    StrategyTypeSearchPlaybook, StrategyTypeOzonCPCTargetDRR, StrategyTypeOzonAIAutopilot} then
        (case validate_common_limits p of Some e \<Rightarrow> Some e | None \<Rightarrow> validate_type_limits tz_ok ty p)
      else if ty = StrategyTypeRecommendation then
        Some (validation_error
          ''recommendation strategies are not executable; use explicit recommendation approval'')
      else if ty \<in> {StrategyTypePriceMarginFloor, StrategyTypePriceInventoryDemand, StrategyTypePriceAdLinked,
                    StrategyTypePricePeakHours, StrategyTypePriceCompetitorFollow,
                    StrategyTypeOzonPriceMarginFloor, StrategyTypeOzonPriceCompetitorFollow,
                    StrategyTypeOzonPriceInventoryDemand, StrategyTypeOzonPriceAdLinked,
                    StrategyTypeOzonPricePeakHours} then
        validatePriceStrategy input
      else Some (validation_error ''invalid strategy type''))"

section \<open>What the checks guarantee\<close>

definition bid_strategy_types :: "string set" where
  "bid_strategy_types =
     {StrategyTypeACoS, StrategyTypeROAS, StrategyTypeAntiSliv, StrategyTypeDayparting,
      StrategyTypeSearchPlaybook, StrategyTypeOzonCPCTargetDRR, StrategyTypeOzonAIAutopilot}"

lemma validate_bid_typeD:
  assumes "validateStrategyForSave tz_ok s = None" "st_Type s \<in> bid_strategy_types"
  shows "validate_common_limits (st_Params s) = None" "validate_type_limits tz_ok (st_Type s) (st_Params s) = None"
  using assms
  by (auto simp: validateStrategyForSave_def bid_strategy_types_def Let_def split: if_splits option.splits)

lemma validate_common_limitsD:
  assumes "validate_common_limits p = None"
  shows "0 \<le> MinBid p" "0 \<le> MaxBid p" "0 < MinBid p \<Longrightarrow> 0 < MaxBid p \<Longrightarrow> MinBid p \<le> MaxBid p"
    "\<not> MaxChangePercent p < 0" "\<not> MaxChangePercent p > Fin 100"
    "0 \<le> AutomationLevel p" "AutomationLevel p \<le> 4"
  using assms by (auto simp: validate_common_limits_def split: if_splits)

lemma validate_price_typeD:
  assumes "validateStrategyForSave tz_ok s = None" "IsPriceStrategy (st_Type s)"
  shows "validatePriceStrategy s = None"
  using assms
  by (auto simp: validateStrategyForSave_def IsPriceStrategy_def strategy_type_defs Let_def
      split: if_splits option.splits)

text \<open>A loop over the multipliers accepts exactly the entries with a key and a value in range.\<close>

lemma validate_multipliers_iff:
  "validate_multipliers hi kmsg vmsg xs = None \<longleftrightarrow>
     (\<forall>(k, v) \<in> set xs. \<exists>n. Atoi k = Some n \<and> 0 \<le> n \<and> n \<le> hi \<and> \<not> v \<le> 0 \<and> \<not> v > Fin 5)"
  by (induction xs rule: validate_multipliers.induct)
    (auto simp: not_less split: option.splits)

definition sample_params :: StrategyParams where
  "sample_params = zero_StrategyParams\<lparr>TargetACoS := Fin 10, TargetROAS := Fin 5, MaxACoS := Fin 30,
     TargetPosition := Fin 3\<rparr>"

definition sample_strategy :: "string \<Rightarrow> Strategy" where
  "sample_strategy ty = \<lparr>st_ID = 1, st_WorkspaceID = 1, st_SellerCabinetID = 1, st_Name = ''s'',
     st_Type = ty, st_Params = sample_params, st_IsActive = True, st_Bindings = []\<rparr>"

lemmas validation_defs = validateStrategyForSave_def validate_common_limits_def validate_type_limits_def
  validateDaypartingStrategy_def validateSearchPlaybookStrategy_def validatePriceStrategy_def

lemma TrimSpace_s: "TrimSpace ''s'' = ''s''"
  by (simp add: TrimSpace_def trim_with.simps go_spaces_def bytes_def char_of_def)

lemma TrimSpace_empty [simp]: "TrimSpace [] = []"
  by (simp add: TrimSpace_def trim_with.simps go_spaces_def bytes_def)

lemma sample_limits:
  "validate_common_limits sample_params = None" "validatePriceStrategy (sample_strategy ty) = None"
  by (simp_all add: validation_defs sample_strategy_def sample_params_def zero_StrategyParams_def)

lemma sample_type_limits:
  "tz_ok ''Europe/Moscow'' \<Longrightarrow> validate_type_limits tz_ok ty sample_params = None"
  by (simp add: validation_defs sample_params_def zero_StrategyParams_def)

lemma sample_strategy_accepted:
  assumes "ty \<in> set KnownStrategyTypes" "ty \<noteq> StrategyTypeRecommendation" "tz_ok ''Europe/Moscow''"
  shows "validateStrategyForSave tz_ok (sample_strategy ty) = None"
proof (cases "ty \<in> bid_strategy_types")
  case True
  then show ?thesis
    unfolding validateStrategyForSave_def bid_strategy_types_def Let_def
    by (simp add: sample_strategy_def sample_limits sample_type_limits [of tz_ok, OF assms(3)] TrimSpace_s)
next
  case False
  have "st_Type (sample_strategy ty) = ty" "TrimSpace (st_Name (sample_strategy ty)) \<noteq> []"
    by (simp_all add: sample_strategy_def TrimSpace_s)
  then show ?thesis using assms(1,2) False
    unfolding validateStrategyForSave_def bid_strategy_types_def Let_def KnownStrategyTypes_def
    by (simp add: sample_limits)
qed

lemma validate_known:
  assumes "validateStrategyForSave tz_ok s = None"
  shows "st_Type s \<in> set KnownStrategyTypes" "st_Type s \<noteq> StrategyTypeRecommendation"
  using assms
  by (auto simp: validateStrategyForSave_def KnownStrategyTypes_def strategy_type_defs Let_def
      split: if_splits)

text \<open>
  The types a strategy can be saved with are exactly the known ones except
  \<^verbatim>\<open>recommendation\<close>: validation rejects every other type whatever the parameters are, and for
  each accepted type some parameters pass (with a time-zone database that knows the default zone).
\<close>

theorem saved_types_known:
  assumes "tz_ok ''Europe/Moscow''"
  shows "(\<exists>s. st_Type s = ty \<and> validateStrategyForSave tz_ok s = None) \<longleftrightarrow>
         IsKnownStrategyType ty \<and> ty \<noteq> StrategyTypeRecommendation"
proof
  assume "IsKnownStrategyType ty \<and> ty \<noteq> StrategyTypeRecommendation"
  then have "validateStrategyForSave tz_ok (sample_strategy ty) = None"
    using assms by (intro sample_strategy_accepted) (simp_all add: IsKnownStrategyType_set)
  then show "\<exists>s. st_Type s = ty \<and> validateStrategyForSave tz_ok s = None"
    by (intro exI [of _ "sample_strategy ty"]) (simp add: sample_strategy_def)
qed (auto simp: IsKnownStrategyType_set dest: validate_known)

theorem saved_types_known_witness:
  "(\<exists>s. st_Type s = ''acos'' \<and> validateStrategyForSave (\<lambda>tz. tz = ''Europe/Moscow'') s = None) \<and>
   \<not> (\<exists>s. st_Type s = ''recommendation'' \<and> validateStrategyForSave (\<lambda>tz. tz = ''Europe/Moscow'') s = None)"
  using saved_types_known [of "\<lambda>tz. tz = ''Europe/Moscow''" "''acos''"]
    saved_types_known [of "\<lambda>tz. tz = ''Europe/Moscow''" "''recommendation''"]
  by (simp add: IsKnownStrategyType_set KnownStrategyTypes_def strategy_type_defs)

text \<open>
  C40 A validated repricer strategy carries safe parameters into the price engine: after default
  filling the step lies in \<open>(0, 10]\<close>, the relative floor keeps at least five percent of the price,
  the target margin is at most 90 percent and the two price bounds are in order.
\<close>

theorem validated_price_params:
  assumes "validateStrategyForSave tz_ok s = None" "IsPriceStrategy (st_Type s)"
    and "StepPercent (st_Params s) = Fin x" "MaxDiscountPercent (st_Params s) = Fin m"
    and "TargetMarginPercent (st_Params s) = Fin t"
  shows "\<exists>step disc. StepPercent (MergedPriceParams (st_Params s)) = Fin step \<and> 0 < step \<and> step \<le> 10 \<and>
           MaxDiscountPercent (MergedPriceParams (st_Params s)) = Fin disc \<and> 0 < disc \<and> disc \<le> 95 \<and>
           0 \<le> t \<and> t \<le> 90 \<and>
           (\<forall>lo hi. MinPriceRub (st_Params s) = Some lo \<and> MaxPriceRub (st_Params s) = Some hi
                     \<longrightarrow> 0 \<le> lo \<and> lo \<le> hi)"
proof -
  from validate_price_typeD [OF assms(1,2)] assms(3-5)
  have "0 \<le> x" "x \<le> 10" "0 \<le> m" "m \<le> 95" "0 \<le> t" "t \<le> 90"
    "\<forall>lo hi. MinPriceRub (st_Params s) = Some lo \<and> MaxPriceRub (st_Params s) = Some hi \<longrightarrow> 0 \<le> lo \<and> lo \<le> hi"
    by (auto simp: validatePriceStrategy_def Let_def split: if_splits)
  then show ?thesis using assms(3,4)
    by (cases "x = 0"; cases "m = 0") (auto simp: MergedPriceParams_def)
qed

theorem validated_price_params_witness:
  "\<exists>step. StepPercent (MergedPriceParams (st_Params (sample_strategy StrategyTypePriceAdLinked))) = Fin step
          \<and> 0 < step \<and> step \<le> 10"
proof -
  let ?s = "sample_strategy StrategyTypePriceAdLinked"
  have "validateStrategyForSave (\<lambda>_. True) ?s = None"
    by (rule sample_strategy_accepted) (simp_all add: KnownStrategyTypes_def strategy_type_defs)
  moreover have "IsPriceStrategy (st_Type ?s)" "StepPercent (st_Params ?s) = Fin 0"
    "MaxDiscountPercent (st_Params ?s) = Fin 0" "TargetMarginPercent (st_Params ?s) = Fin 0"
    by (simp_all add: sample_strategy_def sample_params_def zero_StrategyParams_def IsPriceStrategy_def)
  ultimately show ?thesis using validated_price_params [of "\<lambda>_. True" ?s] by blast
qed

text \<open>
  The corridor check compares the two bid bounds only when both are given, while the engine fills
  a missing one with its default afterwards. So the corridor that the engine uses is in order for a
  validated strategy exactly when the given bound is compatible with the default of the missing one,
  and there is a validated strategy whose effective corridor is empty.
\<close>

theorem effective_corridor:
  assumes "validateStrategyForSave tz_ok s = None" "st_Type s \<in> bid_strategy_types"
  shows "MinBid (Merged (st_Params s)) \<le> MaxBid (Merged (st_Params s)) \<longleftrightarrow>
         (MinBid (st_Params s) = 0 \<longrightarrow> MaxBid (st_Params s) = 0 \<or> 50 \<le> MaxBid (st_Params s)) \<and>
         (MaxBid (st_Params s) = 0 \<longrightarrow> MinBid (st_Params s) \<le> 5000)"
  using validate_common_limitsD [OF validate_bid_typeD(1) [OF assms]]
  by (auto simp: dflt_i_def)

definition narrow_strategy :: Strategy where
  "narrow_strategy = (sample_strategy StrategyTypeACoS)\<lparr>st_Params := sample_params\<lparr>MaxBid := 20\<rparr>\<rparr>"

lemma narrow_strategy_valid: "validateStrategyForSave (\<lambda>_. True) narrow_strategy = None"
  by (simp add: validation_defs narrow_strategy_def sample_strategy_def sample_params_def
      zero_StrategyParams_def TrimSpace_s)

theorem effective_corridor_witness:
  "validateStrategyForSave (\<lambda>_. True) narrow_strategy = None \<and>
   \<not> MinBid (Merged (st_Params narrow_strategy)) \<le> MaxBid (Merged (st_Params narrow_strategy))"
proof -
  have "st_Type narrow_strategy \<in> bid_strategy_types" "MinBid (st_Params narrow_strategy) = 0"
    "MaxBid (st_Params narrow_strategy) = 20"
    by (simp_all add: narrow_strategy_def sample_strategy_def sample_params_def zero_StrategyParams_def
        bid_strategy_types_def)
  with effective_corridor [OF narrow_strategy_valid] narrow_strategy_valid show ?thesis by simp
qed

end
