(* ===== verification/Strategy_Service.thy ===== *)
theory Strategy_Service
  imports Strategy_Validation Bid_Engine
begin

text \<open>
  The strategy service of \<^verbatim>\<open>internal/service/strategy.go\<close> over the tables it writes: creating,
  updating and deleting a strategy, attaching and detaching a binding. The queries are translated
  from their SQL text in \<^verbatim>\<open>internal/repository/sqlc\<close>; a transaction that fails leaves the store
  unchanged. \<open>fault c\<close> says that the database call \<open>c\<close> fails for a reason outside the model, \<open>new_id\<close>
  is the identifier the database generates; a row with an identifier that is already present is
  refused by the primary key.

  The advisory lock of \<^verbatim>\<open>BeginStrategyOwnershipTx\<close> serialises the mutations of a workspace, so an
  operation is one atomic step. The invariant \<open>single_owner\<close> says that no two bindings of live
  strategies of one cabinet overlap in scope.
\<close>

section \<open>Scopes\<close>

record strategyBindingScope =
  sc_CampaignID :: uuid
  sc_ProductID :: "uuid option"

definition strategyBindingScopesOverlap :: "strategyBindingScope \<Rightarrow> strategyBindingScope \<Rightarrow> bool" where
  "strategyBindingScopesOverlap left right =
     (if sc_CampaignID left = uuid_Nil \<or> sc_CampaignID right = uuid_Nil
         \<or> sc_CampaignID left \<noteq> sc_CampaignID right then False
      else case sc_ProductID left of
             None \<Rightarrow> True
           | Some l \<Rightarrow> (case sc_ProductID right of None \<Rightarrow> True | Some r \<Rightarrow> l = r))"

text \<open>The double loop over the pairs \<open>left < right\<close>.\<close>

fun strategyBindingScopeSetHasOverlap :: "strategyBindingScope list \<Rightarrow> bool" where
  "strategyBindingScopeSetHasOverlap [] = False"
| "strategyBindingScopeSetHasOverlap (s # ss) =
     (list_ex (strategyBindingScopesOverlap s) ss \<or> strategyBindingScopeSetHasOverlap ss)"

definition strategyRequiresLiveOwnership :: "bool \<Rightarrow> int \<Rightarrow> bool" where
  "strategyRequiresLiveOwnership isActive automationLevel =
     (let level = (if automationLevel = 0 then AutomationLevel DefaultStrategyParams else automationLevel)
      in isActive \<and> level \<ge> 3)"

definition liveStrategyOwnershipConflictMessage :: string where
  "liveStrategyOwnershipConflictMessage =
     ''live strategy ownership conflict: another active live strategy already owns this campaign/product scope''"

section \<open>Tables\<close>

record audit_entry =
  au_WorkspaceID :: uuid
  au_UserID :: uuid
  au_Action :: string
  au_EntityID :: uuid
  au_Snapshot :: "Strategy option"
  au_Bindings :: "uuid list"
  au_Before :: "(bool \<times> StrategyParams) option"

text \<open>
  The metadata of an audit entry: the name, type, activity, parameters and cabinet of the snapshot
  (a strategy without bindings), the identifiers recorded for its bindings, and the earlier activity
  and parameters that an update records.
\<close>

record rollout_row =
  ro_BindingID :: uuid
  ro_WorkspaceID :: uuid
  ro_StrategyID :: uuid
  ro_DesiredMode :: string

record store =
  strategies :: "Strategy list"
  strategy_bindings :: "StrategyBinding list"
  rollouts :: "rollout_row list"
  audit_logs :: "audit_entry list"
  seller_cabinets :: "(uuid \<times> uuid) list"
  campaigns :: "(uuid \<times> uuid \<times> uuid) list"
  products :: "(uuid \<times> uuid \<times> uuid) list"
  campaign_products :: "(uuid \<times> uuid \<times> uuid \<times> uuid) list"
  ozon_campaigns :: "(uuid \<times> uuid) list"

text \<open>
  Rows of the reference tables: \<open>seller_cabinets\<close> (id, workspace) that are not deleted, \<open>campaigns\<close>
  and \<open>products\<close> (id, workspace, cabinet), \<open>campaign_products\<close> (campaign, product, workspace,
  cabinet), \<open>ozon_campaigns\<close> (id, cabinet).
\<close>

datatype db_call =
  GetSellerCabinetByID | CreateStrategyCall | BeginStrategyOwnershipTx | GetStrategyByIDAndWorkspace
| ListStrategyBindings | OwnershipConflict | UpdateStrategyInWorkspace | DeleteStrategyInWorkspace
| CreateBinding | EnsureRollout | CommitTx | DeleteBinding | CreateAuditLog

type_synonym fault = "db_call \<Rightarrow> bool"

definition find_strategy :: "store \<Rightarrow> uuid \<Rightarrow> uuid \<Rightarrow> Strategy option" where
  "find_strategy db ws sid = find (\<lambda>s. st_ID s = sid \<and> st_WorkspaceID s = ws) (strategies db)"

text \<open>\<^verbatim>\<open>COALESCE(NULLIF((params->>'automation_level')::int, 0), 1) >= 3\<close> on an active row\<close>

definition row_live :: "Strategy \<Rightarrow> bool" where
  "row_live s \<longleftrightarrow> st_IsActive s \<and>
     (if AutomationLevel (st_Params s) = 0 then 1 else AutomationLevel (st_Params s)) \<ge> 3"

definition liveStrategyOwnershipConflictForScope ::
  "store \<Rightarrow> uuid \<Rightarrow> uuid \<Rightarrow> uuid option \<Rightarrow> uuid option \<Rightarrow> bool" where
  "liveStrategyOwnershipConflictForScope db ws sid camp pid =
     list_ex (\<lambda>target. st_ID target = sid \<and> st_WorkspaceID target = ws \<and>
       list_ex (\<lambda>other. st_WorkspaceID other = st_WorkspaceID target
           \<and> st_SellerCabinetID other = st_SellerCabinetID target \<and> row_live other \<and>
         list_ex (\<lambda>ob. sb_StrategyID ob = st_ID other
             \<and> camp \<noteq> None \<and> sb_CampaignID ob = camp
             \<and> (pid = None \<or> sb_ProductID ob = None \<or> sb_ProductID ob = pid))
           (strategy_bindings db)) (strategies db)) (strategies db)"

definition liveStrategyOwnershipConflictForBindings :: "store \<Rightarrow> uuid \<Rightarrow> uuid \<Rightarrow> bool" where
  "liveStrategyOwnershipConflictForBindings db ws sid =
     list_ex (\<lambda>target. st_ID target = sid \<and> st_WorkspaceID target = ws \<and>
       list_ex (\<lambda>tb. sb_StrategyID tb = st_ID target \<and> sb_CampaignID tb \<noteq> None \<and>
         list_ex (\<lambda>other. st_WorkspaceID other = st_WorkspaceID target
             \<and> st_SellerCabinetID other = st_SellerCabinetID target
             \<and> (st_ID other = st_ID target \<or> row_live other) \<and>
           list_ex (\<lambda>ob. sb_StrategyID ob = st_ID other \<and> sb_CampaignID ob = sb_CampaignID tb
               \<and> sb_ID ob \<noteq> sb_ID tb
               \<and> (sb_ProductID tb = None \<or> sb_ProductID ob = None \<or> sb_ProductID ob = sb_ProductID tb))
             (strategy_bindings db)) (strategies db)) (strategy_bindings db)) (strategies db)"

section \<open>Operations\<close>

text \<open>
  \<^verbatim>\<open>json.Marshal\<close> refuses a parameter that is not a finite number; the stored JSON reads back as
  the same parameters, since Go prints the shortest decimal that parses to the same value.
\<close>

definition is_fin :: "f64 \<Rightarrow> bool" where
  "is_fin x \<longleftrightarrow> \<not> IsNaN x \<and> \<not> IsInf x"

definition json_params_ok :: "StrategyParams \<Rightarrow> bool" where
  "json_params_ok p \<longleftrightarrow>
     list_all is_fin [TargetACoS p, TargetROAS p, MaxACoS p, BaseMultiplier p, TargetPosition p,
       SacrificialSpendPricePct p, FlatImpressionsPct p, RollbackStepPercent p, TargetTotalDRRPercent p,
       ExpectedBuyoutPercent p, MaxCPC p, MaxCPO p, MaxChangePercent p, StepPercent p,
       SlowVelocityPerDay p, PeakUpliftPercent p, DeadDiscountPercent p, UndercutPercent p,
       MaxDiscountPercent p, TargetMarginPercent p] \<and>
     list_all is_fin (map snd (HourlyMultipliers p)) \<and> list_all is_fin (map snd (WeekdayMultipliers p)) \<and>
     pred_option is_fin (MaxTotalDRRPercent p) \<and> pred_option is_fin (MaxAllowedDRRPercent p)"

definition strategyFromSqlc :: "Strategy \<Rightarrow> Strategy" where
  "strategyFromSqlc row = row\<lparr>st_Bindings := []\<rparr>"

definition writeAuditLog :: "fault \<Rightarrow> audit_entry \<Rightarrow> store \<Rightarrow> store" where
  "writeAuditLog fault e db =
     (if fault CreateAuditLog then db else db\<lparr>audit_logs := audit_logs db @ [e]\<rparr>)"

definition strategy_Get :: "fault \<Rightarrow> uuid \<Rightarrow> uuid \<Rightarrow> store \<Rightarrow> app_error + Strategy" where
  "strategy_Get fault ws sid db =
     (case (if fault GetStrategyByIDAndWorkspace then None else find_strategy db ws sid) of
        None \<Rightarrow> Inl (apperror_New ErrNotFound ''strategy not found'')
      | Some row \<Rightarrow>
        Inr ((strategyFromSqlc row)\<lparr>st_Bindings :=
          (if fault ListStrategyBindings then []
           else filter (\<lambda>b. sb_StrategyID b = sid) (strategy_bindings db))\<rparr>))"

definition strategy_Create ::
  "(string \<Rightarrow> bool) \<Rightarrow> fault \<Rightarrow> uuid \<Rightarrow> uuid \<Rightarrow> uuid \<Rightarrow> Strategy \<Rightarrow> store
     \<Rightarrow> (app_error + Strategy) \<times> store" where
  "strategy_Create tz_ok fault new_id ws actor input db =
     (case validateStrategyForSave tz_ok input of
        Some e \<Rightarrow> (Inl e, db)
      | None \<Rightarrow>
        if st_SellerCabinetID input = uuid_Nil then
          (Inl (validation_error ''seller_cabinet_id is required''), db)
        else case (if fault GetSellerCabinetByID then None
                   else map_of (seller_cabinets db) (st_SellerCabinetID input)) of
            None \<Rightarrow> (Inl (apperror_New ErrNotFound ''seller cabinet not found''), db)
          | Some cabinet_ws \<Rightarrow>
            if cabinet_ws \<noteq> ws then (Inl (apperror_New ErrNotFound ''seller cabinet not found''), db)
            else if \<not> json_params_ok (st_Params input) then
              (Inl (validation_error ''invalid strategy params''), db)
            else if fault CreateStrategyCall \<or> new_id \<in> st_ID ` set (strategies db) then
              (Inl (apperror_New ErrInternal ''failed to create strategy''), db)
            else
              let row = \<lparr>st_ID = new_id, st_WorkspaceID = ws, st_SellerCabinetID = st_SellerCabinetID input,
                         st_Name = st_Name input, st_Type = st_Type input, st_Params = st_Params input,
                         st_IsActive = st_IsActive input, st_Bindings = []\<rparr>;
                  result = strategyFromSqlc row
              in (Inr result,
                  writeAuditLog fault
                    \<lparr>au_WorkspaceID = ws, au_UserID = actor, au_Action = ''create_strategy'',
                     au_EntityID = new_id, au_Snapshot = Some result, au_Bindings = [], au_Before = None\<rparr>
                    (db\<lparr>strategies := row # strategies db\<rparr>)))"

definition update_row :: "Strategy \<Rightarrow> Strategy \<Rightarrow> Strategy" where
  "update_row input row = row\<lparr>st_Name := st_Name input, st_Type := st_Type input,
     st_Params := st_Params input, st_IsActive := st_IsActive input\<rparr>"

text \<open>The row filter of the \<^verbatim>\<open>UPDATE\<close> statement.\<close>

definition update_if :: "uuid \<Rightarrow> uuid \<Rightarrow> Strategy \<Rightarrow> Strategy \<Rightarrow> Strategy" where
  "update_if ws sid input s =
     (if st_ID s = sid \<and> st_WorkspaceID s = ws then update_row input s else s)"

definition strategy_Update ::
  "(string \<Rightarrow> bool) \<Rightarrow> fault \<Rightarrow> uuid \<Rightarrow> uuid \<Rightarrow> uuid \<Rightarrow> Strategy \<Rightarrow> store
     \<Rightarrow> (app_error + Strategy) \<times> store" where
  "strategy_Update tz_ok fault ws sid actor input db =
     (let before = (case strategy_Get fault ws sid db of Inl _ \<Rightarrow> None | Inr s \<Rightarrow> Some s) in
      case validateStrategyForSave tz_ok input of
        Some e \<Rightarrow> (Inl e, db)
      | None \<Rightarrow>
        if \<not> json_params_ok (st_Params input) then
          (Inl (validation_error ''invalid strategy params''), db)
        else if fault BeginStrategyOwnershipTx then
          (Inl (apperror_New ErrInternal ''failed to start strategy ownership check''), db)
        else if fault GetStrategyByIDAndWorkspace then
          (Inl (apperror_New ErrInternal ''failed to load strategy for ownership check''), db)
        else case find_strategy db ws sid of
            None \<Rightarrow> (Inl (apperror_New ErrNotFound ''strategy not found''), db)
          | Some row \<Rightarrow>
            let live = strategyRequiresLiveOwnership (st_IsActive input) (AutomationLevel (st_Params input)) in
            if live \<and> fault OwnershipConflict then
              (Inl (apperror_New ErrInternal ''failed to check live strategy ownership''), db)
            else if live \<and> liveStrategyOwnershipConflictForBindings db ws sid then
              (Inl (validation_error liveStrategyOwnershipConflictMessage), db)
            else if fault UpdateStrategyInWorkspace then
              (Inl (apperror_New ErrInternal ''failed to update strategy''), db)
            else if fault CommitTx then
              (Inl (apperror_New ErrInternal ''failed to commit strategy ownership update''), db)
            else
              let result = strategyFromSqlc (update_row input row)
              in (Inr result,
                  writeAuditLog fault
                    \<lparr>au_WorkspaceID = ws, au_UserID = actor, au_Action = ''update_strategy'',
                     au_EntityID = sid, au_Snapshot = Some result, au_Bindings = [],
                     au_Before = map_option (\<lambda>b. (st_IsActive b, st_Params b)) before\<rparr>
                    (db\<lparr>strategies := map (update_if ws sid input) (strategies db)\<rparr>)))"

text \<open>The loop that records one identifier per binding.\<close>

fun snapshot_bindings :: "StrategyBinding list \<Rightarrow> uuid list" where
  "snapshot_bindings [] = []"
| "snapshot_bindings (b # bs) =
     (case sb_OzonCampaignID b of
        Some oc \<Rightarrow> oc # snapshot_bindings bs
      | None \<Rightarrow> (case sb_CampaignID b of
                   Some c \<Rightarrow> c # snapshot_bindings bs
                 | None \<Rightarrow> snapshot_bindings bs))"

text \<open>Deleting a strategy removes its bindings and their rollouts by the foreign keys.\<close>

definition strategy_Delete :: "fault \<Rightarrow> uuid \<Rightarrow> uuid \<Rightarrow> uuid \<Rightarrow> store \<Rightarrow> bool \<times> store" where
  "strategy_Delete fault ws sid actor db =
     (let snapshot = (case strategy_Get fault ws sid db of Inl _ \<Rightarrow> None | Inr s \<Rightarrow> Some s) in
      if fault DeleteStrategyInWorkspace then (False, db)
      else
        let gone = (\<lambda>s. st_ID s = sid \<and> st_WorkspaceID s = ws);
            gone_id = (\<lambda>i. list_ex (\<lambda>s. gone s \<and> st_ID s = i) (strategies db))
        in (True,
            writeAuditLog fault
              \<lparr>au_WorkspaceID = ws, au_UserID = actor, au_Action = ''delete_strategy'',
               au_EntityID = sid, au_Snapshot = map_option strategyFromSqlc snapshot,
               au_Bindings = (case snapshot of None \<Rightarrow> [] | Some s \<Rightarrow> snapshot_bindings (st_Bindings s)),
               au_Before = None\<rparr>
              (db\<lparr>strategies := filter (\<lambda>s. \<not> gone s) (strategies db),
                  strategy_bindings := filter (\<lambda>b. \<not> gone_id (sb_StrategyID b)) (strategy_bindings db),
                  rollouts := filter (\<lambda>r. \<not> gone_id (ro_StrategyID r)) (rollouts db)\<rparr>)))"

text \<open>The tenancy conditions of the insert, as one check.\<close>

definition binding_target_ok :: "store \<Rightarrow> uuid \<Rightarrow> Strategy \<Rightarrow> uuid option \<Rightarrow> uuid option \<Rightarrow> bool" where
  "binding_target_ok db ws s camp pid \<longleftrightarrow>
     pred_option (\<lambda>c. (c, ws, st_SellerCabinetID s) \<in> set (campaigns db)) camp \<and>
     pred_option (\<lambda>p. (p, ws, st_SellerCabinetID s) \<in> set (products db)) pid \<and>
     pred_option (\<lambda>c. pred_option (\<lambda>p. (c, p, ws, st_SellerCabinetID s) \<in> set (campaign_products db)) pid) camp"

definition CreateStrategyBindingInWorkspace ::
  "uuid \<Rightarrow> uuid \<Rightarrow> uuid \<Rightarrow> uuid option \<Rightarrow> uuid option \<Rightarrow> store \<Rightarrow> StrategyBinding option" where
  "CreateStrategyBindingInWorkspace new_id ws sid camp pid db =
     (case find_strategy db ws sid of
        None \<Rightarrow> None
      | Some s \<Rightarrow>
        if binding_target_ok db ws s camp pid then
          Some \<lparr>sb_ID = new_id, sb_StrategyID = sid, sb_CampaignID = camp, sb_ProductID = pid,
                sb_OzonCampaignID = None\<rparr>
        else None)"

definition CreateOzonStrategyBindingInWorkspace ::
  "uuid \<Rightarrow> uuid \<Rightarrow> uuid \<Rightarrow> uuid \<Rightarrow> store \<Rightarrow> StrategyBinding option" where
  "CreateOzonStrategyBindingInWorkspace new_id ws sid oc db =
     (case find_strategy db ws sid of
        None \<Rightarrow> None
      | Some s \<Rightarrow>
        if (oc, st_SellerCabinetID s) \<in> set (ozon_campaigns db) then
          Some \<lparr>sb_ID = new_id, sb_StrategyID = sid, sb_CampaignID = None, sb_ProductID = None,
                sb_OzonCampaignID = Some oc\<rparr>
        else None)"

definition EnsureStrategyBindingRollout :: "Strategy \<Rightarrow> uuid \<Rightarrow> store \<Rightarrow> store" where
  "EnsureStrategyBindingRollout s bid db =
     (if list_ex (\<lambda>r. ro_BindingID r = bid) (rollouts db) then db
      else db\<lparr>rollouts := \<lparr>ro_BindingID = bid, ro_WorkspaceID = st_WorkspaceID s, ro_StrategyID = st_ID s,
                           ro_DesiredMode = (if row_live s then ''live'' else ''shadow'')\<rparr> # rollouts db\<rparr>)"

text \<open>The Ozon branch and the WB branch of \<^verbatim>\<open>AttachBinding\<close>.\<close>

definition attach_ozon ::
  "fault \<Rightarrow> uuid \<Rightarrow> uuid \<Rightarrow> uuid \<Rightarrow> uuid option \<Rightarrow> uuid option \<Rightarrow> store
     \<Rightarrow> (app_error + StrategyBinding) \<times> store" where
  "attach_ozon fault new_id ws sid camp pid db =
     (if pid \<noteq> None then (Inl (validation_error ''ozon strategies bind to ozon campaigns only''), db)
      else case camp of
          None \<Rightarrow> (Inl (validation_error ''campaign_id (ozon campaign) is required for ozon strategies''), db)
        | Some oc \<Rightarrow>
          if fault CreateBinding then
            (Inl (apperror_New ErrInternal ''failed to attach ozon strategy binding''), db)
          else case CreateOzonStrategyBindingInWorkspace new_id ws sid oc db of
              None \<Rightarrow> (Inl (apperror_New ErrNotFound ''strategy or ozon campaign not found''), db)
            | Some b \<Rightarrow>
              if new_id \<in> sb_ID ` set (strategy_bindings db) then
                (Inl (apperror_New ErrInternal ''failed to attach ozon strategy binding''), db)
              else if fault CommitTx then
                (Inl (apperror_New ErrInternal ''failed to commit strategy binding ownership''), db)
              else (Inr b, db\<lparr>strategy_bindings := b # strategy_bindings db\<rparr>))"

definition attach_wb ::
  "fault \<Rightarrow> uuid \<Rightarrow> uuid \<Rightarrow> uuid \<Rightarrow> Strategy \<Rightarrow> uuid option \<Rightarrow> uuid option \<Rightarrow> store
     \<Rightarrow> (app_error + StrategyBinding) \<times> store" where
  "attach_wb fault new_id ws sid row camp pid db =
     (let live = strategyRequiresLiveOwnership (st_IsActive row) (AutomationLevel (st_Params row)) in
      if live \<and> fault OwnershipConflict then
        (Inl (apperror_New ErrInternal ''failed to check live strategy ownership''), db)
      else if live \<and> liveStrategyOwnershipConflictForScope db ws sid camp pid then
        (Inl (validation_error liveStrategyOwnershipConflictMessage), db)
      else if fault CreateBinding then (Inl (apperror_New ErrInternal ''failed to attach strategy''), db)
      else case CreateStrategyBindingInWorkspace new_id ws sid camp pid db of
          None \<Rightarrow> (Inl (apperror_New ErrNotFound ''strategy or binding target not found''), db)
        | Some b \<Rightarrow>
          if camp = None \<and> pid = None \<or> new_id \<in> sb_ID ` set (strategy_bindings db) then
            (Inl (apperror_New ErrInternal ''failed to attach strategy''), db)
          else if fault EnsureRollout then
            (Inl (apperror_New ErrInternal ''failed to initialize strategy rollout''), db)
          else if fault CommitTx then
            (Inl (apperror_New ErrInternal ''failed to commit strategy binding ownership''), db)
          else (Inr b, EnsureStrategyBindingRollout row new_id
                         (db\<lparr>strategy_bindings := b # strategy_bindings db\<rparr>)))"

definition AttachBinding ::
  "fault \<Rightarrow> uuid \<Rightarrow> uuid \<Rightarrow> uuid \<Rightarrow> uuid option \<Rightarrow> uuid option \<Rightarrow> store
     \<Rightarrow> (app_error + StrategyBinding) \<times> store" where
  "AttachBinding fault new_id ws sid camp pid db =
     (if fault BeginStrategyOwnershipTx then
        (Inl (apperror_New ErrInternal ''failed to start strategy ownership check''), db)
      else if fault GetStrategyByIDAndWorkspace then
        (Inl (apperror_New ErrInternal ''failed to load strategy for ownership check''), db)
      else case find_strategy db ws sid of
          None \<Rightarrow> (Inl (apperror_New ErrNotFound ''strategy or binding target not found''), db)
        | Some row \<Rightarrow>
          if IsOzonPriceStrategy (st_Type row) then
            (Inl (validation_error
               ''ozon price strategies apply to all cabinet products; bindings are not supported''), db)
          else if IsOzonStrategy (st_Type row) then attach_ozon fault new_id ws sid camp pid db
          else attach_wb fault new_id ws sid row camp pid db)"

definition DetachBinding :: "fault \<Rightarrow> uuid \<Rightarrow> uuid \<Rightarrow> store \<Rightarrow> bool \<times> store" where
  "DetachBinding fault ws bid db =
     (if fault DeleteBinding then (False, db)
      else
        let gone = (\<lambda>b. sb_ID b = bid \<and>
                        list_ex (\<lambda>s. st_ID s = sb_StrategyID b \<and> st_WorkspaceID s = ws) (strategies db))
        in (True, db\<lparr>strategy_bindings := filter (\<lambda>b. \<not> gone b) (strategy_bindings db),
                     rollouts := filter (\<lambda>r. \<not> list_ex (\<lambda>b. gone b \<and> sb_ID b = ro_BindingID r)
                                                (strategy_bindings db)) (rollouts db)\<rparr>))"

section \<open>Invariant\<close>

definition scope_of :: "StrategyBinding \<Rightarrow> strategyBindingScope" where
  "scope_of b = \<lparr>sc_CampaignID = (case sb_CampaignID b of None \<Rightarrow> uuid_Nil | Some c \<Rightarrow> c),
                 sc_ProductID = sb_ProductID b\<rparr>"

text \<open>Two rows of bindings that would drive the same bids: distinct, of live strategies of one cabinet, overlapping.\<close>

definition ownership_clash :: "Strategy \<Rightarrow> StrategyBinding \<Rightarrow> Strategy \<Rightarrow> StrategyBinding \<Rightarrow> bool" where
  "ownership_clash s1 b1 s2 b2 \<longleftrightarrow>
     sb_ID b1 \<noteq> sb_ID b2 \<and> st_ID s1 = sb_StrategyID b1 \<and> st_ID s2 = sb_StrategyID b2 \<and>
     row_live s1 \<and> row_live s2 \<and> st_WorkspaceID s1 = st_WorkspaceID s2 \<and>
     st_SellerCabinetID s1 = st_SellerCabinetID s2 \<and>
     strategyBindingScopesOverlap (scope_of b1) (scope_of b2)"

definition single_owner :: "store \<Rightarrow> bool" where
  "single_owner db \<longleftrightarrow>
     (\<forall>s1 \<in> set (strategies db). \<forall>b1 \<in> set (strategy_bindings db).
      \<forall>s2 \<in> set (strategies db). \<forall>b2 \<in> set (strategy_bindings db). \<not> ownership_clash s1 b1 s2 b2)"

definition binding_tenancy :: "store \<Rightarrow> StrategyBinding \<Rightarrow> bool" where
  "binding_tenancy db b \<longleftrightarrow>
     (\<exists>s \<in> set (strategies db). st_ID s = sb_StrategyID b \<and>
        binding_target_ok db (st_WorkspaceID s) s (sb_CampaignID b) (sb_ProductID b) \<and>
        pred_option (\<lambda>oc. (oc, st_SellerCabinetID s) \<in> set (ozon_campaigns db)) (sb_OzonCampaignID b))"

definition store_wf :: "store \<Rightarrow> bool" where
  "store_wf db \<longleftrightarrow>
     distinct (map st_ID (strategies db)) \<and>
     (\<forall>b \<in> set (strategy_bindings db). binding_tenancy db b) \<and> single_owner db"

lemma row_live_iff: "row_live s \<longleftrightarrow> strategyRequiresLiveOwnership (st_IsActive s) (AutomationLevel (st_Params s))"
  by (simp add: row_live_def strategyRequiresLiveOwnership_def)

lemma overlap_sym: "strategyBindingScopesOverlap a b = strategyBindingScopesOverlap b a"
  by (auto simp: strategyBindingScopesOverlap_def split: option.splits)

lemma clash_sym: "ownership_clash s1 b1 s2 b2 \<Longrightarrow> ownership_clash s2 b2 s1 b1"
  by (auto simp: ownership_clash_def overlap_sym)

text \<open>The SQL scope condition covers the overlap of the Go predicate.\<close>

lemma overlap_sql:
  assumes "strategyBindingScopesOverlap (scope_of a) (scope_of b)"
  shows "sb_CampaignID a \<noteq> None" "sb_CampaignID b = sb_CampaignID a"
    "sb_ProductID a = None \<or> sb_ProductID b = None \<or> sb_ProductID b = sb_ProductID a"
  using assms by (auto simp: strategyBindingScopesOverlap_def scope_of_def split: if_splits option.splits)

lemma distinct_map_inj:
  "\<lbrakk>distinct (map f xs); x \<in> set xs; y \<in> set xs; f x = f y\<rbrakk> \<Longrightarrow> x = y"
  by (auto simp: distinct_map dest: inj_onD)

lemma find_strategyD:
  assumes "find_strategy db ws sid = Some s"
  shows "s \<in> set (strategies db)" "st_ID s = sid" "st_WorkspaceID s = ws"
  using assms by (auto simp: find_strategy_def find_Some_iff)

lemma binding_owner:
  assumes "store_wf db" "b \<in> set (strategy_bindings db)"
  shows "\<exists>s \<in> set (strategies db). st_ID s = sb_StrategyID b"
  using assms by (auto simp: store_wf_def binding_tenancy_def)

subsection \<open>The conflict queries\<close>

lemma scope_query_clash:
  assumes "distinct (map st_ID (strategies db))" "find_strategy db ws sid = Some row"
    and "s2 \<in> set (strategies db)" "b2 \<in> set (strategy_bindings db)"
    and "sb_StrategyID b = sid" "sb_CampaignID b = camp" "sb_ProductID b = pid"
    and "ownership_clash row b s2 b2"
  shows "liveStrategyOwnershipConflictForScope db ws sid camp pid"
proof -
  from assms(8) have c: "st_ID s2 = sb_StrategyID b2" "row_live s2" "st_WorkspaceID s2 = st_WorkspaceID row"
    "st_SellerCabinetID s2 = st_SellerCabinetID row" "strategyBindingScopesOverlap (scope_of b) (scope_of b2)"
    by (simp_all add: ownership_clash_def)
  note o = overlap_sql [OF c(5)]
  have "list_ex (\<lambda>ob. sb_StrategyID ob = st_ID s2 \<and> camp \<noteq> None \<and> sb_CampaignID ob = camp \<and>
          (pid = None \<or> sb_ProductID ob = None \<or> sb_ProductID ob = pid)) (strategy_bindings db)"
    using o assms(4,6,7) c(1) by (auto simp: list_ex_iff)
  with c assms(3) find_strategyD [OF assms(2)] show ?thesis
    unfolding liveStrategyOwnershipConflictForScope_def list_ex_iff by metis
qed

lemma bindings_query_clash:
  assumes "t \<in> set (strategies db)" "st_ID t = sid" "st_WorkspaceID t = ws"
    and "tb \<in> set (strategy_bindings db)" "ob \<in> set (strategy_bindings db)" "o' \<in> set (strategies db)"
    and "sb_StrategyID tb = sid" "sb_StrategyID ob = st_ID o'" "sb_ID ob \<noteq> sb_ID tb"
    and "st_WorkspaceID o' = ws" "st_SellerCabinetID o' = st_SellerCabinetID t" "st_ID o' = sid \<or> row_live o'"
    and "strategyBindingScopesOverlap (scope_of tb) (scope_of ob)"
  shows "liveStrategyOwnershipConflictForBindings db ws sid"
proof -
  note ov = overlap_sql [OF assms(13)]
  have "list_ex (\<lambda>ob. sb_StrategyID ob = st_ID o' \<and> sb_CampaignID ob = sb_CampaignID tb \<and> sb_ID ob \<noteq> sb_ID tb
          \<and> (sb_ProductID tb = None \<or> sb_ProductID ob = None \<or> sb_ProductID ob = sb_ProductID tb))
         (strategy_bindings db)"
    using ov assms(5,8,9) by (auto simp: list_ex_iff)
  with ov(1) assms show ?thesis
    unfolding liveStrategyOwnershipConflictForBindings_def list_ex_iff by metis
qed

subsection \<open>Every operation keeps the invariant\<close>

lemma audit_sel [simp]:
  "strategies (writeAuditLog f e db) = strategies db"
  "strategy_bindings (writeAuditLog f e db) = strategy_bindings db"
  "campaigns (writeAuditLog f e db) = campaigns db" "products (writeAuditLog f e db) = products db"
  "campaign_products (writeAuditLog f e db) = campaign_products db"
  "ozon_campaigns (writeAuditLog f e db) = ozon_campaigns db"
  by (simp_all add: writeAuditLog_def)

lemma rollout_sel [simp]:
  "strategies (EnsureStrategyBindingRollout s i db) = strategies db"
  "strategy_bindings (EnsureStrategyBindingRollout s i db) = strategy_bindings db"
  "campaigns (EnsureStrategyBindingRollout s i db) = campaigns db"
  "products (EnsureStrategyBindingRollout s i db) = products db"
  "campaign_products (EnsureStrategyBindingRollout s i db) = campaign_products db"
  "ozon_campaigns (EnsureStrategyBindingRollout s i db) = ozon_campaigns db"
  by (simp_all add: EnsureStrategyBindingRollout_def)

text \<open>Tenancy of a binding survives when its strategy keeps its owner and the reference tables only grow.\<close>

definition tables_grow :: "store \<Rightarrow> store \<Rightarrow> bool" where
  "tables_grow db db' \<longleftrightarrow>
     set (campaigns db) \<subseteq> set (campaigns db') \<and> set (products db) \<subseteq> set (products db') \<and>
     set (campaign_products db) \<subseteq> set (campaign_products db') \<and>
     set (ozon_campaigns db) \<subseteq> set (ozon_campaigns db')"

lemma tables_grow_same:
  assumes "campaigns db' = campaigns db" "products db' = products db"
    "campaign_products db' = campaign_products db" "ozon_campaigns db' = ozon_campaigns db"
  shows "tables_grow db db'"
  using assms by (simp add: tables_grow_def)

lemma target_ok_grow:
  assumes "binding_target_ok db ws s camp pid" "tables_grow db db'"
    and "st_SellerCabinetID t = st_SellerCabinetID s"
  shows "binding_target_ok db' ws t camp pid"
  using assms by (cases camp; cases pid) (auto simp: binding_target_ok_def tables_grow_def)

lemma tenancy_grow:
  assumes "binding_tenancy db b" "tables_grow db db'"
    and "\<And>s. \<lbrakk>s \<in> set (strategies db); st_ID s = sb_StrategyID b\<rbrakk> \<Longrightarrow>
           \<exists>t \<in> set (strategies db'). st_ID t = st_ID s \<and> st_WorkspaceID t = st_WorkspaceID s \<and>
              st_SellerCabinetID t = st_SellerCabinetID s"
  shows "binding_tenancy db' b"
proof -
  from assms(1) obtain s where s: "s \<in> set (strategies db)" "st_ID s = sb_StrategyID b"
    "binding_target_ok db (st_WorkspaceID s) s (sb_CampaignID b) (sb_ProductID b)"
    "pred_option (\<lambda>oc. (oc, st_SellerCabinetID s) \<in> set (ozon_campaigns db)) (sb_OzonCampaignID b)"
    by (auto simp: binding_tenancy_def)
  from assms(3) [OF s(1,2)] obtain t where t: "t \<in> set (strategies db')" "st_ID t = sb_StrategyID b"
    "st_WorkspaceID t = st_WorkspaceID s" "st_SellerCabinetID t = st_SellerCabinetID s" using s(2) by auto
  have "binding_target_ok db' (st_WorkspaceID t) t (sb_CampaignID b) (sb_ProductID b)"
    using target_ok_grow [OF s(3) assms(2) t(4)] t(3) by simp
  moreover have "pred_option (\<lambda>oc. (oc, st_SellerCabinetID t) \<in> set (ozon_campaigns db')) (sb_OzonCampaignID b)"
    using s(4) t(4) assms(2) by (cases "sb_OzonCampaignID b") (auto simp: tables_grow_def)
  ultimately show ?thesis using t(1,2) unfolding binding_tenancy_def by blast
qed

lemma store_wf_same_tables:
  assumes "strategies db' = strategies db" "strategy_bindings db' = strategy_bindings db"
    and "tables_grow db db'" "store_wf db"
  shows "store_wf db'"
proof -
  have "binding_tenancy db b \<Longrightarrow> binding_tenancy db' b" for b
    using assms(1,3) by (rule_tac tenancy_grow) auto
  with assms(1,2,4) show ?thesis by (simp add: store_wf_def single_owner_def)
qed

text \<open>A new strategy row has no bindings, so it takes part in no clash.\<close>

lemma wf_create:
  assumes "store_wf db"
  shows "store_wf (snd (strategy_Create tz_ok f i ws a input db))"
proof -
  have new: "store_wf (writeAuditLog f e (db\<lparr>strategies := row # strategies db\<rparr>))"
    if "st_ID row \<notin> st_ID ` set (strategies db)" for row e
  proof -
    have own: "b \<in> set (strategy_bindings db) \<Longrightarrow> sb_StrategyID b \<noteq> st_ID row" for b
      using binding_owner [OF assms, of b] that by (metis image_eqI)
    have no_clash: "b \<in> set (strategy_bindings db) \<Longrightarrow> \<not> ownership_clash row b s b'" for b s b'
      using own [of b] by (auto simp: ownership_clash_def)
    have no_clash': "b' \<in> set (strategy_bindings db) \<Longrightarrow> \<not> ownership_clash s b row b'" for b s b'
      using no_clash clash_sym by blast
    have "single_owner (writeAuditLog f e (db\<lparr>strategies := row # strategies db\<rparr>))"
      unfolding single_owner_def using assms no_clash no_clash' by (auto simp: store_wf_def single_owner_def)
    moreover have "binding_tenancy db b \<Longrightarrow> binding_tenancy (writeAuditLog f e (db\<lparr>strategies := row # strategies db\<rparr>)) b" for b
      by (erule tenancy_grow) (auto intro: tables_grow_same)
    ultimately show ?thesis using assms that by (auto simp: store_wf_def)
  qed
  show ?thesis using assms
    by (auto simp: strategy_Create_def Let_def intro!: new split: option.splits)
qed

lemma update_row_sel [simp]:
  "st_ID (update_row i s) = st_ID s" "st_WorkspaceID (update_row i s) = st_WorkspaceID s"
  "st_SellerCabinetID (update_row i s) = st_SellerCabinetID s"
  "row_live (update_row i s) = strategyRequiresLiveOwnership (st_IsActive i) (AutomationLevel (st_Params i))"
  by (simp_all add: update_row_def row_live_iff)

lemma update_if_sel [simp]:
  "st_ID (update_if ws sid i s) = st_ID s" "st_WorkspaceID (update_if ws sid i s) = st_WorkspaceID s"
  "st_SellerCabinetID (update_if ws sid i s) = st_SellerCabinetID s"
  by (simp_all add: update_if_def)

lemma single_owner_update:
  assumes "store_wf db" "find_strategy db ws sid = Some row"
    and "strategyRequiresLiveOwnership (st_IsActive input) (AutomationLevel (st_Params input)) \<Longrightarrow>
         \<not> liveStrategyOwnershipConflictForBindings db ws sid"
    and "s1 \<in> set (strategies db)" "s2 \<in> set (strategies db)"
    and "b1 \<in> set (strategy_bindings db)" "b2 \<in> set (strategy_bindings db)"
  shows "\<not> ownership_clash (update_if ws sid input s1) b1 (update_if ws sid input s2) b2"
proof
  let ?u = "update_if ws sid input"
  assume c: "ownership_clash (?u s1) b1 (?u s2) b2"
  have live: "row_live (?u s) \<Longrightarrow> st_ID s = sid \<Longrightarrow> st_WorkspaceID s = ws \<Longrightarrow>
      \<not> liveStrategyOwnershipConflictForBindings db ws sid" for s
    using assms(3) by (simp add: update_if_def)
  have u: "st_ID (?u s) = st_ID s" "st_WorkspaceID (?u s) = st_WorkspaceID s"
    "st_SellerCabinetID (?u s) = st_SellerCabinetID s" for s by (simp_all add: update_if_def)
  from c have k: "sb_ID b1 \<noteq> sb_ID b2" "st_ID s1 = sb_StrategyID b1" "st_ID s2 = sb_StrategyID b2"
    "row_live (?u s1)" "row_live (?u s2)" "st_WorkspaceID s1 = st_WorkspaceID s2"
    "st_SellerCabinetID s1 = st_SellerCabinetID s2"
    "strategyBindingScopesOverlap (scope_of b1) (scope_of b2)" by (simp_all add: ownership_clash_def u)
  have other: "st_ID s = sid \<and> st_WorkspaceID s = ws \<or> ?u s = s" for s by (simp add: update_if_def)
  from other [of s1] other [of s2] show False
  proof (elim disjE)
    assume "?u s1 = s1" "?u s2 = s2"
    with c assms(1,4-7) show False by (simp add: store_wf_def single_owner_def)
  next
    assume t: "st_ID s1 = sid \<and> st_WorkspaceID s1 = ws" and "?u s2 = s2"
    then show False
      using bindings_query_clash [of s1 db sid ws b1 b2 s2] live [of s1] k assms(4-7) by auto
  next
    assume "?u s1 = s1" and t: "st_ID s2 = sid \<and> st_WorkspaceID s2 = ws"
    then show False
      using bindings_query_clash [of s2 db sid ws b2 b1 s1] live [of s2] k assms(4-7) by (auto simp: overlap_sym)
  next
    assume "st_ID s1 = sid \<and> st_WorkspaceID s1 = ws" "st_ID s2 = sid \<and> st_WorkspaceID s2 = ws"
    then show False
      using bindings_query_clash [of s1 db sid ws b1 b2 s2] live [of s1] k assms(4-7) by auto
  qed
qed

lemma wf_update:
  assumes "store_wf db"
  shows "store_wf (snd (strategy_Update tz_ok f ws sid a input db))"
proof -
  let ?u = "update_if ws sid input"
  let ?live = "strategyRequiresLiveOwnership (st_IsActive input) (AutomationLevel (st_Params input))"
  have upd: "store_wf (writeAuditLog f e (db\<lparr>strategies := map ?u (strategies db)\<rparr>))"
    if "find_strategy db ws sid = Some row" "?live \<Longrightarrow> \<not> liveStrategyOwnershipConflictForBindings db ws sid" for row e
  proof -
    let ?db = "writeAuditLog f e (db\<lparr>strategies := map ?u (strategies db)\<rparr>)"
    have "single_owner ?db" unfolding single_owner_def
      using single_owner_update [OF assms that] by auto
    moreover have "map st_ID (strategies ?db) = map st_ID (strategies db)" by simp
    moreover have "binding_tenancy db b \<Longrightarrow> binding_tenancy ?db b" for b
      by (erule tenancy_grow) (auto intro: tables_grow_same)
    ultimately show ?thesis using assms by (simp add: store_wf_def comp_def)
  qed
  show ?thesis using assms
    by (auto simp: strategy_Update_def Let_def split: option.splits intro!: upd)
qed

text \<open>Removing rows removes clashes; a deleted strategy takes its bindings along.\<close>

lemma wf_shrink:
  assumes "store_wf db" "strategies db' = filter P (strategies db)"
    and "strategy_bindings db' = filter Q (strategy_bindings db)" "tables_grow db db'"
    and "\<And>b s. \<lbrakk>b \<in> set (strategy_bindings db); Q b; s \<in> set (strategies db); st_ID s = sb_StrategyID b\<rbrakk> \<Longrightarrow> P s"
  shows "store_wf db'"
proof -
  have "binding_tenancy db' b" if "b \<in> set (strategy_bindings db)" "Q b" for b
  proof (rule tenancy_grow [OF _ assms(4)])
    show "binding_tenancy db b" using assms(1) that(1) by (simp add: store_wf_def)
    show "\<exists>t \<in> set (strategies db'). st_ID t = st_ID s \<and> st_WorkspaceID t = st_WorkspaceID s \<and>
              st_SellerCabinetID t = st_SellerCabinetID s"
      if "s \<in> set (strategies db)" "st_ID s = sb_StrategyID b" for s
      using assms(5) [OF \<open>b \<in> set (strategy_bindings db)\<close> \<open>Q b\<close> that] that(1)
      by (intro bexI [of _ s]) (simp_all add: assms(2))
  qed
  with assms(1-3) show ?thesis by (auto simp: store_wf_def single_owner_def distinct_map_filter)
qed

lemma wf_delete:
  assumes "store_wf db"
  shows "store_wf (snd (strategy_Delete f ws sid a db))"
  using assms
  by (auto simp: strategy_Delete_def Let_def list_ex_iff intro!: wf_shrink [OF assms] tables_grow_same)

lemma wf_detach:
  assumes "store_wf db"
  shows "store_wf (snd (DetachBinding f ws bid db))"
  using assms
  by (auto simp: DetachBinding_def Let_def intro!: wf_shrink [OF assms, where P = "\<lambda>_. True"] tables_grow_same)

lemma wf_new_binding:
  assumes "store_wf db" "find_strategy db ws sid = Some row" "sb_StrategyID b = sid"
    and "binding_target_ok db ws row (sb_CampaignID b) (sb_ProductID b)"
    and "pred_option (\<lambda>oc. (oc, st_SellerCabinetID row) \<in> set (ozon_campaigns db)) (sb_OzonCampaignID b)"
    and "row_live row \<and> sb_CampaignID b \<noteq> None \<Longrightarrow>
         \<not> liveStrategyOwnershipConflictForScope db ws sid (sb_CampaignID b) (sb_ProductID b)"
    and "strategies db' = strategies db" "strategy_bindings db' = b # strategy_bindings db" "tables_grow db db'"
  shows "store_wf db'"
proof -
  note row = find_strategyD [OF assms(2)]
  have d: "distinct (map st_ID (strategies db))" using assms(1) by (simp add: store_wf_def)
  have no_clash: "\<not> ownership_clash s1 b s2 b2"
    if "s1 \<in> set (strategies db)" "s2 \<in> set (strategies db)" "b2 \<in> set (strategy_bindings db)" for s1 s2 b2
  proof
    assume c: "ownership_clash s1 b s2 b2"
    then have "s1 = row" using distinct_map_inj [OF d that(1) row(1)] row(2) assms(3) by (simp add: ownership_clash_def)
    with c have c: "ownership_clash row b s2 b2" and "row_live row" "sb_CampaignID b \<noteq> None"
      by (auto simp: ownership_clash_def dest: overlap_sql(1))
    with scope_query_clash [OF d assms(2) that(2,3) assms(3) refl refl c] assms(6) show False by blast
  qed
  have "\<not> ownership_clash s1 b s2 b" for s1 s2 by (simp add: ownership_clash_def)
  with no_clash assms(1) have "single_owner db'"
    using clash_sym by (fastforce simp: store_wf_def single_owner_def assms(7,8))
  moreover have "binding_tenancy db' b'" if "b' \<in> set (strategy_bindings db)" for b'
    using assms(1,7) that by (auto simp: store_wf_def intro!: tenancy_grow [OF _ assms(9)])
  moreover have "binding_tenancy db' b"
    by (rule tenancy_grow [OF _ assms(9)])
      (use row assms(3-5,7) in \<open>auto simp: binding_tenancy_def\<close>)
  ultimately show ?thesis using d by (simp add: store_wf_def assms(7,8))
qed

lemma wf_attach_ozon:
  assumes "store_wf db" "find_strategy db ws sid = Some row"
  shows "store_wf (snd (attach_ozon f i ws sid camp pid db))"
proof -
  have "store_wf (db\<lparr>strategy_bindings := b # strategy_bindings db\<rparr>)"
    if "CreateOzonStrategyBindingInWorkspace i ws sid oc db = Some b" for oc b
    by (rule wf_new_binding [OF assms, of b])
      (use that assms(2) in \<open>auto simp: CreateOzonStrategyBindingInWorkspace_def binding_target_ok_def
        intro: tables_grow_same split: if_splits\<close>)
  with assms(1) show ?thesis by (auto simp: attach_ozon_def split: option.split)
qed

lemma wf_attach_wb:
  assumes "store_wf db" "find_strategy db ws sid = Some row"
  shows "store_wf (snd (attach_wb f i ws sid row camp pid db))"
proof -
  let ?live = "strategyRequiresLiveOwnership (st_IsActive row) (AutomationLevel (st_Params row))"
  have "store_wf (EnsureStrategyBindingRollout row i (db\<lparr>strategy_bindings := b # strategy_bindings db\<rparr>))"
    if "CreateStrategyBindingInWorkspace i ws sid camp pid db = Some b"
      "?live \<Longrightarrow> \<not> liveStrategyOwnershipConflictForScope db ws sid camp pid" for b
    by (rule wf_new_binding [OF assms, of b])
      (use that assms(2) in \<open>auto simp: CreateStrategyBindingInWorkspace_def row_live_iff
        intro: tables_grow_same split: if_splits\<close>)
  with assms(1) show ?thesis by (auto simp: attach_wb_def Let_def split: option.split)
qed

lemma wf_attach:
  assumes "store_wf db"
  shows "store_wf (snd (AttachBinding f i ws sid camp pid db))"
  using assms wf_attach_ozon wf_attach_wb by (auto simp: AttachBinding_def split: option.split)

section \<open>Reachable stores\<close>

inductive service_step :: "store \<Rightarrow> store \<Rightarrow> bool" where
  create: "service_step db (snd (strategy_Create tz_ok f i ws a input db))"
| update: "service_step db (snd (strategy_Update tz_ok f ws sid a input db))"
| delete: "service_step db (snd (strategy_Delete f ws sid a db))"
| attach: "service_step db (snd (AttachBinding f i ws sid camp pid db))"
| detach: "service_step db (snd (DetachBinding f ws bid db))"
| sync: "\<lbrakk>tables_grow db db'; strategies db' = strategies db; strategy_bindings db' = strategy_bindings db\<rbrakk>
         \<Longrightarrow> service_step db db'"

inductive_cases service_stepE: "service_step db db'"

definition empty_store :: "store \<Rightarrow> bool" where
  "empty_store db \<longleftrightarrow> strategies db = [] \<and> strategy_bindings db = []"

interpretation ownership: state_invariant empty_store service_step store_wf
proof unfold_locales
  show "store_wf db" if "empty_store db" for db
    using that by (simp add: empty_store_def store_wf_def single_owner_def)
  show "store_wf db'" if "store_wf db" "service_step db db'" for db db'
    using that(2,1)
    by (cases rule: service_step.cases)
      (auto intro: wf_create wf_update wf_delete wf_attach wf_detach store_wf_same_tables)
qed

section \<open>Properties\<close>

text \<open>
  C4 Live ownership is exclusive: in every store that the service reaches from an empty one, by any
  sequence of creates, updates, deletes, attaches and detaches with any database failures, no two
  different bindings of active strategies at automation level 3 or above of one cabinet overlap in
  campaign and product.
\<close>

theorem live_ownership_exclusive:
  assumes "empty_store db0" "service_step\<^sup>*\<^sup>* db0 db"
    and "s1 \<in> set (strategies db)" "s2 \<in> set (strategies db)"
    and "b1 \<in> set (strategy_bindings db)" "b2 \<in> set (strategy_bindings db)" "sb_ID b1 \<noteq> sb_ID b2"
    and "sb_StrategyID b1 = st_ID s1" "sb_StrategyID b2 = st_ID s2"
    and "strategyRequiresLiveOwnership (st_IsActive s1) (AutomationLevel (st_Params s1))"
    and "strategyRequiresLiveOwnership (st_IsActive s2) (AutomationLevel (st_Params s2))"
    and "st_WorkspaceID s1 = st_WorkspaceID s2" "st_SellerCabinetID s1 = st_SellerCabinetID s2"
  shows "\<not> strategyBindingScopesOverlap (scope_of b1) (scope_of b2)"
proof -
  from ownership.inv_reachable [OF assms(1,2)] have "single_owner db" by (simp add: store_wf_def)
  with assms(3-6) have "\<not> ownership_clash s1 b1 s2 b2" by (auto simp: single_owner_def)
  with assms(7-13) show ?thesis by (simp add: ownership_clash_def row_live_iff)
qed

definition own_s1 :: Strategy where
  "own_s1 = \<lparr>st_ID = 0, st_WorkspaceID = 1, st_SellerCabinetID = 7, st_Name = ''s'', st_Type = StrategyTypeACoS,
     st_Params = sample_params\<lparr>AutomationLevel := 3\<rparr>, st_IsActive = True, st_Bindings = []\<rparr>"

definition own_db0 :: store where
  "own_db0 = \<lparr>strategies = [], strategy_bindings = [], rollouts = [], audit_logs = [],
     seller_cabinets = [(7, 1)], campaigns = [(20, 1, 7)], products = [(31, 1, 7), (32, 1, 7)],
     campaign_products = [(20, 31, 1, 7), (20, 32, 1, 7)], ozon_campaigns = []\<rparr>"

definition own_db1 :: store where
  "own_db1 = snd (strategy_Create (\<lambda>_. True) (\<lambda>_. False) 10 1 99 own_s1 own_db0)"

definition own_db2 :: store where
  "own_db2 = snd (AttachBinding (\<lambda>_. False) 40 1 10 (Some 20) (Some 31) own_db1)"

definition own_db3 :: store where
  "own_db3 = snd (AttachBinding (\<lambda>_. False) 41 1 10 (Some 20) (Some 32) own_db2)"

lemma own_s1_valid: "validateStrategyForSave (\<lambda>_. True) own_s1 = None"
  by (simp add: validation_defs own_s1_def sample_params_def zero_StrategyParams_def TrimSpace_s strategy_type_defs)

lemma own_s1_json: "json_params_ok (st_Params own_s1)"
  by (simp add: json_params_ok_def own_s1_def sample_params_def zero_StrategyParams_def is_fin_def IsNaN_def IsInf_def)

lemma own_db1_eval:
  "strategies own_db1 = [own_s1\<lparr>st_ID := 10\<rparr>]" "strategy_bindings own_db1 = []"
  "campaigns own_db1 = campaigns own_db0" "products own_db1 = products own_db0"
  "campaign_products own_db1 = campaign_products own_db0"
  using own_s1_valid own_s1_json
  by (simp_all add: own_db1_def strategy_Create_def own_db0_def writeAuditLog_def Let_def strategyFromSqlc_def own_s1_def)

lemma own_db2_eval:
  "strategies own_db2 = [own_s1\<lparr>st_ID := 10\<rparr>]"
  "strategy_bindings own_db2 = [\<lparr>sb_ID = 40, sb_StrategyID = 10, sb_CampaignID = Some 20, sb_ProductID = Some 31,
      sb_OzonCampaignID = None\<rparr>]"
  "campaigns own_db2 = campaigns own_db0" "products own_db2 = products own_db0"
  "campaign_products own_db2 = campaign_products own_db0"
  by (simp_all add: own_db2_def own_db1_eval AttachBinding_def attach_wb_def find_strategy_def own_s1_def
      liveStrategyOwnershipConflictForScope_def CreateStrategyBindingInWorkspace_def binding_target_ok_def own_db0_def
      Let_def IsOzonPriceStrategy_def IsOzonStrategy_def strategy_type_defs)

lemma own_db3_eval:
  "strategies own_db3 = [own_s1\<lparr>st_ID := 10\<rparr>]"
  "map sb_ID (strategy_bindings own_db3) = [41, 40]"
  "map sb_StrategyID (strategy_bindings own_db3) = [10, 10]"
  "length (strategy_bindings own_db3) = 2"
  by (simp_all add: own_db3_def own_db2_eval AttachBinding_def attach_wb_def find_strategy_def own_s1_def
      liveStrategyOwnershipConflictForScope_def CreateStrategyBindingInWorkspace_def binding_target_ok_def own_db0_def
      Let_def IsOzonPriceStrategy_def IsOzonStrategy_def strategy_type_defs row_live_def sample_params_def)

lemma own_reach: "service_step\<^sup>*\<^sup>* own_db0 own_db3"
proof -
  have "service_step own_db0 own_db1" "service_step own_db1 own_db2" "service_step own_db2 own_db3"
    unfolding own_db1_def own_db2_def own_db3_def by (rule service_step.intros)+
  then show ?thesis by (meson converse_rtranclp_into_rtranclp rtranclp.rtrancl_refl)
qed

theorem live_ownership_exclusive_witness:
  "\<exists>b1 b2. set (strategy_bindings own_db3) = {b1, b2} \<and> sb_ID b1 \<noteq> sb_ID b2 \<and>
           \<not> strategyBindingScopesOverlap (scope_of b1) (scope_of b2)"
proof -
  obtain b1 b2 where b: "strategy_bindings own_db3 = [b1, b2]"
    using own_db3_eval(4) by (auto simp: length_Suc_conv numeral_2_eq_2)
  have "empty_store own_db0" by (simp add: empty_store_def own_db0_def)
  moreover have "own_s1\<lparr>st_ID := 10\<rparr> \<in> set (strategies own_db3)" by (simp add: own_db3_eval)
  moreover have "sb_ID b1 \<noteq> sb_ID b2" "sb_StrategyID b1 = 10" "sb_StrategyID b2 = 10"
    using own_db3_eval(2,3) b by simp_all
  moreover have "strategyRequiresLiveOwnership (st_IsActive (own_s1\<lparr>st_ID := 10\<rparr>))
      (AutomationLevel (st_Params (own_s1\<lparr>st_ID := 10\<rparr>)))"
    by (simp add: strategyRequiresLiveOwnership_def own_s1_def)
  ultimately show ?thesis
    using live_ownership_exclusive [OF _ own_reach, of "own_s1\<lparr>st_ID := 10\<rparr>" "own_s1\<lparr>st_ID := 10\<rparr>" b1 b2] b
    by auto
qed

text \<open>
  C7 Bindings never cross tenants: in every reachable store a binding belongs to an existing
  strategy, its campaign and its product belong to that strategy's workspace and cabinet, and its
  Ozon campaign to that cabinet.
\<close>

theorem bindings_within_tenant:
  assumes "empty_store db0" "service_step\<^sup>*\<^sup>* db0 db" "b \<in> set (strategy_bindings db)"
  shows "\<exists>s \<in> set (strategies db). st_ID s = sb_StrategyID b \<and>
     (\<forall>c. sb_CampaignID b = Some c \<longrightarrow> (c, st_WorkspaceID s, st_SellerCabinetID s) \<in> set (campaigns db)) \<and>
     (\<forall>p. sb_ProductID b = Some p \<longrightarrow> (p, st_WorkspaceID s, st_SellerCabinetID s) \<in> set (products db)) \<and>
     (\<forall>oc. sb_OzonCampaignID b = Some oc \<longrightarrow> (oc, st_SellerCabinetID s) \<in> set (ozon_campaigns db))"
proof -
  from ownership.inv_reachable [OF assms(1,2)] assms(3) have "binding_tenancy db b" by (simp add: store_wf_def)
  then show ?thesis unfolding binding_tenancy_def binding_target_ok_def by (elim bexE, intro bexI) auto
qed

theorem bindings_within_tenant_witness:
  "\<exists>b s. b \<in> set (strategy_bindings own_db3) \<and> s \<in> set (strategies own_db3) \<and> st_ID s = sb_StrategyID b"
proof -
  obtain b where b: "b \<in> set (strategy_bindings own_db3)"
    using own_db3_eval(4) by (cases "strategy_bindings own_db3") auto
  from bindings_within_tenant [OF _ own_reach this] b show ?thesis
    by (auto simp: empty_store_def own_db0_def)
qed

lemma attach_ozon_err: "fst (attach_ozon f i ws sid camp pid db) = Inl e \<Longrightarrow> snd (attach_ozon f i ws sid camp pid db) = db"
  by (cases camp; cases "CreateOzonStrategyBindingInWorkspace i ws sid (the camp) db")
    (auto simp: attach_ozon_def split: if_splits)

lemma attach_wb_err: "fst (attach_wb f i ws sid row camp pid db) = Inl e \<Longrightarrow> snd (attach_wb f i ws sid row camp pid db) = db"
  by (cases "CreateStrategyBindingInWorkspace i ws sid camp pid db") (auto simp: attach_wb_def Let_def split: if_splits)

text \<open>
  C37 A failed create, update or attach changes nothing: when the service returns an error, whichever
  check or database call it comes from, the store is the one it was called on.
\<close>

theorem failed_operation_no_effect:
  "(\<forall>e. fst (strategy_Create tz_ok f i ws a input db) = Inl e \<longrightarrow> snd (strategy_Create tz_ok f i ws a input db) = db) \<and>
   (\<forall>e. fst (strategy_Update tz_ok f ws sid a input db) = Inl e \<longrightarrow> snd (strategy_Update tz_ok f ws sid a input db) = db) \<and>
   (\<forall>e. fst (AttachBinding f i ws sid camp pid db) = Inl e \<longrightarrow> snd (AttachBinding f i ws sid camp pid db) = db)"
proof (intro conjI)
  show "\<forall>e. fst (strategy_Create tz_ok f i ws a input db) = Inl e \<longrightarrow> snd (strategy_Create tz_ok f i ws a input db) = db"
    by (cases "validateStrategyForSave tz_ok input"; cases "map_of (seller_cabinets db) (st_SellerCabinetID input)")
      (simp_all add: strategy_Create_def Let_def)
  show "\<forall>e. fst (strategy_Update tz_ok f ws sid a input db) = Inl e \<longrightarrow> snd (strategy_Update tz_ok f ws sid a input db) = db"
    by (cases "validateStrategyForSave tz_ok input"; cases "find_strategy db ws sid")
      (simp_all add: strategy_Update_def Let_def)
  show "\<forall>e. fst (AttachBinding f i ws sid camp pid db) = Inl e \<longrightarrow> snd (AttachBinding f i ws sid camp pid db) = db"
    using attach_ozon_err [of f i ws sid camp pid db] attach_wb_err [of f i ws sid _ camp pid db]
    by (cases "find_strategy db ws sid") (auto simp: AttachBinding_def)
qed

theorem failed_operation_no_effect_witness:
  "fst (AttachBinding (\<lambda>_. False) 50 1 10 (Some 20) (Some 31) own_db2) =
     Inl (validation_error liveStrategyOwnershipConflictMessage) \<and>
   snd (AttachBinding (\<lambda>_. False) 50 1 10 (Some 20) (Some 31) own_db2) = own_db2"
proof -
  have "fst (AttachBinding (\<lambda>_. False) 50 1 10 (Some 20) (Some 31) own_db2) =
     Inl (validation_error liveStrategyOwnershipConflictMessage)"
    by (simp add: own_db2_eval AttachBinding_def attach_wb_def find_strategy_def own_s1_def
      liveStrategyOwnershipConflictForScope_def row_live_def strategyRequiresLiveOwnership_def
      Let_def IsOzonPriceStrategy_def IsOzonStrategy_def strategy_type_defs sample_params_def)
  then show ?thesis
    using failed_operation_no_effect [of "\<lambda>_. True" "\<lambda>_. False" 50 1 0 own_s1 own_db2 10 "Some 20" "Some 31"] by simp
qed

text \<open>What a successful create or update has checked and stored.\<close>

lemma saved_input:
  assumes "strategy_Create tz_ok f i ws a input db = (Inr s, db') \<or> strategy_Update tz_ok f ws sid a input db = (Inr s, db')"
  shows "validateStrategyForSave tz_ok input = None \<and> json_params_ok (st_Params input) \<and> st_Params s = st_Params input \<and>
    (\<exists>row \<in> set (strategies db'). st_ID row = st_ID s \<and> st_Params row = st_Params s)"
  using assms
proof
  assume "strategy_Create tz_ok f i ws a input db = (Inr s, db')"
  then show ?thesis
    by (auto simp: strategy_Create_def Let_def strategyFromSqlc_def split: option.splits if_splits)
next
  assume u: "strategy_Update tz_ok f ws sid a input db = (Inr s, db')"
  then obtain row where row: "find_strategy db ws sid = Some row" "s = strategyFromSqlc (update_row input row)"
    "strategies db' = map (update_if ws sid input) (strategies db)"
    by (auto simp: strategy_Update_def Let_def split: option.splits if_splits)
  then have "row \<in> set (strategies db)" "st_ID row = sid" "st_WorkspaceID row = ws"
    by (auto simp: find_strategy_def find_Some_iff)
  then have "update_row input row \<in> set (strategies db')" by (force simp: row(3) update_if_def)
  moreover have "st_ID s = st_ID (update_row input row)" "st_Params s = st_Params (update_row input row)"
    "st_Params s = st_Params input" by (simp_all add: row(2) strategyFromSqlc_def update_row_def)
  moreover have "validateStrategyForSave tz_ok input = None" "json_params_ok (st_Params input)"
    using u by (auto simp: strategy_Update_def Let_def split: option.splits if_splits)
  ultimately show ?thesis by (metis (no_types))
qed

text \<open>
  C38 A bid strategy that the service creates or updates meets the parameter conditions of the bid engine. Its stored
  parameters are the requested ones; after default filling the change limit lies in \<open>(0, 100]\<close>, both corridor limits are
  positive, and the corridor is not empty except in exactly the two cases that the validation lets through: only a
  \<^verbatim>\<open>max_bid\<close> below 50 is given, or only a \<^verbatim>\<open>min_bid\<close> above 5000. When the requested limits are 64-bit integers, as their Go type
  says, the engine's operating range \<open>bid_range\<close> holds for every positive current bid up to \<open>2 ^ 46\<close>.
  The validation alone would let a NaN change limit pass; the JSON encoding refuses it.
\<close>

theorem saved_strategy_in_bid_range:
  assumes "strategy_Create tz_ok f i ws a input db = (Inr s, db') \<or> strategy_Update tz_ok f ws sid a input db = (Inr s, db')"
    and "st_Type input \<in> bid_strategy_types"
  shows "st_Params s = st_Params input \<and> (\<exists>row \<in> set (strategies db'). st_ID row = st_ID s \<and> st_Params row = st_Params s) \<and>
    (\<exists>pct. MaxChangePercent (eff_params s) = Fin pct \<and> 0 < pct \<and> pct \<le> 100) \<and>
    0 < MinBid (eff_params s) \<and> 0 < MaxBid (eff_params s) \<and>
    (MinBid (eff_params s) \<le> MaxBid (eff_params s) \<longleftrightarrow>
       \<not> (MinBid (st_Params s) = 0 \<and> 0 < MaxBid (st_Params s) \<and> MaxBid (st_Params s) < 50 \<or>
          MaxBid (st_Params s) = 0 \<and> 5000 < MinBid (st_Params s))) \<and>
    (in_int64 (MinBid (st_Params s)) \<and> in_int64 (MaxBid (st_Params s)) \<longrightarrow>
       (\<forall>ctx. 0 < CurrentBid ctx \<and> CurrentBid ctx \<le> 2 ^ 46 \<longrightarrow> bid_range s ctx))"
proof -
  note saved = saved_input [OF assms(1)]
  note v = validate_common_limitsD [OF validate_bid_typeD(1) [OF conjunct1 [OF saved] assms(2)]]
  have p: "st_Params s = st_Params input" using saved by blast
  have "is_fin (MaxChangePercent (st_Params s))" using saved by (simp add: json_params_ok_def)
  then obtain x where x: "MaxChangePercent (st_Params s) = Fin x" "0 \<le> x" "x \<le> 100"
    using v(4,5) unfolding p by (cases "MaxChangePercent (st_Params input)") (simp_all add: is_fin_def IsNaN_def IsInf_def not_less)
  have range: "bid_range s ctx" if "in_int64 (MinBid (st_Params s))" "in_int64 (MaxBid (st_Params s))"
      "0 < CurrentBid ctx" "CurrentBid ctx \<le> 2 ^ 46" for ctx
    using that x by (simp add: bid_range_def zero_f64_def)
  have pct: "\<exists>pct. MaxChangePercent (eff_params s) = Fin pct \<and> 0 < pct \<and> pct \<le> 100"
    using x by (cases "x = 0") (auto simp: Merged_def dflt_f_def zero_f64_def)
  have "0 < MinBid (eff_params s)" "0 < MaxBid (eff_params s)"
    "MinBid (eff_params s) \<le> MaxBid (eff_params s) \<longleftrightarrow>
       \<not> (MinBid (st_Params s) = 0 \<and> 0 < MaxBid (st_Params s) \<and> MaxBid (st_Params s) < 50 \<or>
          MaxBid (st_Params s) = 0 \<and> 5000 < MinBid (st_Params s))"
    using v(1-3) unfolding p by (auto simp: Merged_def dflt_i_def)
  then show ?thesis using saved pct range by blast
qed

lemma own_s1_created: "\<exists>s db'. strategy_Create (\<lambda>_. True) (\<lambda>_. False) 10 1 99 own_s1 own_db0 = (Inr s, db')"
  using own_s1_valid own_s1_json by (simp add: strategy_Create_def own_db0_def own_s1_def Let_def)

theorem saved_strategy_in_bid_range_witness:
  "\<exists>s db'. strategy_Create (\<lambda>_. True) (\<lambda>_. False) 10 1 99 own_s1 own_db0 = (Inr s, db') \<and> bid_range s (wit_ctx 1) \<and>
     MinBid (eff_params s) \<le> MaxBid (eff_params s)"
proof -
  obtain s db' where s: "strategy_Create (\<lambda>_. True) (\<lambda>_. False) 10 1 99 own_s1 own_db0 = (Inr s, db')"
    using own_s1_created by blast
  have t: "st_Type own_s1 \<in> bid_strategy_types" by (simp add: bid_strategy_types_def own_s1_def)
  note saved = saved_strategy_in_bid_range [OF disjI1 [OF s] t]
  have "0 < CurrentBid (wit_ctx 1)" "CurrentBid (wit_ctx 1) \<le> 2 ^ 46"
    "in_int64 (MinBid (st_Params own_s1))" "in_int64 (MaxBid (st_Params own_s1))"
    "MinBid (st_Params own_s1) = 0" "MaxBid (st_Params own_s1) = 0"
    by (simp_all add: own_s1_def sample_params_def zero_StrategyParams_def wit_ctx_def)
  with saved s show ?thesis by auto
qed

text \<open>
  The pairwise scan of a scope list finds an overlap exactly when two positions of the list
  overlap.
\<close>

theorem scope_set_overlap_iff:
  "strategyBindingScopeSetHasOverlap scopes \<longleftrightarrow>
     (\<exists>i j. i < j \<and> j < length scopes \<and> strategyBindingScopesOverlap (scopes ! i) (scopes ! j))"
proof (induction scopes)
  case (Cons s ss)
  have "list_ex (strategyBindingScopesOverlap s) ss \<longleftrightarrow> (\<exists>j < length ss. strategyBindingScopesOverlap s (ss ! j))"
    by (simp add: list_ex_length)
  moreover have "(\<exists>i j. i < j \<and> j < length (s # ss) \<and> strategyBindingScopesOverlap ((s # ss) ! i) ((s # ss) ! j)) \<longleftrightarrow>
      (\<exists>j < length ss. strategyBindingScopesOverlap s (ss ! j)) \<or>
      (\<exists>i j. i < j \<and> j < length ss \<and> strategyBindingScopesOverlap (ss ! i) (ss ! j))" (is "?l = ?r")
  proof
    assume ?l
    then obtain i j where ij: "i < j" "j < length (s # ss)" "strategyBindingScopesOverlap ((s # ss) ! i) ((s # ss) ! j)"
      by blast
    then obtain j' where "j = Suc j'" by (cases j) simp_all
    with ij show ?r by (cases i) auto
  next
    assume ?r
    then show ?l by (elim disjE exE conjE) (force intro: exI [of _ 0] exI [of _ "Suc _"])+
  qed
  ultimately show ?case using Cons by simp
qed simp

text \<open>
  A deletion is recorded with the parameters, type, activity and cabinet of the strategy it
  removes, and the strategy and every binding of it are gone.
\<close>

theorem delete_recorded:
  assumes "store_wf db" "find_strategy db ws sid = Some row" "\<forall>c. \<not> f c"
  shows "let db' = snd (strategy_Delete f ws sid a db) in
     (\<exists>e. audit_logs db' = audit_logs db @ [e] \<and> au_Action e = ''delete_strategy'' \<and> au_UserID e = a \<and>
          au_EntityID e = sid \<and> au_Snapshot e = Some (row\<lparr>st_Bindings := []\<rparr>)) \<and>
     find_strategy db' ws sid = None \<and> (\<forall>b \<in> set (strategy_bindings db'). sb_StrategyID b \<noteq> sid)"
proof -
  have "find_strategy (snd (strategy_Delete f ws sid a db)) ws sid = None"
    using assms(3) by (auto simp: strategy_Delete_def Let_def find_strategy_def find_None_iff)
  moreover have "\<exists>e. audit_logs (snd (strategy_Delete f ws sid a db)) = audit_logs db @ [e] \<and>
      au_Action e = ''delete_strategy'' \<and> au_UserID e = a \<and> au_EntityID e = sid \<and> au_Snapshot e = Some (row\<lparr>st_Bindings := []\<rparr>)"
    using assms(2,3) by (simp add: strategy_Delete_def Let_def writeAuditLog_def strategy_Get_def strategyFromSqlc_def)
  moreover have "sb_StrategyID b \<noteq> sid" if "b \<in> set (strategy_bindings (snd (strategy_Delete f ws sid a db)))" for b
    using that assms(3) find_strategyD [OF assms(2)] by (auto simp: strategy_Delete_def Let_def list_ex_iff)
  ultimately show ?thesis by (auto simp: Let_def)
qed

theorem delete_recorded_witness:
  "find_strategy (snd (strategy_Delete (\<lambda>_. False) 1 10 99 own_db3)) 1 10 = None"
proof -
  have "store_wf own_db3"
    using ownership.inv_reachable [OF _ own_reach] by (simp add: empty_store_def own_db0_def)
  moreover have "find_strategy own_db3 1 10 = Some (own_s1\<lparr>st_ID := 10\<rparr>)"
    by (simp add: find_strategy_def own_db3_eval own_s1_def)
  ultimately show ?thesis using delete_recorded [of own_db3 1 10 _ "\<lambda>_. False" 99] by (auto simp: Let_def)
qed

text \<open>
  The audit metadata of a deletion does not determine the bindings: two stores whose strategy is
  bound to one campaign as a whole and to one product of it leave the same metadata.
\<close>

theorem delete_metadata_loses_product:
  "\<exists>db1 db2. map sb_ProductID (strategy_bindings db1) \<noteq> map sb_ProductID (strategy_bindings db2) \<and>
     map au_Bindings (audit_logs (snd (strategy_Delete (\<lambda>_. False) 1 10 99 db1))) =
     map au_Bindings (audit_logs (snd (strategy_Delete (\<lambda>_. False) 1 10 99 db2))) \<and>
     map au_Snapshot (audit_logs (snd (strategy_Delete (\<lambda>_. False) 1 10 99 db1))) =
     map au_Snapshot (audit_logs (snd (strategy_Delete (\<lambda>_. False) 1 10 99 db2)))"
proof -
  let ?b = "\<lambda>p. \<lparr>sb_ID = 40, sb_StrategyID = 10, sb_CampaignID = Some 20, sb_ProductID = p, sb_OzonCampaignID = None\<rparr>"
  let ?db = "\<lambda>p. own_db0\<lparr>strategies := [own_s1\<lparr>st_ID := 10\<rparr>], strategy_bindings := [?b p]\<rparr>"
  show ?thesis
    by (intro exI [of _ "?db None"] exI [of _ "?db (Some 31)"])
      (simp add: strategy_Delete_def strategy_Get_def find_strategy_def own_s1_def own_db0_def writeAuditLog_def Let_def
        strategyFromSqlc_def)
qed

end
