(* ===== verification/Repricer_Store.thy ===== *)
theory Repricer_Store
  imports Price_Adjust
begin

text \<open>
  The tables of the repricer and the SQL statements of
  \<^verbatim>\<open>internal/repository/sqlc/repricer_manual.go\<close> that change them: the queue of price changes, the
  upload tasks at the marketplace and the schedule entries. A table is the list of its rows in insertion
  order and a statement is a function on the database; \<open>now\<close> is the value of \<^verbatim>\<open>now()\<close> and ids that the
  database or the service draws are arguments. The step relation \<open>sql_step\<close> runs these statements in any
  order, as concurrent workers do, and \<open>queue_wf\<close> is the invariant that every one of them keeps.
\<close>

named_theorems store_defs \<open>definitions of the repricer's SQL statements\<close>

section \<open>Tables\<close>

definition PriceTaskUploaded :: string where "PriceTaskUploaded = ''uploaded''"
definition PriceTaskProcessing :: string where "PriceTaskProcessing = ''processing''"
definition PriceTaskApplied :: string where "PriceTaskApplied = ''applied''"
definition PriceTaskPartial :: string where "PriceTaskPartial = ''partial''"
definition PriceTaskFailed :: string where "PriceTaskFailed = ''failed''"

definition PriceSchedulePlanned :: string where "PriceSchedulePlanned = ''planned''"
definition PriceScheduleExecuting :: string where "PriceScheduleExecuting = ''executing''"
definition PriceScheduleDone :: string where "PriceScheduleDone = ''done''"
definition PriceScheduleFailed :: string where "PriceScheduleFailed = ''failed''"
definition PriceScheduleCanceled :: string where "PriceScheduleCanceled = ''canceled''"

lemmas price_task_defs = PriceTaskUploaded_def PriceTaskProcessing_def PriceTaskApplied_def PriceTaskPartial_def
  PriceTaskFailed_def

lemmas price_schedule_defs = PriceSchedulePlanned_def PriceScheduleExecuting_def PriceScheduleDone_def
  PriceScheduleFailed_def PriceScheduleCanceled_def

record PriceUploadTask =
  tk_ID :: uuid
  tk_WorkspaceID :: uuid
  tk_SellerCabinetID :: uuid
  tk_WbTaskID :: int
  tk_Status :: string
  tk_ItemsCount :: int
  tk_PollCount :: int
  tk_LastPolledAt :: "int option"
  tk_CompletedAt :: "int option"
  tk_Error :: "string option"
  tk_CreatedAt :: int
  tk_UpdatedAt :: int

record PriceScheduleEntry =
  se_ID :: uuid
  se_WorkspaceID :: uuid
  se_SellerCabinetID :: uuid
  se_ScopeType :: string
  se_ProductIds :: "int list"
  se_AdjustmentType :: string
  se_AdjustmentValue :: f64
  se_Direction :: "string option"
  se_ScheduledAt :: int
  se_RevertAt :: "int option"
  se_RevertToPrevious :: bool
  se_RevertOf :: "uuid option"
  se_Status :: string
  se_ExecutedTaskIds :: "uuid list"
  se_Error :: "string option"
  se_Comment :: "string option"
  se_CreatedBy :: "uuid option"
  se_CreatedAt :: int
  se_UpdatedAt :: int

text \<open>The columns of \<^verbatim>\<open>seller_cabinets\<close> that the repricer reads, of the cabinets that are not deleted.\<close>

record SellerCabinet =
  ca_ID :: uuid
  ca_WorkspaceID :: uuid
  ca_Marketplace :: string
  ca_EncryptedToken :: string
  ca_RepricerPausedUntil :: "int option"

record PriceUpdateItem =
  ui_NmID :: int
  ui_Price :: int
  ui_Discount :: int

text \<open>
  \<open>wb_sent\<close> is the sequence of price batches handed to the marketplace client, with the cabinet each is
  for; \<open>calls\<close> counts the database and client calls made so far and selects their outcome in an
  environment (theory \<open>Repricer_Queue\<close>).
\<close>

record repricer_db =
  price_changes :: "PriceChangeRow list"
  price_upload_tasks :: "PriceUploadTask list"
  price_schedule_entries :: "PriceScheduleEntry list"
  product_prices :: "ProductPrice list"
  product_economics :: "(uuid \<times> ProductEconomics) list"
  seller_cabinets :: "SellerCabinet list"
  wb_sent :: "(uuid \<times> PriceUpdateItem list) list"
  calls :: nat

section \<open>Statements on price changes\<close>

definition upd_where :: "('r \<Rightarrow> bool) \<Rightarrow> ('r \<Rightarrow> 'r) \<Rightarrow> 'r list \<Rightarrow> 'r list" where
  "upd_where P f rows = map (\<lambda>r. if P r then f r else r) rows"

definition wrap32 :: "int \<Rightarrow> int" where
  "wrap32 n = (n + 2147483648) mod 4294967296 - 2147483648"

text \<open>The status sets of the statements.\<close>

definition transport_statuses :: "string list" where
  "transport_statuses = [PriceStatusSubmitting, PriceStatusSubmitUnknown, PriceStatusUploaded]"

definition in_transport :: "PriceChangeRow \<Rightarrow> bool" where
  "in_transport r \<longleftrightarrow> pc_WbStatus r \<in> set transport_statuses"

abbreviation same_good :: "PriceChangeRow \<Rightarrow> PriceChangeRow \<Rightarrow> bool" where
  "same_good a b \<equiv> pc_SellerCabinetID a = pc_SellerCabinetID b \<and> pc_WbProductID a = pc_WbProductID b"

text \<open>
  The row that \<^verbatim>\<open>enqueuePendingChange\<close> has inserted for an intent. A row is refused when a price is
  negative (the check constraint of the table) or its id is taken.
\<close>

definition pending_row :: "uuid \<Rightarrow> int \<Rightarrow> uuid \<Rightarrow> priceChangeIntent \<Rightarrow> PriceChangeRow" where
  "pending_row new_id now workspaceID it =
     \<lparr>pc_ID = new_id, pc_WorkspaceID = workspaceID, pc_SellerCabinetID = CabinetID it,
      pc_StrategyID = StrategyID it, pc_ScheduleEntryID = ScheduleEntryID it, pc_UploadTaskID = None,
      pc_SubmissionBatchID = None, pc_WbProductID = NmID it, pc_OldPriceRub = OldPriceRub it,
      pc_NewPriceRub = NewPriceRub it, pc_OldDiscountPercent = wrap32 (OldDiscount it),
      pc_NewDiscountPercent = wrap32 (NewDiscount it),
      pc_MinPriceRub = (if IntentMinPriceRub it > 0 then Some (IntentMinPriceRub it) else None),
      pc_Reason = IntentReason it, pc_Source = IntentSource it, pc_WbStatus = PriceStatusPending, pc_Error = None,
      pc_CanRollback = (IntentSource it \<noteq> PriceSourceRollback), pc_RollbackOf = RollbackOf it,
      pc_CreatedBy = CreatedBy it, pc_CreatedAt = now, pc_UpdatedAt = now\<rparr>"

definition insertable :: "repricer_db \<Rightarrow> PriceChangeRow \<Rightarrow> bool" where
  "insertable db row \<longleftrightarrow> pc_OldPriceRub row \<ge> 0 \<and> pc_NewPriceRub row \<ge> 0 \<and>
     pc_ID row \<notin> pc_ID ` set (price_changes db)"

definition supersede :: "int \<Rightarrow> PriceChangeRow \<Rightarrow> PriceChangeRow" where
  "supersede now r = r\<lparr>pc_WbStatus := PriceStatusFailed, pc_Error := Some ''superseded by newer price request'',
     pc_UpdatedAt := now\<rparr>"

definition EnqueuePriceChange :: "int \<Rightarrow> PriceChangeRow \<Rightarrow> repricer_db \<Rightarrow> repricer_db option" where
  "EnqueuePriceChange now row db =
     (if \<not> insertable db row then None
      else Some (db\<lparr>price_changes :=
        upd_where (\<lambda>r. same_good r row \<and> pc_WbStatus r = PriceStatusPending) (supersede now) (price_changes db) @ [row]\<rparr>))"

definition CreatePriceChange :: "PriceChangeRow \<Rightarrow> repricer_db \<Rightarrow> repricer_db option" where
  "CreatePriceChange row db =
     (if \<not> insertable db row then None else Some (db\<lparr>price_changes := price_changes db @ [row]\<rparr>))"

definition claimable :: "repricer_db \<Rightarrow> PriceChangeRow \<Rightarrow> bool" where
  "claimable db r \<longleftrightarrow> pc_WbStatus r = PriceStatusPending \<and>
     \<not> (\<exists>a \<in> set (price_changes db). same_good a r \<and> in_transport a)"

definition claim_row :: "int \<Rightarrow> uuid \<Rightarrow> PriceChangeRow \<Rightarrow> PriceChangeRow" where
  "claim_row now batch r =
     r\<lparr>pc_WbStatus := PriceStatusSubmitting, pc_SubmissionBatchID := Some batch, pc_UpdatedAt := now\<rparr>"

definition claim_ids :: "int \<Rightarrow> uuid \<Rightarrow> uuid list \<Rightarrow> repricer_db \<Rightarrow> repricer_db" where
  "claim_ids now batch ids db = db\<lparr>price_changes :=
     upd_where (\<lambda>r. pc_ID r \<in> set ids \<and> pc_WbStatus r = PriceStatusPending) (claim_row now batch) (price_changes db)\<rparr>"

definition claim_candidates :: "uuid \<Rightarrow> uuid \<Rightarrow> nat \<Rightarrow> repricer_db \<Rightarrow> uuid list" where
  "claim_candidates workspaceID cabinetID limit db =
     map pc_ID (take limit (sort_key pc_CreatedAt
       (filter (\<lambda>r. pc_WorkspaceID r = workspaceID \<and> pc_SellerCabinetID r = cabinetID \<and> claimable db r) (price_changes db))))"

definition rows_with_ids :: "uuid list \<Rightarrow> repricer_db \<Rightarrow> PriceChangeRow list" where
  "rows_with_ids ids db = filter (\<lambda>r. pc_ID r \<in> set ids) (price_changes db)"

definition ClaimPendingPriceChanges ::
    "uuid \<Rightarrow> uuid \<Rightarrow> nat \<Rightarrow> int \<Rightarrow> uuid \<Rightarrow> repricer_db \<Rightarrow> PriceChangeRow list \<times> repricer_db" where
  "ClaimPendingPriceChanges workspaceID cabinetID limit now batch db =
     (let ids = claim_candidates workspaceID cabinetID limit db; db' = claim_ids now batch ids db
      in (rows_with_ids ids db', db'))"

definition uncertain_row :: "PriceChangeRow \<Rightarrow> bool" where
  "uncertain_row r \<longleftrightarrow> pc_WbStatus r = PriceStatusSubmitUnknown \<and> pc_UploadTaskID r = None"

definition candidate_batch :: "uuid \<Rightarrow> uuid \<Rightarrow> repricer_db \<Rightarrow> uuid option" where
  "candidate_batch workspaceID cabinetID db =
     (case sort_key pc_UpdatedAt (filter (\<lambda>r. pc_WorkspaceID r = workspaceID \<and> pc_SellerCabinetID r = cabinetID \<and>
             uncertain_row r \<and> pc_SubmissionBatchID r \<noteq> None) (price_changes db)) of
        [] \<Rightarrow> None
      | r # _ \<Rightarrow> pc_SubmissionBatchID r)"

definition in_batch :: "uuid \<Rightarrow> PriceChangeRow \<Rightarrow> bool" where
  "in_batch batch r \<longleftrightarrow> pc_SubmissionBatchID r = Some batch"

definition reclaim :: "int \<Rightarrow> uuid \<Rightarrow> repricer_db \<Rightarrow> repricer_db" where
  "reclaim now batch db = db\<lparr>price_changes := upd_where (\<lambda>r. in_batch batch r \<and> uncertain_row r)
     (\<lambda>r. r\<lparr>pc_WbStatus := PriceStatusSubmitting, pc_UpdatedAt := now\<rparr>) (price_changes db)\<rparr>"

definition ClaimUnknownPriceChanges ::
    "uuid \<Rightarrow> uuid \<Rightarrow> int \<Rightarrow> repricer_db \<Rightarrow> PriceChangeRow list \<times> repricer_db" where
  "ClaimUnknownPriceChanges workspaceID cabinetID now db =
     (case candidate_batch workspaceID cabinetID db of
        None \<Rightarrow> ([], db)
      | Some batch \<Rightarrow>
        let ids = map pc_ID (filter (\<lambda>r. in_batch batch r \<and> uncertain_row r) (price_changes db)); db' = reclaim now batch db
        in (rows_with_ids ids db', db'))"

definition submitting_unlinked :: "PriceChangeRow \<Rightarrow> bool" where
  "submitting_unlinked r \<longleftrightarrow> pc_WbStatus r = PriceStatusSubmitting \<and> pc_UploadTaskID r = None"

definition settle_submitting :: "string \<Rightarrow> uuid \<Rightarrow> uuid list \<Rightarrow> string option \<Rightarrow> int \<Rightarrow> repricer_db \<Rightarrow> repricer_db" where
  "settle_submitting status workspaceID ids reason now db = db\<lparr>price_changes :=
     upd_where (\<lambda>r. pc_WorkspaceID r = workspaceID \<and> pc_ID r \<in> set ids \<and> submitting_unlinked r)
       (\<lambda>r. r\<lparr>pc_WbStatus := status, pc_Error := reason, pc_UpdatedAt := now\<rparr>) (price_changes db)\<rparr>"

definition FailSubmittingPriceChanges :: "uuid \<Rightarrow> uuid list \<Rightarrow> string option \<Rightarrow> int \<Rightarrow> repricer_db \<Rightarrow> repricer_db" where
  "FailSubmittingPriceChanges = settle_submitting PriceStatusFailed"

definition MarkSubmittingPriceChangesUnknown :: "uuid \<Rightarrow> uuid list \<Rightarrow> string option \<Rightarrow> int \<Rightarrow> repricer_db \<Rightarrow> repricer_db" where
  "MarkSubmittingPriceChangesUnknown = settle_submitting PriceStatusSubmitUnknown"

section \<open>Statements on upload tasks\<close>

text \<open>
  Recording an accepted upload: the task row is inserted, or found when the marketplace reports a known
  task id, and the claimed changes are linked to it with a status that follows the task's.
\<close>

definition task_key :: "uuid \<Rightarrow> int \<Rightarrow> PriceUploadTask \<Rightarrow> bool" where
  "task_key cabinetID wbTaskID t \<longleftrightarrow> tk_SellerCabinetID t = cabinetID \<and> tk_WbTaskID t = wbTaskID"

definition upsert_task ::
    "uuid \<Rightarrow> int \<Rightarrow> uuid \<Rightarrow> uuid \<Rightarrow> int \<Rightarrow> string \<Rightarrow> int \<Rightarrow> repricer_db \<Rightarrow> PriceUploadTask \<times> repricer_db" where
  "upsert_task new_id now workspaceID cabinetID wbTaskID status itemsCount db =
     (case find (task_key cabinetID wbTaskID) (price_upload_tasks db) of
        Some t \<Rightarrow>
          let f = (\<lambda>t. t\<lparr>tk_ItemsCount := max (tk_ItemsCount t) itemsCount, tk_UpdatedAt := now\<rparr>)
          in (f t, db\<lparr>price_upload_tasks := upd_where (task_key cabinetID wbTaskID) f (price_upload_tasks db)\<rparr>)
      | None \<Rightarrow>
          let t = \<lparr>tk_ID = new_id, tk_WorkspaceID = workspaceID, tk_SellerCabinetID = cabinetID, tk_WbTaskID = wbTaskID,
                   tk_Status = status, tk_ItemsCount = itemsCount, tk_PollCount = 0, tk_LastPolledAt = None,
                   tk_CompletedAt = None, tk_Error = None, tk_CreatedAt = now, tk_UpdatedAt = now\<rparr>
          in (t, db\<lparr>price_upload_tasks := price_upload_tasks db @ [t]\<rparr>))"

definition linked_status :: "string \<Rightarrow> string" where
  "linked_status taskStatus =
     (if taskStatus = PriceTaskApplied then PriceStatusApplied
      else if taskStatus = PriceTaskFailed then PriceStatusFailed
      else PriceStatusUploaded)"

definition link_changes :: "PriceUploadTask \<Rightarrow> uuid list \<Rightarrow> int \<Rightarrow> repricer_db \<Rightarrow> repricer_db" where
  "link_changes task ids now db = db\<lparr>price_changes :=
     upd_where (\<lambda>r. pc_ID r \<in> set ids \<and> pc_WbStatus r = PriceStatusSubmitting)
       (\<lambda>r. r\<lparr>pc_UploadTaskID := Some (tk_ID task), pc_WbStatus := linked_status (tk_Status task), pc_UpdatedAt := now\<rparr>)
       (price_changes db)\<rparr>"

definition attach_task :: "uuid \<Rightarrow> uuid list \<Rightarrow> int \<Rightarrow> repricer_db \<Rightarrow> repricer_db" where
  "attach_task taskID scheduleIDs now db = db\<lparr>price_schedule_entries :=
     upd_where (\<lambda>e. se_ID e \<in> set scheduleIDs \<and> se_Status e = PriceScheduleExecuting)
       (\<lambda>e. e\<lparr>se_ExecutedTaskIds := (if taskID \<in> set (se_ExecutedTaskIds e) then se_ExecutedTaskIds e
                                      else se_ExecutedTaskIds e @ [taskID]), se_UpdatedAt := now\<rparr>)
       (price_schedule_entries db)\<rparr>"

definition CreatePriceUploadTaskAndLinkChanges ::
    "uuid \<Rightarrow> int \<Rightarrow> uuid \<Rightarrow> uuid \<Rightarrow> int \<Rightarrow> string \<Rightarrow> int \<Rightarrow> uuid list \<Rightarrow> repricer_db \<Rightarrow> (PriceUploadTask \<times> int) \<times> repricer_db" where
  "CreatePriceUploadTaskAndLinkChanges new_id now workspaceID cabinetID wbTaskID status itemsCount ids db =
     (let (task, db1) = upsert_task new_id now workspaceID cabinetID wbTaskID status itemsCount db;
          linked = filter (\<lambda>r. pc_ID r \<in> set ids \<and> pc_WbStatus r = PriceStatusSubmitting) (price_changes db1)
      in ((task, int (length linked)),
          attach_task (tk_ID task) (List.map_filter pc_ScheduleEntryID linked) now (link_changes task ids now db1)))"

definition open_task :: "PriceUploadTask \<Rightarrow> bool" where
  "open_task t \<longleftrightarrow> tk_Status t \<in> {PriceTaskUploaded, PriceTaskProcessing}"

definition close_task :: "uuid \<Rightarrow> uuid \<Rightarrow> string \<Rightarrow> string option \<Rightarrow> int \<Rightarrow> repricer_db \<Rightarrow> repricer_db" where
  "close_task taskID workspaceID status err now db = db\<lparr>price_upload_tasks :=
     upd_where (\<lambda>t. tk_ID t = taskID \<and> tk_WorkspaceID t = workspaceID \<and> open_task t)
       (\<lambda>t. t\<lparr>tk_Status := status, tk_CompletedAt := Some now, tk_Error := err, tk_LastPolledAt := Some now,
              tk_UpdatedAt := now\<rparr>) (price_upload_tasks db)\<rparr>"

text \<open>
  The terminal statements: the open changes of a task take the status that \<open>result\<close> gives them, and the
  original of every rollback that is applied this way becomes rolled back.
\<close>

definition result_pending :: "uuid \<Rightarrow> PriceChangeRow \<Rightarrow> bool" where
  "result_pending taskID r \<longleftrightarrow> pc_UploadTaskID r = Some taskID \<and>
     pc_WbStatus r \<in> {PriceStatusSubmitting, PriceStatusUploaded}"

definition apply_results ::
    "uuid \<Rightarrow> (PriceChangeRow \<Rightarrow> string \<times> string option) \<Rightarrow> int \<Rightarrow> repricer_db \<Rightarrow> repricer_db" where
  "apply_results taskID result now db =
     (let undone = List.map_filter pc_RollbackOf
            (filter (\<lambda>r. result_pending taskID r \<and> fst (result r) = PriceStatusApplied) (price_changes db))
      in db\<lparr>price_changes := map (\<lambda>r.
             if result_pending taskID r then r\<lparr>pc_WbStatus := fst (result r), pc_Error := snd (result r), pc_UpdatedAt := now\<rparr>
             else if pc_ID r \<in> set undone then r\<lparr>pc_WbStatus := PriceStatusRolledBack, pc_UpdatedAt := now\<rparr>
             else r) (price_changes db)\<rparr>)"

definition FinalizePriceUploadTask ::
    "uuid \<Rightarrow> uuid \<Rightarrow> string \<Rightarrow> string \<Rightarrow> string option \<Rightarrow> int \<Rightarrow> repricer_db \<Rightarrow> bool \<times> repricer_db" where
  "FinalizePriceUploadTask taskID workspaceID taskStatus changeStatus err now db =
     (if \<exists>t \<in> set (price_upload_tasks db). tk_ID t = taskID \<and> tk_WorkspaceID t = workspaceID \<and> open_task t
      then (True, apply_results taskID (\<lambda>_. (changeStatus, err)) now (close_task taskID workspaceID taskStatus err now db))
      else (False, db))"

definition partial_result :: "int list \<Rightarrow> string list \<Rightarrow> PriceChangeRow \<Rightarrow> string \<times> string option" where
  "partial_result failedNmIDs failureReasons r =
     (if pc_WbProductID r \<in> set failedNmIDs
      then (PriceStatusFailed, map_of (zip failedNmIDs failureReasons) (pc_WbProductID r))
      else (PriceStatusApplied, None))"

definition FinalizePartialPriceUploadTask ::
    "uuid \<Rightarrow> uuid \<Rightarrow> int list \<Rightarrow> string list \<Rightarrow> int \<Rightarrow> repricer_db \<Rightarrow> bool \<times> repricer_db" where
  "FinalizePartialPriceUploadTask taskID workspaceID failedNmIDs failureReasons now db =
     (let scope = (\<exists>t \<in> set (price_upload_tasks db). tk_ID t = taskID \<and> tk_WorkspaceID t = workspaceID \<and>
                     (open_task t \<or> tk_Status t = PriceTaskPartial));
          terminal = (\<exists>t \<in> set (price_upload_tasks db). tk_ID t = taskID \<and> tk_WorkspaceID t = workspaceID \<and> open_task t);
          db1 = close_task taskID workspaceID PriceTaskPartial (Some ''partial errors'') now db
      in (terminal, if scope then apply_results taskID (partial_result failedNmIDs failureReasons) now db1 else db1))"

definition BumpPriceUploadTaskPoll :: "uuid \<Rightarrow> uuid \<Rightarrow> int \<Rightarrow> string option \<Rightarrow> int \<Rightarrow> repricer_db \<Rightarrow> repricer_db" where
  "BumpPriceUploadTaskPoll taskID workspaceID expectedPollCount err now db = db\<lparr>price_upload_tasks :=
     upd_where (\<lambda>t. tk_ID t = taskID \<and> tk_WorkspaceID t = workspaceID \<and> open_task t \<and> tk_PollCount t = expectedPollCount)
       (\<lambda>t. t\<lparr>tk_Status := PriceTaskProcessing, tk_PollCount := tk_PollCount t + 1, tk_Error := err,
              tk_LastPolledAt := Some now, tk_UpdatedAt := now\<rparr>) (price_upload_tasks db)\<rparr>"

section \<open>Recovery and aggregation\<close>

definition recover_submitting :: "uuid \<Rightarrow> int \<Rightarrow> int \<Rightarrow> repricer_db \<Rightarrow> repricer_db" where
  "recover_submitting workspaceID staleBefore now db = db\<lparr>price_changes :=
     upd_where (\<lambda>r. pc_WorkspaceID r = workspaceID \<and> submitting_unlinked r \<and> pc_SubmissionBatchID r \<noteq> None \<and>
                    pc_UpdatedAt r < staleBefore)
       (\<lambda>r. r\<lparr>pc_WbStatus := PriceStatusSubmitUnknown, pc_Error := Some ''stale_submission_requires_exact_retry'',
              pc_UpdatedAt := now\<rparr>) (price_changes db)\<rparr>"

definition recover_schedules :: "uuid \<Rightarrow> int \<Rightarrow> int \<Rightarrow> repricer_db \<Rightarrow> repricer_db" where
  "recover_schedules workspaceID staleBefore now db = db\<lparr>price_schedule_entries :=
     upd_where (\<lambda>e. se_WorkspaceID e = workspaceID \<and> se_Status e = PriceScheduleExecuting \<and> se_UpdatedAt e < staleBefore \<and>
                    se_ExecutedTaskIds e = [] \<and> \<not> (\<exists>r \<in> set (price_changes db). pc_ScheduleEntryID r = Some (se_ID e)))
       (\<lambda>e. e\<lparr>se_Status := PriceSchedulePlanned, se_Error := Some ''stale_executing_recovered'', se_UpdatedAt := now\<rparr>)
       (price_schedule_entries db)\<rparr>"

definition changes_of :: "repricer_db \<Rightarrow> PriceScheduleEntry \<Rightarrow> PriceChangeRow list" where
  "changes_of db e = filter (\<lambda>r. pc_ScheduleEntryID r = Some (se_ID e)) (price_changes db)"

definition has_failure :: "repricer_db \<Rightarrow> PriceScheduleEntry \<Rightarrow> bool" where
  "has_failure db e \<longleftrightarrow> (\<exists>r \<in> set (changes_of db e). pc_WbStatus r = PriceStatusFailed) \<or>
     (\<exists>t \<in> set (price_upload_tasks db). tk_ID t \<in> set (se_ExecutedTaskIds e) \<and>
        tk_Status t \<in> {PriceTaskPartial, PriceTaskFailed})"

definition all_terminal :: "repricer_db \<Rightarrow> PriceScheduleEntry \<Rightarrow> bool" where
  "all_terminal db e \<longleftrightarrow> changes_of db e \<noteq> [] \<and>
     \<not> (\<exists>r \<in> set (changes_of db e). row_active r) \<and>
     \<not> (\<exists>t \<in> set (price_upload_tasks db). tk_ID t \<in> set (se_ExecutedTaskIds e) \<and> open_task t) \<and>
     (se_ExecutedTaskIds e \<noteq> [] \<or> (\<exists>r \<in> set (changes_of db e). pc_WbStatus r = PriceStatusFailed))"

definition aggregate_entry :: "repricer_db \<Rightarrow> int \<Rightarrow> PriceScheduleEntry \<Rightarrow> PriceScheduleEntry" where
  "aggregate_entry db now e = e\<lparr>
     se_Status := (if all_terminal db e \<and> has_failure db e then PriceScheduleFailed
                   else if all_terminal db e then PriceScheduleDone else PriceScheduleExecuting),
     se_Error := (if all_terminal db e \<and> has_failure db e
                  then Some (case se_Error e of None \<Rightarrow> ''one or more WB price changes failed'' | Some x \<Rightarrow> x)
                  else if all_terminal db e then None else se_Error e),
     se_UpdatedAt := now\<rparr>"

definition AggregatePriceSchedules :: "uuid \<Rightarrow> uuid option \<Rightarrow> int \<Rightarrow> repricer_db \<Rightarrow> repricer_db" where
  "AggregatePriceSchedules workspaceID taskID now db = db\<lparr>price_schedule_entries :=
     upd_where (\<lambda>e. se_WorkspaceID e = workspaceID \<and> se_Status e = PriceScheduleExecuting \<and>
                    (case taskID of None \<Rightarrow> True | Some t \<Rightarrow> t \<in> set (se_ExecutedTaskIds e)))
       (aggregate_entry db now) (price_schedule_entries db)\<rparr>"

section \<open>Reads\<close>

definition ListPendingPriceUploadTasks :: "uuid \<Rightarrow> repricer_db \<Rightarrow> PriceUploadTask list" where
  "ListPendingPriceUploadTasks workspaceID db =
     sort_key tk_CreatedAt (filter (\<lambda>t. tk_WorkspaceID t = workspaceID \<and> open_task t) (price_upload_tasks db))"

definition ListClaimablePriceChangeCabinets :: "uuid \<Rightarrow> repricer_db \<Rightarrow> uuid list" where
  "ListClaimablePriceChangeCabinets workspaceID db =
     sort (remdups (map pc_SellerCabinetID (filter (\<lambda>r. pc_WorkspaceID r = workspaceID \<and>
       (pc_WbStatus r = PriceStatusSubmitUnknown \<or> claimable db r)) (price_changes db))))"

definition CountPendingPriceChanges :: "uuid \<Rightarrow> uuid list \<Rightarrow> repricer_db \<Rightarrow> int" where
  "CountPendingPriceChanges workspaceID ids db =
     int (length (filter (\<lambda>r. pc_WorkspaceID r = workspaceID \<and> pc_ID r \<in> set ids \<and>
       pc_WbStatus r \<in> {PriceStatusPending, PriceStatusSubmitting, PriceStatusSubmitUnknown}) (price_changes db)))"

definition CountFailedPriceChanges :: "uuid \<Rightarrow> uuid list \<Rightarrow> repricer_db \<Rightarrow> int" where
  "CountFailedPriceChanges workspaceID ids db =
     int (length (filter (\<lambda>r. pc_WorkspaceID r = workspaceID \<and> pc_ID r \<in> set ids \<and>
       pc_WbStatus r = PriceStatusFailed) (price_changes db)))"

definition ListPriceUploadTaskIDsForChanges :: "uuid \<Rightarrow> uuid list \<Rightarrow> repricer_db \<Rightarrow> uuid list" where
  "ListPriceUploadTaskIDsForChanges workspaceID ids db =
     sort (remdups (List.map_filter pc_UploadTaskID
       (filter (\<lambda>r. pc_WorkspaceID r = workspaceID \<and> pc_ID r \<in> set ids) (price_changes db))))"

definition listed_statuses :: "string list" where
  "listed_statuses = [PriceStatusPending, PriceStatusSubmitting, PriceStatusSubmitUnknown, PriceStatusUploaded, PriceStatusApplied]"

text \<open>
  The newest intent of every good: ordered by cabinet, product, creation time and id, both descending,
  only the first of each good is kept.
\<close>

definition newer :: "PriceChangeRow \<Rightarrow> PriceChangeRow \<Rightarrow> bool" where
  "newer a b \<longleftrightarrow> pc_CreatedAt a > pc_CreatedAt b \<or> pc_CreatedAt a = pc_CreatedAt b \<and> pc_ID a > pc_ID b"

definition ListLatestPriceIntents :: "uuid \<Rightarrow> uuid option \<Rightarrow> repricer_db \<Rightarrow> PriceChangeRow list" where
  "ListLatestPriceIntents workspaceID cabinet db =
     (let rows = filter (\<lambda>r. pc_WorkspaceID r = workspaceID \<and>
            (case cabinet of None \<Rightarrow> True | Some c \<Rightarrow> pc_SellerCabinetID r = c) \<and>
            pc_WbStatus r \<in> set listed_statuses) (price_changes db)
      in sort_key pc_SellerCabinetID (sort_key pc_WbProductID
           (filter (\<lambda>r. \<not> (\<exists>q \<in> set rows. same_good q r \<and> newer q r)) rows)))"

definition HasInFlightPriceChange :: "uuid \<Rightarrow> int \<Rightarrow> repricer_db \<Rightarrow> bool" where
  "HasInFlightPriceChange workspaceID nm db \<longleftrightarrow>
     (\<exists>r \<in> set (price_changes db). pc_WorkspaceID r = workspaceID \<and> pc_WbProductID r = nm \<and> row_active r)"

definition HasRollbackChild :: "uuid \<Rightarrow> repricer_db \<Rightarrow> bool" where
  "HasRollbackChild changeID db \<longleftrightarrow>
     (\<exists>r \<in> set (price_changes db). pc_RollbackOf r = Some changeID \<and> pc_WbStatus r \<in> set listed_statuses)"

definition HasNewerActivePriceChange :: "uuid \<Rightarrow> int \<Rightarrow> uuid \<Rightarrow> repricer_db \<Rightarrow> bool" where
  "HasNewerActivePriceChange workspaceID nm originalID db \<longleftrightarrow>
     (\<exists>o1 \<in> set (price_changes db). pc_ID o1 = originalID \<and>
       (\<exists>r \<in> set (price_changes db). pc_WorkspaceID r = workspaceID \<and> pc_WbProductID r = nm \<and>
          pc_ID r \<noteq> originalID \<and> pc_CreatedAt r > pc_CreatedAt o1 \<and> pc_WbStatus r \<in> set listed_statuses))"

definition GetPriceChange :: "uuid \<Rightarrow> repricer_db \<Rightarrow> PriceChangeRow option" where
  "GetPriceChange changeID db = find (\<lambda>r. pc_ID r = changeID) (price_changes db)"

definition GetProductPriceForRollback :: "uuid \<Rightarrow> uuid \<Rightarrow> int \<Rightarrow> repricer_db \<Rightarrow> ProductPrice option" where
  "GetProductPriceForRollback workspaceID cabinetID nm db =
     find (\<lambda>p. pp_WorkspaceID p = workspaceID \<and> pp_SellerCabinetID p = cabinetID \<and> pp_WBProductID p = nm) (product_prices db)"

definition CountRecentPriceChangesByProduct :: "uuid \<Rightarrow> int \<Rightarrow> int \<Rightarrow> repricer_db \<Rightarrow> int" where
  "CountRecentPriceChangesByProduct workspaceID nm since db =
     int (length (filter (\<lambda>r. pc_WorkspaceID r = workspaceID \<and> pc_WbProductID r = nm \<and> pc_CreatedAt r \<ge> since \<and>
       pc_WbStatus r \<in> insert PriceStatusRecommended (set listed_statuses)) (price_changes db)))"

definition PausedCabinets :: "uuid \<Rightarrow> int \<Rightarrow> repricer_db \<Rightarrow> uuid list" where
  "PausedCabinets workspaceID now db = map ca_ID (filter (\<lambda>c. ca_WorkspaceID c = workspaceID \<and>
     some_and (\<lambda>u. u > now) (ca_RepricerPausedUntil c)) (seller_cabinets db))"

definition GetSellerCabinetByID :: "uuid \<Rightarrow> repricer_db \<Rightarrow> SellerCabinet option" where
  "GetSellerCabinetByID cabinetID db = find (\<lambda>c. ca_ID c = cabinetID) (seller_cabinets db)"

section \<open>The queue invariant\<close>

text \<open>
  A change in submission has been claimed into a batch and is not linked to an upload task yet; a pending
  change belongs to no batch. A good has at most one pending change and at most one in transport. The
  changes of one batch in submission move together. The target of a rollback has been applied.
\<close>

definition submission :: "PriceChangeRow \<Rightarrow> bool" where
  "submission r \<longleftrightarrow> pc_WbStatus r \<in> {PriceStatusSubmitting, PriceStatusSubmitUnknown}"

definition pending :: "PriceChangeRow \<Rightarrow> bool" where
  "pending r \<longleftrightarrow> pc_WbStatus r = PriceStatusPending"

definition landed :: "PriceChangeRow \<Rightarrow> bool" where
  "landed r \<longleftrightarrow> pc_WbStatus r \<in> {PriceStatusApplied, PriceStatusRolledBack}"

definition row_ok :: "PriceChangeRow \<Rightarrow> bool" where
  "row_ok r \<longleftrightarrow> (pending r \<longrightarrow> pc_UploadTaskID r = None \<and> pc_SubmissionBatchID r = None) \<and>
     (submission r \<longrightarrow> pc_UploadTaskID r = None \<and> pc_SubmissionBatchID r \<noteq> None)"

definition batch_ok :: "PriceChangeRow \<Rightarrow> PriceChangeRow \<Rightarrow> bool" where
  "batch_ok a b \<longleftrightarrow> (pc_SubmissionBatchID a \<noteq> None \<and> pc_SubmissionBatchID a = pc_SubmissionBatchID b \<longrightarrow>
     pc_WorkspaceID a = pc_WorkspaceID b \<and> pc_SellerCabinetID a = pc_SellerCabinetID b \<and>
     (submission a \<longrightarrow> pc_WbStatus b = pc_WbStatus a \<and> pc_UpdatedAt b = pc_UpdatedAt a))"

definition rows_wf :: "PriceChangeRow list \<Rightarrow> bool" where
  "rows_wf rows \<longleftrightarrow> distinct (map pc_ID rows) \<and> (\<forall>r \<in> set rows. row_ok r) \<and>
     (\<forall>a \<in> set rows. \<forall>b \<in> set rows. batch_ok a b) \<and>
     (\<forall>a \<in> set rows. \<forall>b \<in> set rows. same_good a b \<and> pending a \<and> pending b \<longrightarrow> pc_ID a = pc_ID b) \<and>
     (\<forall>a \<in> set rows. \<forall>b \<in> set rows. same_good a b \<and> in_transport a \<and> in_transport b \<longrightarrow> pc_ID a = pc_ID b) \<and>
     (\<forall>a \<in> set rows. \<forall>orig. pc_RollbackOf a = Some orig \<longrightarrow> (\<exists>b \<in> set rows. pc_ID b = orig \<and> landed b))"

definition queue_wf :: "repricer_db \<Rightarrow> bool" where
  "queue_wf db \<longleftrightarrow> rows_wf (price_changes db)"

lemmas status_sets = submission_def pending_def landed_def in_transport_def transport_statuses_def price_status_defs

lemma status_disjoint:
  "pending r \<Longrightarrow> \<not> in_transport r" "submission r \<Longrightarrow> in_transport r" "landed r \<Longrightarrow> \<not> in_transport r"
  "landed r \<Longrightarrow> \<not> pending r" "pending r \<Longrightarrow> \<not> submission r" "landed r \<Longrightarrow> \<not> submission r"
  by (auto simp: status_sets)

text \<open>The columns that no statement changes once a row is inserted.\<close>

definition same_identity :: "PriceChangeRow \<Rightarrow> PriceChangeRow \<Rightarrow> bool" where
  "same_identity r q \<longleftrightarrow> pc_ID q = pc_ID r \<and> pc_WorkspaceID q = pc_WorkspaceID r \<and>
     pc_SellerCabinetID q = pc_SellerCabinetID r \<and> pc_WbProductID q = pc_WbProductID r \<and>
     pc_OldPriceRub q = pc_OldPriceRub r \<and> pc_NewPriceRub q = pc_NewPriceRub r \<and>
     pc_OldDiscountPercent q = pc_OldDiscountPercent r \<and> pc_NewDiscountPercent q = pc_NewDiscountPercent r \<and>
     pc_RollbackOf q = pc_RollbackOf r \<and> pc_Source q = pc_Source r \<and> pc_ScheduleEntryID q = pc_ScheduleEntryID r"

text \<open>
  The shared proof of all updates: each of them maps the rows, keeps their identity, never makes a row
  pending and never takes a landed row back.
\<close>

lemma rows_wf_map:
  assumes "rows_wf rows"
    and id: "\<And>r. r \<in> set rows \<Longrightarrow> same_identity r (f r)"
    and ok: "\<And>r. r \<in> set rows \<Longrightarrow> row_ok (f r)"
    and pend: "\<And>r. \<lbrakk>r \<in> set rows; pending (f r)\<rbrakk> \<Longrightarrow> pending r"
    and land: "\<And>r. \<lbrakk>r \<in> set rows; landed r\<rbrakk> \<Longrightarrow> landed (f r)"
    and trans: "\<And>a b. \<lbrakk>a \<in> set rows; b \<in> set rows; same_good a b; in_transport (f a); in_transport (f b)\<rbrakk> \<Longrightarrow> pc_ID a = pc_ID b"
    and batch: "\<And>a b. \<lbrakk>a \<in> set rows; b \<in> set rows\<rbrakk> \<Longrightarrow> batch_ok (f a) (f b)"
  shows "rows_wf (map f rows)"
proof -
  have ids: "map pc_ID (map f rows) = map pc_ID rows" using id by (simp add: same_identity_def)
  have e: "pc_ID (f r) = pc_ID r" "pc_SellerCabinetID (f r) = pc_SellerCabinetID r" "pc_WbProductID (f r) = pc_WbProductID r"
    "pc_RollbackOf (f r) = pc_RollbackOf r" if "r \<in> set rows" for r
    using id [OF that] by (simp_all add: same_identity_def)
  have "\<exists>b \<in> set rows. pc_ID (f b) = orig \<and> landed (f b)" if "a \<in> set rows" "pc_RollbackOf a = Some orig" for a orig
    using assms(1) that land e(1) unfolding rows_wf_def by metis
  note roll = this
  have pid: "pc_ID a = pc_ID b" if "a \<in> set rows" "b \<in> set rows" "same_good a b" "pending (f a)" "pending (f b)" for a b
    using assms(1) that pend unfolding rows_wf_def by blast
  show ?thesis
    unfolding rows_wf_def ids
  proof (intro conjI)
    show "distinct (map pc_ID rows)" using assms(1) by (simp add: rows_wf_def)
    show "\<forall>r \<in> set (map f rows). row_ok r" using ok by simp
    show "\<forall>a \<in> set (map f rows). \<forall>b \<in> set (map f rows). batch_ok a b" using batch by simp
    show "\<forall>a \<in> set (map f rows). \<forall>b \<in> set (map f rows). same_good a b \<and> pending a \<and> pending b \<longrightarrow> pc_ID a = pc_ID b"
      by (clarsimp simp: e) (blast intro: pid)
    show "\<forall>a \<in> set (map f rows). \<forall>b \<in> set (map f rows).
        same_good a b \<and> in_transport a \<and> in_transport b \<longrightarrow> pc_ID a = pc_ID b"
      by (clarsimp simp: e) (blast intro: trans)
    show "\<forall>a \<in> set (map f rows). \<forall>orig. pc_RollbackOf a = Some orig \<longrightarrow>
        (\<exists>b \<in> set (map f rows). pc_ID b = orig \<and> landed b)"
      using roll by (simp add: e)
  qed
qed

lemma rows_wf_upd:
  assumes "rows_wf rows"
    and "\<And>r. \<lbrakk>r \<in> set rows; P r\<rbrakk> \<Longrightarrow> same_identity r (f r) \<and> pc_SubmissionBatchID (f r) = pc_SubmissionBatchID r"
    and "\<And>r. \<lbrakk>r \<in> set rows; P r\<rbrakk> \<Longrightarrow> row_ok (f r) \<and> \<not> pending (f r)"
    and "\<And>r. \<lbrakk>r \<in> set rows; P r\<rbrakk> \<Longrightarrow> \<not> landed r \<and> (in_transport (f r) \<longrightarrow> in_transport r)"
    and "\<And>a b. \<lbrakk>a \<in> set rows; b \<in> set rows; P a; submission a \<or> submission (f a); pc_SubmissionBatchID a = pc_SubmissionBatchID b;
            pc_SubmissionBatchID a \<noteq> None\<rbrakk> \<Longrightarrow>
          P b \<and> pc_WbStatus (f b) = pc_WbStatus (f a) \<and> pc_UpdatedAt (f b) = pc_UpdatedAt (f a)"
  shows "rows_wf (upd_where P f rows)"
  unfolding upd_where_def
proof (rule rows_wf_map [OF assms(1)])
  fix a b assume ab: "a \<in> set rows" "b \<in> set rows"
  let ?g = "\<lambda>r. if P r then f r else r"
  have tr: "in_transport r" if "r \<in> set rows" "in_transport (?g r)" for r
    using that assms(4) by (cases "P r") auto
  show "pc_ID a = pc_ID b" if "same_good a b" "in_transport (?g a)" "in_transport (?g b)"
    using tr [OF ab(1) that(2)] tr [OF ab(2) that(3)] that(1) ab assms(1) unfolding rows_wf_def by blast
  have idb: "pc_SubmissionBatchID (?g r) = pc_SubmissionBatchID r" "pc_WorkspaceID (?g r) = pc_WorkspaceID r"
    "pc_SellerCabinetID (?g r) = pc_SellerCabinetID r" if "r \<in> set rows" for r
    using assms(2) [OF that] by (cases "P r"; simp add: same_identity_def)+
  have b0: "batch_ok a b" "batch_ok b a" using assms(1) ab unfolding rows_wf_def by blast+
  show "batch_ok (?g a) (?g b)"
    unfolding batch_ok_def idb [OF ab(1)] idb [OF ab(2)]
  proof (intro impI conjI)
    assume s: "pc_SubmissionBatchID a \<noteq> None \<and> pc_SubmissionBatchID a = pc_SubmissionBatchID b"
    with b0(1) show "pc_WorkspaceID a = pc_WorkspaceID b" "pc_SellerCabinetID a = pc_SellerCabinetID b"
      unfolding batch_ok_def by blast+
    assume sub: "submission (?g a)"
    have "pc_WbStatus (?g b) = pc_WbStatus (?g a) \<and> pc_UpdatedAt (?g b) = pc_UpdatedAt (?g a)"
    proof (cases "P a")
      case True
      with sub have "submission a \<or> submission (f a)" by simp
      from assms(5) [OF ab True this] s
      have "P b \<and> pc_WbStatus (f b) = pc_WbStatus (f a) \<and> pc_UpdatedAt (f b) = pc_UpdatedAt (f a)" by blast
      with True show ?thesis by simp
    next
      case False
      with sub have sa: "submission a" by simp
      with b0(1) s have eq: "pc_WbStatus b = pc_WbStatus a" "pc_UpdatedAt b = pc_UpdatedAt a" unfolding batch_ok_def by blast+
      then have "submission b" using sa by (simp add: submission_def)
      with assms(5) [OF ab(2,1)] s False have "\<not> P b" by metis
      with False eq show ?thesis by simp
    qed
    then show "pc_WbStatus (?g b) = pc_WbStatus (?g a)" "pc_UpdatedAt (?g b) = pc_UpdatedAt (?g a)" by blast+
  qed
next
  fix r assume r: "r \<in> set rows"
  let ?g = "\<lambda>r. if P r then f r else r"
  have ok: "row_ok r" using assms(1) r unfolding rows_wf_def by blast
  show "same_identity r (?g r)" using assms(2) [OF r] by (cases "P r") (simp_all add: same_identity_def)
  show "row_ok (?g r)" using assms(3) [OF r] ok by (cases "P r") simp_all
  show "pending r" if "pending (?g r)" using assms(3) [OF r] that by (cases "P r") simp_all
  show "landed (?g r)" if "landed r" using assms(4) [OF r] that by (cases "P r") simp_all
qed

text \<open>Facts of a well-formed table in the form the proofs below use.\<close>

lemma rows_wfD:
  assumes "rows_wf rows"
  shows "r \<in> set rows \<Longrightarrow> row_ok r" "\<lbrakk>a \<in> set rows; b \<in> set rows\<rbrakk> \<Longrightarrow> batch_ok a b"
    "\<lbrakk>a \<in> set rows; b \<in> set rows; same_good a b; pending a; pending b\<rbrakk> \<Longrightarrow> pc_ID a = pc_ID b"
    "\<lbrakk>a \<in> set rows; b \<in> set rows; same_good a b; in_transport a; in_transport b\<rbrakk> \<Longrightarrow> pc_ID a = pc_ID b"
    "\<lbrakk>a \<in> set rows; b \<in> set rows; pc_ID a = pc_ID b\<rbrakk> \<Longrightarrow> a = b"
proof -
  show "\<lbrakk>a \<in> set rows; b \<in> set rows; pc_ID a = pc_ID b\<rbrakk> \<Longrightarrow> a = b"
    using assms unfolding rows_wf_def distinct_map by (blast dest: inj_onD)
qed (use assms in \<open>unfold rows_wf_def, blast+\<close>)

lemma rows_wf_append:
  assumes "rows_wf rows" "pc_ID row \<notin> pc_ID ` set rows" "pc_UploadTaskID row = None" "pc_SubmissionBatchID row = None"
    and "\<not> in_transport row" "\<And>a. \<lbrakk>a \<in> set rows; pending row; pending a\<rbrakk> \<Longrightarrow> \<not> same_good a row"
    and "\<And>orig. pc_RollbackOf row = Some orig \<Longrightarrow> \<exists>b \<in> set rows. pc_ID b = orig \<and> landed b"
  shows "rows_wf (rows @ [row])"
proof -
  have ok: "row_ok row" using assms(3-5) status_disjoint(2) by (auto simp: row_ok_def)
  have b: "batch_ok row a" "batch_ok a row" for a using assms(4) unfolding batch_ok_def by metis+
  have pend: "pc_ID a = pc_ID c" if "a \<in> set (rows @ [row])" "c \<in> set (rows @ [row])" "same_good a c" "pending a" "pending c" for a c
  proof -
    note m = that(1,2)
    consider "a \<in> set rows" "c \<in> set rows" | "a = row" "c = row" | "a \<in> set rows" "c = row" | "a = row" "c \<in> set rows"
      using m by auto
    then show ?thesis
    proof cases
      case 1 then show ?thesis using rows_wfD(3) [OF assms(1)] that(3-5) by blast
    next
      case 3 then show ?thesis using assms(6) that(3-5) by blast
    next
      case 4 then show ?thesis using assms(6) [of c] that(3-5) by simp
    qed simp
  qed
  have trans: "pc_ID a = pc_ID c"
    if "a \<in> set (rows @ [row])" "c \<in> set (rows @ [row])" "same_good a c" "in_transport a" "in_transport c" for a c
  proof -
    have "a \<in> set rows" "c \<in> set rows" using that assms(5) by auto
    then show ?thesis using rows_wfD(4) [OF assms(1)] that(3-5) by blast
  qed
  show ?thesis
    unfolding rows_wf_def
  proof (intro conjI)
    show "distinct (map pc_ID (rows @ [row]))" using assms(1,2) by (simp add: rows_wf_def)
    show "\<forall>r \<in> set (rows @ [row]). row_ok r" using rows_wfD(1) [OF assms(1)] ok by simp
    show "\<forall>a \<in> set (rows @ [row]). \<forall>b \<in> set (rows @ [row]). batch_ok a b" using rows_wfD(2) [OF assms(1)] b by simp
    show "\<forall>a \<in> set (rows @ [row]). \<forall>b \<in> set (rows @ [row]). same_good a b \<and> pending a \<and> pending b \<longrightarrow> pc_ID a = pc_ID b"
      using pend by blast
    show "\<forall>a \<in> set (rows @ [row]). \<forall>b \<in> set (rows @ [row]).
        same_good a b \<and> in_transport a \<and> in_transport b \<longrightarrow> pc_ID a = pc_ID b"
      using trans by blast
    show "\<forall>a \<in> set (rows @ [row]). \<forall>orig. pc_RollbackOf a = Some orig \<longrightarrow>
        (\<exists>b \<in> set (rows @ [row]). pc_ID b = orig \<and> landed b)"
      using assms(1,7) unfolding rows_wf_def by (auto 0 3)
  qed
qed

lemmas row_preds = row_ok_def status_sets submitting_unlinked_def uncertain_row_def

subsection \<open>Every statement keeps the invariant\<close>

lemma claim_keeps:
  assumes wf: "rows_wf (price_changes db)"
    and cand: "\<And>r. \<lbrakk>r \<in> set (price_changes db); pc_ID r \<in> set ids\<rbrakk> \<Longrightarrow>
      claimable db r \<and> pc_WorkspaceID r = ws \<and> pc_SellerCabinetID r = cab"
    and fresh: "\<And>r. r \<in> set (price_changes db) \<Longrightarrow> pc_SubmissionBatchID r \<noteq> Some batch"
  shows "rows_wf (price_changes (claim_ids now batch ids db))"
proof -
  let ?P = "\<lambda>r. pc_ID r \<in> set ids \<and> pc_WbStatus r = PriceStatusPending"
  let ?g = "\<lambda>r. if ?P r then claim_row now batch r else r"
  have trans: "pc_ID a = pc_ID b"
    if "a \<in> set (price_changes db)" "b \<in> set (price_changes db)" "same_good a b" "in_transport (?g a)" "in_transport (?g b)" for a b
  proof (cases "?P a"; cases "?P b")
    assume "?P a" "?P b"
    then show ?thesis using rows_wfD(3) [OF wf that(1-3)] by (simp add: pending_def)
  next
    assume "?P a" "\<not> ?P b"
    then show ?thesis using cand [OF that(1)] that unfolding claimable_def by auto
  next
    assume "\<not> ?P a" "?P b"
    then show ?thesis using cand [OF that(2)] that unfolding claimable_def by auto
  next
    assume "\<not> ?P a" "\<not> ?P b"
    then show ?thesis using rows_wfD(4) [OF wf that(1-3)] that(4,5) by (simp only: if_False)
  qed
  have "rows_wf (map ?g (price_changes db))"
  proof (rule rows_wf_map [OF wf _ _ _ _ trans])
    fix r assume r: "r \<in> set (price_changes db)"
    show "same_identity r (?g r)" by (simp add: same_identity_def claim_row_def)
    show "row_ok (?g r)" using rows_wfD(1) [OF wf r] by (auto simp: row_preds claim_row_def)
    show "pending r" if "pending (?g r)" using that by (auto simp: row_preds claim_row_def split: if_split_asm)
    show "landed (?g r)" if "landed r" using that by (auto simp: row_preds claim_row_def)
  next
    fix a b assume ab: "a \<in> set (price_changes db)" "b \<in> set (price_changes db)"
    have f: "pc_SubmissionBatchID (?g r) = Some batch \<longleftrightarrow> ?P r" if "r \<in> set (price_changes db)" for r
      using fresh [OF that] by (simp add: claim_row_def)
    show "batch_ok (?g a) (?g b)"
    proof (cases "?P a"; cases "?P b")
      assume p: "?P a" "?P b"
      then show ?thesis using cand [OF ab(1)] cand [OF ab(2)] by (simp add: batch_ok_def claim_row_def)
    next
      assume "?P a" "\<not> ?P b"
      then show ?thesis using fresh [OF ab(2)] by (auto simp: batch_ok_def claim_row_def)
    next
      assume "\<not> ?P a" "?P b"
      then show ?thesis using fresh [OF ab(1)] by (auto simp: batch_ok_def claim_row_def)
    next
      assume "\<not> ?P a" "\<not> ?P b"
      then show ?thesis using rows_wfD(2) [OF wf ab] by (simp only: if_False)
    qed
  qed
  then show ?thesis by (simp add: claim_ids_def upd_where_def)
qed

lemma supersede_keeps:
  assumes "rows_wf rows"
  shows "rows_wf (upd_where (\<lambda>r. same_good r row \<and> pc_WbStatus r = PriceStatusPending) (supersede now) rows)"
  by (rule rows_wf_upd [OF assms])
    (use rows_wfD(1) [OF assms] in \<open>auto simp: supersede_def same_identity_def row_preds\<close>)

lemma enqueue_keeps:
  assumes "rows_wf (price_changes db)" "EnqueuePriceChange now (pending_row i now ws it) db = Some db'"
    and "\<And>orig. RollbackOf it = Some orig \<Longrightarrow> \<exists>b \<in> set (price_changes db). pc_ID b = orig \<and> landed b"
  shows "rows_wf (price_changes db')"
proof -
  let ?row = "pending_row i now ws it"
  let ?P = "\<lambda>r. same_good r ?row \<and> pc_WbStatus r = PriceStatusPending"
  let ?rows = "upd_where ?P (supersede now) (price_changes db)"
  have fresh: "pc_ID ?row \<notin> pc_ID ` set (price_changes db)" and db': "price_changes db' = ?rows @ [?row]"
    using assms(2) by (auto simp: EnqueuePriceChange_def insertable_def split: if_split_asm)
  have "rows_wf (?rows @ [?row])"
  proof (rule rows_wf_append [OF supersede_keeps [OF assms(1)]])
    show "pc_ID ?row \<notin> pc_ID ` set ?rows" using fresh by (auto simp: upd_where_def supersede_def)
    show "\<exists>b \<in> set ?rows. pc_ID b = orig \<and> landed b" if "pc_RollbackOf ?row = Some orig" for orig
    proof -
      from that assms(3) obtain b where b: "b \<in> set (price_changes db)" "pc_ID b = orig" "landed b"
        by (auto simp: pending_row_def)
      then have "\<not> ?P b" by (auto simp: row_preds)
      with b show ?thesis by (intro bexI [of _ b]) (auto simp: upd_where_def intro!: image_eqI [of _ _ b])
    qed
    show "\<not> same_good a ?row" if "a \<in> set ?rows" "pending ?row" "pending a" for a
      using that(1,3) by (auto simp: upd_where_def supersede_def pending_def price_status_defs split: if_split_asm)
  qed (simp_all add: pending_row_def status_sets)
  then show ?thesis by (simp add: db')
qed

text \<open>
  The statements on changes in submission: all changes of a batch get the same new status.
\<close>

lemma rows_wf_move:
  assumes wf: "rows_wf rows"
    and sub: "\<And>r. \<lbrakk>r \<in> set rows; P r\<rbrakk> \<Longrightarrow> submission r"
    and closed: "\<And>a b. \<lbrakk>a \<in> set rows; b \<in> set rows; P a; pc_SubmissionBatchID a = pc_SubmissionBatchID b\<rbrakk> \<Longrightarrow> P b"
    and f: "\<And>r. \<lbrakk>r \<in> set rows; P r\<rbrakk> \<Longrightarrow> same_identity r (f r) \<and> pc_SubmissionBatchID (f r) = pc_SubmissionBatchID r \<and>
        pc_WbStatus (f r) = st \<and> pc_UpdatedAt (f r) = now"
    and st: "st \<noteq> PriceStatusPending" "\<And>r. \<lbrakk>r \<in> set rows; P r; submission (f r)\<rbrakk> \<Longrightarrow> pc_UploadTaskID (f r) = None"
  shows "rows_wf (upd_where P f rows)"
proof (rule rows_wf_upd [OF wf])
  fix r assume r: "r \<in> set rows" "P r"
  have s: "submission r" "row_ok r" using sub [OF r] rows_wfD(1) [OF wf r(1)] by simp_all
  then have "pc_SubmissionBatchID r \<noteq> None" by (simp add: row_ok_def)
  then show "row_ok (f r) \<and> \<not> pending (f r)" using f [OF r] st r by (auto simp: row_ok_def pending_def)
  show "\<not> landed r \<and> (in_transport (f r) \<longrightarrow> in_transport r)" using s(1) status_disjoint(2,6) by blast
  show "same_identity r (f r) \<and> pc_SubmissionBatchID (f r) = pc_SubmissionBatchID r" using f [OF r] by simp
next
  fix a b assume "a \<in> set rows" "b \<in> set rows" "P a" "pc_SubmissionBatchID a = pc_SubmissionBatchID b"
  moreover from this have "P b" using closed by blast
  ultimately show "P b \<and> pc_WbStatus (f b) = pc_WbStatus (f a) \<and> pc_UpdatedAt (f b) = pc_UpdatedAt (f a)" using f by metis
qed

lemma batch_together:
  assumes "rows_wf rows" "a \<in> set rows" "b \<in> set rows" "submission a" "pc_SubmissionBatchID a = pc_SubmissionBatchID b"
  shows "pc_WbStatus b = pc_WbStatus a" "pc_UpdatedAt b = pc_UpdatedAt a" "pc_WorkspaceID b = pc_WorkspaceID a"
    "pc_UploadTaskID b = None" "pc_UploadTaskID a = None" "pc_SubmissionBatchID a \<noteq> None"
proof -
  have a: "pc_SubmissionBatchID a \<noteq> None" "pc_UploadTaskID a = None"
    using rows_wfD(1) [OF assms(1,2)] assms(4) by (simp_all add: row_ok_def)
  with rows_wfD(2) [OF assms(1-3)] assms(4,5)
  show e: "pc_WbStatus b = pc_WbStatus a" "pc_UpdatedAt b = pc_UpdatedAt a" "pc_WorkspaceID b = pc_WorkspaceID a"
    unfolding batch_ok_def by metis+
  then have "submission b" using assms(4) by (simp add: submission_def)
  then show "pc_UploadTaskID b = None" using rows_wfD(1) [OF assms(1,3)] by (simp add: row_ok_def)
  show "pc_UploadTaskID a = None" "pc_SubmissionBatchID a \<noteq> None" using a by simp_all
qed

lemma submission_statuses [simp]:
  "pc_WbStatus r = PriceStatusSubmitting \<Longrightarrow> submission r" "pc_WbStatus r = PriceStatusSubmitUnknown \<Longrightarrow> submission r"
  by (simp_all add: submission_def)

lemma status_consts [simp]:
  "PriceStatusSubmitting \<noteq> PriceStatusPending" "PriceStatusSubmitUnknown \<noteq> PriceStatusPending"
  "PriceStatusFailed \<noteq> PriceStatusPending" "linked_status s \<noteq> PriceStatusPending"
  by (simp_all add: price_status_defs linked_status_def)

lemma linked_not_submission: "pc_WbStatus r = linked_status s \<Longrightarrow> \<not> submission r"
  by (simp add: submission_def linked_status_def price_status_defs)

lemma reclaim_keeps:
  assumes "rows_wf (price_changes db)"
  shows "rows_wf (price_changes (reclaim now batch db))"
proof -
  have "rows_wf (upd_where (\<lambda>r. in_batch batch r \<and> uncertain_row r)
     (\<lambda>r. r\<lparr>pc_WbStatus := PriceStatusSubmitting, pc_UpdatedAt := now\<rparr>) (price_changes db))"
    by (rule rows_wf_move [OF assms, where st = PriceStatusSubmitting and now = now])
      (auto simp: same_identity_def in_batch_def uncertain_row_def dest: batch_together [OF assms])
  then show ?thesis by (simp add: reclaim_def)
qed

text \<open>The ids that a worker holds after a claim are those of a whole batch.\<close>

definition batch_ids :: "uuid \<Rightarrow> PriceChangeRow list \<Rightarrow> uuid list" where
  "batch_ids batch rows = map pc_ID (filter (in_batch batch) rows)"

lemma in_batch_ids:
  assumes "rows_wf rows" "r \<in> set rows"
  shows "pc_ID r \<in> set (batch_ids batch rows) \<longleftrightarrow> in_batch batch r"
  using assms(2) rows_wfD(5) [OF assms(1)] by (auto simp: batch_ids_def)

lemma settle_keeps:
  assumes wf: "rows_wf (price_changes db)" and ids: "set ids = set (batch_ids batch (price_changes db))"
    and st: "st = PriceStatusFailed \<or> st = PriceStatusSubmitUnknown"
  shows "rows_wf (price_changes (settle_submitting st ws ids reason now db))"
proof -
  have "rows_wf (upd_where (\<lambda>r. pc_WorkspaceID r = ws \<and> pc_ID r \<in> set ids \<and> submitting_unlinked r)
       (\<lambda>r. r\<lparr>pc_WbStatus := st, pc_Error := reason, pc_UpdatedAt := now\<rparr>) (price_changes db))"
  proof (rule rows_wf_move [OF wf, where st = st and now = now])
    show "st \<noteq> PriceStatusPending" using st by (elim disjE) simp_all
    show "pc_WorkspaceID b = ws \<and> pc_ID b \<in> set ids \<and> submitting_unlinked b"
      if "a \<in> set (price_changes db)" "b \<in> set (price_changes db)"
        "pc_WorkspaceID a = ws \<and> pc_ID a \<in> set ids \<and> submitting_unlinked a" "pc_SubmissionBatchID a = pc_SubmissionBatchID b" for a b
      using that batch_together [OF wf that(1,2) _ that(4)]
      by (simp add: ids in_batch_ids [OF wf] in_batch_def submitting_unlinked_def)
  qed (auto simp: same_identity_def submitting_unlinked_def)
  then show ?thesis by (simp add: settle_submitting_def)
qed

lemma recover_keeps:
  assumes wf: "rows_wf (price_changes db)"
  shows "rows_wf (price_changes (recover_submitting ws staleBefore now db))"
proof -
  have "rows_wf (upd_where (\<lambda>r. pc_WorkspaceID r = ws \<and> submitting_unlinked r \<and> pc_SubmissionBatchID r \<noteq> None \<and>
                    pc_UpdatedAt r < staleBefore)
       (\<lambda>r. r\<lparr>pc_WbStatus := PriceStatusSubmitUnknown, pc_Error := Some ''stale_submission_requires_exact_retry'',
              pc_UpdatedAt := now\<rparr>) (price_changes db))"
    by (rule rows_wf_move [OF wf, where st = PriceStatusSubmitUnknown and now = now])
      (auto simp: same_identity_def submitting_unlinked_def dest: batch_together [OF wf])
  then show ?thesis by (simp add: recover_submitting_def)
qed

lemma link_keeps:
  assumes wf: "rows_wf (price_changes db)" and ids: "set ids = set (batch_ids batch (price_changes db))"
  shows "rows_wf (price_changes (link_changes task ids now db))"
proof -
  have "rows_wf (upd_where (\<lambda>r. pc_ID r \<in> set ids \<and> pc_WbStatus r = PriceStatusSubmitting)
       (\<lambda>r. r\<lparr>pc_UploadTaskID := Some (tk_ID task), pc_WbStatus := linked_status (tk_Status task), pc_UpdatedAt := now\<rparr>)
       (price_changes db))"
  proof (rule rows_wf_move [OF wf, where st = "linked_status (tk_Status task)" and now = now])
    show "pc_ID b \<in> set ids \<and> pc_WbStatus b = PriceStatusSubmitting"
      if "a \<in> set (price_changes db)" "b \<in> set (price_changes db)"
        "pc_ID a \<in> set ids \<and> pc_WbStatus a = PriceStatusSubmitting" "pc_SubmissionBatchID a = pc_SubmissionBatchID b" for a b
      using that batch_together [OF wf that(1,2) _ that(4)]
      by (simp add: ids in_batch_ids [OF wf] in_batch_def)
  qed (auto simp: same_identity_def linked_not_submission)
  then show ?thesis by (simp add: link_changes_def)
qed

lemma apply_results_keeps:
  assumes wf: "rows_wf (price_changes db)"
    and res: "\<And>r. fst (result r) \<in> {PriceStatusApplied, PriceStatusFailed}"
  shows "rows_wf (price_changes (apply_results taskID result now db))"
proof -
  define undone where "undone = List.map_filter pc_RollbackOf
    (filter (\<lambda>r. result_pending taskID r \<and> fst (result r) = PriceStatusApplied) (price_changes db))"
  define g where "g = (\<lambda>r. if result_pending taskID r then r\<lparr>pc_WbStatus := fst (result r), pc_Error := snd (result r), pc_UpdatedAt := now\<rparr>
             else if pc_ID r \<in> set undone then r\<lparr>pc_WbStatus := PriceStatusRolledBack, pc_UpdatedAt := now\<rparr> else r)"
  define touched where "touched = (\<lambda>r. result_pending taskID r \<or> pc_ID r \<in> set undone)"
  have rp: "\<not> submission r" "\<not> landed r" "in_transport r"
    if "r \<in> set (price_changes db)" "result_pending taskID r" for r
  proof -
    show "\<not> submission r" using that rows_wfD(1) [OF wf that(1)] by (auto simp: result_pending_def row_ok_def)
    show "\<not> landed r" "in_transport r" using that(2) by (auto simp: result_pending_def status_sets)
  qed
  have un: "landed r" if "r \<in> set (price_changes db)" "pc_ID r \<in> set undone" for r
  proof -
    from that(2) obtain c where "c \<in> set (price_changes db)" "pc_RollbackOf c = Some (pc_ID r)"
      unfolding undone_def by (auto simp: List.map_filter_def)
    then obtain b where "b \<in> set (price_changes db)" "pc_ID b = pc_ID r" "landed b"
      using wf unfolding rows_wf_def by metis
    then show ?thesis using rows_wfD(5) [OF wf that(1)] by metis
  qed
  have dead: "\<not> in_transport (g r) \<and> \<not> pending (g r) \<and> (landed r \<longrightarrow> landed (g r))"
    if "r \<in> set (price_changes db)" "touched r" for r
  proof (cases "result_pending taskID r")
    case True
    then show ?thesis using res [of r] rp [OF that(1)] by (auto simp: status_sets g_def)
  next
    case False
    then show ?thesis using that by (simp add: status_sets g_def touched_def)
  qed
  have keep: "g r = r" if "\<not> touched r" for r using that by (simp add: g_def touched_def)
  have sub: "submission r \<Longrightarrow> g r = r" and sub': "submission (g r) \<Longrightarrow> g r = r" if "r \<in> set (price_changes db)" for r
  proof -
    show "g r = r" if "submission r"
      using rp(1) [OF \<open>r \<in> set (price_changes db)\<close>] un [OF \<open>r \<in> set (price_changes db)\<close>] that status_disjoint(6) unfolding touched_def [symmetric]
      by (intro keep) (auto simp: touched_def)
    show "g r = r" if "submission (g r)"
      using dead [OF \<open>r \<in> set (price_changes db)\<close>] status_disjoint(2) [OF that] by (intro keep) blast
  qed
  have bat: "pc_SubmissionBatchID (g r) = pc_SubmissionBatchID r" "pc_WorkspaceID (g r) = pc_WorkspaceID r"
    "pc_SellerCabinetID (g r) = pc_SellerCabinetID r" for r by (simp_all add: g_def)
  have "rows_wf (map g (price_changes db))"
  proof (rule rows_wf_map [OF wf])
    fix r assume r: "r \<in> set (price_changes db)"
    show "same_identity r (g r)" by (simp add: same_identity_def g_def)
    show "row_ok (g r)"
      using rows_wfD(1) [OF wf r] dead [OF r] keep [of r] status_disjoint(2) by (cases "touched r") (auto simp: row_ok_def)
    show "pending r" if "pending (g r)" using that dead [OF r] keep [of r] by metis
    show "landed (g r)" if "landed r" using that dead [OF r] keep [of r] by metis
  next
    fix a b assume ab: "a \<in> set (price_changes db)" "b \<in> set (price_changes db)"
    show "pc_ID a = pc_ID b" if "same_good a b" "in_transport (g a)" "in_transport (g b)"
      using that rows_wfD(4) [OF wf ab] dead [OF ab(1)] dead [OF ab(2)] keep by metis
    show "batch_ok (g a) (g b)"
      unfolding batch_ok_def bat
    proof (intro impI)
      assume s: "pc_SubmissionBatchID a \<noteq> None \<and> pc_SubmissionBatchID a = pc_SubmissionBatchID b"
      have b0: "batch_ok a b" using rows_wfD(2) [OF wf ab] .
      have "pc_WbStatus (g b) = pc_WbStatus (g a) \<and> pc_UpdatedAt (g b) = pc_UpdatedAt (g a)" if "submission (g a)"
      proof -
        have a: "g a = a" "submission a" using sub' [OF ab(1) that] that by simp_all
        then have "pc_WbStatus b = pc_WbStatus a" "pc_UpdatedAt b = pc_UpdatedAt a" using b0 s unfolding batch_ok_def by metis+
        moreover from this a(2) have "g b = b" by (intro sub [OF ab(2)]) (simp add: submission_def)
        ultimately show ?thesis using a(1) by simp
      qed
      then show "pc_WorkspaceID a = pc_WorkspaceID b \<and> pc_SellerCabinetID a = pc_SellerCabinetID b \<and>
          (submission (g a) \<longrightarrow> pc_WbStatus (g b) = pc_WbStatus (g a) \<and> pc_UpdatedAt (g b) = pc_UpdatedAt (g a))"
        using b0 s unfolding batch_ok_def by blast
    qed
  qed
  then show ?thesis by (simp add: apply_results_def undone_def [symmetric] g_def Let_def)
qed

section \<open>Schedule entries\<close>

text \<open>
  A finished entry (done, failed or canceled) is never touched again; an entry that is not finished keeps
  what it plans. New entries are appended.
\<close>

definition finished :: "PriceScheduleEntry \<Rightarrow> bool" where
  "finished e \<longleftrightarrow> se_Status e \<in> {PriceScheduleDone, PriceScheduleFailed, PriceScheduleCanceled}"

definition same_plan :: "PriceScheduleEntry \<Rightarrow> PriceScheduleEntry \<Rightarrow> bool" where
  "same_plan e e' \<longleftrightarrow> se_ID e' = se_ID e \<and> se_WorkspaceID e' = se_WorkspaceID e \<and> se_SellerCabinetID e' = se_SellerCabinetID e \<and>
     se_ScopeType e' = se_ScopeType e \<and> se_ProductIds e' = se_ProductIds e \<and> se_AdjustmentType e' = se_AdjustmentType e \<and>
     se_AdjustmentValue e' = se_AdjustmentValue e \<and> se_Direction e' = se_Direction e \<and>
     se_ScheduledAt e' = se_ScheduledAt e \<and> se_RevertAt e' = se_RevertAt e \<and> se_RevertOf e' = se_RevertOf e"

definition schedule_kept :: "PriceScheduleEntry \<Rightarrow> PriceScheduleEntry \<Rightarrow> bool" where
  "schedule_kept e e' \<longleftrightarrow> same_plan e e' \<and> (finished e \<longrightarrow> e' = e)"

definition schedules_kept :: "PriceScheduleEntry list \<Rightarrow> PriceScheduleEntry list \<Rightarrow> bool" where
  "schedules_kept es es' \<longleftrightarrow> (\<exists>f extra. es' = map f es @ extra \<and> (\<forall>e \<in> set es. schedule_kept e (f e)))"

lemma schedule_kept_refl [simp]: "schedule_kept e e"
  by (simp add: schedule_kept_def same_plan_def)

lemma schedule_kept_trans: "\<lbrakk>schedule_kept a b; schedule_kept b c\<rbrakk> \<Longrightarrow> schedule_kept a c"
  unfolding schedule_kept_def same_plan_def by metis

lemma schedules_kept_append: "schedules_kept es (es @ extra)"
  unfolding schedules_kept_def by (intro exI [of _ id] exI [of _ extra]) simp

lemma schedules_kept_refl [simp]: "schedules_kept es es"
  using schedules_kept_append [of es "[]"] by simp

lemma schedules_kept_upd:
  assumes "\<And>e. \<lbrakk>e \<in> set es; P e\<rbrakk> \<Longrightarrow> \<not> finished e \<and> same_plan e (f e)"
  shows "schedules_kept es (upd_where P f es)"
  unfolding schedules_kept_def upd_where_def
  by (intro exI [of _ "\<lambda>e. if P e then f e else e"] exI [of _ "[]"]) (use assms in \<open>simp add: schedule_kept_def same_plan_def\<close>)

lemma executing_not_finished: "se_Status e = PriceScheduleExecuting \<Longrightarrow> \<not> finished e"
  by (simp add: finished_def price_schedule_defs)

lemma schedule_statements_keep:
  "schedules_kept (price_schedule_entries db) (price_schedule_entries (AggregatePriceSchedules ws t now db))"
  "schedules_kept (price_schedule_entries db) (price_schedule_entries (recover_schedules ws s now db))"
  "schedules_kept (price_schedule_entries db) (price_schedule_entries (attach_task task ids now db))"
  unfolding AggregatePriceSchedules_def recover_schedules_def attach_task_def
  by (simp_all, (rule schedules_kept_upd; auto simp: executing_not_finished same_plan_def aggregate_entry_def)+)

section \<open>Interleaving of statements\<close>

text \<open>
  Any number of workers run these statements in any order; each is atomic. A worker settles or links the
  changes of the batch that it claimed. A claim may leave out rows, as \<^verbatim>\<open>SKIP LOCKED\<close> and the limit do,
  and its batch id is new. An intent is only saved after both price checks, and a
  rollback only for an applied change. \<open>other\<close> stands for the
  statements that do not touch price changes.
\<close>

inductive sql_step :: "repricer_db \<Rightarrow> repricer_db \<Rightarrow> bool" where
  enqueue: "\<lbrakk>EnqueuePriceChange now (pending_row i now ws it) db = Some db';
      \<And>orig. RollbackOf it = Some orig \<Longrightarrow> \<exists>b \<in> set (price_changes db). pc_ID b = orig \<and> landed b;
      checkQuarantineRisk it = None; checkRaiseAnomaly it = None\<rbrakk> \<Longrightarrow> sql_step db db'"
| recommend: "\<lbrakk>CreatePriceChange row db = Some db'; pc_WbStatus row = PriceStatusRecommended; pc_UploadTaskID row = None;
      pc_SubmissionBatchID row = None; pc_RollbackOf row = None\<rbrakk> \<Longrightarrow> sql_step db db'"
| claim: "\<lbrakk>\<And>r. \<lbrakk>r \<in> set (price_changes db); pc_ID r \<in> set ids\<rbrakk> \<Longrightarrow>
        claimable db r \<and> pc_WorkspaceID r = ws \<and> pc_SellerCabinetID r = cab;
      \<And>r. r \<in> set (price_changes db) \<Longrightarrow> pc_SubmissionBatchID r \<noteq> Some batch; length ids \<le> 1000\<rbrakk> \<Longrightarrow> sql_step db (claim_ids now batch ids db)"
| reclaim: "sql_step db (reclaim now batch db)"
| settle: "\<lbrakk>set ids = set (batch_ids batch (price_changes db)); st = PriceStatusFailed \<or> st = PriceStatusSubmitUnknown\<rbrakk> \<Longrightarrow>
      sql_step db (settle_submitting st ws ids reason now db)"
| link: "set ids = set (batch_ids batch (price_changes db)) \<Longrightarrow>
      sql_step db (snd (CreatePriceUploadTaskAndLinkChanges i now ws cab wbTask PriceTaskUploaded n ids db))"
| finalize: "st \<in> {PriceStatusApplied, PriceStatusFailed} \<Longrightarrow>
      sql_step db (snd (FinalizePriceUploadTask task ws taskStatus st err now db))"
| finalize_partial: "sql_step db (snd (FinalizePartialPriceUploadTask task ws nms reasons now db))"
| recover: "sql_step db (recover_submitting ws staleBefore now db)"
| other: "\<lbrakk>price_changes db' = price_changes db; schedules_kept (price_schedule_entries db) (price_schedule_entries db')\<rbrakk> \<Longrightarrow> sql_step db db'"

lemma upsert_task_changes [simp]: "price_changes (snd (upsert_task i now ws cab w st n db)) = price_changes db"
  by (simp add: upsert_task_def Let_def split: option.split)

lemma link_statement_changes:
  "\<exists>task. price_changes (snd (CreatePriceUploadTaskAndLinkChanges i now ws cab w st n ids db)) =
     price_changes (link_changes task ids now db)"
proof -
  obtain task db1 where u: "upsert_task i now ws cab w st n db = (task, db1)" by (metis surj_pair)
  then have "price_changes db1 = price_changes db" using upsert_task_changes [of i now ws cab w st n db] by simp
  then show ?thesis
    by (intro exI [of _ task])
      (simp add: CreatePriceUploadTaskAndLinkChanges_def u attach_task_def link_changes_def Let_def)
qed

lemma finalize_changes:
  "price_changes (snd (FinalizePriceUploadTask task ws ts st err now db)) \<in>
     {price_changes (apply_results task (\<lambda>_. (st, err)) now db), price_changes db}"
  by (simp add: FinalizePriceUploadTask_def apply_results_def close_task_def Let_def)

lemma finalize_partial_changes:
  "price_changes (snd (FinalizePartialPriceUploadTask task ws nms reasons now db)) \<in>
     {price_changes (apply_results task (partial_result nms reasons) now db), price_changes db}"
  by (simp add: FinalizePartialPriceUploadTask_def apply_results_def close_task_def Let_def)

lemma partial_result_statuses: "fst (partial_result nms reasons r) \<in> {PriceStatusApplied, PriceStatusFailed}"
  by (simp add: partial_result_def)

lemma sql_step_keeps: "\<lbrakk>sql_step db db'; queue_wf db\<rbrakk> \<Longrightarrow> queue_wf db'"
  unfolding queue_wf_def
proof (induction rule: sql_step.induct)
  case (enqueue now i ws it db db')
  show ?case by (rule enqueue_keeps [OF enqueue(5,1,2)])
next
  case (recommend row db db')
  then have "price_changes db' = price_changes db @ [row]" "pc_ID row \<notin> pc_ID ` set (price_changes db)"
    by (auto simp: CreatePriceChange_def insertable_def split: if_split_asm)
  then show ?case using recommend by (simp, intro rows_wf_append) (auto simp: status_sets)
next
  case (claim db ids ws cab batch now)
  show ?case by (rule claim_keeps [OF claim(4,1,2)])
next
  case (link ids batch db i now ws cab w n)
  then show ?case using link_statement_changes [of i now ws cab w PriceTaskUploaded n ids db] link_keeps by metis
next
  case (finalize st db task ws ts err now)
  then show ?case
    using finalize_changes [of task ws ts st err now db]
      apply_results_keeps [OF finalize(2), of "\<lambda>_. (st, err)" task now] by auto
next
  case (finalize_partial db task ws nms reasons now)
  then show ?case
    using finalize_partial_changes [of task ws nms reasons now db]
      apply_results_keeps [OF finalize_partial, of "partial_result nms reasons" task now] partial_result_statuses by auto
qed (simp_all add: reclaim_keeps settle_keeps recover_keeps)

definition empty_queue :: "repricer_db \<Rightarrow> bool" where
  "empty_queue db \<longleftrightarrow> price_changes db = []"

interpretation queue: state_invariant empty_queue sql_step queue_wf
proof unfold_locales
  show "queue_wf db" if "empty_queue db" for db
    using that by (simp add: empty_queue_def queue_wf_def rows_wf_def)
  show "queue_wf db'" if "queue_wf db" "sql_step db db'" for db db'
    using sql_step_keeps that by blast
qed

section \<open>Progress and history\<close>

lemma sql_step_schedules:
  "sql_step db db' \<Longrightarrow> schedules_kept (price_schedule_entries db) (price_schedule_entries db')"
proof (induction rule: sql_step.induct)
  case (enqueue now i ws it db db')
  then show ?case by (auto simp: EnqueuePriceChange_def split: if_split_asm)
next
  case (recommend row db db')
  then show ?case by (auto simp: CreatePriceChange_def split: if_split_asm)
next
  case (link ids batch db i now ws cab w n)
  obtain task db1 where u: "upsert_task i now ws cab w PriceTaskUploaded n db = (task, db1)" by (metis surj_pair)
  then have "price_schedule_entries db1 = price_schedule_entries db" by (auto simp: upsert_task_def Let_def split: option.split_asm)
  then have e: "price_schedule_entries (link_changes task ids now db1) = price_schedule_entries db" by (simp add: link_changes_def)
  show ?case
    unfolding CreatePriceUploadTaskAndLinkChanges_def u Let_def prod.case snd_conv e [symmetric] by (rule schedule_statements_keep)
qed (simp_all add: claim_ids_def reclaim_def settle_submitting_def recover_submitting_def FinalizePriceUploadTask_def
    FinalizePartialPriceUploadTask_def apply_results_def close_task_def Let_def)

lemma steps_schedules:
  assumes "sql_step\<^sup>*\<^sup>* db db'" "e \<in> set (price_schedule_entries db)"
  shows "\<exists>e' \<in> set (price_schedule_entries db'). schedule_kept e e'"
  using assms(1)
proof (induction rule: rtranclp_induct)
  case base
  then show ?case using assms(2) schedule_kept_refl by blast
next
  case (step y z)
  from step.IH obtain e1 where e1: "e1 \<in> set (price_schedule_entries y)" "schedule_kept e e1" by blast
  from sql_step_schedules [OF step.hyps(2)] obtain f extra
    where f: "price_schedule_entries z = map f (price_schedule_entries y) @ extra" "\<forall>e \<in> set (price_schedule_entries y). schedule_kept e (f e)"
    unfolding schedules_kept_def by blast
  have "f e1 \<in> set (price_schedule_entries z)" "schedule_kept e1 (f e1)" using f e1(1) by simp_all
  then show ?case using schedule_kept_trans e1(2) by blast
qed

text \<open>The order in which a change moves through its statuses.\<close>

definition status_rank :: "string \<Rightarrow> nat" where
  "status_rank s =
     (if s = PriceStatusPending \<or> s = PriceStatusRecommended then 0
      else if s = PriceStatusSubmitting \<or> s = PriceStatusSubmitUnknown then 1
      else if s = PriceStatusUploaded then 2
      else if s = PriceStatusApplied \<or> s = PriceStatusFailed then 3
      else 4)"

lemma status_rank_simps [simp]:
  "status_rank PriceStatusPending = 0" "status_rank PriceStatusRecommended = 0" "status_rank PriceStatusSubmitting = 1"
  "status_rank PriceStatusSubmitUnknown = 1" "status_rank PriceStatusUploaded = 2" "status_rank PriceStatusApplied = 3"
  "status_rank PriceStatusFailed = 3" "status_rank PriceStatusRolledBack = 4" "status_rank s \<le> 4"
  "2 \<le> status_rank (linked_status s)"
  by (simp_all add: status_rank_def linked_status_def price_status_defs)

lemma recommended_neq [simp]:
  "PriceStatusPending \<noteq> PriceStatusRecommended" "PriceStatusSubmitting \<noteq> PriceStatusRecommended"
  "PriceStatusSubmitUnknown \<noteq> PriceStatusRecommended" "PriceStatusUploaded \<noteq> PriceStatusRecommended"
  "PriceStatusApplied \<noteq> PriceStatusRecommended" "PriceStatusFailed \<noteq> PriceStatusRecommended"
  "PriceStatusRolledBack \<noteq> PriceStatusRecommended" "linked_status s \<noteq> PriceStatusRecommended"
  by (simp_all add: linked_status_def price_status_defs)

text \<open>A recommendation stays one; every other change only moves forward.\<close>

abbreviation recommended :: "PriceChangeRow \<Rightarrow> bool" where
  "recommended r \<equiv> pc_WbStatus r = PriceStatusRecommended"

definition advances :: "PriceChangeRow \<Rightarrow> PriceChangeRow \<Rightarrow> bool" where
  "advances r q \<longleftrightarrow> same_identity r q \<and> status_rank (pc_WbStatus r) \<le> status_rank (pc_WbStatus q) \<and>
     (recommended r \<longleftrightarrow> recommended q)"

text \<open>The change comes from an intent that passed both price checks; the table keeps discounts as 32-bit integers.\<close>

definition vetted_by :: "priceChangeIntent \<Rightarrow> PriceChangeRow \<Rightarrow> bool" where
  "vetted_by it r \<longleftrightarrow> checkQuarantineRisk it = None \<and> checkRaiseAnomaly it = None \<and>
     NmID it = pc_WbProductID r \<and> OldPriceRub it = pc_OldPriceRub r \<and> NewPriceRub it = pc_NewPriceRub r \<and>
     wrap32 (OldDiscount it) = pc_OldDiscountPercent r \<and> wrap32 (NewDiscount it) = pc_NewDiscountPercent r \<and>
     IntentSource it = pc_Source r"

definition vetted :: "PriceChangeRow \<Rightarrow> bool" where
  "vetted r \<longleftrightarrow> recommended r \<or> (\<exists>it. vetted_by it r)"

lemma advances_vetted: "\<lbrakk>advances r q; vetted r\<rbrakk> \<Longrightarrow> vetted q"
  by (auto simp: advances_def same_identity_def vetted_def vetted_by_def)

lemma advances_refl [simp]: "advances r r"
  by (simp add: advances_def same_identity_def)

lemma advances_trans: "\<lbrakk>advances a b; advances b c\<rbrakk> \<Longrightarrow> advances a c"
  by (auto simp: advances_def same_identity_def)

text \<open>
  The shape of every step: rows are advanced in place, new rows come without a batch at the end, and a row
  only enters a batch that no row was in, at most a thousand of them at once.
\<close>

definition step_shape :: "PriceChangeRow list \<Rightarrow> PriceChangeRow list \<Rightarrow> bool" where
  "step_shape rows rows' \<longleftrightarrow> (\<exists>f extra. rows' = map f rows @ extra \<and>
     (\<forall>r \<in> set rows. advances r (f r) \<and> (pc_SubmissionBatchID (f r) = pc_SubmissionBatchID r \<or>
        pc_SubmissionBatchID r = None \<and> (\<forall>q \<in> set rows. pc_SubmissionBatchID q \<noteq> pc_SubmissionBatchID (f r)))) \<and>
     (\<exists>ids. length ids \<le> 1000 \<and> (\<forall>r \<in> set rows. pc_SubmissionBatchID (f r) \<noteq> pc_SubmissionBatchID r \<longrightarrow> pc_ID r \<in> set ids)) \<and>
     (\<forall>q \<in> set extra. pc_SubmissionBatchID q = None \<and> vetted q))"

lemma step_shapeI:
  assumes "\<And>r. r \<in> set rows \<Longrightarrow> advances r (f r) \<and> pc_SubmissionBatchID (f r) = pc_SubmissionBatchID r"
    and "\<And>q. q \<in> set extra \<Longrightarrow> pc_SubmissionBatchID q = None \<and> vetted q"
  shows "step_shape rows (map f rows @ extra)"
  unfolding step_shape_def using assms by (intro exI [of _ f] exI [of _ extra] conjI exI [of _ "[]"]) simp_all

lemma step_shape_upd:
  assumes "\<And>r. \<lbrakk>r \<in> set rows; P r\<rbrakk> \<Longrightarrow> advances r (f r) \<and> pc_SubmissionBatchID (f r) = pc_SubmissionBatchID r"
    and "\<And>q. q \<in> set extra \<Longrightarrow> pc_SubmissionBatchID q = None \<and> vetted q"
  shows "step_shape rows (upd_where P f rows @ extra)"
  unfolding upd_where_def using assms by (intro step_shapeI) simp_all

lemmas step_shape_upd0 = step_shape_upd [where extra = "[]", simplified]

lemma step_shape_refl: "step_shape rows rows"
  using step_shapeI [of rows id "[]"] by simp

lemma undone_landed:
  assumes "rows_wf rows" "r \<in> set rows" "pc_ID r \<in> set (List.map_filter pc_RollbackOf (filter P rows))"
  shows "landed r"
proof -
  from assms(3) obtain a where "a \<in> set rows" "pc_RollbackOf a = Some (pc_ID r)" by (auto simp: List.map_filter_def)
  then obtain b where "b \<in> set rows" "pc_ID b = pc_ID r" "landed b" using assms(1) unfolding rows_wf_def by blast
  then show ?thesis using rows_wfD(5) [OF assms(1) _ assms(2)] by metis
qed

lemma step_shape_results:
  assumes "\<And>r. fst (result r) \<in> {PriceStatusApplied, PriceStatusFailed}" "queue_wf db"
  shows "step_shape (price_changes db) (price_changes (apply_results task result now db))"
proof -
  let ?rows = "price_changes db"
  let ?undone = "List.map_filter pc_RollbackOf (filter (\<lambda>r. result_pending task r \<and> fst (result r) = PriceStatusApplied) ?rows)"
  have done_row: "advances r (r\<lparr>pc_WbStatus := fst (result r), pc_Error := e, pc_UpdatedAt := now\<rparr>)" if "result_pending task r" for r e
  proof -
    have "status_rank (fst (result r)) = 3" "fst (result r) \<noteq> PriceStatusRecommended" using assms(1) [of r] by auto
    moreover have "status_rank (pc_WbStatus r) \<le> 2" "\<not> recommended r" using that by (auto simp: result_pending_def)
    ultimately show ?thesis by (simp add: advances_def same_identity_def)
  qed
  have undone_row: "advances r (r\<lparr>pc_WbStatus := PriceStatusRolledBack, pc_UpdatedAt := now\<rparr>)"
    if "r \<in> set ?rows" "pc_ID r \<in> set ?undone" for r
  proof -
    have "landed r" using undone_landed [OF _ that] assms(2) by (simp add: queue_wf_def)
    then have "\<not> recommended r" by (auto simp: landed_def)
    then show ?thesis by (simp add: advances_def same_identity_def)
  qed
  show ?thesis
    unfolding apply_results_def Let_def
    by (simp, intro step_shapeI [where extra = "[]", simplified]) (simp add: done_row undone_row)
qed

lemma sql_step_shape: "\<lbrakk>sql_step db db'; queue_wf db\<rbrakk> \<Longrightarrow> step_shape (price_changes db) (price_changes db')"
proof (induction rule: sql_step.induct)
  case (enqueue now i ws it db db')
  then have "price_changes db' = upd_where (\<lambda>r. same_good r (pending_row i now ws it) \<and> pc_WbStatus r = PriceStatusPending)
      (supersede now) (price_changes db) @ [pending_row i now ws it]"
    by (auto simp: EnqueuePriceChange_def split: if_split_asm)
  moreover have "vetted (pending_row i now ws it)"
    using enqueue(3,4) by (auto simp: vetted_def vetted_by_def pending_row_def)
  ultimately show ?case by (simp, intro step_shape_upd) (simp_all add: advances_def same_identity_def supersede_def, simp add: pending_row_def)
next
  case (recommend row db db')
  then have "price_changes db' = price_changes db @ [row]" by (auto simp: CreatePriceChange_def split: if_split_asm)
  then show ?case using recommend step_shapeI [of "price_changes db" id "[row]"] by (simp add: vetted_def)
next
  case (claim db ids ws cab batch now)
  let ?f = "\<lambda>r. if pc_ID r \<in> set ids \<and> pc_WbStatus r = PriceStatusPending then claim_row now batch r else r"
  have "pc_SubmissionBatchID r = None" if "r \<in> set (price_changes db)" "pc_WbStatus r = PriceStatusPending" for r
    using rows_wfD(1) [of "price_changes db" r] claim(4) that by (simp add: queue_wf_def row_ok_def pending_def)
  then show ?case
    unfolding step_shape_def claim_ids_def upd_where_def using claim(2,3)
    by (intro exI [of _ ?f] exI [of _ "[]"] conjI exI [of _ ids]) (simp_all add: advances_def same_identity_def claim_row_def)
next
  case (link ids batch db i now ws cab w n)
  obtain task where "price_changes (snd (CreatePriceUploadTaskAndLinkChanges i now ws cab w PriceTaskUploaded n ids db)) =
     price_changes (link_changes task ids now db)" using link_statement_changes by metis
  moreover have "step_shape (price_changes db) (price_changes (link_changes task ids now db))"
    unfolding link_changes_def
    using order_trans [OF one_le_numeral status_rank_simps(10)]
    by (simp, intro step_shape_upd0) (auto simp: advances_def same_identity_def)
  ultimately show ?case by simp
next
  case (finalize st db task ws ts err now)
  then show ?case
    using finalize_changes [of task ws ts st err now db] step_shape_results [of "\<lambda>_. (st, err)" db task now] step_shape_refl by auto
next
  case (finalize_partial db task ws nms reasons now)
  then show ?case
    using finalize_partial_changes [of task ws nms reasons now db] partial_result_statuses step_shape_refl
      step_shape_results [of "partial_result nms reasons" db task now] by auto
next
  case (reclaim db now batch)
  show ?case unfolding reclaim_def
    by (simp, intro step_shape_upd0) (simp add: advances_def same_identity_def uncertain_row_def)
next
  case (settle ids batch db st ws reason now)
  then have "1 \<le> status_rank st" "st \<noteq> PriceStatusRecommended"
    using recommended_neq(3,6) by (elim disjE; simp)+
  then show ?case unfolding settle_submitting_def
    by (simp, intro step_shape_upd0) (simp add: advances_def same_identity_def submitting_unlinked_def)
next
  case (recover db ws s now)
  show ?case unfolding recover_submitting_def
    by (simp, intro step_shape_upd0) (simp add: advances_def same_identity_def submitting_unlinked_def)
qed (simp add: step_shape_refl)

lemma step_shape_advances:
  "\<lbrakk>step_shape rows rows'; r \<in> set rows\<rbrakk> \<Longrightarrow> \<exists>q \<in> set rows'. advances r q"
  unfolding step_shape_def by fastforce

text \<open>The lines of an upload: the claimed changes in the order of their product ids.\<close>

definition chunk_items :: "PriceChangeRow list \<Rightarrow> PriceUpdateItem list" where
  "chunk_items claimed = map (\<lambda>r. \<lparr>ui_NmID = pc_WbProductID r, ui_Price = pc_NewPriceRub r, ui_Discount = pc_NewDiscountPercent r\<rparr>)
     (sort_key pc_WbProductID claimed)"

definition payload_key :: "PriceChangeRow \<Rightarrow> int \<times> int \<times> int" where
  "payload_key r = (pc_WbProductID r, pc_NewPriceRub r, pc_NewDiscountPercent r)"

lemma filter_map_cong:
  "(\<And>x. x \<in> set xs \<Longrightarrow> P (f x) \<longleftrightarrow> Q (f x)) \<Longrightarrow> filter P (map f xs) = filter Q (map f xs)"
  by (rule filter_cong) auto

lemma sort_key_map: "sort_key k (map f xs) = map f (sort_key (\<lambda>x. k (f x)) xs)"
proof -
  have ins: "insort_key k (f x) (map f ys) = map f (insort_key (\<lambda>x. k (f x)) x ys)" for x ys
    by (induction ys) simp_all
  show ?thesis by (induction xs) (simp_all add: sort_key_def ins)
qed

lemma chunk_items_payload:
  "chunk_items rows = map (\<lambda>(nm, p, d). \<lparr>ui_NmID = nm, ui_Price = p, ui_Discount = d\<rparr>) (sort_key fst (map payload_key rows))"
  by (simp add: chunk_items_def sort_key_map payload_key_def comp_def)

lemma step_shape_batch:
  assumes "step_shape rows rows'" "q \<in> set rows" "in_batch b q"
  shows "map payload_key (filter (in_batch b) rows') = map payload_key (filter (in_batch b) rows)"
    and "\<exists>q' \<in> set rows'. in_batch b q'"
proof -
  from assms(1) obtain f extra where rows': "rows' = map f rows @ extra"
    and f: "\<And>r. r \<in> set rows \<Longrightarrow> advances r (f r) \<and> (pc_SubmissionBatchID (f r) = pc_SubmissionBatchID r \<or>
        pc_SubmissionBatchID r = None \<and> (\<forall>q \<in> set rows. pc_SubmissionBatchID q \<noteq> pc_SubmissionBatchID (f r)))"
    and extra: "\<And>q. q \<in> set extra \<Longrightarrow> pc_SubmissionBatchID q = None"
    unfolding step_shape_def by blast
  have b: "in_batch b (f r) \<longleftrightarrow> in_batch b r" if "r \<in> set rows" for r
    using f [OF that] assms(2,3) unfolding in_batch_def by (metis option.distinct(1))
  have k: "payload_key (f r) = payload_key r" if "r \<in> set rows" for r
    using f [OF that] by (simp add: payload_key_def advances_def same_identity_def)
  have "filter (in_batch b) extra = []" using extra by (simp add: filter_empty_conv in_batch_def)
  moreover have "filter (in_batch b \<circ> f) rows = filter (in_batch b) rows" using b by (intro filter_cong) simp_all
  ultimately show "map payload_key (filter (in_batch b) rows') = map payload_key (filter (in_batch b) rows)"
    by (simp add: rows' filter_map k)
  show "\<exists>q' \<in> set rows'. in_batch b q'" using b [OF assms(2)] assms(2,3) by (auto simp: rows')
qed

text \<open>No batch exceeds a thousand changes.\<close>

definition batches_small :: "PriceChangeRow list \<Rightarrow> bool" where
  "batches_small rows \<longleftrightarrow> (\<forall>b. length (filter (in_batch b) rows) \<le> 1000)"

lemma step_shape_small:
  assumes "step_shape rows rows'" "distinct (map pc_ID rows)" "batches_small rows"
  shows "batches_small rows'"
  unfolding batches_small_def
proof
  fix b
  show "length (filter (in_batch b) rows') \<le> 1000"
  proof (cases "\<exists>q \<in> set rows. in_batch b q")
    case True
    then have "length (filter (in_batch b) rows') = length (filter (in_batch b) rows)"
      using step_shape_batch(1) [OF assms(1)] by (metis length_map)
    then show ?thesis using assms(3) by (simp add: batches_small_def)
  next
    case False
    from assms(1) obtain f extra ids where rows': "rows' = map f rows @ extra" and ids: "length ids \<le> 1000"
      "\<And>r. \<lbrakk>r \<in> set rows; pc_SubmissionBatchID (f r) \<noteq> pc_SubmissionBatchID r\<rbrakk> \<Longrightarrow> pc_ID r \<in> set ids"
      and extra: "\<And>q. q \<in> set extra \<Longrightarrow> pc_SubmissionBatchID q = None"
      unfolding step_shape_def by blast
    have "filter (in_batch b) extra = []" using extra by (simp add: filter_empty_conv in_batch_def)
    then have l: "length (filter (in_batch b) rows') = length (filter (\<lambda>r. in_batch b (f r)) rows)"
      by (simp add: rows' filter_map comp_def)
    let ?new = "map pc_ID (filter (\<lambda>r. in_batch b (f r)) rows)"
    have "pc_ID r \<in> set ids" if "r \<in> set rows" "in_batch b (f r)" for r
      using that False by (intro ids(2)) (auto simp: in_batch_def)
    then have "set ?new \<subseteq> set ids" by auto
    moreover have "distinct ?new" using assms(2) by (rule distinct_map_filter)
    ultimately have "length ?new \<le> length ids"
      by (metis card_length card_mono distinct_card finite_set order_trans)
    then show ?thesis using l ids(1) by simp
  qed
qed

lemma steps_batch:
  assumes "sql_step\<^sup>*\<^sup>* db db'" "queue_wf db" "q \<in> set (price_changes db)" "in_batch b q"
  shows "map payload_key (filter (in_batch b) (price_changes db')) = map payload_key (filter (in_batch b) (price_changes db)) \<and>
    (\<exists>q' \<in> set (price_changes db'). in_batch b q')"
  using assms(1)
proof (induction rule: rtranclp_induct)
  case base
  then show ?case using assms(3,4) by blast
next
  case (step y z)
  then have "step_shape (price_changes y) (price_changes z)" using queue.inv_steps assms(2) sql_step_shape by blast
  with step.IH show ?case using step_shape_batch by metis
qed

lemma steps_advance:
  assumes "sql_step\<^sup>*\<^sup>* db db'" "queue_wf db" "r \<in> set (price_changes db)"
  shows "\<exists>q \<in> set (price_changes db'). advances r q"
  using assms(1)
proof (induction rule: rtranclp_induct)
  case base
  then show ?case using assms(3) by (auto intro: bexI [of _ r])
next
  case (step y z)
  then have "step_shape (price_changes y) (price_changes z)" using queue.inv_steps assms(2) sql_step_shape by blast
  with step.IH show ?case using step_shape_advances advances_trans by meson
qed

definition vetted_rows :: "PriceChangeRow list \<Rightarrow> bool" where
  "vetted_rows rows \<longleftrightarrow> (\<forall>r \<in> set rows. vetted r)"

lemma step_shape_vetted: "\<lbrakk>step_shape rows rows'; vetted_rows rows\<rbrakk> \<Longrightarrow> vetted_rows rows'"
  unfolding step_shape_def vetted_rows_def using advances_vetted by fastforce

lemma steps_vetted:
  assumes "sql_step\<^sup>*\<^sup>* db db'" "queue_wf db" "vetted_rows (price_changes db)"
  shows "vetted_rows (price_changes db')"
  using assms(1)
proof (induction rule: rtranclp_induct)
  case (step y z)
  then have "step_shape (price_changes y) (price_changes z)" using queue.inv_steps assms(2) sql_step_shape by blast
  with step.IH show ?case using step_shape_vetted by blast
qed (rule assms(3))

lemma steps_small:
  assumes "sql_step\<^sup>*\<^sup>* db db'" "queue_wf db" "batches_small (price_changes db)"
  shows "batches_small (price_changes db')"
  using assms(1)
proof (induction rule: rtranclp_induct)
  case (step y z)
  have y: "queue_wf y" by (rule queue.inv_steps [OF step.hyps(1) assms(2)])
  then have "distinct (map pc_ID (price_changes y))" by (simp add: queue_wf_def rows_wf_def)
  with sql_step_shape [OF step.hyps(2) y] show ?case using step.IH by (rule step_shape_small)
qed (rule assms(3))

lemma claim_candidates_sound:
  assumes "queue_wf db" "r \<in> set (price_changes db)" "pc_ID r \<in> set (claim_candidates ws cab limit db)"
  shows "claimable db r \<and> pc_WorkspaceID r = ws \<and> pc_SellerCabinetID r = cab"
proof -
  from assms(3) obtain c where "c \<in> set (price_changes db)" "pc_ID c = pc_ID r" "claimable db c" "pc_WorkspaceID c = ws"
    "pc_SellerCabinetID c = cab"
    by (auto simp: claim_candidates_def dest!: in_set_takeD)
  moreover from this have "c = r" using rows_wfD(5) assms(1,2) unfolding queue_wf_def by blast
  ultimately show ?thesis by simp
qed

lemma claim_pending_whole_batch:
  assumes wf: "queue_wf db" and fresh: "\<And>r. r \<in> set (price_changes db) \<Longrightarrow> pc_SubmissionBatchID r \<noteq> Some b"
    and c: "ClaimPendingPriceChanges ws cab limit now b db = (claimed, db')" and lim: "limit \<le> 1000"
  shows "claimed = filter (in_batch b) (price_changes db')" "sql_step db db'"
proof -
  let ?ids = "claim_candidates ws cab limit db"
  have db': "db' = claim_ids now b ?ids db" and claimed: "claimed = rows_with_ids ?ids db'"
    using c by (auto simp: ClaimPendingPriceChanges_def Let_def)
  note cand = claim_candidates_sound [OF wf]
  have "length ?ids \<le> 1000" using lim by (simp add: claim_candidates_def)
  then show "sql_step db db'" unfolding db' by (intro sql_step.claim [OF cand fresh])
  let ?g = "\<lambda>r. if pc_ID r \<in> set ?ids \<and> pc_WbStatus r = PriceStatusPending then claim_row now b r else r"
  have g: "pc_ID (?g r) \<in> set ?ids \<longleftrightarrow> in_batch b (?g r)" if "r \<in> set (price_changes db)" for r
    using cand [OF that] fresh [OF that] by (auto simp: claimable_def in_batch_def claim_row_def)
  show "claimed = filter (in_batch b) (price_changes db')"
    unfolding claimed rows_with_ids_def db' claim_ids_def upd_where_def
    using filter_map_cong [of "price_changes db" "\<lambda>r. pc_ID r \<in> set ?ids" ?g "in_batch b", OF g] by simp
qed

lemma sort_key_hd: "sort_key k xs = u # us \<Longrightarrow> u \<in> set xs"
  by (metis list.set_intros(1) set_sort)

lemma id_in_filter:
  assumes "rows_wf rows" "r \<in> set rows"
  shows "pc_ID r \<in> set (map pc_ID (filter P rows)) \<longleftrightarrow> P r"
proof
  assume "pc_ID r \<in> set (map pc_ID (filter P rows))"
  then obtain q where "q \<in> set rows" "P q" "pc_ID r = pc_ID q" by auto
  then show "P r" using rows_wfD(5) [OF assms] by metis
qed (use assms(2) in simp)

lemma claim_unknown_whole_batch:
  assumes wf: "queue_wf db" and c: "ClaimUnknownPriceChanges ws cab now db = (claimed, db')"
  shows "claimed = [] \<and> db' = db \<or> (\<exists>b. db' = reclaim now b db \<and> claimed = filter (in_batch b) (price_changes db'))"
proof (cases "candidate_batch ws cab db")
  case None
  then show ?thesis using c by (simp add: ClaimUnknownPriceChanges_def)
next
  case (Some b)
  let ?U = "\<lambda>r. in_batch b r \<and> uncertain_row r"
  let ?ids = "map pc_ID (filter ?U (price_changes db))"
  let ?g = "\<lambda>r. if ?U r then r\<lparr>pc_WbStatus := PriceStatusSubmitting, pc_UpdatedAt := now\<rparr> else r"
  have db': "db' = reclaim now b db" and claimed: "claimed = rows_with_ids ?ids db'"
    using c Some by (auto simp: ClaimUnknownPriceChanges_def Let_def)
  from Some obtain u where u: "u \<in> set (price_changes db)" "?U u"
  proof -
    obtain u us where s: "sort_key pc_UpdatedAt (filter (\<lambda>r. pc_WorkspaceID r = ws \<and> pc_SellerCabinetID r = cab \<and>
             uncertain_row r \<and> pc_SubmissionBatchID r \<noteq> None) (price_changes db)) = u # us" "pc_SubmissionBatchID u = Some b"
      using Some unfolding candidate_batch_def by (auto split: list.split_asm)
    from sort_key_hd [OF s(1)] s(2) show ?thesis by (intro that [of u]) (auto simp: in_batch_def)
  qed
  have w: "rows_wf (price_changes db)" using wf by (simp add: queue_wf_def)
  have whole: "uncertain_row r" if "r \<in> set (price_changes db)" "in_batch b r" for r
    using batch_together [OF w u(1) that(1)] u(2) that(2) by (simp add: uncertain_row_def in_batch_def)
  have g: "pc_ID (?g r) \<in> set ?ids \<longleftrightarrow> in_batch b (?g r)" if "r \<in> set (price_changes db)" for r
  proof -
    have e: "pc_ID (?g r) = pc_ID r" "in_batch b (?g r) \<longleftrightarrow> in_batch b r" by (simp_all add: in_batch_def)
    show ?thesis unfolding e id_in_filter [OF w that] using whole [OF that] by blast
  qed
  have rows': "price_changes db' = map ?g (price_changes db)" by (simp add: db' reclaim_def upd_where_def)
  have "claimed = filter (in_batch b) (price_changes db')"
    unfolding claimed rows_with_ids_def rows' by (rule filter_map_cong) (rule g)
  with db' show ?thesis by blast
qed

section \<open>Properties of the queue\<close>

text \<open>
  C3 However many workers interleave their statements, a good has at most one price change on its way
  to the marketplace: in every reachable database two changes of the same cabinet and product that are
  submitting, of unknown outcome or uploaded are the same row.
\<close>

theorem one_change_in_transport:
  assumes "empty_queue db0" "sql_step\<^sup>*\<^sup>* db0 db" "a \<in> set (price_changes db)" "b \<in> set (price_changes db)"
    and "pc_SellerCabinetID a = pc_SellerCabinetID b" "pc_WbProductID a = pc_WbProductID b"
    and "in_transport a" "in_transport b"
  shows "a = b"
proof -
  have wf: "rows_wf (price_changes db)" using queue.inv_reachable [OF assms(1,2)] by (simp add: queue_wf_def)
  have "pc_ID a = pc_ID b" using rows_wfD(4) [OF wf assms(3,4)] assms(5-8) by blast
  then show ?thesis by (rule rows_wfD(5) [OF wf assms(3,4)])
qed

text \<open>
  C11 The history of price changes is kept: from any reachable database on, every change stays in the
  table with its product, prices, discounts, source and rollback reference, and its status only moves
  forward (waiting, in submission, uploaded, applied or failed, rolled back), so a change that was
  applied or failed is never sent again, and a recommendation stays a recommendation.
\<close>

theorem change_history_kept:
  assumes "empty_queue db0" "sql_step\<^sup>*\<^sup>* db0 db" "sql_step\<^sup>*\<^sup>* db db'" "r \<in> set (price_changes db)"
  shows "\<exists>q \<in> set (price_changes db'). same_identity r q \<and> status_rank (pc_WbStatus r) \<le> status_rank (pc_WbStatus q) \<and>
    (pc_WbStatus r = PriceStatusRecommended \<longleftrightarrow> pc_WbStatus q = PriceStatusRecommended)"
  using steps_advance [OF assms(3) queue.inv_reachable [OF assms(1,2)] assms(4)] by (simp add: advances_def)

text \<open>
  C10 A submission of unknown outcome is retried with exactly the same payload: if a claim with a new
  batch id takes some changes, and after any further steps a retry takes a change of that batch, then
  the retry uploads the same lines (products, prices and discounts, in the same order) as the first
  submission did.
\<close>

theorem unknown_retry_same_payload:
  assumes "empty_queue db0" "sql_step\<^sup>*\<^sup>* db0 db"
    and fresh: "\<And>r. r \<in> set (price_changes db) \<Longrightarrow> pc_SubmissionBatchID r \<noteq> Some b"
    and first: "ClaimPendingPriceChanges ws cab limit now b db = (claimed, db1)" "limit \<le> 1000" "claimed \<noteq> []"
    and "sql_step\<^sup>*\<^sup>* db1 db2"
    and retry: "ClaimUnknownPriceChanges ws cab now' db2 = (again, db3)" "again \<noteq> []" "in_batch b (hd again)"
  shows "chunk_items again = chunk_items claimed"
proof -
  have wf: "queue_wf db" using queue.inv_reachable [OF assms(1,2)] .
  have c: "claimed = filter (in_batch b) (price_changes db1)" and st: "sql_step db db1"
    using claim_pending_whole_batch [OF wf fresh first(1,2)] by simp_all
  have wf1: "queue_wf db1" using sql_step_keeps [OF st wf] .
  have wf2: "queue_wf db2" using queue.inv_steps [OF assms(7) wf1] .
  obtain q where q: "q \<in> set (price_changes db1)" "in_batch b q"
    using first(3) unfolding c filter_empty_conv by blast
  obtain b' where b': "db3 = reclaim now' b' db2" "again = filter (in_batch b') (price_changes db3)"
    using claim_unknown_whole_batch [OF wf2 retry(1)] retry(2) by blast
  have "in_batch b' (hd again)" using b'(2) retry(2) by (metis hd_in_set mem_Collect_eq set_filter)
  then have "b' = b" using retry(3) by (simp add: in_batch_def)
  have "sql_step\<^sup>*\<^sup>* db1 db3" using assms(7) sql_step.reclaim [of db2 now' b'] b'(1) by simp
  from steps_batch [OF this wf1 q] have "map payload_key again = map payload_key claimed"
    unfolding b'(2) c \<open>b' = b\<close> by blast
  then show ?thesis by (simp add: chunk_items_payload)
qed

text \<open>A concrete run: one intent is saved, claimed, loses its answer and is claimed again.\<close>

definition run_it :: priceChangeIntent where
  "run_it = wit_intent 1001 []"

definition run_db0 :: repricer_db where
  "run_db0 = \<lparr>price_changes = [], price_upload_tasks = [], price_schedule_entries = [], product_prices = [],
     product_economics = [], seller_cabinets = [], wb_sent = [], calls = 0\<rparr>"

definition run_row :: "string \<Rightarrow> uuid option \<Rightarrow> string option \<Rightarrow> int \<Rightarrow> PriceChangeRow" where
  "run_row st b e now = (pending_row 5 100 9 run_it)\<lparr>pc_WbStatus := st, pc_SubmissionBatchID := b, pc_Error := e, pc_UpdatedAt := now\<rparr>"

definition run_db :: "PriceChangeRow \<Rightarrow> repricer_db" where
  "run_db r = run_db0\<lparr>price_changes := [r]\<rparr>"

lemmas run_defs = run_db_def run_db0_def run_row_def run_it_def pending_row_def wit_intent_def

lemma run_checks: "checkQuarantineRisk run_it = None" "checkRaiseAnomaly run_it = None"
  by (simp_all add: run_it_def wit_intent_def checkQuarantineRisk_def checkRaiseAnomaly_def effectiveOf_eq wrap64_def int64_min_def int64_max_def price_source_defs)

lemma run_enqueue: "sql_step run_db0 (run_db (run_row PriceStatusPending None None 100))"
proof (rule sql_step.enqueue [of 100 5 9 run_it])
qed (simp_all only: run_checks, simp_all add: EnqueuePriceChange_def insertable_def run_defs upd_where_def)

lemma run_claim:
  "ClaimPendingPriceChanges 9 1 1000 110 7 (run_db (run_row PriceStatusPending None None 100)) =
     ([run_row PriceStatusSubmitting (Some 7) None 110], run_db (run_row PriceStatusSubmitting (Some 7) None 110))"
  by (simp add: ClaimPendingPriceChanges_def claim_candidates_def claim_ids_def rows_with_ids_def claimable_def claim_row_def
      run_defs upd_where_def in_transport_def transport_statuses_def price_status_defs)

lemma run_unknown: "sql_step (run_db (run_row PriceStatusSubmitting (Some 7) None 110))
    (run_db (run_row PriceStatusSubmitUnknown (Some 7) (Some ''timeout'') 120))"
proof -
  have "settle_submitting PriceStatusSubmitUnknown 9 [5] (Some ''timeout'') 120 (run_db (run_row PriceStatusSubmitting (Some 7) None 110)) =
    run_db (run_row PriceStatusSubmitUnknown (Some 7) (Some ''timeout'') 120)"
    by (simp add: settle_submitting_def submitting_unlinked_def run_defs upd_where_def)
  moreover have "set [5] = set (batch_ids 7 (price_changes (run_db (run_row PriceStatusSubmitting (Some 7) None 110))))"
    by (simp add: batch_ids_def in_batch_def run_defs)
  ultimately show ?thesis
    using sql_step.settle [of "[5]" 7 "run_db (run_row PriceStatusSubmitting (Some 7) None 110)" PriceStatusSubmitUnknown 9 "Some ''timeout''" 120]
    by simp
qed

lemma run_reclaim:
  "ClaimUnknownPriceChanges 9 1 130 (run_db (run_row PriceStatusSubmitUnknown (Some 7) (Some ''timeout'') 120)) =
     ([run_row PriceStatusSubmitting (Some 7) (Some ''timeout'') 130], run_db (run_row PriceStatusSubmitting (Some 7) (Some ''timeout'') 130))"
  by (simp add: ClaimUnknownPriceChanges_def candidate_batch_def uncertain_row_def in_batch_def reclaim_def rows_with_ids_def
      run_defs upd_where_def)

lemma run_steps1: "sql_step\<^sup>*\<^sup>* run_db0 (run_db (run_row PriceStatusPending None None 100))"
  using run_enqueue by blast

lemma run_steps2: "sql_step\<^sup>*\<^sup>* (run_db (run_row PriceStatusSubmitting (Some 7) None 110))
    (run_db (run_row PriceStatusSubmitUnknown (Some 7) (Some ''timeout'') 120))"
  using run_unknown by blast

lemma run_empty: "empty_queue run_db0"
  by (simp add: empty_queue_def run_db0_def)

theorem unknown_retry_same_payload_witness:
  "chunk_items [run_row PriceStatusSubmitting (Some 7) (Some ''timeout'') 130] = [\<lparr>ui_NmID = 1, ui_Price = 1001, ui_Discount = 0\<rparr>]"
proof -
  have "chunk_items [run_row PriceStatusSubmitting (Some 7) (Some ''timeout'') 130] =
      chunk_items [run_row PriceStatusSubmitting (Some 7) None 110]"
    by (rule unknown_retry_same_payload [OF run_empty run_steps1 _ run_claim _ _ run_steps2 run_reclaim])
      (simp_all add: run_defs in_batch_def)
  then show ?thesis by (simp add: chunk_items_def run_defs wrap32_def)
qed

theorem one_change_in_transport_witness:
  "hd (price_changes (run_db (run_row PriceStatusSubmitting (Some 7) None 110))) = run_row PriceStatusSubmitting (Some 7) None 110"
proof -
  have wf: "queue_wf (run_db (run_row PriceStatusPending None None 100))"
    using queue.inv_reachable [OF run_empty run_steps1] .
  have "sql_step (run_db (run_row PriceStatusPending None None 100)) (run_db (run_row PriceStatusSubmitting (Some 7) None 110))"
    by (rule claim_pending_whole_batch(2) [OF wf _ run_claim]) (simp_all add: run_defs)
  with run_steps1 have "sql_step\<^sup>*\<^sup>* run_db0 (run_db (run_row PriceStatusSubmitting (Some 7) None 110))" by simp
  from one_change_in_transport [OF run_empty this] show ?thesis
    by (simp add: run_db_def run_row_def in_transport_def transport_statuses_def)
qed

theorem change_history_kept_witness:
  "\<exists>q \<in> set (price_changes (run_db (run_row PriceStatusPending None None 100))).
     same_identity (run_row PriceStatusPending None None 100) q \<and> 0 \<le> status_rank (pc_WbStatus q)"
  using change_history_kept [OF run_empty run_steps1 rtranclp.rtrancl_refl, of "run_row PriceStatusPending None None 100"]
  by (simp add: run_db_def)

end
