(* ===== verification/Repricer_Queue.thy ===== *)
theory Repricer_Queue
  imports Repricer_Store
begin

text \<open>
  The service code around the queue, \<^verbatim>\<open>internal/service/repricer_apply.go\<close> and the rest of
  \<^verbatim>\<open>internal/service/repricer_bulk.go\<close>: saving intents, draining the queue to the marketplace, polling the
  upload tasks, rolling a change back and the manual bulk request as a whole. Every call that leaves the
  service (a SQL statement, a marketplace request) is answered by an environment that is indexed by the
  number of calls made so far, so every combination of failures is covered. The theorems show that all
  of these operations are runs of the statements of \<open>Repricer_Store\<close> and so keep its invariant, that the loop
  that drains a cabinet ends, and what is uploaded.
\<close>

section \<open>The environment\<close>

datatype upload_answer = UploadAccepted int bool | UploadRejected string | UploadUnknown string
datatype history_answer = HistoryError string | HistoryAbsent | HistoryStatus int

record PriceTaskGood =
  tg_NmID :: int
  tg_Price :: int
  tg_Discount :: int
  tg_Status :: int
  tg_ErrorText :: string

text \<open>
  \<open>e_upload\<close> answers \<^verbatim>\<open>UploadPriceTask\<close>: an accepted task with its duplicate flag, a rejection, or an error after
  which the outcome is unknown (\<^verbatim>\<open>IsPriceUploadOutcomeUnknown\<close>). \<open>e_history\<close>, \<open>e_buffer\<close> and \<open>e_goods\<close> answer the three
  status requests, \<open>e_decrypt\<close> is the token decryption with the service's key and \<open>e_cooling\<close> says that a
  persisted rate limit of the upload endpoint is active. \<open>e_fault\<close> makes a SQL statement fail without effect.
  \<open>e_uuid_string\<close> prints an id and \<open>e_map_order\<close> is the order in which Go enumerates the keys of a map.
\<close>

record repricer_env =
  e_now :: "nat \<Rightarrow> int"
  e_uuid :: "nat \<Rightarrow> uuid"
  e_fault :: "nat \<Rightarrow> bool"
  e_dberr :: string
  e_upload :: "nat \<Rightarrow> PriceUpdateItem list \<Rightarrow> upload_answer"
  e_history :: "nat \<Rightarrow> int \<Rightarrow> history_answer"
  e_buffer :: "nat \<Rightarrow> int \<Rightarrow> history_answer"
  e_goods :: "nat \<Rightarrow> int \<Rightarrow> string + PriceTaskGood list"
  e_decrypt :: "string \<Rightarrow> string + string"
  e_cooling :: "nat \<Rightarrow> uuid \<Rightarrow> bool"
  e_uuid_string :: "uuid \<Rightarrow> string"
  e_map_order :: "nat \<Rightarrow> int list \<Rightarrow> int list"

definition tick :: "repricer_db \<Rightarrow> repricer_db" where
  "tick db = db\<lparr>calls := Suc (calls db)\<rparr>"

text \<open>Running a statement: it sees the time and a fresh id of its call, or fails.\<close>

definition exec :: "repricer_env \<Rightarrow> (int \<Rightarrow> uuid \<Rightarrow> repricer_db \<Rightarrow> 'a \<times> repricer_db) \<Rightarrow> repricer_db \<Rightarrow> 'a option \<times> repricer_db" where
  "exec env stmt db =
     (let n = calls db
      in if e_fault env n then (None, tick db)
         else let (r, db') = stmt (e_now env n) (e_uuid env n) (tick db) in (Some r, db'))"

definition exec_read :: "repricer_env \<Rightarrow> (repricer_db \<Rightarrow> 'a) \<Rightarrow> repricer_db \<Rightarrow> 'a option \<times> repricer_db" where
  "exec_read env q db = exec env (\<lambda>_ _ d. (q d, d)) db"

definition exec_upd :: "repricer_env \<Rightarrow> (int \<Rightarrow> repricer_db \<Rightarrow> repricer_db) \<Rightarrow> repricer_db \<Rightarrow> unit option \<times> repricer_db" where
  "exec_upd env f db = exec env (\<lambda>now _ d. ((), f now d)) db"

text \<open>Errors are lists of messages, as \<^verbatim>\<open>errors.Join\<close> builds them; \<open>[]\<close> is \<^verbatim>\<open>nil\<close>.\<close>

type_synonym errs = "string list"

definition truncatedText :: "string \<Rightarrow> string option" where
  "truncatedText reason = (let r = take 500 reason in if r = [] then None else Some r)"

section \<open>Upload tasks\<close>

definition priceUploadChunkSize :: nat where "priceUploadChunkSize = 1000"

definition aggregateSchedulesForTask :: "repricer_env \<Rightarrow> uuid \<Rightarrow> uuid \<Rightarrow> repricer_db \<Rightarrow> repricer_db" where
  "aggregateSchedulesForTask env workspaceID taskUUID db =
     snd (exec_upd env (AggregatePriceSchedules workspaceID (Some taskUUID)) db)"

definition partialPriceGoodFailure :: "PriceTaskGood \<Rightarrow> string option" where
  "partialPriceGoodFailure g =
     (if tg_Status g = 3 then None
      else if tg_ErrorText g \<noteq> [] then Some (tg_ErrorText g)
      else Some (''WB item status '' @ fmt_d (tg_Status g)))"

definition resolvePartial ::
    "repricer_env \<Rightarrow> uuid \<Rightarrow> PriceUploadTask \<Rightarrow> repricer_db \<Rightarrow> (string + bool) \<times> repricer_db" where
  "resolvePartial env workspaceID task db =
     (case e_goods env (calls db) (tk_WbTaskID task) of
        Inl e \<Rightarrow> (Inl e, tick db)
      | Inr goods \<Rightarrow>
        if goods = [] then (Inl ''partial task returned no per-good results'', tick db)
        else
          let failed = filter (\<lambda>g. partialPriceGoodFailure g \<noteq> None) goods
          in case exec env (\<lambda>now _ d. FinalizePartialPriceUploadTask (tk_ID task) workspaceID (map tg_NmID failed)
                      (map (the \<circ> partialPriceGoodFailure) failed) now d) (tick db) of
               (None, db') \<Rightarrow> (Inl (e_dberr env), db')
             | (Some transitioned, db') \<Rightarrow> (Inr transitioned, db'))"

definition completeTask ::
    "repricer_env \<Rightarrow> uuid \<Rightarrow> uuid \<Rightarrow> string \<Rightarrow> string \<Rightarrow> string \<Rightarrow> repricer_db \<Rightarrow> bool \<times> repricer_db" where
  "completeTask env workspaceID taskUUID taskStatus changeStatus errText db =
     (case exec env (\<lambda>now _ d. FinalizePriceUploadTask taskUUID workspaceID taskStatus changeStatus (truncatedText errText) now d) db of
        (None, db') \<Rightarrow> (False, db')
      | (Some transitioned, db') \<Rightarrow> (transitioned, aggregateSchedulesForTask env workspaceID taskUUID db'))"

definition bumpPoll :: "repricer_env \<Rightarrow> uuid \<Rightarrow> PriceUploadTask \<Rightarrow> string \<Rightarrow> repricer_db \<Rightarrow> bool \<times> repricer_db" where
  "bumpPoll env workspaceID task reason db =
     (False, snd (exec_upd env (BumpPriceUploadTaskPoll (tk_ID task) workspaceID (tk_PollCount task)
        (truncatedText (take 500 reason))) db))"

record priceTaskTerminalResult =
  taskStatus :: string
  changeStatus :: string
  res_reason :: string

definition terminalPriceTaskResult :: "int \<Rightarrow> priceTaskTerminalResult option" where
  "terminalPriceTaskResult status =
     (if status = 3 then Some \<lparr>taskStatus = PriceTaskApplied, changeStatus = PriceStatusApplied, res_reason = []\<rparr>
      else if status = 4 then Some \<lparr>taskStatus = PriceTaskFailed, changeStatus = PriceStatusFailed, res_reason = ''canceled_by_wb''\<rparr>
      else if status = 6 then Some \<lparr>taskStatus = PriceTaskFailed, changeStatus = PriceStatusFailed, res_reason = ''all products failed''\<rparr>
      else None)"

definition pollOneTask :: "repricer_env \<Rightarrow> uuid \<Rightarrow> PriceUploadTask \<Rightarrow> repricer_db \<Rightarrow> bool \<times> repricer_db" where
  "pollOneTask env workspaceID task db =
     (case e_history env (calls db) (tk_WbTaskID task) of
        HistoryError e \<Rightarrow> bumpPoll env workspaceID task (''history poll: '' @ e) (tick db)
      | HistoryAbsent \<Rightarrow>
        (let db1 = tick db
         in case e_buffer env (calls db1) (tk_WbTaskID task) of
              HistoryError e \<Rightarrow> bumpPoll env workspaceID task (''buffer poll: '' @ e) (tick db1)
            | HistoryAbsent \<Rightarrow> bumpPoll env workspaceID task ''task absent from history and buffer'' (tick db1)
            | HistoryStatus _ \<Rightarrow> bumpPoll env workspaceID task [] (tick db1))
      | HistoryStatus status \<Rightarrow>
        (case terminalPriceTaskResult status of
           Some t \<Rightarrow> completeTask env workspaceID (tk_ID task) (taskStatus t) (changeStatus t) (res_reason t) (tick db)
         | None \<Rightarrow>
           if status = 5 then
             (case resolvePartial env workspaceID task (tick db) of
                (Inl e, db') \<Rightarrow> bumpPoll env workspaceID task (''resolve partial: '' @ e) db'
              | (Inr transitioned, db') \<Rightarrow> (transitioned, aggregateSchedulesForTask env workspaceID (tk_ID task) db'))
           else bumpPoll env workspaceID task (''non-terminal WB status '' @ fmt_d status) (tick db)))"

section \<open>Draining the queue\<close>

definition uploadClaimedChunk ::
    "repricer_env \<Rightarrow> uuid \<Rightarrow> uuid \<Rightarrow> PriceChangeRow list \<Rightarrow> repricer_db \<Rightarrow> (uuid \<times> errs) \<times> repricer_db" where
  "uploadClaimedChunk env workspaceID cabinetID claimed db =
     (let items = chunk_items claimed;
          changeIDs = map pc_ID (sort_key pc_WbProductID claimed);
          db1 = (tick db)\<lparr>wb_sent := wb_sent db @ [(cabinetID, items)]\<rparr>
      in case e_upload env (calls db) items of
           UploadUnknown e \<Rightarrow>
             (case exec_upd env (MarkSubmittingPriceChangesUnknown workspaceID changeIDs (truncatedText e)) db1 of
                (r, db2) \<Rightarrow> ((uuid_Nil, e # (if r = None then [e_dberr env] else [])), db2))
         | UploadRejected e \<Rightarrow>
             (case exec_upd env (FailSubmittingPriceChanges workspaceID changeIDs (truncatedText e)) db1 of
                (r, db2) \<Rightarrow> ((uuid_Nil, e # (if r = None then [e_dberr env] else [])), db2))
         | UploadAccepted wbTaskID duplicate \<Rightarrow>
             (case exec env (\<lambda>now u d. CreatePriceUploadTaskAndLinkChanges u now workspaceID cabinetID wbTaskID
                      PriceTaskUploaded (int (length items)) changeIDs d) db1 of
                (None, db2) \<Rightarrow> ((uuid_Nil, [''link accepted WB task '' @ fmt_d wbTaskID @ '': '' @ e_dberr env]), db2)
              | (Some (task, linked), db2) \<Rightarrow>
                if linked \<noteq> int (length changeIDs)
                then ((uuid_Nil, [''link accepted WB task '' @ fmt_d wbTaskID @ '': claimed '' @ fmt_d (int (length changeIDs)) @
                         '' changes, linked '' @ fmt_d linked]), db2)
                else if duplicate \<and> tk_Status task = PriceTaskFailed
                then ((tk_ID task, [''duplicate WB price task already failed'']),
                      aggregateSchedulesForTask env workspaceID (tk_ID task) db2)
                else if duplicate \<and> tk_Status task = PriceTaskPartial then
                  (case resolvePartial env workspaceID task db2 of
                     (Inl e, db3) \<Rightarrow> ((tk_ID task, [''reconcile duplicate partial task: '' @ e]), db3)
                   | (Inr _, db3) \<Rightarrow> ((tk_ID task, [''duplicate WB price task completed partially'']),
                                      aggregateSchedulesForTask env workspaceID (tk_ID task) db3))
                else ((tk_ID task, []), aggregateSchedulesForTask env workspaceID (tk_ID task) db2)))"

text \<open>
  One round of the drain loop claims a batch of unknown outcome, or else pending changes, and uploads it.
  \<open>None\<close> means that the loop ends without error because nothing is left to claim.
\<close>

definition drain_round ::
    "repricer_env \<Rightarrow> uuid \<Rightarrow> uuid \<Rightarrow> repricer_db \<Rightarrow> (uuid \<times> errs) option \<times> repricer_db" where
  "drain_round env workspaceID cabinetID db =
     (case exec env (\<lambda>now _ d. ClaimUnknownPriceChanges workspaceID cabinetID now d) db of
        (None, db1) \<Rightarrow> (Some (uuid_Nil, [e_dberr env]), db1)
      | (Some uncertain, db1) \<Rightarrow>
        if uncertain \<noteq> [] then
          (case uploadClaimedChunk env workspaceID cabinetID uncertain db1 of (r, db2) \<Rightarrow> (Some r, db2))
        else
          (case exec env (\<lambda>now u d. ClaimPendingPriceChanges workspaceID cabinetID priceUploadChunkSize now u d) db1 of
             (None, db2) \<Rightarrow> (Some (uuid_Nil, [e_dberr env]), db2)
           | (Some claimed, db2) \<Rightarrow>
             if claimed = [] then (None, db2)
             else (case uploadClaimedChunk env workspaceID cabinetID claimed db2 of (r, db3) \<Rightarrow> (Some r, db3))))"

text \<open>The number of changes that a round can still claim; every round that goes on lowers it.\<close>

definition waiting :: "repricer_db \<Rightarrow> nat" where
  "waiting db = length (filter (\<lambda>r. pc_WbStatus r = PriceStatusPending \<or> pc_WbStatus r = PriceStatusSubmitUnknown) (price_changes db))"

subsection \<open>The rounds end\<close>

lemma tick_simps [simp]: "price_changes (tick db) = price_changes db" "calls (tick db) = Suc (calls db)"
  "price_upload_tasks (tick db) = price_upload_tasks db" "price_schedule_entries (tick db) = price_schedule_entries db"
  by (simp_all add: tick_def)

lemma exec_cases:
  assumes "exec env stmt db = (r, db')"
  obtains (fault) "r = None" "db' = tick db"
  | (ran) x where "r = Some x" "stmt (e_now env (calls db)) (e_uuid env (calls db)) (tick db) = (x, db')"
  using assms by (auto simp: exec_def Let_def split: if_split_asm prod.split_asm)

abbreviation wait_row :: "PriceChangeRow \<Rightarrow> bool" where
  "wait_row r \<equiv> pc_WbStatus r = PriceStatusPending \<or> pc_WbStatus r = PriceStatusSubmitUnknown"

lemma filter_upd_le:
  assumes "\<And>r. \<lbrakk>r \<in> set rows; Q r; P (f r)\<rbrakk> \<Longrightarrow> P r"
  shows "length (filter P (upd_where Q f rows)) \<le> length (filter P rows)"
  using assms by (induction rows) (auto simp: upd_where_def)

lemma filter_upd_less:
  assumes "r \<in> set rows" "Q r" "P r" "\<And>r. \<lbrakk>r \<in> set rows; Q r\<rbrakk> \<Longrightarrow> \<not> P (f r)"
  shows "length (filter P (upd_where Q f rows)) < length (filter P rows)"
  using assms
proof (induction rows)
  case (Cons a rows)
  have le: "length (filter P (upd_where Q f rows)) \<le> length (filter P rows)"
    by (rule filter_upd_le) (use Cons.prems(4) in auto)
  show ?case
  proof (cases "a = r")
    case True
    then show ?thesis using Cons.prems le by (simp add: upd_where_def)
  next
    case False
    then have "length (filter P (upd_where Q f rows)) < length (filter P rows)" using Cons by simp
    then show ?thesis using Cons.prems(4) [of a] by (simp add: upd_where_def)
  qed
qed simp

lemma waiting_other: "price_changes db' = price_changes db \<Longrightarrow> waiting db' = waiting db"
  by (simp add: waiting_def)

lemma claim_unknown_waiting:
  assumes "ClaimUnknownPriceChanges ws cab now db = (claimed, db')" "claimed \<noteq> []"
  shows "waiting db' < waiting db"
proof -
  obtain b where db': "db' = reclaim now b db" and "candidate_batch ws cab db = Some b"
    and "claimed = rows_with_ids (map pc_ID (filter (\<lambda>r. in_batch b r \<and> uncertain_row r) (price_changes db))) db'"
    using assms by (auto simp: ClaimUnknownPriceChanges_def Let_def split: option.split_asm)
  then obtain r where r: "r \<in> set (price_changes db)" "in_batch b r \<and> uncertain_row r"
    using assms(2) by (auto simp: rows_with_ids_def filter_empty_conv)
  have "length (filter wait_row (upd_where (\<lambda>r. in_batch b r \<and> uncertain_row r)
      (\<lambda>r. r\<lparr>pc_WbStatus := PriceStatusSubmitting, pc_UpdatedAt := now\<rparr>) (price_changes db))) < length (filter wait_row (price_changes db))"
    by (rule filter_upd_less [OF r(1)]) (use r in \<open>simp_all add: uncertain_row_def price_status_defs\<close>)
  then show ?thesis by (simp add: waiting_def db' reclaim_def)
qed

lemma claim_unknown_waiting_le:
  assumes "ClaimUnknownPriceChanges ws cab now db = (claimed, db')"
  shows "waiting db' \<le> waiting db"
proof (cases "candidate_batch ws cab db")
  case None
  then show ?thesis using assms by (simp add: ClaimUnknownPriceChanges_def)
next
  case (Some b)
  then have "db' = reclaim now b db" using assms by (simp add: ClaimUnknownPriceChanges_def Let_def)
  then show ?thesis unfolding waiting_def reclaim_def
    by (simp, intro filter_upd_le) (simp add: price_status_defs)
qed

lemma claim_pending_waiting:
  assumes "ClaimPendingPriceChanges ws cab k now b db = (claimed, db')" "claimed \<noteq> []"
  shows "waiting db' < waiting db"
proof -
  let ?ids = "claim_candidates ws cab k db"
  have db': "db' = claim_ids now b ?ids db" and "claimed = rows_with_ids ?ids db'"
    using assms(1) by (auto simp: ClaimPendingPriceChanges_def Let_def)
  then have "?ids \<noteq> []" using assms(2) by (auto simp: rows_with_ids_def)
  then obtain i where i: "i \<in> set ?ids" by (cases ?ids) auto
  then obtain r where "r \<in> set (price_changes db)" "pc_ID r = i" "claimable db r"
    unfolding claim_candidates_def by (auto dest!: in_set_takeD)
  then have r: "r \<in> set (price_changes db)" "pc_ID r \<in> set ?ids \<and> pc_WbStatus r = PriceStatusPending"
    using i by (simp_all add: claimable_def)
  have "length (filter wait_row (upd_where (\<lambda>r. pc_ID r \<in> set ?ids \<and> pc_WbStatus r = PriceStatusPending)
      (claim_row now b) (price_changes db))) < length (filter wait_row (price_changes db))"
    by (rule filter_upd_less [OF r(1)]) (use r in \<open>simp_all add: claim_row_def price_status_defs\<close>)
  then show ?thesis by (simp add: waiting_def db' claim_ids_def)
qed

lemma linked_not_waiting: "linked_status s \<noteq> PriceStatusPending \<and> linked_status s \<noteq> PriceStatusSubmitUnknown"
  by (simp add: linked_status_def price_status_defs)

lemma link_waiting: "waiting (snd (CreatePriceUploadTaskAndLinkChanges i now ws cab w st n ids db)) \<le> waiting db"
proof -
  obtain task where l: "price_changes (snd (CreatePriceUploadTaskAndLinkChanges i now ws cab w st n ids db)) =
     price_changes (link_changes task ids now db)" using link_statement_changes by metis
  have "waiting (link_changes task ids now db) \<le> waiting db"
    unfolding waiting_def link_changes_def
    by (simp, rule filter_upd_le) (simp add: linked_not_waiting)
  then show ?thesis using l by (simp add: waiting_def)
qed

lemma aggregate_changes [simp]:
  "price_changes (aggregateSchedulesForTask env ws task db) = price_changes db"
  by (simp add: aggregateSchedulesForTask_def exec_upd_def exec_def AggregatePriceSchedules_def Let_def)

lemma upload_waiting:
  assumes "uploadClaimedChunk env ws cab claimed db = ((tid, []), db')"
  shows "waiting db' \<le> waiting db"
proof -
  let ?items = "chunk_items claimed" and ?ids = "map pc_ID (sort_key pc_WbProductID claimed)"
  let ?db1 = "(tick db)\<lparr>wb_sent := wb_sent db @ [(cab, ?items)]\<rparr>"
  obtain w dup where up: "e_upload env (calls db) ?items = UploadAccepted w dup"
    using assms by (cases "e_upload env (calls db) ?items") (auto simp: uploadClaimedChunk_def Let_def split: prod.split_asm)
  obtain r db2 where e: "exec env (\<lambda>now u d. CreatePriceUploadTaskAndLinkChanges u now ws cab w PriceTaskUploaded
      (int (length ?items)) ?ids d) ?db1 = (r, db2)" by (metis surj_pair)
  then have "waiting db2 \<le> waiting db"
  proof (cases rule: exec_cases)
    case fault
    then show ?thesis by (simp add: waiting_def)
  next
    case (ran x)
    then show ?thesis
      using link_waiting [of "e_uuid env (calls ?db1)" "e_now env (calls ?db1)" ws cab w PriceTaskUploaded "int (length ?items)" ?ids "tick ?db1"]
      by (simp add: waiting_def)
  qed
  moreover have "price_changes db' = price_changes db2"
    using assms unfolding uploadClaimedChunk_def Let_def up upload_answer.case e
    by (auto split: option.split_asm prod.split_asm sum.split_asm if_split_asm)
  ultimately show ?thesis by (simp add: waiting_def)
qed

lemma drain_round_waiting:
  assumes "drain_round env ws cab db = (Some (tid, []), db')"
  shows "waiting db' < waiting db"
proof -
  obtain r1 db1 where e1: "exec env (\<lambda>now _ d. ClaimUnknownPriceChanges ws cab now d) db = (r1, db1)" by (metis surj_pair)
  show ?thesis
  proof (cases "r1 = None \<or> r1 = Some []")
    case False
    then obtain u where u: "r1 = Some u" "u \<noteq> []" by auto
    with e1 have c: "ClaimUnknownPriceChanges ws cab (e_now env (calls db)) (tick db) = (u, db1)" by (auto elim!: exec_cases)
    have "uploadClaimedChunk env ws cab u db1 = ((tid, []), db')"
      using assms u by (simp add: drain_round_def e1 split: prod.split_asm)
    from upload_waiting [OF this] claim_unknown_waiting [OF c u(2)] show ?thesis by (simp add: waiting_def)
  next
    case True
    with assms e1 have r1: "r1 = Some []" by (auto simp: drain_round_def)
    with e1 have "ClaimUnknownPriceChanges ws cab (e_now env (calls db)) (tick db) = ([], db1)" by (auto elim!: exec_cases)
    then have le: "waiting db1 \<le> waiting db" using claim_unknown_waiting_le by (fastforce simp: waiting_def)
    obtain r2 db2 where e2: "exec env (\<lambda>now u d. ClaimPendingPriceChanges ws cab priceUploadChunkSize now u d) db1 = (r2, db2)"
      by (metis surj_pair)
    obtain c where c: "r2 = Some c" "c \<noteq> []" "uploadClaimedChunk env ws cab c db2 = ((tid, []), db')"
      using assms by (auto simp: drain_round_def e1 r1 e2 split: prod.split_asm option.split_asm if_split_asm)
    with e2 have "ClaimPendingPriceChanges ws cab priceUploadChunkSize (e_now env (calls db1)) (e_uuid env (calls db1)) (tick db1) = (c, db2)"
      by (auto elim!: exec_cases)
    from upload_waiting [OF c(3)] claim_pending_waiting [OF this c(2)] le show ?thesis by (simp add: waiting_def)
  qed
qed

text \<open>The loop of \<^verbatim>\<open>drainCabinetPriceChanges\<close>: rounds until nothing is claimed or one reports an error.\<close>

function drain_loop ::
    "repricer_env \<Rightarrow> uuid \<Rightarrow> uuid \<Rightarrow> uuid list \<Rightarrow> repricer_db \<Rightarrow> (uuid list \<times> errs) \<times> repricer_db" where
  "drain_loop env workspaceID cabinetID taskIDs db =
     (case drain_round env workspaceID cabinetID db of
        (None, db') \<Rightarrow> ((taskIDs, []), db')
      | (Some (taskID, err), db') \<Rightarrow>
        let taskIDs' = (if taskID \<noteq> uuid_Nil then taskIDs @ [taskID] else taskIDs)
        in if err \<noteq> [] then ((taskIDs', err), db') else drain_loop env workspaceID cabinetID taskIDs' db')"
  by pat_completeness auto
termination
  by (relation "measure (\<lambda>(env, ws, cab, ids, db). waiting db)") (auto dest: drain_round_waiting [OF sym])

declare drain_loop.simps [simp del]

definition MarketplaceWB :: string where "MarketplaceWB = ''wb''"

definition mustCabinetToken :: "repricer_env \<Rightarrow> uuid \<Rightarrow> repricer_db \<Rightarrow> string \<times> repricer_db" where
  "mustCabinetToken env cabinetID db =
     (case exec_read env (GetSellerCabinetByID cabinetID) db of
        (Some (Some c), db') \<Rightarrow> (if ca_Marketplace c \<noteq> MarketplaceWB then [] else ca_EncryptedToken c, db')
      | (_, db') \<Rightarrow> ([], db'))"

definition drainCabinetPriceChanges ::
    "repricer_env \<Rightarrow> uuid \<Rightarrow> uuid \<Rightarrow> repricer_db \<Rightarrow> (uuid list \<times> errs) \<times> repricer_db" where
  "drainCabinetPriceChanges env workspaceID cabinetID db =
     (if e_cooling env (calls db) cabinetID then (([], []), tick db)
      else
        let (blob, db1) = mustCabinetToken env cabinetID (tick db)
        in case e_decrypt env blob of
             Inl _ \<Rightarrow> (([], []), db1)
           | Inr token \<Rightarrow> drain_loop env workspaceID cabinetID [] db1)"

text \<open>\<^verbatim>\<open>fmt.Errorf\<close> with \<^verbatim>\<open>%w\<close>: the label goes before the first line of a joined error.\<close>

definition wrap_err :: "string \<Rightarrow> errs \<Rightarrow> errs" where
  "wrap_err label err = (case err of [] \<Rightarrow> [] | e # es \<Rightarrow> (label @ e) # es)"

primrec drain_cabinets ::
    "repricer_env \<Rightarrow> uuid \<Rightarrow> uuid list \<Rightarrow> repricer_db \<Rightarrow> (uuid list \<times> errs) \<times> repricer_db" where
  "drain_cabinets env workspaceID [] db = (([], []), db)"
| "drain_cabinets env workspaceID (cabinetID # rest) db =
     (let ((ids, err), db1) = drainCabinetPriceChanges env workspaceID cabinetID db;
          ((ids', err'), db2) = drain_cabinets env workspaceID rest db1
      in ((ids @ ids', wrap_err (''cabinet '' @ e_uuid_string env cabinetID @ '': '') err @ err'), db2))"

definition drainPendingPriceChanges :: "repricer_env \<Rightarrow> uuid \<Rightarrow> repricer_db \<Rightarrow> (uuid list \<times> errs) \<times> repricer_db" where
  "drainPendingPriceChanges env workspaceID db =
     (case exec_read env (ListClaimablePriceChangeCabinets workspaceID) db of
        (None, db') \<Rightarrow> (([], [e_dberr env]), db')
      | (Some cabinetIDs, db') \<Rightarrow> drain_cabinets env workspaceID cabinetIDs db')"

section \<open>Saving intents\<close>

definition enqueuePendingChange ::
    "repricer_env \<Rightarrow> uuid \<Rightarrow> priceChangeIntent \<Rightarrow> repricer_db \<Rightarrow> uuid option \<times> repricer_db" where
  "enqueuePendingChange env workspaceID it db =
     (case exec env (\<lambda>now u d. case EnqueuePriceChange now (pending_row u now workspaceID it) d of
                None \<Rightarrow> (None, d) | Some d' \<Rightarrow> (Some u, d')) db of
        (Some (Some u), db') \<Rightarrow> (Some u, db')
      | (_, db') \<Rightarrow> (None, db'))"

record applyIntentsResult =
  ar_Accepted :: int
  ar_Queued :: int
  ar_Failed :: int
  ar_ChangeIDs :: "uuid list"
  ar_TaskIDs :: "uuid list"

text \<open>The first loop of \<^verbatim>\<open>enqueueAndApplyIntents\<close>: the ids of the saved changes and the errors.\<close>

primrec enqueue_intents ::
    "repricer_env \<Rightarrow> uuid \<Rightarrow> priceChangeIntent list \<Rightarrow> repricer_db \<Rightarrow> (uuid list \<times> errs) \<times> repricer_db" where
  "enqueue_intents env workspaceID [] db = (([], []), db)"
| "enqueue_intents env workspaceID (it # its) db =
     (case checkQuarantineRisk it of
        Some e \<Rightarrow> (let ((ids, err), db') = enqueue_intents env workspaceID its db in ((ids, Message e # err), db'))
      | None \<Rightarrow>
        (case checkRaiseAnomaly it of
           Some e \<Rightarrow> (let ((ids, err), db') = enqueue_intents env workspaceID its db in ((ids, Message e # err), db'))
         | None \<Rightarrow>
           (case enqueuePendingChange env workspaceID it db of
              (None, db1) \<Rightarrow>
                (let ((ids, err), db') = enqueue_intents env workspaceID its db1
                 in ((ids, (''enqueue nmID '' @ fmt_d (NmID it) @ '': '' @ e_dberr env) # err), db'))
            | (Some u, db1) \<Rightarrow>
                (let ((ids, err), db') = enqueue_intents env workspaceID its db1 in ((u # ids, err), db')))))"

definition read_or :: "'a \<Rightarrow> string \<Rightarrow> repricer_env \<Rightarrow> (repricer_db \<Rightarrow> 'a) \<Rightarrow> repricer_db \<Rightarrow> ('a \<times> errs) \<times> repricer_db" where
  "read_or dflt label env q db =
     (case exec_read env q db of
        (None, db') \<Rightarrow> ((dflt, [label @ '': '' @ e_dberr env]), db')
      | (Some x, db') \<Rightarrow> ((x, []), db'))"

definition enqueueAndApplyIntents ::
    "repricer_env \<Rightarrow> uuid \<Rightarrow> priceChangeIntent list \<Rightarrow> repricer_db \<Rightarrow> (applyIntentsResult \<times> errs) \<times> repricer_db" where
  "enqueueAndApplyIntents env workspaceID intents db =
     (let ((changeIDs, errs1), db1) = enqueue_intents env workspaceID intents db
      in if changeIDs = []
         then ((\<lparr>ar_Accepted = 0, ar_Queued = 0, ar_Failed = 0, ar_ChangeIDs = [], ar_TaskIDs = []\<rparr>, errs1), db1)
         else
           let ids = remdups changeIDs;
               (agg, db2) = exec_upd env (AggregatePriceSchedules workspaceID None) db1;
               errs2 = (if agg = None then [''aggregate superseded price schedules: '' @ e_dberr env] else []);
               ((_, errs3), db3) = drainPendingPriceChanges env workspaceID db2;
               ((taskIDs, errs4), db4) = read_or [] ''list accepted price tasks'' env (ListPriceUploadTaskIDsForChanges workspaceID ids) db3;
               ((queued, errs5), db5) = read_or 0 ''count queued price changes'' env (CountPendingPriceChanges workspaceID ids) db4;
               ((failed, errs6), db6) = read_or 0 ''count failed price changes'' env (CountFailedPriceChanges workspaceID ids) db5
           in ((\<lparr>ar_Accepted = int (length changeIDs), ar_Queued = queued, ar_Failed = failed, ar_ChangeIDs = changeIDs,
                 ar_TaskIDs = taskIDs\<rparr>, errs1 @ errs2 @ errs3 @ errs4 @ errs5 @ errs6), db6))"

section \<open>Polling\<close>

text \<open>Instants are counted in microseconds, the resolution of the database.\<close>

definition repricerStateStaleAfter :: int where "repricerStateStaleAfter = 30 * 60 * 1000000"

definition poll_task :: "repricer_env \<Rightarrow> uuid \<Rightarrow> PriceUploadTask \<Rightarrow> repricer_db \<Rightarrow> bool \<times> repricer_db" where
  "poll_task env workspaceID task db =
     (let (blob, db1) = mustCabinetToken env (tk_SellerCabinetID task) db
      in case e_decrypt env blob of
           Inl e \<Rightarrow> bumpPoll env workspaceID task (''decrypt cabinet token: '' @ e) db1
         | Inr token \<Rightarrow> pollOneTask env workspaceID task db1)"

primrec poll_tasks :: "repricer_env \<Rightarrow> uuid \<Rightarrow> PriceUploadTask list \<Rightarrow> repricer_db \<Rightarrow> int \<times> repricer_db" where
  "poll_tasks env workspaceID [] db = (0, db)"
| "poll_tasks env workspaceID (t # ts) db =
     (let (fin, db1) = poll_task env workspaceID t db; (n, db2) = poll_tasks env workspaceID ts db1
      in ((if fin then 1 else 0) + n, db2))"

text \<open>
  \<^verbatim>\<open>RecoverStaleRepricerState\<close> runs two statements outside a transaction: when the first fails the second is
  not run.
\<close>

definition RecoverStaleRepricerState :: "repricer_env \<Rightarrow> uuid \<Rightarrow> int \<Rightarrow> repricer_db \<Rightarrow> repricer_db" where
  "RecoverStaleRepricerState env workspaceID staleBefore db =
     (case exec_upd env (recover_submitting workspaceID staleBefore) db of
        (None, db1) \<Rightarrow> db1
      | (Some _, db1) \<Rightarrow> snd (exec_upd env (recover_schedules workspaceID staleBefore) db1))"

definition PollUploadTasks :: "repricer_env \<Rightarrow> uuid \<Rightarrow> repricer_db \<Rightarrow> (int \<times> errs) \<times> repricer_db" where
  "PollUploadTasks env workspaceID db =
     (let staleBefore = e_now env (calls db) - repricerStateStaleAfter;
          db1 = RecoverStaleRepricerState env workspaceID staleBefore db;
          db2 = snd (exec_upd env (AggregatePriceSchedules workspaceID None) db1)
      in case exec_read env (ListPendingPriceUploadTasks workspaceID) db2 of
           (None, db3) \<Rightarrow> ((0, [e_dberr env]), db3)
         | (Some tasks, db3) \<Rightarrow>
           let (terminal, db4) = poll_tasks env workspaceID tasks db3; ((_, err), db5) = drainPendingPriceChanges env workspaceID db4
           in ((terminal, err), db5))"

section \<open>Operations are runs of statements\<close>

text \<open>
  The ids that are still to come have not been used as batch ids, and no two calls draw the same one. An
  operation \<open>runs\<close> from one database to another if, from a good start, it is a sequence of statements of
  \<open>Repricer_Store\<close> and ends in a good state again.
\<close>

definition ids_unused :: "repricer_env \<Rightarrow> repricer_db \<Rightarrow> bool" where
  "ids_unused env db \<longleftrightarrow> (\<forall>r \<in> set (price_changes db). \<forall>n \<ge> calls db. pc_SubmissionBatchID r \<noteq> Some (e_uuid env n))"

text \<open>What may be handed to the marketplace: one to a thousand lines with strictly increasing product ids.\<close>

definition upload_ok :: "PriceUpdateItem list \<Rightarrow> bool" where
  "upload_ok items \<longleftrightarrow> items \<noteq> [] \<and> length items \<le> 1000 \<and> sorted_wrt (<) (map ui_NmID items)"

text \<open>Every line that was handed over is the new price and discount of a change of that cabinet.\<close>

definition line_of :: "uuid \<Rightarrow> PriceChangeRow \<Rightarrow> PriceUpdateItem \<Rightarrow> bool" where
  "line_of cab r i \<longleftrightarrow> pc_SellerCabinetID r = cab \<and> \<not> recommended r \<and> pc_WbProductID r = ui_NmID i \<and>
     pc_NewPriceRub r = ui_Price i \<and> pc_NewDiscountPercent r = ui_Discount i"

definition lines_known :: "PriceChangeRow list \<Rightarrow> uuid \<Rightarrow> PriceUpdateItem list \<Rightarrow> bool" where
  "lines_known rows cab items \<longleftrightarrow> (\<forall>i \<in> set items. \<exists>r \<in> set rows. line_of cab r i)"

definition sent_ok :: "repricer_db \<Rightarrow> bool" where
  "sent_ok db \<longleftrightarrow> (\<forall>(cab, items) \<in> set (wb_sent db). upload_ok items \<and> lines_known (price_changes db) cab items)"

lemma advances_line: "\<lbrakk>advances r q; line_of cab r i\<rbrakk> \<Longrightarrow> line_of cab q i"
  by (simp add: advances_def same_identity_def line_of_def)

lemma steps_lines:
  assumes "sql_step\<^sup>*\<^sup>* db db'" "queue_wf db" "lines_known (price_changes db) cab items"
  shows "lines_known (price_changes db') cab items"
  using assms(3) steps_advance [OF assms(1,2)] advances_line unfolding lines_known_def by metis

lemma steps_sent:
  assumes "sql_step\<^sup>*\<^sup>* db db'" "queue_wf db" "sent_ok db" "wb_sent db' = wb_sent db"
  shows "sent_ok db'"
  using assms(3,4) steps_lines [OF assms(1,2)] unfolding sent_ok_def by auto

definition good :: "repricer_env \<Rightarrow> repricer_db \<Rightarrow> bool" where
  "good env db \<longleftrightarrow> queue_wf db \<and> batches_small (price_changes db) \<and> ids_unused env db \<and> inj (e_uuid env) \<and>
     sent_ok db \<and> vetted_rows (price_changes db)"

definition runs :: "repricer_env \<Rightarrow> repricer_db \<Rightarrow> repricer_db \<Rightarrow> bool" where
  "runs env db db' \<longleftrightarrow> (good env db \<longrightarrow> sql_step\<^sup>*\<^sup>* db db' \<and> good env db')"

lemma runs_refl [simp]: "runs env db db"
  by (simp add: runs_def)

lemma runs_trans: "\<lbrakk>runs env a b; runs env b c\<rbrakk> \<Longrightarrow> runs env a c"
  unfolding runs_def by (meson rtranclp_trans)

lemma runs_same:
  assumes "price_changes db' = price_changes db" "calls db \<le> calls db'" "sent_ok db \<Longrightarrow> sent_ok db'"
    "price_schedule_entries db' = price_schedule_entries db"
  shows "runs env db db'"
proof -
  have "sql_step db db'" by (rule sql_step.other) (simp_all add: assms(1,4))
  then show ?thesis using assms by (auto simp: runs_def good_def ids_unused_def queue_wf_def)
qed

lemma tick_sent [simp]: "wb_sent (tick db) = wb_sent db"
  by (simp add: tick_def)

lemma runs_tick [simp]: "runs env db (tick db)"
  by (rule runs_same) (simp_all add: sent_ok_def)

lemma runs_step:
  assumes "good env db \<Longrightarrow> sql_step (tick db) db'" "calls db' = Suc (calls db) \<and> wb_sent db' = wb_sent db"
    and "\<And>r. r \<in> set (price_changes db') \<Longrightarrow> pc_SubmissionBatchID r = None \<or>
           (\<exists>q \<in> set (price_changes db). pc_SubmissionBatchID q = pc_SubmissionBatchID r)"
  shows "runs env db db'"
  unfolding runs_def
proof (intro impI conjI)
  assume g: "good env db"
  have t: "sql_step db (tick db)" by (rule sql_step.other) simp_all
  with assms(1) [OF g] show st: "sql_step\<^sup>*\<^sup>* db db'" by (meson rtranclp.rtrancl_refl rtranclp.rtrancl_into_rtrancl)
  have "queue_wf db'" "batches_small (price_changes db')" "inj (e_uuid env)" "sent_ok db'" "vetted_rows (price_changes db')"
    using queue.inv_steps [OF st] steps_small [OF st] steps_sent [OF st] steps_vetted [OF st] g assms(2) by (simp_all add: good_def)
  moreover have "ids_unused env db'"
    unfolding ids_unused_def
  proof (intro ballI allI impI)
    fix r n assume r: "r \<in> set (price_changes db')" and n: "calls db' \<le> n"
    from n assms(2) have "calls db \<le> n" by simp
    with assms(3) [OF r] g show "pc_SubmissionBatchID r \<noteq> Some (e_uuid env n)"
      unfolding good_def ids_unused_def by (metis option.distinct(1))
  qed
  ultimately show "good env db'" by (simp add: good_def)
qed

abbreviation quiet :: "repricer_db \<Rightarrow> repricer_db \<Rightarrow> bool" where
  "quiet d d' \<equiv> calls d' = calls d \<and> wb_sent d' = wb_sent d"

lemma exec_read_runs: "runs env db (snd (exec_read env q db))"
  by (auto simp: exec_read_def exec_def Let_def)

lemma exec_upd_runs:
  assumes "\<And>now. sql_step (tick db) (f now (tick db))" "\<And>now d. quiet d (f now d)"
    and "\<And>now r. r \<in> set (price_changes (f now (tick db))) \<Longrightarrow> pc_SubmissionBatchID r = None \<or>
           (\<exists>q \<in> set (price_changes db). pc_SubmissionBatchID q = pc_SubmissionBatchID r)"
  shows "runs env db (snd (exec_upd env f db))"
proof (cases "e_fault env (calls db)")
  case True
  then show ?thesis by (simp add: exec_upd_def exec_def Let_def)
next
  case False
  then have "snd (exec_upd env f db) = f (e_now env (calls db)) (tick db)" by (simp add: exec_upd_def exec_def Let_def)
  then show ?thesis using assms by (intro runs_step) simp_all
qed

lemma upd_where_batches:
  assumes "\<And>r. pc_SubmissionBatchID (f r) = pc_SubmissionBatchID r" "r \<in> set (upd_where P f rows)"
  shows "\<exists>q \<in> set rows. pc_SubmissionBatchID q = pc_SubmissionBatchID r"
  using assms by (fastforce simp: upd_where_def)

lemma schedules_only_runs:
  assumes "\<And>now d. price_changes (f now d) = price_changes d" "\<And>now d. quiet d (f now d)"
    and "\<And>now d. schedules_kept (price_schedule_entries d) (price_schedule_entries (f now d))"
  shows "runs env db (snd (exec_upd env f db))"
  by (rule exec_upd_runs) (auto simp: assms(1,2) intro: sql_step.other assms)

lemma aggregate_all_runs: "runs env db (snd (exec_upd env (AggregatePriceSchedules ws t) db))"
  by (rule schedules_only_runs) (use schedule_statements_keep in \<open>simp_all add: AggregatePriceSchedules_def\<close>)

lemma aggregate_runs: "runs env db (aggregateSchedulesForTask env ws task db)"
  unfolding aggregateSchedulesForTask_def by (rule aggregate_all_runs)

lemma bumpPoll_runs: "runs env db (snd (bumpPoll env ws task reason db))"
  unfolding bumpPoll_def snd_conv by (rule schedules_only_runs) (simp_all add: BumpPriceUploadTaskPoll_def)

lemma apply_results_batches:
  "r \<in> set (price_changes (apply_results task result now db)) \<Longrightarrow>
     \<exists>q \<in> set (price_changes db). pc_SubmissionBatchID q = pc_SubmissionBatchID r"
  by (auto simp: apply_results_def Let_def)

lemma apply_results_calls [simp]: "quiet db (apply_results task result now db)"
  by (simp add: apply_results_def Let_def)

lemma finalize_calls:
  "quiet db (snd (FinalizePriceUploadTask task ws ts st err now db))"
  "quiet db (snd (FinalizePartialPriceUploadTask task ws nms reasons now db))"
  by (simp_all add: FinalizePriceUploadTask_def FinalizePartialPriceUploadTask_def close_task_def Let_def)

lemma exec_step_runs:
  assumes "exec env stmt db = (r, db')"
    and "\<And>now u x d. stmt now u (tick db) = (x, d) \<Longrightarrow> sql_step (tick db) d \<and> quiet (tick db) d"
    and "\<And>now u x d q. \<lbrakk>stmt now u (tick db) = (x, d); q \<in> set (price_changes d)\<rbrakk> \<Longrightarrow>
      pc_SubmissionBatchID q = None \<or> (\<exists>p \<in> set (price_changes db). pc_SubmissionBatchID p = pc_SubmissionBatchID q)"
  shows "runs env db db'"
  using assms(1)
proof (cases rule: exec_cases)
  case (ran x)
  show ?thesis using assms(2,3) [OF ran(2)] by (intro runs_step) auto
qed simp

lemma resolvePartial_runs: "runs env db (snd (resolvePartial env ws task db))"
proof (cases "e_goods env (calls db) (tk_WbTaskID task)")
  case (Inl e)
  then show ?thesis by (simp add: resolvePartial_def)
next
  case (Inr goods)
  let ?f = "filter (\<lambda>g. partialPriceGoodFailure g \<noteq> None) goods"
  let ?s = "\<lambda>now (_ :: uuid) d. FinalizePartialPriceUploadTask (tk_ID task) ws (map tg_NmID ?f) (map (the \<circ> partialPriceGoodFailure) ?f) now d"
  obtain r db' where e: "exec env ?s (tick db) = (r, db')" by (metis surj_pair)
  have "runs env (tick db) db'"
    using e
  proof (rule exec_step_runs)
    fix now u x d
    assume d: "?s now u (tick (tick db)) = (x, d)"
    then have "d = snd (FinalizePartialPriceUploadTask (tk_ID task) ws (map tg_NmID ?f) (map (the \<circ> partialPriceGoodFailure) ?f) now (tick (tick db)))"
      by simp
    then show "sql_step (tick (tick db)) d \<and> quiet (tick (tick db)) d"
      using sql_step.finalize_partial finalize_calls(2) by (simp only: simp_thms)
    fix q assume "q \<in> set (price_changes d)"
    then show "pc_SubmissionBatchID q = None \<or> (\<exists>p \<in> set (price_changes (tick db)). pc_SubmissionBatchID p = pc_SubmissionBatchID q)"
      using d by (auto simp: FinalizePartialPriceUploadTask_def close_task_def Let_def dest!: apply_results_batches split: if_split_asm)
  qed
  then have "runs env db db'" using runs_trans runs_tick by blast
  moreover have "snd (resolvePartial env ws task db) \<in> {tick db, db'}"
    unfolding resolvePartial_def Inr sum.case Let_def e by (simp split: option.split)
  ultimately show ?thesis using runs_tick by auto
qed

lemma completeTask_runs:
  assumes "st \<in> {PriceStatusApplied, PriceStatusFailed}"
  shows "runs env db (snd (completeTask env ws task ts st txt db))"
proof -
  let ?s = "\<lambda>now (_ :: uuid) d. FinalizePriceUploadTask task ws ts st (truncatedText txt) now d"
  obtain r db' where e: "exec env ?s db = (r, db')" by (metis surj_pair)
  have "runs env db db'"
    using e
  proof (rule exec_step_runs)
    fix now u x d
    assume d: "?s now u (tick db) = (x, d)"
    then have "d = snd (FinalizePriceUploadTask task ws ts st (truncatedText txt) now (tick db))" by simp
    then show "sql_step (tick db) d \<and> quiet (tick db) d"
      using sql_step.finalize [OF assms] finalize_calls(1) by (simp only: simp_thms)
    fix q assume "q \<in> set (price_changes d)"
    then show "pc_SubmissionBatchID q = None \<or> (\<exists>p \<in> set (price_changes db). pc_SubmissionBatchID p = pc_SubmissionBatchID q)"
      using d by (auto simp: FinalizePriceUploadTask_def close_task_def dest!: apply_results_batches split: if_split_asm)
  qed
  moreover from this have "runs env db (aggregateSchedulesForTask env ws task db')" using aggregate_runs runs_trans by blast
  moreover have "snd (completeTask env ws task ts st txt db) \<in> {db', aggregateSchedulesForTask env ws task db'}"
    by (simp add: completeTask_def e split: option.split)
  ultimately show ?thesis by auto
qed

lemma terminal_statuses: "terminalPriceTaskResult s = Some t \<Longrightarrow> changeStatus t \<in> {PriceStatusApplied, PriceStatusFailed}"
  by (auto simp: terminalPriceTaskResult_def split: if_split_asm)

lemma bump_after_tick: "runs env db (snd (bumpPoll env ws task reason (tick db)))"
  using bumpPoll_runs runs_tick runs_trans by blast

lemma pollOneTask_runs: "runs env db (snd (pollOneTask env ws task db))"
proof (cases "e_history env (calls db) (tk_WbTaskID task)")
  case (HistoryError e)
  then show ?thesis by (simp add: pollOneTask_def bump_after_tick)
next
  case HistoryAbsent
  have "runs env db (snd (bumpPoll env ws task reason (tick (tick db))))" for reason
    using bump_after_tick [of env "tick db"] runs_tick runs_trans by blast
  then show ?thesis by (simp add: pollOneTask_def HistoryAbsent Let_def split: history_answer.split)
next
  case (HistoryStatus status)
  show ?thesis
  proof (cases "terminalPriceTaskResult status")
    case (Some t)
    have "runs env db (snd (completeTask env ws (tk_ID task) (taskStatus t) (changeStatus t) (res_reason t) (tick db)))"
      using completeTask_runs [OF terminal_statuses [OF Some]] runs_tick runs_trans by blast
    then show ?thesis by (simp add: pollOneTask_def HistoryStatus Some)
  next
    case None
    obtain r db' where e: "resolvePartial env ws task (tick db) = (r, db')" by (metis surj_pair)
    then have "runs env db db'" using resolvePartial_runs [of env "tick db" ws task] runs_tick runs_trans by (metis snd_conv)
    then have "runs env db (snd (bumpPoll env ws task reason db'))" "runs env db (aggregateSchedulesForTask env ws (tk_ID task) db')" for reason
      using bumpPoll_runs aggregate_runs runs_trans by blast+
    then show ?thesis using bump_after_tick by (simp add: pollOneTask_def HistoryStatus None e split: sum.split)
  qed
qed

lemma claim_pending_submitting:
  assumes wf: "queue_wf db" and c: "ClaimPendingPriceChanges ws cab k now b db = (claimed, db')" "r \<in> set claimed"
  shows "pc_WbStatus r = PriceStatusSubmitting"
proof -
  let ?ids = "claim_candidates ws cab k db"
  have "db' = claim_ids now b ?ids db" "claimed = rows_with_ids ?ids db'"
    using c(1) by (auto simp: ClaimPendingPriceChanges_def Let_def)
  with c(2) obtain q where q: "q \<in> set (price_changes db)" "pc_ID r \<in> set ?ids"
    "r = (if pc_ID q \<in> set ?ids \<and> pc_WbStatus q = PriceStatusPending then claim_row now b q else q)"
    by (auto simp: rows_with_ids_def claim_ids_def upd_where_def)
  then have "pc_ID q \<in> set ?ids" by (auto simp: claim_row_def split: if_split_asm)
  with claim_candidates_sound [OF wf q(1)] have "pc_WbStatus q = PriceStatusPending" by (simp add: claimable_def)
  with q(3) \<open>pc_ID q \<in> set ?ids\<close> show ?thesis by (simp add: claim_row_def)
qed

lemma claim_unknown_submitting:
  assumes "ClaimUnknownPriceChanges ws cab now db = (claimed, db')" "queue_wf db" "r \<in> set claimed"
  shows "pc_WbStatus r = PriceStatusSubmitting"
proof -
  obtain b where b: "db' = reclaim now b db"
    "claimed = rows_with_ids (map pc_ID (filter (\<lambda>r. in_batch b r \<and> uncertain_row r) (price_changes db))) db'"
    using assms(1,3) by (auto simp: ClaimUnknownPriceChanges_def Let_def split: option.split_asm)
  have w: "rows_wf (price_changes db)" using assms(2) by (simp add: queue_wf_def)
  let ?U = "\<lambda>r. in_batch b r \<and> uncertain_row r"
  from assms(3) b obtain q where q: "q \<in> set (price_changes db)" "pc_ID r \<in> set (map pc_ID (filter ?U (price_changes db)))"
    "r = (if ?U q then q\<lparr>pc_WbStatus := PriceStatusSubmitting, pc_UpdatedAt := now\<rparr> else q)"
    by (auto simp: rows_with_ids_def reclaim_def upd_where_def)
  have "pc_ID r = pc_ID q" using q(3) by simp
  with q(1,2) id_in_filter [OF w q(1), of ?U] have "?U q" by (simp only:)
  with q(3) show ?thesis by simp
qed

lemma claim_pending_cabinet:
  assumes wf: "queue_wf db" and c: "ClaimPendingPriceChanges ws cab k now b db = (claimed, db')" "r \<in> set claimed"
  shows "pc_SellerCabinetID r = cab"
proof -
  let ?ids = "claim_candidates ws cab k db"
  have "db' = claim_ids now b ?ids db" "claimed = rows_with_ids ?ids db'"
    using c(1) by (auto simp: ClaimPendingPriceChanges_def Let_def)
  with c(2) obtain q where q: "q \<in> set (price_changes db)" "pc_ID q \<in> set ?ids" "pc_SellerCabinetID r = pc_SellerCabinetID q"
    by (auto simp: rows_with_ids_def claim_ids_def upd_where_def claim_row_def split: if_split_asm)
  then show ?thesis using claim_candidates_sound [OF wf q(1,2)] by simp
qed

lemma candidate_batch_row:
  assumes "candidate_batch ws cab db = Some b"
  shows "\<exists>u \<in> set (price_changes db). in_batch b u \<and> pc_SellerCabinetID u = cab"
proof -
  obtain u us where s: "sort_key pc_UpdatedAt (filter (\<lambda>r. pc_WorkspaceID r = ws \<and> pc_SellerCabinetID r = cab \<and>
           uncertain_row r \<and> pc_SubmissionBatchID r \<noteq> None) (price_changes db)) = u # us" "pc_SubmissionBatchID u = Some b"
    using assms unfolding candidate_batch_def by (auto split: list.split_asm)
  from sort_key_hd [OF s(1)] s(2) show ?thesis by (intro bexI [of _ u]) (auto simp: in_batch_def)
qed

lemma claim_unknown_cabinet:
  assumes "ClaimUnknownPriceChanges ws cab now db = (claimed, db')" "queue_wf db" "r \<in> set claimed"
  shows "pc_SellerCabinetID r = cab"
proof -
  let ?U = "\<lambda>b r. in_batch b r \<and> uncertain_row r"
  obtain b where b: "candidate_batch ws cab db = Some b" "db' = reclaim now b db"
    "claimed = rows_with_ids (map pc_ID (filter (?U b) (price_changes db))) db'"
    using assms(1,3) by (auto simp: ClaimUnknownPriceChanges_def Let_def split: option.split_asm)
  have w: "rows_wf (price_changes db)" using assms(2) by (simp add: queue_wf_def)
  obtain u where u: "u \<in> set (price_changes db)" "in_batch b u" "pc_SellerCabinetID u = cab"
    using candidate_batch_row [OF b(1)] by blast
  from assms(3) b(2,3) obtain q where q: "q \<in> set (price_changes db)" "pc_ID r \<in> set (map pc_ID (filter (?U b) (price_changes db)))"
    "pc_ID r = pc_ID q" "pc_SellerCabinetID r = pc_SellerCabinetID q"
    by (auto simp: rows_with_ids_def reclaim_def upd_where_def split: if_split_asm)
  with id_in_filter [OF w q(1), of "?U b"] have "in_batch b q" by (simp only:)
  then show ?thesis using rows_wfD(2) [OF w q(1) u(1)] u(2,3) q(4) by (simp add: batch_ok_def in_batch_def)
qed

lemma chunk_upload_ok:
  assumes g: "good env db" and c: "claimed = filter (in_batch b) (price_changes db)" "claimed \<noteq> []"
    and sub: "\<And>r. r \<in> set claimed \<Longrightarrow> pc_WbStatus r = PriceStatusSubmitting"
  shows "upload_ok (chunk_items claimed)"
proof -
  have w: "rows_wf (price_changes db)" and small: "batches_small (price_changes db)"
    using g by (simp_all add: good_def queue_wf_def)
  have "inj_on pc_WbProductID (set claimed)"
  proof (rule inj_onI)
    fix x y assume xy: "x \<in> set claimed" "y \<in> set claimed" "pc_WbProductID x = pc_WbProductID y"
    then have m: "x \<in> set (price_changes db)" "y \<in> set (price_changes db)" "in_batch b x" "in_batch b y" by (simp_all add: c(1))
    have "pc_SellerCabinetID x = pc_SellerCabinetID y"
      using rows_wfD(2) [OF w m(1,2)] m(3,4) by (simp add: batch_ok_def in_batch_def)
    moreover have "in_transport x" "in_transport y" using sub xy(1,2) by (simp_all add: in_transport_def transport_statuses_def)
    ultimately have "pc_ID x = pc_ID y" using rows_wfD(4) [OF w m(1,2)] xy(3) by blast
    then show "x = y" by (rule rows_wfD(5) [OF w m(1,2)])
  qed
  moreover have "distinct claimed"
    using w unfolding c(1) rows_wf_def by (simp add: distinct_map)
  ultimately have "distinct (map pc_WbProductID (sort_key pc_WbProductID claimed))" by (simp add: distinct_map)
  moreover have "map ui_NmID (chunk_items claimed) = map pc_WbProductID (sort_key pc_WbProductID claimed)"
    by (simp add: chunk_items_def)
  ultimately have "sorted_wrt (<) (map ui_NmID (chunk_items claimed))"
    using sorted_sort_key [of pc_WbProductID claimed] by (simp add: strict_sorted_iff)
  moreover have "length (chunk_items claimed) \<le> 1000"
    using small by (simp add: chunk_items_def c(1) batches_small_def)
  moreover have "chunk_items claimed \<noteq> []" using c(2) by (simp add: chunk_items_def) (metis length_0_conv length_sort)
  ultimately show ?thesis by (simp add: upload_ok_def)
qed

lemma settle_batches:
  "r \<in> set (price_changes (settle_submitting st ws ids reason now d)) \<Longrightarrow>
     \<exists>q \<in> set (price_changes d). pc_SubmissionBatchID q = pc_SubmissionBatchID r"
  by (simp add: settle_submitting_def) (rule upd_where_batches, simp_all)

lemma link_batches:
  assumes "r \<in> set (price_changes (snd (CreatePriceUploadTaskAndLinkChanges i now ws cab w st n ids d)))"
  shows "\<exists>q \<in> set (price_changes d). pc_SubmissionBatchID q = pc_SubmissionBatchID r"
proof -
  obtain task where "price_changes (snd (CreatePriceUploadTaskAndLinkChanges i now ws cab w st n ids d)) =
     price_changes (link_changes task ids now d)" using link_statement_changes by metis
  then show ?thesis using assms by (simp add: link_changes_def) (rule upd_where_batches, simp_all)
qed

lemma link_quiet: "quiet d (snd (CreatePriceUploadTaskAndLinkChanges i now ws cab w st n ids d))"
proof -
  obtain task db1 where u: "upsert_task i now ws cab w st n d = (task, db1)" by (metis surj_pair)
  then have "quiet d db1" by (auto simp: upsert_task_def Let_def split: option.split_asm)
  then show ?thesis by (simp add: CreatePriceUploadTaskAndLinkChanges_def u attach_task_def link_changes_def Let_def)
qed

lemma uploadClaimedChunk_runs:
  assumes g: "good env db" and c: "claimed = filter (in_batch b) (price_changes db)" "claimed \<noteq> []"
    and sub: "\<And>r. r \<in> set claimed \<Longrightarrow> pc_WbStatus r = PriceStatusSubmitting" and own: "\<And>r. r \<in> set claimed \<Longrightarrow> pc_SellerCabinetID r = cab"
  shows "runs env db (snd (uploadClaimedChunk env ws cab claimed db))"
proof -
  let ?items = "chunk_items claimed" and ?ids = "map pc_ID (sort_key pc_WbProductID claimed)"
  define db1 where "db1 = (tick db)\<lparr>wb_sent := wb_sent db @ [(cab, ?items)]\<rparr>"
  have known: "lines_known (price_changes db) cab ?items"
    using sub own by (fastforce simp: lines_known_def line_of_def chunk_items_def c(1))
  have r1: "runs env db db1"
    by (rule runs_same) (use chunk_upload_ok [OF g c sub] known in \<open>auto simp: db1_def sent_ok_def\<close>)
  have pc1: "price_changes db1 = price_changes db" by (simp add: db1_def)
  have ids: "set ?ids = set (batch_ids b (price_changes (tick db1)))"
    by (simp add: pc1 batch_ids_def c(1))
  have settle: "runs env db1 (snd (exec_upd env (settle_submitting st ws ?ids reason) db1))"
    if "st = PriceStatusFailed \<or> st = PriceStatusSubmitUnknown" for st reason
  proof (rule exec_upd_runs)
    show "sql_step (tick db1) (settle_submitting st ws ?ids reason now (tick db1))" for now
      by (rule sql_step.settle [OF ids that])
    show "quiet d (settle_submitting st ws ?ids reason now d)" for now d by (simp add: settle_submitting_def)
    show "pc_SubmissionBatchID r = None \<or> (\<exists>q \<in> set (price_changes db1). pc_SubmissionBatchID q = pc_SubmissionBatchID r)"
      if "r \<in> set (price_changes (settle_submitting st ws ?ids reason now (tick db1)))" for now r
      using settle_batches [OF that] by simp
  qed
  show ?thesis
  proof (cases "e_upload env (calls db) ?items")
    case (UploadUnknown e)
    then show ?thesis using settle [of PriceStatusSubmitUnknown] runs_trans [OF r1]
      by (simp add: uploadClaimedChunk_def db1_def [symmetric] MarkSubmittingPriceChangesUnknown_def Let_def split: prod.split)
        (metis snd_conv)
  next
    case (UploadRejected e)
    then show ?thesis using settle [of PriceStatusFailed] runs_trans [OF r1]
      by (simp add: uploadClaimedChunk_def db1_def [symmetric] FailSubmittingPriceChanges_def Let_def split: prod.split)
        (metis snd_conv)
  next
    case (UploadAccepted w dup)
    let ?s = "\<lambda>now u d. CreatePriceUploadTaskAndLinkChanges u now ws cab w PriceTaskUploaded (int (length ?items)) ?ids d"
    obtain r db2 where e: "exec env ?s db1 = (r, db2)" by (metis surj_pair)
    have "runs env db1 db2"
      using e
    proof (rule exec_step_runs)
      fix now u x d
      assume d: "?s now u (tick db1) = (x, d)"
      then have d': "d = snd (CreatePriceUploadTaskAndLinkChanges u now ws cab w PriceTaskUploaded (int (length ?items)) ?ids (tick db1))" by simp
      show "sql_step (tick db1) d \<and> quiet (tick db1) d"
        unfolding d' using sql_step.link [OF ids] link_quiet by blast
      fix q assume "q \<in> set (price_changes d)"
      then show "pc_SubmissionBatchID q = None \<or> (\<exists>p \<in> set (price_changes db1). pc_SubmissionBatchID p = pc_SubmissionBatchID q)"
        unfolding d' using link_batches by fastforce
    qed
    then have r2: "runs env db db2" using r1 runs_trans by blast
    have agg: "runs env db (aggregateSchedulesForTask env ws task db2)" for task using r2 aggregate_runs runs_trans by blast
    show ?thesis
    proof (cases r)
      case None
      then show ?thesis
        unfolding uploadClaimedChunk_def Let_def db1_def [symmetric] UploadAccepted upload_answer.case e by (simp add: r2)
    next
      case (Some tl)
      obtain task linked where tl: "tl = (task, linked)" by (cases tl)
      obtain rp db3 where rp: "resolvePartial env ws task db2 = (rp, db3)" by (metis surj_pair)
      then have r3: "runs env db db3" using resolvePartial_runs [of env db2 ws task] runs_trans [OF r2] by simp
      then have "runs env db (aggregateSchedulesForTask env ws (tk_ID task) db3)" using aggregate_runs runs_trans by blast
      then show ?thesis
        unfolding uploadClaimedChunk_def Let_def db1_def [symmetric] UploadAccepted upload_answer.case e Some tl
        using r2 agg r3 by (simp add: rp split: sum.split)
    qed
  qed
qed

lemma claim_pending_runs:
  assumes g: "good env db" and c: "ClaimPendingPriceChanges ws cab priceUploadChunkSize now (e_uuid env (calls db)) (tick db) = (claimed, db')"
  shows "sql_step\<^sup>*\<^sup>* db db'" "good env db'" "claimed = filter (in_batch (e_uuid env (calls db))) (price_changes db')"
proof -
  let ?b = "e_uuid env (calls db)" and ?ids = "claim_candidates ws cab priceUploadChunkSize (tick db)"
  have gt: "good env (tick db)" using runs_tick [of env db] g by (simp add: runs_def)
  have wf: "queue_wf (tick db)" using gt by (simp add: good_def)
  have fresh: "pc_SubmissionBatchID r \<noteq> Some ?b" if "r \<in> set (price_changes (tick db))" for r
    using g that by (simp add: good_def ids_unused_def)
  note w = claim_pending_whole_batch [OF wf fresh c]
  then show "claimed = filter (in_batch ?b) (price_changes db')" by (simp add: priceUploadChunkSize_def)
  have st: "sql_step (tick db) db'" using w by (simp add: priceUploadChunkSize_def)
  have "sql_step db (tick db)" by (rule sql_step.other) simp_all
  with st show steps: "sql_step\<^sup>*\<^sup>* db db'" by (meson rtranclp.rtrancl_refl rtranclp.rtrancl_into_rtrancl)
  have db': "db' = claim_ids now ?b ?ids (tick db)" using c by (auto simp: ClaimPendingPriceChanges_def Let_def)
  have "ids_unused env db'"
    unfolding ids_unused_def
  proof (intro ballI allI impI)
    fix r n assume r: "r \<in> set (price_changes db')" and n: "calls db' \<le> n"
    have n': "calls db < n" using n by (simp add: db' claim_ids_def)
    from r obtain q where q: "q \<in> set (price_changes db)" "pc_SubmissionBatchID r = pc_SubmissionBatchID q \<or> pc_SubmissionBatchID r = Some ?b"
      by (auto simp: db' claim_ids_def upd_where_def claim_row_def)
    have "?b \<noteq> e_uuid env n" using g n' by (simp add: good_def inj_eq)
    moreover have "pc_SubmissionBatchID q \<noteq> Some (e_uuid env n)" using g q(1) n' by (simp add: good_def ids_unused_def)
    ultimately show "pc_SubmissionBatchID r \<noteq> Some (e_uuid env n)" using q(2) by auto
  qed
  moreover have "wb_sent db' = wb_sent db" by (simp add: db' claim_ids_def)
  ultimately show "good env db'"
    using g queue.inv_steps [OF steps] steps_small [OF steps] steps_sent [OF steps] steps_vetted [OF steps] by (simp add: good_def)
qed

lemma reclaim_runs: "runs env db (reclaim now b (tick db))"
proof (rule runs_step)
  show "sql_step (tick db) (reclaim now b (tick db))" by (rule sql_step.reclaim)
  show "calls (reclaim now b (tick db)) = Suc (calls db) \<and> wb_sent (reclaim now b (tick db)) = wb_sent db"
    by (simp add: reclaim_def)
  show "pc_SubmissionBatchID r = None \<or> (\<exists>q \<in> set (price_changes db). pc_SubmissionBatchID q = pc_SubmissionBatchID r)"
    if "r \<in> set (price_changes (reclaim now b (tick db)))" for r
    using that by (simp add: reclaim_def) (rule disjI2, rule upd_where_batches, simp_all)
qed

lemma claim_unknown_runs:
  assumes "good env db" "ClaimUnknownPriceChanges ws cab now (tick db) = (claimed, db')"
  shows "runs env db db'" "claimed \<noteq> [] \<Longrightarrow> \<exists>b. claimed = filter (in_batch b) (price_changes db')"
proof -
  have wf: "queue_wf (tick db)" using assms(1) by (simp add: good_def queue_wf_def)
  from claim_unknown_whole_batch [OF wf assms(2)]
  show "runs env db db'" "claimed \<noteq> [] \<Longrightarrow> \<exists>b. claimed = filter (in_batch b) (price_changes db')"
    using reclaim_runs [of env db now] by auto
qed

lemma drain_round_runs: "runs env db (snd (drain_round env ws cab db))"
  unfolding runs_def
proof
  assume g: "good env db"
  have trans: "sql_step\<^sup>*\<^sup>* db c \<and> good env c" if "sql_step\<^sup>*\<^sup>* db b" "good env b" "runs env b c" for b c
    using that by (meson runs_def rtranclp_trans)
  obtain r1 db1 where e1: "exec env (\<lambda>now _ d. ClaimUnknownPriceChanges ws cab now d) db = (r1, db1)" by (metis surj_pair)
  have run1: "runs env db db1"
    using e1 by (cases rule: exec_cases) (use claim_unknown_runs(1) [OF g] in auto)
  then have s1: "sql_step\<^sup>*\<^sup>* db db1" "good env db1" using g by (simp_all add: runs_def)
  show "sql_step\<^sup>*\<^sup>* db (snd (drain_round env ws cab db)) \<and> good env (snd (drain_round env ws cab db))"
  proof (cases "r1 = None \<or> r1 = Some []")
    case False
    then obtain u where u: "r1 = Some u" "u \<noteq> []" by auto
    with e1 have c: "ClaimUnknownPriceChanges ws cab (e_now env (calls db)) (tick db) = (u, db1)" by (auto elim!: exec_cases)
    from claim_unknown_runs(2) [OF g c u(2)] obtain b where b: "u = filter (in_batch b) (price_changes db1)" by blast
    have "queue_wf (tick db)" using g by (simp add: good_def queue_wf_def)
    then have "pc_WbStatus r = PriceStatusSubmitting" if "r \<in> set u" for r using claim_unknown_submitting [OF c] that by blast
    moreover have "pc_SellerCabinetID r = cab" if "r \<in> set u" for r
      using claim_unknown_cabinet [OF c \<open>queue_wf (tick db)\<close> that] .
    ultimately have "runs env db1 (snd (uploadClaimedChunk env ws cab u db1))"
      by (rule uploadClaimedChunk_runs [OF s1(2) b u(2)])
    moreover have "snd (drain_round env ws cab db) = snd (uploadClaimedChunk env ws cab u db1)"
      by (simp add: drain_round_def e1 u split: prod.split)
    ultimately show ?thesis using trans [OF s1] by simp
  next
    case True
    obtain r2 db2 where e2: "exec env (\<lambda>now u d. ClaimPendingPriceChanges ws cab priceUploadChunkSize now u d) db1 = (r2, db2)"
      by (metis surj_pair)
    have s2: "sql_step\<^sup>*\<^sup>* db1 db2 \<and> good env db2"
      using e2
    proof (cases rule: exec_cases)
      case fault
      then show ?thesis using s1(2) runs_tick [of env db1] by (simp add: runs_def)
    next
      case (ran x)
      then show ?thesis using claim_pending_runs [OF s1(2)] by blast
    qed
    then have s2': "sql_step\<^sup>*\<^sup>* db db2" "good env db2" using s1(1) by auto
    show ?thesis
    proof (cases "r1 = None \<or> r2 = None \<or> r2 = Some []")
      case stop: True
      then have "snd (drain_round env ws cab db) \<in> {db1, db2}" using True by (auto simp: drain_round_def e1 e2)
      then show ?thesis using s1 s2' by auto
    next
      case False
      then obtain c where c: "r1 = Some []" "r2 = Some c" "c \<noteq> []" using True by auto
      with e2 have cl: "ClaimPendingPriceChanges ws cab priceUploadChunkSize (e_now env (calls db1)) (e_uuid env (calls db1)) (tick db1) = (c, db2)"
        by (auto elim!: exec_cases)
      have "queue_wf (tick db1)" using s1(2) by (simp add: good_def queue_wf_def)
      then have "pc_WbStatus r = PriceStatusSubmitting" if "r \<in> set c" for r using claim_pending_submitting [OF _ cl that] by blast
      moreover have "pc_SellerCabinetID r = cab" if "r \<in> set c" for r
        using claim_pending_cabinet [OF \<open>queue_wf (tick db1)\<close> cl that] .
      ultimately have "runs env db2 (snd (uploadClaimedChunk env ws cab c db2))"
        by (rule uploadClaimedChunk_runs [OF s2'(2) claim_pending_runs(3) [OF s1(2) cl] c(3)])
      moreover have "snd (drain_round env ws cab db) = snd (uploadClaimedChunk env ws cab c db2)"
        using c by (simp add: drain_round_def e1 e2 split: prod.split)
      ultimately show ?thesis using trans [OF s2'] by simp
    qed
  qed
qed

lemma drain_loop_runs: "runs env db (snd (drain_loop env ws cab ids db))"
proof (induction env ws cab ids db rule: drain_loop.induct)
  case (1 env ws cab ids db)
  obtain r db' where d: "drain_round env ws cab db = (r, db')" by (metis surj_pair)
  have run: "runs env db db'" using drain_round_runs [of env db ws cab] d by simp
  show ?case
  proof (cases r)
    case None
    then show ?thesis using run by (subst drain_loop.simps) (simp add: d)
  next
    case (Some te)
    obtain t e where te: "te = (t, e)" by (cases te)
    show ?thesis
    proof (cases "e = []")
      case True
      have "runs env db' (snd (drain_loop env ws cab (if t \<noteq> uuid_Nil then ids @ [t] else ids) db'))"
        using 1 [OF d [symmetric] Some te [symmetric] refl] True by simp
      then show ?thesis using run True Some te by (subst drain_loop.simps) (auto simp: d Let_def intro: runs_trans)
    next
      case False
      then show ?thesis using run Some te by (subst drain_loop.simps) (simp add: d Let_def)
    qed
  qed
qed

lemma mustCabinetToken_runs: "runs env db (snd (mustCabinetToken env cab db))"
proof -
  have "snd (mustCabinetToken env cab db) = snd (exec_read env (GetSellerCabinetByID cab) db)"
    by (simp add: mustCabinetToken_def split: prod.split option.split)
  then show ?thesis by (simp add: exec_read_runs)
qed

lemma drainCabinet_runs: "runs env db (snd (drainCabinetPriceChanges env ws cab db))"
proof (cases "e_cooling env (calls db) cab")
  case False
  obtain blob db1 where t: "mustCabinetToken env cab (tick db) = (blob, db1)" by (metis surj_pair)
  have r1: "runs env db db1" using mustCabinetToken_runs [of env "tick db" cab] runs_trans [OF runs_tick] t by simp
  then have "runs env db (snd (drain_loop env ws cab [] db1))" using drain_loop_runs runs_trans by blast
  then show ?thesis using False r1 by (simp add: drainCabinetPriceChanges_def t split: sum.split)
qed (simp add: drainCabinetPriceChanges_def)

lemma drain_cabinets_runs: "runs env db (snd (drain_cabinets env ws cabs db))"
proof (induction cabs arbitrary: db)
  case (Cons cab cabs)
  obtain r db1 where d: "drainCabinetPriceChanges env ws cab db = (r, db1)" by (metis surj_pair)
  have "runs env db db1" using drainCabinet_runs [of env db ws cab] d by simp
  with Cons [of db1] have "runs env db (snd (drain_cabinets env ws cabs db1))" using runs_trans by blast
  then show ?case by (simp add: d case_prod_beta)
qed simp

lemma drainPending_runs: "runs env db (snd (drainPendingPriceChanges env ws db))"
proof -
  obtain r db1 where e: "exec_read env (ListClaimablePriceChangeCabinets ws) db = (r, db1)" by (metis surj_pair)
  have "runs env db db1" using exec_read_runs [of env db "ListClaimablePriceChangeCabinets ws"] e by simp
  then show ?thesis
    using drain_cabinets_runs [of env db1 ws] runs_trans by (cases r) (auto simp: drainPendingPriceChanges_def e)
qed

text \<open>A rollback may only be saved while its original is applied.\<close>

abbreviation rollback_target :: "repricer_db \<Rightarrow> priceChangeIntent \<Rightarrow> bool" where
  "rollback_target db it \<equiv> \<forall>orig. RollbackOf it = Some orig \<longrightarrow> (\<exists>b \<in> set (price_changes db). pc_ID b = orig \<and> landed b)"

lemma enqueuePendingChange_runs:
  assumes "rollback_target db it" and checks: "checkQuarantineRisk it = None" "checkRaiseAnomaly it = None"
  shows "runs env db (snd (enqueuePendingChange env ws it db))"
proof -
  let ?s = "\<lambda>now u d. case EnqueuePriceChange now (pending_row u now ws it) d of None \<Rightarrow> (None, d) | Some d' \<Rightarrow> (Some u, d')"
  obtain r db' where e: "exec env ?s db = (r, db')" by (cases "exec env ?s db") blast
  have "runs env db db'"
    using e
  proof (cases rule: exec_cases)
    case (ran x)
    let ?now = "e_now env (calls db)" and ?u = "e_uuid env (calls db)"
    show ?thesis
    proof (cases "EnqueuePriceChange ?now (pending_row ?u ?now ws it) (tick db)")
      case None
      then have "db' = tick db" using ran(2) by simp
      then show ?thesis using runs_tick by simp
    next
      case (Some d)
      then have db': "db' = d" using ran(2) by simp
      have rows: "d = (tick db)\<lparr>price_changes := upd_where (\<lambda>r. same_good r (pending_row ?u ?now ws it) \<and> pc_WbStatus r = PriceStatusPending)
          (supersede ?now) (price_changes db) @ [pending_row ?u ?now ws it]\<rparr>"
        using Some by (auto simp: EnqueuePriceChange_def split: if_split_asm)
      show ?thesis unfolding db'
      proof (rule runs_step)
        show "sql_step (tick db) d" using assms(1) by (intro sql_step.enqueue [OF Some _ checks]) auto
        show "calls d = Suc (calls db) \<and> wb_sent d = wb_sent db" by (simp add: rows)
        fix q assume "q \<in> set (price_changes d)"
        then consider "q = pending_row ?u ?now ws it"
          | "q \<in> set (upd_where (\<lambda>r. same_good r (pending_row ?u ?now ws it) \<and> pc_WbStatus r = PriceStatusPending) (supersede ?now) (price_changes db))"
          by (auto simp: rows)
        then show "pc_SubmissionBatchID q = None \<or> (\<exists>p \<in> set (price_changes db). pc_SubmissionBatchID p = pc_SubmissionBatchID q)"
        proof cases
          case 2
          then show ?thesis by (intro disjI2 upd_where_batches [where f = "supersede ?now"]) (simp_all add: supersede_def)
        qed (simp add: pending_row_def)
      qed
    qed
  qed simp
  moreover have "snd (enqueuePendingChange env ws it db) = db'"
    by (simp add: enqueuePendingChange_def e split: option.split)
  ultimately show ?thesis by simp
qed

lemma enqueue_intents_runs:
  assumes "(\<forall>it \<in> set its. RollbackOf it = None) \<or> (\<exists>it. its = [it] \<and> rollback_target db it)"
  shows "runs env db (snd (enqueue_intents env ws its db))"
  using assms
proof (induction its arbitrary: db)
  case (Cons it its)
  have rest: "runs env d (snd (enqueue_intents env ws its d))" for d
    using Cons by (intro Cons.IH) auto
  obtain r db1 where e: "enqueuePendingChange env ws it db = (r, db1)" by (metis surj_pair)
  have t: "rollback_target db it" using Cons.prems by auto
  have "runs env db (snd (enqueue_intents env ws its db1))" if "checkQuarantineRisk it = None" "checkRaiseAnomaly it = None"
    using enqueuePendingChange_runs [OF t that, of env ws] e rest runs_trans by (metis snd_conv)
  then show ?case using rest [of db] by (simp add: e case_prod_beta split: option.split)
qed simp

lemma read_or_runs: "runs env db (snd (read_or d l env q db))"
  using exec_read_runs [of env db q] by (simp add: read_or_def split: prod.split option.split) auto

lemma enqueueAndApplyIntents_runs:
  assumes "(\<forall>it \<in> set its. RollbackOf it = None) \<or> (\<exists>it. its = [it] \<and> rollback_target db it)"
  shows "runs env db (snd (enqueueAndApplyIntents env ws its db))"
proof -
  obtain ids errs1 db1 where e1: "enqueue_intents env ws its db = ((ids, errs1), db1)" by (metis surj_pair)
  have r1: "runs env db db1" using enqueue_intents_runs [OF assms, of env ws] e1 by simp
  define u where "u = remdups ids"
  obtain a db2 where e2: "exec_upd env (AggregatePriceSchedules ws None) db1 = (a, db2)" by (metis surj_pair)
  obtain d3 errs3 db3 where e3: "drainPendingPriceChanges env ws db2 = ((d3, errs3), db3)" by (metis surj_pair)
  obtain t4 errs4 db4 where e4: "read_or [] ''list accepted price tasks'' env (ListPriceUploadTaskIDsForChanges ws u) db3 = ((t4, errs4), db4)"
    by (metis surj_pair)
  obtain q5 errs5 db5 where e5: "read_or 0 ''count queued price changes'' env (CountPendingPriceChanges ws u) db4 = ((q5, errs5), db5)"
    by (metis surj_pair)
  obtain f6 errs6 db6 where e6: "read_or 0 ''count failed price changes'' env (CountFailedPriceChanges ws u) db5 = ((f6, errs6), db6)"
    by (metis surj_pair)
  have "runs env db1 db2" "runs env db2 db3" "runs env db3 db4" "runs env db4 db5" "runs env db5 db6"
    using aggregate_all_runs [of env db1 ws None] drainPending_runs [of env db2 ws] read_or_runs [of env db3 "[]"]
      read_or_runs [of env db4 0] read_or_runs [of env db5 0] e2 e3 e4 e5 e6 by (metis snd_conv)+
  with r1 have "runs env db db6" using runs_trans by meson
  then show ?thesis
    using r1 by (simp add: enqueueAndApplyIntents_def e1 u_def [symmetric] e2 e3 e4 e5 e6 Let_def)
qed

lemma poll_task_runs: "runs env db (snd (poll_task env ws task db))"
proof -
  obtain blob db1 where t: "mustCabinetToken env (tk_SellerCabinetID task) db = (blob, db1)" by (metis surj_pair)
  have r1: "runs env db db1" using mustCabinetToken_runs [of env db] t by (metis snd_conv)
  have "runs env db (snd (bumpPoll env ws task reason db1))" "runs env db (snd (pollOneTask env ws task db1))" for reason
    using r1 bumpPoll_runs pollOneTask_runs runs_trans by blast+
  then show ?thesis by (simp add: poll_task_def t split: sum.split)
qed

lemma poll_tasks_runs: "runs env db (snd (poll_tasks env ws ts db))"
proof (induction ts arbitrary: db)
  case (Cons t ts)
  obtain f db1 where p: "poll_task env ws t db = (f, db1)" by (metis surj_pair)
  have "runs env db db1" using poll_task_runs [of env db ws t] p by simp
  with Cons [of db1] have "runs env db (snd (poll_tasks env ws ts db1))" using runs_trans by blast
  then show ?case by (simp add: p case_prod_beta)
qed simp

lemma recover_runs: "runs env db (RecoverStaleRepricerState env ws s db)"
proof -
  obtain r db1 where e: "exec_upd env (recover_submitting ws s) db = (r, db1)" by (metis surj_pair)
  have "runs env db (snd (exec_upd env (recover_submitting ws s) db))"
  proof (rule exec_upd_runs)
    show "sql_step (tick db) (recover_submitting ws s now (tick db))" for now by (rule sql_step.recover)
    show "quiet d (recover_submitting ws s now d)" for now d by (simp add: recover_submitting_def)
    fix now r assume "r \<in> set (price_changes (recover_submitting ws s now (tick db)))"
    then show "pc_SubmissionBatchID r = None \<or> (\<exists>q \<in> set (price_changes db). pc_SubmissionBatchID q = pc_SubmissionBatchID r)"
      by (intro disjI2) (rule upd_where_batches, auto simp: recover_submitting_def)
  qed
  then have r1: "runs env db db1" by (simp add: e)
  have "runs env db1 (snd (exec_upd env (recover_schedules ws s) db1))"
    by (rule schedules_only_runs) (use schedule_statements_keep in \<open>simp_all add: recover_schedules_def\<close>)
  then show ?thesis using r1 runs_trans by (cases r) (auto simp: RecoverStaleRepricerState_def e)
qed

lemma PollUploadTasks_runs: "runs env db (snd (PollUploadTasks env ws db))"
proof -
  define db1 where "db1 = RecoverStaleRepricerState env ws (e_now env (calls db) - repricerStateStaleAfter) db"
  define db2 where "db2 = snd (exec_upd env (AggregatePriceSchedules ws None) db1)"
  obtain r db3 where e3: "exec_read env (ListPendingPriceUploadTasks ws) db2 = (r, db3)" by (metis surj_pair)
  have "runs env db db1" "runs env db1 db2" "runs env db2 db3"
    using recover_runs aggregate_all_runs exec_read_runs [of env db2 "ListPendingPriceUploadTasks ws"] e3
    by (simp_all add: db1_def db2_def)
  then have r3: "runs env db db3" using runs_trans by meson
  show ?thesis
  proof (cases r)
    case None
    then show ?thesis using r3 by (simp add: PollUploadTasks_def Let_def db1_def [symmetric] db2_def [symmetric] e3)
  next
    case (Some tasks)
    obtain n db4 where e4: "poll_tasks env ws tasks db3 = (n, db4)" by (metis surj_pair)
    have "runs env db3 db4" using poll_tasks_runs [of env db3 ws tasks] e4 by simp
    then have "runs env db (snd (drainPendingPriceChanges env ws db4))" using r3 drainPending_runs runs_trans by meson
    then show ?thesis
      using Some by (simp add: PollUploadTasks_def Let_def db1_def [symmetric] db2_def [symmetric] e3 e4 case_prod_beta)
  qed
qed

end
