(* ===== verification/Repricer_Ops.thy ===== *)
theory Repricer_Ops
  imports Repricer_Queue
begin

text \<open>
  The requests of a user to the repricer: \<^verbatim>\<open>Rollback\<close> of \<^verbatim>\<open>internal/service/repricer_apply.go\<close> and
  \<^verbatim>\<open>ApplyManualBulk\<close> of \<^verbatim>\<open>internal/service/repricer_bulk.go\<close> as a whole, with every read, refusal and error.
  The lemmas show that both are runs of queue statements, the theorems what a successful request has done:
  a rollback restores the price and discount of the change it names, and a bulk request accounts for every
  product it was asked about.
\<close>

section \<open>Reads and errors\<close>

text \<open>The error of a request is a typed one or the joined messages of what failed below it.\<close>

datatype svc_error = AppErr app_error | Joined errs

type_synonym 'a request = "repricer_db \<Rightarrow> (svc_error + 'a) \<times> repricer_db"

definition app_fail :: "app_error \<Rightarrow> string \<Rightarrow> 'a request" where
  "app_fail base msg db = (Inl (AppErr (apperror_New base msg)), db)"

definition db_fail :: "repricer_env \<Rightarrow> 'a request" where
  "db_fail env db = (Inl (Joined [e_dberr env]), db)"

text \<open>A read whose result is used by the rest of the request; \<open>fail\<close> goes on when the statement fails.\<close>

definition query ::
    "repricer_env \<Rightarrow> (int \<Rightarrow> repricer_db \<Rightarrow> 'a) \<Rightarrow> (repricer_db \<Rightarrow> 'b \<times> repricer_db) \<Rightarrow> ('a \<Rightarrow> repricer_db \<Rightarrow> 'b \<times> repricer_db) \<Rightarrow>
     repricer_db \<Rightarrow> 'b \<times> repricer_db" where
  "query env q fail k db =
     (if e_fault env (calls db) then fail (tick db) else k (q (e_now env (calls db)) (tick db)) (tick db))"

lemma query_runs:
  assumes "runs env (tick db) (snd (fail (tick db)))"
    and "runs env (tick db) (snd (k (q (e_now env (calls db)) (tick db)) (tick db)))"
  shows "runs env db (snd (query env q fail k db))"
  using assms runs_trans [OF runs_tick] by (auto simp: query_def)

lemma fail_runs [simp]: "snd (app_fail base msg db) = db" "snd (db_fail env db) = db"
  by (simp_all add: app_fail_def db_fail_def)

section \<open>Rollback\<close>

record PriceChange =
  ch_ID :: uuid
  ch_WorkspaceID :: uuid
  ch_SellerCabinetID :: uuid
  ch_StrategyID :: "uuid option"
  ch_ScheduleEntryID :: "uuid option"
  ch_UploadTaskID :: "uuid option"
  ch_WBProductID :: int
  ch_OldPriceRub :: int
  ch_NewPriceRub :: int
  ch_OldDiscountPercent :: int
  ch_NewDiscountPercent :: int
  ch_MinPriceRub :: "int option"
  ch_Reason :: string
  ch_Source :: string
  ch_WBStatus :: string
  ch_Error :: "string option"
  ch_CanRollback :: bool
  ch_RollbackOf :: "uuid option"
  ch_CreatedBy :: "uuid option"
  ch_CreatedAt :: int
  ch_UpdatedAt :: int

text \<open>The mapper leaves the references of the row (strategy, schedule entry, task, rollback, author) at \<^verbatim>\<open>nil\<close>.\<close>

definition priceChangeFromSqlc :: "PriceChangeRow \<Rightarrow> PriceChange" where
  "priceChangeFromSqlc row =
     \<lparr>ch_ID = pc_ID row, ch_WorkspaceID = pc_WorkspaceID row, ch_SellerCabinetID = pc_SellerCabinetID row,
      ch_StrategyID = None, ch_ScheduleEntryID = None, ch_UploadTaskID = None,
      ch_WBProductID = pc_WbProductID row, ch_OldPriceRub = pc_OldPriceRub row, ch_NewPriceRub = pc_NewPriceRub row,
      ch_OldDiscountPercent = pc_OldDiscountPercent row, ch_NewDiscountPercent = pc_NewDiscountPercent row,
      ch_MinPriceRub = pc_MinPriceRub row, ch_Reason = pc_Reason row, ch_Source = pc_Source row,
      ch_WBStatus = pc_WbStatus row, ch_Error = pc_Error row, ch_CanRollback = pc_CanRollback row,
      ch_RollbackOf = None, ch_CreatedBy = None, ch_CreatedAt = pc_CreatedAt row, ch_UpdatedAt = pc_UpdatedAt row\<rparr>"

definition rollbackBaselineMatches :: "ProductPrice \<Rightarrow> PriceChangeRow \<Rightarrow> bool" where
  "rollbackBaselineMatches current change \<longleftrightarrow>
     pp_PriceRub current = pc_NewPriceRub change \<and> pp_DiscountPercent current = pc_NewDiscountPercent change"

definition rollback_intent :: "repricer_env \<Rightarrow> uuid \<Rightarrow> uuid \<Rightarrow> PriceChangeRow \<Rightarrow> priceChangeIntent" where
  "rollback_intent env actorID changeID row =
     \<lparr>CabinetID = pc_SellerCabinetID row, NmID = pc_WbProductID row,
      OldPriceRub = pc_NewPriceRub row, NewPriceRub = pc_OldPriceRub row,
      OldDiscount = pc_NewDiscountPercent row, NewDiscount = pc_OldDiscountPercent row,
      IntentMinPriceRub = 0, IntentReason = ''rollback of price change '' @ e_uuid_string env changeID,
      IntentSource = PriceSourceRollback, StrategyID = None, ScheduleEntryID = None,
      RollbackOf = Some changeID, CreatedBy = Some actorID\<rparr>"

text \<open>The end of \<^verbatim>\<open>Rollback\<close>: the inverse intent is queued and its row returned.\<close>

definition rollback_apply :: "repricer_env \<Rightarrow> uuid \<Rightarrow> priceChangeIntent \<Rightarrow> PriceChange request" where
  "rollback_apply env workspaceID it db =
     (let ((result, err), db1) = enqueueAndApplyIntents env workspaceID [it] db
      in if err \<noteq> [] \<and> ar_Accepted result = 0 then (Inl (Joined err), db1)
         else if ar_Accepted result \<noteq> 1 \<or> length (ar_ChangeIDs result) \<noteq> 1
         then app_fail ErrConflict ''rollback request was not saved'' db1
         else if ar_Failed result > 0 then
           (if err \<noteq> [] then (Inl (Joined err), db1)
            else app_fail ErrConflict ''rollback was rejected before delivery to WB'' db1)
         else
           query env (\<lambda>_. GetPriceChange (hd (ar_ChangeIDs result))) (db_fail env) (\<lambda>child d.
             case child of
               None \<Rightarrow> (Inl (Joined [''no rows in result set'']), d)
             | Some row \<Rightarrow> (Inr (priceChangeFromSqlc row), d)) db1)"

definition rollback_guards :: "repricer_env \<Rightarrow> uuid \<Rightarrow> uuid \<Rightarrow> uuid \<Rightarrow> PriceChangeRow \<Rightarrow> PriceChange request" where
  "rollback_guards env actorID workspaceID changeID row =
     (let ready = rollback_apply env workspaceID (rollback_intent env actorID changeID row);
          check_flight = query env (\<lambda>_. HasInFlightPriceChange (pc_WorkspaceID row) (pc_WbProductID row)) ready (\<lambda>inflight.
            if inflight then app_fail ErrValidation ''product has an in-flight price change'' else ready);
          check_child = query env (\<lambda>_. HasRollbackChild changeID) check_flight (\<lambda>child.
            if child then app_fail ErrValidation ''price change already rolled back'' else check_flight)
      in query env (\<lambda>_. HasNewerActivePriceChange (pc_WorkspaceID row) (pc_WbProductID row) (pc_ID row)) (db_fail env) (\<lambda>newer.
           if newer then app_fail ErrValidation ''a newer price change exists for this product'' else check_child))"

definition Rollback :: "repricer_env \<Rightarrow> uuid \<Rightarrow> uuid \<Rightarrow> uuid \<Rightarrow> PriceChange request" where
  "Rollback env actorID workspaceID changeID =
     query env (\<lambda>_. GetPriceChange changeID) (db_fail env) (\<lambda>found.
       case found of
         None \<Rightarrow> app_fail ErrNotFound ''price change not found''
       | Some row \<Rightarrow>
         if pc_WorkspaceID row \<noteq> workspaceID then app_fail ErrNotFound ''price change not found''
         else if pc_WbStatus row \<noteq> PriceStatusApplied \<or> \<not> pc_CanRollback row
         then app_fail ErrValidation ''price change is not rollback-able''
         else
           query env (\<lambda>_. GetProductPriceForRollback (pc_WorkspaceID row) (pc_SellerCabinetID row) (pc_WbProductID row)) (db_fail env) (\<lambda>cur.
             case cur of
               None \<Rightarrow> app_fail ErrValidation ''current product price is unavailable; sync prices before rollback''
             | Some current \<Rightarrow>
               if \<not> rollbackBaselineMatches current row
               then app_fail ErrValidation ''current product price differs from the applied change; rollback would overwrite a newer external price''
               else rollback_guards env actorID workspaceID changeID row))"

section \<open>Manual bulk changes\<close>

definition requireCabinetInWorkspace :: "repricer_env \<Rightarrow> uuid \<Rightarrow> uuid \<Rightarrow> repricer_db \<Rightarrow> go_error \<times> repricer_db" where
  "requireCabinetInWorkspace env workspaceID cabinetID db =
     (if cabinetID = uuid_Nil then (Some (apperror_New ErrValidation ''seller_cabinet_id is required''), db)
      else
        query env (\<lambda>_. GetSellerCabinetByID cabinetID)
          (Pair (Some (apperror_New ErrNotFound ''seller cabinet not found'')))
          (\<lambda>c. case c of
             None \<Rightarrow> Pair (Some (apperror_New ErrNotFound ''seller cabinet not found''))
           | Some cabinet \<Rightarrow>
             if ca_WorkspaceID cabinet \<noteq> workspaceID then Pair (Some (apperror_New ErrNotFound ''seller cabinet not found''))
             else Pair None) db)"

definition ListProductPricesByWorkspace :: "uuid \<Rightarrow> nat \<Rightarrow> nat \<Rightarrow> repricer_db \<Rightarrow> ProductPrice list" where
  "ListProductPricesByWorkspace workspaceID limit off db =
     take limit (drop off (sort_key pp_WBProductID (filter (\<lambda>p. pp_WorkspaceID p = workspaceID) (product_prices db))))"

definition ListProductPricesByCabinet :: "uuid \<Rightarrow> repricer_db \<Rightarrow> ProductPrice list" where
  "ListProductPricesByCabinet cabinetID db =
     sort_key pp_WBProductID (filter (\<lambda>p. pp_SellerCabinetID p = cabinetID) (product_prices db))"

text \<open>The map from products to prices that both price paths build, and the keys that it can have.\<close>

definition price_by_nm :: "ProductPrice list \<Rightarrow> price_map" where
  "price_by_nm prices = foldl (\<lambda>m p. m(pp_WBProductID p \<mapsto> p)) (\<lambda>_. None) prices"

definition price_keys :: "ProductPrice list \<Rightarrow> PriceChangeRow list \<Rightarrow> int list" where
  "price_keys prices latest = remdups (map pp_WBProductID prices @ map pc_WbProductID latest)"

text \<open>
  \<open>marginFloors\<close> reads one page per thousand rows and a last one; the economics are kept in the order of
  the query. The call counter passes all pages also when a failing one ends the loop.
\<close>

definition load_floors :: "repricer_env \<Rightarrow> uuid \<Rightarrow> repricer_db \<Rightarrow> (int \<rightharpoonup> int) \<times> repricer_db" where
  "load_floors env workspaceID db =
     (let rows = map snd (filter (\<lambda>(ws, e). ws = workspaceID) (product_economics db));
          pages = Suc (length rows div economicsPageSize)
      in (marginFloors rows (\<lambda>off. e_fault env (calls db + off div economicsPageSize)), db\<lparr>calls := calls db + pages\<rparr>))"

record PriceBulkResult =
  br_Accepted :: int
  br_Queued :: int
  br_Failed :: int
  br_Skipped :: int
  br_TaskIDs :: "uuid list"

definition bulk_finish :: "repricer_env \<Rightarrow> uuid \<Rightarrow> bulk_outcome list \<Rightarrow> PriceBulkResult request" where
  "bulk_finish env workspaceID outs db =
     (let intents = bulk_intents outs;
          ((result, err), db1) = enqueueAndApplyIntents env workspaceID intents db
      in if err \<noteq> [] \<and> ar_Accepted result = 0 then (Inl (Joined err), db1)
         else (Inr \<lparr>br_Accepted = ar_Accepted result, br_Queued = ar_Queued result, br_Failed = ar_Failed result,
                 br_Skipped = bulk_skipped outs + (int (length intents) - ar_Accepted result),
                 br_TaskIDs = ar_TaskIDs result\<rparr>, db1))"

definition bulk_run :: "repricer_env \<Rightarrow> uuid \<Rightarrow> uuid \<Rightarrow> ManualPriceBulkRequest \<Rightarrow> PriceBulkResult request" where
  "bulk_run env actorID workspaceID req =
     query env (\<lambda>_. ListProductPricesByWorkspace workspaceID 100000 0) (db_fail env) (\<lambda>prices.
       query env (\<lambda>_. ListLatestPriceIntents workspaceID None) (db_fail env) (\<lambda>latest d.
         let priceByNm = overlayLatestPriceIntents (price_by_nm prices) latest;
             order = e_map_order env (calls d) (price_keys prices latest);
             (floors, d1) = load_floors env workspaceID d
         in bulk_finish env workspaceID (bulk_outcomes actorID req priceByNm floors order) d1))"

definition ApplyManualBulk :: "repricer_env \<Rightarrow> uuid \<Rightarrow> uuid \<Rightarrow> ManualPriceBulkRequest \<Rightarrow> PriceBulkResult request" where
  "ApplyManualBulk env actorID workspaceID req db =
     (case validateManualPriceBulkRequest req of
        Some e \<Rightarrow> (Inl (AppErr e), db)
      | None \<Rightarrow>
        (case rq_Scope req of
           Some scope \<Rightarrow>
             (case sc_SellerCabinetID scope of
                Some cab \<Rightarrow>
                  (case requireCabinetInWorkspace env workspaceID cab db of
                     (Some e, db1) \<Rightarrow> (Inl (AppErr e), db1)
                   | (None, db1) \<Rightarrow> bulk_run env actorID workspaceID req db1)
              | None \<Rightarrow> bulk_run env actorID workspaceID req db)
         | None \<Rightarrow> bulk_run env actorID workspaceID req db))"

section \<open>Requests are runs\<close>

lemma GetPriceChange_Some: "GetPriceChange i db = Some r \<Longrightarrow> r \<in> set (price_changes db) \<and> pc_ID r = i"
  by (auto simp: GetPriceChange_def find_Some_iff)

lemma rollback_apply_runs:
  assumes "rollback_target db it"
  shows "runs env db (snd (rollback_apply env ws it db))"
proof -
  obtain result err db1 where e: "enqueueAndApplyIntents env ws [it] db = ((result, err), db1)" by (metis surj_pair)
  have r1: "runs env db db1" using enqueueAndApplyIntents_runs [of "[it]" db env ws] assms e by simp
  have "runs env db1 (snd (query env (\<lambda>_. GetPriceChange i) (db_fail env) (\<lambda>child d. case child of
      None \<Rightarrow> (Inl (Joined m), d) | Some row \<Rightarrow> (Inr (priceChangeFromSqlc row), d)) db1))" for i m
    by (rule query_runs) (simp_all split: option.split)
  then show ?thesis using r1 runs_trans by (auto simp: rollback_apply_def e Let_def)
qed

lemma rollback_guards_runs:
  assumes "row \<in> set (price_changes db)" "pc_ID row = changeID" "pc_WbStatus row = PriceStatusApplied"
  shows "runs env db (snd (rollback_guards env actor ws changeID row db))"
proof -
  have ready: "runs env d (snd (rollback_apply env ws (rollback_intent env actor changeID row) d))"
    if "price_changes d = price_changes db" for d
    using that assms by (intro rollback_apply_runs) (auto simp: rollback_intent_def landed_def)
  show ?thesis
    unfolding rollback_guards_def Let_def by (intro query_runs) (simp_all add: ready query_runs)
qed

lemma Rollback_runs: "runs env db (snd (Rollback env actor ws changeID db))"
  unfolding Rollback_def
proof (intro query_runs)
  show "runs env (tick db) (snd (db_fail env (tick db)))" by simp
  show "runs env (tick db) (snd ((case GetPriceChange changeID (tick db) of
         None \<Rightarrow> app_fail ErrNotFound ''price change not found''
       | Some row \<Rightarrow>
         if pc_WorkspaceID row \<noteq> ws then app_fail ErrNotFound ''price change not found''
         else if pc_WbStatus row \<noteq> PriceStatusApplied \<or> \<not> pc_CanRollback row
         then app_fail ErrValidation ''price change is not rollback-able''
         else
           query env (\<lambda>_. GetProductPriceForRollback (pc_WorkspaceID row) (pc_SellerCabinetID row) (pc_WbProductID row)) (db_fail env) (\<lambda>cur.
             case cur of
               None \<Rightarrow> app_fail ErrValidation ''current product price is unavailable; sync prices before rollback''
             | Some current \<Rightarrow>
               if \<not> rollbackBaselineMatches current row
               then app_fail ErrValidation ''current product price differs from the applied change; rollback would overwrite a newer external price''
               else rollback_guards env actor ws changeID row)) (tick db)))"
  proof (cases "GetPriceChange changeID (tick db)")
    case (Some row)
    from GetPriceChange_Some [OF this] have row: "row \<in> set (price_changes db)" "pc_ID row = changeID" by simp_all
    have g: "runs env d (snd (rollback_guards env actor ws changeID row d))"
      if "pc_WbStatus row = PriceStatusApplied" "price_changes d = price_changes db" for d
      using rollback_guards_runs [of row d] row that by simp
    show ?thesis unfolding Some option.case
      by (simp, intro impI, rule query_runs) (simp_all add: g split: option.split)
  qed simp
qed

lemma requireCabinet_runs: "runs env db (snd (requireCabinetInWorkspace env ws cab db))"
  unfolding requireCabinetInWorkspace_def by (simp, intro impI query_runs) (simp_all split: option.split)

lemma load_floors_runs: "runs env db (snd (load_floors env ws db))"
  by (rule runs_same) (simp_all add: load_floors_def Let_def sent_ok_def)

text \<open>No bulk intent is a rollback.\<close>

lemma bulk_intents_no_rollback:
  assumes "it \<in> set (bulk_intents (bulk_outcomes actor req prices floors order))"
  shows "RollbackOf it = None"
proof -
  have app: "appendIntent f actor floors cur b d reason = Some it \<Longrightarrow> RollbackOf it = None" for f cur b d reason
    by (auto simp: appendIntent_def Let_def split: option.split_asm prod.split_asm if_split_asm)
  have out: "outcome_of (appendIntent f actor floors cur b d reason) = Intent it \<Longrightarrow> RollbackOf it = None" for f cur b d reason
    using app by (auto simp: outcome_of_def split: option.split_asm)
  have "Intent it \<in> set (bulk_outcomes actor req prices floors order)"
    using assms by (auto simp: bulk_intents_def List.map_filter_def split: bulk_outcome.split_asm)
  then show ?thesis
    unfolding bulk_outcomes_def Let_def
    by (auto simp: bulk_item_def bulk_selected_def bulk_scope_def dest!: out sym [of "Intent it"] split: if_split_asm option.split_asm)
qed

lemma bulk_finish_runs:
  assumes "\<And>it. it \<in> set (bulk_intents outs) \<Longrightarrow> RollbackOf it = None"
  shows "runs env db (snd (bulk_finish env ws outs db))"
proof -
  obtain result err db1 where e: "enqueueAndApplyIntents env ws (bulk_intents outs) db = ((result, err), db1)" by (metis surj_pair)
  have "runs env db db1" using enqueueAndApplyIntents_runs [of "bulk_intents outs" db env ws] assms e by simp
  then show ?thesis by (simp add: bulk_finish_def e Let_def)
qed

lemma bulk_run_runs: "runs env db (snd (bulk_run env actor ws req db))"
proof -
  have "runs env d (snd (let priceByNm = overlayLatestPriceIntents (price_by_nm prices) latest;
             order = e_map_order env (calls d) (price_keys prices latest);
             (floors, d1) = load_floors env ws d
         in bulk_finish env ws (bulk_outcomes actor req priceByNm floors order) d1))" for d prices latest
  proof -
    obtain floors d1 where f: "load_floors env ws d = (floors, d1)" by (metis surj_pair)
    have "runs env d d1" using load_floors_runs [of env d ws] f by simp
    then show ?thesis
      using bulk_finish_runs [OF bulk_intents_no_rollback] runs_trans by (simp add: f Let_def)
  qed
  note body = this
  show ?thesis unfolding bulk_run_def by (intro query_runs) (rule body | simp)+
qed

lemma ApplyManualBulk_runs: "runs env db (snd (ApplyManualBulk env actor ws req db))"
proof -
  have "runs env db (snd (case requireCabinetInWorkspace env ws cab db of
      (Some e, db1) \<Rightarrow> (Inl (AppErr e), db1) | (None, db1) \<Rightarrow> bulk_run env actor ws req db1))" for cab
  proof -
    obtain r d where c: "requireCabinetInWorkspace env ws cab db = (r, d)" by (metis surj_pair)
    have "runs env db d" using requireCabinet_runs [of env db ws cab] c by simp
    then show ?thesis using bulk_run_runs runs_trans unfolding c by (cases r) auto
  qed
  then show ?thesis using bulk_run_runs by (simp add: ApplyManualBulk_def split: option.split)
qed

section \<open>What a request has done\<close>

lemma enqueue_after_runs:
  assumes "enqueue_intents env ws its db = ((ids, errs1), db1)" "enqueueAndApplyIntents env ws its db = ((r, errs), db')"
  shows "runs env db1 db'" "ar_ChangeIDs r = ids" "ar_Accepted r = int (length ids)"
proof -
  define u where "u = remdups ids"
  obtain a db2 where e2: "exec_upd env (AggregatePriceSchedules ws None) db1 = (a, db2)" by (metis surj_pair)
  obtain d3 errs3 db3 where e3: "drainPendingPriceChanges env ws db2 = ((d3, errs3), db3)" by (metis surj_pair)
  obtain t4 errs4 db4 where e4: "read_or [] ''list accepted price tasks'' env (ListPriceUploadTaskIDsForChanges ws u) db3 = ((t4, errs4), db4)"
    by (metis surj_pair)
  obtain q5 errs5 db5 where e5: "read_or 0 ''count queued price changes'' env (CountPendingPriceChanges ws u) db4 = ((q5, errs5), db5)"
    by (metis surj_pair)
  obtain f6 errs6 db6 where e6: "read_or 0 ''count failed price changes'' env (CountFailedPriceChanges ws u) db5 = ((f6, errs6), db6)"
    by (metis surj_pair)
  have "runs env db1 db2" "runs env db2 db3" "runs env db3 db4" "runs env db4 db5" "runs env db5 db6"
    using aggregate_all_runs [of env db1 ws None] drainPending_runs [of env db2 ws] read_or_runs [of env db3 "[]"]
      read_or_runs [of env db4 0] read_or_runs [of env db5 0] e2 e3 e4 e5 e6 by (metis snd_conv)+
  then have "runs env db1 db6" using runs_trans by meson
  then show "runs env db1 db'" "ar_ChangeIDs r = ids" "ar_Accepted r = int (length ids)"
    using assms(2) by (auto simp: enqueueAndApplyIntents_def assms(1) u_def [symmetric] e2 e3 e4 e5 e6 Let_def split: if_split_asm)
qed

lemma enqueue_ids_length: "length (fst (fst (enqueue_intents env ws its db))) \<le> length its"
proof (induction its arbitrary: db)
  case (Cons it its)
  obtain r d where "enqueuePendingChange env ws it db = (r, d)" by (metis surj_pair)
  then show ?case
    using Cons [of db] Cons [of d] by (simp add: case_prod_beta split: option.split)
qed simp

text \<open>A saved change is in the table, and later runs only advance it.\<close>

lemma enqueue_saved:
  assumes "enqueuePendingChange env ws it db = (Some u, db')"
  shows "pending_row u (e_now env (calls db)) ws it \<in> set (price_changes db')"
  using assms
  by (auto simp: enqueuePendingChange_def exec_def Let_def EnqueuePriceChange_def split: option.split_asm if_split_asm)

lemma saved_then_read:
  assumes g: "good env d1" and run: "runs env d1 d2" and p: "p \<in> set (price_changes d1)" "pc_ID p = u"
    and r: "GetPriceChange u d2 = Some r"
  shows "advances p r"
proof -
  have st: "sql_step\<^sup>*\<^sup>* d1 d2" "good env d2" using g run by (simp_all add: runs_def)
  obtain q where q: "q \<in> set (price_changes d2)" "advances p q"
    using steps_advance [OF st(1) _ p(1)] g by (auto simp: good_def)
  have "r \<in> set (price_changes d2)" "pc_ID r = u" using GetPriceChange_Some [OF r] by simp_all
  moreover have "pc_ID q = u" using q(2) p(2) by (simp add: advances_def same_identity_def)
  ultimately have "r = q" using rows_wfD(5) [of "price_changes d2" r q] st(2) q(1) by (simp add: good_def queue_wf_def)
  with q(2) show ?thesis by simp
qed

lemma enqueue_one:
  assumes "enqueue_intents env ws [it] db = (([u], e), db1)"
  shows "checkQuarantineRisk it = None" "checkRaiseAnomaly it = None" "enqueuePendingChange env ws it db = (Some u, db1)"
  using assms by (auto split: option.split_asm prod.split_asm)

lemma rollback_apply_Inr:
  assumes "rollback_apply env ws it db = (Inr pc, db')" "good env db" "rollback_target db it"
  shows "\<exists>u r. checkQuarantineRisk it = None \<and> checkRaiseAnomaly it = None \<and>
    advances (pending_row u (e_now env (calls db)) ws it) r \<and> pc = priceChangeFromSqlc r"
proof -
  obtain ids errs1 db1 where e1: "enqueue_intents env ws [it] db = ((ids, errs1), db1)" by (metis surj_pair)
  obtain res err db2 where e2: "enqueueAndApplyIntents env ws [it] db = ((res, err), db2)" by (metis surj_pair)
  note after = enqueue_after_runs [OF e1 e2]
  from assms(1) obtain u r where u: "ids = [u]" "GetPriceChange u (tick db2) = Some r" "pc = priceChangeFromSqlc r"
    unfolding rollback_apply_def e2 query_def app_fail_def db_fail_def Let_def
    by (auto simp: after length_Suc_conv split: if_split_asm option.split_asm)
  note one = enqueue_one [OF e1 [unfolded u(1)]]
  have "runs env db db1" using enqueuePendingChange_runs [OF assms(3) one(1,2), of env ws] one(3) by simp
  then have g1: "good env db1" using assms(2) by (simp add: runs_def)
  have "runs env db1 (tick db2)" using after(1) runs_trans runs_tick by blast
  moreover have "pc_ID (pending_row u (e_now env (calls db)) ws it) = u" by (simp add: pending_row_def)
  ultimately have "advances (pending_row u (e_now env (calls db)) ws it) r"
    using saved_then_read [OF g1 _ enqueue_saved [OF one(3)] _ u(2)] by blast
  then show ?thesis using one u(3) by blast
qed

lemma rollback_guards_Inr:
  assumes "rollback_guards env actor ws cid row db = (Inr pc, db')"
  shows "rollback_apply env ws (rollback_intent env actor cid row) (db\<lparr>calls := Suc (Suc (Suc (calls db)))\<rparr>) = (Inr pc, db')"
  using assms unfolding rollback_guards_def query_def app_fail_def db_fail_def Let_def tick_def
  by (auto split: if_split_asm)

lemma Rollback_Inr:
  assumes "Rollback env actor ws cid db = (Inr pc, db')"
  shows "\<exists>row \<in> set (price_changes db). pc_ID row = cid \<and> pc_WorkspaceID row = ws \<and> pc_WbStatus row = PriceStatusApplied \<and>
    pc_CanRollback row \<and> rollback_apply env ws (rollback_intent env actor cid row) (db\<lparr>calls := calls db + 5\<rparr>) = (Inr pc, db') \<and>
    (\<exists>cur \<in> set (product_prices db). pp_WorkspaceID cur = ws \<and> pp_SellerCabinetID cur = pc_SellerCabinetID row \<and>
       pp_WBProductID cur = pc_WbProductID row \<and>
       pp_PriceRub cur = pc_NewPriceRub row \<and> pp_DiscountPercent cur = pc_NewDiscountPercent row)"
proof -
  obtain row where row: "GetPriceChange cid (tick db) = Some row"
    and k: "pc_WorkspaceID row = ws" "pc_WbStatus row = PriceStatusApplied" "pc_CanRollback row"
    and q: "query env (\<lambda>_. GetProductPriceForRollback (pc_WorkspaceID row) (pc_SellerCabinetID row) (pc_WbProductID row)) (db_fail env) (\<lambda>cur.
             case cur of
               None \<Rightarrow> app_fail ErrValidation ''current product price is unavailable; sync prices before rollback''
             | Some current \<Rightarrow>
               if \<not> rollbackBaselineMatches current row
               then app_fail ErrValidation ''current product price differs from the applied change; rollback would overwrite a newer external price''
               else rollback_guards env actor ws cid row) (tick db) = (Inr pc, db')"
    using assms unfolding Rollback_def query_def [of env "\<lambda>_. GetPriceChange cid"]
    by (auto simp: app_fail_def db_fail_def split: if_split_asm option.split_asm)
  from q obtain cur where cur: "GetProductPriceForRollback (pc_WorkspaceID row) (pc_SellerCabinetID row) (pc_WbProductID row) (tick (tick db)) = Some cur"
    "rollbackBaselineMatches cur row" "rollback_guards env actor ws cid row (tick (tick db)) = (Inr pc, db')"
    by (auto simp: query_def app_fail_def db_fail_def split: if_split_asm option.split_asm)
  have "rollback_apply env ws (rollback_intent env actor cid row) (db\<lparr>calls := calls db + 5\<rparr>) = (Inr pc, db')"
    using rollback_guards_Inr [OF cur(3)] by (simp add: tick_def eval_nat_numeral)
  moreover have "cur \<in> set (product_prices db)" "pp_WorkspaceID cur = ws" "pp_SellerCabinetID cur = pc_SellerCabinetID row"
    "pp_WBProductID cur = pc_WbProductID row"
    using cur(1) k(1) by (auto simp: GetProductPriceForRollback_def find_Some_iff tick_def)
  moreover have "pp_PriceRub cur = pc_NewPriceRub row" "pp_DiscountPercent cur = pc_NewDiscountPercent row"
    using cur(2) by (simp_all add: rollbackBaselineMatches_def)
  ultimately show ?thesis using GetPriceChange_Some [OF row] k by (auto intro!: bexI [of _ row] bexI [of _ cur])
qed


lemma wrap32_wrap32 [simp]: "wrap32 (wrap32 n) = wrap32 n"
  by (simp add: wrap32_def)

lemma vetted_discounts:
  assumes "vetted r" "\<not> recommended r"
  shows "wrap32 (pc_OldDiscountPercent r) = pc_OldDiscountPercent r" "wrap32 (pc_NewDiscountPercent r) = pc_NewDiscountPercent r"
  using assms by (auto simp: vetted_def vetted_by_def) (metis wrap32_wrap32)+

text \<open>
  C15 A successful rollback restores what it undoes: the change that it returns belongs to the same
  cabinet and product as the applied change it was asked to revert, leads from that change's new price
  and discount back to exactly its old price and discount, and passed the quarantine and the raise check. The
  price it starts from is the stored current price and discount of that very product, in the same workspace and cabinet.
\<close>

theorem rollback_restores_price:
  assumes "good env db" "Rollback env actor ws changeID db = (Inr pc, db')"
  shows "\<exists>row \<in> set (price_changes db). pc_ID row = changeID \<and> pc_WorkspaceID row = ws \<and> pc_WbStatus row = PriceStatusApplied \<and>
    ch_SellerCabinetID pc = pc_SellerCabinetID row \<and> ch_WBProductID pc = pc_WbProductID row \<and>
    ch_OldPriceRub pc = pc_NewPriceRub row \<and> ch_NewPriceRub pc = pc_OldPriceRub row \<and>
    ch_OldDiscountPercent pc = pc_NewDiscountPercent row \<and> ch_NewDiscountPercent pc = pc_OldDiscountPercent row \<and>
    checkQuarantineRisk (rollback_intent env actor changeID row) = None \<and>
    checkRaiseAnomaly (rollback_intent env actor changeID row) = None \<and>
    (\<exists>cur \<in> set (product_prices db). pp_WorkspaceID cur = ws \<and> pp_SellerCabinetID cur = ch_SellerCabinetID pc \<and>
       pp_WBProductID cur = ch_WBProductID pc \<and>
       pp_PriceRub cur = ch_OldPriceRub pc \<and> pp_DiscountPercent cur = ch_OldDiscountPercent pc)"
proof -
  let ?d = "db\<lparr>calls := calls db + 5\<rparr>"
  obtain row where row: "row \<in> set (price_changes db)" "pc_ID row = changeID" "pc_WorkspaceID row = ws" "pc_WbStatus row = PriceStatusApplied"
    and ap: "rollback_apply env ws (rollback_intent env actor changeID row) ?d = (Inr pc, db')"
    and cur: "\<exists>cur \<in> set (product_prices db). pp_WorkspaceID cur = ws \<and> pp_SellerCabinetID cur = pc_SellerCabinetID row \<and>
      pp_WBProductID cur = pc_WbProductID row \<and>
      pp_PriceRub cur = pc_NewPriceRub row \<and> pp_DiscountPercent cur = pc_NewDiscountPercent row"
    using Rollback_Inr [OF assms(2)] by blast
  have "runs env db ?d" by (rule runs_same) (simp_all add: sent_ok_def)
  then have g: "good env ?d" using assms(1) by (simp add: runs_def)
  have t: "rollback_target ?d (rollback_intent env actor changeID row)"
    using row by (auto simp: rollback_intent_def landed_def)
  obtain u r where c: "checkQuarantineRisk (rollback_intent env actor changeID row) = None"
      "checkRaiseAnomaly (rollback_intent env actor changeID row) = None"
      "advances (pending_row u (e_now env (calls ?d)) ws (rollback_intent env actor changeID row)) r" "pc = priceChangeFromSqlc r"
    using rollback_apply_Inr [OF ap g t] by blast
  have "vetted row" "\<not> recommended row" using assms(1) row by (simp_all add: good_def vetted_rows_def)
  note disc = vetted_discounts [OF this]
  have "ch_SellerCabinetID pc = pc_SellerCabinetID row" "ch_WBProductID pc = pc_WbProductID row"
    "ch_OldPriceRub pc = pc_NewPriceRub row" "ch_NewPriceRub pc = pc_OldPriceRub row"
    "ch_OldDiscountPercent pc = pc_NewDiscountPercent row" "ch_NewDiscountPercent pc = pc_OldDiscountPercent row"
    using c(3) disc by (simp_all add: c(4) advances_def same_identity_def priceChangeFromSqlc_def pending_row_def rollback_intent_def)
  then show ?thesis using row c(1,2) cur by (intro bexI [OF _ row(1)]) simp
qed

text \<open>A concrete setting: the applied change of theory \<open>Repricer_Store\<close>, with uploads cooling down.\<close>

definition calm_env :: repricer_env where
  "calm_env = \<lparr>e_now = (\<lambda>n. 1000 + int n), e_uuid = (\<lambda>n. 100 + int n), e_fault = (\<lambda>_. False), e_dberr = ''db'',
     e_upload = (\<lambda>_ _. UploadAccepted 1 False), e_history = (\<lambda>_ _. HistoryAbsent), e_buffer = (\<lambda>_ _. HistoryAbsent),
     e_goods = (\<lambda>_ _. Inr []), e_decrypt = Inr, e_cooling = (\<lambda>_ _. True), e_uuid_string = (\<lambda>_. ''id''), e_map_order = (\<lambda>_ ks. ks)\<rparr>"

definition applied_row :: PriceChangeRow where
  "applied_row = (run_row PriceStatusApplied (Some 7) None 200)\<lparr>pc_UploadTaskID := Some 6\<rparr>"

definition applied_db :: repricer_db where
  "applied_db = run_db0\<lparr>price_changes := [applied_row], product_prices := [wit_cur\<lparr>pp_WorkspaceID := 9, pp_PriceRub := 1001\<rparr>]\<rparr>"

lemma applied_good: "good calm_env applied_db"
proof -
  have "vetted applied_row"
    using run_checks by (auto simp: vetted_def vetted_by_def applied_row_def run_row_def pending_row_def intro!: exI [of _ run_it])
  then show ?thesis
    by (auto simp: good_def queue_wf_def rows_wf_def batches_small_def ids_unused_def sent_ok_def vetted_rows_def applied_db_def
        row_ok_def batch_ok_def in_transport_def transport_statuses_def pending_def submission_def inj_def applied_row_def run_defs
        calm_env_def price_status_defs)
qed

lemma calm_simps [simp]: "e_fault calm_env = (\<lambda>_. False)" "e_now calm_env = (\<lambda>n. 1000 + int n)" "e_uuid calm_env = (\<lambda>n. 100 + int n)"
  "e_cooling calm_env = (\<lambda>_ _. True)" "e_map_order calm_env = (\<lambda>_ ks. ks)"
  by (simp_all add: calm_env_def)

lemma calm_exec [simp]: "exec calm_env stmt db = map_prod Some id (stmt (1000 + int (calls db)) (100 + int (calls db)) (tick db))"
  by (simp add: exec_def Let_def split: prod.split)

lemma calm_query [simp]: "query calm_env q fail k db = k (q (1000 + int (calls db)) (tick db)) (tick db)"
  by (simp add: query_def)

lemma calm_read [simp]: "exec_read calm_env q db = (Some (q (tick db)), tick db)" "exec_upd calm_env f db = (Some (), f (1000 + int (calls db)) (tick db))"
  "read_or x l calm_env q db = ((q (tick db), []), tick db)"
  by (simp_all add: exec_read_def exec_upd_def read_or_def)

lemma calm_drain: "drain_cabinets calm_env ws cabs db = (([], []), (tick ^^ length cabs) db)"
  by (induction cabs arbitrary: db)
    (simp_all add: drainCabinetPriceChanges_def wrap_err_def funpow_Suc_right del: funpow.simps)

abbreviation undo_intent :: priceChangeIntent where
  "undo_intent \<equiv> rollback_intent calm_env 3 5 applied_row"

lemma undo_checks: "checkQuarantineRisk undo_intent = None" "checkRaiseAnomaly undo_intent = None"
  by (simp_all add: rollback_intent_def applied_row_def run_defs checkQuarantineRisk_def checkRaiseAnomaly_def effectiveOf_eq wrap64_def wrap32_def)

abbreviation undo_row :: PriceChangeRow where
  "undo_row \<equiv> pending_row 105 1005 9 undo_intent"

lemma undo_enqueue:
  assumes "price_changes db = [applied_row]" "calls db = 5"
  shows "enqueue_intents calm_env 9 [undo_intent] db = (([105], []), (tick db)\<lparr>price_changes := [applied_row, undo_row]\<rparr>)"
  using assms undo_checks
  by (simp add: enqueuePendingChange_def EnqueuePriceChange_def insertable_def upd_where_def)
    (simp add: pending_row_def rollback_intent_def applied_row_def run_defs price_status_defs)

lemma ticks_changes [simp]: "price_changes ((tick ^^ n) db) = price_changes db"
  by (induction n) simp_all

lemma calm_apply:
  assumes "enqueue_intents calm_env ws its db = ((ids, []), db1)" "ids \<noteq> []"
  shows "\<exists>r db'. enqueueAndApplyIntents calm_env ws its db = ((r, []), db') \<and> price_changes db' = price_changes db1 \<and>
    ar_ChangeIDs r = ids \<and> ar_Accepted r = int (length ids) \<and> ar_Failed r = CountFailedPriceChanges ws (remdups ids) db1"
  unfolding enqueueAndApplyIntents_def assms(1) Let_def prod.case
  by (simp add: assms(2) drainPendingPriceChanges_def calm_drain AggregatePriceSchedules_def CountFailedPriceChanges_def)

lemma undo_apply:
  assumes "price_changes db = [applied_row]" "calls db = 5"
  shows "fst (rollback_apply calm_env 9 undo_intent db) = Inr (priceChangeFromSqlc undo_row)"
proof -
  obtain r db' where e: "enqueueAndApplyIntents calm_env 9 [undo_intent] db = ((r, []), db')"
    "price_changes db' = [applied_row, undo_row]" "ar_ChangeIDs r = [105]" "ar_Accepted r = 1"
    "ar_Failed r = CountFailedPriceChanges 9 [105] ((tick db)\<lparr>price_changes := [applied_row, undo_row]\<rparr>)"
    using calm_apply [OF undo_enqueue [OF assms]] by auto
  have "ar_Failed r = 0"
    by (simp add: e(5) CountFailedPriceChanges_def pending_row_def applied_row_def run_row_def price_status_defs)
  moreover have "GetPriceChange 105 (tick db') = Some undo_row"
    by (simp add: GetPriceChange_def e(2)) (simp add: applied_row_def run_row_def pending_row_def)
  ultimately show ?thesis by (simp add: rollback_apply_def e)
qed

lemma rollback_run: "fst (Rollback calm_env 3 9 5 applied_db) = Inr (priceChangeFromSqlc undo_row)"
proof -
  have a: "price_changes applied_db = [applied_row]" "calls applied_db = 0" by (simp_all add: applied_db_def run_db0_def)
  have r: "pc_ID applied_row = 5" "pc_WorkspaceID applied_row = 9" "pc_WbStatus applied_row = PriceStatusApplied" "pc_CanRollback applied_row"
    "pc_RollbackOf applied_row = None" "pc_WbProductID applied_row = 1" "pc_SellerCabinetID applied_row = 1" "pc_NewPriceRub applied_row = 1001"
    "pc_NewDiscountPercent applied_row = 0"
    by (simp_all add: applied_row_def run_defs price_source_defs wrap32_def)
  have p: "GetProductPriceForRollback 9 1 1 (tick (tick applied_db)) = Some (wit_cur\<lparr>pp_WorkspaceID := 9, pp_PriceRub := 1001\<rparr>)"
    by (simp add: GetProductPriceForRollback_def applied_db_def tick_def wit_cur_def)
  have "rollbackBaselineMatches (wit_cur\<lparr>pp_WorkspaceID := 9, pp_PriceRub := 1001\<rparr>) applied_row"
    by (simp add: rollbackBaselineMatches_def wit_cur_def r)
  then show ?thesis
    using undo_apply [of "tick (tick (tick (tick (tick applied_db))))"]
    by (simp add: Rollback_def GetPriceChange_def a r p rollback_guards_def HasNewerActivePriceChange_def HasRollbackChild_def
        HasInFlightPriceChange_def row_active_def price_status_defs Let_def)
qed

theorem rollback_restores_price_witness:
  "(\<exists>row \<in> set (price_changes applied_db). pc_ID row = 5 \<and> ch_NewPriceRub (priceChangeFromSqlc undo_row) = pc_OldPriceRub row \<and>
     ch_OldPriceRub (priceChangeFromSqlc undo_row) = pc_NewPriceRub row) \<and>
   (\<exists>cur \<in> set (product_prices applied_db). pp_WBProductID cur = ch_WBProductID (priceChangeFromSqlc undo_row) \<and>
     pp_PriceRub cur = ch_OldPriceRub (priceChangeFromSqlc undo_row))"
proof -
  have "Rollback calm_env 3 9 5 applied_db = (Inr (priceChangeFromSqlc undo_row), snd (Rollback calm_env 3 9 5 applied_db))"
    using rollback_run by (metis prod.collapse)
  from rollback_restores_price [OF applied_good this] show ?thesis by blast
qed


text \<open>The two price checks mirror each other, so the inverse of a change is allowed where the change was.\<close>

lemma checks_mirror:
  assumes "OldPriceRub back = NewPriceRub it" "NewPriceRub back = OldPriceRub it" "OldDiscount back = NewDiscount it"
    "NewDiscount back = OldDiscount it"
  shows "IntentSource it \<noteq> PriceSourceStrategy \<Longrightarrow> checkQuarantineRisk back = None \<longleftrightarrow> checkRaiseAnomaly it = None"
    "IntentSource back \<noteq> PriceSourceStrategy \<Longrightarrow> checkRaiseAnomaly back = None \<longleftrightarrow> checkQuarantineRisk it = None"
  using assms by (simp_all add: checkQuarantineRisk_def checkRaiseAnomaly_def Let_def)

lemma rollback_inverse:
  assumes "wrap32 (OldDiscount it) = OldDiscount it" "wrap32 (NewDiscount it) = NewDiscount it"
  shows "OldPriceRub (rollback_intent env actor cid (pending_row u now ws it)) = NewPriceRub it"
    "NewPriceRub (rollback_intent env actor cid (pending_row u now ws it)) = OldPriceRub it"
    "OldDiscount (rollback_intent env actor cid (pending_row u now ws it)) = NewDiscount it"
    "NewDiscount (rollback_intent env actor cid (pending_row u now ws it)) = OldDiscount it"
    "IntentSource (rollback_intent env actor cid (pending_row u now ws it)) \<noteq> PriceSourceStrategy"
  using assms by (simp_all add: rollback_intent_def pending_row_def price_source_defs)

text \<open>
  A manual or scheduled change that was accepted can be undone: the intent that a rollback of it
  builds passes the quarantine check and the raise check again, so it is not refused for its price.
\<close>

theorem accepted_change_is_revertible:
  assumes "checkQuarantineRisk it = None" "checkRaiseAnomaly it = None" "IntentSource it \<noteq> PriceSourceStrategy"
    and "wrap32 (OldDiscount it) = OldDiscount it" "wrap32 (NewDiscount it) = NewDiscount it"
  shows "checkQuarantineRisk (rollback_intent env actor cid (pending_row u now ws it)) = None \<and>
    checkRaiseAnomaly (rollback_intent env actor cid (pending_row u now ws it)) = None"
  using checks_mirror [OF rollback_inverse(1-4) [OF assms(4,5)]] rollback_inverse(5) [OF assms(4,5)] assms(1-3) by blast

theorem accepted_change_is_revertible_witness:
  "checkQuarantineRisk (rollback_intent calm_env 3 5 (pending_row 5 100 9 run_it)) = None \<and>
   checkRaiseAnomaly (rollback_intent calm_env 3 5 (pending_row 5 100 9 run_it)) = None"
  by (rule accepted_change_is_revertible [OF run_checks]) (simp_all add: run_it_def wit_intent_def price_source_defs wrap32_def)

text \<open>
  A strategy raise to three times the price or more is accepted and marked as one that can be rolled
  back, but its rollback is always refused: the inverse intent fails the quarantine check, which exempts no
  source. So \<^verbatim>\<open>can_rollback\<close> promises an operation that cannot succeed.
\<close>

theorem big_strategy_raise_not_revertible:
  assumes "IntentSource it = PriceSourceStrategy" "wrap32 (OldDiscount it) = OldDiscount it" "wrap32 (NewDiscount it) = NewDiscount it"
    and "0 < effectiveOf (OldPriceRub it) (OldDiscount it)" "in_int64 (3 * effectiveOf (OldPriceRub it) (OldDiscount it))"
    and "3 * effectiveOf (OldPriceRub it) (OldDiscount it) \<le> effectiveOf (NewPriceRub it) (NewDiscount it)"
  shows "checkRaiseAnomaly it = None \<and> pc_CanRollback (pending_row u now ws it) \<and>
    checkQuarantineRisk (rollback_intent env actor cid (pending_row u now ws it)) \<noteq> None"
  using assms rollback_inverse [OF assms(2,3)]
  by (simp add: checkRaiseAnomaly_def checkQuarantineRisk_def pending_row_def price_source_defs Let_def wrap64_id mult.commute)


theorem big_strategy_raise_not_revertible_witness:
  "\<exists>it. checkRaiseAnomaly it = None \<and> pc_CanRollback (pending_row 5 100 9 it) \<and>
     checkQuarantineRisk (rollback_intent calm_env 3 5 (pending_row 5 100 9 it)) \<noteq> None"
proof -
  let ?it = "(wit_intent 3000 [])\<lparr>OldPriceRub := 1000, IntentSource := PriceSourceStrategy\<rparr>"
  have "checkRaiseAnomaly ?it = None \<and> pc_CanRollback (pending_row 5 100 9 ?it) \<and>
     checkQuarantineRisk (rollback_intent calm_env 3 5 (pending_row 5 100 9 ?it)) \<noteq> None"
    by (rule big_strategy_raise_not_revertible)
      (simp_all add: wit_intent_def wrap32_def effectiveOf_eq in_int64_def int64_min_def int64_max_def)
  then show ?thesis by blast
qed

lemma bulk_outcomes_count:
  assumes "Ignored \<notin> set outs"
  shows "bulk_skipped outs + int (length (bulk_intents outs)) = int (length outs)"
  using assms
proof (induction outs)
  case (Cons o1 outs)
  then show ?case by (cases o1) (simp_all add: bulk_skipped_def bulk_intents_def List.map_filter_simps)
qed (simp add: bulk_skipped_def bulk_intents_def List.map_filter_simps)

lemma bulk_never_ignored:
  "bulk_item f actor prices floors item \<noteq> Ignored" "bulk_selected f actor prices floors cab adj nm \<noteq> Ignored"
  by (simp_all add: bulk_item_def bulk_selected_def outcome_of_def split: option.split)

definition bulk_asked :: "ManualPriceBulkRequest \<Rightarrow> nat" where
  "bulk_asked req = (if rq_Items req \<noteq> [] then length (rq_Items req) else length (sc_ProductIDs (the (rq_Scope req))))"

lemma bulk_outcomes_asked:
  assumes "rq_Items req \<noteq> [] \<or> sc_ProductIDs (the (rq_Scope req)) \<noteq> []"
  shows "bulk_skipped (bulk_outcomes actor req prices floors order) + int (length (bulk_intents (bulk_outcomes actor req prices floors order))) =
    int (bulk_asked req)"
proof -
  have "\<forall>x \<in> set (bulk_outcomes actor req prices floors order). x \<noteq> Ignored"
    using assms by (cases "rq_Items req = []") (simp_all add: bulk_outcomes_def Let_def bulk_never_ignored)
  then have "Ignored \<notin> set (bulk_outcomes actor req prices floors order)" by blast
  moreover have "length (bulk_outcomes actor req prices floors order) = bulk_asked req"
    using assms by (simp add: bulk_outcomes_def bulk_asked_def Let_def)
  ultimately show ?thesis using bulk_outcomes_count by metis
qed

lemma bulk_finish_counts:
  assumes "bulk_finish env ws outs db = (Inr res, db')"
  shows "br_Accepted res + br_Skipped res = bulk_skipped outs + int (length (bulk_intents outs))"
    "0 \<le> br_Accepted res" "0 \<le> br_Skipped res"
proof -
  obtain ids e1 d1 where e1: "enqueue_intents env ws (bulk_intents outs) db = ((ids, e1), d1)" by (metis surj_pair)
  obtain r err d2 where e2: "enqueueAndApplyIntents env ws (bulk_intents outs) db = ((r, err), d2)" by (metis surj_pair)
  have "ar_Accepted r = int (length ids)" by (rule enqueue_after_runs [OF e1 e2])
  moreover have "length ids \<le> length (bulk_intents outs)" using enqueue_ids_length [of env ws "bulk_intents outs" db] e1 by simp
  moreover have "0 \<le> bulk_skipped outs" by (simp add: bulk_skipped_def)
  ultimately show "br_Accepted res + br_Skipped res = bulk_skipped outs + int (length (bulk_intents outs))"
    "0 \<le> br_Accepted res" "0 \<le> br_Skipped res"
    using assms by (auto simp: bulk_finish_def e2 Let_def split: if_split_asm)
qed

lemma bulk_run_Inr:
  assumes "bulk_run env actor ws req db = (Inr res, db')"
  shows "\<exists>prices floors order d. bulk_finish env ws (bulk_outcomes actor req prices floors order) d = (Inr res, db')"
  using assms unfolding bulk_run_def query_def db_fail_def Let_def
  by (auto split: if_split_asm prod.split_asm)

lemma ApplyManualBulk_Inr:
  assumes "ApplyManualBulk env actor ws req db = (Inr res, db')"
  shows "validateManualPriceBulkRequest req = None \<and> (\<exists>d. bulk_run env actor ws req d = (Inr res, db'))"
  using assms unfolding ApplyManualBulk_def by (auto split: option.split_asm prod.split_asm)

text \<open>
  A manual bulk request that names its products (a list of items, or selected product ids) accounts
  for each of them: the accepted and the skipped changes of its result add up to the number of products
  that it named, whatever failed on the way.
\<close>

theorem bulk_accounts_for_every_product:
  assumes "ApplyManualBulk env actor ws req db = (Inr res, db')"
    and "rq_Items req \<noteq> [] \<or> sc_ProductIDs (the (rq_Scope req)) \<noteq> []"
  shows "br_Accepted res + br_Skipped res = int (bulk_asked req) \<and> 0 \<le> br_Accepted res \<and> 0 \<le> br_Skipped res"
proof -
  obtain d where d: "bulk_run env actor ws req d = (Inr res, db')" using ApplyManualBulk_Inr [OF assms(1)] by blast
  obtain prices floors order d' where f: "bulk_finish env ws (bulk_outcomes actor req prices floors order) d' = (Inr res, db')"
    using bulk_run_Inr [OF d] by blast
  show ?thesis using bulk_finish_counts [OF f] bulk_outcomes_asked [OF assms(2), of actor prices floors order] by simp
qed

definition ask_missing :: ManualPriceBulkRequest where
  "ask_missing = \<lparr>rq_Items = [\<lparr>mi_WBProductID = 77, mi_TargetPriceRub = Some 500, mi_DiscountPercent = None\<rparr>],
     rq_Scope = None, rq_Adjustment = None, rq_Comment = [], rq_Force = False\<rparr>"

theorem bulk_accounts_for_every_product_witness:
  "\<exists>res. fst (ApplyManualBulk calm_env 3 9 ask_missing run_db0) = Inr res \<and> br_Accepted res + br_Skipped res = 1"
proof -
  have valid: "validateManualPriceBulkRequest ask_missing = None"
    by (simp add: validateManualPriceBulkRequest_def ask_missing_def maxPriceRub_def lit_def round64_int [of 1000000000, simplified])
  have scope: "rq_Scope ask_missing = None" "rq_Items ask_missing \<noteq> []" by (simp_all add: ask_missing_def)
  have none: "overlayLatestPriceIntents (price_by_nm []) [] = (\<lambda>_. None)"
    by (simp add: overlayLatestPriceIntents_def price_by_nm_def)
  have outs: "bulk_outcomes 3 ask_missing (\<lambda>_. None) floors order = [Skipped]" for floors order
    by (simp add: bulk_outcomes_def ask_missing_def bulk_item_def)
  have reads: "ListProductPricesByWorkspace 9 n m (tick run_db0) = []" "ListLatestPriceIntents 9 None (tick (tick run_db0)) = []" for n m
    by (simp_all add: ListProductPricesByWorkspace_def ListLatestPriceIntents_def run_db0_def tick_def)
  have fin: "bulk_finish calm_env 9 [Skipped] d = (Inr \<lparr>br_Accepted = 0, br_Queued = 0, br_Failed = 0, br_Skipped = 1, br_TaskIDs = []\<rparr>, d)" for d
    by (simp add: bulk_finish_def bulk_intents_def bulk_skipped_def List.map_filter_simps enqueueAndApplyIntents_def)
  obtain db' where run: "ApplyManualBulk calm_env 3 9 ask_missing run_db0 =
      (Inr \<lparr>br_Accepted = 0, br_Queued = 0, br_Failed = 0, br_Skipped = 1, br_TaskIDs = []\<rparr>, db')"
    by (simp add: ApplyManualBulk_def valid scope bulk_run_def reads none outs fin Let_def case_prod_beta)
  have "int (bulk_asked ask_missing) = 1" by (simp add: bulk_asked_def ask_missing_def)
  then show ?thesis using bulk_accounts_for_every_product [OF run] scope(2) run by auto
qed

end
