(* ===== verification/Price_Schedule.thy ===== *)
theory Price_Schedule
  imports Repricer_Ops
begin

text \<open>
  Scheduled price changes, \<^verbatim>\<open>internal/service/price_schedule.go\<close> with the schedule statements of
  \<^verbatim>\<open>internal/repository/sqlc/repricer_manual.go\<close>: creating an entry (with its paired revert), cancelling it and the
  sweep that claims due entries and turns them into intents. The theorems show which inputs are accepted,
  that a finished entry stays as it is, that a scheduled change respects the margin floor and the
  quarantine threshold, and that a revert goes back to exactly the price before.
\<close>

section \<open>Data\<close>

definition PriceScopeProduct :: string where "PriceScopeProduct = ''product''"
definition PriceScopeList :: string where "PriceScopeList = ''list''"
definition PriceScopeAll :: string where "PriceScopeAll = ''all''"
definition PriceDirectionUp :: string where "PriceDirectionUp = ''up''"
definition PriceDirectionDown :: string where "PriceDirectionDown = ''down''"

lemmas schedule_const_defs = PriceScopeProduct_def PriceScopeList_def PriceScopeAll_def PriceDirectionUp_def PriceDirectionDown_def

record PriceScheduleInput =
  si_SellerCabinetID :: uuid
  si_ScopeType :: string
  si_ProductIDs :: "int list"
  si_AdjustmentType :: string
  si_AdjustmentValue :: f64
  si_Direction :: string
  si_ScheduledAt :: int
  si_RevertAt :: "int option"
  si_RevertToPrevious :: bool
  si_Comment :: string

record CreatePriceScheduleEntryParams =
  sp_WorkspaceID :: uuid
  sp_SellerCabinetID :: uuid
  sp_ScopeType :: string
  sp_ProductIds :: "int list"
  sp_AdjustmentType :: string
  sp_AdjustmentValue :: f64
  sp_Direction :: "string option"
  sp_ScheduledAt :: int
  sp_RevertAt :: "int option"
  sp_RevertToPrevious :: bool
  sp_RevertOf :: "uuid option"
  sp_Comment :: "string option"
  sp_CreatedBy :: "uuid option"

definition textToPgtype :: "string \<Rightarrow> string option" where
  "textToPgtype value = (if value = [] then None else Some value)"

section \<open>Statements\<close>

definition schedule_row :: "uuid \<Rightarrow> int \<Rightarrow> CreatePriceScheduleEntryParams \<Rightarrow> PriceScheduleEntry" where
  "schedule_row new_id now arg =
     \<lparr>se_ID = new_id, se_WorkspaceID = sp_WorkspaceID arg, se_SellerCabinetID = sp_SellerCabinetID arg,
      se_ScopeType = sp_ScopeType arg, se_ProductIds = sp_ProductIds arg, se_AdjustmentType = sp_AdjustmentType arg,
      se_AdjustmentValue = sp_AdjustmentValue arg, se_Direction = sp_Direction arg, se_ScheduledAt = sp_ScheduledAt arg,
      se_RevertAt = sp_RevertAt arg, se_RevertToPrevious = sp_RevertToPrevious arg, se_RevertOf = sp_RevertOf arg,
      se_Status = PriceSchedulePlanned, se_ExecutedTaskIds = [], se_Error = None, se_Comment = sp_Comment arg,
      se_CreatedBy = sp_CreatedBy arg, se_CreatedAt = now, se_UpdatedAt = now\<rparr>"

definition CreatePriceScheduleEntry ::
    "CreatePriceScheduleEntryParams \<Rightarrow> int \<Rightarrow> uuid \<Rightarrow> repricer_db \<Rightarrow> PriceScheduleEntry \<times> repricer_db" where
  "CreatePriceScheduleEntry arg now new_id db =
     (let row = schedule_row new_id now arg
      in (row, db\<lparr>price_schedule_entries := price_schedule_entries db @ [row]\<rparr>))"

text \<open>The pair is inserted by one statement: the revert entry takes cabinet, scope and products from the primary.\<close>

definition CreatePriceSchedulePair ::
    "CreatePriceScheduleEntryParams \<Rightarrow> CreatePriceScheduleEntryParams \<Rightarrow> int \<Rightarrow> uuid \<Rightarrow> uuid \<Rightarrow> repricer_db \<Rightarrow>
     PriceScheduleEntry \<times> repricer_db" where
  "CreatePriceSchedulePair primary revert now new_id revert_id db =
     (let row = schedule_row new_id now (primary\<lparr>sp_RevertOf := None\<rparr>);
          back = schedule_row revert_id now (revert\<lparr>sp_WorkspaceID := sp_WorkspaceID primary,
            sp_SellerCabinetID := sp_SellerCabinetID primary, sp_ScopeType := sp_ScopeType primary,
            sp_ProductIds := sp_ProductIds primary, sp_RevertAt := None, sp_RevertToPrevious := False,
            sp_RevertOf := Some new_id\<rparr>)
      in (row, db\<lparr>price_schedule_entries := price_schedule_entries db @ [row, back]\<rparr>))"

definition GetPriceScheduleEntry :: "uuid \<Rightarrow> repricer_db \<Rightarrow> PriceScheduleEntry option" where
  "GetPriceScheduleEntry entryID db = find (\<lambda>e. se_ID e = entryID) (price_schedule_entries db)"

text \<open>The status update touches only an entry that is not finished; no caller passes task ids.\<close>

definition UpdatePriceScheduleEntryStatus :: "uuid \<Rightarrow> string \<Rightarrow> string option \<Rightarrow> int \<Rightarrow> repricer_db \<Rightarrow> repricer_db" where
  "UpdatePriceScheduleEntryStatus entryID status err now db = db\<lparr>price_schedule_entries :=
     upd_where (\<lambda>e. se_ID e = entryID \<and> se_Status e \<notin> {PriceScheduleDone, PriceScheduleFailed, PriceScheduleCanceled})
       (\<lambda>e. e\<lparr>se_Status := status, se_Error := err, se_UpdatedAt := now\<rparr>) (price_schedule_entries db)\<rparr>"

definition due_entry :: "int \<Rightarrow> PriceScheduleEntry \<Rightarrow> bool" where
  "due_entry dueAt e \<longleftrightarrow> se_Status e = PriceSchedulePlanned \<and> se_ScheduledAt e \<le> dueAt"

text \<open>The claim updates the row with the id of the selected one, which is that row: the id is the primary key.\<close>

definition ClaimDuePriceScheduleEntry :: "int \<Rightarrow> int \<Rightarrow> repricer_db \<Rightarrow> PriceScheduleEntry option \<times> repricer_db" where
  "ClaimDuePriceScheduleEntry dueAt now db =
     (case sort_key se_ScheduledAt (filter (due_entry dueAt) (price_schedule_entries db)) of
        [] \<Rightarrow> (None, db)
      | e # _ \<Rightarrow>
        let claim = (\<lambda>x. x\<lparr>se_Status := PriceScheduleExecuting, se_UpdatedAt := now\<rparr>)
        in (Some (claim e), db\<lparr>price_schedule_entries := upd_where (\<lambda>x. se_ID x = se_ID e \<and> due_entry dueAt x) claim (price_schedule_entries db)\<rparr>))"

definition ListPriceChangesByScheduleEntry :: "uuid \<Rightarrow> uuid \<Rightarrow> repricer_db \<Rightarrow> PriceChangeRow list" where
  "ListPriceChangesByScheduleEntry workspaceID entryID db =
     sort_key pc_CreatedAt (sort_key pc_ID
       (filter (\<lambda>r. pc_WorkspaceID r = workspaceID \<and> pc_ScheduleEntryID r = Some entryID) (price_changes db)))"

section \<open>Creating and cancelling\<close>

definition validateScheduleProductIDs :: "int list \<Rightarrow> go_error" where
  "validateScheduleProductIDs ids =
     (if ids = [] then Some (validation_error ''scope_type=list requires product_ids'')
      else validate_ids ''product_ids must be positive'' ''product_ids must be unique'' ids [])"

definition validate_scope :: "PriceScheduleInput \<Rightarrow> go_error" where
  "validate_scope inp =
     (if si_ScopeType inp \<notin> {PriceScopeAll, PriceScopeList, PriceScopeProduct} then Some (validation_error ''invalid scope_type'')
      else if si_ScopeType inp = PriceScopeAll then
        (if si_ProductIDs inp \<noteq> [] then Some (validation_error ''scope_type=all does not accept product_ids'') else None)
      else if si_ScopeType inp = PriceScopeProduct then
        (if length (si_ProductIDs inp) \<noteq> 1 \<or> hd (si_ProductIDs inp) \<le> 0
         then Some (validation_error ''scope_type=product requires exactly one positive product_id'') else None)
      else validateScheduleProductIDs (si_ProductIDs inp))"

definition validate_schedule_adjustment :: "PriceScheduleInput \<Rightarrow> go_error" where
  "validate_schedule_adjustment inp =
     (let adj = \<lparr>adj_Type = si_AdjustmentType inp, adj_Value = si_AdjustmentValue inp\<rparr>
      in if si_AdjustmentType inp = PriceAdjustDeltaPercent then
           (if si_Direction inp \<noteq> PriceDirectionUp \<and> si_Direction inp \<noteq> PriceDirectionDown
            then Some (validation_error ''delta_percent requires direction up or down'')
            else if si_AdjustmentValue inp \<le> 0 then Some (validation_error ''delta_percent adjustment_value must be positive'')
            else validatePriceAdjustment adj True)
         else if si_AdjustmentType inp = PriceAdjustTargetRub then
           (if si_Direction inp \<noteq> [] then Some (validation_error ''target_rub does not accept direction'')
            else validatePriceAdjustment adj True)
         else Some (validation_error ''invalid adjustment_type''))"

definition validate_times :: "PriceScheduleInput \<Rightarrow> int \<Rightarrow> go_error" where
  "validate_times inp now =
     (if \<not> si_ScheduledAt inp > now then Some (validation_error ''scheduled_at must be in the future'')
      else case si_RevertAt inp of
             None \<Rightarrow> None
           | Some revertAt \<Rightarrow>
             if \<not> revertAt > si_ScheduledAt inp then Some (validation_error ''revert_at must be after scheduled_at'')
             else if si_AdjustmentType inp \<noteq> PriceAdjustDeltaPercent
             then Some (validation_error ''revert_at is supported for delta_percent adjustments only in v1'')
             else None)"

definition validateScheduleInput :: "PriceScheduleInput \<Rightarrow> int \<Rightarrow> go_error" where
  "validateScheduleInput inp now =
     (case validate_scope inp of
        Some e \<Rightarrow> Some e
      | None \<Rightarrow> (case validate_schedule_adjustment inp of Some e \<Rightarrow> Some e | None \<Rightarrow> validate_times inp now))"

definition signedScheduleDelta :: "f64 \<Rightarrow> string \<Rightarrow> f64" where
  "signedScheduleDelta value direction =
     (if direction = PriceDirectionDown then - \<bar>value\<bar> else \<bar>value\<bar>)"

definition inverseDeltaPercent :: "f64 \<Rightarrow> f64" where
  "inverseDeltaPercent v = (1 / (1 + v / lit 100) - 1) * lit 100"

definition primary_params :: "uuid \<Rightarrow> uuid \<Rightarrow> PriceScheduleInput \<Rightarrow> CreatePriceScheduleEntryParams" where
  "primary_params actorID workspaceID inp =
     \<lparr>sp_WorkspaceID = workspaceID, sp_SellerCabinetID = si_SellerCabinetID inp, sp_ScopeType = si_ScopeType inp,
      sp_ProductIds = si_ProductIDs inp, sp_AdjustmentType = si_AdjustmentType inp,
      sp_AdjustmentValue = si_AdjustmentValue inp, sp_Direction = textToPgtype (si_Direction inp),
      sp_ScheduledAt = si_ScheduledAt inp, sp_RevertAt = si_RevertAt inp, sp_RevertToPrevious = si_RevertToPrevious inp,
      sp_RevertOf = None, sp_Comment = textToPgtype (si_Comment inp), sp_CreatedBy = Some actorID\<rparr>"

text \<open>The fields of the revert parameters that the code leaves unset have their zero values.\<close>

definition revert_params :: "uuid \<Rightarrow> int \<Rightarrow> PriceScheduleInput \<Rightarrow> CreatePriceScheduleEntryParams" where
  "revert_params actorID revertAt inp =
     (let inverse = inverseDeltaPercent (signedScheduleDelta (si_AdjustmentValue inp) (si_Direction inp));
          revertDirection = (if inverse < 0 then PriceDirectionDown else PriceDirectionUp)
      in \<lparr>sp_WorkspaceID = uuid_Nil, sp_SellerCabinetID = uuid_Nil, sp_ScopeType = [], sp_ProductIds = [],
          sp_AdjustmentType = PriceAdjustDeltaPercent, sp_AdjustmentValue = \<bar>inverse\<bar>,
          sp_Direction = textToPgtype revertDirection, sp_ScheduledAt = revertAt, sp_RevertAt = None,
          sp_RevertToPrevious = False, sp_RevertOf = None, sp_Comment = textToPgtype ''automatic price revert'',
          sp_CreatedBy = Some actorID\<rparr>)"

definition insert_schedule ::
    "repricer_env \<Rightarrow> uuid \<Rightarrow> uuid \<Rightarrow> PriceScheduleInput \<Rightarrow> repricer_db \<Rightarrow> PriceScheduleEntry option \<times> repricer_db" where
  "insert_schedule env actorID workspaceID inp =
     (case si_RevertAt inp of
        Some revertAt \<Rightarrow>
          exec env (\<lambda>now u d. CreatePriceSchedulePair (primary_params actorID workspaceID inp) (revert_params actorID revertAt inp)
            now u (e_uuid env (calls d)) (tick d))
      | None \<Rightarrow> exec env (CreatePriceScheduleEntry (primary_params actorID workspaceID inp)))"

text \<open>The entry is returned as the row; the API type leaves out the author.\<close>

definition CreateSchedule :: "repricer_env \<Rightarrow> uuid \<Rightarrow> uuid \<Rightarrow> PriceScheduleInput \<Rightarrow> PriceScheduleEntry request" where
  "CreateSchedule env actorID workspaceID inp db =
     (case validateScheduleInput inp (e_now env (calls db)) of
        Some e \<Rightarrow> (Inl (AppErr e), db)
      | None \<Rightarrow>
        (case requireCabinetInWorkspace env workspaceID (si_SellerCabinetID inp) db of
           (Some e, db1) \<Rightarrow> (Inl (AppErr e), db1)
         | (None, db1) \<Rightarrow>
           (case insert_schedule env actorID workspaceID inp db1 of
              (None, db2) \<Rightarrow> db_fail env db2
            | (Some row, db2) \<Rightarrow> (Inr (row\<lparr>se_CreatedBy := None\<rparr>), db2))))"

text \<open>The update of a cancellation reports an error of its own when it meets no entry that is not finished.\<close>

definition CancelSchedule :: "repricer_env \<Rightarrow> uuid \<Rightarrow> uuid \<Rightarrow> unit request" where
  "CancelSchedule env workspaceID entryID =
     query env (\<lambda>_. GetPriceScheduleEntry entryID) (db_fail env) (\<lambda>found.
       case found of
         None \<Rightarrow> app_fail ErrNotFound ''schedule entry not found''
       | Some row \<Rightarrow>
         if se_WorkspaceID row \<noteq> workspaceID then app_fail ErrNotFound ''schedule entry not found''
         else if se_Status row \<noteq> PriceSchedulePlanned then app_fail ErrValidation ''only planned entries can be canceled''
         else (\<lambda>d. case exec env (\<lambda>now _ d. (\<exists>e \<in> set (price_schedule_entries d). se_ID e = entryID \<and> \<not> finished e,
                            UpdatePriceScheduleEntryStatus entryID PriceScheduleCanceled None now d)) d of
                     (None, d1) \<Rightarrow> db_fail env d1
                   | (Some True, d1) \<Rightarrow> (Inr (), d1)
                   | (Some False, d1) \<Rightarrow> (Inl (Joined [''no rows in result set'']), d1)))"

section \<open>Executing due entries\<close>

definition scheduleIncludesProduct :: "string \<Rightarrow> int list \<Rightarrow> int \<Rightarrow> bool" where
  "scheduleIncludesProduct scopeType targetNm nm \<longleftrightarrow> scopeType = PriceScopeAll \<or> nm \<in> set targetNm"

definition autoRevertPrimaryDisposition :: "string \<Rightarrow> string" where
  "autoRevertPrimaryDisposition status =
     (if status = PriceScheduleDone then ''execute''
      else if status = PriceSchedulePlanned \<or> status = PriceScheduleExecuting then ''defer''
      else ''reject'')"

text \<open>One product of \<^verbatim>\<open>buildScheduleIntents\<close>; the price is settled as in the manual path without force.\<close>

definition schedule_intent ::
    "uuid \<Rightarrow> uuid \<Rightarrow> ManualPriceAdjustment \<Rightarrow> (int \<rightharpoonup> int) \<Rightarrow> ProductPrice \<Rightarrow> priceChangeIntent option" where
  "schedule_intent entryID cabinetID adj floors cur =
     (let floorRub = floor_at floors (pp_WBProductID cur)
      in case settle_price False floorRub cur (applyAdjustment (pp_PriceRub cur) adj) (pp_DiscountPercent cur) of
           None \<Rightarrow> None
         | Some (base, stepped) \<Rightarrow>
           if base = pp_PriceRub cur then None
           else Some \<lparr>CabinetID = cabinetID, NmID = pp_WBProductID cur, OldPriceRub = pp_PriceRub cur, NewPriceRub = base,
                  OldDiscount = pp_DiscountPercent cur, NewDiscount = pp_DiscountPercent cur, IntentMinPriceRub = floorRub,
                  IntentReason = (if stepped then ''scheduled price change (quarantine-safe step toward target)''
                                  else ''scheduled price change''),
                  IntentSource = PriceSourceSchedule, StrategyID = None, ScheduleEntryID = Some entryID,
                  RollbackOf = None, CreatedBy = None\<rparr>)"

definition buildScheduleIntents ::
    "uuid \<Rightarrow> uuid \<Rightarrow> string \<Rightarrow> int list \<Rightarrow> ManualPriceAdjustment \<Rightarrow> price_map \<Rightarrow> (int \<rightharpoonup> int) \<Rightarrow> int list \<Rightarrow> priceChangeIntent list" where
  "buildScheduleIntents entryID cabinetID scopeType productIDs adj prices floors order =
     (let targetNm = (if scopeType = PriceScopeList \<or> scopeType = PriceScopeProduct then productIDs else [])
      in List.map_filter (schedule_intent entryID cabinetID adj floors)
           (filter (\<lambda>cur. scheduleIncludesProduct scopeType targetNm (pp_WBProductID cur)) (map (the \<circ> prices) order)))"

text \<open>The loop of \<^verbatim>\<open>buildExactScheduleRevert\<close>: the reason of the first change that cannot be reverted, or all intents.\<close>

definition revert_refusal ::
    "price_map \<Rightarrow> (int \<rightharpoonup> PriceChangeRow) \<Rightarrow> (int \<rightharpoonup> int) \<Rightarrow> PriceChangeRow \<Rightarrow> string option" where
  "revert_refusal prices latestByNm floors p =
     (let nm = pc_WbProductID p
      in if (case latestByNm nm of None \<Rightarrow> True | Some lst \<Rightarrow> pc_ID lst \<noteq> pc_ID p) \<or> pc_WbStatus p \<noteq> PriceStatusApplied
         then Some ''auto-revert canceled because a newer price change exists''
         else if (case prices nm of None \<Rightarrow> True
                  | Some cur \<Rightarrow> pp_PriceRub cur \<noteq> pc_NewPriceRub p \<or> pp_DiscountPercent cur \<noteq> pc_NewDiscountPercent p)
         then Some ''auto-revert canceled because the current WB price changed''
         else if floor_at floors nm > 0 \<and> effectiveOf (pc_OldPriceRub p) (pc_OldDiscountPercent p) < floor_at floors nm
         then Some ''auto-revert canceled because the previous price is below the current margin floor''
         else None)"

definition revert_intent :: "uuid \<Rightarrow> price_map \<Rightarrow> (int \<rightharpoonup> int) \<Rightarrow> PriceChangeRow \<Rightarrow> priceChangeIntent" where
  "revert_intent entryID prices floors p =
     (let current = the (prices (pc_WbProductID p))
      in \<lparr>CabinetID = pc_SellerCabinetID p, NmID = pc_WbProductID p, OldPriceRub = pp_PriceRub current,
          NewPriceRub = pc_OldPriceRub p, OldDiscount = pp_DiscountPercent current, NewDiscount = pc_OldDiscountPercent p,
          IntentMinPriceRub = floor_at floors (pc_WbProductID p), IntentReason = ''scheduled exact price revert'',
          IntentSource = PriceSourceSchedule, StrategyID = None, ScheduleEntryID = Some entryID, RollbackOf = None,
          CreatedBy = None\<rparr>)"

primrec revert_intents ::
    "uuid \<Rightarrow> price_map \<Rightarrow> (int \<rightharpoonup> PriceChangeRow) \<Rightarrow> (int \<rightharpoonup> int) \<Rightarrow> PriceChangeRow list \<Rightarrow> string + priceChangeIntent list" where
  "revert_intents entryID prices latestByNm floors [] = Inr []"
| "revert_intents entryID prices latestByNm floors (p # ps) =
     (case revert_refusal prices latestByNm floors p of
        Some reason \<Rightarrow> Inl reason
      | None \<Rightarrow>
        (case revert_intents entryID prices latestByNm floors ps of
           Inl reason \<Rightarrow> Inl reason
         | Inr its \<Rightarrow> Inr (revert_intent entryID prices floors p # its)))"

definition latest_by_nm :: "PriceChangeRow list \<Rightarrow> (int \<rightharpoonup> PriceChangeRow)" where
  "latest_by_nm latest = foldl (\<lambda>m c. m(pc_WbProductID c \<mapsto> c)) (\<lambda>_. None) latest"

text \<open>The result is the reason of a refusal (or of a failed read, which is handled alike) or the intents.\<close>

definition buildExactScheduleRevert ::
    "repricer_env \<Rightarrow> PriceScheduleEntry \<Rightarrow> price_map \<Rightarrow> PriceChangeRow list \<Rightarrow> (int \<rightharpoonup> int) \<Rightarrow> uuid \<Rightarrow> repricer_db \<Rightarrow>
     (string + priceChangeIntent list) \<times> repricer_db" where
  "buildExactScheduleRevert env row prices latest floors primaryID =
     query env (\<lambda>_. ListPriceChangesByScheduleEntry (se_WorkspaceID row) primaryID) (Pair (Inl (e_dberr env))) (\<lambda>changes.
       Pair (if changes = [] then Inl ''auto-revert primary has no price changes''
             else revert_intents (se_ID row) prices (latest_by_nm latest) floors changes))"

fun join_errs :: "errs \<Rightarrow> string" where
  "join_errs [] = []"
| "join_errs [e] = e"
| "join_errs (e # es) = e @ CHR 0x0A # join_errs es"

definition failSchedule :: "repricer_env \<Rightarrow> uuid \<Rightarrow> string \<Rightarrow> repricer_db \<Rightarrow> bool \<times> repricer_db" where
  "failSchedule env entryID reason db =
     (False, snd (exec_upd env (UpdatePriceScheduleEntryStatus entryID PriceScheduleFailed (truncatedText (take 500 reason))) db))"

definition enqueueScheduleIntents ::
    "repricer_env \<Rightarrow> PriceScheduleEntry \<Rightarrow> priceChangeIntent list \<Rightarrow> repricer_db \<Rightarrow> bool \<times> repricer_db" where
  "enqueueScheduleIntents env row intents db =
     (if intents = [] then failSchedule env (se_ID row) ''no applicable price changes'' db
      else
        let ((result, err), db1) = enqueueAndApplyIntents env (se_WorkspaceID row) intents db
        in if err \<noteq> [] \<and> ar_Accepted result = 0 then failSchedule env (se_ID row) (join_errs err) db1
           else if ar_Accepted result = 0 then failSchedule env (se_ID row) ''price change intent was not saved'' db1
           else (False, snd (exec_upd env (AggregatePriceSchedules (se_WorkspaceID row) None) db1)))"

text \<open>The part of \<^verbatim>\<open>executeScheduleEntry\<close> after the price snapshot is read.\<close>

definition schedule_prices ::
    "repricer_env \<Rightarrow> PriceScheduleEntry \<Rightarrow> uuid option \<Rightarrow> ProductPrice list \<Rightarrow> PriceChangeRow list \<Rightarrow> repricer_db \<Rightarrow> bool \<times> repricer_db" where
  "schedule_prices env row primary prices latest d =
     (let priceByNm = overlayLatestPriceIntents (price_by_nm prices) latest;
          order = e_map_order env (calls d) (price_keys prices latest);
          (floors, d1) = load_floors env (se_WorkspaceID row) d
      in case primary of
           Some primaryID \<Rightarrow>
             (case buildExactScheduleRevert env row priceByNm latest floors primaryID d1 of
                (Inl reason, d2) \<Rightarrow> failSchedule env (se_ID row) reason d2
              | (Inr intents, d2) \<Rightarrow> enqueueScheduleIntents env row intents d2)
         | None \<Rightarrow>
           let adjustmentValue = (if se_AdjustmentType row = PriceAdjustDeltaPercent
                 then signedScheduleDelta (se_AdjustmentValue row) (case se_Direction row of None \<Rightarrow> [] | Some x \<Rightarrow> x)
                 else se_AdjustmentValue row);
               adj = \<lparr>adj_Type = se_AdjustmentType row, adj_Value = adjustmentValue\<rparr>
           in enqueueScheduleIntents env row
                (buildScheduleIntents (se_ID row) (se_SellerCabinetID row) (se_ScopeType row) (se_ProductIds row) adj priceByNm floors order) d1)"

definition schedule_run :: "repricer_env \<Rightarrow> PriceScheduleEntry \<Rightarrow> uuid option \<Rightarrow> repricer_db \<Rightarrow> bool \<times> repricer_db" where
  "schedule_run env row primary db =
     (let read = query env (\<lambda>_. ListProductPricesByCabinet (se_SellerCabinetID row)) (failSchedule env (se_ID row) (e_dberr env)) (\<lambda>prices.
            query env (\<lambda>_. ListLatestPriceIntents (se_WorkspaceID row) (Some (se_SellerCabinetID row)))
              (failSchedule env (se_ID row) (e_dberr env)) (schedule_prices env row primary prices))
      in case requireCabinetInWorkspace env (se_WorkspaceID row) (se_SellerCabinetID row) db of
           (Some _, db1) \<Rightarrow> failSchedule env (se_ID row) ''seller cabinet does not belong to schedule workspace'' db1
         | (None, db1) \<Rightarrow>
           query env (PausedCabinets (se_WorkspaceID row)) read (\<lambda>paused.
             if se_SellerCabinetID row \<in> set paused then Pair True else read) db1)"

definition executeScheduleEntry :: "repricer_env \<Rightarrow> PriceScheduleEntry \<Rightarrow> repricer_db \<Rightarrow> bool \<times> repricer_db" where
  "executeScheduleEntry env row =
     (case se_RevertOf row of
        None \<Rightarrow> schedule_run env row None
      | Some primaryID \<Rightarrow>
        query env (\<lambda>_. GetPriceScheduleEntry primaryID)
          (failSchedule env (se_ID row) ''auto-revert primary schedule not found'') (\<lambda>found.
          case found of
            None \<Rightarrow> failSchedule env (se_ID row) ''auto-revert primary schedule not found''
          | Some primary \<Rightarrow>
            if se_WorkspaceID primary \<noteq> se_WorkspaceID row then failSchedule env (se_ID row) ''auto-revert primary schedule not found''
            else if autoRevertPrimaryDisposition (se_Status primary) = ''defer'' then Pair True
            else if autoRevertPrimaryDisposition (se_Status primary) = ''reject''
            then failSchedule env (se_ID row) ''auto-revert primary schedule did not complete''
            else schedule_run env row (Some primaryID)))"

definition scheduleClaimBatch :: nat where "scheduleClaimBatch = 200"

text \<open>The claim loop: at most \<open>n\<close> entries; the result is the number executed, the deferred ids and the error.\<close>

primrec claim_loop ::
    "repricer_env \<Rightarrow> int \<Rightarrow> nat \<Rightarrow> repricer_db \<Rightarrow> (int \<times> uuid list \<times> errs) \<times> repricer_db" where
  "claim_loop env dueAt 0 db = ((0, [], []), db)"
| "claim_loop env dueAt (Suc n) db =
     (case exec env (\<lambda>now _. ClaimDuePriceScheduleEntry dueAt now) db of
        (None, db1) \<Rightarrow> ((0, [], [e_dberr env]), db1)
      | (Some None, db1) \<Rightarrow> ((0, [], []), db1)
      | (Some (Some row), db1) \<Rightarrow>
        let (deferred, db2) = executeScheduleEntry env row db1;
            ((executed, ids, err), db3) = claim_loop env dueAt n db2
        in if deferred then ((executed, se_ID row # ids, err), db3) else ((executed + 1, ids, err), db3))"

primrec requeue :: "repricer_env \<Rightarrow> uuid list \<Rightarrow> repricer_db \<Rightarrow> repricer_db" where
  "requeue env [] db = db"
| "requeue env (entryID # ids) db =
     requeue env ids (snd (exec_upd env (UpdatePriceScheduleEntryStatus entryID PriceSchedulePlanned None) db))"

definition ExecuteDueSchedules :: "repricer_env \<Rightarrow> int \<Rightarrow> repricer_db \<Rightarrow> (int \<times> errs) \<times> repricer_db" where
  "ExecuteDueSchedules env now db =
     (let ((executed, deferred, err), db1) = claim_loop env now scheduleClaimBatch db
      in ((executed, err), requeue env deferred db1))"

section \<open>Schedule operations are runs\<close>

lemma update_keeps: "schedules_kept (price_schedule_entries db) (price_schedule_entries (UpdatePriceScheduleEntryStatus i st err now db))"
  unfolding UpdatePriceScheduleEntryStatus_def
  by (simp, rule schedules_kept_upd) (simp add: finished_def same_plan_def)

lemma update_runs: "runs env db (snd (exec_upd env (UpdatePriceScheduleEntryStatus i st err) db))"
  by (rule schedules_only_runs) (use update_keeps in \<open>simp_all add: UpdatePriceScheduleEntryStatus_def\<close>)

text \<open>A statement that only changes the schedule table.\<close>

lemma schedule_exec_runs:
  assumes "exec env stmt db = (r, db')"
    and "\<And>now u x d. stmt now u (tick db) = (x, d) \<Longrightarrow> price_changes d = price_changes db \<and> Suc (calls db) \<le> calls d \<and> wb_sent d = wb_sent db \<and>
      schedules_kept (price_schedule_entries db) (price_schedule_entries d)"
  shows "runs env db db'"
  using assms(1)
proof (cases rule: exec_cases)
  case (ran x)
  note d = assms(2) [OF ran(2)]
  have "sql_step db db'" using d by (intro sql_step.other) simp_all
  then show ?thesis using d by (auto simp: runs_def good_def ids_unused_def queue_wf_def sent_ok_def)
qed simp

lemma insert_schedule_runs: "runs env db (snd (insert_schedule env actor ws inp db))"
proof (cases "si_RevertAt inp")
  case None
  obtain r db' where e: "exec env (CreatePriceScheduleEntry (primary_params actor ws inp)) db = (r, db')" by (metis surj_pair)
  then have "runs env db db'"
    by (rule schedule_exec_runs) (auto simp: CreatePriceScheduleEntry_def Let_def intro: schedules_kept_append)
  then show ?thesis by (simp add: insert_schedule_def None e)
next
  case (Some t)
  let ?s = "\<lambda>now u d. CreatePriceSchedulePair (primary_params actor ws inp) (revert_params actor t inp) now u (e_uuid env (calls d)) (tick d)"
  obtain r db' where e: "exec env ?s db = (r, db')" by (cases "exec env ?s db")
  then have "runs env db db'"
    by (rule schedule_exec_runs) (auto simp: CreatePriceSchedulePair_def Let_def intro: schedules_kept_append)
  then show ?thesis by (simp add: insert_schedule_def Some e)
qed

lemma CreateSchedule_runs: "runs env db (snd (CreateSchedule env actor ws inp db))"
proof -
  obtain r db1 where c: "requireCabinetInWorkspace env ws (si_SellerCabinetID inp) db = (r, db1)" by (metis surj_pair)
  obtain x db2 where i: "insert_schedule env actor ws inp db1 = (x, db2)" by (metis surj_pair)
  have "runs env db db1" "runs env db1 db2"
    using requireCabinet_runs [of env db ws] insert_schedule_runs [of env db1 actor ws inp] c i by (metis snd_conv)+
  then have "runs env db db1" "runs env db db2" using runs_trans by blast+
  then show ?thesis by (cases r; cases x) (simp_all add: CreateSchedule_def c i split: option.split)
qed

lemma CancelSchedule_runs: "runs env db (snd (CancelSchedule env ws entryID db))"
proof -
  let ?s = "\<lambda>now (_ :: uuid) d. (\<exists>e \<in> set (price_schedule_entries d). se_ID e = entryID \<and> \<not> finished e,
      UpdatePriceScheduleEntryStatus entryID PriceScheduleCanceled None now d)"
  have "runs env d (snd (case exec env ?s d of (None, d1) \<Rightarrow> db_fail env d1 | (Some True, d1) \<Rightarrow> (Inr (), d1)
      | (Some False, d1) \<Rightarrow> (Inl (Joined [''no rows in result set'']), d1)))" for d
  proof -
    obtain r d' where e: "exec env ?s d = (r, d')" by (cases "exec env ?s d")
    have "runs env d d'"
      using e by (rule schedule_exec_runs) (use update_keeps [of "tick d"] in \<open>auto simp: UpdatePriceScheduleEntryStatus_def\<close>)
    then show ?thesis unfolding e by (simp split: option.split bool.split)
  qed
  note upd = this
  show ?thesis unfolding CancelSchedule_def
  proof (rule query_runs)
    show "runs env (tick db) (snd ((case GetPriceScheduleEntry entryID (tick db) of
         None \<Rightarrow> app_fail ErrNotFound ''schedule entry not found''
       | Some row \<Rightarrow>
         if se_WorkspaceID row \<noteq> ws then app_fail ErrNotFound ''schedule entry not found''
         else if se_Status row \<noteq> PriceSchedulePlanned then app_fail ErrValidation ''only planned entries can be canceled''
         else (\<lambda>d. case exec env ?s d of (None, d1) \<Rightarrow> db_fail env d1 | (Some True, d1) \<Rightarrow> (Inr (), d1)
                   | (Some False, d1) \<Rightarrow> (Inl (Joined [''no rows in result set'']), d1))) (tick db)))"
      by (cases "GetPriceScheduleEntry entryID (tick db)") (use upd in \<open>simp_all only: option.case if_splits fail_runs runs_refl simp_thms split: if_split\<close>)
  qed simp
qed

lemma fail_schedule_runs: "runs env db (snd (failSchedule env i reason db))"
  by (simp add: failSchedule_def update_runs)

lemma schedule_intents_no_rollback:
  "it \<in> set (buildScheduleIntents eid cab scope ids adj prices floors order) \<Longrightarrow> RollbackOf it = None"
  by (auto simp: buildScheduleIntents_def schedule_intent_def List.map_filter_def Let_def split: option.split_asm prod.split_asm if_split_asm)

lemma revert_intents_Inr:
  assumes "revert_intents eid prices latest floors ps = Inr its"
  shows "its = map (revert_intent eid prices floors) ps" "\<forall>p \<in> set ps. revert_refusal prices latest floors p = None"
  using assms by (induction ps arbitrary: its) (auto split: option.split_asm sum.split_asm)

lemma revert_intents_no_rollback:
  "\<lbrakk>revert_intents eid prices latest floors ps = Inr its; it \<in> set its\<rbrakk> \<Longrightarrow> RollbackOf it = None"
  using revert_intents_Inr(1) by (fastforce simp: revert_intent_def Let_def)

lemma enqueueScheduleIntents_runs:
  assumes "\<And>it. it \<in> set its \<Longrightarrow> RollbackOf it = None"
  shows "runs env db (snd (enqueueScheduleIntents env row its db))"
proof -
  obtain result err db1 where e: "enqueueAndApplyIntents env (se_WorkspaceID row) its db = ((result, err), db1)" by (metis surj_pair)
  have r1: "runs env db db1" using enqueueAndApplyIntents_runs [of its db env "se_WorkspaceID row"] assms e by simp
  then have "runs env db (snd (failSchedule env i reason db1))" "runs env db (snd (exec_upd env (AggregatePriceSchedules ws None) db1))" for i reason ws
    using fail_schedule_runs aggregate_all_runs runs_trans by blast+
  then show ?thesis using fail_schedule_runs by (simp add: enqueueScheduleIntents_def e Let_def)
qed


lemma buildExact_result:
  "buildExactScheduleRevert env row prices latest floors pid db = (r, db') \<Longrightarrow> db' = tick db \<and>
     (\<forall>its. r = Inr its \<longrightarrow> ListPriceChangesByScheduleEntry (se_WorkspaceID row) pid (tick db) \<noteq> [] \<and>
        revert_intents (se_ID row) prices (latest_by_nm latest) floors (ListPriceChangesByScheduleEntry (se_WorkspaceID row) pid (tick db)) = Inr its)"
  by (auto simp: buildExactScheduleRevert_def query_def split: if_split_asm)

lemma schedule_prices_runs: "runs env db (snd (schedule_prices env row primary prices latest db))"
proof -
  obtain floors d1 where f: "load_floors env (se_WorkspaceID row) db = (floors, d1)" by (metis surj_pair)
  have r1: "runs env db d1" using load_floors_runs [of env db] f by (metis snd_conv)
  show ?thesis
  proof (cases primary)
    case None
    have "runs env db (snd (enqueueScheduleIntents env row (buildScheduleIntents eid cab scope ids adj pm floors order) d1))"
      for eid cab scope ids adj pm order
      by (rule runs_trans [OF r1], rule enqueueScheduleIntents_runs, rule schedule_intents_no_rollback)
    then show ?thesis by (simp add: schedule_prices_def f None Let_def)
  next
    case (Some pid)
    obtain r d2 where b: "buildExactScheduleRevert env row (overlayLatestPriceIntents (price_by_nm prices) latest) latest floors pid d1 = (r, d2)"
      by (metis surj_pair)
    note res = buildExact_result [OF b]
    have r2: "runs env db d2" using r1 res runs_trans runs_tick by blast
    have "runs env db (snd (failSchedule env (se_ID row) reason d2))" for reason using r2 fail_schedule_runs runs_trans by blast
    moreover have "runs env db (snd (enqueueScheduleIntents env row its d2))" if "r = Inr its" for its
    proof -
      have "RollbackOf it = None" if "it \<in> set its" for it using res \<open>r = Inr its\<close> that revert_intents_no_rollback by blast
      then show ?thesis using enqueueScheduleIntents_runs r2 runs_trans by blast
    qed
    ultimately show ?thesis by (simp add: schedule_prices_def f Some b Let_def split: sum.split)
  qed
qed

lemma schedule_run_runs: "runs env db (snd (schedule_run env row primary db))"
proof -
  define read where "read = query env (\<lambda>_. ListProductPricesByCabinet (se_SellerCabinetID row)) (failSchedule env (se_ID row) (e_dberr env)) (\<lambda>prices.
            query env (\<lambda>_. ListLatestPriceIntents (se_WorkspaceID row) (Some (se_SellerCabinetID row)))
              (failSchedule env (se_ID row) (e_dberr env)) (schedule_prices env row primary prices))"
  have read: "runs env d (snd (read d))" for d
    unfolding read_def by (intro query_runs fail_schedule_runs schedule_prices_runs)
  obtain r db1 where c: "requireCabinetInWorkspace env (se_WorkspaceID row) (se_SellerCabinetID row) db = (r, db1)" by (metis surj_pair)
  have r1: "runs env db db1" using requireCabinet_runs [of env db] c by (metis snd_conv)
  have "runs env db1 (snd (query env (PausedCabinets (se_WorkspaceID row)) read (\<lambda>paused.
             if se_SellerCabinetID row \<in> set paused then Pair True else read) db1))"
    by (intro query_runs) (simp_all add: read)
  then have "runs env db (snd (query env (PausedCabinets (se_WorkspaceID row)) read (\<lambda>paused.
             if se_SellerCabinetID row \<in> set paused then Pair True else read) db1))" using r1 runs_trans by blast
  moreover have "runs env db (snd (failSchedule env (se_ID row) reason db1))" for reason using r1 fail_schedule_runs runs_trans by blast
  ultimately show ?thesis by (cases r) (simp_all add: schedule_run_def read_def [symmetric] c Let_def)
qed

lemma executeScheduleEntry_runs: "runs env db (snd (executeScheduleEntry env row db))"
proof (cases "se_RevertOf row")
  case None
  then show ?thesis by (simp add: executeScheduleEntry_def schedule_run_runs)
next
  case (Some pid)
  then show ?thesis unfolding executeScheduleEntry_def Some option.case
    by (intro query_runs) (simp_all add: fail_schedule_runs schedule_run_runs split: option.split)
qed

lemma claim_due_keeps:
  "ClaimDuePriceScheduleEntry dueAt now db = (r, db') \<Longrightarrow> price_changes db' = price_changes db \<and> calls db' = calls db \<and> wb_sent db' = wb_sent db \<and>
     schedules_kept (price_schedule_entries db) (price_schedule_entries db')"
  unfolding ClaimDuePriceScheduleEntry_def Let_def
  by (auto split: list.split_asm intro!: schedules_kept_upd simp: due_entry_def finished_def same_plan_def price_schedule_defs)

lemma claim_loop_runs: "runs env db (snd (claim_loop env dueAt n db))"
proof (induction n arbitrary: db)
  case (Suc n)
  let ?s = "\<lambda>now (_ :: uuid). ClaimDuePriceScheduleEntry dueAt now"
  obtain r db1 where e: "exec env ?s db = (r, db1)" by (metis surj_pair)
  have r1: "runs env db db1"
    using e by (rule schedule_exec_runs) (use claim_due_keeps [of dueAt _ "tick db"] in fastforce)
  show ?case
  proof (cases "r = None \<or> r = Some None")
    case True
    then show ?thesis using r1 by (auto simp: e)
  next
    case False
    then obtain row where row: "r = Some (Some row)" by (metis option.exhaust)
    obtain f db2 where x: "executeScheduleEntry env row db1 = (f, db2)" by (metis surj_pair)
    have "runs env db db2" using executeScheduleEntry_runs [of env db1 row] x r1 runs_trans by (metis snd_conv)
    then have "runs env db (snd (claim_loop env dueAt n db2))" using Suc runs_trans by blast
    then show ?thesis by (simp add: e row x case_prod_beta)
  qed
qed simp

lemma requeue_runs: "runs env db (requeue env ids db)"
proof (induction ids arbitrary: db)
  case (Cons i ids)
  then show ?case using update_runs runs_trans by simp blast
qed simp

lemma ExecuteDueSchedules_runs: "runs env db (snd (ExecuteDueSchedules env now db))"
proof -
  obtain executed deferred err db1 where c: "claim_loop env now scheduleClaimBatch db = ((executed, deferred, err), db1)" by (metis surj_pair)
  have "runs env db db1" using claim_loop_runs [of env db now scheduleClaimBatch] c by simp
  then show ?thesis using requeue_runs runs_trans by (simp add: ExecuteDueSchedules_def c)
qed

section \<open>Properties of schedules\<close>

interpretation scheduled: settled_path "schedule_intent entryID cabinetID adj floors cur" False floors cur
    "applyAdjustment (pp_PriceRub cur) adj" "pp_DiscountPercent cur"
  for entryID cabinetID adj floors cur
  by unfold_locales (auto simp: schedule_intent_def Let_def split: option.split_asm prod.split_asm if_split_asm)

lemma build_intents_elim:
  assumes "it \<in> set (buildScheduleIntents entryID cabinetID scopeType productIDs adj prices floors order)"
  obtains nm where "nm \<in> set order" "schedule_intent entryID cabinetID adj floors (the (prices nm)) = Some it"
    "scopeType = PriceScopeAll \<or> pp_WBProductID (the (prices nm)) \<in> set productIDs"
  using assms
  by (auto simp: buildScheduleIntents_def List.map_filter_def scheduleIncludesProduct_def split: if_split_asm)

text \<open>
  A scheduled change is as safe as a manual one: every intent that a due entry produces is for a product
  in the scope of the entry, is no quarantine risk, and reaches the margin floor of the product or raises a
  price that was below it.
\<close>

theorem scheduled_change_safe:
  assumes "it \<in> set (buildScheduleIntents entryID cabinetID scopeType productIDs adj prices floors order)"
    and "\<forall>nm \<in> set order. adjust_range (the (prices nm)) (applyAdjustment (pp_PriceRub (the (prices nm))) adj)
           (floor_at floors (pp_WBProductID (the (prices nm))))"
  shows "(scopeType = PriceScopeAll \<or> NmID it \<in> set productIDs) \<and> checkQuarantineRisk it = None \<and>
    ScheduleEntryID it = Some entryID \<and>
    (0 < floor_at floors (NmID it) \<longrightarrow>
       floor_at floors (NmID it) \<le> effectiveOf (NewPriceRub it) (NewDiscount it) \<or>
       effectiveOf (OldPriceRub it) (OldDiscount it) < floor_at floors (NmID it) \<and>
       effectiveOf (OldPriceRub it) (OldDiscount it) < effectiveOf (NewPriceRub it) (NewDiscount it))"
proof -
  obtain nm where nm: "nm \<in> set order" "schedule_intent entryID cabinetID adj floors (the (prices nm)) = Some it"
    "scopeType = PriceScopeAll \<or> pp_WBProductID (the (prices nm)) \<in> set productIDs"
    using build_intents_elim [OF assms(1)] by blast
  have f: "NmID it = pp_WBProductID (the (prices nm))" "ScheduleEntryID it = Some entryID"
    using nm(2) by (auto simp: schedule_intent_def Let_def split: option.split_asm prod.split_asm if_split_asm)
  note r = bspec [OF assms(2) nm(1)]
  show ?thesis
    using nm(3) f scheduled.quarantine_safe [OF nm(2) r] scheduled.respects_floor [OF nm(2) r] by auto
qed

text \<open>
  C31 An automatic revert is exact or does not happen: when the changes of the primary entry are turned
  into intents, there is one for each of them, it leads from the price and discount that the change had
  set, which are still the current ones, back to those before it, and the restored price is not
  below the margin floor.
\<close>

theorem revert_restores_previous_price:
  assumes "revert_intents entryID prices latest floors changes = Inr its"
  shows "length its = length changes \<and> (\<forall>i < length changes.
    NmID (its ! i) = pc_WbProductID (changes ! i) \<and> pc_WbStatus (changes ! i) = PriceStatusApplied \<and>
    OldPriceRub (its ! i) = pc_NewPriceRub (changes ! i) \<and> NewPriceRub (its ! i) = pc_OldPriceRub (changes ! i) \<and>
    OldDiscount (its ! i) = pc_NewDiscountPercent (changes ! i) \<and> NewDiscount (its ! i) = pc_OldDiscountPercent (changes ! i) \<and>
    (0 < floor_at floors (NmID (its ! i)) \<longrightarrow>
       floor_at floors (NmID (its ! i)) \<le> effectiveOf (NewPriceRub (its ! i)) (NewDiscount (its ! i))))"
proof -
  note m = revert_intents_Inr [OF assms]
  have "NmID (revert_intent entryID prices floors p) = pc_WbProductID p \<and> pc_WbStatus p = PriceStatusApplied \<and>
    OldPriceRub (revert_intent entryID prices floors p) = pc_NewPriceRub p \<and> NewPriceRub (revert_intent entryID prices floors p) = pc_OldPriceRub p \<and>
    OldDiscount (revert_intent entryID prices floors p) = pc_NewDiscountPercent p \<and>
    NewDiscount (revert_intent entryID prices floors p) = pc_OldDiscountPercent p \<and>
    (0 < floor_at floors (pc_WbProductID p) \<longrightarrow> floor_at floors (pc_WbProductID p) \<le> effectiveOf (pc_OldPriceRub p) (pc_OldDiscountPercent p))"
    if "p \<in> set changes" for p
    using bspec [OF m(2) that] by (auto simp: revert_refusal_def revert_intent_def Let_def split: option.split_asm if_split_asm)
  then show ?thesis by (simp add: m(1) revert_intent_def Let_def)
qed

lemma failSchedule_quiet:
  "failSchedule env i reason db = (x, db') \<Longrightarrow> \<not> x \<and> price_changes db' = price_changes db \<and> wb_sent db' = wb_sent db"
  by (auto simp: failSchedule_def exec_upd_def exec_def Let_def UpdatePriceScheduleEntryStatus_def)

text \<open>
  A revert waits for its primary: executing a revert entry whose primary entry is missing or has not
  completed leaves the price changes and everything sent to the marketplace as they are, and the
  entry is only deferred when the primary is still planned or executing.
\<close>

theorem revert_waits_for_primary:
  assumes "se_RevertOf row = Some primaryID" "executeScheduleEntry env row db = (deferred, db')"
    and "\<And>p. GetPriceScheduleEntry primaryID db = Some p \<Longrightarrow> se_Status p \<noteq> PriceScheduleDone"
  shows "price_changes db' = price_changes db \<and> wb_sent db' = wb_sent db \<and>
    (deferred \<longrightarrow> (\<exists>p. GetPriceScheduleEntry primaryID db = Some p \<and> se_WorkspaceID p = se_WorkspaceID row \<and>
       se_Status p \<in> {PriceSchedulePlanned, PriceScheduleExecuting}))"
proof -
  have t: "GetPriceScheduleEntry primaryID (tick db) = GetPriceScheduleEntry primaryID db"
    by (simp add: GetPriceScheduleEntry_def)
  note x = assms(2) [unfolded executeScheduleEntry_def assms(1) option.case query_def t]
  show ?thesis
  proof (cases "e_fault env (calls db) \<or> GetPriceScheduleEntry primaryID db = None")
    case True
    then have "failSchedule env (se_ID row) ''auto-revert primary schedule not found'' (tick db) = (deferred, db')"
      using x by (auto split: if_split_asm)
    from failSchedule_quiet [OF this] show ?thesis by simp
  next
    case False
    then obtain p where p: "GetPriceScheduleEntry primaryID db = Some p" "\<not> e_fault env (calls db)" by auto
    have "se_Status p \<noteq> PriceScheduleDone" using assms(3) p(1) .
    note y = x [simplified p option.case if_False, unfolded autoRevertPrimaryDisposition_def if_not_P [OF this]]
    show ?thesis
    proof (cases "se_WorkspaceID p = se_WorkspaceID row \<and> (se_Status p = PriceSchedulePlanned \<or> se_Status p = PriceScheduleExecuting)")
      case True
      then have "deferred \<and> db' = tick db" using y by simp
      then show ?thesis using True p(1) by auto
    next
      case False
      then obtain reason where "failSchedule env (se_ID row) reason (tick db) = (deferred, db')"
        using y by (simp split: if_split_asm)
      from failSchedule_quiet [OF this] show ?thesis by simp
    qed
  qed
qed

lemma raise_target: "applyAdjustment 3000 \<lparr>adj_Type = PriceAdjustTargetRub, adj_Value = Fin 4000\<rparr> = 4000"
  by (simp add: applyAdjustment_def price_adjust_type_defs IsNaN_def IsInf_def maxPriceRub_def lit_def
      round64_int [of 1000000000, simplified] round_away_int [of 4000, simplified] trunc_rat_def in_int64_def int64_min_def int64_max_def go_eval)

definition planned_intent :: priceChangeIntent where
  "planned_intent = \<lparr>CabinetID = 1, NmID = 1, OldPriceRub = 3000, NewPriceRub = 4000, OldDiscount = 0, NewDiscount = 0,
     IntentMinPriceRub = 0, IntentReason = ''scheduled price change'', IntentSource = PriceSourceSchedule,
     StrategyID = None, ScheduleEntryID = Some 8, RollbackOf = None, CreatedBy = None\<rparr>"

lemma planned_build:
  "buildScheduleIntents 8 1 PriceScopeProduct [1] \<lparr>adj_Type = PriceAdjustTargetRub, adj_Value = Fin 4000\<rparr> [1 \<mapsto> wit_cur] Map.empty [1] =
     [planned_intent]"
proof -
  have "schedule_intent 8 1 \<lparr>adj_Type = PriceAdjustTargetRub, adj_Value = Fin 4000\<rparr> Map.empty wit_cur = Some planned_intent"
    by (simp add: schedule_intent_def planned_intent_def settle_price_def clamp_request_def floor_at_def wit_cur_def raise_target
        effectiveOf_eq clampDiscount_def quarantineSafeTarget_def go_eval)
  then show ?thesis
    by (simp add: buildScheduleIntents_def scheduleIncludesProduct_def List.map_filter_simps) (simp add: wit_cur_def)
qed

theorem scheduled_change_safe_witness: "NmID planned_intent = 1 \<and> checkQuarantineRisk planned_intent = None"
proof -
  have "adjust_range wit_cur (applyAdjustment (pp_PriceRub wit_cur) \<lparr>adj_Type = PriceAdjustTargetRub, adj_Value = Fin 4000\<rparr>) 0"
    by (simp add: adjust_range_def wit_cur_def raise_target)
  then have "checkQuarantineRisk planned_intent = None"
    using scheduled_change_safe [of planned_intent 8 1 PriceScopeProduct "[1]" "\<lparr>adj_Type = PriceAdjustTargetRub, adj_Value = Fin 4000\<rparr>"
        "[1 \<mapsto> wit_cur]" Map.empty "[1]"]
    by (simp add: planned_build floor_at_def)
  then show ?thesis by (simp add: planned_intent_def)
qed

theorem revert_restores_previous_price_witness:
  "\<exists>its. revert_intents 8 [1 \<mapsto> wit_cur\<lparr>pp_PriceRub := 1001\<rparr>] [1 \<mapsto> applied_row] Map.empty [applied_row] = Inr its \<and>
     NewPriceRub (its ! 0) = 3000 \<and> OldPriceRub (its ! 0) = 1001"
proof -
  let ?p = "[1 \<mapsto> wit_cur\<lparr>pp_PriceRub := 1001\<rparr>]"
  have r: "pc_WbProductID applied_row = 1" "pc_WbStatus applied_row = PriceStatusApplied" "pc_OldPriceRub applied_row = 3000"
    "pc_NewPriceRub applied_row = 1001" "pc_NewDiscountPercent applied_row = 0"
    by (simp_all add: applied_row_def run_defs wrap32_def)
  have "revert_intents 8 ?p [1 \<mapsto> applied_row] Map.empty [applied_row] = Inr [revert_intent 8 ?p Map.empty applied_row]"
    by (simp add: revert_refusal_def r floor_at_def) (simp add: wit_cur_def)
  from revert_restores_previous_price [OF this] this show ?thesis by (simp add: r)
qed

definition revert_entry :: PriceScheduleEntry where
  "revert_entry = (schedule_row 21 50 (revert_params 3 500
     \<lparr>si_SellerCabinetID = 1, si_ScopeType = PriceScopeAll, si_ProductIDs = [], si_AdjustmentType = PriceAdjustDeltaPercent,
      si_AdjustmentValue = Fin 10, si_Direction = PriceDirectionUp, si_ScheduledAt = 400, si_RevertAt = Some 500,
      si_RevertToPrevious = False, si_Comment = []\<rparr>))\<lparr>se_RevertOf := Some 20\<rparr>"

theorem revert_waits_for_primary_witness:
  "price_changes (snd (executeScheduleEntry calm_env revert_entry applied_db)) = price_changes applied_db"
proof -
  have "se_RevertOf revert_entry = Some 20" by (simp add: revert_entry_def)
  moreover have "GetPriceScheduleEntry 20 applied_db = None"
    by (simp add: GetPriceScheduleEntry_def applied_db_def run_db0_def)
  ultimately show ?thesis
    using revert_waits_for_primary [of revert_entry 20 calm_env applied_db "fst (executeScheduleEntry calm_env revert_entry applied_db)"]
    by simp
qed

text \<open>
  The validator of a schedule accepts exactly the inputs whose products fit the scope (none for all, one
  positive id for a product, distinct positive ids for a list), whose adjustment is a positive percentage
  with a direction or a target price without one, in the bounds of a manual adjustment, that start
  in the future, and whose revert, if any, comes after the start and belongs to a percentage.
\<close>

theorem schedule_input_valid_iff:
  "validateScheduleInput inp now = None \<longleftrightarrow>
     (si_ScopeType inp = PriceScopeAll \<and> si_ProductIDs inp = [] \<or>
      si_ScopeType inp = PriceScopeProduct \<and> (\<exists>nm. si_ProductIDs inp = [nm] \<and> 0 < nm) \<or>
      si_ScopeType inp = PriceScopeList \<and> si_ProductIDs inp \<noteq> [] \<and> (\<forall>nm \<in> set (si_ProductIDs inp). 0 < nm) \<and> distinct (si_ProductIDs inp)) \<and>
     (si_AdjustmentType inp = PriceAdjustDeltaPercent \<and> si_Direction inp \<in> {PriceDirectionUp, PriceDirectionDown} \<and>
        \<not> si_AdjustmentValue inp \<le> 0 \<or>
      si_AdjustmentType inp = PriceAdjustTargetRub \<and> si_Direction inp = []) \<and>
     validatePriceAdjustment \<lparr>adj_Type = si_AdjustmentType inp, adj_Value = si_AdjustmentValue inp\<rparr> True = None \<and>
     now < si_ScheduledAt inp \<and>
     (\<forall>t. si_RevertAt inp = Some t \<longrightarrow> si_ScheduledAt inp < t \<and> si_AdjustmentType inp = PriceAdjustDeltaPercent)"
proof -
  have s: "validate_scope inp = None \<longleftrightarrow> si_ScopeType inp = PriceScopeAll \<and> si_ProductIDs inp = [] \<or>
      si_ScopeType inp = PriceScopeProduct \<and> (\<exists>nm. si_ProductIDs inp = [nm] \<and> 0 < nm) \<or>
      si_ScopeType inp = PriceScopeList \<and> si_ProductIDs inp \<noteq> [] \<and> (\<forall>nm \<in> set (si_ProductIDs inp). 0 < nm) \<and> distinct (si_ProductIDs inp)"
    by (cases "si_ProductIDs inp")
      (auto simp: validate_scope_def validateScheduleProductIDs_def validate_ids_None_iff schedule_const_defs)
  have a: "validate_schedule_adjustment inp = None \<longleftrightarrow>
     (si_AdjustmentType inp = PriceAdjustDeltaPercent \<and> si_Direction inp \<in> {PriceDirectionUp, PriceDirectionDown} \<and>
        \<not> si_AdjustmentValue inp \<le> 0 \<or>
      si_AdjustmentType inp = PriceAdjustTargetRub \<and> si_Direction inp = []) \<and>
     validatePriceAdjustment \<lparr>adj_Type = si_AdjustmentType inp, adj_Value = si_AdjustmentValue inp\<rparr> True = None"
    by (auto simp: validate_schedule_adjustment_def Let_def price_adjust_type_defs split: if_split_asm)
  have t: "validate_times inp now = None \<longleftrightarrow> now < si_ScheduledAt inp \<and>
     (\<forall>t. si_RevertAt inp = Some t \<longrightarrow> si_ScheduledAt inp < t \<and> si_AdjustmentType inp = PriceAdjustDeltaPercent)"
    by (simp add: validate_times_def split: option.split)
  have "validateScheduleInput inp now = None \<longleftrightarrow>
      validate_scope inp = None \<and> validate_schedule_adjustment inp = None \<and> validate_times inp now = None"
    by (simp add: validateScheduleInput_def split: option.split)
  then show ?thesis by (simp only: s a t conj_assoc)
qed

theorem schedule_input_valid_iff_witness:
  "validateScheduleInput \<lparr>si_SellerCabinetID = 1, si_ScopeType = PriceScopeList, si_ProductIDs = [7, 8], si_AdjustmentType = PriceAdjustDeltaPercent,
      si_AdjustmentValue = Fin 10, si_Direction = PriceDirectionUp, si_ScheduledAt = 400, si_RevertAt = Some 500,
      si_RevertToPrevious = False, si_Comment = []\<rparr> 300 = None"
  by (subst schedule_input_valid_iff)
    (simp add: validatePriceAdjustment_def price_adjust_type_defs schedule_const_defs IsNaN_def IsInf_def maxPriceRub_def lit_def
      round64_int [of 95, simplified] maxPriceAdjustmentPercent_def)

end
