(* ===== verification/Repricer_Run.thy ===== *)
theory Repricer_Run
  imports Price_Schedule
begin

text \<open>
  The strategy run, \<^verbatim>\<open>internal/service/repricer_run.go\<close>: the snapshot that the engine reads, the guards
  before a decision, the call of the engine and the loop of \<^verbatim>\<open>RunForWorkspace\<close> that records
  recommendations and collects automatic changes. The active strategies, the price refresh and the rows
  of the reporting tables are arguments. The theorems show what a run may change, that disagreeing
  strategies cancel each other and that what it sends on passes the quarantine check.
\<close>

section \<open>The snapshot\<close>

definition maxRepricerPriceAge :: int where "maxRepricerPriceAge = 2 * 3600 * 1000000"
definition priceVelocityLookbackDays :: int where "priceVelocityLookbackDays = 14"

record stockInfo =
  units :: int
  known :: bool

text \<open>A Go map that the code iterates over is a map with the list of its keys.\<close>

record repricerData =
  pricesByNm :: "int \<rightharpoonup> ProductPrice"
  priceNms :: "int list"
  economicsByNm :: "int \<rightharpoonup> ProductEconomics"
  stockByNm :: "int \<rightharpoonup> stockInfo"
  velocityByNm :: "int \<rightharpoonup> f64"
  nmByProductID :: "uuid \<rightharpoonup> int"
  activeQuarNm :: "int list"
  hasActiveCampaign :: "int list"
  drrByNm :: "int \<rightharpoonup> f64"
  intensityByNm :: "int \<rightharpoonup> f64"
  competitorByNm :: "int \<rightharpoonup> int"
  commissionByNm :: "int \<rightharpoonup> f64"
  pausedCabinets :: "uuid list"

text \<open>The zero values that reading a missing key gives.\<close>

definition zero_ProductPrice :: ProductPrice where
  "zero_ProductPrice = \<lparr>pp_ID = uuid_Nil, pp_WorkspaceID = uuid_Nil, pp_SellerCabinetID = uuid_Nil, pp_WBProductID = 0, pp_PriceRub = 0,
     pp_DiscountPercent = 0, pp_ClubDiscountPercent = 0, pp_DiscountedPriceRub = None,
     pp_EditableSizePrice = False, pp_SyncedAt = 0, pp_UpdatedAt = 0\<rparr>"

definition zero_ProductEconomics :: ProductEconomics where
  "zero_ProductEconomics = \<lparr>pe_WBProductID = 0, pe_CostPrice = None, pe_LogisticsCost = None, pe_OtherCosts = None,
     pe_TaxRatePercent = None, pe_CommissionPercent = None, pe_TargetMarginPercent = None, pe_MaxAllowedDRR = None\<rparr>"

definition get_or :: "'v \<Rightarrow> ('k \<rightharpoonup> 'v) \<Rightarrow> 'k \<Rightarrow> 'v" where
  "get_or z m k = (case m k of None \<Rightarrow> z | Some v \<Rightarrow> v)"

subsection \<open>Loading\<close>

record WBCommissionTariff =
  wt_SellerCabinetID :: uuid
  wt_SubjectName :: string
  wt_KGVPBooking :: "f64 option"
  wt_KGVPPickup :: "f64 option"
  wt_KGVPSupplier :: "f64 option"
  wt_KGVPSupplierExpress :: "f64 option"
  wt_KGVPMarketplace :: "f64 option"

definition conservativeCommission :: "WBCommissionTariff \<Rightarrow> f64 \<times> bool" where
  "conservativeCommission row =
     (let m = foldl (\<lambda>m v. case v of None \<Rightarrow> m | Some x \<Rightarrow> if x > m then x else m) (Fin 0)
        [wt_KGVPBooking row, wt_KGVPPickup row, wt_KGVPSupplier row, wt_KGVPSupplierExpress row, wt_KGVPMarketplace row]
      in (m, m > Fin 0))"

text \<open>The sales and advertising rows of the look-back window: product, units and revenue in kopecks, spend in rubles.\<close>

definition add_at :: "int \<Rightarrow> int \<Rightarrow> (int \<rightharpoonup> int) \<Rightarrow> int \<rightharpoonup> int" where
  "add_at nm v m = m(nm \<mapsto> wrap64 (get_or 0 m nm + v))"

definition sum_by_nm :: "(int \<times> int) list \<Rightarrow> int \<rightharpoonup> int" where
  "sum_by_nm rows = foldl (\<lambda>m (nm, v). add_at nm v m) (\<lambda>_. None) rows"

definition velocity :: "(int \<times> int) list \<Rightarrow> int \<rightharpoonup> f64" where
  "velocity sales nm = map_option (\<lambda>u. float_of_int u / float_of_int priceVelocityLookbackDays) (sum_by_nm sales nm)"

definition ad_drr :: "(int \<times> int) list \<Rightarrow> (int \<times> int) list \<Rightarrow> int \<rightharpoonup> f64" where
  "ad_drr spend revenue nm =
     (case sum_by_nm spend nm of
        None \<Rightarrow> None
      | Some s \<Rightarrow>
        let rev = get_or 0 (sum_by_nm revenue) nm
        in if s \<le> 0 \<or> rev \<le> 0 then None
           else Some (float_of_int s / (float_of_int rev / Fin 100) * Fin 100))"

section \<open>Evaluating a product\<close>

definition targetNmIDs :: "repricer_env \<Rightarrow> nat \<Rightarrow> Strategy \<Rightarrow> repricerData \<Rightarrow> int list" where
  "targetNmIDs env n st data =
     (if st_Bindings st \<noteq> []
      then List.map_filter (\<lambda>b. case sb_ProductID b of None \<Rightarrow> None | Some p \<Rightarrow> nmByProductID data p) (st_Bindings st)
      else filter (\<lambda>nm. \<exists>p. pricesByNm data nm = Some p \<and> pp_SellerCabinetID p = st_SellerCabinetID st)
             (e_map_order env n (priceNms data)))"

definition engine_inputs :: "repricerData \<Rightarrow> int \<Rightarrow> ProductPrice \<Rightarrow> PriceEngineInputs" where
  "engine_inputs data nm price =
     \<lparr>in_Current = price, in_Economics = get_or zero_ProductEconomics (economicsByNm data) nm,
      in_CommissionFallbackPercent = commissionByNm data nm,
      in_Stock = (case stockByNm data nm of None \<Rightarrow> 0 | Some s \<Rightarrow> units s),
      in_StockKnown = (case stockByNm data nm of None \<Rightarrow> False | Some s \<Rightarrow> known s),
      in_SalesUnitsPerDay = get_or (Fin 0) (velocityByNm data) nm,
      in_DRR = drrByNm data nm, in_HasActiveCampaigns = (nm \<in> set (hasActiveCampaign data))\<rparr>"

text \<open>The switch over the strategy type; another type gives the zero decision, which changes nothing.\<close>

definition engine :: "string \<Rightarrow> f64 \<Rightarrow> int \<Rightarrow> PriceEngineInputs \<Rightarrow> StrategyParams \<Rightarrow> PriceDecision" where
  "engine t intensity competitor inp params =
     (if t = StrategyTypePriceMarginFloor then DecideMarginFloor inp params
      else if t = StrategyTypePriceInventoryDemand then DecideInventoryDemand inp params
      else if t = StrategyTypePriceAdLinked then DecideAdLinked inp params
      else if t = StrategyTypePricePeakHours then DecidePeakHours inp params intensity
      else if t = StrategyTypePriceCompetitorFollow then DecideCompetitorFollow inp params competitor
      else zero_PriceDecision)"

definition decide_price :: "Strategy \<Rightarrow> StrategyParams \<Rightarrow> int \<Rightarrow> repricerData \<Rightarrow> ProductPrice \<Rightarrow> PriceDecision option" where
  "decide_price st params nm data price =
     (let decision = engine (st_Type st) (get_or (Fin 0) (intensityByNm data) nm) (get_or 0 (competitorByNm data) nm)
            (engine_inputs data nm price) params
      in if \<not> pd_ShouldChange decision then None
         else if pd_Direction decision = ''down'' \<and> wrap64 (pd_TargetEffectiveRub decision * 3) \<le> EffectivePriceRub price then None
         else Some decision)"

text \<open>
  The queries that guard a decision. A failing query does not stop the evaluation. Instants are
  microseconds since the zero time, so that the start of the day is a multiple of its length.
\<close>

definition cooldownSince :: "int \<Rightarrow> StrategyParams \<Rightarrow> int" where
  "cooldownSince now params = now - wrap64 (PriceCooldownHours params * 3600000000000) div 1000"

definition dayStart :: "int \<Rightarrow> int" where
  "dayStart now = now - now mod (24 * 3600 * 1000000)"

definition guard_queries :: "repricer_env \<Rightarrow> uuid \<Rightarrow> StrategyParams \<Rightarrow> int \<Rightarrow> repricer_db \<Rightarrow> bool \<times> repricer_db" where
  "guard_queries env workspaceID params nm db =
     (case exec_read env (HasInFlightPriceChange workspaceID nm) db of (inflight, db1) \<Rightarrow>
        if inflight = Some True then (False, db1)
        else
          case exec_read env (CountRecentPriceChangesByProduct workspaceID nm (cooldownSince (e_now env (calls db1)) params)) db1 of (recent, db2) \<Rightarrow>
            if some_and (\<lambda>n. n > 0) recent then (False, db2)
            else
              case exec_read env (CountRecentPriceChangesByProduct workspaceID nm (dayStart (e_now env (calls db2)))) db2 of (today, db3) \<Rightarrow>
                (\<not> some_and (\<lambda>n. n \<ge> MaxPriceChangesPerDay params) today, db3))"

definition priced_fresh :: "int \<Rightarrow> repricerData \<Rightarrow> int \<Rightarrow> ProductPrice \<Rightarrow> bool" where
  "priced_fresh now data nm price \<longleftrightarrow>
     pp_SyncedAt price \<noteq> 0 \<and> now - pp_SyncedAt price \<le> maxRepricerPriceAge \<and> \<not> pp_EditableSizePrice price \<and> nm \<notin> set (activeQuarNm data)"

definition evaluateProduct ::
    "repricer_env \<Rightarrow> uuid \<Rightarrow> Strategy \<Rightarrow> StrategyParams \<Rightarrow> int \<Rightarrow> repricerData \<Rightarrow> repricer_db \<Rightarrow> PriceDecision option \<times> repricer_db" where
  "evaluateProduct env workspaceID st params nm data db =
     (case pricesByNm data nm of
        None \<Rightarrow> (None, db)
      | Some price \<Rightarrow>
        if \<not> priced_fresh (e_now env (calls db)) data nm price then (None, db)
        else
          case guard_queries env workspaceID params nm db of (ok, db1) \<Rightarrow>
            (if ok then decide_price st params nm data price else None, db1))"

section \<open>The run\<close>

definition intentFromDecision :: "Strategy \<Rightarrow> int \<Rightarrow> PriceDecision \<Rightarrow> repricerData \<Rightarrow> priceChangeIntent" where
  "intentFromDecision st nm decision data =
     (let price = get_or zero_ProductPrice (pricesByNm data) nm
      in \<lparr>CabinetID = st_SellerCabinetID st, NmID = nm, OldPriceRub = pp_PriceRub price, NewPriceRub = pd_NewPriceRub decision,
          OldDiscount = pp_DiscountPercent price, NewDiscount = pd_NewDiscountPercent decision,
          IntentMinPriceRub = pd_MinPriceRub decision, IntentReason = pd_Reason decision, IntentSource = PriceSourceStrategy,
          StrategyID = Some (st_ID st), ScheduleEntryID = None, RollbackOf = None, CreatedBy = None\<rparr>)"

text \<open>The row of a recommendation has the columns of a pending change but its own status, and cannot be rolled back.\<close>

definition recommended_row :: "uuid \<Rightarrow> int \<Rightarrow> uuid \<Rightarrow> Strategy \<Rightarrow> int \<Rightarrow> PriceDecision \<Rightarrow> repricerData \<Rightarrow> PriceChangeRow" where
  "recommended_row new_id now workspaceID st nm decision data =
     (pending_row new_id now workspaceID (intentFromDecision st nm decision data))
       \<lparr>pc_WbStatus := PriceStatusRecommended, pc_CanRollback := False\<rparr>"

definition recordRecommendation ::
    "repricer_env \<Rightarrow> uuid \<Rightarrow> Strategy \<Rightarrow> int \<Rightarrow> PriceDecision \<Rightarrow> repricerData \<Rightarrow> repricer_db \<Rightarrow> bool \<times> repricer_db" where
  "recordRecommendation env workspaceID st nm decision data db =
     (case exec env (\<lambda>now u d. case CreatePriceChange (recommended_row u now workspaceID st nm decision data) d of
                None \<Rightarrow> (False, d) | Some d' \<Rightarrow> (True, d')) db of
        (r, db') \<Rightarrow> (r = Some True, db'))"

type_synonym product_key = "uuid \<times> int"

record run_state =
  rs_written :: int
  rs_auto :: "(product_key \<times> priceChangeIntent) list"
  rs_conflict :: "product_key list"

definition same_price :: "priceChangeIntent \<Rightarrow> priceChangeIntent \<Rightarrow> bool" where
  "same_price a b \<longleftrightarrow> NewPriceRub a = NewPriceRub b \<and> NewDiscount a = NewDiscount b"

definition auto_add :: "product_key \<Rightarrow> priceChangeIntent \<Rightarrow> run_state \<Rightarrow> run_state" where
  "auto_add key intent s =
     (if key \<in> set (rs_conflict s) then s
      else case map_of (rs_auto s) key of
        Some previous \<Rightarrow>
          if same_price previous intent then s
          else s\<lparr>rs_auto := filter (\<lambda>(k, _). k \<noteq> key) (rs_auto s), rs_conflict := key # rs_conflict s, rs_written := rs_written s - 1\<rparr>
      | None \<Rightarrow> s\<lparr>rs_auto := rs_auto s @ [(key, intent)], rs_written := rs_written s + 1\<rparr>)"

definition run_product ::
    "repricer_env \<Rightarrow> uuid \<Rightarrow> Strategy \<Rightarrow> StrategyParams \<Rightarrow> bool \<Rightarrow> repricerData \<Rightarrow> int \<Rightarrow> run_state \<Rightarrow> repricer_db \<Rightarrow> run_state \<times> repricer_db" where
  "run_product env workspaceID st params auto data nm s db =
     (case evaluateProduct env workspaceID st params nm data db of
        (None, db1) \<Rightarrow> (s, db1)
      | (Some decision, db1) \<Rightarrow>
        if auto then (auto_add (st_SellerCabinetID st, nm) (intentFromDecision st nm decision data) s, db1)
        else case recordRecommendation env workspaceID st nm decision data db1 of
          (saved, db2) \<Rightarrow> (if saved then s\<lparr>rs_written := rs_written s + 1\<rparr> else s, db2))"

primrec run_products ::
    "repricer_env \<Rightarrow> uuid \<Rightarrow> Strategy \<Rightarrow> StrategyParams \<Rightarrow> bool \<Rightarrow> repricerData \<Rightarrow> int list \<Rightarrow> run_state \<Rightarrow> repricer_db \<Rightarrow>
     run_state \<times> repricer_db" where
  "run_products env workspaceID st params auto data [] s db = (s, db)"
| "run_products env workspaceID st params auto data (nm # nms) s db =
     (case run_product env workspaceID st params auto data nm s db of
        (s', db') \<Rightarrow> run_products env workspaceID st params auto data nms s' db')"

definition is_auto :: "repricerData \<Rightarrow> Strategy \<Rightarrow> bool" where
  "is_auto data st \<longleftrightarrow> PriceApplyMode (MergedPriceParams (st_Params st)) = PriceApplyModeAuto \<and>
     st_SellerCabinetID st \<notin> set (pausedCabinets data)"

primrec run_strategies ::
    "repricer_env \<Rightarrow> uuid \<Rightarrow> repricerData \<Rightarrow> Strategy list \<Rightarrow> run_state \<Rightarrow> repricer_db \<Rightarrow> run_state \<times> repricer_db" where
  "run_strategies env workspaceID data [] s db = (s, db)"
| "run_strategies env workspaceID data (st # sts) s db =
     (case run_products env workspaceID st (MergedPriceParams (st_Params st)) (is_auto data st) data
             (targetNmIDs env (calls db) st data) s db of
        (s', db') \<Rightarrow> run_strategies env workspaceID data sts s' db')"

text \<open>The intents in the order in which the map is iterated, an arbitrary order of their positions.\<close>

definition auto_intents :: "repricer_env \<Rightarrow> nat \<Rightarrow> run_state \<Rightarrow> priceChangeIntent list" where
  "auto_intents env n s =
     List.map_filter (\<lambda>i. if 0 \<le> i \<and> nat i < length (rs_auto s) then Some (snd (rs_auto s ! nat i)) else None)
       (e_map_order env n (map int [0..<length (rs_auto s)]))"

definition empty_run :: run_state where
  "empty_run = \<lparr>rs_written = 0, rs_auto = [], rs_conflict = []\<rparr>"

text \<open>
  \<^verbatim>\<open>RunForWorkspace\<close> from the point where prices are refreshed and the price strategies and the snapshot are
  loaded. The count is returned with the error of the upload, if any.
\<close>

definition RunForWorkspace_loaded ::
    "repricer_env \<Rightarrow> uuid \<Rightarrow> Strategy list \<Rightarrow> repricerData \<Rightarrow> repricer_db \<Rightarrow> (int \<times> errs) \<times> repricer_db" where
  "RunForWorkspace_loaded env workspaceID priceStrategies data db =
     (case run_strategies env workspaceID data priceStrategies empty_run db of (s, db1) \<Rightarrow>
        let autoIntents = auto_intents env (calls db1) s
        in if autoIntents = [] then ((rs_written s, []), db1)
           else case enqueueAndApplyIntents env workspaceID autoIntents db1 of
             ((_, err), db2) \<Rightarrow> ((rs_written s, err), db2))"

section \<open>What an evaluation establishes\<close>

lemma exec_read_eq: "exec_read env q db = (if e_fault env (calls db) then None else Some (q (tick db)), tick db)"
  by (simp add: exec_read_def exec_def Let_def)

lemma store_reads_tick [simp]:
  "HasInFlightPriceChange ws nm (tick db) = HasInFlightPriceChange ws nm db"
  "CountRecentPriceChangesByProduct ws nm since (tick db) = CountRecentPriceChangesByProduct ws nm since db"
  by (simp_all add: HasInFlightPriceChange_def CountRecentPriceChangesByProduct_def)

text \<open>The three guard queries as conditions on the store; a query that fails counts as passed.\<close>

definition guards_hold :: "repricer_env \<Rightarrow> uuid \<Rightarrow> StrategyParams \<Rightarrow> int \<Rightarrow> repricer_db \<Rightarrow> bool" where
  "guards_hold env ws params nm db \<longleftrightarrow>
     (e_fault env (calls db) \<or> \<not> HasInFlightPriceChange ws nm db) \<and>
     (e_fault env (Suc (calls db)) \<or>
        CountRecentPriceChangesByProduct ws nm (cooldownSince (e_now env (Suc (calls db))) params) db \<le> 0) \<and>
     (e_fault env (Suc (Suc (calls db))) \<or>
        CountRecentPriceChangesByProduct ws nm (dayStart (e_now env (Suc (Suc (calls db))))) db < MaxPriceChangesPerDay params)"

lemma guard_queries_eq:
  "\<exists>k \<le> 3. guard_queries env ws params nm db = (guards_hold env ws params nm db, (tick ^^ k) db)"
proof -
  have k: "tick db = (tick ^^ 1) db" "tick (tick db) = (tick ^^ 2) db" "tick (tick (tick db)) = (tick ^^ 3) db"
    by (simp_all add: numeral_2_eq_2 numeral_3_eq_3)
  consider "\<not> e_fault env (calls db) \<and> HasInFlightPriceChange ws nm db"
    | "e_fault env (calls db) \<or> \<not> HasInFlightPriceChange ws nm db"
      "\<not> e_fault env (Suc (calls db)) \<and> 0 < CountRecentPriceChangesByProduct ws nm (cooldownSince (e_now env (Suc (calls db))) params) db"
    | "e_fault env (calls db) \<or> \<not> HasInFlightPriceChange ws nm db"
      "e_fault env (Suc (calls db)) \<or> CountRecentPriceChangesByProduct ws nm (cooldownSince (e_now env (Suc (calls db))) params) db \<le> 0"
    by linarith
  then show ?thesis
  proof cases
    case 1
    then show ?thesis by (intro exI [of _ 1]) (simp add: guard_queries_def guards_hold_def exec_read_eq)
  next
    case 2
    then show ?thesis by (intro exI [of _ 2]) (auto simp: guard_queries_def guards_hold_def exec_read_eq k(2) [symmetric])
  next
    case 3
    then show ?thesis by (intro exI [of _ 3]) (auto simp: guard_queries_def guards_hold_def exec_read_eq k(3) [symmetric] not_le)
  qed
qed

lemma ticks_fields [simp]: "price_changes ((tick ^^ k) db) = price_changes db" "wb_sent ((tick ^^ k) db) = wb_sent db"
  by (induction k) simp_all

text \<open>What holds of a decision that an evaluation returns.\<close>

definition evaluated :: "repricer_env \<Rightarrow> uuid \<Rightarrow> Strategy \<Rightarrow> int \<Rightarrow> repricerData \<Rightarrow> PriceDecision \<Rightarrow> repricer_db \<Rightarrow> bool" where
  "evaluated env ws st nm data d db \<longleftrightarrow> (\<exists>price. pricesByNm data nm = Some price \<and> priced_fresh (e_now env (calls db)) data nm price \<and>
     guards_hold env ws (MergedPriceParams (st_Params st)) nm db \<and> decide_price st (MergedPriceParams (st_Params st)) nm data price = Some d)"

lemma evaluateProduct_eq:
  "\<exists>k \<le> 3. snd (evaluateProduct env ws st params nm data db) = (tick ^^ k) db"
proof (cases "pricesByNm data nm")
  case (Some price)
  obtain k where "k \<le> 3" "guard_queries env ws params nm db = (guards_hold env ws params nm db, (tick ^^ k) db)"
    using guard_queries_eq by blast
  then show ?thesis using Some by (auto simp: evaluateProduct_def intro: exI [of _ "0 :: nat"] exI [of _ k])
qed (auto simp: evaluateProduct_def intro: exI [of _ "0 :: nat"])

lemma evaluateProduct_Some:
  assumes "evaluateProduct env ws st (MergedPriceParams (st_Params st)) nm data db = (Some d, db')"
  shows "evaluated env ws st nm data d db"
proof -
  obtain k where "guard_queries env ws (MergedPriceParams (st_Params st)) nm db = (guards_hold env ws (MergedPriceParams (st_Params st)) nm db, (tick ^^ k) db)"
    using guard_queries_eq by blast
  then show ?thesis using assms
    by (auto simp: evaluateProduct_def evaluated_def split: option.split_asm if_split_asm)
qed

section \<open>A run is a run of statements\<close>

lemma ticks_runs: "runs env db ((tick ^^ k) db)"
proof (induction k)
  case (Suc k)
  then show ?case using runs_trans runs_tick by simp
qed simp

lemma recordRecommendation_cases:
  obtains (failed) "recordRecommendation env ws st nm d data db = (False, tick db)"
  | (saved) "recordRecommendation env ws st nm d data db = (True, (tick db)\<lparr>price_changes := price_changes db @
        [recommended_row (e_uuid env (calls db)) (e_now env (calls db)) ws st nm d data]\<rparr>)"
      "insertable (tick db) (recommended_row (e_uuid env (calls db)) (e_now env (calls db)) ws st nm d data)"
  by (cases "e_fault env (calls db)"; cases "insertable (tick db) (recommended_row (e_uuid env (calls db)) (e_now env (calls db)) ws st nm d data)")
    (simp_all add: recordRecommendation_def exec_def Let_def CreatePriceChange_def)

lemma recordRecommendation_runs: "runs env db (snd (recordRecommendation env ws st nm d data db))"
proof (cases rule: recordRecommendation_cases [of env ws st nm d data db])
  case failed
  then show ?thesis using runs_tick by simp
next
  case saved
  let ?r = "recommended_row (e_uuid env (calls db)) (e_now env (calls db)) ws st nm d data"
  let ?d = "(tick db)\<lparr>price_changes := price_changes db @ [?r]\<rparr>"
  have r: "pc_WbStatus ?r = PriceStatusRecommended" "pc_UploadTaskID ?r = None" "pc_SubmissionBatchID ?r = None" "pc_RollbackOf ?r = None"
    by (simp_all add: recommended_row_def pending_row_def intentFromDecision_def Let_def)
  have "CreatePriceChange ?r (tick db) = Some ?d" using saved(2) by (simp add: CreatePriceChange_def)
  then have "sql_step (tick db) ?d" using r by (rule sql_step.recommend)
  then have "runs env db ?d" by (rule runs_step) (use r in auto)
  then show ?thesis by (simp add: saved(1))
qed

lemma run_product_runs: "runs env db (snd (run_product env ws st params auto data nm s db))"
proof -
  obtain r db1 where e: "evaluateProduct env ws st params nm data db = (r, db1)" by (metis surj_pair)
  have r1: "runs env db db1" using evaluateProduct_eq [of env ws st params nm data db] ticks_runs e by auto
  show ?thesis
  proof (cases r)
    case (Some d)
    have "runs env db (snd (recordRecommendation env ws st nm d data db1))"
      using r1 recordRecommendation_runs runs_trans by blast
    then show ?thesis using r1 by (simp add: run_product_def e Some case_prod_beta)
  qed (simp add: run_product_def e r1)
qed

lemma run_products_runs: "runs env db (snd (run_products env ws st params auto data nms s db))"
proof (induction nms arbitrary: s db)
  case (Cons nm nms)
  show ?case using Cons.IH run_product_runs [of env db ws st params auto data nm s] runs_trans by (simp add: case_prod_beta)
qed simp

lemma run_strategies_runs: "runs env db (snd (run_strategies env ws data sts s db))"
proof (induction sts arbitrary: s db)
  case (Cons st sts)
  show ?case using Cons.IH run_products_runs [of env db ws st "MergedPriceParams (st_Params st)" "is_auto data st" data] runs_trans
    by (simp add: case_prod_beta) blast
qed simp


lemma auto_intents_in: "it \<in> set (auto_intents env n s) \<Longrightarrow> \<exists>k. (k, it) \<in> set (rs_auto s)"
  unfolding auto_intents_def by (auto simp: List.map_filter_def split: if_split_asm) (metis nth_mem prod.collapse)

definition auto_keys_ok :: "(product_key \<Rightarrow> priceChangeIntent \<Rightarrow> bool) \<Rightarrow> run_state \<Rightarrow> bool" where
  "auto_keys_ok P s \<longleftrightarrow> (\<forall>(k, it) \<in> set (rs_auto s). P k it)"

lemma auto_add_ok: "\<lbrakk>auto_keys_ok P s; P k it\<rbrakk> \<Longrightarrow> auto_keys_ok P (auto_add k it s)"
  by (auto simp: auto_keys_ok_def auto_add_def split: option.split)

text \<open>The extension of the queue by a run before anything is uploaded: only recommendations, each from an evaluated decision.\<close>

definition recommends :: "repricer_env \<Rightarrow> uuid \<Rightarrow> repricerData \<Rightarrow> Strategy list \<Rightarrow> PriceChangeRow \<Rightarrow> bool" where
  "recommends env ws data sts r \<longleftrightarrow> (\<exists>st nm d u now db. st \<in> set sts \<and> \<not> is_auto data st \<and>
     r = recommended_row u now ws st nm d data \<and> evaluated env ws st nm data d db)"

definition automatic :: "repricer_env \<Rightarrow> uuid \<Rightarrow> repricerData \<Rightarrow> Strategy list \<Rightarrow> product_key \<Rightarrow> priceChangeIntent \<Rightarrow> bool" where
  "automatic env ws data sts k it \<longleftrightarrow> (\<exists>st nm d db. st \<in> set sts \<and> is_auto data st \<and> k = (st_SellerCabinetID st, nm) \<and>
     it = intentFromDecision st nm d data \<and> evaluated env ws st nm data d db)"

definition extends :: "(PriceChangeRow \<Rightarrow> bool) \<Rightarrow> int \<Rightarrow> repricer_db \<Rightarrow> repricer_db \<Rightarrow> bool" where
  "extends P n db db' \<longleftrightarrow> (\<exists>new. price_changes db' = price_changes db @ new \<and> (\<forall>r \<in> set new. P r) \<and> n = int (length new)) \<and>
     wb_sent db' = wb_sent db"

lemma extends_refl [simp]: "extends P 0 db db"
  by (simp add: extends_def)

lemma extends_ticks: "extends P n db db' \<Longrightarrow> extends P n db ((tick ^^ k) db')"
  by (simp add: extends_def)

lemma extends_trans: "\<lbrakk>extends P n a b; extends P m b c\<rbrakk> \<Longrightarrow> extends P (n + m) a c"
  unfolding extends_def by auto

text \<open>
  A piece of the loop adds some automatic decisions, one after the other, and counts the recommendations that it saved.
\<close>

definition auto_fold :: "(product_key \<times> priceChangeIntent) list \<Rightarrow> run_state \<Rightarrow> run_state" where
  "auto_fold ds s = foldl (\<lambda>s (k, it). auto_add k it s) s ds"

definition count :: "int \<Rightarrow> run_state \<Rightarrow> run_state" where
  "count n s = s\<lparr>rs_written := rs_written s + n\<rparr>"

lemma auto_fold_simps [simp]: "auto_fold [] s = s" "auto_fold (ds @ [d]) s = auto_add (fst d) (snd d) (auto_fold ds s)"
  by (simp_all add: auto_fold_def case_prod_beta)

lemma auto_fold_append: "auto_fold (ds @ es) s = auto_fold es (auto_fold ds s)"
  by (simp add: auto_fold_def)

lemma count_fields [simp]: "rs_auto (count n s) = rs_auto s" "rs_conflict (count n s) = rs_conflict s" "rs_written (count n s) = rs_written s + n"
  by (simp_all add: count_def)

lemma count_count [simp]: "count n (count m s) = count (m + n) s" "count 0 s = s"
  by (simp_all add: count_def)

lemma auto_add_count: "auto_add k it (count n s) = count n (auto_add k it s)"
  by (simp add: auto_add_def count_def split: option.split)

lemma auto_fold_count: "auto_fold ds (count n s) = count n (auto_fold ds s)"
  by (induction ds rule: rev_induct) (simp_all add: auto_add_count)

definition advanced :: "repricer_env \<Rightarrow> uuid \<Rightarrow> repricerData \<Rightarrow> Strategy list \<Rightarrow> run_state \<times> repricer_db \<Rightarrow> run_state \<times> repricer_db \<Rightarrow> bool" where
  "advanced env ws data sts a b \<longleftrightarrow> (\<exists>ds n. fst b = count n (auto_fold ds (fst a)) \<and>
     (\<forall>(k, it) \<in> set ds. automatic env ws data sts k it) \<and> extends (recommends env ws data sts) n (snd a) (snd b))"

lemma advanced_trans:
  assumes "advanced env ws data sts a b" "advanced env ws data sts b c"
  shows "advanced env ws data sts a c"
proof -
  obtain ds n where 1: "fst b = count n (auto_fold ds (fst a))" "\<forall>(k, it) \<in> set ds. automatic env ws data sts k it"
    "extends (recommends env ws data sts) n (snd a) (snd b)" using assms(1) by (auto simp: advanced_def)
  obtain es m where 2: "fst c = count m (auto_fold es (fst b))" "\<forall>(k, it) \<in> set es. automatic env ws data sts k it"
    "extends (recommends env ws data sts) m (snd b) (snd c)" using assms(2) by (auto simp: advanced_def)
  show ?thesis unfolding advanced_def
    by (intro exI [of _ "ds @ es"] exI [of _ "n + m"])
      (use 1 2 extends_trans in \<open>auto simp: auto_fold_append auto_fold_count\<close>)
qed

lemma run_product_advanced:
  assumes "st \<in> set sts"
  shows "advanced env ws data sts (s, db) (run_product env ws st (MergedPriceParams (st_Params st)) (is_auto data st) data nm s db)"
proof -
  let ?p = "MergedPriceParams (st_Params st)"
  obtain r db1 where e: "evaluateProduct env ws st ?p nm data db = (r, db1)" by (metis surj_pair)
  obtain k where db1: "db1 = (tick ^^ k) db" using evaluateProduct_eq [of env ws st ?p nm data db] e by auto
  have same: "extends P 0 db db1" for P by (simp add: db1 extends_ticks)
  show ?thesis
  proof (cases r)
    case None
    then show ?thesis unfolding advanced_def
      by (intro exI [of _ "[]"] exI [of _ 0]) (simp add: run_product_def e same)
  next
    case (Some d)
    have ev: "evaluated env ws st nm data d db" using evaluateProduct_Some e Some by blast
    show ?thesis
    proof (cases "is_auto data st")
      case True
      have "automatic env ws data sts (st_SellerCabinetID st, nm) (intentFromDecision st nm d data)"
        unfolding automatic_def using assms True ev by blast
      then show ?thesis unfolding advanced_def
        by (intro exI [of _ "[((st_SellerCabinetID st, nm), intentFromDecision st nm d data)]"] exI [of _ 0])
          (simp add: run_product_def e Some True same auto_fold_def)
    next
      case False
      show ?thesis
      proof (cases rule: recordRecommendation_cases [of env ws st nm d data db1])
        case failed
        then show ?thesis unfolding advanced_def
          by (intro exI [of _ "[]"] exI [of _ 0]) (use same in \<open>simp add: run_product_def e Some False extends_def\<close>)
      next
        case saved
        have "recommends env ws data sts (recommended_row (e_uuid env (calls db1)) (e_now env (calls db1)) ws st nm d data)"
          unfolding recommends_def using assms False ev by blast
        then show ?thesis unfolding advanced_def
          by (intro exI [of _ "[]"] exI [of _ 1])
            (use same in \<open>simp add: run_product_def e Some False saved(1) extends_def count_def\<close>)
      qed
    qed
  qed
qed

lemma run_products_advanced:
  assumes "st \<in> set sts"
  shows "advanced env ws data sts (s, db) (run_products env ws st (MergedPriceParams (st_Params st)) (is_auto data st) data nms s db)"
proof (induction nms arbitrary: s db)
  case Nil
  show ?case unfolding advanced_def by (intro exI [of _ "[]"] exI [of _ 0]) simp
next
  case (Cons nm nms)
  let ?r = "run_product env ws st (MergedPriceParams (st_Params st)) (is_auto data st) data nm s db"
  have "advanced env ws data sts (s, db) ?r" by (rule run_product_advanced [OF assms])
  moreover have "advanced env ws data sts (fst ?r, snd ?r)
      (run_products env ws st (MergedPriceParams (st_Params st)) (is_auto data st) data nms (fst ?r) (snd ?r))"
    by (rule Cons.IH)
  ultimately show ?case using advanced_trans by (simp add: case_prod_beta)
qed

lemma run_strategies_advanced:
  "set sts \<subseteq> set all \<Longrightarrow> advanced env ws data all (s, db) (run_strategies env ws data sts s db)"
proof (induction sts arbitrary: s db)
  case Nil
  show ?case unfolding advanced_def by (intro exI [of _ "[]"] exI [of _ 0]) simp
next
  case (Cons st sts)
  let ?r = "run_products env ws st (MergedPriceParams (st_Params st)) (is_auto data st) data (targetNmIDs env (calls db) st data) s db"
  have "advanced env ws data all (s, db) ?r" using Cons.prems by (intro run_products_advanced) simp
  moreover have "advanced env ws data all (fst ?r, snd ?r) (run_strategies env ws data sts (fst ?r) (snd ?r))"
    using Cons.prems by (intro Cons.IH) simp
  ultimately show ?case using advanced_trans by (simp add: case_prod_beta)
qed


section \<open>Theorems\<close>

text \<open>What the strategies agree on for a product: the first decision, if all later ones set the same price and discount.\<close>

definition agreed :: "(product_key \<times> priceChangeIntent) list \<Rightarrow> product_key \<Rightarrow> priceChangeIntent option" where
  "agreed ds k = (case filter (\<lambda>d. fst d = k) ds of
     [] \<Rightarrow> None | d # rest \<Rightarrow> if \<forall>e \<in> set rest. same_price (snd d) (snd e) then Some (snd d) else None)"

lemma same_price_refl [simp]: "same_price a a"
  by (simp add: same_price_def)

lemma map_of_filter_key: "map_of (filter (\<lambda>(k, _). k \<noteq> key) xs) k = (if k = key then None else map_of xs k)"
  by (induction xs) auto

lemma map_of_append_fresh: "map_of xs key = None \<Longrightarrow> map_of (xs @ [(key, v)]) = (map_of xs)(key \<mapsto> v)"
  by (rule ext) (simp add: map_add_def split: option.split)

lemma distinct_filter_fst: "distinct (map fst xs) \<Longrightarrow> distinct (map fst (filter P xs))"
  by (induction xs) auto

lemma length_filter_key:
  "\<lbrakk>distinct (map fst xs); map_of xs key = Some v\<rbrakk> \<Longrightarrow> Suc (length (filter (\<lambda>(k, _). k \<noteq> key) xs)) = length xs"
proof (induction xs)
  case (Cons x xs)
  show ?case
  proof (cases "fst x = key")
    case True
    then have "\<forall>y \<in> set xs. case y of (k, _) \<Rightarrow> k \<noteq> key" using Cons.prems(1) by (auto simp: image_iff)
    then show ?thesis using True by (simp add: case_prod_beta cong: filter_cong)
  next
    case False
    then show ?thesis using Cons by (cases x) auto
  qed
qed simp

lemma agreed_None: "key \<notin> fst ` set ds \<Longrightarrow> agreed ds key = None"
proof -
  assume "key \<notin> fst ` set ds"
  then have "filter (\<lambda>d. fst d = key) ds = []" by (force simp: filter_empty_conv)
  then show ?thesis by (simp add: agreed_def)
qed

lemma agreed_snoc:
  "agreed (ds @ [(key, it)]) k =
     (if k \<noteq> key then agreed ds k else if key \<notin> fst ` set ds then Some it
      else case agreed ds key of None \<Rightarrow> None | Some p \<Rightarrow> if same_price p it then Some p else None)"
proof (cases "k = key \<and> key \<in> fst ` set ds")
  case True
  then obtain x xs where "filter (\<lambda>d. fst d = key) ds = x # xs"
    by (cases "filter (\<lambda>d. fst d = key) ds") (auto simp: filter_empty_conv)
  then show ?thesis using True by (auto simp: agreed_def)
next
  case False
  have "filter (\<lambda>d. fst d = key) ds = []" if "key \<notin> fst ` set ds" using that by (force simp: filter_empty_conv)
  then show ?thesis using False by (auto simp: agreed_def)
qed

text \<open>The state of the loop after a sequence of decisions: one entry per product they agree on, the others in conflict.\<close>

definition settled :: "run_state \<Rightarrow> (product_key \<times> priceChangeIntent) list \<Rightarrow> bool" where
  "settled s ds \<longleftrightarrow> distinct (map fst (rs_auto s)) \<and> rs_written s = int (length (rs_auto s)) \<and>
     (\<forall>k. map_of (rs_auto s) k = agreed ds k) \<and> (\<forall>k. k \<in> set (rs_conflict s) \<longleftrightarrow> k \<in> fst ` set ds \<and> agreed ds k = None)"

lemma settled_add:
  assumes "settled s ds"
  shows "settled (auto_add key it s) (ds @ [(key, it)])"
proof -
  note s = assms [unfolded settled_def]
  have c: "key \<in> set (rs_conflict s) \<longleftrightarrow> key \<in> fst ` set ds \<and> agreed ds key = None" and m: "map_of (rs_auto s) key = agreed ds key"
    using s by blast+
  consider (conflict) "key \<in> fst ` set ds" "agreed ds key = None" | (new) "key \<notin> fst ` set ds" "agreed ds key = None"
    | (same) p where "key \<in> fst ` set ds" "agreed ds key = Some p" "same_price p it"
    | (differ) p where "key \<in> fst ` set ds" "agreed ds key = Some p" "\<not> same_price p it"
    using agreed_None [of key ds] by (cases "agreed ds key") auto
  then show ?thesis
  proof cases
    case conflict
    then have "auto_add key it s = s" using c by (simp add: auto_add_def)
    then show ?thesis using s conflict unfolding settled_def by (simp add: agreed_snoc)
  next
    case new
    then have st: "auto_add key it s = s\<lparr>rs_auto := rs_auto s @ [(key, it)], rs_written := rs_written s + 1\<rparr>"
      using c m by (simp add: auto_add_def)
    have n: "key \<notin> fst ` set (rs_auto s)" "map_of (rs_auto s @ [(key, it)]) = (map_of (rs_auto s))(key \<mapsto> it)"
      using m new(2) map_of_append_fresh by (simp_all add: map_of_eq_None_iff)
    show ?thesis using s new n(1) unfolding settled_def st by (simp add: agreed_snoc n(2) del: map_of_append)
  next
    case same
    then have "auto_add key it s = s" using c m by (simp add: auto_add_def)
    then show ?thesis using s same unfolding settled_def by (simp add: agreed_snoc)
  next
    case differ
    then have st: "auto_add key it s = s\<lparr>rs_auto := filter (\<lambda>(k, _). k \<noteq> key) (rs_auto s), rs_conflict := key # rs_conflict s,
        rs_written := rs_written s - 1\<rparr>" using c m by (simp add: auto_add_def)
    have "Suc (length (filter (\<lambda>(k, _). k \<noteq> key) (rs_auto s))) = length (rs_auto s)"
      using length_filter_key [of "rs_auto s" key p] s m differ(2) by simp
    then show ?thesis using s differ unfolding settled_def st
      by (simp add: agreed_snoc map_of_filter_key distinct_filter_fst)
  qed
qed

lemma auto_fold_settled: "settled (auto_fold ds empty_run) ds"
proof (induction ds rule: rev_induct)
  case Nil
  show ?case by (simp add: settled_def empty_run_def agreed_def)
next
  case (snoc d ds)
  then show ?case using settled_add [of _ ds "fst d" "snd d"] by simp
qed


text \<open>
  C13 Strategies that disagree cancel each other: after any sequence of automatic decisions a product has
  an intent exactly when all decisions about it set the same price and discount, the intent is that
  of the first one, no product has two, and the count is the number of intents.
\<close>

theorem disagreeing_strategies_cancel:
  "map_of (rs_auto (foldl (\<lambda>s (k, it). auto_add k it s) empty_run ds)) k = agreed ds k \<and>
   distinct (map fst (rs_auto (foldl (\<lambda>s (k, it). auto_add k it s) empty_run ds))) \<and>
   rs_written (foldl (\<lambda>s (k, it). auto_add k it s) empty_run ds) = int (length (rs_auto (foldl (\<lambda>s (k, it). auto_add k it s) empty_run ds)))"
  using auto_fold_settled [of ds] unfolding auto_fold_def settled_def by blast

lemma auto_fold_ok:
  "\<lbrakk>auto_keys_ok P s; \<forall>(k, it) \<in> set ds. P k it\<rbrakk> \<Longrightarrow> auto_keys_ok P (auto_fold ds s)"
  by (induction ds rule: rev_induct) (auto intro: auto_add_ok)

lemma run_strategies_result:
  assumes "run_strategies env ws data sts empty_run db = (s, db')"
  obtains ds n where "s = count n (auto_fold ds empty_run)" "\<forall>(k, it) \<in> set (rs_auto s). automatic env ws data sts k it"
    "\<forall>(k, it) \<in> set ds. automatic env ws data sts k it" "extends (recommends env ws data sts) n db db'"
proof -
  obtain ds n where r: "s = count n (auto_fold ds empty_run)" "\<forall>(k, it) \<in> set ds. automatic env ws data sts k it"
    "extends (recommends env ws data sts) n db db'"
    using run_strategies_advanced [of sts sts env ws data empty_run db] assms by (auto simp: advanced_def)
  have "auto_keys_ok (automatic env ws data sts) (auto_fold ds empty_run)"
    by (rule auto_fold_ok) (use r(2) in \<open>simp_all add: auto_keys_ok_def empty_run_def\<close>)
  then show ?thesis using that r by (simp add: auto_keys_ok_def)
qed

lemma RunForWorkspace_loaded_runs: "runs env db (snd (RunForWorkspace_loaded env ws sts data db))"
proof -
  obtain s db1 where e: "run_strategies env ws data sts empty_run db = (s, db1)" by (metis surj_pair)
  have r1: "runs env db db1" using run_strategies_runs [of env db ws data sts empty_run] e by simp
  have "RollbackOf it = None" if it: "it \<in> set (auto_intents env (calls db1) s)" for it
  proof -
    obtain k where k: "(k, it) \<in> set (rs_auto s)" using auto_intents_in [OF it] by blast
    from run_strategies_result [OF e] have "automatic env ws data sts k it" using k by blast
    then show ?thesis by (auto simp: automatic_def intentFromDecision_def Let_def)
  qed
  then have "runs env db1 (snd (enqueueAndApplyIntents env ws (auto_intents env (calls db1) s) db1))"
    by (intro enqueueAndApplyIntents_runs) blast
  then have "runs env db (snd (enqueueAndApplyIntents env ws (auto_intents env (calls db1) s) db1))" using r1 runs_trans by blast
  then show ?thesis using r1 by (simp add: RunForWorkspace_loaded_def e Let_def case_prod_beta)
qed

text \<open>
  C12 A dry run only recommends: when no active price strategy is in automatic mode with an unfrozen cabinet,
  the run sends nothing to the marketplace, returns no error, leaves every change as it is and appends
  as many rows as it counts, each a recommendation of a strategy, which no claim takes and
  no rollback accepts.
\<close>

theorem dry_run_only_recommends:
  assumes "\<forall>st \<in> set sts.
      PriceApplyMode (MergedPriceParams (st_Params st)) \<noteq> PriceApplyModeAuto \<or> st_SellerCabinetID st \<in> set (pausedCabinets data)"
    and "RunForWorkspace_loaded env ws sts data db = ((n, err), db')"
  shows "err = [] \<and> wb_sent db' = wb_sent db \<and> (\<exists>new. price_changes db' = price_changes db @ new \<and> n = int (length new) \<and>
    (\<forall>r \<in> set new. pc_WbStatus r = PriceStatusRecommended \<and> \<not> pc_CanRollback r \<and> pc_Source r = PriceSourceStrategy))"
proof -
  obtain s db1 where e: "run_strategies env ws data sts empty_run db = (s, db1)" by (metis surj_pair)
  obtain ds k where r: "s = count k (auto_fold ds empty_run)" "\<forall>(k, it) \<in> set ds. automatic env ws data sts k it"
    "extends (recommends env ws data sts) k db db1" using run_strategies_result [OF e] by blast
  have "\<not> is_auto data st" if "st \<in> set sts" for st using assms(1) that by (auto simp: is_auto_def)
  then have "\<not> automatic env ws data sts k it" for k it unfolding automatic_def by blast
  then have "d \<notin> set ds" for d using r(2) by (cases d) blast
  then have "ds = []" by (metis list.set_intros(1) list.exhaust)
  then have s: "s = count k empty_run" using r(1) by simp
  have none: "auto_intents env (calls db1) s = []"
    by (simp add: auto_intents_def s empty_run_def List.map_filter_def)
  have w: "rs_written s = k" by (simp add: s empty_run_def)
  have "n = k \<and> err = [] \<and> db' = db1"
    using assms(2) by (simp add: RunForWorkspace_loaded_def e none w)
  moreover have "pc_WbStatus r = PriceStatusRecommended \<and> \<not> pc_CanRollback r \<and> pc_Source r = PriceSourceStrategy"
    if "recommends env ws data sts r" for r
    using that by (auto simp: recommends_def recommended_row_def pending_row_def intentFromDecision_def Let_def)
  ultimately show ?thesis using r(3) unfolding extends_def by blast
qed


text \<open>
  A product is only repriced when it may be: an evaluation whose guard queries succeed returns a decision
  only for a product with a price synchronized at most two hours ago that is neither size-priced nor in
  quarantine, that has no change in flight and none inside the cooldown, and fewer changes today than the
  daily limit.
\<close>

theorem evaluated_product_unblocked:
  assumes "evaluateProduct env ws st (MergedPriceParams (st_Params st)) nm data db = (Some decision, db')"
    and "\<forall>n < 3. \<not> e_fault env (calls db + n)"
  shows "(\<exists>price. pricesByNm data nm = Some price \<and> pp_SyncedAt price \<noteq> 0 \<and>
      e_now env (calls db) - pp_SyncedAt price \<le> 2 * 3600 * 1000000 \<and> \<not> pp_EditableSizePrice price) \<and>
    nm \<notin> set (activeQuarNm data) \<and> \<not> HasInFlightPriceChange ws nm db \<and>
    CountRecentPriceChangesByProduct ws nm (cooldownSince (e_now env (calls db + 1)) (MergedPriceParams (st_Params st))) db \<le> 0 \<and>
    CountRecentPriceChangesByProduct ws nm (dayStart (e_now env (calls db + 2))) db < MaxPriceChangesPerDay (MergedPriceParams (st_Params st)) \<and>
    price_changes db' = price_changes db"
proof -
  have "\<not> e_fault env (calls db)" "\<not> e_fault env (Suc (calls db))" "\<not> e_fault env (Suc (Suc (calls db)))"
    using assms(2) [rule_format, of 0] assms(2) [rule_format, of 1] assms(2) [rule_format, of 2] by simp_all
  moreover have "price_changes db' = price_changes db"
    using evaluateProduct_eq [of env ws st "MergedPriceParams (st_Params st)" nm data db] assms(1) by auto
  ultimately show ?thesis
    using evaluateProduct_Some [OF assms(1)] by (auto simp: evaluated_def guards_hold_def priced_fresh_def maxRepricerPriceAge_def)
qed

lemma engine_cases:
  assumes "P (DecideMarginFloor inp params)" "P (DecideInventoryDemand inp params)" "P (DecideAdLinked inp params)"
    and "P (DecidePeakHours inp params i)" "P (DecideCompetitorFollow inp params c)" "P zero_PriceDecision"
  shows "P (engine t i c inp params)"
  using assms by (simp add: engine_def)

interpretation engine: repricer_decision "engine t intensity competitor" for t intensity competitor
proof (unfold_locales, goal_cases)
  case (1 inp params)
  have "pd_ShouldChange (engine t intensity competitor inp params) \<longrightarrow> (\<exists>dir target floorRub reason.
      engine t intensity competitor inp params = priceMove inp dir target floorRub reason \<and> 0 < EffectivePriceRub (in_Current inp) \<and>
      (dir = ''up'' \<and> target > EffectivePriceRub (in_Current inp) \<or>
       dir = ''down'' \<and> target < EffectivePriceRub (in_Current inp) \<and> floorRub \<le> target))"
    by (rule engine_cases; (intro impI)?)
      (erule margin_floor.moves [OF 1(1)] inventory_demand.moves [OF 1(1)] ad_linked.moves [OF 1(1)]
        peak_hours.moves [OF 1(1)] competitor_follow.moves [OF 1(1)] | simp add: zero_PriceDecision_def)+
  then show ?case using 1(2) by blast
qed

lemma engine_floor_resolved:
  assumes "pd_ShouldChange (engine t i c inp (MergedPriceParams params))"
  shows "resolveFloor inp (MergedPriceParams params) = (pd_MinPriceRub (engine t i c inp (MergedPriceParams params)), [])"
proof -
  let ?p = "MergedPriceParams params"
  have "pd_ShouldChange (engine t i c inp ?p) \<longrightarrow> resolveFloor inp ?p = (pd_MinPriceRub (engine t i c inp ?p), [])"
    by (rule engine_cases)
      (use margin_floor_floor [of inp ?p] inventory_floor [of inp ?p] ad_linked_floor [of inp ?p]
        peak_hours_floor [of inp ?p] competitor_floor [of inp ?p] in \<open>simp_all add: zero_PriceDecision_def\<close>)
  then show ?thesis using assms by blast
qed

text \<open>
  C14 An automatic change is bounded by the price that the marketplace reports and by the resolved floor.
  The intent of a decision keeps the discount and its discounted price is more than a third of the reported
  one. The floor that it records is the resolved one; the floor binds cuts only: a decision down
  never lands below the floor or above the reported price, while a decision up lands above the reported price, which may
  still be below the floor. When the reported discounted price is the one that price and discount give,
  the intent also passes the quarantine check of the queue.
\<close>

theorem strategy_intent_safe:
  assumes "evaluateProduct env ws st (MergedPriceParams (st_Params st)) nm data db = (Some decision, db')"
    and "pricesByNm data nm = Some price" "price_range (engine_inputs data nm price) (MergedPriceParams (st_Params st))"
    and "\<bar>pd_TargetEffectiveRub decision\<bar> \<le> 10 ^ 10"
  shows "NewDiscount (intentFromDecision st nm decision data) = pp_DiscountPercent price \<and>
    OldDiscount (intentFromDecision st nm decision data) = pp_DiscountPercent price \<and>
    OldPriceRub (intentFromDecision st nm decision data) = pp_PriceRub price \<and>
    EffectivePriceRub price <
      3 * effectiveOf (NewPriceRub (intentFromDecision st nm decision data)) (pp_DiscountPercent price) \<and>
    resolveFloor (engine_inputs data nm price) (MergedPriceParams (st_Params st)) =
      (IntentMinPriceRub (intentFromDecision st nm decision data), []) \<and>
    (pd_Direction decision = ''down'' \<and>
       IntentMinPriceRub (intentFromDecision st nm decision data) \<le>
         effectiveOf (NewPriceRub (intentFromDecision st nm decision data)) (pp_DiscountPercent price) \<and>
       effectiveOf (NewPriceRub (intentFromDecision st nm decision data)) (pp_DiscountPercent price) \<le> EffectivePriceRub price \<or>
     pd_Direction decision = ''up'' \<and>
       EffectivePriceRub price <
         effectiveOf (NewPriceRub (intentFromDecision st nm decision data)) (pp_DiscountPercent price)) \<and>
    (EffectivePriceRub price = effectiveOf (pp_PriceRub price) (pp_DiscountPercent price) \<longrightarrow>
       checkQuarantineRisk (intentFromDecision st nm decision data) = None)"
proof -
  let ?p = "MergedPriceParams (st_Params st)" and ?it = "intentFromDecision st nm decision data"
  let ?e = "engine (st_Type st) (get_or (Fin 0) (intensityByNm data) nm) (get_or 0 (competitorByNm data) nm)"
  have "decide_price st ?p nm data price = Some decision"
    using evaluateProduct_Some [OF assms(1)] assms(2) by (auto simp: evaluated_def)
  then have d: "decision = ?e (engine_inputs data nm price) ?p" "pd_ShouldChange decision"
    and deep: "\<not> (pd_Direction decision = ''down'' \<and> wrap64 (pd_TargetEffectiveRub decision * 3) \<le> EffectivePriceRub price)"
    by (auto simp: decide_price_def Let_def split: if_split_asm)
  obtain dir target fl reason where m: "decision = priceMove (engine_inputs data nm price) dir target fl reason" "0 < EffectivePriceRub price"
    "dir = ''up'' \<and> target > EffectivePriceRub price \<or> dir = ''down'' \<and> target < EffectivePriceRub price \<and> fl \<le> target"
    using engine.moves [OF assms(3) d(2) [unfolded d(1)]] unfolding d(1) [symmetric] by (auto simp: engine_inputs_def)
  have t: "pd_TargetEffectiveRub decision = target" "pd_Direction decision = dir" "pd_MinPriceRub decision = fl" by (simp_all add: m(1) priceMove_def)
  have fl: "resolveFloor (engine_inputs data nm price) ?p = (fl, [])"
    using engine_floor_resolved [OF d(2) [unfolded d(1)]] unfolding d(1) [symmetric] t .
  have w: "wrap64 (x * 3) = x * 3" if "\<bar>x\<bar> \<le> 10 ^ 10 + 1" for x :: int
    using that by (intro wrap64_id) (auto simp: in_int64_def int64_min_def int64_max_def)
  have drop: "EffectivePriceRub price < target * 3"
    using m(2,3) deep assms(4) w [of target] by (auto simp: t)
  then have "0 < target" using m(2) by linarith
  let ?new = "effectiveOf (basePriceForTarget target (pp_DiscountPercent price)) (pp_DiscountPercent price)"
  have n: "target \<le> ?new" "?new \<le> target + 1"
    using effective_of_base_price [of target "pp_DiscountPercent price"] \<open>0 < target\<close> assms(4) by (auto simp: t)
  have it: "OldPriceRub ?it = pp_PriceRub price" "OldDiscount ?it = pp_DiscountPercent price" "NewDiscount ?it = pp_DiscountPercent price"
    "NewPriceRub ?it = basePriceForTarget target (pp_DiscountPercent price)" "IntentMinPriceRub ?it = fl"
    by (simp_all add: intentFromDecision_def Let_def get_or_def assms(2) m(1) priceMove_def engine_inputs_def)
  have "wrap64 (?new * 3) = ?new * 3" using n \<open>0 < target\<close> assms(4) by (intro w) (simp add: t)
  then have "EffectivePriceRub price = effectiveOf (pp_PriceRub price) (pp_DiscountPercent price) \<longrightarrow> checkQuarantineRisk ?it = None"
    using drop n by (simp add: checkQuarantineRisk_def it Let_def)
  moreover have "EffectivePriceRub price < 3 * ?new" using drop n by linarith
  moreover have "dir = ''down'' \<and> fl \<le> ?new \<and> ?new \<le> EffectivePriceRub price \<or> dir = ''up'' \<and> EffectivePriceRub price < ?new"
    using m(3) n by linarith
  ultimately show ?thesis unfolding it t using fl by blast
qed



section \<open>A concrete run\<close>

definition run_price :: ProductPrice where
  "run_price = wit_price\<lparr>pp_SyncedAt := 900\<rparr>"

definition run_data :: repricerData where
  "run_data = \<lparr>pricesByNm = [1 \<mapsto> run_price], priceNms = [1], economicsByNm = [1 \<mapsto> wit_econ], stockByNm = Map.empty, velocityByNm = Map.empty,
     nmByProductID = Map.empty, activeQuarNm = [], hasActiveCampaign = [], drrByNm = Map.empty, intensityByNm = Map.empty,
     competitorByNm = Map.empty, commissionByNm = Map.empty, pausedCabinets = []\<rparr>"

definition floor_strategy :: Strategy where
  "floor_strategy = \<lparr>st_ID = 4, st_WorkspaceID = 9, st_SellerCabinetID = 7, st_Name = ''floor'', st_Type = StrategyTypePriceMarginFloor,
     st_Params = wit_price_params, st_IsActive = True, st_Bindings = []\<rparr>"

definition floor_decision :: PriceDecision where
  "floor_decision = DecideMarginFloor (engine_inputs run_data 1 run_price) (MergedPriceParams wit_price_params)"

lemma floor_decision_facts: "pd_ShouldChange floor_decision" "pd_Direction floor_decision = ''up''" "pd_TargetEffectiveRub floor_decision = 1300"
  by (simp_all add: floor_decision_def engine_inputs_def get_or_def run_data_def run_price_def price_wit_defs)

lemma floor_evaluated: "\<exists>db'. evaluateProduct calm_env 9 floor_strategy (MergedPriceParams (st_Params floor_strategy)) 1 run_data run_db0 = (Some floor_decision, db')"
proof -
  have g: "guards_hold calm_env 9 (MergedPriceParams (st_Params floor_strategy)) 1 run_db0"
    by (simp add: guards_hold_def HasInFlightPriceChange_def CountRecentPriceChangesByProduct_def run_db0_def floor_strategy_def
        price_wit_defs)
  have d: "decide_price floor_strategy (MergedPriceParams (st_Params floor_strategy)) 1 run_data run_price = Some floor_decision"
    using floor_decision_facts by (simp add: decide_price_def Let_def floor_strategy_def engine_def floor_decision_def)
  obtain k where "guard_queries calm_env 9 (MergedPriceParams (st_Params floor_strategy)) 1 run_db0 = (True, (tick ^^ k) run_db0)"
    using guard_queries_eq [of calm_env 9 "MergedPriceParams (st_Params floor_strategy)" 1 run_db0] g by auto
  moreover have "pricesByNm run_data 1 = Some run_price" "priced_fresh (e_now calm_env (calls run_db0)) run_data 1 run_price"
    by (simp_all add: run_data_def priced_fresh_def run_price_def wit_price_def run_db0_def maxRepricerPriceAge_def)
  ultimately show ?thesis by (simp add: evaluateProduct_def d)
qed

theorem evaluated_product_unblocked_witness:
  "1 \<notin> set (activeQuarNm run_data) \<and> \<not> HasInFlightPriceChange 9 1 run_db0"
proof -
  obtain db' where "evaluateProduct calm_env 9 floor_strategy (MergedPriceParams (st_Params floor_strategy)) 1 run_data run_db0 = (Some floor_decision, db')"
    using floor_evaluated by blast
  from evaluated_product_unblocked [OF this] show ?thesis by simp
qed

theorem strategy_intent_safe_witness:
  "checkQuarantineRisk (intentFromDecision floor_strategy 1 floor_decision run_data) = None \<and>
   1000 < effectiveOf (NewPriceRub (intentFromDecision floor_strategy 1 floor_decision run_data)) 0"
proof -
  obtain db' where e: "evaluateProduct calm_env 9 floor_strategy (MergedPriceParams (st_Params floor_strategy)) 1 run_data run_db0 = (Some floor_decision, db')"
    using floor_evaluated by blast
  have p: "pricesByNm run_data 1 = Some run_price" by (simp add: run_data_def)
  have r: "price_range (engine_inputs run_data 1 run_price) (MergedPriceParams (st_Params floor_strategy))"
    by (simp add: run_data_def run_price_def engine_inputs_def floor_strategy_def price_wit_defs)
  have b: "\<bar>pd_TargetEffectiveRub floor_decision\<bar> \<le> 10 ^ 10" by (simp add: floor_decision_facts)
  have "EffectivePriceRub run_price = 1000" "pp_DiscountPercent run_price = 0" "effectiveOf (pp_PriceRub run_price) 0 = 1000"
    by (simp_all add: run_price_def price_wit_defs effectiveOf_eq clampDiscount_def)
  then show ?thesis using strategy_intent_safe [OF e p r b] floor_decision_facts(2) by simp
qed

theorem dry_run_only_recommends_witness:
  "snd (fst (RunForWorkspace_loaded calm_env 9 [floor_strategy] run_data applied_db)) = [] \<and>
   wb_sent (snd (RunForWorkspace_loaded calm_env 9 [floor_strategy] run_data applied_db)) = wb_sent applied_db"
proof -
  have "PriceApplyMode (MergedPriceParams (st_Params floor_strategy)) \<noteq> PriceApplyModeAuto"
    by (simp add: floor_strategy_def price_wit_defs PriceApplyModeAuto_def PriceApplyModeDryRun_def)
  then show ?thesis
    using dry_run_only_recommends [of "[floor_strategy]" run_data calm_env 9 applied_db] by (simp add: prod_eq_iff)
qed

end
