(* ===== verification/Ozon_Quota.thy ===== *)
theory Ozon_Quota
  imports Ozon_Budget
begin

text \<open>
  The write quota inside the client of the advertising interface, \<^verbatim>\<open>internal/integration/ozon/perf_quota.go\<close>: the moments
  of the writes of the last day per account and category, and the bans after a refusal by the marketplace.
  The theorems show that the published limits hold in every hour and every day of the history, and that the announced
  time of the reset is exact.
\<close>

section \<open>The tracker\<close>

definition QuotaBudgetWrite :: string where "QuotaBudgetWrite = ''budget_write''"
definition QuotaBidWrite :: string where "QuotaBidWrite = ''bid_write''"

record perfQuotaLimit =
  ql_hourly :: nat
  ql_daily :: nat

definition perfWriteQuotas :: "string \<Rightarrow> perfQuotaLimit option" where
  "perfWriteQuotas category =
     (if category = QuotaBudgetWrite then Some \<lparr>ql_hourly = 100, ql_daily = 500\<rparr>
      else if category = QuotaBidWrite then Some \<lparr>ql_hourly = 500, ql_daily = 6000\<rparr> else None)"

record perfQuotaTracker =
  pt_calls :: "string \<Rightarrow> int list"
  pt_blocked :: "string \<Rightarrow> int"

record QuotaError =
  qe_Category :: string
  qe_ResetAt :: int

definition perfQuotaTrackerKey :: "string \<Rightarrow> string \<Rightarrow> string" where
  "perfQuotaTrackerKey clientID category = clientID @ ''|'' @ category"

definition setCalls :: "string \<Rightarrow> int list \<Rightarrow> perfQuotaTracker \<Rightarrow> perfQuotaTracker" where
  "setCalls key calls t = t\<lparr>pt_calls := (pt_calls t)(key := calls)\<rparr>"

text \<open>The calls that are younger than a day, and how many of them are younger than an hour.\<close>

definition recent_calls :: "int \<Rightarrow> int list \<Rightarrow> int list" where
  "recent_calls now calls = dropWhile (\<lambda>c. \<not> c > now - 24 * hour) calls"

definition calls_in_hour :: "int \<Rightarrow> int list \<Rightarrow> nat" where
  "calls_in_hour now calls = length (takeWhile (\<lambda>c. c > now - hour) (rev calls))"

definition reset_at :: "perfQuotaLimit \<Rightarrow> int \<Rightarrow> int list \<Rightarrow> int" where
  "reset_at limit now calls =
     (let daily = (if length calls \<ge> ql_daily limit then calls ! (length calls - ql_daily limit) + 24 * hour else 0)
      in if calls_in_hour now calls \<ge> ql_hourly limit
         then let hourReset = calls ! (length calls - ql_hourly limit) + hour in if hourReset > daily then hourReset else daily
         else daily)"

definition quota_reserve :: "string \<Rightarrow> string \<Rightarrow> int \<Rightarrow> perfQuotaTracker \<Rightarrow> QuotaError option \<times> perfQuotaTracker" where
  "quota_reserve clientID category now t =
     (case perfWriteQuotas category of
        None \<Rightarrow> (None, t)
      | Some limit \<Rightarrow>
        let key = perfQuotaTrackerKey clientID category
        in if now < pt_blocked t key then (Some \<lparr>qe_Category = category, qe_ResetAt = pt_blocked t key\<rparr>, t)
           else
             let calls = recent_calls now (pt_calls t key); resetAt = reset_at limit now calls
             in if resetAt \<noteq> 0 then (Some \<lparr>qe_Category = category, qe_ResetAt = resetAt\<rparr>, setCalls key calls t)
                else (None, setCalls key (calls @ [now]) t))"

definition quota_block :: "string \<Rightarrow> string \<Rightarrow> int \<Rightarrow> perfQuotaTracker \<Rightarrow> QuotaError \<times> perfQuotaTracker" where
  "quota_block clientID category until t =
     (\<lparr>qe_Category = category, qe_ResetAt = until\<rparr>,
      t\<lparr>pt_blocked := (pt_blocked t)(perfQuotaTrackerKey clientID category := until)\<rparr>)"

section \<open>Sorted histories\<close>

definition window :: "int \<Rightarrow> int \<Rightarrow> int list \<Rightarrow> int list" where
  "window d a xs = filter (\<lambda>x. a - d < x \<and> x \<le> a) xs"

lemma dropWhile_le_filter: "sorted xs \<Longrightarrow> dropWhile (\<lambda>c. \<not> c > (p :: int)) xs = filter (\<lambda>c. c > p) xs"
proof (induction xs)
  case (Cons x xs)
  show ?case
  proof (cases "x > p")
    case True
    then have "filter (\<lambda>c. c > p) xs = xs" using Cons.prems by (intro filter_True) auto
    then show ?thesis using True by simp
  next
    case False
    then show ?thesis using Cons by simp
  qed
qed simp

lemma takeWhile_rev_filter: "sorted xs \<Longrightarrow> length (takeWhile (\<lambda>c. c > (p :: int)) (rev xs)) = length (filter (\<lambda>c. c > p) xs)"
proof (induction xs rule: rev_induct)
  case (snoc x xs)
  then have s: "sorted xs" "\<forall>y \<in> set xs. y \<le> x" by (auto simp: sorted_append)
  show ?case
  proof (cases "x > p")
    case True
    then show ?thesis using snoc.IH [OF s(1)] by simp
  next
    case False
    then have "filter (\<lambda>c. c > p) xs = []" using s(2) by (auto simp: filter_empty_conv)
    then show ?thesis using False by simp
  qed
qed simp

lemma recent_filter: "sorted xs \<Longrightarrow> recent_calls now xs = filter (\<lambda>c. c > now - 24 * hour) xs"
  unfolding recent_calls_def by (rule dropWhile_le_filter)

lemma in_hour_filter: "sorted xs \<Longrightarrow> calls_in_hour now xs = length (filter (\<lambda>c. c > now - hour) xs)"
  unfolding calls_in_hour_def by (rule takeWhile_rev_filter)

text \<open>In a sorted list, at least \<open>n\<close> elements are above a bound exactly when the \<open>n\<close>-th from the end is.\<close>

lemma nth_from_end:
  assumes "sorted xs" "0 < n" "n \<le> length xs"
  shows "n \<le> length (filter (\<lambda>c. c > (p :: int)) xs) \<longleftrightarrow> xs ! (length xs - n) > p"
  using assms
proof (induction xs)
  case (Cons x xs)
  show ?case
  proof (cases "n = Suc (length xs)")
    case True
    have "length (filter (\<lambda>c. c > p) (x # xs)) = Suc (length xs) \<longleftrightarrow> (\<forall>c \<in> set (x # xs). c > p)"
      using length_filter_less [of _ "x # xs" "\<lambda>c. c > p"] by (metis filter_True length_Cons less_irrefl)
    moreover have "(\<forall>c \<in> set (x # xs). c > p) \<longleftrightarrow> x > p" using Cons.prems(1) by auto
    moreover have "length (filter (\<lambda>c. c > p) (x # xs)) \<le> Suc (length xs)" by (metis length_Cons length_filter_le)
    ultimately show ?thesis using True by (metis diff_self_eq_0 le_antisym length_Cons nth_Cons_0 order_refl)
  next
    case False
    then have n: "n \<le> length xs" using Cons.prems(3) by simp
    then have e: "(x # xs) ! (length (x # xs) - n) = xs ! (length xs - n)" by (simp add: Suc_diff_le)
    have ih: "n \<le> length (filter (\<lambda>c. c > p) xs) \<longleftrightarrow> xs ! (length xs - n) > p" using Cons.IH Cons.prems n by simp
    have "n \<le> length (filter (\<lambda>c. c > p) xs)" if "x > p"
    proof -
      have "filter (\<lambda>c. c > p) xs = xs" using that Cons.prems(1) by (intro filter_True) auto
      then show ?thesis using n by simp
    qed
    then show ?thesis unfolding e using ih by auto
  qed
qed simp


lemma recent_again: "sorted xs \<Longrightarrow> p \<le> now - 24 * hour \<Longrightarrow> recent_calls now (filter (\<lambda>c. c > p) xs) = filter (\<lambda>c. c > now - 24 * hour) xs"
  by (subst recent_filter) (auto simp: sorted_wrt_filter sorted_filter [where f = id, simplified] filter_filter intro!: filter_cong)

section \<open>What a reservation answers\<close>

text \<open>\<open>full\<close> says that the newest \<open>n\<close> calls are all younger than \<open>d\<close>.\<close>

definition full :: "int \<Rightarrow> nat \<Rightarrow> int \<Rightarrow> int list \<Rightarrow> bool" where
  "full d n now calls \<longleftrightarrow> n \<le> length (filter (\<lambda>c. c > now - d) calls)"

lemma full_nth:
  assumes "sorted calls" "0 < n"
  shows "full d n now calls \<longleftrightarrow> n \<le> length calls \<and> calls ! (length calls - n) + d > now"
proof (cases "n \<le> length calls")
  case True
  then show ?thesis unfolding full_def using nth_from_end [OF assms True, of "now - d"] by auto
next
  case False
  then show ?thesis unfolding full_def using length_filter_le [of "\<lambda>c. c > now - d" calls] by linarith
qed

lemma quota_limits_pos:
  "perfWriteQuotas category = Some limit \<Longrightarrow> 0 < ql_hourly limit \<and> 0 < ql_daily limit"
  by (auto simp: perfWriteQuotas_def split: if_splits)

lemma reset_at_cases:
  assumes s: "sorted calls" and pos: "0 < ql_hourly limit" "0 < ql_daily limit"
    and recent: "\<forall>x \<in> set calls. now - 24 * hour < x" and now: "0 < now"
  shows "reset_at limit now calls =
     max (if full (24 * hour) (ql_daily limit) now calls then calls ! (length calls - ql_daily limit) + 24 * hour else 0)
         (if full hour (ql_hourly limit) now calls then calls ! (length calls - ql_hourly limit) + hour else 0)"
proof -
  have "filter (\<lambda>c. c > now - 24 * hour) calls = calls" using recent by (intro filter_True) auto
  then have d: "full (24 * hour) (ql_daily limit) now calls \<longleftrightarrow> ql_daily limit \<le> length calls" by (simp add: full_def)
  have h: "full hour (ql_hourly limit) now calls \<longleftrightarrow> ql_hourly limit \<le> calls_in_hour now calls"
    by (simp add: full_def in_hour_filter [OF s])
  have nn: "0 < calls ! (length calls - ql_daily limit) + 24 * hour" if "full (24 * hour) (ql_daily limit) now calls"
    using that now by (simp add: full_nth [OF s pos(2)])
  show ?thesis unfolding reset_at_def Let_def d [symmetric] h [symmetric] using nn by (auto simp: max_def)
qed

lemma reset_at_zero:
  assumes s: "sorted calls" and pos: "0 < ql_hourly limit" "0 < ql_daily limit"
    and recent: "\<forall>x \<in> set calls. now - 24 * hour < x" and now: "0 < now"
  shows "reset_at limit now calls = 0 \<longleftrightarrow> \<not> full (24 * hour) (ql_daily limit) now calls \<and> \<not> full hour (ql_hourly limit) now calls"
proof -
  have "0 < calls ! (length calls - ql_daily limit) + 24 * hour" if "full (24 * hour) (ql_daily limit) now calls"
    using that now by (simp add: full_nth [OF s pos(2)])
  moreover have "0 < calls ! (length calls - ql_hourly limit) + hour" if "full hour (ql_hourly limit) now calls"
    using that now by (simp add: full_nth [OF s pos(1)])
  ultimately show ?thesis unfolding reset_at_cases [OF assms] by (auto simp: max_def)
qed


text \<open>Without a ban, a write goes through exactly when neither window is full; the refusal names the later of the two ends.\<close>

lemma reserve_unbanned:
  assumes "perfWriteQuotas category = Some limit" and key: "key = perfQuotaTrackerKey clientID category"
    and ban: "pt_blocked t key \<le> now" and s: "sorted (pt_calls t key)" and now: "0 < now"
  shows "quota_reserve clientID category now t =
    (let calls = recent_calls now (pt_calls t key)
     in if full (24 * hour) (ql_daily limit) now (pt_calls t key) \<or> full hour (ql_hourly limit) now (pt_calls t key)
        then (Some \<lparr>qe_Category = category, qe_ResetAt = reset_at limit now calls\<rparr>, setCalls key calls t)
        else (None, setCalls key (calls @ [now]) t))"
proof -
  let ?c = "recent_calls now (pt_calls t key)"
  have c: "sorted ?c" "\<forall>x \<in> set ?c. now - 24 * hour < x" using s by (simp_all add: recent_filter sorted_filter [where f = id, simplified])
  have f: "full d n now ?c = full d n now (pt_calls t key)" if "d \<le> 24 * hour" for d n
    unfolding full_def recent_filter [OF s] filter_filter by (rule arg_cong [where f = "\<lambda>xs. n \<le> length xs"]) (use that in \<open>auto intro!: filter_cong\<close>)
  have "reset_at limit now ?c = 0 \<longleftrightarrow> \<not> full (24 * hour) (ql_daily limit) now (pt_calls t key) \<and> \<not> full hour (ql_hourly limit) now (pt_calls t key)"
    using reset_at_zero [OF c(1) _ _ c(2) now] quota_limits_pos [OF assms(1)] f hour_pos by simp
  then show ?thesis using ban by (simp add: quota_reserve_def assms(1) key [symmetric] Let_def)
qed

section \<open>Histories of a process\<close>

text \<open>
  A state is the clock, the tracker and the admitted writes of each account and category. Every operation holds the
  mutex of the tracker, so operations are atomic; they are taken in the order of the times they carry.
\<close>

type_synonym quota_state = "int \<times> perfQuotaTracker \<times> (string \<Rightarrow> string \<Rightarrow> int list)"

inductive quota_step :: "quota_state \<Rightarrow> quota_state \<Rightarrow> bool" where
  wait: "now \<le> now' \<Longrightarrow> quota_step (now, t, writes) (now', t, writes)"
| refuse: "quota_reserve clientID category now t = (Some e, t') \<Longrightarrow> quota_step (now, t, writes) (now, t', writes)"
| admit: "quota_reserve clientID category now t = (None, t') \<Longrightarrow>
    quota_step (now, t, writes) (now, t', writes(clientID := (writes clientID)(category := writes clientID category @ [now])))"
| ban: "quota_block clientID category until t = (e, t') \<Longrightarrow> quota_step (now, t, writes) (now, t', writes)"

definition perfQuotaTracker_zero :: perfQuotaTracker where
  "perfQuotaTracker_zero = \<lparr>pt_calls = (\<lambda>_. []), pt_blocked = (\<lambda>_. 0)\<rparr>"

definition quota_start :: "quota_state \<Rightarrow> bool" where
  "quota_start s \<longleftrightarrow> (\<exists>now. 0 < now \<and> s = (now, perfQuotaTracker_zero, \<lambda>_ _. []))"

definition tracks :: "int \<Rightarrow> int list \<Rightarrow> int list \<Rightarrow> bool" where
  "tracks now calls xs \<longleftrightarrow> sorted xs \<and> (\<forall>x \<in> set xs. 0 < x \<and> x \<le> now) \<and> (\<exists>p \<le> now - 24 * hour. calls = filter (\<lambda>c. c > p) xs)"

definition keeps_quota :: "perfQuotaLimit \<Rightarrow> int list \<Rightarrow> bool" where
  "keeps_quota limit xs \<longleftrightarrow> (\<forall>a. length (window hour a xs) \<le> ql_hourly limit \<and> length (window (24 * hour) a xs) \<le> ql_daily limit)"

definition quota_inv :: "quota_state \<Rightarrow> bool" where
  "quota_inv s = (case s of (now, t, writes) \<Rightarrow> 0 < now \<and>
     (\<forall>clientID category limit. perfWriteQuotas category = Some limit \<longrightarrow>
        tracks now (pt_calls t (perfQuotaTrackerKey clientID category)) (writes clientID category) \<and> keeps_quota limit (writes clientID category)))"

lemma category_suffix: "a @ ''|budget_write'' \<noteq> b @ ''|bid_write''" "b @ ''|bid_write'' \<noteq> a @ ''|budget_write''"
proof -
  show "a @ ''|budget_write'' \<noteq> b @ ''|bid_write''"
    using arg_cong [where f = "\<lambda>xs. rev xs ! 6", of "a @ ''|budget_write''" "b @ ''|bid_write''"] by auto
  then show "b @ ''|bid_write'' \<noteq> a @ ''|budget_write''" by metis
qed

lemma limited_category: "perfWriteQuotas c = Some l \<Longrightarrow> c = ''budget_write'' \<or> c = ''bid_write''"
  by (auto simp: perfWriteQuotas_def QuotaBudgetWrite_def QuotaBidWrite_def split: if_splits)

lemma key_inj:
  assumes "perfQuotaTrackerKey a c = perfQuotaTrackerKey b d" "perfWriteQuotas c = Some l" "perfWriteQuotas d = Some m"
  shows "a = b \<and> c = d"
proof (cases "c = d")
  case True
  then show ?thesis using assms(1) by (simp only: perfQuotaTrackerKey_def append_same_eq)
next
  case False
  have e: "a @ CHR ''|'' # c = b @ CHR ''|'' # d" using assms(1) by (simp only: perfQuotaTrackerKey_def append_Cons append_Nil)
  show ?thesis using limited_category [OF assms(2)]
  proof
    assume c: "c = ''budget_write''"
    then have d: "d = ''bid_write''" using limited_category [OF assms(3)] False by blast
    show ?thesis using category_suffix(1) [of a b] e [unfolded c d] by contradiction
  next
    assume c: "c = ''bid_write''"
    then have d: "d = ''budget_write''" using limited_category [OF assms(3)] False by blast
    show ?thesis using category_suffix(2) [of a b] e [unfolded c d] by contradiction
  qed
qed

lemma tracks_later: "tracks now calls xs \<Longrightarrow> now \<le> now' \<Longrightarrow> tracks now' calls xs"
  unfolding tracks_def by (elim conjE exE, intro conjI exI) auto

lemma tracks_sorted: "tracks now calls xs \<Longrightarrow> sorted calls"
  unfolding tracks_def using sorted_filter [where f = id, simplified] by auto

lemma tracks_recent: "tracks now calls xs \<Longrightarrow> recent_calls now calls = filter (\<lambda>c. c > now - 24 * hour) xs"
  unfolding tracks_def using recent_again by blast

lemma tracks_full:
  assumes "tracks now calls xs" "d \<le> 24 * hour" shows "full d n now calls = full d n now xs"
proof -
  obtain p where p: "p \<le> now - 24 * hour" "calls = filter (\<lambda>c. c > p) xs" using assms(1) by (auto simp: tracks_def)
  have "filter (\<lambda>c. c > now - d) calls = filter (\<lambda>c. c > now - d) xs"
    unfolding p(2) filter_filter using p(1) assms(2) by (auto intro!: filter_cong)
  then show ?thesis by (simp add: full_def)
qed

lemma tracks_admit:
  assumes "tracks now calls xs" "0 < now"
  shows "tracks now (recent_calls now calls @ [now]) (xs @ [now])"
  using assms(1) assms(2) hour_pos unfolding tracks_recent [OF assms(1)] tracks_def
  by (auto simp: sorted_append intro!: exI [where x = "now - 24 * hour"])

lemma window_admit:
  assumes "\<forall>x \<in> set xs. x \<le> now" "\<not> full d n now xs" "0 < d" "length (window d a xs) \<le> n"
  shows "length (window d a (xs @ [now])) \<le> n"
proof (cases "now \<le> a \<and> a - d < now")
  case True
  have "window d a xs = filter (\<lambda>x. a - d < x \<and> x \<le> a) (filter (\<lambda>c. c > now - d) xs)"
    unfolding window_def filter_filter using True by (auto intro!: filter_cong)
  then have "length (window d a xs) \<le> length (filter (\<lambda>c. c > now - d) xs)" by (metis length_filter_le)
  then show ?thesis using assms(2) True by (simp add: window_def full_def)
next
  case False
  then show ?thesis using assms(4) by (auto simp: window_def)
qed


lemma quota_inv_step:
  assumes "quota_step s s'" "quota_inv s"
  shows "quota_inv s'"
  using assms
proof (induction rule: quota_step.induct)
  case (wait now now' t writes)
  then show ?case by (auto simp: quota_inv_def intro: tracks_later)
next
  case (ban clientID category until t e t' now writes)
  then have "pt_calls t' = pt_calls t" by (auto simp: quota_block_def)
  then show ?case using ban by (simp add: quota_inv_def)
next
  case (refuse clientID category now t e t' writes)
  then obtain limit where l: "perfWriteQuotas category = Some limit" by (cases "perfWriteQuotas category") (auto simp: quota_reserve_def)
  let ?k = "perfQuotaTrackerKey clientID category"
  have t': "t' = t \<or> t' = setCalls ?k (recent_calls now (pt_calls t ?k)) t"
    using refuse.hyps by (auto simp: quota_reserve_def l Let_def split: if_splits)
  have "tracks now (pt_calls t' (perfQuotaTrackerKey c k)) (writes c k)" if "perfWriteQuotas k = Some m" for c k m
  proof -
    have "tracks now (pt_calls t (perfQuotaTrackerKey c k)) (writes c k)" using refuse.prems that by (simp add: quota_inv_def)
    then have "tracks now (recent_calls now (pt_calls t (perfQuotaTrackerKey c k))) (writes c k)"
      unfolding tracks_recent by (auto simp: tracks_recent tracks_def)
    then show ?thesis using t' \<open>tracks now (pt_calls t (perfQuotaTrackerKey c k)) (writes c k)\<close> by (auto simp: setCalls_def)
  qed
  then show ?case using refuse.prems by (auto simp: quota_inv_def)
next
  case (admit clientID category now t t' writes)
  let ?k = "perfQuotaTrackerKey clientID category" and ?w = "writes(clientID := (writes clientID)(category := writes clientID category @ [now]))"
  have "tracks now (pt_calls t' (perfQuotaTrackerKey c k)) (?w c k) \<and> keeps_quota m (?w c k)" if m: "perfWriteQuotas k = Some m" for c k m
  proof -
    have i: "0 < now" "tracks now (pt_calls t (perfQuotaTrackerKey c k)) (writes c k)" "keeps_quota m (writes c k)"
      using admit.prems m by (simp_all add: quota_inv_def)
    show ?thesis
    proof (cases "c = clientID \<and> k = category")
      case True
      have ban: "pt_blocked t ?k \<le> now" using admit.hyps m True by (auto simp: quota_reserve_def Let_def split: if_splits)
      note r = reserve_unbanned [OF m refl, of t c now, OF _ tracks_sorted [OF i(2)] i(1)]
      have nf: "\<not> full (24 * hour) (ql_daily m) now (pt_calls t ?k)" "\<not> full hour (ql_hourly m) now (pt_calls t ?k)"
        and t': "t' = setCalls ?k (recent_calls now (pt_calls t ?k) @ [now]) t"
        using admit.hyps r ban True by (auto simp: Let_def split: if_splits)
      have nf': "\<not> full (24 * hour) (ql_daily m) now (writes c k)" "\<not> full hour (ql_hourly m) now (writes c k)"
        using nf tracks_full [OF i(2)] True hour_pos by simp_all
      have le: "\<forall>x \<in> set (writes c k). x \<le> now" using i(2) by (simp add: tracks_def)
      have "keeps_quota m (writes c k @ [now])"
        using i(3) window_admit [OF le nf'(1)] window_admit [OF le nf'(2)] hour_pos by (simp add: keeps_quota_def)
      then show ?thesis using tracks_admit [OF i(2,1)] True by (simp add: t' setCalls_def)
    next
      case False
      then have "?w c k = writes c k" by auto
      moreover have "pt_calls t' (perfQuotaTrackerKey c k) = pt_calls t (perfQuotaTrackerKey c k)"
      proof (cases "perfWriteQuotas category")
        case None
        then show ?thesis using admit.hyps by (simp add: quota_reserve_def)
      next
        case (Some l)
        then have "perfQuotaTrackerKey c k \<noteq> ?k" using key_inj [OF _ m Some] False by blast
        then show ?thesis using admit.hyps by (auto simp: quota_reserve_def Some Let_def setCalls_def split: if_splits)
      qed
      ultimately show ?thesis using i by simp
    qed
  qed
  then show ?case using admit.prems by (simp add: quota_inv_def)
qed

interpretation quota: state_invariant quota_start quota_step quota_inv
proof unfold_locales
  show "quota_inv s" if "quota_start s" for s
    using that by (auto simp: quota_start_def quota_inv_def perfQuotaTracker_zero_def tracks_def keeps_quota_def window_def)
  show "quota_inv t" if "quota_inv s" "quota_step s t" for s t
    using quota_inv_step that by blast
qed

text \<open>
  C23 The published limits hold for the whole history of a process: in every hour and in every 24 hours, not only
  those that end at the time of a write, the admitted writes of an account and category stay within the limit.
\<close>

theorem quota_never_exceeded:
  assumes "quota_start s" "quota_step\<^sup>*\<^sup>* s (now, t, writes)" "perfWriteQuotas category = Some limit"
  shows "length (window hour a (writes clientID category)) \<le> ql_hourly limit \<and>
    length (window (24 * hour) a (writes clientID category)) \<le> ql_daily limit"
  using quota.inv_reachable [OF assms(1,2)] assms(3) by (simp add: quota_inv_def keeps_quota_def)

lemma reset_exact:
  assumes inv: "quota_inv (now, t, writes)"
    and ban: "pt_blocked t (perfQuotaTrackerKey clientID category) \<le> now"
    and refused: "quota_reserve clientID category now t = (Some e, t')" and later: "now \<le> u"
  shows "fst (quota_reserve clientID category u t') = None \<longleftrightarrow> qe_ResetAt e \<le> u"
proof -
  let ?k = "perfQuotaTrackerKey clientID category" and ?c = "recent_calls now (pt_calls t (perfQuotaTrackerKey clientID category))"
  obtain limit where l: "perfWriteQuotas category = Some limit"
    using refused by (cases "perfWriteQuotas category") (auto simp: quota_reserve_def)
  have i: "0 < now" "tracks now (pt_calls t ?k) (writes clientID category)"
    using inv l by (simp_all add: quota_inv_def)
  note s = tracks_sorted [OF i(2)] and pos = quota_limits_pos [OF l]
  have c: "sorted ?c" "\<forall>x \<in> set ?c. now - 24 * hour < x" using s by (simp_all add: recent_filter sorted_filter [where f = id, simplified])
  have e: "e = \<lparr>qe_Category = category, qe_ResetAt = reset_at limit now ?c\<rparr>" "t' = setCalls ?k ?c t"
    using refused reserve_unbanned [OF l refl ban s i(1)] by (auto simp: Let_def split: if_splits)
  have calls: "pt_calls t' ?k = ?c" "pt_blocked t' ?k \<le> u" using ban later by (simp_all add: e setCalls_def)
  have "fst (quota_reserve clientID category u t') = None \<longleftrightarrow> \<not> full (24 * hour) (ql_daily limit) u ?c \<and> \<not> full hour (ql_hourly limit) u ?c"
    using reserve_unbanned [OF l refl calls(2), unfolded calls(1), OF c(1)] i(1) later by (simp add: Let_def)
  also have "\<dots> \<longleftrightarrow> reset_at limit now ?c \<le> u"
    unfolding reset_at_cases [OF c(1) pos [THEN conjunct1] pos [THEN conjunct2] c(2) i(1)]
    using full_nth [OF c(1) pos [THEN conjunct2]] full_nth [OF c(1) pos [THEN conjunct1]] later i(1) by auto
  finally show ?thesis by (simp add: e)
qed


text \<open>
  C24 The announced reset is exact: after a refusal that is not a ban, with no other write in between, the write goes
  through at a later time exactly when the announced time has come.
\<close>

theorem quota_reset_exact:
  assumes reach: "quota_start s" "quota_step\<^sup>*\<^sup>* s (now, t, writes)"
    and ban: "pt_blocked t (perfQuotaTrackerKey clientID category) \<le> now"
    and refused: "quota_reserve clientID category now t = (Some e, t')" and later: "now \<le> u"
  shows "fst (quota_reserve clientID category u t') = None \<longleftrightarrow> qe_ResetAt e \<le> u"
  using reset_exact [OF quota.inv_reachable [OF reach] ban refused later] .

section \<open>Requests\<close>

text \<open>
  \<^verbatim>\<open>doJSON\<close> of \<^verbatim>\<open>perf_client_actions.go\<close>. One attempt asks for a token and for a place in the rate limiter, sends the
  request and reads the answer; the environment decides each of these, the waits between the attempts and the times.
  A \<^verbatim>\<open>Retry-After\<close> header is given by the duration that \<^verbatim>\<open>parseRetryAfter\<close> reads from it, \<open>None\<close> when it is missing. A request is
  its body, the path and the credentials stay the same in all attempts.
\<close>

definition maxRetries :: nat where "maxRetries = 3"

datatype answer = NetworkFails | BodyFails | Answers int string "int option"

record attempt_env =
  at_token :: bool
  at_limiter :: bool
  at_answer :: answer
  at_now :: int
  at_sleep :: bool

datatype request_error = TokenError | LimiterError | ReadError | SleepError | ClientError int | Exhausted
  | Quota QuotaError | EmptyPatch | NoBids | TooManyBids nat

fun attempts :: "nat \<Rightarrow> string \<Rightarrow> string \<Rightarrow> attempt_env list \<Rightarrow> perfQuotaTracker \<Rightarrow>
    (request_error + string) \<times> nat \<times> perfQuotaTracker" where
  "attempts attempt clientID category [] t = (Inl Exhausted, 0, t)"
| "attempts attempt clientID category (a # as) t =
     (let retry = (\<lambda>sleeps.
            if sleeps \<and> attempt < maxRetries \<and> \<not> at_sleep a then (Inl SleepError, 1, t)
            else case attempts (attempt + 1) clientID category as t of (r, sent, t') \<Rightarrow> (r, sent + 1, t'))
      in if \<not> at_token a then (Inl TokenError, 0, t)
         else if \<not> at_limiter a then (Inl LimiterError, 0, t)
         else case at_answer a of
             NetworkFails \<Rightarrow> retry True
           | BodyFails \<Rightarrow> (Inl ReadError, 1, t)
           | Answers status body retryAfter \<Rightarrow>
             if status = 401 then retry False
             else if status = 429 then
               if category \<noteq> [] then
                 let until = (case retryAfter of None \<Rightarrow> trunc_hour (at_now a) + hour | Some d \<Rightarrow> at_now a + d);
                     (e, t') = quota_block clientID category until t
                 in (Inl (Quota e), 1, t')
               else retry True
             else if status \<ge> 500 then retry True
             else if status \<ge> 400 then (Inl (ClientError status), 1, t)
             else (Inr body, 1, t))"

definition doJSON :: "string \<Rightarrow> string \<Rightarrow> (nat \<Rightarrow> attempt_env) \<Rightarrow> 'p \<Rightarrow> perfQuotaTracker \<Rightarrow>
    (request_error + string) \<times> 'p list \<times> perfQuotaTracker" where
  "doJSON clientID category env payload t =
     (case attempts 1 clientID category (map env [1..<maxRetries + 1]) t of
        (r, sent, t') \<Rightarrow> (r, replicate sent payload, t'))"

section \<open>Writes\<close>

definition microPerRuble :: int where "microPerRuble = 1000000"

definition RubToMicroRub :: "int \<Rightarrow> string" where
  "RubToMicroRub rub = fmt_d (wrap64 (rub * microPerRuble))"

definition RubFloatToMicroRub :: "f64 \<Rightarrow> string" where
  "RubFloatToMicroRub rub = fmt_d (int_of_float (math_Round (rub * float_of_int microPerRuble)))"

record CampaignPatch =
  cp_DailyBudgetRub :: "int option"
  cp_WeeklyBudgetRub :: "int option"
  cp_FromDate :: "int option"
  cp_ToDate :: "int option"

text \<open>The body of a campaign patch lists the fields that are present; \<open>formatDate\<close> stands for the layout of dates.\<close>

definition patch_body :: "(int \<Rightarrow> string) \<Rightarrow> CampaignPatch \<Rightarrow> (string \<times> string) list" where
  "patch_body formatDate p =
     (case cp_DailyBudgetRub p of None \<Rightarrow> [] | Some v \<Rightarrow> [(''dailyBudget'', RubToMicroRub v)]) @
     (case cp_WeeklyBudgetRub p of None \<Rightarrow> [] | Some v \<Rightarrow> [(''weeklyBudget'', RubToMicroRub v)]) @
     (case cp_FromDate p of None \<Rightarrow> [] | Some v \<Rightarrow> [(''fromDate'', formatDate v)]) @
     (case cp_ToDate p of None \<Rightarrow> [] | Some v \<Rightarrow> [(''toDate'', formatDate v)])"

definition UpdateCampaign :: "(int \<Rightarrow> string) \<Rightarrow> string \<Rightarrow> CampaignPatch \<Rightarrow> int \<Rightarrow> (nat \<Rightarrow> attempt_env) \<Rightarrow> perfQuotaTracker \<Rightarrow>
    request_error option \<times> (string \<times> string) list list \<times> perfQuotaTracker" where
  "UpdateCampaign formatDate clientID p now env t =
     (let body = patch_body formatDate p;
          send = (\<lambda>category t. case doJSON clientID category env body t of
            (Inl e, sent, t') \<Rightarrow> (Some e, sent, t') | (Inr _, sent, t') \<Rightarrow> (None, sent, t'))
      in if body = [] then (Some EmptyPatch, [], t)
         else if cp_DailyBudgetRub p \<noteq> None \<or> cp_WeeklyBudgetRub p \<noteq> None then
           case quota_reserve clientID QuotaBudgetWrite now t of
             (Some e, t') \<Rightarrow> (Some (Quota e), [], t')
           | (None, t') \<Rightarrow> send QuotaBudgetWrite t'
         else send [] t)"

record ProductBid =
  pb_SKU :: int
  pb_BidRub :: f64
  pb_TargetCIR :: "f64 option"

record wireBid =
  wb_SKU :: string
  wb_Bid :: string
  wb_TargetCIR :: string

definition productBidsMax :: nat where "productBidsMax = 10000"

text \<open>\<open>formatFloat\<close> is the shortest decimal form of \<^verbatim>\<open>strconv.FormatFloat\<close>.\<close>

definition wire_bid :: "(f64 \<Rightarrow> string) \<Rightarrow> ProductBid \<Rightarrow> wireBid" where
  "wire_bid formatFloat b =
     \<lparr>wb_SKU = fmt_d (pb_SKU b), wb_Bid = RubFloatToMicroRub (pb_BidRub b),
      wb_TargetCIR = (case pb_TargetCIR b of None \<Rightarrow> [] | Some v \<Rightarrow> formatFloat v)\<rparr>"

definition SetCampaignProductBids :: "(f64 \<Rightarrow> string) \<Rightarrow> string \<Rightarrow> ProductBid list \<Rightarrow> int \<Rightarrow> (nat \<Rightarrow> attempt_env) \<Rightarrow> perfQuotaTracker \<Rightarrow>
    request_error option \<times> wireBid list list \<times> perfQuotaTracker" where
  "SetCampaignProductBids formatFloat clientID bids now env t =
     (if bids = [] then (Some NoBids, [], t)
      else if length bids > productBidsMax then (Some (TooManyBids (length bids)), [], t)
      else case quota_reserve clientID QuotaBidWrite now t of
          (Some e, t') \<Rightarrow> (Some (Quota e), [], t')
        | (None, t') \<Rightarrow> (case doJSON clientID QuotaBidWrite env (map (wire_bid formatFloat) bids) t' of
            (Inl e, sent, t'') \<Rightarrow> (Some e, sent, t'') | (Inr _, sent, t'') \<Rightarrow> (None, sent, t'')))"


lemma attempts_facts:
  assumes "attempts k clientID category as t = (r, sent, t')"
  shows "sent \<le> length as" "pt_calls t' = pt_calls t"
    "\<And>e. r = Inl (Quota e) \<Longrightarrow> pt_blocked t' (perfQuotaTrackerKey clientID category) = qe_ResetAt e"
proof -
  have "sent \<le> length as \<and> pt_calls t' = pt_calls t \<and>
    (\<forall>e. r = Inl (Quota e) \<longrightarrow> pt_blocked t' (perfQuotaTrackerKey clientID category) = qe_ResetAt e)"
    using assms
  proof (induction as arbitrary: k r sent t')
    case (Cons a as)
    obtain r1 s1 t1 where rest: "attempts (k + 1) clientID category as t = (r1, s1, t1)"
      by (cases "attempts (k + 1) clientID category as t") blast
    show ?case using Cons.prems Cons.IH [OF rest] rest
      by (auto simp: Let_def quota_block_def split: if_splits answer.splits option.splits)
  qed auto
  then show "sent \<le> length as" "pt_calls t' = pt_calls t"
    "\<And>e. r = Inl (Quota e) \<Longrightarrow> pt_blocked t' (perfQuotaTrackerKey clientID category) = qe_ResetAt e" by simp_all
qed

lemma attempts_ban:
  assumes "attempts k clientID category as t = (r, sent, t')"
  shows "t' = t \<or> (\<exists>until e. quota_block clientID category until t = (e, t'))"
  using assms
proof (induction as arbitrary: k r sent t')
  case (Cons a as)
  obtain r1 s1 t1 where rest: "attempts (k + 1) clientID category as t = (r1, s1, t1)"
    by (cases "attempts (k + 1) clientID category as t") blast
  show ?case using Cons.prems Cons.IH [OF rest] rest
    by (auto simp: Let_def quota_block_def split: if_splits answer.splits option.splits)
qed auto

lemma banned_refused:
  "perfWriteQuotas category = Some limit \<Longrightarrow> u < pt_blocked t (perfQuotaTrackerKey clientID category) \<Longrightarrow>
   fst (quota_reserve clientID category u t) \<noteq> None"
  by (simp add: quota_reserve_def)

lemma refused_sends_nothing:
  "fst (quota_reserve clientID QuotaBidWrite u t) \<noteq> None \<Longrightarrow> fst (snd (SetCampaignProductBids ff clientID bids u env t)) = []"
  by (cases "quota_reserve clientID QuotaBidWrite u t") (auto simp: SetCampaignProductBids_def)

lemma bid_write_limited: "perfWriteQuotas QuotaBidWrite = Some \<lparr>ql_hourly = 500, ql_daily = 6000\<rparr>"
  by (simp add: perfWriteQuotas_def QuotaBidWrite_def QuotaBudgetWrite_def)

lemma SetBids_Quota_cases:
  assumes "SetCampaignProductBids ff clientID bids now env t = (Some (Quota e), sent, t')"
  obtains (reserve) "quota_reserve clientID QuotaBidWrite now t = (Some e, t')"
    | (answered) "pt_blocked t' (perfQuotaTrackerKey clientID QuotaBidWrite) = qe_ResetAt e"
proof -
  have l: "bids \<noteq> []" "\<not> length bids > productBidsMax" using assms by (auto simp: SetCampaignProductBids_def split: if_splits)
  obtain x t1 where r: "quota_reserve clientID QuotaBidWrite now t = (x, t1)" by (cases "quota_reserve clientID QuotaBidWrite now t") blast
  obtain y n t2 where a: "attempts 1 clientID QuotaBidWrite (map env [1..<maxRetries + 1]) t1 = (y, n, t2)"
    by (cases "attempts 1 clientID QuotaBidWrite (map env [1..<maxRetries + 1]) t1") blast
  show ?thesis
  proof (cases x)
    case None
    then have "y = Inl (Quota e)" "t' = t2" using assms l r a
      by (auto simp: SetCampaignProductBids_def doJSON_def simp del: attempts.simps split: sum.splits)
    then show ?thesis using attempts_facts(3) [OF a] answered by blast
  next
    case (Some e')
    then show ?thesis using assms l r reserve by (auto simp: SetCampaignProductBids_def)
  qed
qed

text \<open>
  C25 A quota error is honoured: once a bid write has ended with one, from the counters or from an answer 429 of the
  marketplace, every further bid write of the account before the announced time sends no request.
\<close>

theorem quota_error_stops_writes:
  assumes reach: "quota_start s" "quota_step\<^sup>*\<^sup>* s (now, t, writes)"
    and error: "SetCampaignProductBids ff clientID bids now env t = (Some (Quota e), sent, t')"
    and early: "now \<le> u" "u < qe_ResetAt e"
  shows "fst (snd (SetCampaignProductBids ff clientID bids' u env' t')) = []"
proof (rule refused_sends_nothing)
  let ?k = "perfQuotaTrackerKey clientID QuotaBidWrite"
  show "fst (quota_reserve clientID QuotaBidWrite u t') \<noteq> None"
    using error
  proof (cases rule: SetBids_Quota_cases)
    case reserve
    show ?thesis
    proof (cases "pt_blocked t ?k \<le> now")
      case True
      then show ?thesis using reset_exact [OF quota.inv_reachable [OF reach] True reserve early(1)] early(2) by simp
    next
      case False
      then have "e = \<lparr>qe_Category = QuotaBidWrite, qe_ResetAt = pt_blocked t ?k\<rparr>" "t' = t"
        using reserve by (auto simp: quota_reserve_def bid_write_limited)
      then show ?thesis using banned_refused [OF bid_write_limited] early(2) by simp
    qed
  next
    case answered
    then show ?thesis using banned_refused [OF bid_write_limited] early(2) by simp
  qed
qed

definition bid_requests :: "nat \<Rightarrow> (f64 \<Rightarrow> string) \<Rightarrow> ProductBid list \<Rightarrow> wireBid list list" where
  "bid_requests n ff bids = replicate n (map (wire_bid ff) bids)"

text \<open>
  One reservation covers at most three identical requests, and every sent request belongs to one.
\<close>

theorem bids_refine_quota:
  assumes "SetCampaignProductBids ff clientID bids now env t = (r, sent, t')"
  shows "\<exists>n writes'. quota_step\<^sup>*\<^sup>* (now, t, writes) (now, t', writes') \<and> sent = bid_requests n ff bids \<and>
    n \<le> maxRetries * (length (writes' clientID QuotaBidWrite) - length (writes clientID QuotaBidWrite)) \<and>
    length (writes' clientID QuotaBidWrite) \<le> length (writes clientID QuotaBidWrite) + 1"
proof (cases "bids = [] \<or> length bids > productBidsMax")
  case True
  then have "sent = bid_requests 0 ff bids" "t' = t" using assms by (auto simp: SetCampaignProductBids_def bid_requests_def split: if_splits)
  then show ?thesis by (intro exI [where x = 0] exI [where x = writes]) simp
next
  case False
  obtain x t1 where q: "quota_reserve clientID QuotaBidWrite now t = (x, t1)" by (cases "quota_reserve clientID QuotaBidWrite now t") blast
  obtain y n t2 where a: "attempts 1 clientID QuotaBidWrite (map env [1..<maxRetries + 1]) t1 = (y, n, t2)"
    by (cases "attempts 1 clientID QuotaBidWrite (map env [1..<maxRetries + 1]) t1") blast
  show ?thesis
  proof (cases x)
    case (Some e)
    then have "sent = bid_requests 0 ff bids" "t' = t1" using assms False q by (auto simp: SetCampaignProductBids_def bid_requests_def)
    moreover have "quota_step (now, t, writes) (now, t1, writes)" using q Some by (auto intro: quota_step.refuse)
    ultimately show ?thesis by (intro exI [where x = 0] exI [where x = writes]) auto
  next
    case None
    let ?w = "writes(clientID := (writes clientID)(QuotaBidWrite := writes clientID QuotaBidWrite @ [now]))"
    have s: "sent = bid_requests n ff bids" "t' = t2" using assms False q a None
      by (auto simp: SetCampaignProductBids_def doJSON_def bid_requests_def simp del: attempts.simps split: sum.splits)
    have "quota_step (now, t, writes) (now, t1, ?w)" using q None by (auto intro: quota_step.admit)
    moreover have "quota_step\<^sup>*\<^sup>* (now, t1, ?w) (now, t2, ?w)" using attempts_ban [OF a] by (auto intro: quota_step.ban)
    ultimately have "quota_step\<^sup>*\<^sup>* (now, t, writes) (now, t2, ?w)" by (rule converse_rtranclp_into_rtranclp)
    moreover have "n \<le> maxRetries" using attempts_facts(1) [OF a] by (simp del: upt_Suc)
    ultimately show ?thesis unfolding s by (intro exI [where x = n] exI [where x = ?w]) simp
  qed
qed

section \<open>Runs of the model\<close>

text \<open>A hundred budget writes within the same moment fill the hour; the next one is refused until an hour later.\<close>

definition full_hour :: "nat \<Rightarrow> quota_state" where
  "full_hour n = (hour, setCalls ''a|budget_write'' (replicate n hour) perfQuotaTracker_zero,
     \<lambda>c k. if c = ''a'' \<and> k = QuotaBudgetWrite then replicate n hour else [])"

lemma budget_write_limited: "perfWriteQuotas QuotaBudgetWrite = Some \<lparr>ql_hourly = 100, ql_daily = 500\<rparr>"
  by (simp add: perfWriteQuotas_def)

lemma full_replicate: "full d n now (replicate m now) \<longleftrightarrow> n \<le> m \<or> n = 0" if "0 < d"
  using that by (auto simp: full_def)

lemma full_hour_reserve:
  "quota_reserve ''a'' QuotaBudgetWrite hour (fst (snd (full_hour n))) =
     (if n < 100 then (None, fst (snd (full_hour (Suc n))))
      else (Some \<lparr>qe_Category = QuotaBudgetWrite, qe_ResetAt = reset_at \<lparr>ql_hourly = 100, ql_daily = 500\<rparr> hour (replicate n hour)\<rparr>, fst (snd (full_hour n))))"
proof -
  have key: "''a|budget_write'' = perfQuotaTrackerKey ''a'' QuotaBudgetWrite"
    by (simp add: perfQuotaTrackerKey_def QuotaBudgetWrite_def)
  let ?t = "fst (snd (full_hour n))"
  have c: "pt_calls ?t ''a|budget_write'' = replicate n hour" "pt_blocked ?t = (\<lambda>_. 0)"
    by (simp_all add: full_hour_def setCalls_def perfQuotaTracker_zero_def)
  have r: "recent_calls hour (replicate n hour) = replicate n hour" by (cases n) (simp_all add: recent_calls_def hour_pos)
  show ?thesis
    using reserve_unbanned [OF budget_write_limited key, of ?t hour] hour_pos
    by (auto simp: c r full_replicate sorted_replicate Let_def full_hour_def perfQuotaTracker_zero_def setCalls_def replicate_append_same [symmetric])
qed

lemma full_hour_steps: "n \<le> 100 \<Longrightarrow> quota_step\<^sup>*\<^sup>* (full_hour 0) (full_hour n)"
proof (induction n)
  case (Suc n)
  have "quota_step (full_hour n) (full_hour (Suc n))"
    using quota_step.admit [of "''a''" QuotaBudgetWrite hour "fst (snd (full_hour n))" "fst (snd (full_hour (Suc n)))" "snd (snd (full_hour n))"]
      full_hour_reserve [of n] Suc.prems
    by (simp add: full_hour_def replicate_append_same fun_upd_def cong: if_cong) (auto simp: fun_eq_iff elim!: back_subst [where P = "quota_step _"])
  then show ?case using Suc by auto
qed simp


lemma full_hour_start: "quota_start (full_hour 0)"
  using hour_pos by (auto simp: quota_start_def full_hour_def setCalls_def perfQuotaTracker_zero_def fun_eq_iff)

lemma full_hour_reset: "reset_at \<lparr>ql_hourly = 100, ql_daily = 500\<rparr> hour (replicate 100 hour) = 2 * hour"
  using reset_at_cases [of "replicate 100 hour" "\<lparr>ql_hourly = 100, ql_daily = 500\<rparr>" hour] hour_pos
  by (simp add: full_replicate sorted_replicate)

lemma full_hour_unfold: "full_hour n = (hour, fst (snd (full_hour n)), snd (snd (full_hour n)))"
  by (simp add: full_hour_def)

lemma full_hour_quota: "length (window hour hour (snd (snd (full_hour 100)) ''a'' QuotaBudgetWrite)) = 100"
  using hour_pos by (simp add: full_hour_def window_def)

theorem quota_never_exceeded_witness:
  "length (window hour hour (snd (snd (full_hour 100)) ''a'' QuotaBudgetWrite)) = 100 \<and>
   length (window hour (2 * hour) (snd (snd (full_hour 100)) ''a'' QuotaBudgetWrite)) \<le> 100"
  using quota_never_exceeded [OF full_hour_start, of hour "fst (snd (full_hour 100))" "snd (snd (full_hour 100))" QuotaBudgetWrite
      "\<lparr>ql_hourly = 100, ql_daily = 500\<rparr>" "2 * hour" "''a''"] full_hour_steps [of 100] budget_write_limited full_hour_quota
    full_hour_unfold [of 100] by simp

theorem quota_reset_exact_witness:
  "fst (quota_reserve ''a'' QuotaBudgetWrite (2 * hour - 1) (fst (snd (full_hour 100)))) \<noteq> None \<and>
   fst (quota_reserve ''a'' QuotaBudgetWrite (2 * hour) (fst (snd (full_hour 100)))) = None"
proof -
  let ?t = "fst (snd (full_hour 100))"
  have b: "pt_blocked ?t (perfQuotaTrackerKey ''a'' QuotaBudgetWrite) \<le> hour"
    by (simp add: full_hour_def setCalls_def perfQuotaTracker_zero_def hour_def)
  have r: "quota_reserve ''a'' QuotaBudgetWrite hour ?t = (Some \<lparr>qe_Category = QuotaBudgetWrite, qe_ResetAt = 2 * hour\<rparr>, ?t)"
    using full_hour_reserve [of 100] full_hour_reset by simp
  have st: "quota_step\<^sup>*\<^sup>* (full_hour 0) (hour, ?t, snd (snd (full_hour 100)))" using full_hour_steps [of 100] full_hour_unfold [of 100] by simp
  show ?thesis
    using quota_reset_exact [OF full_hour_start st b r, of "2 * hour - 1"] quota_reset_exact [OF full_hour_start st b r, of "2 * hour"]
    by (simp add: hour_def)
qed

text \<open>A write that the marketplace answers with 429 without a header bans the category until the next full hour.\<close>

definition refusing :: "nat \<Rightarrow> attempt_env" where
  "refusing _ = \<lparr>at_token = True, at_limiter = True, at_answer = Answers 429 [] None, at_now = hour + 1, at_sleep = True\<rparr>"

definition some_bid :: ProductBid where
  "some_bid = \<lparr>pb_SKU = 1, pb_BidRub = Fin 5, pb_TargetCIR = None\<rparr>"

definition start_tracker :: perfQuotaTracker where
  "start_tracker = snd (snd (SetCampaignProductBids (\<lambda>_. []) ''a'' [some_bid] hour refusing perfQuotaTracker_zero))"

lemma first_refusal:
  "SetCampaignProductBids (\<lambda>_. []) ''a'' [some_bid] hour refusing perfQuotaTracker_zero =
    (Some (Quota \<lparr>qe_Category = QuotaBidWrite, qe_ResetAt = 2 * hour\<rparr>), [[wire_bid (\<lambda>_. []) some_bid]], start_tracker)"
proof -
  have "quota_reserve ''a'' QuotaBidWrite hour perfQuotaTracker_zero =
      (None, setCalls (perfQuotaTrackerKey ''a'' QuotaBidWrite) [hour] perfQuotaTracker_zero)"
    using less_imp_le [OF hour_pos] by (simp add: not_less quota_reserve_def bid_write_limited perfQuotaTracker_zero_def recent_calls_def reset_at_def calls_in_hour_def Let_def)
  then show ?thesis
    by (simp add: SetCampaignProductBids_def doJSON_def productBidsMax_def maxRetries_def refusing_def QuotaBidWrite_def quota_block_def
        Let_def trunc_hour_def hour_def start_tracker_def upt_rec)
qed

theorem quota_error_stops_writes_witness:
  "fst (snd (SetCampaignProductBids (\<lambda>_. []) ''a'' [some_bid] (2 * hour - 1) refusing start_tracker)) = []"
  by (rule quota_error_stops_writes [OF _ rtranclp.rtrancl_refl first_refusal, where writes = "\<lambda>_ _. []"])
    (simp_all add: quota_start_def hour_def)

theorem bids_refine_quota_witness:
  "\<exists>n writes'. quota_step\<^sup>*\<^sup>* (hour, perfQuotaTracker_zero, \<lambda>_ _. []) (hour, start_tracker, writes') \<and>
    [[wire_bid (\<lambda>_. []) some_bid]] = bid_requests n (\<lambda>_. []) [some_bid] \<and>
    n \<le> maxRetries * (length (writes' ''a'' QuotaBidWrite) - 0) \<and> length (writes' ''a'' QuotaBidWrite) \<le> 0 + 1"
  using bids_refine_quota [OF first_refusal, of "\<lambda>_ _. []"] by simp

end
