(* ===== verification/Spec2Isabelle.thy ===== *)
theory Spec2Isabelle
  imports Ozon_Price_Safety Strategy_Service Repricer_Run Ozon_Strategy Ozon_Quota
begin

text \<open>
  \<^bold>\<open>The program.\<close> A Go backend that automates advertising and prices of marketplace sellers. Its core decides
  what to bid and what to charge: strategies with parameters are stored per workspace and seller cabinet
  (\<^verbatim>\<open>internal/domain/strategy.go\<close>, \<^verbatim>\<open>internal/service/strategy.go\<close>), a bid engine turns statistics into bids
  (\<^verbatim>\<open>bidengine.go\<close>), a price engine turns economics, stock and demand into prices (\<^verbatim>\<open>priceengine.go\<close>), and a
  repricer collects price intents from sellers, schedules and strategies in a database queue, uploads them
  to the marketplace in batches and follows the upload tasks to their end (\<^verbatim>\<open>repricer_*.go\<close>,
  \<^verbatim>\<open>price_schedule.go\<close>, \<^verbatim>\<open>internal/repository/sqlc/repricer_manual.go\<close>).

  \<^bold>\<open>Theories.\<close>
  \<^item> \<open>Go_Prelude\<close>: 64-bit integers with wrap-around, errors, formatting, the locale \<open>state_invariant\<close>.
  \<^item> \<open>Go_Float\<close>: \<^verbatim>\<open>float64\<close> as binary64 over rationals with infinities and NaN, rounding to nearest even, the
    locale \<open>fp_rounding\<close> and its interpretation on the rounding function.
  \<^item> \<open>Strategy_Params\<close>, \<open>Strategy_Validation\<close>: the parameter record, default filling, every check before a save.
  \<^item> \<open>Bid_Engine\<close>: \<^verbatim>\<open>CalculateBid\<close> with all bid rules, guardrails and the final corridor and step limits.
  \<^item> \<open>Price_Engine\<close>: margin floor, base price and the five decision functions; the locales
    \<open>repricer_decision\<close> and \<open>stepped_decision\<close> state their contract and are interpreted on each of them.
  \<^item> \<open>Price_Adjust\<close>: manual adjustments, the discounted price, the margin clamp, the quarantine and raise
    checks; the locale \<open>settled_path\<close> is the contract of a price on its way into the queue.
  \<^item> \<open>Strategy_Service\<close>: create, update, delete, attach and detach over the SQL store, with the exclusive
    ownership of live strategies as an invariant of all reachable stores.
  \<^item> \<open>Repricer_Store\<close>: the tables of the repricer and one definition per SQL statement, with its guards. The
    step relation \<open>sql_step\<close> interleaves the atomic statements of any number of workers; \<open>queue_wf\<close> is its
    invariant.
  \<^item> \<open>Repricer_Queue\<close>: enqueueing, claiming, uploading, polling and recovering. The environment record supplies
    clock, fresh ids, statement failures and every answer of the marketplace as functions of a call
    counter, so that all theorems hold for every schedule of failures. \<open>runs\<close> says that an operation is a sequence of
    \<open>sql_step\<close>s and keeps the invariant \<open>good\<close>.
  \<^item> \<open>Repricer_Ops\<close>: rollback and manual bulk requests. \<open>Price_Schedule\<close>: scheduled changes with automatic revert.
    \<open>Repricer_Run\<close>: the run of the price strategies.
  \<^item> \<open>Ozon_Budget\<close>: the counters of metered calls, the share of automation and the time of the reset.
    \<open>Ozon_Quota\<close>: the write quota inside the client, its requests and their retries.
    \<open>Ozon_Guardrails\<close>: the checks and clamps of proposals for the second marketplace. \<open>Ozon_Total_DRR\<close>: the share of
    advertising in the whole turnover, its evidence and the ceiling. \<open>Ozon_Strategy\<close>: the sweep of the bid strategies over their
    campaigns, which composes the bid engine, the ceiling and the budget; the locale \<open>campaign_relation\<close> lifts what one
    campaign guarantees to a whole run and is interpreted for shadow runs, for settling, for the budget and for the writes that were sent.
  \<^item> \<open>Ozon_Price_Rules\<close>: the margin floor and the five price rules of the second marketplace; the locale \<open>ozon_rule\<close> says that a
    cut stays above the floor and is interpreted on each rule. \<open>Ozon_Repricer\<close>: its run, manual changes and rollback over the tables,
    one definition per statement. \<open>Ozon_Calendar\<close>: planned prices, their execution and revert, the pause. \<open>Ozon_Writes\<close>: all of them
    as one step relation \<open>price_step\<close> whose invariant bounds the writes of an hour. \<open>Ozon_Price_Safety\<close>: rollback, the floor of
    automatic cuts, pause and failures.
  \<^item> This theory: the composition of these operations.

  \<^bold>\<open>What is shown.\<close> Bids stay in the corridor, move by at most the configured percentage and rise only past every
  guardrail; in floating point, not only on paper. Saved bid strategies satisfy the parameter conditions of those theorems, but
  for two stated cases in which one corridor limit meets the default of the other,
  and no two live strategies own the same target. A base price is the least one that reaches its target, manual
  and scheduled changes respect the margin floor and pass the quarantine check, manual ones drop a price by less than three times
  unless the requested price rounds to zero, a price below its margin floor is corrected in one decision, and
  repeating the stepped descent reaches the target. In the queue at most one change of a product is in
  transport however workers interleave, a batch with an unknown outcome is repeated with the same
  payload, changes keep their identity and only move forward, finished schedules stay finished, and
  everything uploaded is a vetted change. Rollbacks and reverts go back to exactly the price before. Dry runs
  send nothing and disagreeing strategies cancel each other. The bid writes that the strategies send keep to their share of
  the Ozon call allowance in every 24 consecutive clock hours, clamped proposals pass the change check, and Ozon bids are written only past
  cooldown, limits and a complete measurement of the turnover. The client admits no more writes than the marketplace allows in any
  hour or day and sends nothing before the time a quota error announces. A product of the second marketplace has at most ten price
  writes in any hour, whichever operations cause them; an automatic cut keeps its floor, and a rollback restores the price. Some theorems
  show where the code falls short of its own documentation.

  \<^bold>\<open>Loops and fuel.\<close> No fuel is used: the drain loop ends because each round lowers the number of waiting changes
  (\<open>waiting\<close>), paging ends with the table, all other loops are structural.

  \<^bold>\<open>Conventions.\<close> UUIDs and instants are integers (instants in microseconds since the zero time); a Go map
  iterated by the code is a map with a key list and an arbitrary order from the environment; log output
  and the audit JSON of decisions are left out. Numeric hypotheses such as \<open>price_range\<close> bound prices by amounts far above
  any real one, below which the floating-point results are exact.

  \<^bold>\<open>Not modelled.\<close> HTTP transport, DTOs, authentication and configuration; generated queries outside the strategy and
  repricer tables; the clients of the marketplaces, of the language model and of the parent platform, which
  appear as answers in the environment; worker runtime and scheduling; advertising statistics, their synchronization and read models; campaign
  actions and bid automation around the bid engine; recommendations, SEO and competitor
  analysis; the campaign actions and the language-model manager of the second marketplace; notifications and exports. Inside the modelled files, the price and quarantine
  refresh, the loading of the snapshot of a run (its derived values apart) and the list endpoints are left out.
\<close>

section \<open>Operations of the repricer\<close>

text \<open>
  The requests and the worker jobs of the repricer in any order. \<open>sync\<close> stands for the jobs that refresh
  prices, economics and cabinets.
\<close>

inductive service_step :: "repricer_env \<Rightarrow> repricer_db \<Rightarrow> repricer_db \<Rightarrow> bool" for env where
  bulk: "service_step env db (snd (ApplyManualBulk env actor ws req db))"
| rollback: "service_step env db (snd (Rollback env actor ws changeID db))"
| poll: "service_step env db (snd (PollUploadTasks env ws db))"
| create_schedule: "service_step env db (snd (CreateSchedule env actor ws inp db))"
| cancel_schedule: "service_step env db (snd (CancelSchedule env ws entryID db))"
| execute_schedules: "service_step env db (snd (ExecuteDueSchedules env now db))"
| run: "service_step env db (snd (RunForWorkspace_loaded env ws sts data db))"
| sync: "service_step env db (db\<lparr>product_prices := prices, product_economics := economics, seller_cabinets := cabinets\<rparr>)"

lemma service_step_runs: "service_step env db db' \<Longrightarrow> runs env db db'"
proof (induction rule: service_step.induct)
  case (sync db prices economics cabinets)
  show ?case by (rule runs_same) (simp_all add: sent_ok_def)
qed (rule ApplyManualBulk_runs Rollback_runs PollUploadTasks_runs CreateSchedule_runs CancelSchedule_runs ExecuteDueSchedules_runs RunForWorkspace_loaded_runs)+

definition start_state :: "repricer_env \<Rightarrow> repricer_db \<Rightarrow> bool" where
  "start_state env db \<longleftrightarrow> price_changes db = [] \<and> wb_sent db = [] \<and> inj (e_uuid env)"

interpretation service: state_invariant "start_state env" "service_step env" "good env" for env
proof unfold_locales
  show "good env db" if "start_state env db" for db
    using that by (simp add: start_state_def good_def queue_wf_def rows_wf_def batches_small_def ids_unused_def sent_ok_def vetted_rows_def)
  show "good env db'" if "good env db" "service_step env db db'" for db db'
    using service_step_runs [OF that(2)] that(1) by (simp add: runs_def)
qed

lemma service_steps_sql:
  assumes "(service_step env)\<^sup>*\<^sup>* db db'" "good env db"
  shows "sql_step\<^sup>*\<^sup>* db db'"
  using assms
proof (induction rule: rtranclp_induct)
  case (step y z)
  have "good env y" by (rule service.inv_steps [OF step.hyps(1) step.prems])
  then have "sql_step\<^sup>*\<^sup>* y z" using service_step_runs [OF step.hyps(2)] by (simp add: runs_def)
  then show ?case using step.IH [OF step.prems] by simp
qed simp

text \<open>
  C2 Whatever operations run, every upload that reaches the marketplace has between one and a thousand
  lines with strictly increasing product ids, and each line is the new price and discount of a saved change
  of that cabinet and product which passed the quarantine and the raise check.
\<close>

theorem uploads_are_vetted_changes:
  assumes "start_state env db0" "(service_step env)\<^sup>*\<^sup>* db0 db" "(cab, items) \<in> set (wb_sent db)"
  shows "items \<noteq> [] \<and> length items \<le> 1000 \<and> sorted_wrt (<) (map ui_NmID items) \<and>
    (\<forall>i \<in> set items. \<exists>r \<in> set (price_changes db). \<exists>it.
       pc_SellerCabinetID r = cab \<and> pc_WbProductID r = ui_NmID i \<and> pc_NewPriceRub r = ui_Price i \<and> pc_NewDiscountPercent r = ui_Discount i \<and>
       vetted_by it r)"
proof -
  have g: "good env db" by (rule service.inv_reachable [OF assms(1,2)])
  then have u: "upload_ok items" "lines_known (price_changes db) cab items"
    using assms(3) by (auto simp: good_def sent_ok_def)
  have v: "\<exists>it. vetted_by it r" if "r \<in> set (price_changes db)" "\<not> recommended r" for r
    using g that by (auto simp: good_def vetted_rows_def vetted_def)
  show ?thesis using u v unfolding upload_ok_def lines_known_def line_of_def by metis
qed

text \<open>
  C32 A schedule entry that is done, failed or canceled is never touched again: no operation of the
  service changes any of its columns or removes it.
\<close>

theorem finished_schedule_final:
  assumes "start_state env db0" "(service_step env)\<^sup>*\<^sup>* db0 db" "(service_step env)\<^sup>*\<^sup>* db db'"
    and "e \<in> set (price_schedule_entries db)" "se_Status e \<in> {PriceScheduleDone, PriceScheduleFailed, PriceScheduleCanceled}"
  shows "e \<in> set (price_schedule_entries db')"
proof -
  have "sql_step\<^sup>*\<^sup>* db db'" by (rule service_steps_sql [OF assms(3) service.inv_reachable [OF assms(1,2)]])
  from steps_schedules [OF this assms(4)] show ?thesis using assms(5) by (auto simp: schedule_kept_def finished_def)
qed

section \<open>A run\<close>

text \<open>
  A seller raises a price by hand from 3000 to 3100 rubles; the change is saved, claimed and uploaded, and
  the marketplace rejects the upload.
\<close>

definition live_env :: repricer_env where
  "live_env = calm_env\<lparr>e_cooling := (\<lambda>_ _. False), e_upload := (\<lambda>_ _. UploadRejected ''no'')\<rparr>"

definition shop_db :: repricer_db where
  "shop_db = run_db0\<lparr>product_prices := [wit_cur\<lparr>pp_WorkspaceID := 9\<rparr>]\<rparr>"

definition ask_raise :: ManualPriceBulkRequest where
  "ask_raise = \<lparr>rq_Items = [\<lparr>mi_WBProductID = 1, mi_TargetPriceRub = Some 3100, mi_DiscountPercent = None\<rparr>],
     rq_Scope = None, rq_Adjustment = None, rq_Comment = [], rq_Force = False\<rparr>"

definition raise_intent :: priceChangeIntent where
  "raise_intent = (wit_intent 3100 [])\<lparr>IntentMinPriceRub := 0, CreatedBy := Some 3\<rparr>"

lemma live_exec [simp]: "exec live_env stmt db = map_prod Some id (stmt (1000 + int (calls db)) (100 + int (calls db)) (tick db))"
  by (simp add: exec_def Let_def live_env_def split: prod.split)

lemma live_simps [simp]: "e_cooling live_env = (\<lambda>_ _. False)" "e_upload live_env = (\<lambda>_ _. UploadRejected ''no'')"
  "e_fault live_env = (\<lambda>_. False)" "e_now live_env = (\<lambda>n. 1000 + int n)" "e_map_order live_env = (\<lambda>_ ks. ks)" "e_decrypt live_env = Inr"
  by (simp_all add: live_env_def) (simp add: calm_env_def)

lemma live_query [simp]: "query live_env q fail k db = k (q (1000 + int (calls db)) (tick db)) (tick db)"
  by (simp add: query_def)

lemma raise_outcome: "bulk_outcomes 3 ask_raise (overlayLatestPriceIntents (price_by_nm [wit_cur\<lparr>pp_WorkspaceID := 9\<rparr>]) []) (\<lambda>_. None) order = [Intent raise_intent]"
  by (simp add: bulk_outcomes_def ask_raise_def bulk_item_def outcome_of_def overlayLatestPriceIntents_def price_by_nm_def)
    (simp add: appendIntent_def settle_price_def clamp_request_def clampToMarginFloor_def floor_at_def wit_cur_def
      wit_intent_def effectiveOf_eq clampDiscount_def quarantineSafeTarget_def basePriceForTarget_def go_eval raise_intent_def)


lemma raise_valid: "validateManualPriceBulkRequest ask_raise = None"
  by (simp add: validateManualPriceBulkRequest_def ask_raise_def maxPriceRub_def lit_def round64_int [of 1000000000, simplified] feq_def
    maxPriceRub_def)

lemma no_floors: "marginFloors [] f = (\<lambda>_. None)"
  by (simp add: marginFloors_def margin_floors_from.simps economicsPageSize_def Let_def)

lemma raise_checks: "checkQuarantineRisk raise_intent = None" "checkRaiseAnomaly raise_intent = None"
  by (simp_all add: raise_intent_def wit_intent_def checkQuarantineRisk_def checkRaiseAnomaly_def effectiveOf_eq wrap64_def)

abbreviation raise_row :: PriceChangeRow where
  "raise_row \<equiv> pending_row 103 1003 9 raise_intent"

lemma raise_enqueue:
  assumes "price_changes db = []" "calls db = 3"
  shows "enqueue_intents live_env 9 [raise_intent] db = (([103], []), (tick db)\<lparr>price_changes := [raise_row]\<rparr>)"
  using assms raise_checks
  by (simp add: enqueuePendingChange_def EnqueuePriceChange_def insertable_def upd_where_def)
    (simp add: pending_row_def raise_intent_def wit_intent_def price_status_defs)

lemma raise_fields [simp]: "pc_ID raise_row = 103" "pc_WorkspaceID raise_row = 9" "pc_SellerCabinetID raise_row = 1" "pc_WbStatus raise_row = PriceStatusPending"
  "pc_WbProductID raise_row = 1" "pc_NewPriceRub raise_row = 3100" "pc_NewDiscountPercent raise_row = 0"
  by (simp_all add: pending_row_def raise_intent_def wit_intent_def wrap32_def)

lemma raise_claimable: "price_changes db = [raise_row] \<Longrightarrow> claimable db raise_row"
  by (simp add: claimable_def in_transport_def transport_statuses_def price_status_defs)

lemma raise_claims:
  assumes "price_changes db = [raise_row]"
  shows "ClaimUnknownPriceChanges 9 1 now db = ([], db)"
    "ClaimPendingPriceChanges 9 1 priceUploadChunkSize now u db = ([claim_row now u raise_row], db\<lparr>price_changes := [claim_row now u raise_row]\<rparr>)"
  using assms raise_claimable [OF assms]
  by (simp_all add: ClaimUnknownPriceChanges_def candidate_batch_def uncertain_row_def ClaimPendingPriceChanges_def claim_candidates_def
      claim_ids_def upd_where_def rows_with_ids_def priceUploadChunkSize_def Let_def claim_row_def price_status_defs)

lemma raise_upload:
  "\<exists>db' e. uploadClaimedChunk live_env 9 1 [claim_row now u raise_row] db = ((uuid_Nil, [e]), db') \<and>
     wb_sent db' = wb_sent db @ [(1, [\<lparr>ui_NmID = 1, ui_Price = 3100, ui_Discount = 0\<rparr>])]"
  by (simp add: uploadClaimedChunk_def exec_upd_def Let_def FailSubmittingPriceChanges_def settle_submitting_def chunk_items_def claim_row_def)

lemma raise_drain:
  assumes "price_changes db = [raise_row]" "wb_sent db = []"
  shows "wb_sent (snd (drain_loop live_env 9 1 [] db)) = [(1, [\<lparr>ui_NmID = 1, ui_Price = 3100, ui_Discount = 0\<rparr>])]"
proof -
  let ?r = "claim_row (1000 + int (calls (tick db))) (100 + int (calls (tick db))) raise_row"
  obtain d e where u: "uploadClaimedChunk live_env 9 1 [?r] (tick (tick db)\<lparr>price_changes := [?r]\<rparr>) = ((uuid_Nil, [e]), d)"
    "wb_sent d = [(1, [\<lparr>ui_NmID = 1, ui_Price = 3100, ui_Discount = 0\<rparr>])]"
    using raise_upload [of "1000 + int (calls (tick db))" "100 + int (calls (tick db))" "tick (tick db)\<lparr>price_changes := [?r]\<rparr>"] assms(2)
    by auto
  have "drain_round live_env 9 1 db = (Some (uuid_Nil, [e]), d)"
    using assms(1) u(1) by (simp add: drain_round_def raise_claims)
  then show ?thesis using u(2) by (subst drain_loop.simps) simp
qed

lemma raise_cabinets:
  "price_changes db = [raise_row] \<Longrightarrow> ListClaimablePriceChangeCabinets 9 db = [1]"
  by (simp add: ListClaimablePriceChangeCabinets_def raise_claimable)

lemma raise_pending:
  assumes "price_changes db = [raise_row]" "wb_sent db = []"
  shows "wb_sent (snd (drainPendingPriceChanges live_env 9 db)) = [(1, [\<lparr>ui_NmID = 1, ui_Price = 3100, ui_Discount = 0\<rparr>])]"
proof -
  have "wb_sent (snd (drainCabinetPriceChanges live_env 9 1 (tick db))) = [(1, [\<lparr>ui_NmID = 1, ui_Price = 3100, ui_Discount = 0\<rparr>])]"
    using assms by (simp add: drainCabinetPriceChanges_def mustCabinetToken_def exec_read_def raise_drain case_prod_beta split: option.split)
  then show ?thesis using assms by (simp add: drainPendingPriceChanges_def exec_read_def raise_cabinets case_prod_beta)
qed

lemma read_or_sent [simp]: "wb_sent (snd (read_or x l live_env q db)) = wb_sent db"
  by (simp add: read_or_def exec_read_def)

lemma raise_run: "wb_sent (snd (ApplyManualBulk live_env 3 9 ask_raise shop_db)) = [(1, [\<lparr>ui_NmID = 1, ui_Price = 3100, ui_Discount = 0\<rparr>])]"
proof -
  have scope: "rq_Scope ask_raise = None" by (simp add: ask_raise_def)
  have reads: "ListProductPricesByWorkspace 9 100000 0 (tick shop_db) = [wit_cur\<lparr>pp_WorkspaceID := 9\<rparr>]"
    "ListLatestPriceIntents 9 None (tick (tick shop_db)) = []"
    by (simp_all add: ListProductPricesByWorkspace_def ListLatestPriceIntents_def shop_db_def run_db0_def tick_def wit_cur_def)
  obtain d where fl: "load_floors live_env 9 (tick (tick shop_db)) = (\<lambda>_. None, d)" "price_changes d = []" "calls d = 3" "wb_sent d = []"
    by (simp add: load_floors_def shop_db_def run_db0_def tick_def no_floors)
  have fin: "wb_sent (snd (bulk_finish live_env 9 [Intent raise_intent] d)) = [(1, [\<lparr>ui_NmID = 1, ui_Price = 3100, ui_Discount = 0\<rparr>])]"
    using fl by (simp add: bulk_finish_def bulk_intents_def List.map_filter_simps enqueueAndApplyIntents_def raise_enqueue raise_pending
       exec_upd_def AggregatePriceSchedules_def Let_def case_prod_beta del: enqueue_intents.simps)
  show ?thesis by (simp add: ApplyManualBulk_def raise_valid scope bulk_run_def reads raise_outcome fl(1) fin)
qed

theorem uploads_are_vetted_changes_witness:
  "\<exists>r it. pc_SellerCabinetID r = 1 \<and> pc_WbProductID r = 1 \<and> pc_NewPriceRub r = 3100 \<and> pc_NewDiscountPercent r = 0 \<and> vetted_by it r"
proof -
  have "start_state live_env shop_db"
    by (auto simp: start_state_def shop_db_def run_db0_def live_env_def inj_def)
  moreover have "(service_step live_env)\<^sup>*\<^sup>* shop_db (snd (ApplyManualBulk live_env 3 9 ask_raise shop_db))"
    by (rule r_into_rtranclp) (rule service_step.bulk)
  ultimately show ?thesis
    using uploads_are_vetted_changes [of live_env shop_db "snd (ApplyManualBulk live_env 3 9 ask_raise shop_db)" 1] raise_run by fastforce
qed

definition done_entry :: PriceScheduleEntry where
  "done_entry = revert_entry\<lparr>se_Status := PriceScheduleDone\<rparr>"

theorem finished_schedule_final_witness:
  "done_entry \<in> set (price_schedule_entries (snd (ApplyManualBulk live_env 3 9 ask_raise (shop_db\<lparr>price_schedule_entries := [done_entry]\<rparr>))))"
proof -
  let ?db = "shop_db\<lparr>price_schedule_entries := [done_entry]\<rparr>"
  have "start_state live_env ?db"
    by (auto simp: start_state_def shop_db_def run_db0_def live_env_def inj_def)
  moreover have "(service_step live_env)\<^sup>*\<^sup>* ?db (snd (ApplyManualBulk live_env 3 9 ask_raise ?db))"
    by (rule r_into_rtranclp) (rule service_step.bulk)
  ultimately show ?thesis
    using finished_schedule_final [OF _ rtranclp.rtrancl_refl, of live_env ?db "snd (ApplyManualBulk live_env 3 9 ask_raise ?db)" done_entry]
    by (simp add: done_entry_def)
qed


end
